(* ===== verification/Prelude.thy ===== *)
theory Prelude
  imports Complex_Main
begin

text \<open>
  The layer every component of the development shares: the part of the Python run time that
  the modelled code uses (string methods, \<open>int(...)\<close>, truthiness, exceptions, the values
  a JSON body can hold) and the SQL statements it issues, read as operations on tables.

  Conventions.
  \<^item> A string is a list of characters; a character stands for one Latin-1 code point, which is
    enough for every literal the modelled code compares with (a check-mark sign accepted by
    \<open>_is_checked\<close> is the one literal outside that range).
  \<^item> A byte string is a \<^typ>\<open>string\<close> too: \<^typ>\<open>char\<close> has exactly 256 values.
  \<^item> Python integers are \<^typ>\<open>int\<close>; floating-point numbers (coordinates, epoch seconds) are
    \<^typ>\<open>real\<close>, so rounding of intermediate results is not modelled.
  \<^item> A table is the list of its rows in insertion order, which is the order of the
    \<open>AUTOINCREMENT\<close> ids.
\<close>

section \<open>Names for types\<close>

type_synonym bytes = string
type_synonym time = real

named_theorems py_simps \<open>evaluation of the Python string layer\<close>
named_theorems sql_simps \<open>rewriting of table operations\<close>

section \<open>Exceptions and results\<close>

text \<open>The exceptions the modelled code raises or catches by name.\<close>

datatype py_exc = ValueError | TypeError | IndexError | KeyError | AttributeError | OtherError

text \<open>\<open>try_bind\<close> sequences two steps that may raise: the first exception ends the computation.\<close>

definition try_bind :: "py_exc + 'a \<Rightarrow> ('a \<Rightarrow> py_exc + 'b) \<Rightarrow> py_exc + 'b" where
  "try_bind m f = (case m of Inl e \<Rightarrow> Inl e | Inr x \<Rightarrow> f x)"

lemma try_bind_simps [simp]:
  "try_bind (Inl e) f = Inl e"
  "try_bind (Inr x) f = f x"
  by (simp_all add: try_bind_def)

lemma try_bind_eq_Inr: "try_bind m f = Inr y \<longleftrightarrow> (\<exists>x. m = Inr x \<and> f x = Inr y)"
  by (cases m) simp_all

section \<open>Characters and strings\<close>

definition char_code :: "char \<Rightarrow> nat" where
  "char_code c = of_char c"

definition is_space :: "char \<Rightarrow> bool" where
  "is_space c = (let n = char_code c in
     (9 \<le> n \<and> n \<le> 13) \<or> (28 \<le> n \<and> n \<le> 32) \<or> n = 133 \<or> n = 160)"

definition is_digit :: "char \<Rightarrow> bool" where
  "is_digit c = (48 \<le> char_code c \<and> char_code c \<le> 57)"

definition is_ascii_alpha :: "char \<Rightarrow> bool" where
  "is_ascii_alpha c = ((65 \<le> char_code c \<and> char_code c \<le> 90) \<or> (97 \<le> char_code c \<and> char_code c \<le> 122))"

definition lower_char :: "char \<Rightarrow> char" where
  "lower_char c = (let n = char_code c in
     if (65 \<le> n \<and> n \<le> 90) \<or> (192 \<le> n \<and> n \<le> 222 \<and> n \<noteq> 215) then char_of (n + 32) else c)"

text \<open>\<open>str.lower()\<close> and \<open>str.strip()\<close>.\<close>

definition py_lower :: "string \<Rightarrow> string" where
  "py_lower s = map lower_char s"

definition py_strip :: "string \<Rightarrow> string" where
  "py_strip s = rev (dropWhile is_space (rev (dropWhile is_space s)))"

definition startswith :: "string \<Rightarrow> string \<Rightarrow> bool" where
  "startswith s p = (take (length p) s = p)"

text \<open>\<open>str.split(c)\<close> for a one-character separator, and \<open>c.join(parts)\<close>.\<close>

fun py_split :: "char \<Rightarrow> string \<Rightarrow> string list" where
  "py_split c [] = [[]]"
| "py_split c (x # xs) =
     (if x = c then [] # py_split c xs
      else (case py_split c xs of [] \<Rightarrow> [[x]] | w # ws \<Rightarrow> (x # w) # ws))"

fun py_join :: "string \<Rightarrow> string list \<Rightarrow> string" where
  "py_join sep [] = []"
| "py_join sep [w] = w"
| "py_join sep (w # ws) = w @ sep @ py_join sep ws"

lemma py_split_not_Nil [simp]: "py_split c s \<noteq> []"
  by (induction s) (auto split: list.splits)

lemma py_split_no_sep: "c \<notin> set s \<Longrightarrow> py_split c s = [s]"
  by (induction s) auto

lemma py_split_append_sep:
  "c \<notin> set w \<Longrightarrow> py_split c (w @ c # s) = w # py_split c s"
  by (induction w) auto

lemma py_split_join:
  assumes "ws \<noteq> []" and "\<forall>w \<in> set ws. c \<notin> set w"
  shows "py_split c (py_join [c] ws) = ws"
  using assms
proof (induction ws rule: induct_list012)
  case (3 w v vs)
  then show ?case by (simp add: py_split_append_sep)
qed (auto simp: py_split_no_sep)

text \<open>Stripping leaves a string alone whose ends are not white space.\<close>

lemma dropWhile_ident: "xs = [] \<or> \<not> P (hd xs) \<Longrightarrow> dropWhile P xs = xs"
  by (cases xs) auto

lemma py_strip_ident:
  "s = [] \<or> (\<not> is_space (hd s) \<and> \<not> is_space (last s)) \<Longrightarrow> py_strip s = s"
  using dropWhile_ident [of s is_space] dropWhile_ident [of "rev s" is_space]
  by (auto simp: py_strip_def hd_rev)

lemma py_strip_no_space: "\<forall>c \<in> set s. \<not> is_space c \<Longrightarrow> py_strip s = s"
  by (rule py_strip_ident) auto

lemma set_py_strip: "set (py_strip s) \<subseteq> set s"
  by (auto simp: py_strip_def dest!: set_dropWhileD)

section \<open>Integers and their decimal text\<close>

definition digit_char :: "nat \<Rightarrow> char" where
  "digit_char n = char_of (n + 48)"

fun show_nat :: "nat \<Rightarrow> string" where
  "show_nat n = (if n < 10 then [digit_char n] else show_nat (n div 10) @ [digit_char (n mod 10)])"

declare show_nat.simps [simp del]

text \<open>\<open>str(i)\<close> for an integer.\<close>

definition py_str :: "int \<Rightarrow> string" where
  "py_str i = (if i < 0 then CHR ''-'' # show_nat (nat (- i)) else show_nat (nat i))"

text \<open>
  The digits of \<open>int(s)\<close>: decimal digits, single underscores allowed between two digits.
  The flag says that the character before was a digit.
\<close>

fun parse_digits :: "bool \<Rightarrow> nat \<Rightarrow> string \<Rightarrow> nat option" where
  "parse_digits pd acc [] = (if pd then Some acc else None)"
| "parse_digits pd acc (c # cs) =
     (if is_digit c then parse_digits True (10 * acc + (char_code c - 48)) cs
      else if c = CHR ''_'' \<and> pd then parse_digits False acc cs
      else None)"

text \<open>\<open>int(s)\<close> for a string: \<open>None\<close> is the \<open>ValueError\<close>.\<close>

definition py_int :: "string \<Rightarrow> int option" where
  "py_int s = (case py_strip s of
      [] \<Rightarrow> None
    | c # cs \<Rightarrow>
        if c = CHR ''-'' then map_option (\<lambda>n. - int n) (parse_digits False 0 cs)
        else if c = CHR ''+'' then map_option int (parse_digits False 0 cs)
        else map_option int (parse_digits False 0 (c # cs)))"

text \<open>An integer the database driver can bind: a signed 64-bit value.\<close>

definition int64 :: "int \<Rightarrow> bool" where
  "int64 i = (- (2 ^ 63) \<le> i \<and> i < 2 ^ 63)"

text \<open>\<open>str.isdigit()\<close> on the modelled characters.\<close>

definition py_isdigit :: "string \<Rightarrow> bool" where
  "py_isdigit s = (s \<noteq> [] \<and> list_all is_digit s)"

lemma char_code_digit_char: "n < 10 \<Longrightarrow> char_code (digit_char n) = n + 48"
  by (simp add: char_code_def digit_char_def)

lemma is_digit_digit_char: "n < 10 \<Longrightarrow> is_digit (digit_char n)"
  by (simp add: is_digit_def char_code_digit_char)

lemma is_digit_not_space: "is_digit c \<Longrightarrow> \<not> is_space c"
  by (auto simp: is_digit_def is_space_def Let_def)

lemma is_digit_not_sign: "is_digit c \<Longrightarrow> c \<noteq> CHR ''-'' \<and> c \<noteq> CHR ''+'' \<and> c \<noteq> CHR '',''"
  by (auto simp: is_digit_def char_code_def)

lemma show_nat_digits: "\<forall>c \<in> set (show_nat n). is_digit c"
proof (induction n rule: show_nat.induct)
  case (1 n)
  then show ?case
    by (subst show_nat.simps) (auto simp: is_digit_digit_char)
qed

lemma not_digit_notin_show_nat: "\<not> is_digit c \<Longrightarrow> c \<notin> set (show_nat n)"
  using show_nat_digits [of n] by blast

lemma not_digit_notin_py_str: "\<not> is_digit c \<Longrightarrow> c \<noteq> CHR ''-'' \<Longrightarrow> c \<notin> set (py_str i)"
  by (simp add: py_str_def not_digit_notin_show_nat)

lemma takeWhile_upto_sep: "c \<notin> set xs \<Longrightarrow> takeWhile (\<lambda>x. x \<noteq> c) (xs @ c # ys) = xs"
  and dropWhile_upto_sep: "c \<notin> set xs \<Longrightarrow> dropWhile (\<lambda>x. x \<noteq> c) (xs @ c # ys) = c # ys"
  by (induction xs) auto

lemma show_nat_not_Nil [simp]: "show_nat n \<noteq> []"
  by (subst show_nat.simps) simp

lemma parse_digits_append:
  "\<forall>c \<in> set xs. is_digit c \<Longrightarrow> xs \<noteq> [] \<Longrightarrow> parse_digits b acc xs = Some m \<Longrightarrow>
   parse_digits b acc (xs @ ys) = parse_digits True m ys"
proof (induction xs arbitrary: b acc)
  case (Cons x xs)
  then show ?case by (cases "xs = []") auto
qed simp

lemma parse_show_nat: "parse_digits b 0 (show_nat n) = Some n"
proof (induction n rule: show_nat.induct)
  case (1 n)
  show ?case
  proof (cases "n < 10")
    case True
    then show ?thesis
      by (subst show_nat.simps) (simp add: is_digit_digit_char char_code_digit_char)
  next
    case False
    with 1 have IH: "parse_digits b 0 (show_nat (n div 10)) = Some (n div 10)" by simp
    from False show ?thesis
      by (subst show_nat.simps)
        (simp add: parse_digits_append [OF show_nat_digits show_nat_not_Nil IH]
           is_digit_digit_char char_code_digit_char)
  qed
qed

lemma py_strip_digits: "\<forall>c \<in> set s. is_digit c \<Longrightarrow> py_strip s = s"
  by (rule py_strip_no_space) (auto dest: is_digit_not_space)

lemma is_space_minus: "\<not> is_space (CHR ''-'')"
  by (simp add: is_space_def char_code_def)

text \<open>Printing and reading back an integer.\<close>

lemma py_int_py_str [simp]: "py_int (py_str i) = Some i"
proof (cases "i < 0")
  case True
  let ?ds = "show_nat (nat (- i))"
  have "\<forall>c \<in> set (CHR ''-'' # ?ds). \<not> is_space c"
    using show_nat_digits [of "nat (- i)"] by (auto simp: is_space_minus dest: is_digit_not_space)
  then have "py_strip (CHR ''-'' # ?ds) = CHR ''-'' # ?ds"
    by (rule py_strip_no_space)
  with True show ?thesis
    by (simp add: py_int_def py_str_def parse_show_nat)
next
  case False
  obtain c cs where ds: "show_nat (nat i) = c # cs"
    by (cases "show_nat (nat i)") auto
  have "py_strip (show_nat (nat i)) = show_nat (nat i)"
    by (rule py_strip_digits [OF show_nat_digits])
  moreover have "is_digit c" using show_nat_digits [of "nat i"] ds by auto
  moreover have "parse_digits False 0 (c # cs) = Some (nat i)"
    using parse_show_nat [of False "nat i"] ds by simp
  ultimately show ?thesis using False ds
    by (auto simp: py_int_def py_str_def dest: is_digit_not_sign)
qed

lemma py_str_inject [simp]: "py_str i = py_str j \<longleftrightarrow> i = j"
  by (metis py_int_py_str option.inject)

section \<open>JSON values\<close>

text \<open>
  What a request body can hold after parsing. An object is the list of its members in the
  order of the text; the parser leaves no duplicate name.
\<close>

datatype json =
    JNull
  | JBool bool
  | JInt int
  | JFloat real
  | JStr string
  | JList "json list"
  | JObj "(string \<times> json) list"

text \<open>\<open>bool(v)\<close>.\<close>

fun truthy :: "json \<Rightarrow> bool" where
  "truthy JNull = False"
| "truthy (JBool b) = b"
| "truthy (JInt i) = (i \<noteq> 0)"
| "truthy (JFloat x) = (x \<noteq> 0)"
| "truthy (JStr s) = (s \<noteq> [])"
| "truthy (JList xs) = (xs \<noteq> [])"
| "truthy (JObj kvs) = (kvs \<noteq> [])"

text \<open>\<open>d.get(k)\<close>: an absent member reads as null.\<close>

definition jget :: "(string \<times> json) list \<Rightarrow> string \<Rightarrow> json" where
  "jget kvs k = (case map_of kvs k of None \<Rightarrow> JNull | Some v \<Rightarrow> v)"

text \<open>\<open>int(v)\<close> and \<open>float(v)\<close> of a JSON value, with the exception that a wrong value raises.
  The text of a floating-point number is read by the parameter \<open>pf\<close> of \<open>jfloat\<close>.\<close>

fun jint :: "json \<Rightarrow> py_exc + int" where
  "jint (JInt i) = Inr i"
| "jint (JBool b) = Inr (if b then 1 else 0)"
| "jint (JFloat x) = Inr (if x < 0 then - \<lfloor>- x\<rfloor> else \<lfloor>x\<rfloor>)"
| "jint (JStr s) = (case py_int s of None \<Rightarrow> Inl ValueError | Some i \<Rightarrow> Inr i)"
| "jint _ = Inl TypeError"

fun jfloat :: "(string \<Rightarrow> real option) \<Rightarrow> json \<Rightarrow> py_exc + real" where
  "jfloat pf (JInt i) = Inr (of_int i)"
| "jfloat pf (JBool b) = Inr (if b then 1 else 0)"
| "jfloat pf (JFloat x) = Inr x"
| "jfloat pf (JStr s) = (case pf s of None \<Rightarrow> Inl ValueError | Some x \<Rightarrow> Inr x)"
| "jfloat pf _ = Inl TypeError"

text \<open>\<open>d[k] = v\<close> on a dict: an old key keeps its place, a new one goes to the end.\<close>

fun dict_set :: "'k \<Rightarrow> 'v \<Rightarrow> ('k \<times> 'v) list \<Rightarrow> ('k \<times> 'v) list" where
  "dict_set k v [] = [(k, v)]"
| "dict_set k v ((k', v') # d) = (if k' = k then (k, v) # d else (k', v') # dict_set k v d)"

lemma map_of_dict_set [simp]: "map_of (dict_set k v d) = (map_of d)(k \<mapsto> v)"
  by (induction k v d rule: dict_set.induct) auto

lemma fst_dict_set: "fst ` set (dict_set k v d) = insert k (fst ` set d)"
  by (induction k v d rule: dict_set.induct) auto

lemma distinct_dict_set: "distinct (map fst d) \<Longrightarrow> distinct (map fst (dict_set k v d))"
proof (induction k v d rule: dict_set.induct)
  case (2 k v k' v' d)
  then show ?case
    using fst_dict_set [of k v d] by (auto simp: image_iff)
qed simp

section \<open>Tables\<close>

text \<open>
  \<open>UPDATE t SET ... WHERE P\<close>, \<open>DELETE FROM t WHERE P\<close>, the row count either reports, and the
  row \<open>fetchone()\<close> returns.
\<close>

definition upd_where :: "('r \<Rightarrow> bool) \<Rightarrow> ('r \<Rightarrow> 'r) \<Rightarrow> 'r list \<Rightarrow> 'r list" where
  "upd_where P f t = map (\<lambda>r. if P r then f r else r) t"

definition del_where :: "('r \<Rightarrow> bool) \<Rightarrow> 'r list \<Rightarrow> 'r list" where
  "del_where P t = filter (\<lambda>r. \<not> P r) t"

definition rowcount :: "('r \<Rightarrow> bool) \<Rightarrow> 'r list \<Rightarrow> nat" where
  "rowcount P t = length (filter P t)"

lemma upd_where_Nil [simp]: "upd_where P f [] = []"
  and upd_where_Cons [simp]:
    "upd_where P f (r # t) = (if P r then f r else r) # upd_where P f t"
  and upd_where_append [simp]: "upd_where P f (t @ u) = upd_where P f t @ upd_where P f u"
  by (simp_all add: upd_where_def)

lemma del_where_Nil [simp]: "del_where P [] = []"
  and del_where_Cons [simp]: "del_where P (r # t) = (if P r then del_where P t else r # del_where P t)"
  by (simp_all add: del_where_def)

lemma length_upd_where [simp]: "length (upd_where P f t) = length t"
  by (simp add: upd_where_def)

lemma set_upd_where: "set (upd_where P f t) = (\<lambda>r. if P r then f r else r) ` set t"
  by (simp add: upd_where_def)

lemma set_del_where [simp]: "set (del_where P t) = {r \<in> set t. \<not> P r}"
  by (auto simp: del_where_def)

lemma upd_where_no_match: "\<forall>r \<in> set t. \<not> P r \<Longrightarrow> upd_where P f t = t"
  by (induction t) auto

text \<open>A column no update writes keeps its values, and a row test that reads only such columns
  is not affected.\<close>

lemma map_upd_where [sql_simps]: "(\<And>r. g (f r) = g r) \<Longrightarrow> map g (upd_where P f t) = map g t"
  by (induction t) auto

lemma filter_upd_where [sql_simps]:
  "(\<And>r. Q (f r) = Q r) \<Longrightarrow> filter Q (upd_where P f t) = upd_where P f (filter Q t)"
  by (induction t) auto

lemma find_upd_where [sql_simps]:
  "(\<And>r. Q (f r) = Q r) \<Longrightarrow>
   find Q (upd_where P f t) = map_option (\<lambda>r. if P r then f r else r) (find Q t)"
  by (induction t) auto

lemma find_key_upd_same:
  "(\<And>r. key (f r) = key r) \<Longrightarrow>
   find (\<lambda>r. key r = k) (upd_where (\<lambda>r. key r = k) f t) = map_option f (find (\<lambda>r. key r = k) t)"
  by (induction t) auto

lemma find_key_upd_other:
  "(\<And>r. key (f r) = key r) \<Longrightarrow> j \<noteq> k \<Longrightarrow>
   find (\<lambda>r. key r = j) (upd_where (\<lambda>r. key r = k) f t) = find (\<lambda>r. key r = j) t"
  by (induction t) auto

lemma find_del_where_other: "(\<And>r. Q r \<Longrightarrow> \<not> P r) \<Longrightarrow> find Q (del_where P t) = find Q t"
  by (induction t) auto

lemma find_append: "find Q (t @ u) = (case find Q t of None \<Rightarrow> find Q u | Some r \<Rightarrow> Some r)"
  by (induction t) auto

lemma find_SomeD: "find Q t = Some r \<Longrightarrow> r \<in> set t \<and> Q r"
  by (induction t) (auto split: if_splits)

lemma find_None_upd_where: "(\<And>r. Q (f r) = Q r) \<Longrightarrow> find Q t = None \<Longrightarrow> find Q (upd_where P f t) = None"
  by (simp add: find_upd_where)

lemma rowcount_zero_iff: "rowcount P t = 0 \<longleftrightarrow> (\<forall>r \<in> set t. \<not> P r)"
  by (simp add: rowcount_def filter_empty_conv)

lemma rowcount_pos_iff: "0 < rowcount P t \<longleftrightarrow> (\<exists>r \<in> set t. P r)"
  by (auto simp: rowcount_def filter_empty_conv)

text \<open>With a primary key, at most one row carries a key.\<close>

lemma find_key:
  "distinct (map key t) \<Longrightarrow> r \<in> set t \<Longrightarrow> find (\<lambda>x. key x = key r) t = Some r"
  by (induction t) (auto simp: image_iff)

lemma key_unique:
  "distinct (map key t) \<Longrightarrow> r \<in> set t \<Longrightarrow> r' \<in> set t \<Longrightarrow> key r = key r' \<Longrightarrow> r = r'"
  by (induction t) (auto simp: image_iff)

lemma rowcount_key:
  "distinct (map key t) \<Longrightarrow>
   rowcount (\<lambda>r. key r = k \<and> P r) t =
     (case find (\<lambda>r. key r = k) t of None \<Rightarrow> 0 | Some r \<Rightarrow> if P r then 1 else 0)"
proof (induction t)
  case (Cons a t)
  have "find (\<lambda>r. key r = key a) t = None"
    using Cons.prems unfolding find_None_iff by (metis distinct.simps(2) image_eqI list.set_map list.simps(9))
  with Cons show ?case by (auto simp: rowcount_def)
qed (simp add: rowcount_def)

section \<open>NULL-able time stamps\<close>

text \<open>\<open>bool(row["..._at"])\<close>: neither NULL nor \<open>0.0\<close>.\<close>

fun is_set :: "time option \<Rightarrow> bool" where
  "is_set None = False"
| "is_set (Some t) = (t \<noteq> 0)"

text \<open>\<open>COALESCE(x, y)\<close>.\<close>

definition coalesce :: "'a option \<Rightarrow> 'a \<Rightarrow> 'a" where
  "coalesce x y = (case x of None \<Rightarrow> y | Some v \<Rightarrow> v)"

lemma coalesce_simps [simp]: "coalesce None y = y" "coalesce (Some v) y = v"
  by (simp_all add: coalesce_def)

end
