(* ===== verification/PdfOps.thy ===== *)
theory PdfOps
  imports Prelude
begin

text \<open>
  The page operations of \<open>sign/pdf_ops.py\<close>: count, merge, split, extract, reorder, rotate,
  delete. The PDF library under them (pikepdf) is third-party code and is a parameter, the
  record \<open>pikepdf\<close> of its two entry points: opening bytes as a list of pages and saving a list
  of pages as bytes. A page is what the operations see of it, its content and its
  \<open>/Rotate\<close> entry. The predicate \<open>pk_faithful\<close> states the one thing the operations rely on:
  opening a saved document gives its pages back.
\<close>

section \<open>The library underneath\<close>

record pdf_page =
  pg_body :: bytes
  pg_rotate :: int

record pikepdf =
  pk_open :: "bytes \<Rightarrow> pdf_page list option"
  pk_save :: "pdf_page list \<Rightarrow> bytes"

text \<open>\<open>page.rotate(deg, relative=True)\<close>.\<close>

definition rotate_by :: "int \<Rightarrow> pdf_page \<Rightarrow> pdf_page" where
  "rotate_by deg pg = pg\<lparr>pg_rotate := (pg_rotate pg + deg) mod 360\<rparr>"

section \<open>Private helpers\<close>

definition pdf_open :: "pikepdf \<Rightarrow> bytes \<Rightarrow> py_exc + pdf_page list" where
  "pdf_open pk data =
     (if data = [] then Inl ValueError
      else case pk_open pk data of None \<Rightarrow> Inl ValueError | Some ps \<Rightarrow> Inr ps)"

definition to_bytes :: "pikepdf \<Rightarrow> pdf_page list \<Rightarrow> bytes" where
  "to_bytes pk ps = pk_save pk ps"

definition validate_index :: "int \<Rightarrow> int \<Rightarrow> py_exc + int" where
  "validate_index i n = (if 0 \<le> i \<and> i < n then Inr i else Inl IndexError)"

text \<open>Validating a list of indices stops at the first bad one.\<close>

fun validate_all :: "int list \<Rightarrow> int \<Rightarrow> py_exc + int list" where
  "validate_all [] n = Inr []"
| "validate_all (i # is) n =
     try_bind (validate_index i n) (\<lambda>j. try_bind (validate_all is n) (\<lambda>js. Inr (j # js)))"

text \<open>\<open>[pdf.pages[i] for i in idx]\<close>, for indices in range.\<close>

definition pick :: "pdf_page list \<Rightarrow> int list \<Rightarrow> pdf_page list" where
  "pick ps idx = map (\<lambda>i. ps ! nat i) idx"

section \<open>Public operations\<close>

definition page_count :: "pikepdf \<Rightarrow> bytes \<Rightarrow> py_exc + int" where
  "page_count pk data = try_bind (pdf_open pk data) (\<lambda>ps. Inr (int (length ps)))"

fun open_all :: "pikepdf \<Rightarrow> bytes list \<Rightarrow> py_exc + pdf_page list" where
  "open_all pk [] = Inr []"
| "open_all pk (d # ds) =
     try_bind (pdf_open pk d) (\<lambda>ps. try_bind (open_all pk ds) (\<lambda>qs. Inr (ps @ qs)))"

definition merge :: "pikepdf \<Rightarrow> bytes list \<Rightarrow> py_exc + bytes" where
  "merge pk pdfs =
     (if pdfs = [] then Inl ValueError
      else try_bind (open_all pk pdfs) (\<lambda>ps. Inr (to_bytes pk ps)))"

definition split :: "pikepdf \<Rightarrow> bytes \<Rightarrow> py_exc + bytes list" where
  "split pk data = try_bind (pdf_open pk data) (\<lambda>ps. Inr (map (\<lambda>p. to_bytes pk [p]) ps))"

fun range_indices :: "(int \<times> int) list \<Rightarrow> int \<Rightarrow> py_exc + int list" where
  "range_indices [] n = Inr []"
| "range_indices ((s, e) # rs) n =
     try_bind (validate_index s n) (\<lambda>s.
     try_bind (validate_index e n) (\<lambda>e.
       if s > e then Inl ValueError
       else try_bind (range_indices rs n) (\<lambda>is. Inr ([s..e] @ is))))"

definition extract_pages :: "pikepdf \<Rightarrow> bytes \<Rightarrow> (int \<times> int) list \<Rightarrow> py_exc + bytes" where
  "extract_pages pk data ranges =
     try_bind (pdf_open pk data) (\<lambda>ps.
     try_bind (range_indices ranges (int (length ps))) (\<lambda>idx.
       Inr (to_bytes pk (pick ps idx))))"

definition is_page_perm :: "int list \<Rightarrow> int \<Rightarrow> bool" where
  "is_page_perm order n = (sort order = [0..n - 1])"

definition reorder_pages :: "pikepdf \<Rightarrow> bytes \<Rightarrow> int list \<Rightarrow> py_exc + bytes" where
  "reorder_pages pk data order =
     try_bind (pdf_open pk data) (\<lambda>ps.
       if \<not> is_page_perm order (int (length ps)) then Inl ValueError
       else Inr (to_bytes pk (pick ps order)))"

definition allowed_rotation :: "int \<Rightarrow> bool" where
  "allowed_rotation deg = (deg \<in> {-270, -180, -90, 0, 90, 180, 270})"

fun clean_rotations :: "(int \<times> int) list \<Rightarrow> int \<Rightarrow> py_exc + (int \<times> int) list" where
  "clean_rotations [] n = Inr []"
| "clean_rotations ((k, deg) # rs) n =
     try_bind (validate_index k n) (\<lambda>i.
       if \<not> allowed_rotation deg then Inl ValueError
       else try_bind (clean_rotations rs n) (\<lambda>cs. Inr ((i, deg mod 360) # cs)))"

definition apply_rotations :: "(int \<times> int) list \<Rightarrow> pdf_page list \<Rightarrow> pdf_page list" where
  "apply_rotations cs ps = fold (\<lambda>(i, deg) qs. qs[nat i := rotate_by deg (qs ! nat i)]) cs ps"

definition rotate_pages :: "pikepdf \<Rightarrow> bytes \<Rightarrow> (int \<times> int) list \<Rightarrow> py_exc + bytes" where
  "rotate_pages pk data rotations =
     try_bind (pdf_open pk data) (\<lambda>ps.
     try_bind (clean_rotations rotations (int (length ps))) (\<lambda>cs.
       Inr (to_bytes pk (apply_rotations cs ps))))"

definition delete_pages :: "pikepdf \<Rightarrow> bytes \<Rightarrow> int list \<Rightarrow> py_exc + bytes" where
  "delete_pages pk data pages =
     try_bind (pdf_open pk data) (\<lambda>ps.
     try_bind (validate_all pages (int (length ps))) (\<lambda>drop.
       let keep = filter (\<lambda>i. i \<notin> set drop) [0..int (length ps) - 1]
       in if keep = [] then Inl ValueError else Inr (to_bytes pk (pick ps keep))))"

section \<open>Index lists\<close>

lemma validate_index_Inr [simp]:
  "validate_index i n = Inr j \<longleftrightarrow> j = i \<and> 0 \<le> i \<and> i < n"
  by (auto simp: validate_index_def)

lemma validate_all_eq:
  "validate_all idx n =
     (if \<forall>i \<in> set idx. 0 \<le> i \<and> i < n then Inr idx else Inl IndexError)"
  by (induction idx) (auto simp: validate_index_def)

lemma page_perm_set:
  assumes "is_page_perm order n"
  shows "set order = {0..<n}"
proof -
  have "set order = set (sort order)" by (rule set_sort [symmetric])
  also have "\<dots> = set [0..n - 1]"
    using assms by (simp only: is_page_perm_def)
  also have "\<dots> = {0..<n}" by (auto simp: set_eq_iff)
  finally show ?thesis .
qed

lemma page_perm_distinct:
  assumes "is_page_perm order n"
  shows "distinct order"
proof -
  have "distinct (sort order)"
    using assms by (simp only: is_page_perm_def distinct_upto)
  then show ?thesis by simp
qed

lemma page_perm_length:
  assumes "is_page_perm order n" and "0 \<le> n"
  shows "length order = nat n"
proof -
  have "length (sort order) = length [0..n - 1]"
    using assms(1) by (simp only: is_page_perm_def)
  then show ?thesis by simp
qed

lemma length_pick [simp]: "length (pick ps idx) = length idx"
  by (simp add: pick_def)

lemma nth_pick: "k < length idx \<Longrightarrow> pick ps idx ! k = ps ! nat (idx ! k)"
  by (simp add: pick_def)

lemma map_nth_upto: "map (\<lambda>i. xs ! nat i) [0..int (length xs) - 1] = xs"
  by (rule nth_equalityI) (simp_all add: nth_upto)

text \<open>Keeping the complement of one index is dropping one element.\<close>

lemma filter_upto_neq:
  assumes "0 \<le> p" and "p < n"
  shows "filter (\<lambda>i. i \<noteq> p) [0..n - 1] = [0..p - 1] @ [p + 1..n - 1]"
proof -
  have "[0..n - 1] = [0..p - 1] @ p # [p + 1..n - 1]"
    using assms upto_split2 [of 0 "p - 1" "n - 1"] upto_rec1 [of p "n - 1"]
    by (cases "p = 0") auto
  moreover have "filter (\<lambda>i. i \<noteq> p) [0..p - 1] = [0..p - 1]"
    by (rule filter_True) auto
  moreover have "filter (\<lambda>i. i \<noteq> p) [p + 1..n - 1] = [p + 1..n - 1]"
    by (rule filter_True) auto
  ultimately show ?thesis by simp
qed

section \<open>Documents that survive a save\<close>

text \<open>
  What the operations rely on: a saved document is not empty and opens as the pages it was
  saved from. It is the hypothesis of the properties below and holds of the concrete library
  \<open>ref_pikepdf\<close> at the end of this theory.
\<close>

definition pk_faithful :: "pikepdf \<Rightarrow> bool" where
  "pk_faithful pk = (\<forall>ps. pk_save pk ps \<noteq> [] \<and> pk_open pk (pk_save pk ps) = Some ps)"

lemma open_to_bytes [simp]: "pk_faithful pk \<Longrightarrow> pdf_open pk (to_bytes pk ps) = Inr ps"
  by (simp add: pdf_open_def to_bytes_def pk_faithful_def)

lemma count_to_bytes [simp]: "pk_faithful pk \<Longrightarrow> page_count pk (to_bytes pk ps) = Inr (int (length ps))"
  by (simp add: page_count_def)

lemma open_all_split: "pk_faithful pk \<Longrightarrow> open_all pk (map (\<lambda>p. to_bytes pk [p]) ps) = Inr ps"
  by (induction ps) simp_all

lemma delete_one:
  assumes "pk_faithful pk" and "pdf_open pk d = Inr ps"
    and "0 \<le> p" and "p < int (length ps)" and "1 < length ps"
  shows "\<exists>out. delete_pages pk d [p] = Inr out \<and>
    pdf_open pk out = Inr (take (nat p) ps @ drop (nat p + 1) ps)"
proof -
  let ?n = "int (length ps)"
  have keep: "filter (\<lambda>i. i \<notin> set [p]) [0..?n - 1] = [0..p - 1] @ [p + 1..?n - 1]"
    using filter_upto_neq [OF assms(3,4)] by simp
  have ne: "[0..p - 1] @ [p + 1..?n - 1] \<noteq> []"
    using assms(3-5) by (cases "p = 0") auto
  have "pick ps ([0..p - 1] @ [p + 1..?n - 1]) = take (nat p) ps @ drop (nat p + 1) ps"
    using assms(3,4) by (intro nth_equalityI)
      (auto simp: pick_def nth_append nth_upto nat_add_distrib nat_diff_distrib add.commute
        intro!: arg_cong [where f = "\<lambda>k. ps ! k"])
  moreover have "validate_all [p] ?n = Inr [p]"
    using assms(3,4) by (simp add: validate_all_eq del: validate_all.simps)
  ultimately show ?thesis
    using assms(1,2) keep ne
    by (simp add: delete_pages_def Let_def del: set_simps validate_all.simps)
qed

lemma delete_last_page_refused:
  "pdf_open pk d = Inr [pg] \<Longrightarrow> delete_pages pk d [0] = Inl ValueError"
  by (simp add: delete_pages_def validate_index_def)

lemma reorder_nth:
  assumes "pk_faithful pk" and "pdf_open pk d = Inr ps" and "is_page_perm order (int (length ps))"
  shows "\<exists>out qs. reorder_pages pk d order = Inr out \<and> pdf_open pk out = Inr qs \<and>
    length qs = length ps \<and> (\<forall>k < length ps. qs ! k = ps ! nat (order ! k))"
  using assms page_perm_length [OF assms(3)]
  by (auto simp: reorder_pages_def nth_pick)

section \<open>A concrete library\<close>

text \<open>
  A document is saved as a mark followed by its pages: every byte of a body after a \<open>c\<close>, then
  an \<open>r\<close>, the rotation in decimal and a semicolon. It instantiates the parameter in witnesses.
\<close>

definition ref_page :: "pdf_page \<Rightarrow> bytes" where
  "ref_page pg = concat (map (\<lambda>c. [CHR ''c'', c]) (pg_body pg)) @ CHR ''r'' # py_str (pg_rotate pg) @ [CHR '';'']"

function ref_parse :: "bytes \<Rightarrow> bytes \<Rightarrow> pdf_page list option" where
  "ref_parse acc [] = (if acc = [] then Some [] else None)"
| "ref_parse acc (k # rest) =
     (if k = CHR ''c'' then (case rest of [] \<Rightarrow> None | c # cs \<Rightarrow> ref_parse (acc @ [c]) cs)
      else if k = CHR ''r'' then
        (case py_int (takeWhile (\<lambda>x. x \<noteq> CHR '';'') rest) of
           None \<Rightarrow> None
         | Some i \<Rightarrow> map_option (Cons \<lparr>pg_body = acc, pg_rotate = i\<rparr>)
                       (ref_parse [] (tl (dropWhile (\<lambda>x. x \<noteq> CHR '';'') rest))))
      else None)"
  by pat_completeness auto
termination
  by (relation "measure (\<lambda>(acc, s). length s)")
    (auto simp: less_Suc_eq_le intro!: le_trans [OF diff_le_self length_dropWhile_le])

definition ref_pikepdf :: pikepdf where
  "ref_pikepdf =
     \<lparr>pk_open = (\<lambda>d. if d = [] then None else ref_parse [] (tl d)),
      pk_save = (\<lambda>ps. CHR ''%'' # concat (map ref_page ps))\<rparr>"

lemma semicolon_notin_py_str: "CHR '';'' \<notin> set (py_str i)"
  by (rule not_digit_notin_py_str) (simp_all add: is_digit_def char_code_def)

lemma ref_parse_body:
  "ref_parse acc (concat (map (\<lambda>c. [CHR ''c'', c]) b) @ s) = ref_parse (acc @ b) s"
  by (induction b arbitrary: acc) simp_all

lemma ref_parse_page: "ref_parse [] (ref_page pg @ s) = map_option (Cons pg) (ref_parse [] s)"
proof -
  have "ref_parse [] (ref_page pg @ s) =
    ref_parse (pg_body pg) (CHR ''r'' # py_str (pg_rotate pg) @ CHR '';'' # s)"
    using ref_parse_body [of "[]" "pg_body pg"] by (simp add: ref_page_def)
  also have "\<dots> = map_option (Cons pg) (ref_parse [] s)"
    using semicolon_notin_py_str [of "pg_rotate pg"]
    by (cases pg) (simp add: takeWhile_upto_sep dropWhile_upto_sep)
  finally show ?thesis .
qed

lemma ref_parse_pages: "ref_parse [] (concat (map ref_page ps)) = Some ps"
  by (induction ps) (simp_all add: ref_parse_page)

lemma ref_pikepdf_faithful: "pk_faithful ref_pikepdf"
  by (simp add: pk_faithful_def ref_pikepdf_def ref_parse_pages)

end
