(* ===== verification/Schema.thy ===== *)
theory Schema
  imports PdfOps
begin

text \<open>
  The data model of the signing engine (\<open>sign/esign.py\<close>): the rows of its five tables, the
  state \<open>world\<close> that every operation takes and returns (the tables, their id counters, the
  stored files, and what left the process: e-mails and webhook events), and the third-party
  code the engine calls, gathered in the record \<open>engine\<close>.
\<close>

section \<open>Statuses\<close>

text \<open>
  \<open>agreements.status\<close> and \<open>agreement_signers.status\<close> hold one of the strings the code writes or
  compares with; the last constructor of each type is a blank legacy value.
\<close>

datatype agr_status =
    Draft | OutForSignature | Sealing | Completed | Voided | Cancelled | Declined | Expired
  | NoStatus

text \<open>The text stored in the column.\<close>

fun status_text :: "agr_status \<Rightarrow> string" where
  "status_text Draft = ''draft''"
| "status_text OutForSignature = ''out_for_signature''"
| "status_text Sealing = ''sealing''"
| "status_text Completed = ''completed''"
| "status_text Voided = ''voided''"
| "status_text Cancelled = ''cancelled''"
| "status_text Declined = ''declined''"
| "status_text Expired = ''expired''"
| "status_text NoStatus = []"

datatype sig_status = Pending | Sent | Viewed | Signed | SigDeclined | SigDraft | NoSigStatus

section \<open>Rows\<close>

record agreement =
  a_id :: int
  a_name :: string
  a_message :: string
  a_status :: agr_status
  a_created_by :: string
  a_order_mode :: string
  a_source_path :: string
  a_executed_path :: string
  a_doc_hash :: string
  a_envelope_id :: string
  a_source_doc_id :: "int option"
  a_frozen_path :: string
  a_frozen_hash :: string
  a_sealed_hash :: string
  a_preseal_hash :: string
  a_seal_method :: string
  a_epoch :: int
  a_owner :: "int option"
  a_edited_pages :: string
  a_created_at :: "time option"
  a_sent_at :: "time option"
  a_completed_at :: "time option"
  a_sealing_at :: "time option"
  a_expires_at :: "time option"
  a_expired_at :: "time option"

record signer =
  s_id :: int
  s_agr :: int
  s_name :: string
  s_email :: string
  s_role :: string
  s_order :: int
  s_color :: string
  s_token :: "string option"
  s_status :: sig_status
  s_viewed_at :: "time option"
  s_signed_at :: "time option"
  s_ip :: string
  s_ua :: string
  s_consent :: bool
  s_signature_id :: string
  s_is_consumer :: bool
  s_auth_method :: string
  s_consent_at :: "time option"
  s_consent_ip :: string
  s_disclosure_version :: string
  s_disclosure_hash :: string
  s_access_demonstrated :: bool
  s_access_method :: string
  s_withdrawn_at :: "time option"
  s_challenge_type :: string
  s_challenge_prompt :: string
  s_challenge_salt :: string
  s_challenge_hash :: string
  s_challenge_iters :: int
  s_challenge_passed_at :: "time option"
  s_env_method :: string
  s_env_at :: "time option"
  s_env_email :: string
  s_otp_at :: "time option"

record field =
  f_id :: int
  f_agr :: int
  f_signer :: "int option"
  f_type :: string
  f_page :: int
  f_x :: real
  f_y :: real
  f_w :: real
  f_h :: real
  f_required :: bool
  f_value :: string
  f_placeholder :: string
  f_prefill :: bool
  f_prompt :: string
  f_key :: string
  f_adopted_at :: json
  f_method :: string

record event =
  e_agr :: int
  e_signer :: "int option"
  e_type :: string
  e_ip :: string
  e_ua :: string
  e_detail :: string
  e_at :: time

text \<open>The two layout columns hold JSON text; they are modelled by the list the text parses to.\<close>

record template =
  t_id :: int
  t_name :: string
  t_created_by :: string
  t_source_path :: string
  t_doc_hash :: string
  t_source_doc_id :: "int option"
  t_source_agr :: "int option"
  t_signers :: "json list"
  t_fields :: "json list"
  t_page_n :: int
  t_created_at :: "time option"
  t_archived_at :: "time option"
  t_owner :: "int option"

section \<open>What leaves the process\<close>

datatype mail_kind = Invite | Reminder | CompletedCopy | DeclinedNotice | ExpiredNotice

record mail =
  m_to :: string
  m_kind :: mail_kind
  m_agr :: int
  m_url :: string

record hook =
  h_event :: string
  h_agr :: int
  h_signer :: "int option"
  h_owner :: "int option"

section \<open>The state\<close>

record world =
  agreement_rows :: "agreement list"
  signer_rows :: "signer list"
  field_rows :: "field list"
  event_rows :: "event list"
  template_rows :: "template list"
  next_agr :: int
  next_sig :: int
  next_fld :: int
  next_tpl :: int
  files :: "string \<Rightarrow> bytes option"
  outbox :: "mail list"
  hooks :: "hook list"

definition empty_world :: world where
  "empty_world =
     \<lparr>agreement_rows = [], signer_rows = [], field_rows = [], event_rows = [], template_rows = [],
      next_agr = 1, next_sig = 1, next_fld = 1, next_tpl = 1,
      files = (\<lambda>_. None), outbox = [], hooks = []\<rparr>"

section \<open>Third-party code and configuration\<close>

text \<open>
  What the engine hands to the PDF layer: the stamps burnt into the document and the data the
  Certificate of Completion is rendered from.
\<close>

record stamp_meta =
  sm_name :: string
  sm_ip :: string
  sm_when :: string
  sm_sig_id :: string
  sm_env :: string

record stamp =
  st_type :: string
  st_page :: int
  st_box :: "real \<times> real \<times> real \<times> real"
  st_value :: string
  st_meta :: "stamp_meta option"

record cert_input =
  ci_agr :: agreement
  ci_signers :: "signer list"
  ci_events :: "event list"
  ci_preseal :: string
  ci_signatures :: "(int option \<times> string) list"
  ci_pages :: int
  ci_fields_n :: nat
  ci_consumer :: bool
  ci_method :: string

text \<open>
  \<open>engine\<close> gathers the code the engine calls and does not own: \<open>hashlib\<close>'s SHA-256, the functions
  behind the facade \<open>sign/pdf_edit.py\<close> (wrappers of pdfium, Pillow, reportlab, pyHanko and pikepdf;
  an exception is \<open>None\<close>), the mail transport (does it accept a message to this address?), local time
  formatting, \<open>str\<close> of floating-point numbers and containers, and the values read from the
  configuration.
\<close>

datatype edit_exc = EditError string int | PyExc py_exc string

record engine =
  en_pk :: pikepdf
  en_sha256 :: "bytes \<Rightarrow> string"
  en_page_count :: "bytes \<Rightarrow> int option"
  en_apply_edits :: "bytes \<Rightarrow> json list \<Rightarrow> edit_exc + bytes"
  en_replace_runs :: "bytes \<Rightarrow> json list \<Rightarrow> edit_exc + bytes"
  en_flatten :: "bytes \<Rightarrow> int list \<Rightarrow> bytes option"
  en_valid_image :: "bytes \<Rightarrow> bool"
  en_unsupported :: "string \<Rightarrow> string"
  en_stamp :: "bytes \<Rightarrow> stamp list \<Rightarrow> bytes option"
  en_certificate :: "cert_input \<Rightarrow> bytes option"
  en_append :: "bytes \<Rightarrow> bytes \<Rightarrow> bytes option"
  en_sanitize :: "bytes \<Rightarrow> bytes option"
  en_secure :: "bytes \<Rightarrow> bytes option"
  en_certify :: "bytes \<Rightarrow> bytes option"
  en_material_configured :: bool
  en_material_ok :: bool
  en_mail_ok :: "string \<Rightarrow> bool"
  en_fmt_signed :: "time option \<Rightarrow> string"
  en_page_dims :: "bytes \<Rightarrow> (real \<times> real) list option"
  en_str :: "json \<Rightarrow> string"
  en_parse_float :: "string \<Rightarrow> real option"
  en_sender_email :: string
  en_mail_from :: string
  en_public_base :: string

section \<open>Values out of a request\<close>

text \<open>\<open>s or d\<close> on strings, and \<open>str(v or "")\<close> on a JSON value.\<close>

definition nonblank :: "string \<Rightarrow> string \<Rightarrow> string" where
  "nonblank s d = (if s = [] then d else s)"

definition str_or_empty :: "engine \<Rightarrow> json \<Rightarrow> string" where
  "str_or_empty eng j =
     (if \<not> truthy j then []
      else case j of JStr s \<Rightarrow> s | JInt i \<Rightarrow> py_str i | JBool b \<Rightarrow> ''True'' | _ \<Rightarrow> en_str eng j)"

section \<open>Shared queries and the audit trail\<close>

text \<open>\<open>SELECT * FROM agreements WHERE id=?\<close>, and the children of one agreement.\<close>

definition agr_row :: "world \<Rightarrow> int \<Rightarrow> agreement option" where
  "agr_row w aid = find (\<lambda>a. a_id a = aid) (agreement_rows w)"

definition agr_signers :: "world \<Rightarrow> int \<Rightarrow> signer list" where
  "agr_signers w aid = sort_key s_order (filter (\<lambda>s. s_agr s = aid) (signer_rows w))"

definition agr_fields :: "world \<Rightarrow> int \<Rightarrow> field list" where
  "agr_fields w aid = filter (\<lambda>f. f_agr f = aid) (field_rows w)"

definition agr_events :: "world \<Rightarrow> int \<Rightarrow> event list" where
  "agr_events w aid = sort_key e_at (filter (\<lambda>e. e_agr e = aid) (event_rows w))"

text \<open>\<open>_signer_by_token\<close>: a NULL token never equals a parameter.\<close>

definition signer_by_token :: "world \<Rightarrow> string \<Rightarrow> signer option" where
  "signer_by_token w token = find (\<lambda>s. s_token s = Some token) (signer_rows w)"

definition sig_row :: "world \<Rightarrow> int \<Rightarrow> signer option" where
  "sig_row w sid = find (\<lambda>s. s_id s = sid) (signer_rows w)"

text \<open>\<open>_event\<close>.\<close>

definition log_event ::
  "int \<Rightarrow> string \<Rightarrow> int option \<Rightarrow> string \<Rightarrow> string \<Rightarrow> string \<Rightarrow> time \<Rightarrow> world \<Rightarrow> world" where
  "log_event aid etype sid ip ua detail now w =
     w\<lparr>event_rows := event_rows w @
        [\<lparr>e_agr = aid, e_signer = sid, e_type = etype, e_ip = ip, e_ua = take 300 ua,
          e_detail = take 300 detail, e_at = now\<rparr>]\<rparr>"

text \<open>The updates an operation issues on one row.\<close>

definition upd_agr :: "int \<Rightarrow> (agreement \<Rightarrow> agreement) \<Rightarrow> world \<Rightarrow> world" where
  "upd_agr aid f w = w\<lparr>agreement_rows := upd_where (\<lambda>a. a_id a = aid) f (agreement_rows w)\<rparr>"

definition upd_agr_if ::
  "int \<Rightarrow> (agreement \<Rightarrow> bool) \<Rightarrow> (agreement \<Rightarrow> agreement) \<Rightarrow> world \<Rightarrow> world" where
  "upd_agr_if aid P f w = w\<lparr>agreement_rows := upd_where (\<lambda>a. a_id a = aid \<and> P a) f (agreement_rows w)\<rparr>"

definition upd_sig :: "int \<Rightarrow> (signer \<Rightarrow> signer) \<Rightarrow> world \<Rightarrow> world" where
  "upd_sig sid f w = w\<lparr>signer_rows := upd_where (\<lambda>s. s_id s = sid) f (signer_rows w)\<rparr>"

definition emit :: "string \<Rightarrow> int \<Rightarrow> int option \<Rightarrow> int option \<Rightarrow> world \<Rightarrow> world" where
  "emit ev aid sid owner w =
     w\<lparr>hooks := hooks w @ [\<lparr>h_event = ev, h_agr = aid, h_signer = sid, h_owner = owner\<rparr>]\<rparr>"

definition send_mail :: "string \<Rightarrow> mail_kind \<Rightarrow> int \<Rightarrow> string \<Rightarrow> world \<Rightarrow> world" where
  "send_mail to k aid url w =
     w\<lparr>outbox := outbox w @ [\<lparr>m_to = to, m_kind = k, m_agr = aid, m_url = url\<rparr>]\<rparr>"

text \<open>A file write replaces the file's bytes.\<close>

definition write_file :: "string \<Rightarrow> bytes \<Rightarrow> world \<Rightarrow> world" where
  "write_file path data w = w\<lparr>files := (files w)(path \<mapsto> data)\<rparr>"

section \<open>What each primitive leaves alone\<close>

lemma log_event_simps [simp]:
  "agreement_rows (log_event aid ty sid ip ua d t w) = agreement_rows w"
  "signer_rows (log_event aid ty sid ip ua d t w) = signer_rows w"
  "field_rows (log_event aid ty sid ip ua d t w) = field_rows w"
  "template_rows (log_event aid ty sid ip ua d t w) = template_rows w"
  "files (log_event aid ty sid ip ua d t w) = files w"
  "outbox (log_event aid ty sid ip ua d t w) = outbox w"
  "hooks (log_event aid ty sid ip ua d t w) = hooks w"
  "next_agr (log_event aid ty sid ip ua d t w) = next_agr w"
  "next_sig (log_event aid ty sid ip ua d t w) = next_sig w"
  "next_fld (log_event aid ty sid ip ua d t w) = next_fld w"
  "next_tpl (log_event aid ty sid ip ua d t w) = next_tpl w"
  by (simp_all add: log_event_def)

lemma upd_agr_simps [simp]:
  "signer_rows (upd_agr aid f w) = signer_rows w"
  "field_rows (upd_agr aid f w) = field_rows w"
  "event_rows (upd_agr aid f w) = event_rows w"
  "template_rows (upd_agr aid f w) = template_rows w"
  "files (upd_agr aid f w) = files w"
  "outbox (upd_agr aid f w) = outbox w"
  "hooks (upd_agr aid f w) = hooks w"
  "next_agr (upd_agr aid f w) = next_agr w"
  "next_sig (upd_agr aid f w) = next_sig w"
  "next_fld (upd_agr aid f w) = next_fld w"
  "next_tpl (upd_agr aid f w) = next_tpl w"
  by (simp_all add: upd_agr_def)

lemma upd_agr_if_simps [simp]:
  "signer_rows (upd_agr_if aid P f w) = signer_rows w"
  "field_rows (upd_agr_if aid P f w) = field_rows w"
  "event_rows (upd_agr_if aid P f w) = event_rows w"
  "template_rows (upd_agr_if aid P f w) = template_rows w"
  "files (upd_agr_if aid P f w) = files w"
  "outbox (upd_agr_if aid P f w) = outbox w"
  "hooks (upd_agr_if aid P f w) = hooks w"
  "next_agr (upd_agr_if aid P f w) = next_agr w"
  "next_sig (upd_agr_if aid P f w) = next_sig w"
  "next_fld (upd_agr_if aid P f w) = next_fld w"
  "next_tpl (upd_agr_if aid P f w) = next_tpl w"
  by (simp_all add: upd_agr_if_def)

lemma upd_sig_simps [simp]:
  "agreement_rows (upd_sig sid f w) = agreement_rows w"
  "field_rows (upd_sig sid f w) = field_rows w"
  "event_rows (upd_sig sid f w) = event_rows w"
  "template_rows (upd_sig sid f w) = template_rows w"
  "files (upd_sig sid f w) = files w"
  "outbox (upd_sig sid f w) = outbox w"
  "hooks (upd_sig sid f w) = hooks w"
  "next_agr (upd_sig sid f w) = next_agr w"
  "next_sig (upd_sig sid f w) = next_sig w"
  "next_fld (upd_sig sid f w) = next_fld w"
  "next_tpl (upd_sig sid f w) = next_tpl w"
  by (simp_all add: upd_sig_def)

lemma effect_simps [simp]:
  "agreement_rows (emit ev aid sid ow w) = agreement_rows w"
  "signer_rows (emit ev aid sid ow w) = signer_rows w"
  "field_rows (emit ev aid sid ow w) = field_rows w"
  "event_rows (emit ev aid sid ow w) = event_rows w"
  "template_rows (emit ev aid sid ow w) = template_rows w"
  "files (emit ev aid sid ow w) = files w"
  "outbox (emit ev aid sid ow w) = outbox w"
  "agreement_rows (send_mail to k aid url w) = agreement_rows w"
  "signer_rows (send_mail to k aid url w) = signer_rows w"
  "field_rows (send_mail to k aid url w) = field_rows w"
  "event_rows (send_mail to k aid url w) = event_rows w"
  "template_rows (send_mail to k aid url w) = template_rows w"
  "files (send_mail to k aid url w) = files w"
  "hooks (send_mail to k aid url w) = hooks w"
  "agreement_rows (write_file path data w) = agreement_rows w"
  "signer_rows (write_file path data w) = signer_rows w"
  "field_rows (write_file path data w) = field_rows w"
  "event_rows (write_file path data w) = event_rows w"
  "template_rows (write_file path data w) = template_rows w"
  "outbox (write_file path data w) = outbox w"
  "hooks (write_file path data w) = hooks w"
  by (simp_all add: emit_def send_mail_def write_file_def)

section \<open>Row stores\<close>

text \<open>
  The interface the operations use a table through: read one row by its id, update one row by
  its id. A client knows only how a read answers after an update.
\<close>

locale row_store =
  fixes get :: "'w \<Rightarrow> int \<Rightarrow> 'r option"
    and upd :: "int \<Rightarrow> ('r \<Rightarrow> 'r) \<Rightarrow> 'w \<Rightarrow> 'w"
    and key :: "'r \<Rightarrow> int"
  assumes get_key: "get w k = Some r \<Longrightarrow> key r = k"
    and get_upd_same: "(\<And>r. key (f r) = key r) \<Longrightarrow> get (upd k f w) k = map_option f (get w k)"
    and get_upd_other: "(\<And>r. key (f r) = key r) \<Longrightarrow> j \<noteq> k \<Longrightarrow> get (upd k f w) j = get w j"
begin

lemma get_upd:
  "(\<And>r. key (f r) = key r) \<Longrightarrow>
   get (upd k f w) j = (if j = k then map_option f (get w k) else get w j)"
  by (simp add: get_upd_same get_upd_other)

lemma get_upd_eq_None:
  "(\<And>r. key (f r) = key r) \<Longrightarrow> get (upd k f w) j = None \<longleftrightarrow> get w j = None"
  by (simp add: get_upd)

lemma upd_twice:
  assumes "\<And>r. key (f r) = key r" and "\<And>r. key (g r) = key r"
  shows "get (upd k g (upd k f w)) j = get (upd k (\<lambda>r. g (f r)) w) j"
  by (simp add: get_upd assms option.map_comp comp_def)

lemma upd_commute:
  assumes "\<And>r. key (f r) = key r" and "\<And>r. key (g r) = key r" and "j \<noteq> k"
  shows "get (upd k g (upd j f w)) i = get (upd j f (upd k g w)) i"
  using assms(3) by (simp add: get_upd assms(1,2))

text \<open>A column that no update writes can be read before or after.\<close>

lemma column_upd:
  assumes "\<And>r. key (f r) = key r" and "\<And>r. c (f r) = c r"
  shows "map_option c (get (upd k f w) j) = map_option c (get w j)"
  by (simp add: get_upd assms option.map_comp comp_def)

end

interpretation agr: row_store agr_row upd_agr a_id
proof
  show "\<And>w k r. agr_row w k = Some r \<Longrightarrow> a_id r = k"
    by (auto simp: agr_row_def dest: find_SomeD)
next
  fix f :: "agreement \<Rightarrow> agreement" and w :: world and k :: int
  assume f: "\<And>r. a_id (f r) = a_id r"
  show "agr_row (upd_agr k f w) k = map_option f (agr_row w k)"
    by (simp add: agr_row_def upd_agr_def find_key_upd_same f)
next
  fix f :: "agreement \<Rightarrow> agreement" and w :: world and j k :: int
  assume f: "\<And>r. a_id (f r) = a_id r" and "j \<noteq> k"
  then show "agr_row (upd_agr k f w) j = agr_row w j"
    by (simp add: agr_row_def upd_agr_def find_key_upd_other f)
qed

interpretation sig: row_store sig_row upd_sig s_id
proof
  show "\<And>w k r. sig_row w k = Some r \<Longrightarrow> s_id r = k"
    by (auto simp: sig_row_def dest: find_SomeD)
next
  fix f :: "signer \<Rightarrow> signer" and w :: world and k :: int
  assume f: "\<And>r. s_id (f r) = s_id r"
  show "sig_row (upd_sig k f w) k = map_option f (sig_row w k)"
    by (simp add: sig_row_def upd_sig_def find_key_upd_same f)
next
  fix f :: "signer \<Rightarrow> signer" and w :: world and j k :: int
  assume f: "\<And>r. s_id (f r) = s_id r" and "j \<noteq> k"
  then show "sig_row (upd_sig k f w) j = sig_row w j"
    by (simp add: sig_row_def upd_sig_def find_key_upd_other f)
qed

text \<open>The guarded update leaves every row alone that fails the guard.\<close>

lemma agr_row_upd_if:
  assumes "\<And>r. a_id (f r) = a_id r"
  shows "agr_row (upd_agr_if k P f w) j =
    (if j = k then map_option (\<lambda>a. if P a then f a else a) (agr_row w k) else agr_row w j)"
proof -
  have "agr_row (upd_agr_if k P f w) j = agr_row (upd_agr k (\<lambda>a. if P a then f a else a) w) j"
    unfolding agr_row_def upd_agr_if_def upd_agr_def upd_where_def
    by (simp add: if_distrib cong: if_cong) (rule arg_cong [where f = "find _"], simp)
  then show ?thesis by (simp add: agr.get_upd assms)
qed

lemma row_frame [simp]:
  "agr_row (log_event aid ty sid ip ua d t w) j = agr_row w j"
  "agr_row (upd_sig i f w) j = agr_row w j"
  "agr_row (emit ev aid sid ow w) j = agr_row w j"
  "agr_row (send_mail to k aid url w) j = agr_row w j"
  "agr_row (write_file path data w) j = agr_row w j"
  "sig_row (log_event aid ty sid ip ua d t w) j = sig_row w j"
  "sig_row (upd_agr i g w) j = sig_row w j"
  "sig_row (upd_agr_if i P g w) j = sig_row w j"
  "sig_row (emit ev aid sid ow w) j = sig_row w j"
  "sig_row (send_mail to k aid url w) j = sig_row w j"
  "sig_row (write_file path data w) j = sig_row w j"
  by (simp_all add: agr_row_def sig_row_def)

lemma query_frame [simp]:
  "agr_signers (log_event aid ty sid ip ua d t w) j = agr_signers w j"
  "agr_signers (upd_agr i g w) j = agr_signers w j"
  "agr_signers (upd_agr_if i P g w) j = agr_signers w j"
  "agr_signers (emit ev aid sid ow w) j = agr_signers w j"
  "agr_signers (send_mail to k aid url w) j = agr_signers w j"
  "agr_signers (write_file path data w) j = agr_signers w j"
  "agr_fields (log_event aid ty sid ip ua d t w) j = agr_fields w j"
  "agr_fields (upd_agr i g w) j = agr_fields w j"
  "agr_fields (upd_agr_if i P g w) j = agr_fields w j"
  "agr_fields (upd_sig i f w) j = agr_fields w j"
  "agr_fields (emit ev aid sid ow w) j = agr_fields w j"
  "agr_fields (send_mail to k aid url w) j = agr_fields w j"
  "agr_fields (write_file path data w) j = agr_fields w j"
  by (simp_all add: agr_signers_def agr_fields_def)

section \<open>Primary keys\<close>

text \<open>\<open>agreements.id\<close> is the table's primary key.\<close>

definition unique_agr :: "world \<Rightarrow> bool" where
  "unique_agr w = distinct (map a_id (agreement_rows w))"

definition unique_sig :: "world \<Rightarrow> bool" where
  "unique_sig w = distinct (map s_id (signer_rows w))"

definition unique_fld :: "world \<Rightarrow> bool" where
  "unique_fld w = distinct (map f_id (field_rows w))"

lemma guarded_rowcount:
  "unique_agr w \<Longrightarrow>
   rowcount (\<lambda>a. a_id a = aid \<and> P a) (agreement_rows w) =
     (case agr_row w aid of None \<Rightarrow> 0 | Some a \<Rightarrow> if P a then 1 else 0)"
  by (simp add: unique_agr_def agr_row_def rowcount_key)

lemma agr_row_id: "agr_row w aid = Some a \<Longrightarrow> a_id a = aid"
  by (rule agr.get_key)

lemma agr_row_mem: "agr_row w aid = Some a \<Longrightarrow> a \<in> set (agreement_rows w)"
  by (auto simp: agr_row_def dest: find_SomeD)

end
