(* ===== verification/Reads.thy ===== *)
theory Reads
  imports Schema
begin

text \<open>
  The read side of \<open>sign/esign.py\<close>: resolving an agreement with its signers, fields and events,
  the owner-scoped variants every tenant route goes through, the listings and counts, the
  look-ups by envelope id and by token, the gates that read clocks and statuses, and the bytes
  shown to a signer. Reads return a value and leave the state alone.
\<close>

section \<open>Paths and bytes\<close>

definition agr_path :: "int \<Rightarrow> string \<Rightarrow> string" where
  "agr_path aid suffix = ''esign/agr_'' @ py_str aid @ suffix"

definition source_path :: "int \<Rightarrow> string" where
  "source_path aid = agr_path aid ''_source.pdf''"

definition frozen_path :: "int \<Rightarrow> string" where
  "frozen_path aid = agr_path aid ''_frozen.pdf''"

definition executed_path :: "int \<Rightarrow> string" where
  "executed_path aid = agr_path aid ''_executed.pdf''"

text \<open>\<open>_source_bytes\<close> raises when the file is gone; \<open>_presented_bytes\<close> prefers the frozen snapshot.\<close>

definition source_bytes :: "world \<Rightarrow> agreement \<Rightarrow> bytes option" where
  "source_bytes w a = files w (a_source_path a)"

definition presented_bytes :: "world \<Rightarrow> agreement \<Rightarrow> bytes option" where
  "presented_bytes w a =
     (if a_frozen_path a \<noteq> [] \<and> files w (a_frozen_path a) \<noteq> None
      then files w (a_frozen_path a) else source_bytes w a)"

section \<open>An agreement and its children\<close>

record agr_view =
  v_row :: agreement
  v_signers :: "signer list"
  v_fields :: "field list"
  v_events :: "event list"

text \<open>\<open>_strip_signer_secrets\<close> removes the three secret columns.\<close>

definition strip_signer_secrets :: "signer \<Rightarrow> signer" where
  "strip_signer_secrets s = s\<lparr>s_challenge_hash := [], s_challenge_salt := [], s_challenge_iters := 0\<rparr>"

definition get_agreement :: "world \<Rightarrow> int \<Rightarrow> agr_view option" where
  "get_agreement w aid =
     (case agr_row w aid of
        None \<Rightarrow> None
      | Some a \<Rightarrow> Some \<lparr>v_row = a, v_signers = map strip_signer_secrets (agr_signers w aid),
          v_fields = agr_fields w aid, v_events = agr_events w aid\<rparr>)"

text \<open>
  The tenant choke-point. An owner id of 0 (or none) is refused before any look-up; a row
  without an owner, or with another one, reads as missing.
\<close>

definition get_agreement_owned :: "world \<Rightarrow> int \<Rightarrow> int \<Rightarrow> agr_view option" where
  "get_agreement_owned w aid owner =
     (if owner = 0 then None
      else case get_agreement w aid of
        None \<Rightarrow> None
      | Some v \<Rightarrow> if a_owner (v_row v) \<noteq> Some owner then None else Some v)"

section \<open>Listings and counts\<close>

record agr_summary =
  su_row :: agreement
  su_signers :: "signer list"
  su_signed_n :: nat
  su_signer_n :: nat
  su_field_n :: nat
  su_page_n :: int

definition summarise :: "world \<Rightarrow> agreement \<Rightarrow> agr_summary" where
  "summarise w a =
     (let sg = agr_signers w (a_id a); fs = agr_fields w (a_id a)
      in \<lparr>su_row = a, su_signers = sg,
          su_signed_n = length (filter (\<lambda>s. s_status s = Signed) sg),
          su_signer_n = length sg, su_field_n = length fs,
          su_page_n = (if fs = [] then 0 else Max (set (map f_page fs)) + 1)\<rparr>)"

text \<open>\<open>LIMIT ? OFFSET ?\<close>; SQLite reads a negative limit as none and a negative offset as 0.\<close>

definition paged :: "int option \<Rightarrow> int \<Rightarrow> 'r list \<Rightarrow> 'r list" where
  "paged limit offset rows =
     (case limit of None \<Rightarrow> rows
      | Some l \<Rightarrow> (let rest = drop (nat offset) rows in if l < 0 then rest else take (nat l) rest))"

definition newest_first :: "agreement list \<Rightarrow> agreement list" where
  "newest_first rows = rev (sort_key a_id rows)"

definition list_agreements :: "world \<Rightarrow> int option \<Rightarrow> int \<Rightarrow> agr_summary list" where
  "list_agreements w limit offset =
     map (summarise w) (paged limit offset (newest_first (agreement_rows w)))"

definition count_agreements :: "world \<Rightarrow> nat" where
  "count_agreements w = length (agreement_rows w)"

definition owned_rows :: "world \<Rightarrow> int \<Rightarrow> agreement list" where
  "owned_rows w owner = filter (\<lambda>a. a_owner a = Some owner) (agreement_rows w)"

definition list_agreements_for_owner :: "world \<Rightarrow> int \<Rightarrow> int option \<Rightarrow> int \<Rightarrow> agr_summary list" where
  "list_agreements_for_owner w owner limit offset =
     (if owner = 0 then []
      else map (summarise w) (paged limit offset (newest_first (owned_rows w owner))))"

definition count_agreements_for_owner :: "world \<Rightarrow> int \<Rightarrow> nat" where
  "count_agreements_for_owner w owner = (if owner = 0 then 0 else length (owned_rows w owner))"

text \<open>
  \<open>owner_status_counts\<close>: the code groups the owner's rows by status and adds a group up under
  \<open>sent\<close> or \<open>completed\<close> when its status is that string.
\<close>

record status_counts =
  c_total :: nat
  c_sent :: nat
  c_completed :: nat

definition owner_status_counts :: "world \<Rightarrow> int \<Rightarrow> status_counts" where
  "owner_status_counts w owner =
     (if owner = 0 then \<lparr>c_total = 0, c_sent = 0, c_completed = 0\<rparr>
      else \<lparr>c_total = length (owned_rows w owner),
            c_sent = length (filter (\<lambda>a. status_text (a_status a) = ''sent'') (owned_rows w owner)),
            c_completed =
              length (filter (\<lambda>a. status_text (a_status a) = ''completed'') (owned_rows w owner))\<rparr>)"

section \<open>Look-ups for the signer side\<close>

record inbox_item =
  ib_envelope :: string
  ib_name :: string
  ib_status :: agr_status
  ib_signer_status :: sig_status
  ib_locked :: bool

text \<open>The sender access-lock: a challenge is set and has not been passed.\<close>

definition has_challenge :: "signer \<Rightarrow> bool" where
  "has_challenge s = (s_challenge_type s \<noteq> [] \<and> s_challenge_type s \<noteq> ''none'')"

definition challenge_unmet :: "signer \<Rightarrow> bool" where
  "challenge_unmet s = (has_challenge s \<and> \<not> is_set (s_challenge_passed_at s))"

definition inbox_of :: "agreement \<Rightarrow> signer \<Rightarrow> inbox_item" where
  "inbox_of a s =
     \<lparr>ib_envelope = a_envelope_id a,
      ib_name = (if a_name a = [] then ''Document'' else a_name a),
      ib_status = a_status a,
      ib_signer_status = (if s_status s = NoSigStatus then Pending else s_status s),
      ib_locked = challenge_unmet s\<rparr>"

definition envelopes_for_email :: "world \<Rightarrow> string \<Rightarrow> inbox_item list" where
  "envelopes_for_email w email =
     (let em = py_lower (py_strip email) in
      if em = [] then []
      else map (\<lambda>(a, s). inbox_of a s)
        (sort_key (\<lambda>(a, s). - coalesce (a_completed_at a) (coalesce (a_created_at a) 0))
          (concat (map (\<lambda>s. if py_lower (s_email s) = em
             then map (\<lambda>a. (a, s))
               (filter (\<lambda>a. a_id a = s_agr s \<and> a_status a \<noteq> Draft) (agreement_rows w))
             else []) (signer_rows w)))))"

text \<open>\<open>signer_for_envelope\<close> returns the whole row, secrets included.\<close>

definition signer_for_envelope :: "world \<Rightarrow> string \<Rightarrow> int \<Rightarrow> signer option" where
  "signer_for_envelope w env sid =
     find (\<lambda>s. s_id s = sid \<and>
       (\<exists>a \<in> set (agreement_rows w). a_id a = s_agr s \<and> a_envelope_id a = env)) (signer_rows w)"

definition agreement_by_envelope :: "world \<Rightarrow> string \<Rightarrow> agr_view option" where
  "agreement_by_envelope w env =
     (case find (\<lambda>a. a_envelope_id a = env) (agreement_rows w) of
        None \<Rightarrow> None | Some a \<Rightarrow> get_agreement w (a_id a))"

record token_meta =
  tm_id :: int
  tm_agr :: int
  tm_type :: string
  tm_prompt :: string
  tm_passed_at :: "time option"

definition signer_by_token_public :: "world \<Rightarrow> string \<Rightarrow> token_meta option" where
  "signer_by_token_public w token =
     map_option (\<lambda>s. \<lparr>tm_id = s_id s, tm_agr = s_agr s, tm_type = s_challenge_type s,
       tm_prompt = s_challenge_prompt s, tm_passed_at = s_challenge_passed_at s\<rparr>)
       (signer_by_token w token)"

section \<open>Clock and status gates\<close>

definition SIGN_TOKEN_TTL_DAYS :: time where "SIGN_TOKEN_TTL_DAYS = 60"
definition ESIGN_EXPIRY_DAYS :: time where "ESIGN_EXPIRY_DAYS = 60"
definition SEAL_STALE_S :: time where "SEAL_STALE_S = 120"

text \<open>\<open>float(sent_at or created_at or 0)\<close>.\<close>

definition link_clock :: "agreement \<Rightarrow> time" where
  "link_clock a =
     (if is_set (a_sent_at a) then coalesce (a_sent_at a) 0
      else if is_set (a_created_at a) then coalesce (a_created_at a) 0 else 0)"

definition token_expired :: "time \<Rightarrow> agreement \<Rightarrow> bool" where
  "token_expired now a =
     (if link_clock a \<le> 0 then False else now - link_clock a > SIGN_TOKEN_TTL_DAYS * 86400)"

datatype block_reason = BlockInvalid | BlockRevoked | BlockExpired

definition signer_render_blocked :: "time \<Rightarrow> string \<Rightarrow> world \<Rightarrow> block_reason option" where
  "signer_render_blocked now token w =
     (case signer_by_token w token of
        None \<Rightarrow> Some BlockInvalid
      | Some s \<Rightarrow> (case get_agreement w (s_agr s) of
            None \<Rightarrow> Some BlockInvalid
          | Some v \<Rightarrow> (let a = v_row v in
              if a_status a \<in> {Voided, Cancelled, Declined} then Some BlockRevoked
              else if a_status a = Expired then Some BlockExpired
              else if s_status s \<noteq> Signed \<and> a_status a \<noteq> Completed \<and> token_expired now a
                then Some BlockExpired
              else None)))"

text \<open>
  \<open>_sender_email\<close>: the agreement's creator when it looks like an address, else the configured
  sender, else MAIL_FROM.
\<close>

definition looks_like_email :: "string \<Rightarrow> bool" where
  "looks_like_email s = (CHR ''@'' \<in> set s \<and> CHR ''.'' \<in> set (last (py_split (CHR ''@'') s)))"

definition sender_email :: "engine \<Rightarrow> agreement \<Rightarrow> string" where
  "sender_email eng a =
     (let cb = py_strip (a_created_by a) in
      if looks_like_email cb then cb
      else let d = py_strip (en_sender_email eng) in if d \<noteq> [] then d else en_mail_from eng)"

section \<open>Signing order\<close>

definition is_sequential :: "agreement \<Rightarrow> bool" where
  "is_sequential a = (a_order_mode a = ''sequential'')"

text \<open>\<open>int(s.get("sign_order") or 1)\<close>: an order of 0 counts as 1.\<close>

definition eff_order :: "signer \<Rightarrow> int" where
  "eff_order s = (if s_order s = 0 then 1 else s_order s)"

definition next_order_to_notify :: "signer list \<Rightarrow> int option" where
  "next_order_to_notify ss =
     (let pending = map eff_order (filter (\<lambda>s. s_status s \<noteq> Signed) ss)
      in if pending = [] then None else Some (Min (set pending)))"

section \<open>Pages edited in place\<close>

text \<open>\<open>_edited_page_list\<close>: the column is a comma-separated list; anything that is not a number is
  skipped.\<close>

definition parse_pages :: "string \<Rightarrow> int list" where
  "parse_pages raw =
     List.map_filter (\<lambda>p. if py_isdigit (py_strip p) then py_int p else None) (py_split (CHR '','') raw)"

definition edited_page_list :: "agreement \<Rightarrow> int list" where
  "edited_page_list a = sort (remdups (parse_pages (a_edited_pages a)))"

definition render_pages :: "int list \<Rightarrow> string" where
  "render_pages ps = py_join '','' (map py_str ps)"

section \<open>Tenant isolation\<close>

lemma paged_subset: "set (paged limit offset rows) \<subseteq> set rows"
  by (auto simp: paged_def Let_def split: option.splits dest: in_set_dropD in_set_takeD)

text \<open>A tenant reads only its own envelopes: what the owner-scoped read hands out is a row that carries
  this owner's (non-zero) id, with every signer's challenge secrets removed, and the owner's
  listing contains such rows only.\<close>

theorem owner_isolation:
  "(\<forall>v. get_agreement_owned w aid owner = Some v \<longrightarrow>
      owner \<noteq> 0 \<and> a_owner (v_row v) = Some owner \<and> v_row v \<in> set (agreement_rows w) \<and>
      (\<forall>s \<in> set (v_signers v). s_challenge_hash s = [] \<and> s_challenge_salt s = [] \<and> s_challenge_iters s = 0) \<and>
      (\<forall>f \<in> set (v_fields v). f_agr f = aid)) \<and>
   (\<forall>su \<in> set (list_agreements_for_owner w owner limit offset).
      owner \<noteq> 0 \<and> a_owner (su_row su) = Some owner \<and> su_row su \<in> set (agreement_rows w))"
  using paged_subset [of limit offset "newest_first (owned_rows w owner)"]
  by (auto simp: get_agreement_owned_def get_agreement_def list_agreements_for_owner_def
      summarise_def Let_def newest_first_def owned_rows_def strip_signer_secrets_def agr_fields_def
      split: if_splits option.splits dest: agr_row_mem)

lemma owner_isolation_witness:
  "\<exists>w a. get_agreement_owned w 1 7 \<noteq> None \<and> a_owner a = Some 7 \<and> agreement_rows w = [a]"
proof -
  define a where "a = \<lparr>a_id = 1, a_name = [], a_message = [], a_status = Draft, a_created_by = [],
      a_order_mode = [], a_source_path = [], a_executed_path = [], a_doc_hash = [], a_envelope_id = [],
      a_source_doc_id = None, a_frozen_path = [], a_frozen_hash = [], a_sealed_hash = [],
      a_preseal_hash = [], a_seal_method = [], a_epoch = 0, a_owner = Some 7, a_edited_pages = [],
      a_created_at = None, a_sent_at = None, a_completed_at = None, a_sealing_at = None,
      a_expires_at = None, a_expired_at = None\<rparr>"
  have g: "get_agreement_owned (empty_world\<lparr>agreement_rows := [a]\<rparr>) 1 7 \<noteq> None"
    by (simp add: get_agreement_owned_def get_agreement_def agr_row_def a_def empty_world_def)
  then obtain v where "get_agreement_owned (empty_world\<lparr>agreement_rows := [a]\<rparr>) 1 7 = Some v" by blast
  then have "a_owner (v_row v) = Some 7" "v_row v = a"
    using owner_isolation [of "empty_world\<lparr>agreement_rows := [a]\<rparr>" 1 7 None 0] by auto
  with g show ?thesis by (intro exI [of _ "empty_world\<lparr>agreement_rows := [a]\<rparr>"] exI [of _ a]) simp
qed

text \<open>The owner's \<open>sent\<close> count is always 0: \<open>owner_status_counts\<close> counts the status \<open>sent\<close>, which no
  agreement ever has (sending writes \<open>out_for_signature\<close>).\<close>

theorem sent_count_always_zero: "c_sent (owner_status_counts w owner) = 0"
proof -
  have "status_text st \<noteq> ''sent''" for st by (cases st) simp_all
  then show ?thesis by (simp add: owner_status_counts_def)
qed

end
