(* ===== verification/Sealing.thy ===== *)
theory Sealing
  imports Reads
begin

text \<open>
  Completion of an envelope (\<open>finalize\<close> and \<open>_seal_and_complete\<close> in \<open>sign/esign.py\<close>), and the
  operations that revoke one: voiding, the session epoch, and the configuration of a signer's
  access challenge.

  \<open>finalize\<close> runs as three transactions: the atomic claim (\<open>fin_begin\<close>), the commit of the sealed
  document (\<open>seal_commit\<close>) and, when sealing raised, the release of the claim (\<open>seal_release\<close>).
  They are separate definitions because other requests run between them; \<open>finalize\<close> composes them
  for a request that is not interrupted.
\<close>

section \<open>The claim\<close>

definition terminal_for_claim :: "agr_status \<Rightarrow> bool" where
  "terminal_for_claim st = (st \<in> {Completed, Voided, Cancelled, Declined, Expired})"

text \<open>The \<open>WHERE\<close> clause of the claiming \<open>UPDATE\<close>.\<close>

definition claimable :: "time \<Rightarrow> agreement \<Rightarrow> bool" where
  "claimable now a =
     (\<not> terminal_for_claim (a_status a) \<and>
      (a_status a \<noteq> Sealing \<or>
       (case a_sealing_at a of None \<Rightarrow> True | Some t \<Rightarrow> t < now - SEAL_STALE_S)))"

definition claim_row :: "time \<Rightarrow> agreement \<Rightarrow> agreement" where
  "claim_row now a = a\<lparr>a_status := Sealing, a_sealing_at := Some now\<rparr>"

text \<open>The status a failed seal goes back to.\<close>

definition prior_status :: "agreement \<Rightarrow> agr_status" where
  "prior_status a = (if a_status a \<in> {Sealing, NoStatus} then OutForSignature else a_status a)"

datatype fin_start = FinStop bool | FinClaimed agr_view agr_status

definition fin_begin :: "time \<Rightarrow> int \<Rightarrow> world \<Rightarrow> fin_start \<times> world" where
  "fin_begin now aid w =
     (case get_agreement w aid of
        None \<Rightarrow> (FinStop False, w)
      | Some v \<Rightarrow>
          if a_status (v_row v) = Completed then (FinStop True, w)
          else if \<exists>s \<in> set (v_signers v). challenge_unmet s then (FinStop False, w)
          else if rowcount (\<lambda>a. a_id a = aid \<and> claimable now a) (agreement_rows w) = 1
          then (FinClaimed v (prior_status (v_row v)), upd_agr_if aid (claimable now) (claim_row now) w)
          else (FinStop (case agr_row w aid of None \<Rightarrow> False | Some a \<Rightarrow> a_status a = Completed), w))"

section \<open>The sealed document\<close>

definition signature_like :: "string \<Rightarrow> bool" where
  "signature_like ty = (ty = ''signature'' \<or> ty = ''initials'')"

definition first_nonempty :: "string list \<Rightarrow> string" where
  "first_nonempty ss = (case filter (\<lambda>s. s \<noteq> []) ss of [] \<Rightarrow> [] | s # _ \<Rightarrow> s)"

text \<open>\<open>smap.get(f["signer_id"]) or {}\<close>: the signer a field belongs to, if there is one.\<close>

definition signer_of :: "signer list \<Rightarrow> field \<Rightarrow> signer option" where
  "signer_of ss f =
     (case f_signer f of None \<Rightarrow> None | Some sid \<Rightarrow> find (\<lambda>s. s_id s = sid) ss)"

definition meta_of :: "engine \<Rightarrow> string \<Rightarrow> signer option \<Rightarrow> stamp_meta" where
  "meta_of eng env so =
     (case so of
        None \<Rightarrow> \<lparr>sm_name = [], sm_ip = [], sm_when = en_fmt_signed eng None, sm_sig_id = [], sm_env = env\<rparr>
      | Some s \<Rightarrow> \<lparr>sm_name = first_nonempty [s_name s, s_email s], sm_ip = s_ip s,
          sm_when = en_fmt_signed eng (s_signed_at s), sm_sig_id = s_signature_id s, sm_env = env\<rparr>)"

text \<open>Fields without a value are not stamped; a signature carries its caption.\<close>

definition stamps :: "engine \<Rightarrow> agr_view \<Rightarrow> stamp list" where
  "stamps eng v =
     map (\<lambda>f. \<lparr>st_type = f_type f, st_page = f_page f, st_box = (f_x f, f_y f, f_w f, f_h f),
               st_value = f_value f,
               st_meta = (if signature_like (f_type f)
                          then Some (meta_of eng (a_envelope_id (v_row v)) (signer_of (v_signers v) f))
                          else None)\<rparr>)
         (filter (\<lambda>f. py_strip (f_value f) \<noteq> []) (v_fields v))"

text \<open>\<open>sig_map\<close>: the first signature value of each signer, in field order.\<close>

definition sig_map :: "field list \<Rightarrow> (int option \<times> string) list" where
  "sig_map fs =
     fold (\<lambda>f m. if signature_like (f_type f) \<and> f_value f \<noteq> [] \<and> f_signer f \<notin> fst ` set m
                 then m @ [(f_signer f, f_value f)] else m) fs []"

definition cert_input_for ::
  "agr_view \<Rightarrow> string \<Rightarrow> int \<Rightarrow> string \<Rightarrow> cert_input" where
  "cert_input_for v preseal pages seal_method =
     \<lparr>ci_agr = (v_row v)\<lparr>a_status := Completed, a_preseal_hash := preseal\<rparr>,
      ci_signers = v_signers v, ci_events = v_events v, ci_preseal = preseal,
      ci_signatures = sig_map (v_fields v), ci_pages = pages,
      ci_fields_n = length (v_fields v),
      ci_consumer = (\<exists>s \<in> set (v_signers v). s_is_consumer s), ci_method = seal_method\<rparr>"

record sealed =
  sl_executed :: bytes
  sl_preseal :: string
  sl_sealed :: string
  sl_method :: string

text \<open>
  Certificate, append, seal with AES: the fallback tier, and what the PAdES tier degrades to.
  \<open>Option.bind\<close> stops at the first step that raises.
\<close>

definition aes_seal :: "engine \<Rightarrow> agr_view \<Rightarrow> bytes \<Rightarrow> string \<Rightarrow> int \<Rightarrow> bytes option" where
  "aes_seal eng v stamped preseal pages =
     Option.bind (en_certificate eng (cert_input_for v preseal pages ''aes'')) (\<lambda>cert.
     Option.bind (en_append eng stamped cert) (\<lambda>executed.
       en_secure eng executed))"

text \<open>
  The PAdES tier: sanitize is outside the \<open>try\<close>, certification inside it. A certification that
  raises re-renders the certificate with the AES wording and seals with AES.
\<close>

definition pades_seal ::
  "engine \<Rightarrow> agr_view \<Rightarrow> bytes \<Rightarrow> string \<Rightarrow> int \<Rightarrow> (bytes \<times> string) option" where
  "pades_seal eng v stamped preseal pages =
     Option.bind (en_certificate eng (cert_input_for v preseal pages ''pades'')) (\<lambda>cert.
     Option.bind (en_append eng stamped cert) (\<lambda>executed.
     Option.bind (en_sanitize eng executed) (\<lambda>sanitized.
       case en_certify eng sanitized of
         Some certified \<Rightarrow> Some (certified, ''pades'')
       | None \<Rightarrow> map_option (\<lambda>e. (e, ''aes'')) (aes_seal eng v stamped preseal pages))))"

definition seal_bytes :: "engine \<Rightarrow> agr_view \<Rightarrow> bytes \<Rightarrow> sealed option" where
  "seal_bytes eng v src =
     Option.bind (en_stamp eng src (stamps eng v)) (\<lambda>stamped.
       let preseal = en_sha256 eng stamped in
       Option.bind (en_page_count eng src) (\<lambda>pages.
         map_option
           (\<lambda>(executed, seal_method). \<lparr>sl_executed = executed, sl_preseal = preseal,
              sl_sealed = en_sha256 eng executed, sl_method = seal_method\<rparr>)
           (if en_material_ok eng then pades_seal eng v stamped preseal pages
            else map_option (\<lambda>e. (e, ''aes'')) (aes_seal eng v stamped preseal pages))))"

section \<open>Commit\<close>

definition completed_row :: "time \<Rightarrow> int \<Rightarrow> sealed \<Rightarrow> agreement \<Rightarrow> agreement" where
  "completed_row now aid sl a =
     a\<lparr>a_status := Completed, a_completed_at := Some now, a_executed_path := executed_path aid,
       a_doc_hash := sl_sealed sl, a_preseal_hash := sl_preseal sl, a_sealed_hash := sl_sealed sl,
       a_seal_method := sl_method sl\<rparr>"

text \<open>The addresses the executed copy goes to: every signer with one, and the sender.\<close>

definition copy_recipients :: "engine \<Rightarrow> agr_view \<Rightarrow> string list" where
  "copy_recipients eng v =
     remdups (filter (\<lambda>e. e \<noteq> []) (map (\<lambda>s. py_strip (s_email s)) (v_signers v))
              @ [sender_email eng (v_row v)])"

definition deliver_copy :: "engine \<Rightarrow> time \<Rightarrow> agr_view \<Rightarrow> string \<Rightarrow> world \<Rightarrow> world" where
  "deliver_copy eng now v to w =
     (let aid = a_id (v_row v);
          env = a_envelope_id (v_row v);
          url = (if env = [] then [] else en_public_base eng @ ''/envelope/'' @ env);
          w1 = send_mail to CompletedCopy aid url w
      in if en_mail_ok eng to
         then log_event aid ''COMPLETED_COPY_DELIVERED''
                (map_option s_id (find (\<lambda>s. py_lower (py_strip (s_email s)) = py_lower to) (v_signers v)))
                [] [] (''emailed to '' @ to) now w1
         else w1)"

definition seal_commit :: "engine \<Rightarrow> time \<Rightarrow> agr_view \<Rightarrow> sealed \<Rightarrow> world \<Rightarrow> world" where
  "seal_commit eng now v sl w =
     (let aid = a_id (v_row v);
          w1 = write_file (executed_path aid) (sl_executed sl) w;
          w2 = upd_agr aid (completed_row now aid sl) w1;
          w3 = log_event aid ''DOC_SEALED'' None [] []
                 (''method='' @ sl_method sl @ '' preseal='' @ take 16 (sl_preseal sl)
                  @ '' sealed='' @ take 16 (sl_sealed sl)) now w2;
          w4 = (if en_material_configured eng \<and> sl_method sl \<noteq> ''pades''
                then log_event aid ''DOC_SEAL_DEGRADED'' None [] []
                  ''signing cert configured but PAdES certification failed; sealed with AES fallback'' now w3
                else w3);
          w5 = log_event aid ''completed'' None [] [] ''executed copy + certificate generated'' now w4;
          w6 = fold (deliver_copy eng now v) (copy_recipients eng v) w5
      in emit ''envelope.completed'' aid None (a_owner (v_row v)) w6)"

section \<open>Release\<close>

definition seal_release :: "int \<Rightarrow> agr_status \<Rightarrow> world \<Rightarrow> world" where
  "seal_release aid prior w =
     upd_agr_if aid (\<lambda>a. a_status a = Sealing) (\<lambda>a. a\<lparr>a_status := prior\<rparr>) w"

text \<open>\<open>_seal_and_complete\<close>: \<open>None\<close> is the exception of a failed seal, raised before any write.\<close>

definition seal_and_complete :: "engine \<Rightarrow> time \<Rightarrow> agr_view \<Rightarrow> world \<Rightarrow> world option" where
  "seal_and_complete eng now v w =
     Option.bind (presented_bytes w (v_row v)) (\<lambda>src.
     map_option (\<lambda>sl. seal_commit eng now v sl w) (seal_bytes eng v src))"

section \<open>finalize\<close>

text \<open>The result is \<open>None\<close> when sealing raised and the exception was re-raised.\<close>

definition finalize :: "engine \<Rightarrow> time \<Rightarrow> int \<Rightarrow> world \<Rightarrow> bool option \<times> world" where
  "finalize eng now aid w =
     (case fin_begin now aid w of
        (FinStop b, w1) \<Rightarrow> (Some b, w1)
      | (FinClaimed v prior, w1) \<Rightarrow>
          (case seal_and_complete eng now v w1 of
             Some w2 \<Rightarrow> (Some True, w2)
           | None \<Rightarrow> (None, seal_release aid prior w1)))"

section \<open>Certificates and executed copies on request\<close>

definition executed_bytes :: "world \<Rightarrow> int \<Rightarrow> bytes option" where
  "executed_bytes w aid =
     (case agr_row w aid of
        None \<Rightarrow> None
      | Some a \<Rightarrow>
          (let p = (if a_executed_path a \<noteq> [] then a_executed_path a else a_source_path a)
           in if p = [] then None else files w p))"

definition presented_bytes_of :: "world \<Rightarrow> int \<Rightarrow> bytes option" where
  "presented_bytes_of w aid =
     (case agr_row w aid of None \<Rightarrow> None | Some a \<Rightarrow> presented_bytes w a)"

text \<open>
  \<open>certificate_bytes\<close> renders the certificate again from the stored rows and hashes, for a
  completed agreement only; it reuses the recorded seal method.
\<close>

definition certificate_input :: "engine \<Rightarrow> world \<Rightarrow> agr_view \<Rightarrow> cert_input" where
  "certificate_input eng w v =
     \<lparr>ci_agr = (v_row v)\<lparr>a_sealed_hash := first_nonempty [a_sealed_hash (v_row v), a_doc_hash (v_row v)]\<rparr>,
      ci_signers = v_signers v, ci_events = v_events v, ci_preseal = a_preseal_hash (v_row v),
      ci_signatures = sig_map (v_fields v),
      ci_pages = coalesce (Option.bind (presented_bytes w (v_row v)) (en_page_count eng)) 0,
      ci_fields_n = length (v_fields v),
      ci_consumer = (\<exists>s \<in> set (v_signers v). s_is_consumer s),
      ci_method = first_nonempty [a_seal_method (v_row v), ''aes'']\<rparr>"

definition certificate_bytes :: "engine \<Rightarrow> world \<Rightarrow> int \<Rightarrow> bytes option" where
  "certificate_bytes eng w aid =
     (case get_agreement w aid of
        None \<Rightarrow> None
      | Some v \<Rightarrow> if a_status (v_row v) \<noteq> Completed then None
                  else en_certificate eng (certificate_input eng w v))"

section \<open>Voiding and revocation\<close>

definition void_row :: "agreement \<Rightarrow> agreement" where
  "void_row a = a\<lparr>a_status := Voided, a_epoch := a_epoch a + 1\<rparr>"

definition void :: "time \<Rightarrow> int \<Rightarrow> string \<Rightarrow> world \<Rightarrow> bool \<times> world" where
  "void now aid reason w =
     (let w1 = log_event aid ''voided'' None [] [] reason now (upd_agr aid void_row w)
      in (True, emit ''envelope.voided'' aid None
                  (Option.bind (agr_row w1 aid) a_owner) w1))"

definition bump_env_session_epoch :: "int \<Rightarrow> world \<Rightarrow> int \<times> world" where
  "bump_env_session_epoch aid w =
     (let w1 = upd_agr aid (\<lambda>a. a\<lparr>a_epoch := a_epoch a + 1\<rparr>) w
      in (case agr_row w1 aid of None \<Rightarrow> 0 | Some a \<Rightarrow> a_epoch a, w1))"

definition clear_challenge_row :: "signer \<Rightarrow> signer" where
  "clear_challenge_row s =
     s\<lparr>s_challenge_type := ''none'', s_challenge_prompt := [], s_challenge_salt := [],
       s_challenge_hash := [], s_challenge_iters := 0, s_challenge_passed_at := None\<rparr>"

definition set_challenge_row ::
  "string \<Rightarrow> string \<Rightarrow> string \<Rightarrow> string \<Rightarrow> int \<Rightarrow> signer \<Rightarrow> signer" where
  "set_challenge_row ctype prompt salt wrapped iters s =
     s\<lparr>s_challenge_type := ctype, s_challenge_prompt := prompt, s_challenge_salt := salt,
       s_challenge_hash := wrapped, s_challenge_iters := iters, s_challenge_passed_at := None\<rparr>"

definition set_signer_challenge ::
  "time \<Rightarrow> int \<Rightarrow> int \<Rightarrow> string \<Rightarrow> string \<Rightarrow> string \<Rightarrow> string \<Rightarrow> int \<Rightarrow> world \<Rightarrow> bool \<times> world" where
  "set_signer_challenge now aid sid ctype prompt salt wrapped iters w =
     (if find (\<lambda>s. s_id s = sid \<and> s_agr s = aid) (signer_rows w) = None then (False, w)
      else
        let w1 = (if ctype = ''none'' then upd_sig sid clear_challenge_row w
                  else upd_sig sid (set_challenge_row ctype prompt salt wrapped iters) w);
            w2 = log_event aid ''ACCESS_CHALLENGE_CONFIGURED'' (Some sid) [] [] (''type='' @ ctype) now w1
        in (True, snd (bump_env_session_epoch aid w2)))"

definition mark_challenge_passed :: "time \<Rightarrow> string \<Rightarrow> world \<Rightarrow> bool \<times> world" where
  "mark_challenge_passed now token w =
     (0 < rowcount (\<lambda>s. s_token s = Some token) (signer_rows w),
      w\<lparr>signer_rows := upd_where (\<lambda>s. s_token s = Some token)
          (\<lambda>s. s\<lparr>s_challenge_passed_at := Some now\<rparr>) (signer_rows w)\<rparr>)"

section \<open>A concrete instance of the third-party code\<close>

text \<open>
  The witnesses of the properties run the model on this instance: documents are the pages of
  \<open>ref_pikepdf\<close>, the hash is the identity, every PDF step succeeds and marks its output, every
  mail is accepted.
\<close>

definition ref_engine :: engine where
  "ref_engine =
     \<lparr>en_pk = ref_pikepdf, en_sha256 = (\<lambda>b. b), en_page_count = (\<lambda>b. Some 1),
      en_apply_edits = (\<lambda>b js. Inr (b @ ''cEr0;'')), en_replace_runs = (\<lambda>b js. Inr (b @ ''cTr0;'')),
      en_flatten = (\<lambda>b ps. Some (CHR ''F'' # b)), en_valid_image = (\<lambda>b. b \<noteq> []),
      en_unsupported = (\<lambda>s. []),
      en_stamp = (\<lambda>b ss. Some (CHR ''S'' # b)),
      en_certificate = (\<lambda>ci. Some (CHR ''C'' # ci_method ci)), en_append = (\<lambda>a b. Some (a @ b)),
      en_sanitize = (\<lambda>b. Some b), en_secure = (\<lambda>b. Some (CHR ''A'' # b)),
      en_certify = (\<lambda>b. Some (CHR ''P'' # b)), en_material_configured = True, en_material_ok = True,
      en_mail_ok = (\<lambda>a. True), en_fmt_signed = (\<lambda>t. []), en_page_dims = (\<lambda>b. Some [(612, 792)]),
      en_str = (\<lambda>j. []), en_parse_float = (\<lambda>s. None), en_sender_email = ''ops@x.io'',
      en_mail_from = ''no-reply@x.io'', en_public_base = ''https://x.io''\<rparr>"

definition blank_agreement :: agreement where
  "blank_agreement =
     \<lparr>a_id = 1, a_name = ''Lease'', a_message = [], a_status = Draft, a_created_by = ''own@x.io'',
      a_order_mode = ''parallel'', a_source_path = source_path 1, a_executed_path = [], a_doc_hash = [],
      a_envelope_id = ''E1'', a_source_doc_id = None, a_frozen_path = [], a_frozen_hash = [],
      a_sealed_hash = [], a_preseal_hash = [], a_seal_method = [], a_epoch = 0, a_owner = Some 7,
      a_edited_pages = [], a_created_at = Some 10, a_sent_at = None, a_completed_at = None,
      a_sealing_at = None, a_expires_at = None, a_expired_at = None\<rparr>"

definition blank_signer :: signer where
  "blank_signer =
     \<lparr>s_id = 1, s_agr = 1, s_name = ''Ann'', s_email = ''a@x.io'', s_role = ''Signer'', s_order = 1,
      s_color = [], s_token = None, s_status = Pending, s_viewed_at = None, s_signed_at = None,
      s_ip = [], s_ua = [], s_consent = False, s_signature_id = [], s_is_consumer = False,
      s_auth_method = [], s_consent_at = None, s_consent_ip = [], s_disclosure_version = [],
      s_disclosure_hash = [], s_access_demonstrated = False, s_access_method = [],
      s_withdrawn_at = None, s_challenge_type = ''none'', s_challenge_prompt = [],
      s_challenge_salt = [], s_challenge_hash = [], s_challenge_iters = 0,
      s_challenge_passed_at = None,
            s_env_method = [], s_env_at = None, s_env_email = [], s_otp_at = None\<rparr>"

definition blank_field :: field where
  "blank_field =
     \<lparr>f_id = 1, f_agr = 1, f_signer = Some 1, f_type = ''text'', f_page = 0, f_x = 0, f_y = 0, f_w = 1,
      f_h = 1, f_required = True, f_value = [], f_placeholder = [], f_prefill = False, f_prompt = [],
      f_key = [], f_adopted_at = JNull, f_method = []\<rparr>"

text \<open>A draft with one signer and one required text field, and its stored source file.\<close>

definition sample_world :: world where
  "sample_world = empty_world\<lparr>agreement_rows := [blank_agreement], signer_rows := [blank_signer],
     field_rows := [blank_field], next_agr := 2, next_sig := 2, next_fld := 2,
     files := (\<lambda>p. if p = source_path 1 then Some ''doc'' else None)\<rparr>"

definition sample_out :: world where
  "sample_out = sample_world\<lparr>agreement_rows := [blank_agreement\<lparr>a_status := OutForSignature,
       a_sent_at := Some 10, a_expires_at := Some 5184010\<rparr>],
     signer_rows := [blank_signer\<lparr>s_token := Some ''tok'', s_status := Sent\<rparr>]\<rparr>"

section \<open>The claim\<close>

lemma claim_row_id [simp]: "a_id (claim_row now a) = a_id a"
  by (simp add: claim_row_def)

text \<open>With a primary key the claim is decided by the row alone.\<close>

lemma fin_begin_row:
  assumes "unique_agr w"
  shows "fin_begin now aid w =
    (case agr_row w aid of
       None \<Rightarrow> (FinStop False, w)
     | Some a \<Rightarrow>
         if a_status a = Completed then (FinStop True, w)
         else if \<exists>s \<in> set (agr_signers w aid). challenge_unmet s then (FinStop False, w)
         else if claimable now a
         then (FinClaimed (the (get_agreement w aid)) (prior_status a),
               upd_agr_if aid (claimable now) (claim_row now) w)
         else (FinStop False, w))"
proof (cases "agr_row w aid")
  case None
  then show ?thesis by (simp add: fin_begin_def get_agreement_def)
next
  case (Some a)
  have strip: "challenge_unmet (strip_signer_secrets s) = challenge_unmet s" for s
    by (simp add: challenge_unmet_def has_challenge_def strip_signer_secrets_def)
  show ?thesis
    using Some guarded_rowcount [OF assms, of aid "claimable now"]
    by (simp add: fin_begin_def get_agreement_def strip)
qed

lemma agr_row_claim:
  "agr_row (upd_agr_if aid (claimable now) (claim_row now) w) j =
     (if j = aid then map_option (\<lambda>a. if claimable now a then claim_row now a else a) (agr_row w aid)
      else agr_row w j)"
  by (simp add: agr_row_upd_if)

lemma unique_upd_agr_if [simp]:
  "(\<And>a. a_id (f a) = a_id a) \<Longrightarrow> unique_agr (upd_agr_if aid P f w) = unique_agr w"
  by (simp add: unique_agr_def upd_agr_if_def map_upd_where)

lemma unique_upd_agr [simp]:
  "(\<And>a. a_id (f a) = a_id a) \<Longrightarrow> unique_agr (upd_agr aid f w) = unique_agr w"
  by (simp add: unique_agr_def upd_agr_def map_upd_where)

section \<open>The commit\<close>

lemma deliver_copy_frame [simp]:
  "agreement_rows (deliver_copy eng now v to w) = agreement_rows w"
  "signer_rows (deliver_copy eng now v to w) = signer_rows w"
  "field_rows (deliver_copy eng now v to w) = field_rows w"
  "template_rows (deliver_copy eng now v to w) = template_rows w"
  "files (deliver_copy eng now v to w) = files w"
  "hooks (deliver_copy eng now v to w) = hooks w"
  by (simp_all add: deliver_copy_def Let_def send_mail_def)

lemma fold_frame: "(\<And>x w. g (f x w) = g w) \<Longrightarrow> g (fold f xs w) = g w"
  by (induction xs arbitrary: w) simp_all

lemma deliver_copies_frame [simp]:
  "agreement_rows (fold (deliver_copy eng now v) tos w) = agreement_rows w"
  "signer_rows (fold (deliver_copy eng now v) tos w) = signer_rows w"
  "field_rows (fold (deliver_copy eng now v) tos w) = field_rows w"
  "template_rows (fold (deliver_copy eng now v) tos w) = template_rows w"
  "files (fold (deliver_copy eng now v) tos w) = files w"
  "hooks (fold (deliver_copy eng now v) tos w) = hooks w"
  by (simp_all add: fold_frame)

lemma seal_commit_rows:
  "agreement_rows (seal_commit eng now v sl w) =
     upd_where (\<lambda>a. a_id a = a_id (v_row v)) (completed_row now (a_id (v_row v)) sl) (agreement_rows w)"
  "signer_rows (seal_commit eng now v sl w) = signer_rows w"
  "field_rows (seal_commit eng now v sl w) = field_rows w"
  "template_rows (seal_commit eng now v sl w) = template_rows w"
  "files (seal_commit eng now v sl w) =
     (files w)(executed_path (a_id (v_row v)) \<mapsto> sl_executed sl)"
  "hooks (seal_commit eng now v sl w) =
     hooks w @ [\<lparr>h_event = ''envelope.completed'', h_agr = a_id (v_row v), h_signer = None,
                 h_owner = a_owner (v_row v)\<rparr>]"
  by (simp_all add: seal_commit_def Let_def emit_def upd_agr_def write_file_def)

lemma completed_row_id [simp]: "a_id (completed_row now aid sl a) = a_id a"
  by (simp add: completed_row_def)

lemma completed_row_sel:
  "a_status (completed_row now aid sl a) = Completed"
  "a_executed_path (completed_row now aid sl a) = executed_path aid"
  "a_doc_hash (completed_row now aid sl a) = sl_sealed sl"
  "a_preseal_hash (completed_row now aid sl a) = sl_preseal sl"
  "a_sealed_hash (completed_row now aid sl a) = sl_sealed sl"
  "a_seal_method (completed_row now aid sl a) = sl_method sl"
  by (simp_all add: completed_row_def)

lemma agr_row_seal_commit:
  "agr_row (seal_commit eng now v sl w) j =
     (if j = a_id (v_row v) then map_option (completed_row now j sl) (agr_row w j) else agr_row w j)"
  using agr.get_upd [of "completed_row now (a_id (v_row v)) sl" "a_id (v_row v)" w j]
  by (simp add: agr_row_def upd_agr_def seal_commit_rows)

lemma agr_row_seal_release:
  "agr_row (seal_release aid p w) j =
     (if j = aid then map_option (\<lambda>a. if a_status a = Sealing then a\<lparr>a_status := p\<rparr> else a) (agr_row w aid)
      else agr_row w j)"
  by (simp add: seal_release_def agr_row_upd_if)

lemma seal_release_frame [simp]:
  "signer_rows (seal_release aid p w) = signer_rows w"
  "field_rows (seal_release aid p w) = field_rows w"
  "event_rows (seal_release aid p w) = event_rows w"
  "files (seal_release aid p w) = files w"
  "hooks (seal_release aid p w) = hooks w"
  "outbox (seal_release aid p w) = outbox w"
  by (simp_all add: seal_release_def)

text \<open>The three ends of an uninterrupted \<open>finalize\<close>: nothing done, completed, or given back.\<close>

definition view_of :: "world \<Rightarrow> agreement \<Rightarrow> agr_view" where
  "view_of w a = \<lparr>v_row = a, v_signers = map strip_signer_secrets (agr_signers w (a_id a)),
     v_fields = agr_fields w (a_id a), v_events = agr_events w (a_id a)\<rparr>"

lemma get_agreement_view:
  "get_agreement w aid = map_option (view_of w) (agr_row w aid)"
  by (auto simp: get_agreement_def view_of_def split: option.splits dest: agr_row_id)

lemma v_row_view [simp]: "v_row (view_of w a) = a"
  by (simp add: view_of_def)

lemma presented_cong: "files w' = files w \<Longrightarrow> presented_bytes w' a = presented_bytes w a"
  by (simp add: presented_bytes_def source_bytes_def)

lemma presented_upd_agr_if [simp]: "presented_bytes (upd_agr_if aid P f w) a = presented_bytes w a"
  by (simp add: presented_bytes_def source_bytes_def)

definition sealed_of :: "engine \<Rightarrow> world \<Rightarrow> agreement \<Rightarrow> sealed option" where
  "sealed_of eng w a = Option.bind (presented_bytes w a) (seal_bytes eng (view_of w a))"

definition may_claim :: "time \<Rightarrow> world \<Rightarrow> agreement \<Rightarrow> bool" where
  "may_claim now w a =
     (claimable now a \<and> \<not> (\<exists>s \<in> set (agr_signers w (a_id a)). challenge_unmet s))"

lemma claimable_not_completed: "claimable now a \<Longrightarrow> a_status a \<noteq> Completed"
  by (auto simp: claimable_def terminal_for_claim_def)

lemma finalize_row:
  assumes "unique_agr w" and "agr_row w aid = Some a"
  shows "finalize eng now aid w =
    (let w1 = upd_agr_if aid (claimable now) (claim_row now) w in
     if \<not> may_claim now w a then (Some (a_status a = Completed), w)
     else case sealed_of eng w a of
       Some sl \<Rightarrow> (Some True, seal_commit eng now (view_of w a) sl w1)
     | None \<Rightarrow> (None, seal_release aid (prior_status a) w1))"
  using assms claimable_not_completed [of now a]
  by (auto simp: finalize_def fin_begin_row may_claim_def get_agreement_view seal_and_complete_def
      sealed_of_def agr_row_id Let_def split: option.splits Option.bind_splits)

lemma finalize_missing:
  "unique_agr w \<Longrightarrow> agr_row w aid = None \<Longrightarrow> finalize eng now aid w = (Some False, w)"
  by (simp add: finalize_def fin_begin_row)

lemma agr_row_finalize:
  assumes "unique_agr w" and "agr_row w aid = Some a" and "finalize eng now aid w = (r, w')"
  shows "agr_row w' aid = Some
    (if \<not> may_claim now w a then a
     else case sealed_of eng w a of
       Some sl \<Rightarrow> completed_row now aid sl (claim_row now a)
     | None \<Rightarrow> (claim_row now a)\<lparr>a_status := prior_status a\<rparr>)"
  using assms(3) agr_row_id [OF assms(2)] assms(2)
  by (auto simp: finalize_row [OF assms(1,2)] Let_def agr_row_seal_commit agr_row_seal_release
      agr_row_claim may_claim_def claim_row_def split: if_splits option.splits)

text \<open>Where the sealed bytes come from.\<close>

lemma seal_bytes_origin:
  assumes "seal_bytes eng v src = Some sl"
  shows "\<exists>stamped pages cert doc.
    en_stamp eng src (stamps eng v) = Some stamped \<and> sl_preseal sl = en_sha256 eng stamped \<and>
    en_page_count eng src = Some pages \<and>
    en_certificate eng (cert_input_for v (sl_preseal sl) pages (sl_method sl)) = Some cert \<and>
    en_append eng stamped cert = Some doc \<and>
    sl_sealed sl = en_sha256 eng (sl_executed sl) \<and>
    (if sl_method sl = ''pades''
     then \<exists>san. en_sanitize eng doc = Some san \<and> en_certify eng san = Some (sl_executed sl)
     else en_secure eng doc = Some (sl_executed sl))"
  using assms
  by (auto simp: seal_bytes_def pades_seal_def aes_seal_def Let_def bind_eq_Some_conv
      split: if_splits option.splits; blast)

lemma executed_path_not_Nil [simp]: "executed_path aid \<noteq> []"
  by (simp add: executed_path_def agr_path_def)

lemmas sample_defs = sample_out_def sample_world_def blank_agreement_def blank_signer_def
  blank_field_def empty_world_def

lemma sample_out_rows:
  "agr_row sample_out 1 = Some (blank_agreement\<lparr>a_status := OutForSignature,
     a_sent_at := Some 10, a_expires_at := Some 5184010\<rparr>)"
  "unique_agr sample_out"
  "agr_signers sample_out 1 = [blank_signer\<lparr>s_token := Some ''tok'', s_status := Sent\<rparr>]"
  "agr_fields sample_out 1 = [blank_field]"
  by (simp_all add: sample_out_def sample_world_def agr_row_def unique_agr_def agr_signers_def
      agr_fields_def blank_agreement_def blank_signer_def blank_field_def empty_world_def)

lemma sample_begin:
  "\<exists>v p w1. fin_begin now 1 sample_out = (FinClaimed v p, w1)"
  by (simp add: fin_begin_row sample_out_rows claimable_def terminal_for_claim_def challenge_unmet_def
      has_challenge_def) (simp add: blank_agreement_def blank_signer_def)

lemma sample_out_may_claim:
  "may_claim now sample_out (the (agr_row sample_out 1))"
  by (simp add: sample_out_rows may_claim_def claimable_def terminal_for_claim_def challenge_unmet_def
      has_challenge_def) (simp add: sample_out_rows blank_agreement_def blank_signer_def)

section \<open>Properties of completion\<close>

text \<open>Property C6. The claim of \<open>finalize\<close> is exclusive: after one request has claimed an agreement, a second
  request at any clock up to the stale limit of 120 seconds gets nothing and writes nothing.\<close>

theorem claim_exclusive:
  assumes "unique_agr w" and "fin_begin t1 aid w = (FinClaimed v p, w1)"
    and "t2 \<le> t1 + SEAL_STALE_S"
  shows "fin_begin t2 aid w1 = (FinStop False, w1)"
proof -
  obtain a where a: "agr_row w aid = Some a" "claimable t1 a"
    and w1: "w1 = upd_agr_if aid (claimable t1) (claim_row t1) w"
    using assms(2) by (auto simp: fin_begin_row [OF assms(1)] split: option.splits if_splits)
  then have "agr_row w1 aid = Some (claim_row t1 a)" by (simp add: agr_row_claim)
  moreover have "unique_agr w1" using assms(1) w1 by simp
  ultimately show ?thesis
    using assms(3) by (simp add: fin_begin_row claimable_def terminal_for_claim_def claim_row_def)
qed

lemma claim_exclusive_witness:
  "\<exists>v p w1. fin_begin 20 1 sample_out = (FinClaimed v p, w1) \<and>
     fin_begin 140 1 w1 = (FinStop False, w1)"
proof -
  obtain v p w1 where b: "fin_begin 20 1 sample_out = (FinClaimed v p, w1)"
    using sample_begin by blast
  moreover have "fin_begin 140 1 w1 = (FinStop False, w1)"
    by (rule claim_exclusive [OF _ b]) (simp_all add: sample_out_rows SEAL_STALE_S_def)
  ultimately show ?thesis by blast
qed

text \<open>What an uninterrupted \<open>finalize\<close> leaves behind: on success the agreement is completed; on
  refusal nothing has changed; when sealing raises, the claim is given back, so the row is the
  one before with its earlier status (\<open>out_for_signature\<close> when a stale claim was taken over)
  and no signer, file or webhook was touched.\<close>

theorem finalize_outcome:
  assumes "unique_agr w" and "agr_row w aid = Some a" and "finalize eng now aid w = (r, w')"
  shows "\<exists>a'. agr_row w' aid = Some a' \<and>
    (case r of
       Some True \<Rightarrow> a_status a' = Completed
     | Some False \<Rightarrow> w' = w
     | None \<Rightarrow> a' = a\<lparr>a_status := prior_status a, a_sealing_at := Some now\<rparr> \<and>
         signer_rows w' = signer_rows w \<and> field_rows w' = field_rows w \<and>
         event_rows w' = event_rows w \<and> files w' = files w \<and> hooks w' = hooks w)"
  using agr_row_finalize [OF assms] assms(2,3)
  by (auto simp: finalize_row [OF assms(1,2)] Let_def completed_row_def claim_row_def
      split: if_splits option.splits bool.splits)

definition broken_engine :: engine where
  "broken_engine = ref_engine\<lparr>en_secure := (\<lambda>b. None), en_certify := (\<lambda>b. None)\<rparr>"

lemma finalize_outcome_witness:
  "\<exists>w'. finalize broken_engine 20 1 sample_out = (None, w') \<and>
     map_option a_status (agr_row w' 1) = Some OutForSignature"
proof -
  let ?r = "finalize broken_engine 20 1 sample_out"
  have r: "fst ?r = None"
    using sample_out_may_claim [of 20]
    by (simp add: finalize_row sample_out_rows Let_def sealed_of_def seal_bytes_def broken_engine_def
        ref_engine_def pades_seal_def aes_seal_def bind_eq_None_conv split: option.splits)
      (simp add: bind_eq_None_conv)?
  then have "?r = (None, snd ?r)" by (simp add: prod_eq_iff)
  from finalize_outcome [OF sample_out_rows(2,1) this] this show ?thesis
    by (auto simp: prior_status_def)
qed

lemma finalize_true:
  assumes "unique_agr w" and "agr_row w aid = Some a" and "a_status a \<noteq> Completed"
    and "finalize eng now aid w = (Some True, w')"
  obtains src sl where "presented_bytes w a = Some src"
    and "seal_bytes eng (view_of w a) src = Some sl" and "may_claim now w a"
    and "w' = seal_commit eng now (view_of w a) sl (upd_agr_if aid (claimable now) (claim_row now) w)"
    and "agr_row w' aid = Some (completed_row now aid sl (claim_row now a))"
  using assms(3,4) agr_row_finalize [OF assms(1,2,4)]
  by (auto simp: finalize_row [OF assms(1,2)] Let_def sealed_of_def bind_eq_Some_conv
      split: if_splits option.splits)

text \<open>Property C4. What the sealed copy is made of: the stored executed file is the presented bytes with the
  stamps of the agreement's fields, followed by a certificate rendered with the very seal method
  that the row records, sealed by that method (PAdES certification of the sanitized file, or AES);
  the row's three hashes are those of the stamped bytes and of the stored file.\<close>

theorem finalize_seals_presented_bytes:
  assumes "unique_agr w" and "agr_row w aid = Some a" and "a_status a \<noteq> Completed"
    and "finalize eng now aid w = (Some True, w')"
  shows "\<exists>a' v src stamped pages cert doc executed.
    get_agreement w aid = Some v \<and> agr_row w' aid = Some a' \<and> a_status a' = Completed \<and>
    presented_bytes w a = Some src \<and>
    en_stamp eng src (stamps eng v) = Some stamped \<and>
    en_certificate eng (cert_input_for v (a_preseal_hash a') pages (a_seal_method a')) = Some cert \<and>
    en_append eng stamped cert = Some doc \<and>
    (if a_seal_method a' = ''pades''
     then \<exists>san. en_sanitize eng doc = Some san \<and> en_certify eng san = Some executed
     else en_secure eng doc = Some executed) \<and>
    executed_bytes w' aid = Some executed \<and>
    a_preseal_hash a' = en_sha256 eng stamped \<and>
    a_sealed_hash a' = en_sha256 eng executed \<and> a_doc_hash a' = a_sealed_hash a'"
proof -
  obtain src sl where p: "presented_bytes w a = Some src" "seal_bytes eng (view_of w a) src = Some sl"
    and w': "w' = seal_commit eng now (view_of w a) sl (upd_agr_if aid (claimable now) (claim_row now) w)"
    and row: "agr_row w' aid = Some (completed_row now aid sl (claim_row now a))"
    using finalize_true [OF assms] by blast
  have stored: "executed_bytes w' aid = Some (sl_executed sl)"
    using agr_row_id [OF assms(2)] unfolding executed_bytes_def
    by (simp add: row completed_row_def) (simp add: w' seal_commit_rows)
  obtain stamped pages cert doc where
    "en_stamp eng src (stamps eng (view_of w a)) = Some stamped \<and>
     sl_preseal sl = en_sha256 eng stamped \<and> en_page_count eng src = Some pages \<and>
     en_certificate eng (cert_input_for (view_of w a) (sl_preseal sl) pages (sl_method sl)) = Some cert \<and>
     en_append eng stamped cert = Some doc \<and> sl_sealed sl = en_sha256 eng (sl_executed sl) \<and>
     (if sl_method sl = ''pades''
      then \<exists>san. en_sanitize eng doc = Some san \<and> en_certify eng san = Some (sl_executed sl)
      else en_secure eng doc = Some (sl_executed sl))"
    using seal_bytes_origin [OF p(2)] by blast
  moreover have "get_agreement w aid = Some (view_of w a)"
    using assms(2) by (simp add: get_agreement_view)
  ultimately show ?thesis
    using p(1) row stored by (metis completed_row_sel)
qed

lemma path_not_Nil [simp]:
  "source_path aid \<noteq> []" "frozen_path aid \<noteq> []"
  by (simp_all add: source_path_def frozen_path_def agr_path_def)

lemma ref_seals: "seal_bytes ref_engine v src \<noteq> None"
  by (simp add: seal_bytes_def ref_engine_def pades_seal_def)

lemma sample_presented: "presented_bytes sample_out (the (agr_row sample_out 1)) = Some ''doc''"
  by (simp add: sample_out_rows presented_bytes_def source_bytes_def) (simp add: sample_defs)

lemma sample_finalize:
  "\<exists>w'. finalize ref_engine 20 1 sample_out = (Some True, w')"
proof -
  have "sealed_of ref_engine sample_out (the (agr_row sample_out 1)) \<noteq> None"
    by (simp add: sealed_of_def sample_presented ref_seals)
  with sample_out_may_claim [of 20] show ?thesis
    by (auto simp: finalize_row [OF sample_out_rows(2,1)] sample_out_rows(1) Let_def)
qed

lemma finalize_seals_presented_bytes_witness:
  "\<exists>w' a'. finalize ref_engine 20 1 sample_out = (Some True, w') \<and> agr_row w' 1 = Some a' \<and>
     executed_bytes w' 1 = Some (a_sealed_hash a')"
proof -
  obtain w' where f: "finalize ref_engine 20 1 sample_out = (Some True, w')"
    using sample_finalize by blast
  have "en_sha256 ref_engine x = x" for x by (simp add: ref_engine_def)
  then show ?thesis
    using f finalize_seals_presented_bytes [OF sample_out_rows(2,1) _ f] by auto
qed

text \<open>No document is sealed past an unmet access challenge: if one signer of the agreement still has
  one, \<open>finalize\<close> writes nothing, and answers true only for an agreement completed before.\<close>

theorem finalize_needs_challenges:
  assumes "unique_agr w" and "agr_row w aid = Some a"
    and "s \<in> set (signer_rows w)" and "s_agr s = aid" and "challenge_unmet s"
  shows "finalize eng now aid w = (Some (a_status a = Completed), w)"
proof -
  have "\<not> may_claim now w a"
    using assms(3-5) agr_row_id [OF assms(2)] by (auto simp: may_claim_def agr_signers_def)
  then show ?thesis by (simp add: finalize_row [OF assms(1,2)] Let_def)
qed

definition locked_world :: world where
  "locked_world = sample_out\<lparr>signer_rows := [blank_signer\<lparr>s_challenge_type := ''passcode''\<rparr>]\<rparr>"

lemma finalize_needs_challenges_witness:
  "finalize ref_engine 20 1 locked_world = (Some False, locked_world)"
  by (subst finalize_needs_challenges [where a = "the (agr_row sample_out 1)"
        and s = "blank_signer\<lparr>s_challenge_type := ''passcode''\<rparr>"])
    (simp_all add: locked_world_def unique_agr_def agr_row_def sample_defs challenge_unmet_def
      has_challenge_def)

text \<open>Completion happens once: the \<open>finalize\<close> that completes the agreement emits exactly one
  \<open>envelope.completed\<close>, and every later one answers true without writing or emitting anything.\<close>

theorem completes_once:
  assumes "unique_agr w" and "agr_row w aid = Some a" and "a_status a \<noteq> Completed"
    and "finalize eng now aid w = (Some True, w')"
  shows "hooks w' = hooks w @ [\<lparr>h_event = ''envelope.completed'', h_agr = aid, h_signer = None,
                               h_owner = a_owner a\<rparr>] \<and>
    finalize eng' now' aid w' = (Some True, w')"
proof -
  obtain src sl where
    w': "w' = seal_commit eng now (view_of w a) sl (upd_agr_if aid (claimable now) (claim_row now) w)"
    and row: "agr_row w' aid = Some (completed_row now aid sl (claim_row now a))"
    using finalize_true [OF assms] by blast
  have "unique_agr w'"
    using assms(1) by (simp add: w' unique_agr_def seal_commit_rows map_upd_where upd_agr_if_def)
  then have "finalize eng' now' aid w' = (Some True, w')"
    by (simp add: finalize_row [OF _ row] may_claim_def claimable_def terminal_for_claim_def
        completed_row_def)
  moreover have "a_id a = aid" using assms(2) by (rule agr_row_id)
  ultimately show ?thesis by (simp add: w' seal_commit_rows)
qed

lemma completes_once_witness:
  "\<exists>w'. finalize ref_engine 20 1 sample_out = (Some True, w') \<and> length (hooks w') = 1 \<and>
     finalize ref_engine 500 1 w' = (Some True, w')"
proof -
  obtain w' where f: "finalize ref_engine 20 1 sample_out = (Some True, w')"
    using sample_finalize by blast
  have "hooks sample_out = []" by (simp add: sample_defs)
  with f show ?thesis using completes_once [OF sample_out_rows(2,1) _ f] by auto
qed

lemma finalize_leaves:
  assumes "unique_agr w" and "finalize eng now aid w = (r, w')"
  shows "(\<forall>j. j \<noteq> aid \<longrightarrow> agr_row w' j = agr_row w j) \<and> signer_rows w' = signer_rows w \<and>
    field_rows w' = field_rows w \<and> (\<forall>path. path \<noteq> executed_path aid \<longrightarrow> files w' path = files w path)"
proof (cases "agr_row w aid")
  case None
  with assms show ?thesis by (simp add: finalize_missing)
next
  case (Some a)
  then show ?thesis
    using assms agr_row_id [OF Some]
    by (auto simp: finalize_row Let_def agr_row_seal_commit agr_row_seal_release agr_row_claim
        seal_commit_rows split: if_splits option.splits)
qed

text \<open>\<open>finalize\<close> on one agreement leaves every other agreement, every signer, every field and
  every file other than its own executed copy as they were.\<close>

theorem finalize_frame:
  assumes "unique_agr w" and "finalize eng now aid w = (r, w')" and "j \<noteq> aid"
    and "path \<noteq> executed_path aid"
  shows "agr_row w' j = agr_row w j \<and> signer_rows w' = signer_rows w \<and>
    field_rows w' = field_rows w \<and> files w' path = files w path"
  using finalize_leaves [OF assms(1,2)] assms(3,4) by blast

lemma finalize_frame_witness:
  "files (snd (finalize ref_engine 20 1 sample_out)) (source_path 1) = Some ''doc''"
proof -
  have "source_path 1 \<noteq> executed_path 1"
    by (simp add: source_path_def executed_path_def agr_path_def)
  then show ?thesis
    using finalize_frame [OF sample_out_rows(2) prod.collapse [symmetric],
        of 2 1 "source_path 1" ref_engine 20]
    by (simp add: sample_defs)
qed

lemma agr_row_void: "agr_row (snd (void now aid reason w)) j =
    (if j = aid then map_option void_row (agr_row w aid) else agr_row w j)"
  by (simp add: void_def Let_def agr.get_upd void_row_def)

lemma unique_void [simp]: "unique_agr (snd (void now aid reason w)) = unique_agr w"
  using unique_upd_agr [of void_row aid w]
  by (simp add: void_def Let_def void_row_def unique_agr_def)

lemma void_rows [simp]:
  "signer_rows (snd (void now aid reason w)) = signer_rows w"
  "field_rows (snd (void now aid reason w)) = field_rows w"
  "files (snd (void now aid reason w)) = files w"
  by (simp_all add: void_def Let_def)

text \<open>A void that lands while \<open>finalize\<close> is sealing does not last: the commit of the running seal
  has no status guard, so the voided agreement becomes completed (only the bumped session epoch
  remembers the void).\<close>

theorem void_lost_to_running_seal:
  assumes "unique_agr w" and "agr_row w aid = Some a" and "fin_begin t1 aid w = (FinClaimed v p, w1)"
    and "void t2 aid reason w1 = (True, w2)" and "seal_and_complete eng t3 v w2 = Some w3"
  shows "map_option a_status (agr_row w2 aid) = Some Voided \<and>
    map_option a_status (agr_row w3 aid) = Some Completed \<and>
    map_option a_epoch (agr_row w3 aid) = Some (a_epoch a + 1)"
proof -
  have v: "v = view_of w a" "w1 = upd_agr_if aid (claimable t1) (claim_row t1) w" "claimable t1 a"
    using assms(2,3) by (auto simp: fin_begin_row [OF assms(1)] get_agreement_view split: if_splits)
  have w2: "agr_row w2 aid = Some (void_row (claim_row t1 a))"
    using agr_row_void [of t2 aid reason w1 aid] assms(2,4) v by (simp add: agr_row_claim)
  obtain sl where "w3 = seal_commit eng t3 v sl w2"
    using assms(5) by (auto simp: seal_and_complete_def bind_eq_Some_conv)
  then have "agr_row w3 aid = Some (completed_row t3 aid sl (void_row (claim_row t1 a)))"
    using w2 agr_row_id [OF assms(2)] by (simp add: agr_row_seal_commit v)
  with w2 show ?thesis by (simp add: completed_row_def void_row_def claim_row_def)
qed

lemma void_lost_to_running_seal_witness:
  "\<exists>v p w1 w2 w3. fin_begin 20 1 sample_out = (FinClaimed v p, w1) \<and>
     void 21 1 ''wrong lease'' w1 = (True, w2) \<and> seal_and_complete ref_engine 22 v w2 = Some w3 \<and>
     map_option a_status (agr_row w3 1) = Some Completed"
proof -
  obtain v p w1 where b: "fin_begin 20 1 sample_out = (FinClaimed v p, w1)"
    using sample_begin by blast
  obtain w2 where vd: "void 21 1 ''wrong lease'' w1 = (True, w2)" by (simp add: void_def Let_def)
  have f: "files w2 = files sample_out" and v: "v_row v = the (agr_row sample_out 1)"
    using b void_rows(3) [of 21 1 "''wrong lease''" w1] vd
    by (auto simp: fin_begin_row [OF sample_out_rows(2)] get_agreement_view sample_out_rows split: if_splits)
  have "presented_bytes w2 (v_row v) = Some ''doc''"
    using sample_presented presented_cong [OF f] by (simp add: v)
  then obtain w3 where "seal_and_complete ref_engine 22 v w2 = Some w3"
    using ref_seals [of v "''doc''"] by (auto simp: seal_and_complete_def)
  with void_lost_to_running_seal [OF sample_out_rows(2,1) b vd] b vd show ?thesis by blast
qed

text \<open>Configuring an access challenge takes the signer's earlier pass away and ends the envelope's live
  sessions: the signer is locked again until the new challenge is met, and the session epoch moves.\<close>

theorem set_challenge_relocks:
  assumes "sig_row w sid = Some s" and "s_agr s = aid" and "agr_row w aid = Some a"
    and "ctype \<noteq> ''none''" and "ctype \<noteq> []"
    and "set_signer_challenge now aid sid ctype prompt salt wrapped iters w = (r, w')"
  shows "r \<and> (\<exists>s'. sig_row w' sid = Some s' \<and> challenge_unmet s' \<and> s_challenge_hash s' = wrapped \<and>
      s_token s' = s_token s \<and> s_status s' = s_status s) \<and>
    map_option a_epoch (agr_row w' aid) = Some (a_epoch a + 1)"
proof -
  have "find (\<lambda>s. s_id s = sid \<and> s_agr s = aid) (signer_rows w) \<noteq> None"
    using assms(1,2) by (auto simp: sig_row_def find_None_iff dest: find_SomeD)
  then show ?thesis
    using assms
    by (auto simp: set_signer_challenge_def bump_env_session_epoch_def Let_def agr.get_upd
        sig.get_upd set_challenge_row_def challenge_unmet_def has_challenge_def)
qed

lemma set_challenge_relocks_witness:
  "fst (set_signer_challenge 30 1 1 ''passcode'' ''p'' ''s'' ''h'' 9 sample_out)"
  using set_challenge_relocks [OF _ _ sample_out_rows(1), of 1
      "blank_signer\<lparr>s_token := Some ''tok'', s_status := Sent\<rparr>" "''passcode''" 30 "''p''" "''s''" "''h''" 9]
  by (simp add: prod_eq_iff sig_row_def sample_defs)

end
