(* ===== verification/Base64.thy ===== *)
theory Base64
  imports Prelude
begin

text \<open>
  The two functions of Python's \<open>base64\<close> module the modelled code uses, on byte strings:
  encoding with the standard and the URL-safe alphabet, and the lenient decoder, which skips
  characters outside the alphabet, stops at a complete padding and raises on an incomplete
  group. The main result is that decoding inverts encoding, for both alphabets, with or
  without the padding that \<open>webauth._sign\<close> strips.
\<close>

section \<open>The alphabet\<close>

definition b64_char :: "nat \<Rightarrow> char" where
  "b64_char n =
     (if n < 26 then char_of (65 + n)
      else if n < 52 then char_of (71 + n)
      else if n < 62 then char_of (n - 4)
      else if n = 62 then CHR ''+'' else CHR ''/'')"

definition b64_val :: "char \<Rightarrow> nat option" where
  "b64_val c = (let k = char_code c in
     if 65 \<le> k \<and> k \<le> 90 then Some (k - 65)
     else if 97 \<le> k \<and> k \<le> 122 then Some (k - 71)
     else if 48 \<le> k \<and> k \<le> 57 then Some (k + 4)
     else if c = CHR ''+'' then Some 62 else if c = CHR ''/'' then Some 63 else None)"

definition url_char :: "char \<Rightarrow> char" where
  "url_char c = (if c = CHR ''+'' then CHR ''-'' else if c = CHR ''/'' then CHR ''_'' else c)"

definition unurl_char :: "char \<Rightarrow> char" where
  "unurl_char c = (if c = CHR ''-'' then CHR ''+'' else if c = CHR ''_'' then CHR ''/'' else c)"

section \<open>Encoding\<close>

definition sextets :: "nat \<Rightarrow> nat \<Rightarrow> nat \<Rightarrow> nat \<times> nat \<times> nat \<times> nat" where
  "sextets a b c = (a div 4, (a mod 4) * 16 + b div 16, (b mod 16) * 4 + c div 64, c mod 64)"

fun b64encode :: "bytes \<Rightarrow> string" where
  "b64encode [] = []"
| "b64encode [a] =
     (case sextets (char_code a) 0 0 of (p, q, _, _) \<Rightarrow> [b64_char p, b64_char q, CHR ''='', CHR ''=''])"
| "b64encode [a, b] =
     (case sextets (char_code a) (char_code b) 0 of
        (p, q, r, _) \<Rightarrow> [b64_char p, b64_char q, b64_char r, CHR ''=''])"
| "b64encode (a # b # c # rest) =
     (case sextets (char_code a) (char_code b) (char_code c) of
        (p, q, r, s) \<Rightarrow> b64_char p # b64_char q # b64_char r # b64_char s # b64encode rest)"

definition urlsafe_b64encode :: "bytes \<Rightarrow> string" where
  "urlsafe_b64encode bs = map url_char (b64encode bs)"

section \<open>Decoding\<close>

text \<open>
  The decoder's state: the position in the group of four, the bits left over, the padding
  characters seen in a row, and the bytes written so far.
\<close>

fun a2b :: "nat \<Rightarrow> nat \<Rightarrow> nat \<Rightarrow> bytes \<Rightarrow> string \<Rightarrow> bytes option" where
  "a2b pos left pads out [] = (if pos = 0 then Some out else None)"
| "a2b pos left pads out (ch # rest) =
     (if ch = CHR ''='' then
        (if 2 \<le> pos then
           (if pos + (pads + 1) \<ge> 4 then Some out else a2b pos left (pads + 1) out rest)
         else a2b pos left pads out rest)
      else (case b64_val ch of
          None \<Rightarrow> a2b pos left pads out rest
        | Some v \<Rightarrow>
            (if pos = 0 then a2b 1 v 0 out rest
             else if pos = 1 then a2b 2 (v mod 16) 0 (out @ [char_of (left * 4 + v div 16)]) rest
             else if pos = 2 then a2b 3 (v mod 4) 0 (out @ [char_of (left * 16 + v div 4)]) rest
             else a2b 0 0 0 (out @ [char_of (left * 64 + v)]) rest)))"

text \<open>\<open>b64decode\<close> of a text string wants ASCII; \<open>None\<close> is the \<open>ValueError\<close>.\<close>

definition b64decode :: "string \<Rightarrow> bytes option" where
  "b64decode s = (if list_all (\<lambda>c. char_code c < 128) s then a2b 0 0 0 [] s else None)"

definition urlsafe_b64decode :: "string \<Rightarrow> bytes option" where
  "urlsafe_b64decode s = b64decode (map unurl_char s)"

section \<open>Decoding inverts encoding\<close>

lemma char_code_less: "char_code c < 256"
  by (simp add: char_code_def)

lemma char_of_code [simp]: "char_of (char_code c) = c"
  by (simp add: char_code_def)

lemma char_eq_iff_code: "c = d \<longleftrightarrow> char_code c = char_code d"
  by (metis char_of_code)

lemma char_code_of: "n < 256 \<Longrightarrow> char_code (char_of n) = n"
  by (simp add: char_code_def)

lemma char_code_literals [simp]:
  "char_code (CHR ''+'') = 43" "char_code (CHR ''/'') = 47" "char_code (CHR ''-'') = 45"
  "char_code (CHR ''_'') = 95" "char_code (CHR ''='') = 61" "char_code (CHR ''.'') = 46"
  by (simp_all add: char_code_def)

lemma code_b64_char:
  "n < 64 \<Longrightarrow> char_code (b64_char n) =
     (if n < 26 then 65 + n else if n < 52 then 71 + n else if n < 62 then n - 4
      else if n = 62 then 43 else 47)"
  by (simp add: b64_char_def char_code_of)

lemma b64_val_char: "n < 64 \<Longrightarrow> b64_val (b64_char n) = Some n"
  by (auto simp: b64_val_def Let_def code_b64_char char_eq_iff_code)

lemma b64_char_neq:
  assumes "n < 64"
  shows "b64_char n \<noteq> CHR ''=''" and "char_code (b64_char n) < 128"
    and "url_char (b64_char n) \<noteq> CHR ''=''" and "url_char (b64_char n) \<noteq> CHR ''.''"
  using code_b64_char [OF assms] assms
  by (auto simp: url_char_def char_eq_iff_code split: if_splits)

lemma unurl_url_char: "n < 64 \<Longrightarrow> unurl_char (url_char (b64_char n)) = b64_char n"
  using code_b64_char [of n]
  by (auto simp: url_char_def unurl_char_def char_eq_iff_code split: if_splits)

lemma sextet_bounds:
  "sextets (char_code a) (char_code b) (char_code c) = (p, q, r, s) \<Longrightarrow> p < 64 \<and> q < 64 \<and> r < 64 \<and> s < 64"
  using char_code_less [of a] char_code_less [of b] char_code_less [of c]
  by (auto simp: sextets_def)

lemma a2b_quad:
  assumes "sextets (char_code a) (char_code b) (char_code c) = (p, q, r, s)"
  shows "a2b 0 0 0 out (b64_char p # b64_char q # b64_char r # b64_char s # rest) =
    a2b 0 0 0 (out @ [a, b, c]) rest"
proof -
  have "p * 4 + q div 16 = char_code a" and "q mod 16 * 16 + r div 4 = char_code b"
    and "r mod 4 * 64 + s = char_code c"
    using assms char_code_less [of a] char_code_less [of b] char_code_less [of c]
    by (auto simp: sextets_def)
  then show ?thesis
    using sextet_bounds [OF assms] by (simp add: b64_val_char b64_char_neq)
qed

lemma a2b_encode: "a2b 0 0 0 out (b64encode bs) = Some (out @ bs)"
proof (induction bs arbitrary: out rule: b64encode.induct)
  case (2 a)
  obtain p q r s where sx: "sextets (char_code a) (char_code (char_of (0::nat))) (char_code (char_of (0::nat))) = (p, q, r, s)"
    by (cases "sextets (char_code a) (char_code (char_of (0::nat))) (char_code (char_of (0::nat)))") auto
  then have sx': "sextets (char_code a) 0 0 = (p, q, r, s)" by (simp add: char_code_of)
  have "p * 4 + q div 16 = char_code a"
    using sx' char_code_less [of a] by (auto simp: sextets_def)
  then show ?case
    using sextet_bounds [OF sx] by (simp add: sx' b64_val_char b64_char_neq)
next
  case (3 a b)
  obtain p q r s where sx: "sextets (char_code a) (char_code b) (char_code (char_of (0::nat))) = (p, q, r, s)"
    by (cases "sextets (char_code a) (char_code b) (char_code (char_of (0::nat)))") auto
  then have sx': "sextets (char_code a) (char_code b) 0 = (p, q, r, s)" by (simp add: char_code_of)
  have "p * 4 + q div 16 = char_code a" and "q mod 16 * 16 + r div 4 = char_code b"
    using sx' char_code_less [of a] char_code_less [of b] by (auto simp: sextets_def)
  then show ?case
    using sextet_bounds [OF sx] by (simp add: sx' b64_val_char b64_char_neq)
next
  case (4 a b c rest)
  obtain p q r s where sx: "sextets (char_code a) (char_code b) (char_code c) = (p, q, r, s)"
    by (cases "sextets (char_code a) (char_code b) (char_code c)") auto
  show ?case
    using a2b_quad [OF sx, of out "b64encode rest"] 4 [OF sx [symmetric] refl refl, of "out @ [a, b, c]"]
    by (simp add: sx)
qed simp

text \<open>The characters an encoding consists of.\<close>

definition b64_chars :: "char set" where
  "b64_chars = insert (CHR ''='') (b64_char ` {..<64})"

lemma b64_chars_I [intro]: "n < 64 \<Longrightarrow> b64_char n \<in> b64_chars" "CHR ''='' \<in> b64_chars"
  by (auto simp: b64_chars_def)

lemma b64encode_chars: "set (b64encode bs) \<subseteq> b64_chars"
proof (induction bs rule: b64encode.induct)
  case (2 a)
  have "char_code a div 4 < 64" and "char_code a mod 4 * 16 < 64"
    using char_code_less [of a] by auto
  then show ?case by (auto simp: sextets_def)
next
  case (3 a b)
  have "char_code a div 4 < 64" and "char_code a mod 4 * 16 + char_code b div 16 < 64"
    and "char_code b mod 16 * 4 < 64"
    using char_code_less [of a] char_code_less [of b] by auto
  then show ?case by (auto simp: sextets_def)
next
  case (4 a b c rest)
  obtain p q r s where sx: "sextets (char_code a) (char_code b) (char_code c) = (p, q, r, s)"
    by (cases "sextets (char_code a) (char_code b) (char_code c)") auto
  have "set (b64encode rest) \<subseteq> b64_chars"
    by (rule 4 [OF sx [symmetric] refl refl])
  then show ?case using sextet_bounds [OF sx] by (auto simp: sx)
qed simp

lemma b64_chars_props:
  assumes "c \<in> b64_chars"
  shows "char_code c < 128" and "unurl_char (url_char c) = c" and "url_char c \<noteq> CHR ''.''"
proof -
  consider "c = CHR ''=''" | n where "n < 64" and "c = b64_char n"
    using assms by (auto simp: b64_chars_def)
  then have "char_code c < 128 \<and> unurl_char (url_char c) = c \<and> url_char c \<noteq> CHR ''.''"
    by cases (simp_all add: url_char_def [of "CHR ''=''"] unurl_char_def [of "CHR ''=''"]
      b64_char_neq unurl_url_char)
  then show "char_code c < 128" and "unurl_char (url_char c) = c" and "url_char c \<noteq> CHR ''.''"
    by auto
qed

lemma b64decode_encode: "b64decode (b64encode bs) = Some bs"
proof -
  have "list_all (\<lambda>c. char_code c < 128) (b64encode bs)"
    unfolding list_all_iff using b64encode_chars [of bs] by (auto dest: b64_chars_props)
  then show ?thesis by (simp add: b64decode_def a2b_encode)
qed

lemma urlsafe_decode_encode: "urlsafe_b64decode (urlsafe_b64encode bs) = Some bs"
proof -
  have "map unurl_char (urlsafe_b64encode bs) = map (\<lambda>c. c) (b64encode bs)"
    unfolding urlsafe_b64encode_def map_map
    by (rule map_cong) (use b64encode_chars [of bs] in \<open>auto simp: b64_chars_props\<close>)
  then show ?thesis by (simp add: urlsafe_b64decode_def b64decode_encode)
qed

section \<open>Stripped padding\<close>

text \<open>
  \<open>webauth._sign\<close> strips the padding (\<open>rstrip("=")\<close>) and \<open>webauth._unsign\<close> puts back
  \<open>-len(body) % 4\<close> of it.
\<close>

definition rstrip_eq :: "string \<Rightarrow> string" where
  "rstrip_eq s = rev (dropWhile (\<lambda>c. c = CHR ''='') (rev s))"

definition repad :: "string \<Rightarrow> string" where
  "repad s = s @ replicate (nat (- int (length s) mod 4)) (CHR ''='')"

lemma rstrip_eq_split: "CHR ''='' \<notin> set core \<Longrightarrow> rstrip_eq (core @ replicate k (CHR ''='')) = core"
proof -
  assume core: "CHR ''='' \<notin> set core"
  have "dropWhile (\<lambda>c. c = CHR ''='') (rev core) = rev core"
    by (rule dropWhile_ident, cases "rev core") (use core in \<open>auto simp: rev_eq_Cons_iff\<close>)
  then show ?thesis
    by (simp add: rstrip_eq_def dropWhile_append)
qed

lemma repad_split:
  assumes "4 dvd length core + k" and "k < 4"
  shows "repad core = core @ replicate k (CHR ''='')"
proof -
  have "int k = - int (length core) mod 4"
    using assms by presburger
  then show ?thesis by (simp add: repad_def)
qed

lemma b64encode_split:
  "\<exists>core k. b64encode bs = core @ replicate k (CHR ''='') \<and> CHR ''='' \<notin> set core \<and> k < 4 \<and>
     4 dvd length core + k"
proof (induction bs rule: b64encode.induct)
  case 1
  show ?case by (rule exI [of _ "[]"], rule exI [of _ 0]) simp
next
  case (2 a)
  obtain p q r s where sx: "sextets (char_code a) 0 0 = (p, q, r, s)"
    by (cases "sextets (char_code a) 0 0") auto
  have "p < 64 \<and> q < 64"
    using sx char_code_less [of a] by (auto simp: sextets_def)
  then have "CHR ''='' \<notin> set [b64_char p, b64_char q]"
    by (auto dest: b64_char_neq)
  then show ?case
    by (intro exI [of _ "[b64_char p, b64_char q]"] exI [of _ "Suc (Suc 0)"]) (simp add: sx numeral_eq_Suc)
next
  case (3 a b)
  obtain p q r s where sx: "sextets (char_code a) (char_code b) 0 = (p, q, r, s)"
    by (cases "sextets (char_code a) (char_code b) 0") auto
  have "p < 64 \<and> q < 64 \<and> r < 64"
    using sx char_code_less [of a] char_code_less [of b] by (auto simp: sextets_def)
  then have "CHR ''='' \<notin> set [b64_char p, b64_char q, b64_char r]"
    by (auto dest: b64_char_neq)
  then show ?case
    by (intro exI [of _ "[b64_char p, b64_char q, b64_char r]"] exI [of _ "Suc 0"]) (simp add: sx numeral_eq_Suc)
next
  case (4 a b c rest)
  obtain p q r s where sx: "sextets (char_code a) (char_code b) (char_code c) = (p, q, r, s)"
    by (cases "sextets (char_code a) (char_code b) (char_code c)") auto
  obtain core k where IH: "b64encode rest = core @ replicate k (CHR ''='')" "CHR ''='' \<notin> set core"
      "k < 4" "4 dvd length core + k"
    using 4 [OF sx [symmetric] refl refl] by blast
  let ?q = "[b64_char p, b64_char q, b64_char r, b64_char s]"
  have "CHR ''='' \<notin> set (?q @ core)"
    using sextet_bounds [OF sx] IH(2) by (auto dest: b64_char_neq)
  moreover have "4 dvd length (?q @ core) + k"
    using IH(4) by simp presburger
  ultimately show ?case
    by (intro exI [of _ "?q @ core"] exI [of _ k]) (simp add: sx IH(1,3))
qed

text \<open>Stripping the padding of an encoding and putting it back is the identity.\<close>

lemma repad_rstrip: "repad (rstrip_eq (urlsafe_b64encode bs)) = urlsafe_b64encode bs"
proof -
  obtain core k where c: "b64encode bs = core @ replicate k (CHR ''='')" "CHR ''='' \<notin> set core"
      "k < 4" "4 dvd length core + k"
    using b64encode_split by blast
  have url: "urlsafe_b64encode bs = map url_char core @ replicate k (CHR ''='')"
    by (simp add: urlsafe_b64encode_def c(1) url_char_def)
  have "CHR ''='' \<notin> set (map url_char core)"
    using c(2) by (auto simp: url_char_def split: if_splits)
  then show ?thesis
    using repad_split [of "map url_char core" k] c(3,4) by (simp add: url rstrip_eq_split)
qed

lemma set_rstrip_eq: "set (rstrip_eq s) \<subseteq> set s"
  by (auto simp: rstrip_eq_def dest!: set_dropWhileD)

lemma dot_notin_urlsafe: "CHR ''.'' \<notin> set (urlsafe_b64encode bs)"
  using b64encode_chars [of bs] b64_chars_props(3) by (fastforce simp: urlsafe_b64encode_def)

end
