(* ===== verification/Signing.thy ===== *)
theory Signing
  imports Sealing Base64
begin

text \<open>
  The life of an envelope after drafting (\<open>sign/esign.py\<close>): \<open>send\<close>, \<open>self_sign_link\<close>, \<open>remind\<close>,
  the signer page's \<open>signing_payload\<close>, \<open>record_consent\<close>, \<open>submit_signature\<close> with the sequential
  cascade, \<open>withdraw_consent\<close>, \<open>decline\<close>, the downloads of the executed copy and the expiry sweep.

  Each operation takes the clock and the random values it draws as arguments, and returns its
  result and the next state. An error result of the code is a constructor of the operation's
  error type; an exception that reaches the caller is a constructor of its own, and leaves the
  state at the last commit.
\<close>

section \<open>send\<close>

datatype send_error =
    SendNotFound | SendNoSigners | SendAlreadySent agr_status | SendInconsistentEdits | SendFreezeFailed

record link =
  l_signer :: int
  l_name :: string
  l_email :: string
  l_order :: int
  l_token :: string
  l_url :: string

datatype send_result = SendErr send_error | SendOk "link list" nat nat

text \<open>Freezing: the presented bytes, with the pages edited in place flattened.\<close>

definition freeze :: "engine \<Rightarrow> world \<Rightarrow> agreement \<Rightarrow> send_error + bytes" where
  "freeze eng w a =
     (case source_bytes w a of
        None \<Rightarrow> Inl SendFreezeFailed
      | Some src \<Rightarrow>
          (let edited = edited_page_list a in
           if edited = [] then Inr src
           else case page_count (en_pk eng) src of
              Inl _ \<Rightarrow> Inl SendFreezeFailed
            | Inr npages \<Rightarrow>
                if \<exists>i \<in> set edited. \<not> (0 \<le> i \<and> i < npages) then Inl SendInconsistentEdits
                else case en_flatten eng src edited of
                  None \<Rightarrow> Inl SendFreezeFailed
                | Some flat \<Rightarrow> Inr flat))"

text \<open>The two audit lines and the token of one signer.\<close>

definition middot :: string where
  "middot = [CHR '' '', CHR 0xB7, CHR '' '']"

definition send_signer :: "time \<Rightarrow> (int \<Rightarrow> string) \<Rightarrow> int \<Rightarrow> signer \<Rightarrow> world \<Rightarrow> world" where
  "send_signer now tok aid s w =
     log_event aid ''SIGNER_AUTHENTICATED'' (Some (s_id s)) [] []
       (''auth='' @ nonblank (s_auth_method s) ''email'' @ middot @ ''single-use token link to '' @ s_email s) now
     (log_event aid ''sent'' (Some (s_id s)) [] [] (''to '' @ s_email s) now
     (upd_sig (s_id s) (\<lambda>r. r\<lparr>s_token := Some (tok (s_id s)), s_status := Sent\<rparr>) w))"

definition link_for :: "string \<Rightarrow> (int \<Rightarrow> string) \<Rightarrow> signer \<Rightarrow> link" where
  "link_for base tok s =
     \<lparr>l_signer = s_id s, l_name = s_name s, l_email = s_email s, l_order = eff_order s,
      l_token = tok (s_id s), l_url = base @ ''/sign/'' @ tok (s_id s)\<rparr>"

definition sent_row :: "time \<Rightarrow> agreement \<Rightarrow> agreement" where
  "sent_row now a =
     a\<lparr>a_status := OutForSignature, a_sent_at := Some now,
       a_expires_at := Some (now + ESIGN_EXPIRY_DAYS * 86400)\<rparr>"

text \<open>The invitations that go out now: everyone's, or the first order group's when sequential.\<close>

definition invite_now :: "agr_view \<Rightarrow> link \<Rightarrow> bool" where
  "invite_now v l =
     (py_strip (l_email l) \<noteq> [] \<and>
      (is_sequential (v_row v) \<longrightarrow> Some (l_order l) = next_order_to_notify (v_signers v)))"

definition mail_links :: "mail_kind \<Rightarrow> int \<Rightarrow> link list \<Rightarrow> world \<Rightarrow> world" where
  "mail_links k aid ls w = fold (\<lambda>l. send_mail (l_email l) k aid (l_url l)) ls w"

definition send_db :: "engine \<Rightarrow> time \<Rightarrow> (int \<Rightarrow> string) \<Rightarrow> agr_view \<Rightarrow> bytes \<Rightarrow> world \<Rightarrow> world" where
  "send_db eng now tok v src w =
     (let aid = a_id (v_row v); h = en_sha256 eng src;
          w1 = write_file (frozen_path aid) src w;
          w2 = fold (send_signer now tok aid) (v_signers v) w1;
          w3 = upd_agr aid (\<lambda>a. a\<lparr>a_frozen_path := frozen_path aid, a_frozen_hash := h\<rparr>) w2;
          w4 = log_event aid ''DOC_FROZEN'' None [] [] h now w3
      in upd_agr aid (sent_row now) w4)"

definition send ::
  "engine \<Rightarrow> time \<Rightarrow> (int \<Rightarrow> string) \<Rightarrow> string \<Rightarrow> int \<Rightarrow> world \<Rightarrow> send_result \<times> world" where
  "send eng now tok base aid w =
     (case get_agreement w aid of
        None \<Rightarrow> (SendErr SendNotFound, w)
      | Some v \<Rightarrow>
          if v_signers v = [] then (SendErr SendNoSigners, w)
          else if a_status (v_row v) \<notin> {Draft, NoStatus}
            then (SendErr (SendAlreadySent (a_status (v_row v))), w)
          else case freeze eng w (v_row v) of
            Inl e \<Rightarrow> (SendErr e, w)
          | Inr src \<Rightarrow>
              (let w1 = send_db eng now tok v src w;
                   w2 = emit ''envelope.sent'' aid None (a_owner (v_row v)) w1;
                   links = map (link_for base tok) (v_signers v);
                   due = filter (invite_now v) links;
                   emailed = length (filter (\<lambda>l. en_mail_ok eng (l_email l)) due);
                   w3 = mail_links Invite aid due w2;
                   w4 = (if emailed = 0 then w3
                         else log_event aid ''emailed'' None [] []
                           (py_str (int emailed) @ '' signing invite(s) emailed'') now w3)
               in (SendOk links emailed (length due - emailed), w4)))"

section \<open>self_sign_link and remind\<close>

datatype selfsign_result = SelfNotFound | SelfAlreadySigned | SelfOk string string

definition self_sign_link ::
  "time \<Rightarrow> string \<Rightarrow> string \<Rightarrow> int \<Rightarrow> int \<Rightarrow> world \<Rightarrow> selfsign_result \<times> world" where
  "self_sign_link now fresh base aid sid w =
     (case find (\<lambda>s. s_id s = sid \<and> s_agr s = aid) (signer_rows w) of
        None \<Rightarrow> (SelfNotFound, w)
      | Some s \<Rightarrow>
          if s_status s = Signed then (SelfAlreadySigned, w)
          else
            (let tok = (case s_token s of None \<Rightarrow> fresh | Some t \<Rightarrow> nonblank t fresh);
                 w1 = upd_sig sid (\<lambda>r. r\<lparr>s_token := Some tok,
                        s_status := (if s_status r \<in> {SigDraft, NoSigStatus} then Sent else s_status r)\<rparr>) w;
                 w2 = upd_agr_if aid (\<lambda>a. a_status a = Draft)
                        (\<lambda>a. a\<lparr>a_status := OutForSignature, a_sent_at := Some (coalesce (a_sent_at a) now)\<rparr>) w1;
                 w3 = log_event aid ''self_sign'' (Some sid) [] []
                        (nonblank (s_email s) (s_name s) @ '' self-signing (no email)'') now w2
             in (SelfOk (base @ ''/sign/'' @ tok) tok, w3)))"

datatype remind_result = RemindNotFound | RemindBadStatus agr_status | RemindNoPending | RemindDone nat nat

definition remind_targets :: "agr_view \<Rightarrow> signer list" where
  "remind_targets v =
     filter (\<lambda>s. s_status s \<noteq> Signed \<and> py_strip (s_email s) \<noteq> [] \<and> s_token s \<noteq> None \<and> s_token s \<noteq> Some [])
       (v_signers v)"

definition remind_one :: "engine \<Rightarrow> time \<Rightarrow> string \<Rightarrow> int \<Rightarrow> signer \<Rightarrow> world \<Rightarrow> world" where
  "remind_one eng now base aid s w =
     (let w1 = send_mail (s_email s) Reminder aid (base @ ''/sign/'' @ coalesce (s_token s) []) w
      in if en_mail_ok eng (s_email s)
         then log_event aid ''reminded'' (Some (s_id s)) [] [] (''reminder to '' @ s_email s) now w1
         else w1)"

definition remind :: "engine \<Rightarrow> time \<Rightarrow> string \<Rightarrow> int \<Rightarrow> world \<Rightarrow> remind_result \<times> world" where
  "remind eng now base aid w =
     (case get_agreement w aid of
        None \<Rightarrow> (RemindNotFound, w)
      | Some v \<Rightarrow>
          if a_status (v_row v) \<in> {Voided, Cancelled, Completed, Draft, Expired}
            then (RemindBadStatus (a_status (v_row v)), w)
          else let pending = remind_targets v in
            if pending = [] then (RemindNoPending, w)
            else (RemindDone (length (filter (\<lambda>s. en_mail_ok eng (s_email s)) pending)) (length pending),
                  fold (remind_one eng now base aid) pending w))"

section \<open>The signer page\<close>

datatype payload_error = PayVoided | PayExpired | PayLinkExpired

record payload =
  py_agr :: agreement
  py_signer :: signer
  py_status :: sig_status
  py_pages :: "(real \<times> real) list"
  py_fields :: "field list"
  py_consent :: bool

datatype payload_result = PayMissing | PayErr payload_error | PayRaise | PayOk payload

definition view_row :: "time \<Rightarrow> string \<Rightarrow> string \<Rightarrow> signer \<Rightarrow> signer" where
  "view_row now ip ua s =
     s\<lparr>s_status := Viewed, s_viewed_at := Some now, s_ip := ip, s_ua := take 300 ua\<rparr>"

definition signing_payload ::
  "engine \<Rightarrow> time \<Rightarrow> string \<Rightarrow> string \<Rightarrow> string \<Rightarrow> world \<Rightarrow> payload_result \<times> world" where
  "signing_payload eng now token ip ua w =
     (case signer_by_token w token of
        None \<Rightarrow> (PayMissing, w)
      | Some s \<Rightarrow> (case get_agreement w (s_agr s) of
            None \<Rightarrow> (PayMissing, w)
          | Some v \<Rightarrow> (let a = v_row v in
              if a_status a \<in> {Voided, Cancelled, Declined} then (PayErr PayVoided, w)
              else if s_status s \<noteq> Signed \<and> a_status a = Expired then (PayErr PayExpired, w)
              else if s_status s \<noteq> Signed \<and> a_status a \<noteq> Completed \<and> token_expired now a
                then (PayErr PayLinkExpired, w)
              else
                let w1 = (if s_status s \<in> {Sent, Viewed}
                    then log_event (s_agr s) ''viewed'' (Some (s_id s)) ip ua [] now
                      (if is_set (s_viewed_at s) then w else upd_sig (s_id s) (view_row now ip ua) w)
                    else w)
                in case Option.bind (presented_bytes w1 a) (en_page_dims eng) of
                     None \<Rightarrow> (PayRaise, w1)
                   | Some dims \<Rightarrow>
                      (PayOk \<lparr>py_agr = a, py_signer = s,
                         py_status = (if s_status s = Sent then Viewed else s_status s),
                         py_pages = dims,
                         py_fields = filter (\<lambda>f. f_signer f = Some (s_id s)) (v_fields v),
                         py_consent = (s_consent s \<and> \<not> is_set (s_withdrawn_at s))\<rparr>, w1))))"

section \<open>Consent\<close>

datatype consent_error =
    ConsentRequired | ConsentInvalidLink | ConsentChallenge | ConsentVoided

datatype consent_result = ConsentErr consent_error | ConsentOk "time option" bool

definition consent_row ::
  "time \<Rightarrow> string \<Rightarrow> string \<Rightarrow> string \<Rightarrow> bool \<Rightarrow> string \<Rightarrow> signer \<Rightarrow> signer" where
  "consent_row now ip dv dh access_demo access_method s =
     s\<lparr>s_consent := True, s_consent_at := Some now, s_consent_ip := ip, s_disclosure_version := dv,
       s_disclosure_hash := dh, s_access_demonstrated := access_demo,
       s_access_method := access_method\<rparr>"

definition record_consent ::
  "engine \<Rightarrow> time \<Rightarrow> string \<Rightarrow> (string \<times> json) list \<Rightarrow> string \<Rightarrow> string \<Rightarrow> world \<Rightarrow>
   consent_result \<times> world" where
  "record_consent eng now token body ip ua w =
     (if \<not> truthy (jget body ''agreed'') then (ConsentErr ConsentRequired, w)
      else case signer_by_token w token of
        None \<Rightarrow> (ConsentErr ConsentInvalidLink, w)
      | Some s \<Rightarrow>
          if challenge_unmet s then (ConsentErr ConsentChallenge, w)
          else if (case agr_row w (s_agr s) of None \<Rightarrow> False
                   | Some a \<Rightarrow> a_status a \<in> {Voided, Cancelled, Declined})
            then (ConsentErr ConsentVoided, w)
          else if is_set (s_consent_at s) then (ConsentOk (s_consent_at s) True, w)
          else
            (let dv = str_or_empty eng (jget body ''disclosure_version'');
                 dh = str_or_empty eng (jget body ''disclosure_text_hash'');
                 demo = truthy (jget body ''access_demonstrated'');
                 am = str_or_empty eng (jget body ''access_method'');
                 w1 = upd_sig (s_id s) (consent_row now ip dv dh demo am) w;
                 w2 = log_event (s_agr s) ''ECONSENT_ACCEPTED'' (Some (s_id s)) ip ua
                        (dv @ middot @ nonblank am ''consent'') now w1;
                 w3 = (if demo then log_event (s_agr s) ''RECORDS_ACCESS_DEMONSTRATED'' (Some (s_id s)) ip ua
                         (nonblank am ''viewed electronic record'') now w2 else w2)
             in (ConsentOk (Some now) False, w3)))"

datatype withdraw_result = WithdrawInvalidLink | WithdrawChallenge | WithdrawOk "time option" bool

definition decline_agr :: "int \<Rightarrow> world \<Rightarrow> world" where
  "decline_agr aid w =
     upd_agr_if aid (\<lambda>a. a_status a \<notin> {Completed, Voided, Cancelled}) (\<lambda>a. a\<lparr>a_status := Declined\<rparr>) w"

definition withdraw_consent ::
  "time \<Rightarrow> string \<Rightarrow> string \<Rightarrow> string \<Rightarrow> string \<Rightarrow> world \<Rightarrow> withdraw_result \<times> world" where
  "withdraw_consent now token reason ip ua w =
     (case signer_by_token w token of
        None \<Rightarrow> (WithdrawInvalidLink, w)
      | Some s \<Rightarrow>
          if challenge_unmet s then (WithdrawChallenge, w)
          else if is_set (s_withdrawn_at s) then (WithdrawOk (s_withdrawn_at s) True, w)
          else
            (let completed = (case agr_row w (s_agr s) of None \<Rightarrow> False | Some a \<Rightarrow> a_status a = Completed);
                 w1 = upd_sig (s_id s) (\<lambda>r. r\<lparr>s_withdrawn_at := Some now\<rparr>) w;
                 w2 = log_event (s_agr s) ''ECONSENT_WITHDRAWN'' (Some (s_id s)) ip ua reason now w1;
                 w3 = (if completed then w2
                       else decline_agr (s_agr s)
                              (upd_sig (s_id s) (\<lambda>r. r\<lparr>s_status := SigDeclined\<rparr>) w2))
             in (WithdrawOk (Some now) False, w3)))"

section \<open>What sending writes\<close>

lemma send_signer_frame [simp]:
  "agreement_rows (send_signer now tok aid s w) = agreement_rows w"
  "field_rows (send_signer now tok aid s w) = field_rows w"
  "files (send_signer now tok aid s w) = files w"
  "outbox (send_signer now tok aid s w) = outbox w"
  "hooks (send_signer now tok aid s w) = hooks w"
  "signer_rows (send_signer now tok aid s w) =
     upd_where (\<lambda>r. s_id r = s_id s) (\<lambda>r. r\<lparr>s_token := Some (tok (s_id r)), s_status := Sent\<rparr>) (signer_rows w)"
  by (simp_all add: send_signer_def upd_sig_def upd_where_def)

lemma send_signers_rows:
  "signer_rows (fold (send_signer now tok aid) ss w) =
     upd_where (\<lambda>r. s_id r \<in> s_id ` set ss) (\<lambda>r. r\<lparr>s_token := Some (tok (s_id r)), s_status := Sent\<rparr>) (signer_rows w)"
proof (induction ss arbitrary: w)
  case Nil
  then show ?case by (simp add: upd_where_def)
next
  case (Cons s ss)
  then show ?case by (auto simp: upd_where_def)
qed

lemma mail_links_frame [simp]:
  "agreement_rows (mail_links k aid ls w) = agreement_rows w"
  "signer_rows (mail_links k aid ls w) = signer_rows w"
  "field_rows (mail_links k aid ls w) = field_rows w"
  "files (mail_links k aid ls w) = files w"
  "event_rows (mail_links k aid ls w) = event_rows w"
  "hooks (mail_links k aid ls w) = hooks w"
  by (simp_all add: mail_links_def fold_frame)

lemma mail_links_outbox:
  "outbox (mail_links k aid ls w) =
     outbox w @ map (\<lambda>l. \<lparr>m_to = l_email l, m_kind = k, m_agr = aid, m_url = l_url l\<rparr>) ls"
proof (induction ls arbitrary: w)
  case (Cons l ls)
  have "mail_links k aid (l # ls) w = mail_links k aid ls (send_mail (l_email l) k aid (l_url l) w)"
    by (simp add: mail_links_def)
  then show ?case using Cons by (simp add: send_mail_def)
qed (simp add: mail_links_def)

lemma send_db_rows:
  "agreement_rows (send_db eng now tok v src w) =
     upd_where (\<lambda>a. a_id a = a_id (v_row v))
       (\<lambda>a. sent_row now (a\<lparr>a_frozen_path := frozen_path (a_id (v_row v)), a_frozen_hash := en_sha256 eng src\<rparr>))
       (agreement_rows w)"
  "signer_rows (send_db eng now tok v src w) =
     upd_where (\<lambda>r. s_id r \<in> s_id ` set (v_signers v)) (\<lambda>r. r\<lparr>s_token := Some (tok (s_id r)), s_status := Sent\<rparr>)
       (signer_rows w)"
  "field_rows (send_db eng now tok v src w) = field_rows w"
  "files (send_db eng now tok v src w) = (files w)(frozen_path (a_id (v_row v)) \<mapsto> src)"
  "outbox (send_db eng now tok v src w) = outbox w"
  "hooks (send_db eng now tok v src w) = hooks w"
  by (simp_all add: send_db_def Let_def upd_agr_def upd_where_def fold_frame send_signers_rows
      write_file_def sent_row_def)

lemma send_ok:
  assumes "send eng now tok base aid w = (SendOk ls n k, w')" and a: "agr_row w aid = Some a"
  obtains src where "agr_signers w aid \<noteq> []"
    and "a_status a \<in> {Draft, NoStatus}" and "freeze eng w a = Inr src"
    and "agreement_rows w' = agreement_rows (send_db eng now tok (view_of w a) src w)"
    and "signer_rows w' = signer_rows (send_db eng now tok (view_of w a) src w)"
    and "field_rows w' = field_rows w"
    and "files w' = (files w)(frozen_path aid \<mapsto> src)"
    and "ls = map (link_for base tok) (agr_signers w aid)"
    and "outbox w' = outbox w @ map (\<lambda>l. \<lparr>m_to = l_email l, m_kind = Invite, m_agr = aid, m_url = l_url l\<rparr>)
           (filter (invite_now (view_of w a)) ls)"
    and "hooks w' = hooks w @ [\<lparr>h_event = ''envelope.sent'', h_agr = aid, h_signer = None, h_owner = a_owner a\<rparr>]"
proof -
  have id: "a_id a = aid" by (rule agr_row_id [OF a])
  have sg: "v_signers (view_of w a) = map strip_signer_secrets (agr_signers w aid)"
    by (simp add: view_of_def id)
  have lk: "link_for base tok \<circ> strip_signer_secrets = link_for base tok"
    by (rule ext) (simp add: link_for_def strip_signer_secrets_def eff_order_def)
  show ?thesis
    using assms that id
    by (auto simp: send_def get_agreement_view a sg lk Let_def send_db_rows mail_links_outbox emit_def
        split: if_splits sum.splits)
qed

text \<open>Sending freezes what will be signed: the file the signers are shown from now on is the snapshot
  taken at this moment (the source, with its edited pages flattened), its hash is the one the row
  records, the source file itself is untouched, the envelope is out for signature with a 60-day
  window, and it was a draft with a signer.\<close>

theorem send_freezes:
  assumes "send eng now tok base aid w = (SendOk ls n k, w')" and "agr_row w aid = Some a"
  shows "\<exists>src a'. freeze eng w a = Inr src \<and> a_status a \<in> {Draft, NoStatus} \<and> agr_signers w aid \<noteq> [] \<and>
    agr_row w' aid = Some a' \<and> presented_bytes w' a' = Some src \<and> a_frozen_hash a' = en_sha256 eng src \<and>
    a' = a\<lparr>a_frozen_path := frozen_path aid, a_frozen_hash := en_sha256 eng src, a_status := OutForSignature,
           a_sent_at := Some now, a_expires_at := Some (now + 60 * 86400)\<rparr> \<and>
    (\<forall>j. j \<noteq> aid \<longrightarrow> agr_row w' j = agr_row w j) \<and>
    (\<forall>p. p \<noteq> frozen_path aid \<longrightarrow> files w' p = files w p)"
proof -
  obtain src where s: "freeze eng w a = Inr src" "a_status a \<in> {Draft, NoStatus}" "agr_signers w aid \<noteq> []"
    and rows: "agreement_rows w' = agreement_rows (send_db eng now tok (view_of w a) src w)"
    and fs: "files w' = (files w)(frozen_path aid \<mapsto> src)"
    by (rule send_ok [OF assms(1,2)])
  let ?f = "\<lambda>a. sent_row now (a\<lparr>a_frozen_path := frozen_path aid, a_frozen_hash := en_sha256 eng src\<rparr>)"
  have id: "a_id a = aid" by (rule agr_row_id [OF assms(2)])
  have row: "agr_row w' j = (if j = aid then Some (?f a) else agr_row w j)" for j
    using agr.get_upd [of ?f aid w j] assms(2)
    by (simp add: agr_row_def rows send_db_rows upd_agr_def id sent_row_def)
  have "presented_bytes w' (?f a) = Some src"
    by (simp add: presented_bytes_def fs sent_row_def)
  then show ?thesis
    using s row fs by (auto simp: sent_row_def ESIGN_EXPIRY_DAYS_def)
qed

lemma sample_send: "\<exists>ls n k w'. send ref_engine 30 py_str ''https://x.io'' 1 sample_world = (SendOk ls n k, w')"
proof -
  have "(case fst (send ref_engine 30 py_str ''https://x.io'' 1 sample_world) of SendOk _ _ _ \<Rightarrow> True | _ \<Rightarrow> False)"
    by code_simp
  then show ?thesis
    by (cases "send ref_engine 30 py_str ''https://x.io'' 1 sample_world") (auto split: send_result.splits)
qed

lemma sample_world_row: "agr_row sample_world 1 = Some blank_agreement"
  by (simp add: agr_row_def sample_defs)

lemma send_freezes_witness:
  "\<exists>ls n k w' a'. send ref_engine 30 py_str ''https://x.io'' 1 sample_world = (SendOk ls n k, w') \<and>
     agr_row w' 1 = Some a' \<and> presented_bytes w' a' = Some ''doc'' \<and> a_frozen_hash a' = ''doc''"
proof -
  obtain ls n k w' where f: "send ref_engine 30 py_str ''https://x.io'' 1 sample_world = (SendOk ls n k, w')"
    using sample_send by blast
  have "freeze ref_engine sample_world blank_agreement = Inr ''doc''" by code_simp
  moreover have "en_sha256 ref_engine x = x" for x by (simp add: ref_engine_def)
  ultimately show ?thesis using send_freezes [OF f sample_world_row] f by auto
qed

text \<open>Sending issues the links: after it every signer of the envelope carries the fresh token of the
  link handed back for that signer and reads sent, and no signer of another envelope is touched.
  In a sequential envelope an invitation goes out to the first order group only, in a parallel one
  to every signer with an address.\<close>

theorem send_issues_links:
  assumes "send eng now tok base aid w = (SendOk ls n k, w')" and "agr_row w aid = Some a" and "unique_sig w"
  shows "map l_signer ls = map s_id (agr_signers w aid) \<and>
    (\<forall>l \<in> set ls. l_token l = tok (l_signer l) \<and> l_url l = base @ ''/sign/'' @ l_token l) \<and>
    signer_rows w' = map (\<lambda>r. if s_agr r = aid then r\<lparr>s_token := Some (tok (s_id r)), s_status := Sent\<rparr> else r)
      (signer_rows w) \<and>
    outbox w' = outbox w @ map (\<lambda>l. \<lparr>m_to = l_email l, m_kind = Invite, m_agr = aid, m_url = l_url l\<rparr>)
      (filter (\<lambda>l. py_strip (l_email l) \<noteq> [] \<and>
         (is_sequential a \<longrightarrow> Some (l_order l) = next_order_to_notify (agr_signers w aid))) ls)"
proof -
  obtain src where rows: "signer_rows w' = signer_rows (send_db eng now tok (view_of w a) src w)"
    and ls: "ls = map (link_for base tok) (agr_signers w aid)"
    and out: "outbox w' = outbox w @ map (\<lambda>l. \<lparr>m_to = l_email l, m_kind = Invite, m_agr = aid, m_url = l_url l\<rparr>)
           (filter (invite_now (view_of w a)) ls)"
    by (rule send_ok [OF assms(1,2)])
  have id: "a_id a = aid" by (rule agr_row_id [OF assms(2)])
  have ids: "s_id r \<in> s_id ` set (v_signers (view_of w a)) \<longleftrightarrow> s_agr r = aid" if "r \<in> set (signer_rows w)" for r
    using that key_unique [of s_id "signer_rows w" r] assms(3)
    by (auto simp: view_of_def id agr_signers_def unique_sig_def strip_signer_secrets_def image_iff)
  have "next_order_to_notify (v_signers (view_of w a)) = next_order_to_notify (agr_signers w aid)"
    by (simp add: view_of_def id next_order_to_notify_def filter_map comp_def strip_signer_secrets_def
        eff_order_def)
  then have "invite_now (view_of w a) = (\<lambda>l. py_strip (l_email l) \<noteq> [] \<and>
         (is_sequential a \<longrightarrow> Some (l_order l) = next_order_to_notify (agr_signers w aid)))"
    by (auto simp: invite_now_def)
  then have "outbox w' = outbox w @ map (\<lambda>l. \<lparr>m_to = l_email l, m_kind = Invite, m_agr = aid, m_url = l_url l\<rparr>)
      (filter (\<lambda>l. py_strip (l_email l) \<noteq> [] \<and>
         (is_sequential a \<longrightarrow> Some (l_order l) = next_order_to_notify (agr_signers w aid))) ls)"
    using out by simp
  moreover have "signer_rows w' = map (\<lambda>r. if s_agr r = aid then r\<lparr>s_token := Some (tok (s_id r)), s_status := Sent\<rparr> else r)
      (signer_rows w)"
    unfolding rows send_db_rows upd_where_def by (rule map_cong [OF refl]) (simp only: ids)
  ultimately show ?thesis
    by (simp add: ls link_for_def comp_def)
qed

lemma send_issues_links_witness:
  "\<exists>ls n k w'. send ref_engine 30 py_str ''https://x.io'' 1 sample_world = (SendOk ls n k, w') \<and>
     map s_token (signer_rows w') = [Some ''1'']"
proof -
  obtain ls n k w' where f: "send ref_engine 30 py_str ''https://x.io'' 1 sample_world = (SendOk ls n k, w')"
    using sample_send by blast
  have "unique_sig sample_world" and p1: "py_str 1 = ''1''" by code_simp+
  have rows: "signer_rows sample_world = [blank_signer]" by (simp add: sample_world_def)
  have b: "s_agr blank_signer = 1" "s_id blank_signer = 1" by (simp_all add: blank_signer_def)
  have "signer_rows w' = [blank_signer\<lparr>s_token := Some (py_str 1), s_status := Sent\<rparr>]"
    using send_issues_links [OF f sample_world_row \<open>unique_sig sample_world\<close>] unfolding rows by (simp add: b)
  then have "map s_token (signer_rows w') = [Some ''1'']" by (simp add: p1)
  with f show ?thesis by (intro exI conjI)
qed

text \<open>A refused send changes nothing, and an envelope that has left the drafting stage is always refused:
  a second send cannot issue new tokens or freeze another document.\<close>

theorem send_refused:
  "(\<forall>e. fst (send eng now tok base aid w) = SendErr e \<longrightarrow> snd (send eng now tok base aid w) = w) \<and>
   (\<forall>a. agr_row w aid = Some a \<and> a_status a \<notin> {Draft, NoStatus} \<and> agr_signers w aid \<noteq> [] \<longrightarrow>
     send eng now tok base aid w = (SendErr (SendAlreadySent (a_status a)), w))"
proof -
  have "v_signers (view_of w a) = map strip_signer_secrets (agr_signers w (a_id a))" for a
    by (simp add: view_of_def)
  then show ?thesis
    by (auto simp: send_def get_agreement_view Let_def dest: agr_row_id
        split: option.splits sum.splits)
qed

lemma send_refused_witness:
  "send ref_engine 30 py_str ''https://x.io'' 1 sample_out = (SendErr (SendAlreadySent OutForSignature), sample_out)"
  using send_refused [of ref_engine 30 py_str "''https://x.io''" 1 sample_out] by (simp add: sample_out_rows)

section \<open>Self-signing\<close>

text \<open>A self-sign link gives a signer of a sent or draft envelope a token without moving the signer's
  status off \<open>pending\<close>, and the signer page stamps a first view only for \<open>sent\<close> and \<open>viewed\<close>: so
  for a self-signing signer no view is ever recorded, whatever the page answers.\<close>

theorem self_sign_view_unrecorded:
  assumes "find (\<lambda>r. s_id r = sid \<and> s_agr r = aid) (signer_rows w) = Some s" and "s_status s = Pending"
    and "unique_sig w" and "signer_by_token w fresh = None" and "s_token s = None"
    and "self_sign_link now fresh base aid sid w = (r, w1)"
  shows "\<exists>s1. signer_by_token w1 fresh = Some s1 \<and> s_id s1 = sid \<and> s_status s1 = Pending \<and>
    snd (signing_payload eng later fresh ip ua w1) = w1"
proof -
  let ?f = "\<lambda>r. r\<lparr>s_token := Some fresh,
      s_status := (if s_status r \<in> {SigDraft, NoSigStatus} then Sent else s_status r)\<rparr>"
  have s: "s \<in> set (signer_rows w)" "s_id s = sid" using assms(1) by (auto dest: find_SomeD)
  have rows: "signer_rows w1 = upd_where (\<lambda>r. s_id r = sid) ?f (signer_rows w)"
    using assms(6) by (auto simp: self_sign_link_def assms(1,2,5) Let_def upd_sig_def)
  have "find (\<lambda>r. s_token r = Some fresh) (upd_where (\<lambda>r. s_id r = sid) ?f t) = Some (?f s)"
    if "s \<in> set t" "distinct (map s_id t)" "find (\<lambda>r. s_token r = Some fresh) t = None" for t
    using that s(2)
  proof (induction t)
    case (Cons r t)
    show ?case
    proof (cases "r = s")
      case False
      then have "s_id r \<noteq> sid" using Cons.prems by (force simp: image_iff)
      with Cons False show ?thesis by (auto split: if_splits)
    qed (simp add: s(2))
  qed simp
  then have t: "signer_by_token w1 fresh = Some (?f s)"
    using s(1) assms(3,4) by (simp add: signer_by_token_def rows unique_sig_def)
  then have "snd (signing_payload eng later fresh ip ua w1) = w1"
    by (auto simp: signing_payload_def assms(2) Let_def split: option.splits)
  with t show ?thesis by (simp add: s(2) assms(2))
qed

lemma self_sign_view_unrecorded_witness:
  "\<exists>w1 s1. self_sign_link 30 ''t0'' ''https://x.io'' 1 1 sample_world = (SelfOk ''https://x.io/sign/t0'' ''t0'', w1) \<and>
     signer_by_token w1 ''t0'' = Some s1 \<and> s_status s1 = Pending \<and>
     snd (signing_payload ref_engine 40 ''t0'' [] [] w1) = w1"
proof -
  have "fst (self_sign_link 30 ''t0'' ''https://x.io'' 1 1 sample_world) = SelfOk ''https://x.io/sign/t0'' ''t0''"
    by code_simp
  then obtain w1 where f: "self_sign_link 30 ''t0'' ''https://x.io'' 1 1 sample_world
      = (SelfOk ''https://x.io/sign/t0'' ''t0'', w1)" by (metis prod.collapse)
  have "find (\<lambda>r. s_id r = 1 \<and> s_agr r = 1) (signer_rows sample_world) = Some blank_signer"
    "s_status blank_signer = Pending" "unique_sig sample_world" "signer_by_token sample_world ''t0'' = None"
    "s_token blank_signer = None"
    by (simp_all add: sample_defs unique_sig_def signer_by_token_def)
  from self_sign_view_unrecorded [OF this f, of ref_engine 40 "[]" "[]"] f show ?thesis by blast
qed

end
