(* ===== verification/Submission.thy ===== *)
theory Submission
  imports Signing
begin

text \<open>
  A signer's submission (\<open>submit_signature\<close> in \<open>sign/esign.py\<close>) from its gates over the server-side
  field checks to the sequential cascade, and the other ways an envelope ends: \<open>decline\<close>,
  \<open>sweep_expired\<close>; then the two downloads of the executed copy.
\<close>

section \<open>The submitted values\<close>

datatype submit_error =
    SubConsentRequired | SubInvalidLink | SubChallenge | SubUnavailable | SubRequestExpired
  | SubLinkExpired | SubConsentWithdrawn | SubNotYourTurn | SubIncomplete | SubBadSignature
  | SubUnchecked | SubMalformed

datatype submit_result = SubErr submit_error | SubOk bool bool | SubRaise

type_synonym submission = "(string \<times> json) list"

text \<open>\<open>_png_from_data_url\<close> and \<open>is_valid_image\<close>; the image library is a parameter.\<close>

definition after_comma :: "string \<Rightarrow> string" where
  "after_comma s =
     (if CHR '','' \<in> set s then tl (dropWhile (\<lambda>c. c \<noteq> CHR '','') s) else s)"

definition png_from_data_url :: "string \<Rightarrow> bytes option" where
  "png_from_data_url s =
     (if s = [] then None
      else b64decode (if startswith s ''data:'' then after_comma s else s))"

definition is_valid_image :: "engine \<Rightarrow> bytes option \<Rightarrow> bool" where
  "is_valid_image eng data =
     (case data of None \<Rightarrow> False | Some d \<Rightarrow> d \<noteq> [] \<and> en_valid_image eng d)"

text \<open>\<open>_is_checked\<close>.\<close>

definition CHECK_TRUE :: "string list" where
  "CHECK_TRUE = [''1'', ''true'', ''yes'', ''on'', ''x'', ''checked'']"

definition is_checked :: "json \<Rightarrow> bool" where
  "is_checked v =
     (case v of JBool b \<Rightarrow> b | JInt i \<Rightarrow> i \<noteq> 0 | JFloat x \<Rightarrow> x \<noteq> 0
      | JStr s \<Rightarrow> py_lower (py_strip s) \<in> set CHECK_TRUE | _ \<Rightarrow> False)"

text \<open>The required-field gate, one field: \<open>None\<close> passes, \<open>Some\<close> ends the request.\<close>

definition stripped :: "json \<Rightarrow> json" where
  "stripped v = (case v of JStr s \<Rightarrow> JStr (py_strip s) | _ \<Rightarrow> v)"

definition check_required :: "engine \<Rightarrow> submission \<Rightarrow> field \<Rightarrow> submit_result option" where
  "check_required eng vals f =
     (let rtype = py_lower (f_type f); raw = jget vals (py_str (f_id f)); val = stripped raw in
      if \<not> truthy val then Some (SubErr SubIncomplete)
      else if signature_like rtype then
        (case val of
           JStr s \<Rightarrow> if is_valid_image eng (png_from_data_url s) then None else Some (SubErr SubBadSignature)
         | _ \<Rightarrow> Some SubRaise)
      else if rtype = ''checkbox'' then (if is_checked raw then None else Some (SubErr SubUnchecked))
      else None)"

fun check_all_required :: "engine \<Rightarrow> submission \<Rightarrow> field list \<Rightarrow> submit_result option" where
  "check_all_required eng vals [] = None"
| "check_all_required eng vals (f # fs) =
     (case check_required eng vals f of None \<Rightarrow> check_all_required eng vals fs | Some r \<Rightarrow> Some r)"

definition required_fields :: "world \<Rightarrow> signer \<Rightarrow> field list" where
  "required_fields w s =
     filter (\<lambda>f. f_agr f = s_agr s \<and> f_signer f = Some (s_id s) \<and> f_required f) (field_rows w)"

text \<open>Sanitizing: every key must read as an integer and every value must be a string.\<close>

fun clean_values :: "submission \<Rightarrow> (int \<times> string) list \<Rightarrow> (int \<times> string) list option" where
  "clean_values [] acc = Some acc"
| "clean_values ((k, v) # kvs) acc =
     (case py_int k of
        None \<Rightarrow> None
      | Some fid \<Rightarrow> (case v of JStr s \<Rightarrow> clean_values kvs (dict_set fid s acc) | _ \<Rightarrow> None))"

section \<open>Recording the values\<close>

text \<open>
  The adoption evidence of a field: \<open>None\<close> is the exception raised for a member that is not an
  object, or for an \<open>adopted_at\<close> the database driver cannot bind.
\<close>

definition bindable :: "json \<Rightarrow> bool" where
  "bindable j = (case j of JList _ \<Rightarrow> False | JObj _ \<Rightarrow> False | JInt i \<Rightarrow> int64 i | _ \<Rightarrow> True)"

definition adopt_method :: "json \<Rightarrow> string" where
  "adopt_method j =
     (case j of JStr m \<Rightarrow> (if py_lower m \<in> {''draw'', ''type'', ''reuse''} then py_lower m else [])
      | _ \<Rightarrow> [])"

definition meta_for :: "submission \<Rightarrow> int \<Rightarrow> (json \<times> string) option" where
  "meta_for field_meta fid =
     (let m = jget field_meta (py_str fid) in
      if \<not> truthy m then Some (JNull, [])
      else case m of
        JObj kvs \<Rightarrow>
          (if bindable (jget kvs ''adopted_at'')
           then Some (jget kvs ''adopted_at'', adopt_method (jget kvs ''method'')) else None)
      | _ \<Rightarrow> None)"

record stamping =
  sp_signer :: signer
  sp_ip :: string
  sp_ua :: string
  sp_doc :: string
  sp_now :: time

definition write_value :: "signer \<Rightarrow> int \<Rightarrow> string \<Rightarrow> json \<Rightarrow> string \<Rightarrow> world \<Rightarrow> world" where
  "write_value s fid val adopted meth w =
     w\<lparr>field_rows := upd_where
         (\<lambda>f. f_id f = fid \<and> f_agr f = s_agr s \<and> f_signer f = Some (s_id s))
         (\<lambda>f. f\<lparr>f_value := val, f_adopted_at := adopted, f_method := meth\<rparr>) (field_rows w)\<rparr>"

text \<open>\<open>SELECT type FROM agreement_fields WHERE id=? AND agreement_id=?\<close>.\<close>

definition field_type_of :: "world \<Rightarrow> int \<Rightarrow> int \<Rightarrow> string" where
  "field_type_of w aid fid =
     (case find (\<lambda>f. f_id f = fid \<and> f_agr f = aid) (field_rows w) of None \<Rightarrow> [] | Some f \<Rightarrow> f_type f)"

definition record_value ::
  "stamping \<Rightarrow> submission \<Rightarrow> int \<times> string \<Rightarrow> string list \<times> world \<Rightarrow> (string list \<times> world) option" where
  "record_value sp field_meta kv st =
     (case kv of (fid, val) \<Rightarrow> (case st of (adopted_imgs, w) \<Rightarrow>
       (case meta_for field_meta fid of
          None \<Rightarrow> None
        | Some (adopted, meth) \<Rightarrow>
            if \<not> int64 fid then None else
            (let s = sp_signer sp; aid = s_agr s;
                 w1 = write_value s fid val adopted meth w
             in if signature_like (field_type_of w1 aid fid) then
                  (let w2 = log_event aid ''FIELD_SIGNED'' (Some (s_id s)) (sp_ip sp) (sp_ua sp)
                         (''field='' @ py_str fid @ '' doc='' @ take 16 (sp_doc sp)
                          @ '' method='' @ nonblank meth ''n/a'') (sp_now sp) w1
                   in if val \<noteq> [] \<and> val \<notin> set adopted_imgs
                      then Some (val # adopted_imgs,
                             log_event aid ''SIGNATURE_ADOPTED'' (Some (s_id s)) (sp_ip sp) (sp_ua sp)
                               (''method='' @ nonblank meth ''n/a'') (sp_now sp) w2)
                      else Some (adopted_imgs, w2))
                else Some (adopted_imgs, w1)))))"

fun record_values ::
  "stamping \<Rightarrow> submission \<Rightarrow> (int \<times> string) list \<Rightarrow> string list \<times> world \<Rightarrow> (string list \<times> world) option" where
  "record_values sp field_meta [] st = Some st"
| "record_values sp field_meta (kv # kvs) st =
     (case record_value sp field_meta kv st of
        None \<Rightarrow> None | Some st' \<Rightarrow> record_values sp field_meta kvs st')"

definition signed_row :: "time \<Rightarrow> string \<Rightarrow> string \<Rightarrow> string \<Rightarrow> signer \<Rightarrow> signer" where
  "signed_row now ip ua sigid s =
     s\<lparr>s_status := Signed, s_signed_at := Some now, s_ip := ip, s_ua := take 300 ua,
       s_consent := True, s_signature_id := sigid\<rparr>"

section \<open>The sequential cascade\<close>

definition cascade_one :: "engine \<Rightarrow> time \<Rightarrow> int \<Rightarrow> signer \<Rightarrow> world \<Rightarrow> world" where
  "cascade_one eng now aid s w =
     (let email = py_strip (s_email s); tok = coalesce (s_token s) [] in
      if email = [] \<or> tok = [] then w
      else let w1 = send_mail email Invite aid (en_public_base eng @ ''/sign/'' @ tok) w
        in if en_mail_ok eng email
           then log_event aid ''emailed'' (Some (s_id s)) [] []
                  (''sequential turn - invite to '' @ email) now w1
           else w1)"

definition notify_next_sequential :: "engine \<Rightarrow> time \<Rightarrow> int \<Rightarrow> world \<Rightarrow> world" where
  "notify_next_sequential eng now aid w =
     (case get_agreement w aid of
        None \<Rightarrow> w
      | Some v \<Rightarrow>
          if \<not> is_sequential (v_row v) \<or> a_status (v_row v) \<in> {Voided, Cancelled, Completed} then w
          else case next_order_to_notify (v_signers v) of
            None \<Rightarrow> w
          | Some nxt \<Rightarrow>
              fold (cascade_one eng now aid)
                (filter (\<lambda>s. eff_order s = nxt \<and> s_status s \<noteq> Signed) (v_signers v)) w)"

section \<open>submit_signature\<close>

definition unsigned_count :: "world \<Rightarrow> int \<Rightarrow> nat" where
  "unsigned_count w aid = rowcount (\<lambda>s. s_agr s = aid \<and> s_status s \<noteq> Signed) (signer_rows w)"

text \<open>
  The gates in the order of the code. \<open>None\<close> lets the submission through; the gate for a signer
  who has signed already is separate, because it may drive sealing again.
\<close>

definition submit_gate_early :: "time \<Rightarrow> signer \<Rightarrow> agreement option \<Rightarrow> submit_error option" where
  "submit_gate_early now s st =
     (if challenge_unmet s then Some SubChallenge
      else case st of
        None \<Rightarrow> (if is_set (s_withdrawn_at s) \<or> s_status s = SigDeclined then Some SubConsentWithdrawn else None)
      | Some a \<Rightarrow>
          if a_status a \<in> {Voided, Cancelled, Declined} then Some SubUnavailable
          else if a_status a = Expired then Some SubRequestExpired
          else if a_status a \<noteq> Completed \<and> token_expired now a then Some SubLinkExpired
          else if is_set (s_withdrawn_at s) \<or> s_status s = SigDeclined then Some SubConsentWithdrawn
          else None)"

definition ahead_unsigned :: "world \<Rightarrow> signer \<Rightarrow> bool" where
  "ahead_unsigned w s =
     (\<exists>r \<in> set (agr_signers w (s_agr s)). eff_order r < eff_order s \<and> s_status r \<noteq> Signed)"

definition submit_gate_late :: "world \<Rightarrow> signer \<Rightarrow> agreement option \<Rightarrow> submit_error option" where
  "submit_gate_late w s st =
     (if (case st of None \<Rightarrow> False | Some a \<Rightarrow> is_sequential a) \<and> ahead_unsigned w s then Some SubNotYourTurn
      else if s_is_consumer s \<and> \<not> is_set (s_consent_at s) then Some SubConsentRequired
      else None)"

text \<open>\<open>doc_hash_ref\<close>: the frozen hash, else the document hash.\<close>

definition doc_ref :: "agreement option \<Rightarrow> string" where
  "doc_ref st =
     (case st of None \<Rightarrow> [] | Some a \<Rightarrow> nonblank (a_frozen_hash a) (a_doc_hash a))"

text \<open>The transaction of an accepted submission: values, events, the signer's row.\<close>

definition submit_commit ::
  "time \<Rightarrow> string \<Rightarrow> string \<Rightarrow> string \<Rightarrow> submission \<Rightarrow> submission \<Rightarrow> (int \<times> string) list \<Rightarrow> signer \<Rightarrow> world \<Rightarrow> world option" where
  "submit_commit now sigid ip ua vals field_meta clean s w =
     map_option
       (\<lambda>(_, w1). log_event (s_agr s) ''signed'' (Some (s_id s)) ip ua
          (py_str (int (length vals)) @ '' field(s)'') now
          (upd_sig (s_id s) (signed_row now ip ua sigid) w1))
       (record_values \<lparr>sp_signer = s, sp_ip = ip, sp_ua = ua, sp_doc = doc_ref (agr_row w (s_agr s)), sp_now = now\<rparr>
          field_meta clean ([], w))"

definition finish :: "bool \<Rightarrow> bool option \<times> world \<Rightarrow> submit_result \<times> world" where
  "finish already r =
     (case r of (None, w) \<Rightarrow> (SubRaise, w) | (Some completed, w) \<Rightarrow> (SubOk already completed, w))"

text \<open>A signer who has signed: sealing is driven again if it is the only thing missing.\<close>

definition resubmit :: "engine \<Rightarrow> time \<Rightarrow> signer \<Rightarrow> agreement option \<Rightarrow> world \<Rightarrow> submit_result \<times> world" where
  "resubmit eng now s st w =
     (if (case st of None \<Rightarrow> True | Some a \<Rightarrow> a_status a \<notin> {Completed, Voided, Cancelled, Declined})
         \<and> unsigned_count w (s_agr s) = 0
      then finish True (finalize eng now (s_agr s) w)
      else (SubOk True False, w))"

definition after_submit :: "engine \<Rightarrow> time \<Rightarrow> signer \<Rightarrow> world \<Rightarrow> submit_result \<times> world" where
  "after_submit eng now s w =
     (let w1 = emit ''signer.signed'' (s_agr s) (Some (s_id s)) (Option.bind (agr_row w (s_agr s)) a_owner) w
      in if unsigned_count w (s_agr s) = 0 then finish False (finalize eng now (s_agr s) w1)
         else (SubOk False False, notify_next_sequential eng now (s_agr s) w1))"

definition submit_signature ::
  "engine \<Rightarrow> time \<Rightarrow> string \<Rightarrow> string \<Rightarrow> submission \<Rightarrow> bool \<Rightarrow> string \<Rightarrow> string \<Rightarrow> submission \<Rightarrow> world \<Rightarrow>
   submit_result \<times> world" where
  "submit_signature eng now sigid token vals consent ip ua field_meta w =
     (if \<not> consent then (SubErr SubConsentRequired, w)
      else case signer_by_token w token of
        None \<Rightarrow> (SubErr SubInvalidLink, w)
      | Some s \<Rightarrow> (let st = agr_row w (s_agr s) in
          case submit_gate_early now s st of
            Some e \<Rightarrow> (SubErr e, w)
          | None \<Rightarrow>
              if s_status s = Signed then resubmit eng now s st w
              else (case submit_gate_late w s st of
                  Some e \<Rightarrow> (SubErr e, w)
                | None \<Rightarrow> (case check_all_required eng vals (required_fields w s) of
                      Some r \<Rightarrow> (r, w)
                    | None \<Rightarrow> (case clean_values vals [] of
                          None \<Rightarrow> (SubErr SubMalformed, w)
                        | Some clean \<Rightarrow>
                            (case submit_commit now sigid ip ua vals field_meta clean s w of
                               None \<Rightarrow> (SubRaise, w)
                             | Some w1 \<Rightarrow> after_submit eng now s w1))))))"

section \<open>decline and expiry\<close>

datatype decline_result = DeclineInvalidLink | DeclineChallenge | DeclineSigned
  | DeclineClosed agr_status | DeclineOk

definition decline ::
  "engine \<Rightarrow> time \<Rightarrow> string \<Rightarrow> string \<Rightarrow> string \<Rightarrow> string \<Rightarrow> world \<Rightarrow> decline_result \<times> world" where
  "decline eng now token reason ip ua w =
     (case signer_by_token w token of
        None \<Rightarrow> (DeclineInvalidLink, w)
      | Some s \<Rightarrow>
          if challenge_unmet s then (DeclineChallenge, w)
          else if s_status s = Signed then (DeclineSigned, w)
          else if (case agr_row w (s_agr s) of None \<Rightarrow> False
                   | Some a \<Rightarrow> a_status a \<in> {Completed, Voided, Cancelled})
            then (DeclineClosed (a_status (the (agr_row w (s_agr s)))), w)
          else
            (let w1 = decline_agr (s_agr s) (upd_sig (s_id s) (\<lambda>r. r\<lparr>s_status := SigDeclined\<rparr>) w);
                 w2 = log_event (s_agr s) ''declined'' (Some (s_id s)) ip ua reason now w1;
                 w3 = (case agr_row w2 (s_agr s) of None \<Rightarrow> w2
                       | Some a \<Rightarrow> send_mail (sender_email eng a) DeclinedNotice (s_agr s) [] w2)
             in (DeclineOk, emit ''envelope.declined'' (s_agr s) (Some (s_id s))
                   (Option.bind (agr_row w3 (s_agr s)) a_owner) w3)))"

definition due_for_expiry :: "time \<Rightarrow> agreement \<Rightarrow> bool" where
  "due_for_expiry now a =
     (a_status a = OutForSignature \<and> (case a_expires_at a of None \<Rightarrow> False | Some t \<Rightarrow> t \<le> now))"

definition expired_row :: "time \<Rightarrow> agreement \<Rightarrow> agreement" where
  "expired_row now a = a\<lparr>a_status := Expired, a_expired_at := Some now\<rparr>"

text \<open>One row of the sweep's transaction: a guarded update, and an event when it changed a row.\<close>

definition expire_one :: "time \<Rightarrow> int \<Rightarrow> int list \<times> world \<Rightarrow> int list \<times> world" where
  "expire_one now aid acc =
     (case acc of (ids, w) \<Rightarrow>
       if 0 < rowcount (\<lambda>a. a_id a = aid \<and> a_status a = OutForSignature) (agreement_rows w)
       then (ids @ [aid],
             log_event aid ''expired'' None [] [] ''auto-expired: signing window elapsed'' now
               (upd_agr_if aid (\<lambda>a. a_status a = OutForSignature) (expired_row now) w))
       else (ids, w))"

definition expiry_notice :: "engine \<Rightarrow> int \<Rightarrow> world \<Rightarrow> world" where
  "expiry_notice eng aid w =
     (case agr_row w aid of
        None \<Rightarrow> w
      | Some a \<Rightarrow> send_mail (sender_email eng a) ExpiredNotice aid []
                   (emit ''envelope.expired'' aid None (a_owner a) w))"

definition sweep_expired :: "engine \<Rightarrow> time \<Rightarrow> world \<Rightarrow> nat \<times> world" where
  "sweep_expired eng now w =
     (case fold (expire_one now) (map a_id (filter (due_for_expiry now) (agreement_rows w))) ([], w) of
        (ids, w1) \<Rightarrow> (length ids, fold (expiry_notice eng) ids w1))"

section \<open>Downloads\<close>

datatype download_result = DownInvalid | DownNotCompleted | DownOk bytes string

text \<open>\<open>re.sub(r"\.pdf$", "", name, flags=re.I)\<close>: the dollar also matches before a last newline.\<close>

definition ends_pdf :: "string \<Rightarrow> bool" where
  "ends_pdf s = (4 \<le> length s \<and> py_lower (drop (length s - 4) s) = ''.pdf'')"

definition strip_pdf :: "string \<Rightarrow> string" where
  "strip_pdf s =
     (if ends_pdf s then take (length s - 4) s
      else if s \<noteq> [] \<and> last s = CHR 0x0A \<and> ends_pdf (butlast s)
        then take (length s - 5) s @ [CHR 0x0A] else s)"

definition unsafe_char :: "char \<Rightarrow> bool" where
  "unsafe_char c = (c \<in> set [CHR 0x5C, CHR ''/'', CHR '':'', CHR ''*'', CHR ''?'', CHR 0x22,
     CHR ''<'', CHR ''>'', CHR ''|'', CHR 0x0D, CHR 0x0A])"

definition signed_filename :: "string \<Rightarrow> int \<Rightarrow> string" where
  "signed_filename name aid =
     take 90 (nonblank (py_strip (filter (\<lambda>c. \<not> unsafe_char c) (strip_pdf name)))
       (''agreement-'' @ py_str aid) @ ''-SIGNED.pdf'')"

definition delivered_before :: "world \<Rightarrow> int \<Rightarrow> int \<Rightarrow> bool" where
  "delivered_before w aid sid =
     (\<exists>e \<in> set (event_rows w). e_agr e = aid \<and> e_signer e = Some sid \<and> e_type e = ''COMPLETED_COPY_DELIVERED'')"

definition deliver_once :: "time \<Rightarrow> int \<Rightarrow> int \<Rightarrow> string \<Rightarrow> world \<Rightarrow> world" where
  "deliver_once now aid sid how w =
     (if delivered_before w aid sid then w
      else log_event aid ''COMPLETED_COPY_DELIVERED'' (Some sid) [] [] how now w)"

definition executed_copy :: "world \<Rightarrow> agreement \<Rightarrow> bytes option" where
  "executed_copy w a =
     (if a_status a \<noteq> Completed \<or> a_executed_path a = [] then None else files w (a_executed_path a))"

definition signer_download :: "time \<Rightarrow> string \<Rightarrow> world \<Rightarrow> download_result \<times> world" where
  "signer_download now token w =
     (case signer_by_token w token of
        None \<Rightarrow> (DownInvalid, w)
      | Some s \<Rightarrow> (case agr_row w (s_agr s) of
            None \<Rightarrow> (DownInvalid, w)
          | Some a \<Rightarrow> (case executed_copy w a of
                None \<Rightarrow> (DownNotCompleted, w)
              | Some d \<Rightarrow> (DownOk d (signed_filename (a_name a) (a_id a)),
                          deliver_once now (s_agr s) (s_id s) ''signer download'' w))))"

definition signer_download_by_id :: "time \<Rightarrow> int \<Rightarrow> int \<Rightarrow> world \<Rightarrow> download_result \<times> world" where
  "signer_download_by_id now aid sid w =
     (if find (\<lambda>s. s_id s = sid \<and> s_agr s = aid) (signer_rows w) = None then (DownInvalid, w)
      else case agr_row w aid of
        None \<Rightarrow> (DownNotCompleted, w)
      | Some a \<Rightarrow> (case executed_copy w a of
            None \<Rightarrow> (DownNotCompleted, w)
          | Some d \<Rightarrow> (DownOk d (signed_filename (a_name a) (a_id a)),
                      deliver_once now aid sid ''envelope download'' w)))"

section \<open>What a submission writes\<close>

text \<open>The fields a signer may write, and what one submission makes of a field.\<close>

definition own_field :: "signer \<Rightarrow> field \<Rightarrow> bool" where
  "own_field s f = (f_agr f = s_agr s \<and> f_signer f = Some (s_id s))"

definition filled :: "signer \<Rightarrow> submission \<Rightarrow> (int \<times> string) list \<Rightarrow> field \<Rightarrow> field" where
  "filled s field_meta clean f =
     (if \<not> own_field s f then f
      else case map_of clean (f_id f) of
        None \<Rightarrow> f
      | Some val \<Rightarrow> (case meta_for field_meta (f_id f) of
          None \<Rightarrow> f
        | Some (adopted, meth) \<Rightarrow> f\<lparr>f_value := val, f_adopted_at := adopted, f_method := meth\<rparr>))"

lemma filled_frame [simp]:
  "f_id (filled s m c f) = f_id f" "f_agr (filled s m c f) = f_agr f"
  "f_signer (filled s m c f) = f_signer f" "f_type (filled s m c f) = f_type f"
  "f_page (filled s m c f) = f_page f" "f_required (filled s m c f) = f_required f"
  "f_x (filled s m c f) = f_x f" "f_y (filled s m c f) = f_y f"
  "f_w (filled s m c f) = f_w f" "f_h (filled s m c f) = f_h f"
  by (auto simp: filled_def split: option.splits)

lemma filled_other: "\<not> own_field s f \<Longrightarrow> filled s m c f = f"
  by (simp add: filled_def)

lemma filled_value:
  "own_field s f \<Longrightarrow> map_of c (f_id f) = Some val \<Longrightarrow> meta_for m (f_id f) \<noteq> None \<Longrightarrow>
   f_value (filled s m c f) = val"
  by (auto simp: filled_def)

lemma clean_values_distinct:
  "clean_values kvs acc = Some c \<Longrightarrow> distinct (map fst acc) \<Longrightarrow> distinct (map fst c)"
  by (induction kvs acc rule: clean_values.induct)
    (auto split: option.splits json.splits intro: distinct_dict_set)

lemma write_value_rows [simp]:
  "agreement_rows (write_value s fid val ad me w) = agreement_rows w"
  "signer_rows (write_value s fid val ad me w) = signer_rows w"
  "files (write_value s fid val ad me w) = files w"
  "hooks (write_value s fid val ad me w) = hooks w"
  "outbox (write_value s fid val ad me w) = outbox w"
  "event_rows (write_value s fid val ad me w) = event_rows w"
  by (simp_all add: write_value_def)

lemma record_value_rows:
  assumes "record_value sp m (fid, val) (imgs, w) = Some (imgs', w')"
  shows "agreement_rows w' = agreement_rows w" "signer_rows w' = signer_rows w"
    "files w' = files w" "hooks w' = hooks w" "outbox w' = outbox w"
    "\<exists>ad me. meta_for m fid = Some (ad, me) \<and>
       field_rows w' = field_rows (write_value (sp_signer sp) fid val ad me w)"
  using assms by (auto simp: record_value_def Let_def split: option.splits if_splits)

lemma filled_after_write:
  assumes "meta_for m fid = Some (ad, me)" and "fid \<notin> fst ` set kvs"
  shows "map (filled s m kvs) (field_rows (write_value s fid val ad me w)) =
         map (filled s m ((fid, val) # kvs)) (field_rows w)"
proof -
  have none: "map_of kvs fid = None" using assms(2) by (simp add: map_of_eq_None_iff)
  have "filled s m kvs (if f_id f = fid \<and> f_agr f = s_agr s \<and> f_signer f = Some (s_id s)
      then f\<lparr>f_value := val, f_adopted_at := ad, f_method := me\<rparr> else f) =
    filled s m ((fid, val) # kvs) f" for f
    by (cases "f_id f = fid") (simp_all add: filled_def own_field_def none assms(1))
  then show ?thesis by (simp add: write_value_def upd_where_def)
qed

lemma record_values_rows:
  assumes "record_values sp m kvs (imgs, w) = Some (imgs', w')" and "distinct (map fst kvs)"
  shows "agreement_rows w' = agreement_rows w \<and> signer_rows w' = signer_rows w \<and>
    files w' = files w \<and> hooks w' = hooks w \<and> outbox w' = outbox w \<and>
    field_rows w' = map (filled (sp_signer sp) m kvs) (field_rows w) \<and>
    (\<forall>k v. (k, v) \<in> set kvs \<longrightarrow> meta_for m k \<noteq> None)"
  using assms
proof (induction kvs arbitrary: imgs w)
  case Nil
  have "map (filled (sp_signer sp) m []) fs = fs" for fs
    by (rule map_idI) (simp add: filled_def)
  with Nil show ?case by simp
next
  case (Cons kv kvs)
  obtain fid val where kv: "kv = (fid, val)" by (cases kv)
  obtain imgs1 w1 where step: "record_value sp m (fid, val) (imgs, w) = Some (imgs1, w1)"
    and rest: "record_values sp m kvs (imgs1, w1) = Some (imgs', w')"
    using Cons.prems(1) by (auto simp: kv split: option.splits)
  obtain ad me where me: "meta_for m fid = Some (ad, me)"
    and f1: "field_rows w1 = field_rows (write_value (sp_signer sp) fid val ad me w)"
    using record_value_rows(6) [OF step] by blast
  show ?case
    using Cons.IH [OF rest] Cons.prems(2) record_value_rows(1-5) [OF step] me
      filled_after_write [OF me, of kvs "sp_signer sp" val w]
    by (simp add: kv f1)
qed

lemma submit_commit_rows:
  assumes "submit_commit now sigid ip ua vals m clean s w = Some w1" and "distinct (map fst clean)"
  shows "agreement_rows w1 = agreement_rows w"
    "signer_rows w1 = upd_where (\<lambda>r. s_id r = s_id s) (signed_row now ip ua sigid) (signer_rows w)"
    "field_rows w1 = map (filled s m clean) (field_rows w)"
    "files w1 = files w" "hooks w1 = hooks w" "outbox w1 = outbox w"
    "\<And>k v. (k, v) \<in> set clean \<Longrightarrow> meta_for m k \<noteq> None"
proof -
  obtain imgs b where rv: "record_values \<lparr>sp_signer = s, sp_ip = ip, sp_ua = ua,
        sp_doc = doc_ref (agr_row w (s_agr s)), sp_now = now\<rparr> m clean ([], w) = Some (imgs, b)"
    and w1: "w1 = log_event (s_agr s) ''signed'' (Some (s_id s)) ip ua
          (py_str (int (length vals)) @ '' field(s)'') now
          (upd_sig (s_id s) (signed_row now ip ua sigid) b)"
    using assms(1) by (auto simp: submit_commit_def)
  note r = record_values_rows [OF rv assms(2)]
  show "agreement_rows w1 = agreement_rows w"
    "signer_rows w1 = upd_where (\<lambda>r. s_id r = s_id s) (signed_row now ip ua sigid) (signer_rows w)"
    "field_rows w1 = map (filled s m clean) (field_rows w)"
    "files w1 = files w" "hooks w1 = hooks w" "outbox w1 = outbox w"
    using r by (simp_all add: w1 upd_sig_def)
  show "\<And>k v. (k, v) \<in> set clean \<Longrightarrow> meta_for m k \<noteq> None"
    using r by blast
qed

section \<open>The cascade and the seal leave the rows alone\<close>

lemma cascade_one_frame [simp]:
  "agreement_rows (cascade_one eng now aid s w) = agreement_rows w"
  "signer_rows (cascade_one eng now aid s w) = signer_rows w"
  "field_rows (cascade_one eng now aid s w) = field_rows w"
  "files (cascade_one eng now aid s w) = files w"
  "hooks (cascade_one eng now aid s w) = hooks w"
  by (simp_all add: cascade_one_def Let_def)

lemma notify_frame [simp]:
  "agreement_rows (notify_next_sequential eng now aid w) = agreement_rows w"
  "signer_rows (notify_next_sequential eng now aid w) = signer_rows w"
  "field_rows (notify_next_sequential eng now aid w) = field_rows w"
  "files (notify_next_sequential eng now aid w) = files w"
  "hooks (notify_next_sequential eng now aid w) = hooks w"
  by (auto simp: notify_next_sequential_def fold_frame split: option.splits)

section \<open>Accepted and rejected submissions\<close>

lemma finish_not_err [simp]: "finish b r \<noteq> (SubErr e, w)"
  by (auto simp: finish_def split: prod.splits option.splits)

lemma resubmit_not_err: "resubmit eng now s st w \<noteq> (SubErr e, w')"
  by (simp add: resubmit_def)

lemma after_submit_not_err: "after_submit eng now s w \<noteq> (SubErr e, w')"
  by (simp add: after_submit_def Let_def)

lemma resubmit_already: "resubmit eng now s st w \<noteq> (SubOk False c, w')"
  by (auto simp: resubmit_def finish_def split: prod.splits option.splits)

lemma check_required_not_ok:
  "check_required eng vals f \<noteq> Some (SubOk a c)"
  by (auto simp: check_required_def Let_def split: json.splits)

lemma check_all_not_ok: "check_all_required eng vals fs \<noteq> Some (SubOk a c)"
  using check_required_not_ok by (induction fs) (auto split: option.splits)

lemma check_all_None:
  "check_all_required eng vals fs = None \<longleftrightarrow> (\<forall>f \<in> set fs. check_required eng vals f = None)"
  by (induction fs) (auto split: option.splits)

lemma submit_accepted:
  assumes "submit_signature eng now sigid token vals consent ip ua m w = (SubOk False c, w')"
  obtains s clean w1 where "consent" and "signer_by_token w token = Some s"
    and "submit_gate_early now s (agr_row w (s_agr s)) = None" and "s_status s \<noteq> Signed"
    and "submit_gate_late w s (agr_row w (s_agr s)) = None"
    and "check_all_required eng vals (required_fields w s) = None"
    and "clean_values vals [] = Some clean"
    and "submit_commit now sigid ip ua vals m clean s w = Some w1"
    and "after_submit eng now s w1 = (SubOk False c, w')"
proof -
  have "\<exists>s clean w1. consent \<and> signer_by_token w token = Some s \<and>
      submit_gate_early now s (agr_row w (s_agr s)) = None \<and> s_status s \<noteq> Signed \<and>
      submit_gate_late w s (agr_row w (s_agr s)) = None \<and>
      check_all_required eng vals (required_fields w s) = None \<and>
      clean_values vals [] = Some clean \<and>
      submit_commit now sigid ip ua vals m clean s w = Some w1 \<and>
      after_submit eng now s w1 = (SubOk False c, w')"
    using assms check_all_not_ok [of eng vals] resubmit_already [of eng now]
    by (auto simp: submit_signature_def Let_def split: if_splits option.splits)
  then show ?thesis using that by blast
qed

text \<open>A submission that is answered with an error has written nothing at all.\<close>

theorem submit_error_unchanged:
  assumes "submit_signature eng now sigid token vals consent ip ua m w = (SubErr e, w')"
  shows "w' = w"
  using assms resubmit_not_err [of eng now] after_submit_not_err [of eng now]
  by (auto simp: submit_signature_def Let_def split: if_splits option.splits)

lemma submit_error_unchanged_witness:
  "submit_signature ref_engine 20 ''sig'' ''tok'' [] True [] [] [] sample_out = (SubErr SubIncomplete, sample_out)"
proof -
  have "fst (submit_signature ref_engine 20 ''sig'' ''tok'' [] True [] [] [] sample_out) = SubErr SubIncomplete"
    by (simp add: submit_signature_def signer_by_token_def submit_gate_early_def submit_gate_late_def
        challenge_unmet_def has_challenge_def token_expired_def link_clock_def SIGN_TOKEN_TTL_DAYS_def
        is_sequential_def required_fields_def check_required_def jget_def stripped_def Let_def
        agr_row_def sample_defs)
  then show ?thesis
    using submit_error_unchanged [of ref_engine 20 "''sig''" "''tok''" "[]" True "[]" "[]" "[]" sample_out]
    by (metis prod.collapse)
qed

text \<open>Property C7. Every gate an accepted submission has passed: consent, the access challenge, the agreement's
  status and link clock, the signer's own status and withdrawal, the turn in a sequential
  envelope, a consumer's recorded consent, and the check of each required field of the signer.\<close>

theorem submit_gates:
  assumes "submit_signature eng now sigid token vals consent ip ua m w = (SubOk False c, w')"
  shows "consent \<and> (\<exists>s. signer_by_token w token = Some s \<and> \<not> challenge_unmet s \<and>
    s_status s \<notin> {Signed, SigDeclined} \<and> \<not> is_set (s_withdrawn_at s) \<and>
    (\<forall>a. agr_row w (s_agr s) = Some a \<longrightarrow>
       a_status a \<notin> {Voided, Cancelled, Declined, Expired} \<and>
       (a_status a \<noteq> Completed \<longrightarrow> \<not> token_expired now a) \<and>
       (is_sequential a \<longrightarrow>
          (\<forall>r \<in> set (signer_rows w). s_agr r = s_agr s \<and> eff_order r < eff_order s \<longrightarrow> s_status r = Signed))) \<and>
    (s_is_consumer s \<longrightarrow> is_set (s_consent_at s)) \<and>
    (\<forall>f \<in> set (field_rows w). own_field s f \<and> f_required f \<longrightarrow> check_required eng vals f = None))"
proof -
  obtain s clean w1 where s: "consent" "signer_by_token w token = Some s"
    "submit_gate_early now s (agr_row w (s_agr s)) = None" "s_status s \<noteq> Signed"
    "submit_gate_late w s (agr_row w (s_agr s)) = None"
    "check_all_required eng vals (required_fields w s) = None"
    using submit_accepted [OF assms] by metis
  have "\<forall>f \<in> set (field_rows w). own_field s f \<and> f_required f \<longrightarrow> check_required eng vals f = None"
    using s(6) by (auto simp: check_all_None required_fields_def own_field_def)
  moreover have "ahead_unsigned w s \<longleftrightarrow>
      (\<exists>r \<in> set (signer_rows w). s_agr r = s_agr s \<and> eff_order r < eff_order s \<and> s_status r \<noteq> Signed)"
    by (auto simp: ahead_unsigned_def agr_signers_def)
  ultimately show ?thesis
    using s(1-5)
    by (cases "agr_row w (s_agr s)")
      (auto simp: submit_gate_early_def submit_gate_late_def split: if_splits)
qed

lemma sample_accept:
  "fst (submit_signature ref_engine 20 ''sig'' ''tok'' [(''1'', JStr ''Ann'')] True [] [] [] sample_out)
     = SubOk False True"
  by code_simp

lemma sample_accept_ex:
  "\<exists>w'. submit_signature ref_engine 20 ''sig'' ''tok'' [(''1'', JStr ''Ann'')] True [] [] [] sample_out
     = (SubOk False True, w')"
  using sample_accept by (metis prod.collapse)

lemma submit_gates_witness:
  "\<exists>s. signer_by_token sample_out ''tok'' = Some s \<and> \<not> challenge_unmet s \<and> s_status s \<noteq> Signed"
proof -
  obtain w' where "submit_signature ref_engine 20 ''sig'' ''tok'' [(''1'', JStr ''Ann'')] True [] [] [] sample_out
     = (SubOk False True, w')" using sample_accept_ex by blast
  from submit_gates [OF this] show ?thesis by blast
qed

section \<open>Scope and effect of a submission\<close>

lemma upd_where_other_key:
  "(\<And>r. key (f r) = key r) \<Longrightarrow> j \<noteq> k \<Longrightarrow>
   find (\<lambda>r. key r = j) (upd_where (\<lambda>r. key r = k) f t) = find (\<lambda>r. key r = j) t"
  by (rule find_key_upd_other)

lemma signed_row_id [simp]: "s_id (signed_row now ip ua sigid s) = s_id s"
  "s_agr (signed_row now ip ua sigid s) = s_agr s"
  by (simp_all add: signed_row_def)

text \<open>\<open>touches s w w'\<close>: the step from \<open>w\<close> to \<open>w'\<close> wrote nothing outside what the signer \<open>s\<close> may write,
  which is the values of the signer's own fields, the signer's own row, and the status of the
  one agreement the signer belongs to.\<close>

definition touches :: "signer \<Rightarrow> world \<Rightarrow> world \<Rightarrow> bool" where
  "touches s w w' =
     ((\<exists>g. field_rows w' = map g (field_rows w) \<and>
        (\<forall>f. \<not> own_field s f \<longrightarrow> g f = f) \<and>
        (\<forall>f. \<exists>val ad me. g f = f\<lparr>f_value := val, f_adopted_at := ad, f_method := me\<rparr>)) \<and>
      (\<forall>sid. sid \<noteq> s_id s \<longrightarrow> sig_row w' sid = sig_row w sid) \<and>
      (\<forall>j. j \<noteq> s_agr s \<longrightarrow> agr_row w' j = agr_row w j))"

lemma field_self: "\<exists>val ad me. f = f\<lparr>f_value := val, f_adopted_at := ad, f_method := me\<rparr>"
  by (intro exI [of _ "f_value f"] exI [of _ "f_adopted_at f"] exI [of _ "f_method f"]) simp

lemma touches_id:
  assumes "field_rows w' = field_rows w" and "signer_rows w' = signer_rows w"
    and "\<forall>j. j \<noteq> s_agr s \<longrightarrow> agr_row w' j = agr_row w j"
  shows "touches s w w'"
proof -
  have "\<exists>g. field_rows w = map g (field_rows w) \<and> (\<forall>f. \<not> own_field s f \<longrightarrow> g f = f) \<and>
        (\<forall>f. \<exists>val ad me. g f = f\<lparr>f_value := val, f_adopted_at := ad, f_method := me\<rparr>)"
    by (intro exI [of _ "\<lambda>f. f"] conjI allI impI field_self) simp_all
  then show ?thesis using assms by (simp add: touches_def sig_row_def)
qed

lemma filled_updates:
  "\<exists>val ad me. filled s m c f = f\<lparr>f_value := val, f_adopted_at := ad, f_method := me\<rparr>"
proof (cases "filled s m c f = f")
  case True
  then show ?thesis using field_self [of f] by simp
next
  case False
  then show ?thesis by (auto simp: filled_def split: if_splits option.splits)
qed

lemma touches_commit:
  assumes "submit_commit now sigid ip ua vals m clean s w = Some w1" and "distinct (map fst clean)"
  shows "touches s w w1"
proof -
  note r = submit_commit_rows [OF assms]
  have "\<exists>g. field_rows w1 = map g (field_rows w) \<and> (\<forall>f. \<not> own_field s f \<longrightarrow> g f = f) \<and>
        (\<forall>f. \<exists>val ad me. g f = f\<lparr>f_value := val, f_adopted_at := ad, f_method := me\<rparr>)"
    using filled_updates r(3) filled_other by (intro exI [of _ "filled s m clean"]) blast
  moreover have "\<forall>sid. sid \<noteq> s_id s \<longrightarrow> sig_row w1 sid = sig_row w sid"
    by (simp add: sig_row_def r(2) find_key_upd_other)
  ultimately show ?thesis using r(1) by (simp add: touches_def agr_row_def)
qed

lemma touches_then:
  assumes "touches s w w1" and "field_rows w2 = field_rows w1" and "signer_rows w2 = signer_rows w1"
    and "\<forall>j. j \<noteq> s_agr s \<longrightarrow> agr_row w2 j = agr_row w1 j"
  shows "touches s w w2"
  using assms by (simp add: touches_def sig_row_def)

lemma touches_finalize:
  assumes "unique_agr w1" and "touches s w w1" and "finalize eng now (s_agr s) w1 = (r, w2)"
  shows "touches s w w2"
  using finalize_leaves [OF assms(1,3)] by (intro touches_then [OF assms(2)]) blast+

lemma finish_snd [simp]: "snd (finish b r) = snd r"
  by (auto simp: finish_def split: prod.splits option.splits)

lemma unique_agr_cong: "agreement_rows w' = agreement_rows w \<Longrightarrow> unique_agr w' = unique_agr w"
  by (simp add: unique_agr_def)

lemma touches_after:
  assumes "unique_agr w1" and "touches s w w1"
  shows "touches s w (snd (after_submit eng now s w1))"
proof -
  let ?w = "emit ''signer.signed'' (s_agr s) (Some (s_id s)) (Option.bind (agr_row w1 (s_agr s)) a_owner) w1"
  have e: "touches s w ?w" by (rule touches_then [OF assms(2)]) simp_all
  have u: "unique_agr ?w" using assms(1) by (simp add: unique_agr_def)
  show ?thesis
  proof (cases "unsigned_count w1 (s_agr s) = 0")
    case True
    obtain r w2 where f: "finalize eng now (s_agr s) ?w = (r, w2)" by fastforce
    with True touches_finalize [OF u e f] show ?thesis by (simp add: after_submit_def Let_def)
  next
    case False
    have "touches s w (notify_next_sequential eng now (s_agr s) ?w)"
      by (rule touches_then [OF e]) (simp_all add: agr_row_def)
    with False show ?thesis by (simp add: after_submit_def Let_def)
  qed
qed



section \<open>The values that are sealed\<close>

text \<open>The accepted values come from members whose name reads as the field's id.\<close>

lemma clean_values_source:
  assumes "clean_values kvs acc = Some c" and "map_of c fid = Some v"
  shows "(\<exists>k. (k, JStr v) \<in> set kvs \<and> py_int k = Some fid) \<or> map_of acc fid = Some v"
  using assms
proof (induction kvs acc rule: clean_values.induct)
  case (2 k x kvs acc)
  then show ?case
    by (fastforce split: option.splits json.splits if_splits)
qed simp

text \<open>A member name is canonical when it is the decimal text of an integer; then no two members
  name the same field.\<close>

definition canonical_keys :: "submission \<Rightarrow> bool" where
  "canonical_keys kvs = list_all (\<lambda>kv. case py_int (fst kv) of None \<Rightarrow> False | Some i \<Rightarrow> fst kv = py_str i) kvs"

lemma clean_values_canonical:
  assumes "clean_values kvs acc = Some c" and "canonical_keys kvs" and "distinct (map fst kvs)"
  shows "map_of c fid = (case map_of kvs (py_str fid) of
      Some (JStr v) \<Rightarrow> Some v | _ \<Rightarrow> map_of acc fid)"
  using assms
proof (induction kvs acc rule: clean_values.induct)
  case (1 acc)
  then show ?case by simp
next
  case (2 k x kvs acc)
  from 2(2) obtain i v where k: "py_int k = Some i" and x: "x = JStr v"
    and rest: "clean_values kvs (dict_set i v acc) = Some c"
    by (auto split: option.splits json.splits)
  have ki: "k = py_str i" and can: "canonical_keys kvs"
    using 2(3) k by (simp_all add: canonical_keys_def)
  have IH: "map_of c fid = (case map_of kvs (py_str fid) of
      Some (JStr v) \<Rightarrow> Some v | _ \<Rightarrow> map_of (dict_set i v acc) fid)"
    using 2(1) [OF k x rest can] 2(4) by simp
  have "map_of kvs (py_str i) = None" if "fid = i"
    using 2(4) ki by (simp add: map_of_eq_None_iff image_iff)
  with IH show ?case by (auto simp: ki x split: option.splits json.splits)
qed

lemma clean_all_text:
  "clean_values kvs acc = Some c \<Longrightarrow> (k, x) \<in> set kvs \<Longrightarrow> \<exists>v. x = JStr v"
  by (induction kvs acc rule: clean_values.induct) (auto split: option.splits json.splits)

lemma required_value_text:
  assumes "check_required eng vals f = None" and "clean_values vals [] = Some clean"
    and "canonical_keys vals" and "distinct (map fst vals)"
  shows "\<exists>v. map_of clean (f_id f) = Some v \<and> py_strip v \<noteq> []"
proof -
  have t: "truthy (stripped (jget vals (py_str (f_id f))))"
    using assms(1) by (auto simp: check_required_def Let_def split: if_splits)
  then obtain x where x: "map_of vals (py_str (f_id f)) = Some x"
    by (auto simp: jget_def stripped_def split: option.splits)
  have "\<exists>v. x = JStr v"
    using clean_all_text [OF assms(2)] map_of_SomeD [OF x] by blast
  then obtain v where v: "x = JStr v" ..
  have "map_of clean (f_id f) = Some v"
    using clean_values_canonical [OF assms(2-4), of "f_id f"] by (simp add: x v)
  moreover have "py_strip v \<noteq> []" using t by (simp add: jget_def x v stripped_def)
  ultimately show ?thesis by blast
qed

lemma after_submit_fields:
  assumes "unique_agr w1" and "after_submit eng now s w1 = (r, w')"
  shows "field_rows w' = field_rows w1 \<and> signer_rows w' = signer_rows w1"
proof -
  let ?w = "emit ''signer.signed'' (s_agr s) (Some (s_id s)) (Option.bind (agr_row w1 (s_agr s)) a_owner) w1"
  have "unique_agr ?w" using assms(1) by (simp add: unique_agr_def)
  from finalize_leaves [OF this prod.collapse [symmetric], of "s_agr s" eng now]
  have "field_rows (snd (after_submit eng now s w1)) = field_rows w1 \<and>
    signer_rows (snd (after_submit eng now s w1)) = signer_rows w1"
    by (simp add: after_submit_def Let_def)
  then show ?thesis using assms(2) by simp
qed

lemma accepted_fields:
  assumes "unique_agr w"
    and "submit_signature eng now sigid token vals consent ip ua m w = (SubOk False c, w')"
  obtains s clean where "signer_by_token w token = Some s" and "clean_values vals [] = Some clean"
    and "\<forall>f \<in> set (field_rows w). own_field s f \<and> f_required f \<longrightarrow> check_required eng vals f = None"
    and "\<And>k v. (k, v) \<in> set clean \<Longrightarrow> meta_for m k \<noteq> None"
    and "field_rows w' = map (filled s m clean) (field_rows w)"
    and "signer_rows w' = upd_where (\<lambda>r. s_id r = s_id s) (signed_row now ip ua sigid) (signer_rows w)"
proof -
  obtain s clean w1 where s: "signer_by_token w token = Some s"
    "check_all_required eng vals (required_fields w s) = None" "clean_values vals [] = Some clean"
    "submit_commit now sigid ip ua vals m clean s w = Some w1"
    "after_submit eng now s w1 = (SubOk False c, w')"
    using submit_accepted [OF assms(2)] by metis
  have d: "distinct (map fst clean)" using clean_values_distinct [OF s(3)] by simp
  note r = submit_commit_rows [OF s(4) d]
  have "unique_agr w1" using assms(1) r(1) by (simp add: unique_agr_def)
  note a = after_submit_fields [OF this s(5)]
  show ?thesis
    using that [OF s(1,3) _ r(7)] a r(2,3) s(2)
    by (auto simp: check_all_None required_fields_def own_field_def)
qed

text \<open>Property C8. The required-field rule, for a submission whose member names are plain decimal ids: once it is
  accepted, every required field of the signer holds a value that is not blank, and the value is
  the one submitted under the field's id.\<close>

theorem required_fields_filled:
  assumes "unique_agr w" and "canonical_keys vals" and "distinct (map fst vals)"
    and "submit_signature eng now sigid token vals consent ip ua m w = (SubOk False c, w')"
    and "signer_by_token w token = Some s"
    and "f \<in> set (field_rows w')" and "own_field s f" and "f_required f"
  shows "py_strip (f_value f) \<noteq> [] \<and> map_of vals (py_str (f_id f)) = Some (JStr (f_value f))"
proof -
  obtain clean where clean: "clean_values vals [] = Some clean"
    and req: "\<forall>f \<in> set (field_rows w). own_field s f \<and> f_required f \<longrightarrow> check_required eng vals f = None"
    and meta: "\<And>k v. (k, v) \<in> set clean \<Longrightarrow> meta_for m k \<noteq> None"
    and fields: "field_rows w' = map (filled s m clean) (field_rows w)"
    using accepted_fields [OF assms(1,4)] assms(5) by (metis option.inject)
  obtain f0 where f0: "f0 \<in> set (field_rows w)" "f = filled s m clean f0"
    using assms(6) fields by auto
  then have own: "own_field s f0" "f_required f0"
    using assms(7,8) by (simp_all add: own_field_def)
  obtain v where v: "map_of clean (f_id f0) = Some v" "py_strip v \<noteq> []"
    using required_value_text [OF _ clean assms(2,3)] req f0(1) own by blast
  have "f_value f = v"
    using filled_value [OF own(1) v(1)] meta map_of_SomeD [OF v(1)] f0(2) by simp
  moreover have "map_of vals (py_str (f_id f0)) = Some (JStr v)"
    using clean_values_canonical [OF clean assms(2,3), of "f_id f0"] v(1)
    by (simp split: option.splits json.splits)
  ultimately show ?thesis using v(2) f0(2) by simp
qed

lemma required_fields_filled_witness:
  "\<exists>w' f. submit_signature ref_engine 20 ''sig'' ''tok'' [(''1'', JStr ''Ann'')] True [] [] [] sample_out
     = (SubOk False True, w') \<and> f \<in> set (field_rows w') \<and> f_required f \<and> f_value f = ''Ann''"
proof -
  obtain w' where f: "submit_signature ref_engine 20 ''sig'' ''tok'' [(''1'', JStr ''Ann'')] True [] [] [] sample_out
     = (SubOk False True, w')" using sample_accept_ex by blast
  have "field_rows (snd (submit_signature ref_engine 20 ''sig'' ''tok'' [(''1'', JStr ''Ann'')] True [] [] [] sample_out))
     = [blank_field\<lparr>f_value := ''Ann''\<rparr>]" by code_simp
  with f have m: "blank_field\<lparr>f_value := ''Ann''\<rparr> \<in> set (field_rows w')" by simp
  have "canonical_keys [(''1'', JStr ''Ann'')]" by code_simp
  moreover have "signer_by_token sample_out ''tok'' = Some (blank_signer\<lparr>s_token := Some ''tok'', s_status := Sent\<rparr>)"
    by (simp add: signer_by_token_def sample_defs)
  ultimately have "py_strip (f_value (blank_field\<lparr>f_value := ''Ann''\<rparr>)) \<noteq> []"
    using required_fields_filled [OF sample_out_rows(2) _ _ f _ m]
    by (simp add: own_field_def blank_field_def blank_signer_def)
  then show ?thesis
    using f m by (intro exI [of _ w'] exI [of _ "blank_field\<lparr>f_value := ''Ann''\<rparr>"])
      (simp add: blank_field_def)
qed

text \<open>The rule does not hold for every submission: the check reads the member named by the field's
  decimal id, the writer reads every name as an integer and lets the last one win, so a second
  member \<open>01\<close> blanks the required field 1 after the check, and the blank field is sealed.\<close>

theorem required_field_blanked:
  "\<exists>w'. submit_signature ref_engine 20 ''sig'' ''tok'' [(''1'', JStr ''Ann''), (''01'', JStr [])] True [] [] [] sample_out
     = (SubOk False True, w') \<and>
   map (\<lambda>f. (f_id f, f_required f, f_value f)) (field_rows w') = [(1, True, [])] \<and>
   map a_status (agreement_rows w') = [Completed]"
proof -
  let ?r = "submit_signature ref_engine 20 ''sig'' ''tok'' [(''1'', JStr ''Ann''), (''01'', JStr [])] True [] [] [] sample_out"
  have "fst ?r = SubOk False True \<and> map (\<lambda>f. (f_id f, f_required f, f_value f)) (field_rows (snd ?r)) = [(1, True, [])] \<and>
     map a_status (agreement_rows (snd ?r)) = [Completed]" by code_simp
  then show ?thesis by (intro exI [of _ "snd ?r"]) (simp add: prod_eq_iff)
qed

text \<open>A signature by a signer ahead of whom nobody is left completes the envelope: when a submission
  answers \<open>completed\<close>, every signer of the agreement has signed and the agreement is completed.\<close>

theorem submit_completes:
  assumes "unique_agr w" and "signer_by_token w token = Some s" and "agr_row w (s_agr s) = Some a"
    and "submit_signature eng now sigid token vals consent ip ua m w = (SubOk False True, w')"
  shows "map_option a_status (agr_row w' (s_agr s)) = Some Completed \<and>
    (\<forall>r \<in> set (signer_rows w'). s_agr r = s_agr s \<longrightarrow> s_status r = Signed)"
proof -
  obtain clean w1 where c: "clean_values vals [] = Some clean"
    "submit_commit now sigid ip ua vals m clean s w = Some w1"
    "after_submit eng now s w1 = (SubOk False True, w')"
    using submit_accepted [OF assms(4)] assms(2) by (metis option.inject)
  have d: "distinct (map fst clean)" using clean_values_distinct [OF c(1)] by simp
  note r = submit_commit_rows [OF c(2) d]
  let ?w = "emit ''signer.signed'' (s_agr s) (Some (s_id s)) (Option.bind (agr_row w1 (s_agr s)) a_owner) w1"
  have u: "unique_agr ?w" using assms(1) r(1) by (simp add: unique_agr_def)
  have row: "agr_row ?w (s_agr s) = Some a" using assms(3) r(1) by (simp add: agr_row_def)
  have z: "unsigned_count w1 (s_agr s) = 0" and fin: "finish False (finalize eng now (s_agr s) ?w) = (SubOk False True, w')"
    using c(3) by (auto simp: after_submit_def Let_def split: if_splits)
  then have f: "finalize eng now (s_agr s) ?w = (Some True, w')"
    by (auto simp: finish_def split: prod.splits option.splits)
  obtain a' where "agr_row w' (s_agr s) = Some a'" "a_status a' = Completed"
    using agr_row_finalize [OF u row f] f
    by (auto simp: finalize_row [OF u row] Let_def completed_row_def split: if_splits option.splits)
  moreover have "signer_rows w' = signer_rows w1" using finalize_leaves [OF u f] by simp
  ultimately show ?thesis
    using z by (auto simp: unsigned_count_def rowcount_zero_iff)
qed

lemma submit_completes_witness:
  "\<exists>w'. submit_signature ref_engine 20 ''sig'' ''tok'' [(''1'', JStr ''Ann'')] True [] [] [] sample_out
     = (SubOk False True, w') \<and> map_option a_status (agr_row w' 1) = Some Completed"
proof -
  obtain w' where f: "submit_signature ref_engine 20 ''sig'' ''tok'' [(''1'', JStr ''Ann'')] True [] [] [] sample_out
     = (SubOk False True, w')" using sample_accept_ex by blast
  have t: "signer_by_token sample_out ''tok'' = Some (blank_signer\<lparr>s_token := Some ''tok'', s_status := Sent\<rparr>)"
    by (simp add: signer_by_token_def sample_defs)
  have one: "s_agr (blank_signer\<lparr>s_token := Some ''tok'', s_status := Sent\<rparr>) = 1"
    by (simp add: blank_signer_def)
  from submit_completes [OF sample_out_rows(2) t _ f] sample_out_rows(1) f show ?thesis
    unfolding one by blast
qed

definition two_signers :: world where
  "two_signers = sample_out\<lparr>
     signer_rows := [blank_signer\<lparr>s_token := Some ''tok'', s_status := Sent\<rparr>,
       blank_signer\<lparr>s_id := 2, s_email := ''b@x.io'', s_order := 2, s_token := Some ''tok2'', s_status := Sent\<rparr>],
     field_rows := [blank_field, blank_field\<lparr>f_id := 2, f_signer := Some 2, f_type := ''signature''\<rparr>]\<rparr>"

text \<open>The audit trail can name a field that the signer does not own: the type of a submitted field is read
  without the signer's id, so a submission of another signer's signature field logs
  \<open>FIELD_SIGNED\<close> and \<open>SIGNATURE_ADOPTED\<close> for this signer although no value is written.\<close>

theorem foreign_field_logged:
  "\<exists>w'. submit_signature ref_engine 20 ''sig'' ''tok'' [(''1'', JStr ''Ann''), (''2'', JStr ''img'')] True [] [] []
       two_signers = (SubOk False False, w') \<and>
   map (\<lambda>f. (f_id f, f_value f)) (field_rows w') = [(1, ''Ann''), (2, [])] \<and>
   map (\<lambda>e. (e_signer e, e_type e, take 7 (e_detail e))) (event_rows w') =
     [(Some 1, ''FIELD_SIGNED'', ''field=2''), (Some 1, ''SIGNATURE_ADOPTED'', ''method=''), (Some 1, ''signed'', ''2 field'')]"
proof -
  let ?r = "submit_signature ref_engine 20 ''sig'' ''tok'' [(''1'', JStr ''Ann''), (''2'', JStr ''img'')] True [] [] [] two_signers"
  have "fst ?r = SubOk False False \<and> map (\<lambda>f. (f_id f, f_value f)) (field_rows (snd ?r)) = [(1, ''Ann''), (2, [])] \<and>
    map (\<lambda>e. (e_signer e, e_type e, take 7 (e_detail e))) (event_rows (snd ?r)) =
     [(Some 1, ''FIELD_SIGNED'', ''field=2''), (Some 1, ''SIGNATURE_ADOPTED'', ''method=''), (Some 1, ''signed'', ''2 field'')]"
    by code_simp
  then show ?thesis by (intro exI [of _ "snd ?r"]) (simp add: prod_eq_iff)
qed

section \<open>The sequential cascade\<close>

lemma cascade_mails:
  "m \<in> set (outbox (fold (cascade_one eng now aid) ss w)) \<Longrightarrow>
   m \<in> set (outbox w) \<or> (\<exists>s \<in> set ss. m_to m = py_strip (s_email s) \<and> m_kind m = Invite \<and>
      m_url m = en_public_base eng @ ''/sign/'' @ coalesce (s_token s) [])"
proof (induction ss arbitrary: w)
  case (Cons s ss)
  then have "m \<in> set (outbox (cascade_one eng now aid s w)) \<or> (\<exists>s \<in> set ss. m_to m = py_strip (s_email s) \<and>
      m_kind m = Invite \<and> m_url m = en_public_base eng @ ''/sign/'' @ coalesce (s_token s) [])"
    by simp
  then show ?case
    by (auto simp: cascade_one_def Let_def send_mail_def split: if_splits)
qed simp

text \<open>The sequential cascade invites only signers whose turn it is: each mail it sends is an invitation to
  an unsigned signer of the envelope with the lowest order among the unsigned, at the signer's
  own link; a parallel or closed envelope sends none.\<close>

theorem cascade_invites_next:
  assumes "m \<in> set (outbox (notify_next_sequential eng now aid w)) - set (outbox w)"
  shows "\<exists>a s. agr_row w aid = Some a \<and> is_sequential a \<and> a_status a \<notin> {Voided, Cancelled, Completed} \<and>
    s \<in> set (signer_rows w) \<and> s_agr s = aid \<and> s_status s \<noteq> Signed \<and>
    (\<forall>r \<in> set (signer_rows w). s_agr r = aid \<and> s_status r \<noteq> Signed \<longrightarrow> eff_order s \<le> eff_order r) \<and>
    m_kind m = Invite \<and> m_to m = py_strip (s_email s) \<and>
    m_url m = en_public_base eng @ ''/sign/'' @ coalesce (s_token s) []"
proof -
  obtain v where v: "get_agreement w aid = Some v"
    using assms by (auto simp: notify_next_sequential_def split: option.splits)
  then obtain a where a: "agr_row w aid = Some a" "v = view_of w a"
    by (auto simp: get_agreement_view)
  have sg: "v_signers v = map strip_signer_secrets (agr_signers w aid)"
    using a agr_row_id [OF a(1)] by (simp add: view_of_def)
  obtain nxt where g: "is_sequential a" "a_status a \<notin> {Voided, Cancelled, Completed}"
    and n: "next_order_to_notify (v_signers v) = Some nxt"
    and m: "m \<in> set (outbox (fold (cascade_one eng now aid)
        (filter (\<lambda>s. eff_order s = nxt \<and> s_status s \<noteq> Signed) (v_signers v)) w)) - set (outbox w)"
    using assms v a by (auto simp: notify_next_sequential_def split: option.splits if_splits)
  have eq: "eff_order (strip_signer_secrets s) = eff_order s" "s_status (strip_signer_secrets s) = s_status s"
    "s_email (strip_signer_secrets s) = s_email s" "s_token (strip_signer_secrets s) = s_token s" for s
    by (simp_all add: strip_signer_secrets_def eff_order_def)
  obtain s where s: "s \<in> set (agr_signers w aid)" "eff_order s = nxt" "s_status s \<noteq> Signed"
    "m_to m = py_strip (s_email s)" "m_kind m = Invite"
    "m_url m = en_public_base eng @ ''/sign/'' @ coalesce (s_token s) []"
    using cascade_mails m by (fastforce simp: sg eq)
  have "nxt = Min (eff_order ` {s \<in> set (agr_signers w aid). s_status s \<noteq> Signed})"
    using n by (auto simp: next_order_to_notify_def sg eq Let_def image_image filter_map comp_def split: if_splits)
  then have "\<forall>r \<in> set (agr_signers w aid). s_status r \<noteq> Signed \<longrightarrow> nxt \<le> eff_order r" by simp
  with s a g show ?thesis by (auto simp: agr_signers_def)
qed

definition sequential_world :: world where
  "sequential_world = two_signers\<lparr>
     agreement_rows := [blank_agreement\<lparr>a_status := OutForSignature, a_order_mode := ''sequential''\<rparr>]\<rparr>"

lemma cascade_invites_next_witness:
  "\<exists>m. m_to m = ''a@x.io'' \<and> m \<in> set (outbox (notify_next_sequential ref_engine 20 1 sequential_world)) \<and>
     (\<exists>a. agr_row sequential_world 1 = Some a \<and> is_sequential a)"
proof -
  have o: "outbox (notify_next_sequential ref_engine 20 1 sequential_world)
    = [\<lparr>m_to = ''a@x.io'', m_kind = Invite, m_agr = 1, m_url = ''https://x.io/sign/tok''\<rparr>]"
    and "outbox sequential_world = []" by code_simp+
  then have "\<lparr>m_to = ''a@x.io'', m_kind = Invite, m_agr = 1, m_url = ''https://x.io/sign/tok''\<rparr>
    \<in> set (outbox (notify_next_sequential ref_engine 20 1 sequential_world)) - set (outbox sequential_world)"
    by simp
  from cascade_invites_next [OF this] o show ?thesis by fastforce
qed

section \<open>The expiry sweep\<close>

lemma expired_row_sel [simp]: "a_id (expired_row now a) = a_id a" "a_status (expired_row now a) = Expired"
  by (simp_all add: expired_row_def)

lemma expire_all:
  assumes "distinct ids" and "\<forall>i \<in> set ids. \<exists>a \<in> set (agreement_rows w). a_id a = i \<and> a_status a = OutForSignature"
  shows "\<exists>w2. fold (expire_one now) ids (acc, w) = (acc @ ids, w2) \<and>
    agreement_rows w2 = upd_where (\<lambda>a. a_id a \<in> set ids \<and> a_status a = OutForSignature) (expired_row now) (agreement_rows w) \<and>
    signer_rows w2 = signer_rows w \<and> field_rows w2 = field_rows w \<and> files w2 = files w"
  using assms
proof (induction ids arbitrary: acc w)
  case Nil
  then show ?case by (simp add: upd_where_def)
next
  case (Cons i ids)
  let ?w1 = "log_event i ''expired'' None [] [] ''auto-expired: signing window elapsed'' now
               (upd_agr_if i (\<lambda>a. a_status a = OutForSignature) (expired_row now) w)"
  have step: "expire_one now i (acc, w) = (acc @ [i], ?w1)"
    using Cons.prems(2) by (auto simp: expire_one_def rowcount_pos_iff)
  have rows: "agreement_rows ?w1 =
      upd_where (\<lambda>a. a_id a = i \<and> a_status a = OutForSignature) (expired_row now) (agreement_rows w)"
    by (simp add: upd_agr_if_def)
  have "\<forall>j \<in> set ids. \<exists>a \<in> set (agreement_rows ?w1). a_id a = j \<and> a_status a = OutForSignature"
  proof
    fix j assume j: "j \<in> set ids"
    then obtain a where a: "a \<in> set (agreement_rows w)" "a_id a = j" "a_status a = OutForSignature"
      using Cons.prems(2) by auto
    moreover have "j \<noteq> i" using Cons.prems(1) j by auto
    ultimately have "a \<in> set (agreement_rows ?w1)"
      unfolding rows set_upd_where by (auto intro!: image_eqI [of _ _ a])
    with a show "\<exists>a \<in> set (agreement_rows ?w1). a_id a = j \<and> a_status a = OutForSignature" by blast
  qed
  then obtain w2 where w2: "fold (expire_one now) ids (acc @ [i], ?w1) = (acc @ [i] @ ids, w2)"
    "agreement_rows w2 = upd_where (\<lambda>a. a_id a \<in> set ids \<and> a_status a = OutForSignature) (expired_row now) (agreement_rows ?w1)"
    "signer_rows w2 = signer_rows w" "field_rows w2 = field_rows w" "files w2 = files w"
    using Cons.IH [of ?w1 "acc @ [i]"] Cons.prems(1) by auto
  have "agreement_rows w2 =
      upd_where (\<lambda>a. a_id a \<in> set (i # ids) \<and> a_status a = OutForSignature) (expired_row now) (agreement_rows w)"
    unfolding w2(2) rows by (auto simp: upd_where_def)
  with w2 step show ?case by simp
qed

lemma expiry_notice_frame [simp]:
  "agreement_rows (expiry_notice eng aid w) = agreement_rows w"
  "signer_rows (expiry_notice eng aid w) = signer_rows w"
  "field_rows (expiry_notice eng aid w) = field_rows w"
  "files (expiry_notice eng aid w) = files w"
  by (simp_all add: expiry_notice_def split: option.splits)

text \<open>One sweep expires exactly the agreements that are out for signature and past their window, whatever
  else is going on (a sealing, completed or voided one is never touched), reports their number,
  and a second sweep at the same clock finds nothing.\<close>

theorem sweep_exact:
  assumes "unique_agr w" and "sweep_expired eng now w = (n, w')"
  shows "agreement_rows w' = map (\<lambda>a. if due_for_expiry now a then expired_row now a else a) (agreement_rows w) \<and>
    n = length (filter (due_for_expiry now) (agreement_rows w)) \<and>
    signer_rows w' = signer_rows w \<and> field_rows w' = field_rows w \<and> files w' = files w \<and>
    sweep_expired eng now w' = (0, w')"
proof -
  let ?rows = "agreement_rows w"
  let ?ids = "map a_id (filter (due_for_expiry now) ?rows)"
  have d: "distinct ?ids" using assms(1) by (simp add: unique_agr_def distinct_map_filter)
  have m: "\<forall>i \<in> set ?ids. \<exists>a \<in> set ?rows. a_id a = i \<and> a_status a = OutForSignature"
    by (auto simp: due_for_expiry_def)
  obtain w2 where w2: "fold (expire_one now) ?ids ([], w) = (?ids, w2)"
    "agreement_rows w2 = upd_where (\<lambda>a. a_id a \<in> set ?ids \<and> a_status a = OutForSignature) (expired_row now) ?rows"
    "signer_rows w2 = signer_rows w" "field_rows w2 = field_rows w" "files w2 = files w"
    using expire_all [OF d m, of now "[]"] by auto
  have same: "(a_id a \<in> set ?ids \<and> a_status a = OutForSignature) = due_for_expiry now a" if "a \<in> set ?rows" for a
    using that key_unique [of a_id ?rows a] assms(1) by (auto simp: unique_agr_def due_for_expiry_def)
  have w': "n = length ?ids" "w' = fold (expiry_notice eng) ?ids w2"
    using assms(2) w2(1) by (simp_all add: sweep_expired_def)
  have rows: "agreement_rows w' = map (\<lambda>a. if due_for_expiry now a then expired_row now a else a) ?rows"
  proof -
    have "agreement_rows w' = agreement_rows w2" by (simp add: w'(2) fold_frame)
    also have "\<dots> = map (\<lambda>a. if due_for_expiry now a then expired_row now a else a) ?rows"
      unfolding w2(2) upd_where_def by (rule map_cong [OF refl]) (simp only: same)
    finally show ?thesis .
  qed
  then have "filter (due_for_expiry now) (agreement_rows w') = []"
    by (auto simp: filter_empty_conv due_for_expiry_def)
  then have "sweep_expired eng now w' = (0, w')" by (simp add: sweep_expired_def)
  with rows show ?thesis using w'(1) by (simp add: w'(2) fold_frame w2(3-5))
qed

lemma sweep_exact_witness:
  "fst (sweep_expired ref_engine 5184011 sample_out) = 1 \<and>
   map_option a_status (agr_row (snd (sweep_expired ref_engine 5184011 sample_out)) 1) = Some Expired"
  using sweep_exact [OF sample_out_rows(2) prod.collapse [symmetric], of ref_engine 5184011]
  by (simp add: agr_row_def sample_defs due_for_expiry_def expired_row_def)

section \<open>Declining\<close>

lemma decline_agr_row:
  "agr_row (decline_agr aid w) j =
    (if j = aid then map_option (\<lambda>a. if a_status a \<notin> {Completed, Voided, Cancelled} then a\<lparr>a_status := Declined\<rparr> else a)
       (agr_row w aid) else agr_row w j)"
  by (simp add: decline_agr_def agr_row_upd_if)

text \<open>A decline never undoes a finished envelope and never takes back a signature: it is refused without
  effect for a signer who has signed and for a completed, voided or cancelled agreement, and when
  it succeeds the signer and the agreement read declined.\<close>

theorem decline_outcome:
  assumes "signer_by_token w token = Some s" and "agr_row w (s_agr s) = Some a"
    and "sig_row w (s_id s) = Some s" and "decline eng now token reason ip ua w = (r, w')"
  shows "(r \<noteq> DeclineOk \<longrightarrow> w' = w) \<and>
    (r = DeclineOk \<longrightarrow> s_status s \<noteq> Signed \<and> a_status a \<notin> {Completed, Voided, Cancelled} \<and>
       \<not> challenge_unmet s \<and>
       map_option a_status (agr_row w' (s_agr s)) = Some Declined \<and>
       sig_row w' (s_id s) = Some (s\<lparr>s_status := SigDeclined\<rparr>) \<and>
       (\<forall>j. j \<noteq> s_agr s \<longrightarrow> agr_row w' j = agr_row w j) \<and>
       (\<forall>i. i \<noteq> s_id s \<longrightarrow> sig_row w' i = sig_row w i))"
proof -
  let ?w1 = "decline_agr (s_agr s) (upd_sig (s_id s) (\<lambda>r. r\<lparr>s_status := SigDeclined\<rparr>) w)"
  have sg: "sig_row (decline_agr aid u) i = sig_row u i" for aid u i by (simp add: decline_agr_def)
  have row: "agr_row ?w1 j = (if j = s_agr s then Some (if a_status a \<notin> {Completed, Voided, Cancelled}
      then a\<lparr>a_status := Declined\<rparr> else a) else agr_row w j)" for j
    by (simp add: decline_agr_row assms(2))
  show ?thesis
    using assms(4) row
    by (auto simp: decline_def assms(1-3) Let_def sg sig.get_upd split: if_splits option.splits)
qed

lemma decline_outcome_witness:
  "fst (decline ref_engine 20 ''tok'' ''no'' [] [] sample_out) = DeclineOk \<and>
   map_option a_status (agr_row (snd (decline ref_engine 20 ''tok'' ''no'' [] [] sample_out)) 1) = Some Declined"
proof -
  let ?s = "blank_signer\<lparr>s_token := Some ''tok'', s_status := Sent\<rparr>"
  have s: "signer_by_token sample_out ''tok'' = Some ?s" "sig_row sample_out 1 = Some ?s" "s_agr ?s = 1" "s_id ?s = 1"
    by (simp_all add: signer_by_token_def sig_row_def sample_defs)
  have "fst (decline ref_engine 20 ''tok'' ''no'' [] [] sample_out) = DeclineOk" by code_simp
  then show ?thesis
    using decline_outcome [OF s(1) _ _ prod.collapse [symmetric], unfolded s(3,4),
        OF sample_out_rows(1) s(2), of ref_engine 20 "''no''" "[]" "[]"] by blast
qed

end
