(* ===== verification/Drafting.thy ===== *)
theory Drafting
  imports Signing
begin

text \<open>
  The drafting stage (\<open>sign/esign.py\<close>): creating an agreement, editing its source PDF (text,
  redaction, page operations), its signers, its fields and its order mode, and deleting it.
  Every operation that rewrites the source runs through \<open>draft_source\<close>, the gate that refuses an
  agreement which has been sent, and \<open>rewrite_source\<close>, which writes the file first and then
  commits the document hash, the remapped fields and the audit event together.
\<close>

section \<open>Results\<close>

text \<open>The error strings of the page operations; \<open>edit_texts\<close> adds the index of the bad item.\<close>

datatype draft_error =
    NotFound | Locked | BadPage | OnlyPage | BadOrder | BadRotation | RotationRange | NotAPdf
  | NoRegions | BadRegion | BadKind | BadCoords | NoItems | TooManyItems | BadItem | EmptyText
  | TextTooLong | TooManyLines | ControlChars | Unsupported string | BadSize | SizeRange | BadFont | BadColor
  | BadBbox | BadText | EngineError string | BadMode

datatype page_result =
    PageErr draft_error "int option"
  | PageRaise
  | PageOk int string "field list"

section \<open>create_agreement\<close>

definition new_agreement ::
  "time \<Rightarrow> int \<Rightarrow> string \<Rightarrow> string \<Rightarrow> string \<Rightarrow> int option \<Rightarrow> int option \<Rightarrow> agreement" where
  "new_agreement now aid name msg created_by source_doc owner =
     \<lparr>a_id = aid, a_name = nonblank name ''Untitled'', a_message = msg, a_status = Draft,
      a_created_by = created_by, a_order_mode = ''parallel'', a_source_path = [], a_executed_path = [],
      a_doc_hash = [], a_envelope_id = [], a_source_doc_id = source_doc, a_frozen_path = [],
      a_frozen_hash = [], a_sealed_hash = [], a_preseal_hash = [], a_seal_method = [], a_epoch = 0,
      a_owner = owner, a_edited_pages = [], a_created_at = Some now, a_sent_at = None,
      a_completed_at = None, a_sealing_at = None, a_expires_at = None, a_expired_at = None\<rparr>"

text \<open>
  The page count of the audit event is computed inside the transaction: when it raises, the rows
  are rolled back and the file stays.
\<close>

definition create_agreement ::
  "engine \<Rightarrow> time \<Rightarrow> string \<Rightarrow> string \<Rightarrow> bytes \<Rightarrow> string \<Rightarrow> string \<Rightarrow> int option \<Rightarrow> int option \<Rightarrow> world \<Rightarrow>
   int option \<times> world" where
  "create_agreement eng now env_id name pdf msg created_by source_doc owner w =
     (let aid = next_agr w;
          w1 = write_file (source_path aid) pdf w
      in case en_page_count eng pdf of
           None \<Rightarrow> (None, w1)
         | Some n \<Rightarrow>
             (Some aid,
              log_event aid ''created'' None [] [] (py_str n @ '' pages'') now
               (w1\<lparr>agreement_rows := agreement_rows w1 @
                     [(new_agreement now aid name msg created_by source_doc owner)
                        \<lparr>a_source_path := source_path aid, a_doc_hash := en_sha256 eng pdf,
                         a_envelope_id := env_id\<rparr>],
                   next_agr := aid + 1\<rparr>)))"

section \<open>apply_edits\<close>

text \<open>\<open>None\<close> is the exception other than \<open>ValueError\<close>, or a missing source file.\<close>

definition apply_edits :: "engine \<Rightarrow> time \<Rightarrow> int \<Rightarrow> json list \<Rightarrow> world \<Rightarrow> bool option \<times> world" where
  "apply_edits eng now aid edits w =
     (case get_agreement w aid of
        None \<Rightarrow> (Some False, w)
      | Some v \<Rightarrow> (let a = v_row v in
          if a_status a \<noteq> Draft then (Some False, w)
          else case source_bytes w a of
            None \<Rightarrow> (None, w)
          | Some src \<Rightarrow> (case en_apply_edits eng src edits of
                Inl (PyExc ValueError _) \<Rightarrow> (Some False, w)
              | Inl _ \<Rightarrow> (None, w)
              | Inr new \<Rightarrow>
                  (Some True,
                   log_event aid ''edited'' None [] [] (py_str (int (length edits)) @ '' edit(s)'') now
                     (upd_agr aid (\<lambda>r. r\<lparr>a_doc_hash := en_sha256 eng new\<rparr>)
                       (write_file (a_source_path a) new w))))))"

section \<open>The draft gate and the common commit\<close>

definition draft_source :: "world \<Rightarrow> int \<Rightarrow> draft_error + agreement" where
  "draft_source w aid =
     (case get_agreement w aid of
        None \<Rightarrow> Inl NotFound
      | Some v \<Rightarrow> if a_source_path (v_row v) = [] then Inl NotFound
          else if a_status (v_row v) \<notin> {Draft, NoStatus} then Inl Locked
          else Inr (v_row v))"

text \<open>The page count of the result is read after the commit: if it raises, the writes stay.\<close>

definition rewrite_source ::
  "engine \<Rightarrow> time \<Rightarrow> agreement \<Rightarrow> bytes \<Rightarrow> (world \<Rightarrow> world) \<Rightarrow> string \<Rightarrow> string \<Rightarrow> world \<Rightarrow>
   page_result \<times> world" where
  "rewrite_source eng now a new remap kind detail w =
     (let aid = a_id a; h = en_sha256 eng new;
          w1 = write_file (a_source_path a) new w;
          w2 = upd_agr aid (\<lambda>r. r\<lparr>a_doc_hash := h\<rparr>) w1;
          w3 = log_event aid kind None [] [] detail now (remap w2)
      in case page_count (en_pk eng) new of
           Inl _ \<Rightarrow> (PageRaise, w3)
         | Inr n \<Rightarrow> (PageOk n h (agr_fields w3 aid), w3))"

text \<open>
  The prologue the page operations share: the gate, the source bytes, their page count. The
  continuation gets the agreement, the bytes and the count.
\<close>

definition with_source ::
  "engine \<Rightarrow> int \<Rightarrow> (agreement \<Rightarrow> bytes \<Rightarrow> int \<Rightarrow> world \<Rightarrow> page_result \<times> world) \<Rightarrow> world \<Rightarrow> page_result \<times> world" where
  "with_source eng aid k w =
     (case draft_source w aid of
        Inl e \<Rightarrow> (PageErr e None, w)
      | Inr a \<Rightarrow> (case source_bytes w a of
            None \<Rightarrow> (PageRaise, w)
          | Some data \<Rightarrow> (case page_count (en_pk eng) data of
                Inl _ \<Rightarrow> (PageRaise, w)
              | Inr n \<Rightarrow> k a data n w)))"

text \<open>\<open>_remap_edited_pages_in_txn\<close>; the mapper drops a page with \<open>None\<close>.\<close>

definition remap_edited_pages :: "int \<Rightarrow> (int \<Rightarrow> int option) \<Rightarrow> world \<Rightarrow> world" where
  "remap_edited_pages aid mapper w =
     (case agr_row w aid of
        None \<Rightarrow> w
      | Some a \<Rightarrow>
          if a_edited_pages a = [] then w
          else upd_agr aid (\<lambda>r. r\<lparr>a_edited_pages :=
                 render_pages (sort (remdups (filter (\<lambda>m. 0 \<le> m)
                   (List.map_filter mapper (parse_pages (a_edited_pages a))))))\<rparr>) w)"

section \<open>Page operations\<close>

definition map_fields :: "(field \<Rightarrow> bool) \<Rightarrow> (field \<Rightarrow> field) \<Rightarrow> world \<Rightarrow> world" where
  "map_fields P f w = w\<lparr>field_rows := upd_where P f (field_rows w)\<rparr>"

definition delete_remap :: "int \<Rightarrow> int \<Rightarrow> world \<Rightarrow> world" where
  "delete_remap aid page w =
     remap_edited_pages aid (\<lambda>i. if i = page then None else Some (if i > page then i - 1 else i))
       (map_fields (\<lambda>f. f_agr f = aid \<and> f_page f > page) (\<lambda>f. f\<lparr>f_page := f_page f - 1\<rparr>)
         (w\<lparr>field_rows := del_where (\<lambda>f. f_agr f = aid \<and> f_page f = page) (field_rows w)\<rparr>))"

definition delete_page :: "engine \<Rightarrow> time \<Rightarrow> int \<Rightarrow> json \<Rightarrow> world \<Rightarrow> page_result \<times> world" where
  "delete_page eng now aid pagej =
     with_source eng aid (\<lambda>a data n w.
       case jint pagej of
         Inl _ \<Rightarrow> (PageErr BadPage None, w)
       | Inr page \<Rightarrow>
           if \<not> (0 \<le> page \<and> page < n) then (PageErr BadPage None, w)
           else if n \<le> 1 then (PageErr OnlyPage None, w)
           else case delete_pages (en_pk eng) data [page] of
             Inl _ \<Rightarrow> (PageRaise, w)
           | Inr new \<Rightarrow> rewrite_source eng now a new (delete_remap aid page) ''pages_delete''
                (''deleted page '' @ py_str (page + 1)) w)"

fun jints :: "json list \<Rightarrow> py_exc + int list" where
  "jints [] = Inr []"
| "jints (j # js) = try_bind (jint j) (\<lambda>i. try_bind (jints js) (\<lambda>is. Inr (i # is)))"

text \<open>\<open>new_of_old\<close>, the two-phase update of the fields' pages, and the same map for the edited pages.\<close>

definition new_of_old :: "int list \<Rightarrow> (int \<times> int) list" where
  "new_of_old order =
     fold (\<lambda>(k, old) d. dict_set old (int k) d) (enumerate 0 order) []"

definition reorder_remap :: "int \<Rightarrow> int list \<Rightarrow> world \<Rightarrow> world" where
  "reorder_remap aid order w =
     remap_edited_pages aid (map_of (new_of_old order))
      (map_fields (\<lambda>f. f_agr f = aid \<and> f_page f \<ge> 100000) (\<lambda>f. f\<lparr>f_page := f_page f - 100000\<rparr>)
        (fold (\<lambda>(old, k). map_fields (\<lambda>f. f_agr f = aid \<and> f_page f = old) (\<lambda>f. f\<lparr>f_page := k + 100000\<rparr>))
           (new_of_old order) w))"

definition esign_reorder_pages :: "engine \<Rightarrow> time \<Rightarrow> int \<Rightarrow> json list \<Rightarrow> world \<Rightarrow> page_result \<times> world" where
  "esign_reorder_pages eng now aid orderj =
     with_source eng aid (\<lambda>a data n w.
       case jints orderj of
         Inl _ \<Rightarrow> (PageErr BadOrder None, w)
       | Inr order \<Rightarrow>
           if \<not> is_page_perm order n then (PageErr BadOrder None, w)
           else case reorder_pages (en_pk eng) data order of
             Inl _ \<Rightarrow> (PageRaise, w)
           | Inr new \<Rightarrow> rewrite_source eng now a new (reorder_remap aid order) ''pages_reorder''
                (''reordered '' @ py_str n @ '' pages'') w)"

text \<open>The box of a field on a page turned clockwise.\<close>

definition rotate_box :: "int \<Rightarrow> field \<Rightarrow> field" where
  "rotate_box deg f =
     (let x = f_x f; y = f_y f; bw = f_w f; bh = f_h f in
      if deg = 90 then f\<lparr>f_x := 1 - y - bh, f_y := x, f_w := bh, f_h := bw\<rparr>
      else if deg = 180 then f\<lparr>f_x := 1 - x - bw, f_y := 1 - y - bh\<rparr>
      else f\<lparr>f_x := y, f_y := 1 - x - bw, f_w := bh, f_h := bw\<rparr>)"

definition rotate_page :: "engine \<Rightarrow> time \<Rightarrow> int \<Rightarrow> json \<Rightarrow> json \<Rightarrow> world \<Rightarrow> page_result \<times> world" where
  "rotate_page eng now aid pagej degj =
     with_source eng aid (\<lambda>a data n w.
       case try_bind (jint pagej) (\<lambda>p. try_bind (jint degj) (\<lambda>d. Inr (p, d mod 360))) of
         Inl _ \<Rightarrow> (PageErr BadRotation None, w)
       | Inr (page, deg) \<Rightarrow>
           if \<not> (0 \<le> page \<and> page < n) then (PageErr BadPage None, w)
           else if deg \<notin> {90, 180, 270} then (PageErr RotationRange None, w)
           else case rotate_pages (en_pk eng) data [(page, deg)] of
             Inl _ \<Rightarrow> (PageRaise, w)
           | Inr new \<Rightarrow> rewrite_source eng now a new
                (map_fields (\<lambda>f. f_agr f = aid \<and> f_page f = page) (rotate_box deg)) ''pages_rotate''
                (''rotated page '' @ py_str (page + 1) @ '' by '' @ py_str deg @ '' degrees'') w)"

definition add_pages :: "engine \<Rightarrow> time \<Rightarrow> int \<Rightarrow> bytes \<Rightarrow> world \<Rightarrow> page_result \<times> world" where
  "add_pages eng now aid extra w =
     (case draft_source w aid of
        Inl e \<Rightarrow> (PageErr e None, w)
      | Inr a \<Rightarrow>
          if extra = [] \<or> take 4 extra \<noteq> ''%PDF'' then (PageErr NotAPdf None, w)
          else case source_bytes w a of
            None \<Rightarrow> (PageRaise, w)
          | Some data \<Rightarrow> (case page_count (en_pk eng) extra of
                Inl _ \<Rightarrow> (PageErr NotAPdf None, w)
              | Inr added \<Rightarrow> (case merge (en_pk eng) [data, extra] of
                    Inl _ \<Rightarrow> (PageRaise, w)
                  | Inr new \<Rightarrow> rewrite_source eng now a new (\<lambda>w. w) ''pages_add''
                      (''added '' @ py_str added @ '' page(s)'') w)))"

section \<open>Redaction\<close>

text \<open>\<open>d.get(k, default)\<close> and \<open>d[k]\<close>.\<close>

definition jget_def :: "(string \<times> json) list \<Rightarrow> string \<Rightarrow> json \<Rightarrow> json" where
  "jget_def kvs k d = (case map_of kvs k of None \<Rightarrow> d | Some v \<Rightarrow> v)"

definition jfloat_at :: "engine \<Rightarrow> (string \<times> json) list \<Rightarrow> string \<Rightarrow> py_exc + real" where
  "jfloat_at eng kvs k =
     (case map_of kvs k of None \<Rightarrow> Inl KeyError | Some v \<Rightarrow> jfloat (en_parse_float eng) v)"

definition json_list :: "json \<Rightarrow> json list" where
  "json_list j = (case j of JList xs \<Rightarrow> xs | _ \<Rightarrow> [])"

text \<open>A box with its corners in the page, up to the slack of a round-trip through percentages.\<close>

definition box_in_page :: "real \<Rightarrow> real \<Rightarrow> real \<Rightarrow> real \<Rightarrow> bool" where
  "box_in_page x y bw bh =
     (0 \<le> x \<and> x < 1 \<and> 0 \<le> y \<and> y < 1 \<and> 0 < bw \<and> bw \<le> 1 \<and> 0 < bh \<and> bh \<le> 1 \<and>
      x + bw \<le> 10001 / 10000 \<and> y + bh \<le> 10001 / 10000)"

definition float4 ::
  "engine \<Rightarrow> (string \<times> json) list \<Rightarrow> py_exc + real \<times> real \<times> real \<times> real" where
  "float4 eng kvs =
     try_bind (jfloat_at eng kvs ''x'') (\<lambda>x. try_bind (jfloat_at eng kvs ''y'') (\<lambda>y.
     try_bind (jfloat_at eng kvs ''w'') (\<lambda>bw. try_bind (jfloat_at eng kvs ''h'') (\<lambda>bh. Inr (x, y, bw, bh)))))"

definition check_region :: "engine \<Rightarrow> int \<Rightarrow> json \<Rightarrow> draft_error + json" where
  "check_region eng n r =
     (case r of
        JObj kvs \<Rightarrow>
          (let kind = jget_def kvs ''kind'' (JStr ''redact'') in
           if kind \<noteq> JStr ''redact'' \<and> kind \<noteq> JStr ''whiteout'' then Inl BadKind
           else case try_bind (jint (jget kvs ''page'')) (\<lambda>p. try_bind (float4 eng kvs) (\<lambda>b. Inr (p, b))) of
             Inl _ \<Rightarrow> Inl BadRegion
           | Inr (page, x, y, bw, bh) \<Rightarrow>
               if \<not> (0 \<le> page \<and> page < n) then Inl BadPage
               else if \<not> box_in_page x y bw bh then Inl BadCoords
               else Inr (JObj [(''kind'', kind), (''page'', JInt page), (''x'', JFloat x), (''y'', JFloat y),
                               (''w'', JFloat bw), (''h'', JFloat bh)]))
      | _ \<Rightarrow> Inl BadRegion)"

fun check_each :: "('i \<Rightarrow> 'e + 'o) \<Rightarrow> 'i list \<Rightarrow> 'e + 'o list" where
  "check_each f [] = Inr []"
| "check_each f (x # xs) =
     (case f x of Inl e \<Rightarrow> Inl e
      | Inr y \<Rightarrow> (case check_each f xs of Inl e \<Rightarrow> Inl e | Inr ys \<Rightarrow> Inr (y # ys)))"

definition redact_regions :: "engine \<Rightarrow> time \<Rightarrow> int \<Rightarrow> json \<Rightarrow> world \<Rightarrow> page_result \<times> world" where
  "redact_regions eng now aid regions w =
     (case draft_source w aid of
        Inl e \<Rightarrow> (PageErr e None, w)
      | Inr _ \<Rightarrow>
          if json_list regions = [] then (PageErr NoRegions None, w)
          else with_source eng aid (\<lambda>a data n w.
            case check_each (check_region eng n) (json_list regions) of
              Inl e \<Rightarrow> (PageErr e None, w)
            | Inr edits \<Rightarrow> (case en_apply_edits eng data edits of
                  Inl _ \<Rightarrow> (PageRaise, w)
                | Inr new \<Rightarrow> rewrite_source eng now a new (\<lambda>w. w) ''redacted''
                    (''redacted '' @ py_str (int (length edits)) @ '' region(s)'') w)) w)"

section \<open>Adding text\<close>

definition TEXT_MAX_ITEMS :: nat where "TEXT_MAX_ITEMS = 50"
definition TEXT_MAX_LEN :: nat where "TEXT_MAX_LEN = 2000"
definition TEXT_MAX_LINES :: nat where "TEXT_MAX_LINES = 60"

text \<open>\<open>text.replace("\r\n", "\n").replace("\r", "\n")\<close>.\<close>

fun norm_from :: "bool \<Rightarrow> string \<Rightarrow> string" where
  "norm_from after_cr [] = []"
| "norm_from after_cr (c # cs) =
     (if c = CHR 0x0D then CHR 0x0A # norm_from True cs
      else if c = CHR 0x0A \<and> after_cr then norm_from False cs
      else c # norm_from False cs)"

definition norm_newlines :: "string \<Rightarrow> string" where
  "norm_newlines s = norm_from False s"

definition is_control :: "string \<Rightarrow> char \<Rightarrow> bool" where
  "is_control ok c = ((char_code c < 32 \<and> c \<notin> set ok) \<or> (127 \<le> char_code c \<and> char_code c \<le> 159))"

definition is_hex :: "char \<Rightarrow> bool" where
  "is_hex c = (is_digit c \<or> (65 \<le> char_code c \<and> char_code c \<le> 70) \<or> (97 \<le> char_code c \<and> char_code c \<le> 102))"

text \<open>\<open>^#[0-9a-fA-F]{6}$\<close> under \<open>re.match\<close>: a newline may follow the last digit.\<close>

definition hex_color :: "string \<Rightarrow> bool" where
  "hex_color s =
     (7 \<le> length s \<and> hd s = CHR ''#'' \<and> list_all is_hex (take 6 (tl s)) \<and>
      (drop 7 s = [] \<or> drop 7 s = [CHR 0x0A]))"

definition TEXT_FONTS :: "json list" where
  "TEXT_FONTS = [JStr ''sans'', JStr ''serif'', JStr ''mono'']"

text \<open>The tail of the per-item checks: size, font, colour.\<close>

definition check_style :: "engine \<Rightarrow> (string \<times> json) list \<Rightarrow> draft_error + (real \<times> json \<times> json)" where
  "check_style eng kvs =
     (case jfloat (en_parse_float eng) (jget_def kvs ''size'' (JInt 12)) of
        Inl _ \<Rightarrow> Inl BadSize
      | Inr pt \<Rightarrow>
          if \<not> (6 \<le> pt \<and> pt \<le> 96) then Inl SizeRange
          else let font = jget_def kvs ''font'' (JStr ''sans''); color = jget_def kvs ''color'' (JStr ''#111111'') in
            if font \<notin> set TEXT_FONTS then Inl BadFont
            else (case color of
                JStr c \<Rightarrow> if hex_color c then Inr (pt, font, color) else Inl BadColor
              | _ \<Rightarrow> Inl BadColor))"

definition check_text :: "engine \<Rightarrow> json \<Rightarrow> draft_error + string" where
  "check_text eng j =
     (case j of
        JStr t0 \<Rightarrow>
          if py_strip t0 = [] then Inl EmptyText
          else let t = norm_newlines t0 in
            if TEXT_MAX_LEN < length t then Inl TextTooLong
            else if TEXT_MAX_LINES < length (filter (\<lambda>c. c = CHR 0x0A) t) + 1 then Inl TooManyLines
            else if list_ex (is_control [CHR 0x0A, CHR 0x09]) t then Inl ControlChars
            else if en_unsupported eng t \<noteq> [] then Inl (Unsupported (en_unsupported eng t))
            else Inr t
      | _ \<Rightarrow> Inl EmptyText)"

definition check_item :: "engine \<Rightarrow> int \<Rightarrow> json \<Rightarrow> draft_error + json" where
  "check_item eng n it =
     (case it of
        JObj kvs \<Rightarrow>
          (case try_bind (jint (jget kvs ''page'')) (\<lambda>p. try_bind (jfloat_at eng kvs ''x'') (\<lambda>x.
                 try_bind (jfloat_at eng kvs ''y'') (\<lambda>y. Inr (p, x, y)))) of
             Inl _ \<Rightarrow> Inl BadItem
           | Inr (page, x, y) \<Rightarrow>
               if \<not> (0 \<le> page \<and> page < n) then Inl BadPage
               else if \<not> (0 \<le> x \<and> x < 1 \<and> 0 \<le> y \<and> y < 1) then Inl BadCoords
               else (case check_text eng (jget kvs ''text'') of
                   Inl e \<Rightarrow> Inl e
                 | Inr t \<Rightarrow> (case check_style eng kvs of
                       Inl e \<Rightarrow> Inl e
                     | Inr (pt, font, color) \<Rightarrow>
                         Inr (JObj [(''kind'', JStr ''text''), (''page'', JInt page), (''x'', JFloat x),
                           (''y'', JFloat y), (''text'', JStr t), (''size'', JFloat pt), (''font'', font),
                           (''color'', color)]))))
      | _ \<Rightarrow> Inl BadItem)"

definition add_texts :: "engine \<Rightarrow> time \<Rightarrow> int \<Rightarrow> json \<Rightarrow> world \<Rightarrow> page_result \<times> world" where
  "add_texts eng now aid items w =
     (case draft_source w aid of
        Inl e \<Rightarrow> (PageErr e None, w)
      | Inr _ \<Rightarrow>
          if json_list items = [] then (PageErr NoItems None, w)
          else if TEXT_MAX_ITEMS < length (json_list items) then (PageErr TooManyItems None, w)
          else with_source eng aid (\<lambda>a data n w.
            case check_each (check_item eng n) (json_list items) of
              Inl e \<Rightarrow> (PageErr e None, w)
            | Inr edits \<Rightarrow> (case en_apply_edits eng data edits of
                  Inl (PyExc ValueError msg) \<Rightarrow> (PageErr (EngineError msg) None, w)
                | Inl _ \<Rightarrow> (PageRaise, w)
                | Inr new \<Rightarrow> rewrite_source eng now a new (\<lambda>w. w) ''text_added''
                    (''added '' @ py_str (int (length edits)) @ '' text block(s)'') w)) w)"

section \<open>Editing text in place\<close>

definition check_bbox :: "engine \<Rightarrow> json \<Rightarrow> (real \<times> real \<times> real \<times> real) option" where
  "check_bbox eng j =
     (case j of
        JObj bb \<Rightarrow> (case float4 eng bb of
            Inl _ \<Rightarrow> None
          | Inr (bx, by, bw, bh) \<Rightarrow>
              (let x1 = bx + bw; y1 = by + bh in
               if 0 \<le> bx \<and> bx < x1 \<and> x1 \<le> 10001 / 10000 \<and> 0 \<le> by \<and> by < y1 \<and> y1 \<le> 10001 / 10000
               then Some (bx, by, x1, y1) else None))
      | _ \<Rightarrow> None)"

definition check_run_text :: "engine \<Rightarrow> json \<Rightarrow> draft_error + string" where
  "check_run_text eng j =
     (case j of
        JStr t0 \<Rightarrow>
          if py_strip t0 = [] then Inl EmptyText
          else let t = norm_newlines t0 in
            if TEXT_MAX_LEN < length t then Inl TextTooLong
            else if CHR 0x0A \<in> set t then Inl BadText
            else if list_ex (is_control [CHR 0x09]) t then Inl BadText
            else if en_unsupported eng t \<noteq> [] then Inl (Unsupported (en_unsupported eng t))
            else Inr t
      | _ \<Rightarrow> Inl EmptyText)"

text \<open>An optional member: absent and null are the same.\<close>

definition optional_size :: "engine \<Rightarrow> json \<Rightarrow> draft_error + (string \<times> json) list" where
  "optional_size eng j =
     (if j = JNull then Inr []
      else case jfloat (en_parse_float eng) j of
        Inl _ \<Rightarrow> Inl BadSize
      | Inr pt \<Rightarrow> if 6 \<le> pt \<and> pt \<le> 96 then Inr [(''size'', JFloat pt)] else Inl BadSize)"

definition optional_color :: "json \<Rightarrow> draft_error + (string \<times> json) list" where
  "optional_color j =
     (case j of JNull \<Rightarrow> Inr []
      | JStr c \<Rightarrow> if hex_color c then Inr [(''color'', j)] else Inl BadColor
      | _ \<Rightarrow> Inl BadColor)"

definition check_run :: "engine \<Rightarrow> int \<Rightarrow> nat \<times> json \<Rightarrow> (draft_error \<times> nat) + int \<times> json" where
  "check_run eng n it =
     (case it of (idx, JObj kvs) \<Rightarrow>
        (case jint (jget kvs ''page'') of
           Inl _ \<Rightarrow> Inl (BadItem, idx)
         | Inr page \<Rightarrow>
             if \<not> (0 \<le> page \<and> page < n) then Inl (BadPage, idx)
             else case check_bbox eng (jget kvs ''bbox'') of
               None \<Rightarrow> Inl (BadBbox, idx)
             | Some (x0, y0, x1, y1) \<Rightarrow> (case check_run_text eng (jget kvs ''text'') of
                 Inl e \<Rightarrow> Inl (e, idx)
               | Inr t \<Rightarrow> (case optional_size eng (jget kvs ''size'') of
                   Inl e \<Rightarrow> Inl (e, idx)
                 | Inr sz \<Rightarrow> (case optional_color (jget kvs ''color'') of
                     Inl e \<Rightarrow> Inl (e, idx)
                   | Inr cl \<Rightarrow>
                       Inr (page, JObj ([(''idx'', JInt (int idx)), (''page'', JInt page),
                         (''bbox'', JList [JFloat x0, JFloat y0, JFloat x1, JFloat y1]),
                         (''text'', JStr t)] @ sz @ cl))))))
      | (idx, _) \<Rightarrow> Inl (BadItem, idx))"

definition note_edited_pages :: "int \<Rightarrow> int list \<Rightarrow> world \<Rightarrow> world" where
  "note_edited_pages aid pages w =
     upd_agr aid (\<lambda>r. r\<lparr>a_edited_pages :=
       render_pages (sort (remdups (parse_pages (a_edited_pages r) @ pages)))\<rparr>) w"

definition edit_texts :: "engine \<Rightarrow> time \<Rightarrow> int \<Rightarrow> json \<Rightarrow> world \<Rightarrow> page_result \<times> world" where
  "edit_texts eng now aid items w =
     (case draft_source w aid of
        Inl e \<Rightarrow> (PageErr e None, w)
      | Inr _ \<Rightarrow>
          if json_list items = [] then (PageErr NoItems None, w)
          else if TEXT_MAX_ITEMS < length (json_list items) then (PageErr TooManyItems None, w)
          else with_source eng aid (\<lambda>a data n w.
            case check_each (check_run eng n) (enumerate 0 (json_list items)) of
              Inl (e, idx) \<Rightarrow> (PageErr e (Some (int idx)), w)
            | Inr edits \<Rightarrow> (case en_replace_runs eng data (map snd edits) of
                  Inl (EditError code i) \<Rightarrow> (PageErr (EngineError code) (Some i), w)
                | Inl (PyExc ValueError msg) \<Rightarrow> (PageErr (EngineError msg) None, w)
                | Inl _ \<Rightarrow> (PageRaise, w)
                | Inr new \<Rightarrow> rewrite_source eng now a new (note_edited_pages aid (map fst edits)) ''text_edited''
                    (''edited '' @ py_str (int (length edits)) @ '' run(s)'') w)) w)"

section \<open>Signers and fields\<close>

definition AUTH_METHODS :: "string list" where
  "AUTH_METHODS = [''email'', ''email_otp'', ''access_code'']"

definition SIGNER_COLORS :: "string list" where
  "SIGNER_COLORS = [''#7c6cff'', ''#22c55e'', ''#f59e0b'', ''#ec4899'', ''#06b6d4'', ''#ef4444'']"

text \<open>
  Binding a JSON value to a column. A TEXT column stores the text of a number; NULL reads like the
  empty text. An INTEGER column stores an integer, converts text that spells one, and keeps any
  other text, which equals no id and is \<open>None\<close> here. Lists and objects cannot be bound.
\<close>

definition db_text :: "engine \<Rightarrow> json \<Rightarrow> py_exc + string" where
  "db_text eng j =
     (case j of JNull \<Rightarrow> Inr [] | JStr s \<Rightarrow> Inr s | JBool b \<Rightarrow> Inr (if b then ''1'' else ''0'')
      | JInt i \<Rightarrow> if int64 i then Inr (py_str i) else Inl OtherError
      | JFloat x \<Rightarrow> Inr (en_str eng j) | _ \<Rightarrow> Inl OtherError)"

definition sqlite_int :: "string \<Rightarrow> int option" where
  "sqlite_int s =
     (if CHR ''_'' \<in> set s then None
      else case py_int s of None \<Rightarrow> None | Some i \<Rightarrow> if int64 i then Some i else None)"

definition db_int :: "json \<Rightarrow> py_exc + int option" where
  "db_int j =
     (case j of JNull \<Rightarrow> Inr None | JBool b \<Rightarrow> Inr (Some (if b then 1 else 0))
      | JInt i \<Rightarrow> if int64 i then Inr (Some i) else Inl OtherError
      | JFloat x \<Rightarrow> Inr (if of_int \<lfloor>x\<rfloor> = x then Some \<lfloor>x\<rfloor> else None)
      | JStr s \<Rightarrow> Inr (sqlite_int s) | _ \<Rightarrow> Inl OtherError)"

definition bind_int :: "py_exc + int \<Rightarrow> py_exc + int" where
  "bind_int r = try_bind r (\<lambda>i. if int64 i then Inr i else Inl OtherError)"

text \<open>\<open>(v or d).strip().lower()\<close>: only a string has these methods.\<close>

definition strip_lower_or :: "json \<Rightarrow> string \<Rightarrow> py_exc + string" where
  "strip_lower_or j d =
     (if \<not> truthy j then Inr (py_lower (py_strip d))
      else case j of JStr s \<Rightarrow> Inr (py_lower (py_strip s)) | _ \<Rightarrow> Inl AttributeError)"

definition signer_of_dict :: "engine \<Rightarrow> int \<Rightarrow> nat \<Rightarrow> int \<Rightarrow> (string \<times> json) list \<Rightarrow> py_exc + signer" where
  "signer_of_dict eng aid i sid d =
     try_bind (strip_lower_or (jget d ''auth'') ''email'') (\<lambda>auth.
     try_bind (db_text eng (jget_def d ''name'' (JStr []))) (\<lambda>name.
     try_bind (strip_lower_or (jget d ''email'') []) (\<lambda>email.
     try_bind (db_text eng (jget_def d ''role'' (JStr ''signer''))) (\<lambda>role.
     try_bind (bind_int (jint (jget_def d ''order'' (JInt (int i + 1))))) (\<lambda>order.
       Inr \<lparr>s_id = sid, s_agr = aid, s_name = name, s_email = email, s_role = role, s_order = order,
            s_color = SIGNER_COLORS ! (i mod length SIGNER_COLORS), s_token = None, s_status = Pending,
            s_viewed_at = None, s_signed_at = None, s_ip = [], s_ua = [], s_consent = False,
            s_signature_id = [], s_is_consumer = truthy (jget d ''is_consumer''),
            s_auth_method = (if auth \<in> set AUTH_METHODS then auth else ''email''),
            s_consent_at = None, s_consent_ip = [], s_disclosure_version = [], s_disclosure_hash = [],
            s_access_demonstrated = False, s_access_method = [], s_withdrawn_at = None,
            s_challenge_type = ''none'', s_challenge_prompt = [], s_challenge_salt = [],
            s_challenge_hash = [], s_challenge_iters = 0, s_challenge_passed_at = None,
            s_env_method = [], s_env_at = None, s_env_email = [], s_otp_at = None\<rparr>)))))"

fun signers_of_dicts ::
  "engine \<Rightarrow> int \<Rightarrow> nat \<Rightarrow> int \<Rightarrow> (string \<times> json) list list \<Rightarrow> py_exc + signer list" where
  "signers_of_dicts eng aid i sid [] = Inr []"
| "signers_of_dicts eng aid i sid (d # ds) =
     try_bind (signer_of_dict eng aid i sid d) (\<lambda>s.
     try_bind (signers_of_dicts eng aid (Suc i) (sid + 1) ds) (\<lambda>ss. Inr (s # ss)))"

datatype 'a set_result = SetLocked | SetRaise | SetOk 'a

text \<open>\<open>set_signers\<close>: replace all, in one transaction that an exception rolls back.\<close>

definition locked :: "world \<Rightarrow> int \<Rightarrow> bool" where
  "locked w aid =
     (case get_agreement w aid of None \<Rightarrow> False | Some v \<Rightarrow> a_status (v_row v) \<notin> {Draft, NoStatus})"

definition set_signers ::
  "engine \<Rightarrow> int \<Rightarrow> (string \<times> json) list list \<Rightarrow> world \<Rightarrow> signer list set_result \<times> world" where
  "set_signers eng aid dicts w =
     (if locked w aid then (SetLocked, w)
      else case signers_of_dicts eng aid 0 (next_sig w) dicts of
        Inl _ \<Rightarrow> (SetRaise, w)
      | Inr ss \<Rightarrow>
          (let w1 = w\<lparr>signer_rows := del_where (\<lambda>s. s_agr s = aid) (signer_rows w) @ ss,
                      next_sig := next_sig w + int (length ss)\<rparr>
           in (SetOk (agr_signers w1 aid), w1)))"

definition update_message :: "int \<Rightarrow> string \<Rightarrow> world \<Rightarrow> world" where
  "update_message aid msg w = upd_agr aid (\<lambda>a. a\<lparr>a_message := msg\<rparr>) w"

text \<open>\<open>str(f.get("value", "") or f.get("default", "") or "")\<close>.\<close>

definition value_text :: "engine \<Rightarrow> (string \<times> json) list \<Rightarrow> string" where
  "value_text eng d =
     str_or_empty eng (if truthy (jget d ''value'') then jget d ''value'' else jget d ''default'')"

definition field_of_dict :: "engine \<Rightarrow> int \<Rightarrow> int \<Rightarrow> (string \<times> json) list \<Rightarrow> py_exc + field" where
  "field_of_dict eng aid fid d =
     try_bind (db_int (jget d ''signer_id'')) (\<lambda>sid.
     try_bind (db_text eng (jget_def d ''type'' (JStr ''text''))) (\<lambda>ty.
     try_bind (bind_int (jint (jget_def d ''page'' (JInt 0)))) (\<lambda>page.
     try_bind (jfloat (en_parse_float eng) (jget_def d ''x'' (JInt 0))) (\<lambda>x.
     try_bind (jfloat (en_parse_float eng) (jget_def d ''y'' (JInt 0))) (\<lambda>y.
     try_bind (jfloat (en_parse_float eng) (jget_def d ''w'' (JInt 0))) (\<lambda>bw.
     try_bind (jfloat (en_parse_float eng) (jget_def d ''h'' (JInt 0))) (\<lambda>bh.
     try_bind (db_text eng (jget_def d ''placeholder'' (JStr []))) (\<lambda>ph.
       Inr \<lparr>f_id = fid, f_agr = aid, f_signer = sid, f_type = ty, f_page = page, f_x = x, f_y = y,
            f_w = bw, f_h = bh, f_required = truthy (jget_def d ''required'' (JBool True)),
            f_value = value_text eng d, f_placeholder = ph, f_prefill = truthy (jget d ''prefill''),
            f_prompt = str_or_empty eng (jget d ''prompt''), f_key = str_or_empty eng (jget d ''field_key''),
            f_adopted_at = JNull, f_method = []\<rparr>))))))))"

fun fields_of_dicts :: "engine \<Rightarrow> int \<Rightarrow> int \<Rightarrow> (string \<times> json) list list \<Rightarrow> py_exc + field list" where
  "fields_of_dicts eng aid fid [] = Inr []"
| "fields_of_dicts eng aid fid (d # ds) =
     try_bind (field_of_dict eng aid fid d) (\<lambda>f.
     try_bind (fields_of_dicts eng aid (fid + 1) ds) (\<lambda>fs. Inr (f # fs)))"

definition set_fields :: "engine \<Rightarrow> int \<Rightarrow> (string \<times> json) list list \<Rightarrow> world \<Rightarrow> nat set_result \<times> world" where
  "set_fields eng aid dicts w =
     (if locked w aid then (SetLocked, w)
      else case fields_of_dicts eng aid (next_fld w) dicts of
        Inl _ \<Rightarrow> (SetRaise, w)
      | Inr fs \<Rightarrow>
          (let w1 = w\<lparr>field_rows := del_where (\<lambda>f. f_agr f = aid) (field_rows w) @ fs,
                      next_fld := next_fld w + int (length fs)\<rparr>
           in (SetOk (length (agr_fields w1 aid)), w1)))"

section \<open>Deleting\<close>

definition drop_children :: "(int \<Rightarrow> bool) \<Rightarrow> world \<Rightarrow> world" where
  "drop_children P w =
     w\<lparr>event_rows := del_where (\<lambda>e. P (e_agr e)) (event_rows w),
       field_rows := del_where (\<lambda>f. P (f_agr f)) (field_rows w),
       signer_rows := del_where (\<lambda>s. P (s_agr s)) (signer_rows w),
       agreement_rows := del_where (\<lambda>a. P (a_id a)) (agreement_rows w)\<rparr>"

definition delete_agreements_for_owner :: "int \<Rightarrow> world \<Rightarrow> nat \<times> world" where
  "delete_agreements_for_owner owner w =
     (if owner = 0 then (0, w)
      else let ids = map a_id (owned_rows w owner) in
        if ids = [] then (0, w) else (length ids, drop_children (\<lambda>i. i \<in> set ids) w))"

definition unlink :: "string \<Rightarrow> world \<Rightarrow> world" where
  "unlink p w = (if p = [] then w else w\<lparr>files := (files w)(p := None)\<rparr>)"

datatype owned_result = OwnedNotFound | OwnedLocked | OwnedOk

definition delete_draft_owned :: "int \<Rightarrow> int \<Rightarrow> world \<Rightarrow> owned_result \<times> world" where
  "delete_draft_owned aid owner w =
     (case get_agreement_owned w aid owner of
        None \<Rightarrow> (OwnedNotFound, w)
      | Some v \<Rightarrow> (let a = v_row v in
          if a_status a \<notin> {Draft, NoStatus} then (OwnedLocked, w)
          else (OwnedOk, drop_children (\<lambda>i. i = aid)
                  (unlink (a_executed_path a) (unlink (a_frozen_path a) (unlink (a_source_path a) w))))))"

definition set_order_mode_owned :: "int \<Rightarrow> int \<Rightarrow> string \<Rightarrow> world \<Rightarrow> draft_error option \<times> world" where
  "set_order_mode_owned aid owner mode w =
     (if mode \<notin> {''sequential'', ''parallel''} then (Some BadMode, w)
      else case get_agreement_owned w aid owner of
        None \<Rightarrow> (Some NotFound, w)
      | Some v \<Rightarrow>
          if a_status (v_row v) \<notin> {Draft, NoStatus} then (Some Locked, w)
          else (None, upd_agr aid (\<lambda>a. a\<lparr>a_order_mode := mode\<rparr>) w))"

section \<open>The gate\<close>

definition drafting :: "world \<Rightarrow> int \<Rightarrow> bool" where
  "drafting w aid = (\<exists>a. agr_row w aid = Some a \<and> a_status a \<in> {Draft, NoStatus})"

lemma draft_source_Inr:
  "draft_source w aid = Inr a \<longleftrightarrow>
     agr_row w aid = Some a \<and> a_source_path a \<noteq> [] \<and> a_status a \<in> {Draft, NoStatus}"
  by (auto simp: draft_source_def get_agreement_view split: option.splits)

lemma draft_source_sent:
  "agr_row w aid = Some a \<Longrightarrow> a_status a \<notin> {Draft, NoStatus} \<Longrightarrow> \<exists>e. draft_source w aid = Inl e"
  by (simp add: draft_source_def get_agreement_view)

lemma with_source_sent:
  "draft_source w aid = Inl e \<Longrightarrow> with_source eng aid k w = (PageErr e None, w)"
  by (simp add: with_source_def)



section \<open>The common commit\<close>

lemma map_fields_simps [simp]:
  "agreement_rows (map_fields P f w) = agreement_rows w"
  "signer_rows (map_fields P f w) = signer_rows w"
  "event_rows (map_fields P f w) = event_rows w"
  "files (map_fields P f w) = files w"
  "field_rows (map_fields P f w) = upd_where P f (field_rows w)"
  by (simp_all add: map_fields_def)

lemma remap_edited_frame [simp]:
  "field_rows (remap_edited_pages aid m w) = field_rows w"
  "signer_rows (remap_edited_pages aid m w) = signer_rows w"
  "files (remap_edited_pages aid m w) = files w"
  by (simp_all add: remap_edited_pages_def split: option.splits)

lemma delete_remap_frame [simp]:
  "signer_rows (delete_remap aid p w) = signer_rows w"
  "files (delete_remap aid p w) = files w"
  by (simp_all add: delete_remap_def)

lemma delete_remap_fields:
  "field_rows (delete_remap aid p w) =
     map (\<lambda>f. if f_agr f = aid \<and> f_page f > p then f\<lparr>f_page := f_page f - 1\<rparr> else f)
       (filter (\<lambda>f. \<not> (f_agr f = aid \<and> f_page f = p)) (field_rows w))"
  by (simp add: delete_remap_def upd_where_def del_where_def)

lemma reorder_fold_frame:
  "agreement_rows (fold (\<lambda>(old, k). map_fields (P old k) (g old k)) d w) = agreement_rows w \<and>
   signer_rows (fold (\<lambda>(old, k). map_fields (P old k) (g old k)) d w) = signer_rows w \<and>
   files (fold (\<lambda>(old, k). map_fields (P old k) (g old k)) d w) = files w"
  by (induction d arbitrary: w) (auto split: prod.splits)

lemma reorder_remap_frame [simp]:
  "signer_rows (reorder_remap aid order w) = signer_rows w"
  "files (reorder_remap aid order w) = files w"
  by (simp_all add: reorder_remap_def reorder_fold_frame)

lemma rewrite_source_ok:
  assumes "rewrite_source eng now a new remap kind detail w = (PageOk n h fs, w')"
    and "\<And>w. files (remap w) = files w"
  shows "n = (case page_count (en_pk eng) new of Inr m \<Rightarrow> m | Inl _ \<Rightarrow> 0) \<and>
    files w' = (files w)(a_source_path a \<mapsto> new) \<and>
    field_rows w' = field_rows (remap (upd_agr (a_id a) (\<lambda>r. r\<lparr>a_doc_hash := en_sha256 eng new\<rparr>)
       (write_file (a_source_path a) new w))) \<and>
    agreement_rows w' = agreement_rows (remap (upd_agr (a_id a) (\<lambda>r. r\<lparr>a_doc_hash := en_sha256 eng new\<rparr>)
       (write_file (a_source_path a) new w))) \<and>
    h = en_sha256 eng new"
  using assms by (auto simp: rewrite_source_def Let_def write_file_def split: sum.splits)

section \<open>Rotation\<close>

text \<open>The area a field covers on its page, and the clockwise turn of a point of the unit page.\<close>

definition in_page :: "field \<Rightarrow> bool" where
  "in_page f = (0 \<le> f_x f \<and> 0 \<le> f_y f \<and> 0 \<le> f_w f \<and> 0 \<le> f_h f \<and> f_x f + f_w f \<le> 1 \<and> f_y f + f_h f \<le> 1)"

definition in_box :: "real \<Rightarrow> real \<Rightarrow> field \<Rightarrow> bool" where
  "in_box px py f = (f_x f \<le> px \<and> px \<le> f_x f + f_w f \<and> f_y f \<le> py \<and> py \<le> f_y f + f_h f)"

definition turn :: "int \<Rightarrow> real \<times> real \<Rightarrow> real \<times> real" where
  "turn deg p = (case p of (px, py) \<Rightarrow>
     if deg = 90 then (1 - py, px) else if deg = 180 then (1 - px, 1 - py) else (py, 1 - px))"

text \<open>Rotating a page moves its fields with it: the box after the rotation covers exactly the images of
  the points it covered before, a box inside the page stays inside, and a turn followed by the turn
  back is the identity.\<close>

theorem rotation_moves_box:
  assumes "deg \<in> {90, 180, 270}"
  shows "(in_box px py f \<longleftrightarrow> in_box (fst (turn deg (px, py))) (snd (turn deg (px, py))) (rotate_box deg f)) \<and>
    (in_page f \<longrightarrow> in_page (rotate_box deg f)) \<and>
    rotate_box (360 - deg) (rotate_box deg f) = f"
  using assms by (auto simp: in_box_def in_page_def turn_def rotate_box_def Let_def)

lemma rotation_moves_box_witness:
  "rotate_box 270 (rotate_box 90 blank_field) = blank_field"
  using rotation_moves_box [of 90 0 0 blank_field] by simp

section \<open>Fields follow their page\<close>

lemma with_source_ok:
  assumes "with_source eng aid k w = (PageOk n h fs, w')"
  obtains a data m where "agr_row w aid = Some a" and "a_status a \<in> {Draft, NoStatus}"
    and "source_bytes w a = Some data" and "page_count (en_pk eng) data = Inr m"
    and "k a data m w = (PageOk n h fs, w')"
  using assms
  by (auto simp: with_source_def draft_source_Inr split: sum.splits option.splits)

lemma page_count_open: "page_count pk data = Inr m \<longleftrightarrow> (\<exists>ps. pdf_open pk data = Inr ps \<and> m = int (length ps))"
  by (cases "pdf_open pk data") (auto simp: page_count_def)

lemma delete_page_ok:
  assumes "delete_page eng now aid (JInt p) w = (PageOk n h fs, w')"
  obtains a data ps new where "agr_row w aid = Some a" and "source_bytes w a = Some data"
    and "pdf_open (en_pk eng) data = Inr ps" and "0 \<le> p" and "p < int (length ps)" and "1 < length ps"
    and "delete_pages (en_pk eng) data [p] = Inr new"
    and "rewrite_source eng now a new (delete_remap aid p) ''pages_delete'' (''deleted page '' @ py_str (p + 1)) w
           = (PageOk n h fs, w')"
  using assms unfolding delete_page_def
  by (elim with_source_ok) (auto simp: page_count_open split: if_splits sum.splits)

text \<open>Deleting a page keeps every field on its content: the fields of the deleted page are gone, every
  other field of the agreement stands on the page that shows what its page showed before, with its
  box unchanged, the fields of other agreements are untouched, and the stored source is the old
  document without that page.\<close>

theorem delete_page_fields:
  assumes "pk_faithful (en_pk eng)" and "agr_row w aid = Some a" and "source_bytes w a = Some data"
    and "pdf_open (en_pk eng) data = Inr ps"
    and "delete_page eng now aid (JInt p) w = (PageOk n h fs, w')"
  shows "\<exists>new qs. files w' (a_source_path a) = Some new \<and> h = en_sha256 eng new \<and>
    pdf_open (en_pk eng) new = Inr qs \<and> qs = take (nat p) ps @ drop (nat p + 1) ps \<and> n = int (length qs) \<and>
    (\<forall>f \<in> set (field_rows w). f_agr f \<noteq> aid \<longrightarrow> f \<in> set (field_rows w')) \<and>
    (\<forall>f \<in> set (field_rows w). f_agr f = aid \<and> f_page f \<noteq> p \<and> 0 \<le> f_page f \<and> f_page f < int (length ps) \<longrightarrow>
       (\<exists>j. f\<lparr>f_page := j\<rparr> \<in> set (field_rows w') \<and> 0 \<le> j \<and> j < n \<and> qs ! nat j = ps ! nat (f_page f))) \<and>
    length (filter (\<lambda>f. f_agr f = aid) (field_rows w')) =
      length (filter (\<lambda>f. f_agr f = aid \<and> f_page f \<noteq> p) (field_rows w))"
proof -
  obtain new where p: "0 \<le> p" "p < int (length ps)" "1 < length ps"
    and del: "delete_pages (en_pk eng) data [p] = Inr new"
    and rw: "rewrite_source eng now a new (delete_remap aid p) ''pages_delete'' (''deleted page '' @ py_str (p + 1)) w
           = (PageOk n h fs, w')"
    by (rule delete_page_ok [OF assms(5)]) (use assms(2-4) that in simp)
  let ?qs = "take (nat p) ps @ drop (nat p + 1) ps"
  have open_new: "pdf_open (en_pk eng) new = Inr ?qs"
    using delete_one [OF assms(1,4) p] del by auto
  note ok = rewrite_source_ok [OF rw delete_remap_frame(2)]
  have n: "n = int (length ?qs)" using ok open_new by (simp add: page_count_def)
  have fields: "field_rows w' =
     map (\<lambda>f. if f_agr f = aid \<and> f_page f > p then f\<lparr>f_page := f_page f - 1\<rparr> else f)
       (filter (\<lambda>f. \<not> (f_agr f = aid \<and> f_page f = p)) (field_rows w))"
    using ok by (simp add: delete_remap_fields)
  have other: "f \<in> set (field_rows w')" if "f \<in> set (field_rows w)" "f_agr f \<noteq> aid" for f
    using that by (force simp: fields)
  have follow: "\<exists>j. f\<lparr>f_page := j\<rparr> \<in> set (field_rows w') \<and> 0 \<le> j \<and> j < n \<and> ?qs ! nat j = ps ! nat (f_page f)"
    if f: "f \<in> set (field_rows w)" "f_agr f = aid" "f_page f \<noteq> p" "0 \<le> f_page f" "f_page f < int (length ps)" for f
  proof (cases "f_page f > p")
    case True
    have "f\<lparr>f_page := f_page f - 1\<rparr> \<in> set (field_rows w')"
      using f True by (force simp: fields)
    moreover have "?qs ! nat (f_page f - 1) = ps ! nat (f_page f)"
      using True f p by (auto simp: nth_append min_def nat_diff_distrib intro!: arg_cong [where f = "\<lambda>i. ps ! i"])
    ultimately show ?thesis using True f p n by (intro exI [of _ "f_page f - 1"]) auto
  next
    case False
    then have "f\<lparr>f_page := f_page f\<rparr> \<in> set (field_rows w')"
      using f by (force simp: fields)
    moreover have "?qs ! nat (f_page f) = ps ! nat (f_page f)"
      using False f p by (auto simp: nth_append)
    ultimately show ?thesis using False f p n by (intro exI [of _ "f_page f"]) auto
  qed
  have agr: "f_agr (if f_agr f = aid \<and> f_page f > p then f\<lparr>f_page := f_page f - 1\<rparr> else f) = f_agr f" for f
    by simp
  have "filter (\<lambda>f. f_agr f = aid) (field_rows w') =
      map (\<lambda>f. if f_agr f = aid \<and> f_page f > p then f\<lparr>f_page := f_page f - 1\<rparr> else f)
        (filter (\<lambda>f. f_agr f = aid \<and> f_page f \<noteq> p) (field_rows w))"
    by (simp add: fields filter_map comp_def agr filter_filter) (metis (mono_tags, lifting))
  then show ?thesis using open_new n ok other follow by (intro exI [of _ new] exI [of _ ?qs]) auto
qed

definition sample_pages :: "pdf_page list" where
  "sample_pages = [\<lparr>pg_body = ''a'', pg_rotate = 0\<rparr>, \<lparr>pg_body = ''b'', pg_rotate = 90\<rparr>]"

definition draft_world :: world where
  "draft_world = sample_world\<lparr>field_rows := [blank_field\<lparr>f_page := 1\<rparr>],
     files := (\<lambda>p. if p = source_path 1 then Some (pk_save ref_pikepdf sample_pages) else None)\<rparr>"

lemma draft_world_facts:
  "agr_row draft_world 1 = Some blank_agreement"
  "source_bytes draft_world blank_agreement = Some (pk_save ref_pikepdf sample_pages)"
  "pdf_open (en_pk ref_engine) (pk_save ref_pikepdf sample_pages) = Inr sample_pages"
  "pk_faithful (en_pk ref_engine)"
  using ref_pikepdf_faithful
  by (simp_all add: draft_world_def agr_row_def source_bytes_def sample_defs ref_engine_def pdf_open_def
      pk_faithful_def)

lemma delete_page_fields_witness:
  "\<exists>n h fs w'. delete_page ref_engine 40 1 (JInt 0) draft_world = (PageOk n h fs, w') \<and>
     (\<exists>j. blank_field\<lparr>f_page := j\<rparr> \<in> set (field_rows w') \<and> 0 \<le> j \<and> j < n)"
proof -
  have "(case fst (delete_page ref_engine 40 1 (JInt 0) draft_world) of PageOk _ _ _ \<Rightarrow> True | _ \<Rightarrow> False)"
    by code_simp
  then obtain n h fs w' where f: "delete_page ref_engine 40 1 (JInt 0) draft_world = (PageOk n h fs, w')"
    by (cases "delete_page ref_engine 40 1 (JInt 0) draft_world") (auto split: page_result.splits)
  have "field_rows draft_world = [blank_field\<lparr>f_page := 1\<rparr>]" "f_agr blank_field = 1" "length sample_pages = 2"
    by (simp_all add: draft_world_def blank_field_def sample_pages_def)
  then have "\<exists>j. blank_field\<lparr>f_page := j\<rparr> \<in> set (field_rows w') \<and> 0 \<le> j \<and> j < n"
    using delete_page_fields [OF draft_world_facts(4,1,2,3) f] by auto
  with f show ?thesis by blast
qed

lemma dict_set_new: "k \<notin> fst ` set d \<Longrightarrow> dict_set k v d = d @ [(k, v)]"
  by (induction k v d rule: dict_set.induct) auto

lemma dict_build:
  "distinct (map snd xs) \<Longrightarrow> fst ` set d \<inter> snd ` set xs = {} \<Longrightarrow>
   fold (\<lambda>(k, old) d. dict_set old (int k) d) xs d = d @ map (\<lambda>(k, old). (old, int k)) xs"
proof (induction xs arbitrary: d)
  case (Cons x xs)
  obtain k old where x: "x = (k, old)" by (cases x)
  have "dict_set old (int k) d = d @ [(old, int k)]"
    using Cons.prems(2) x by (intro dict_set_new) auto
  with Cons x show ?case by auto
qed simp

lemma new_of_old_eq:
  "distinct order \<Longrightarrow> new_of_old order = map (\<lambda>(k, old). (old, int k)) (enumerate 0 order)"
  by (simp add: new_of_old_def dict_build)

lemma new_of_old_map:
  assumes "distinct order"
  shows "map_of (new_of_old order) old = Some k \<longleftrightarrow> 0 \<le> k \<and> nat k < length order \<and> order ! nat k = old"
proof -
  have d: "distinct (map fst (new_of_old order))"
    by (simp add: new_of_old_eq assms comp_def split_beta)
  have "map_of (new_of_old order) old = Some k \<longleftrightarrow> (old, k) \<in> set (new_of_old order)"
    using d by simp
  also have "\<dots> \<longleftrightarrow> 0 \<le> k \<and> nat k < length order \<and> order ! nat k = old"
    by (auto simp: new_of_old_eq assms in_set_enumerate_eq image_iff split_beta
        intro!: bexI [of _ "(nat k, old)"])
  finally show ?thesis .
qed

text \<open>The first phase of the reordering moves each field once: a moved page is at least 100000, above
  every page the later updates look for.\<close>

lemma reorder_first_phase:
  assumes "distinct (map fst d)" and "\<forall>(old, k) \<in> set d. old < 100000 \<and> 0 \<le> k"
  shows "field_rows (fold (\<lambda>(old, k). map_fields (\<lambda>f. f_agr f = aid \<and> f_page f = old) (\<lambda>f. f\<lparr>f_page := k + 100000\<rparr>)) d w) =
    map (\<lambda>f. if f_agr f = aid then (case map_of d (f_page f) of Some k \<Rightarrow> f\<lparr>f_page := k + 100000\<rparr> | None \<Rightarrow> f) else f)
      (field_rows w)"
  using assms
proof (induction d arbitrary: w)
  case Nil
  then show ?case by (simp cong: if_cong)
next
  case (Cons x d)
  obtain old k where x: "x = (old, k)" by (cases x)
  have none: "map_of d (k + 100000) = None" "map_of d old = None"
    using Cons.prems x by (force simp: map_of_eq_None_iff)+
  have fin: "(if f_agr g = aid then (case map_of d (f_page g) of Some k \<Rightarrow> g\<lparr>f_page := k + 100000\<rparr> | None \<Rightarrow> g) else g)
      = (if f_agr f = aid then (case map_of (x # d) (f_page f) of Some k \<Rightarrow> f\<lparr>f_page := k + 100000\<rparr> | None \<Rightarrow> f) else f)"
    if "g = (if f_agr f = aid \<and> f_page f = old then f\<lparr>f_page := k + 100000\<rparr> else f)" for f g
    using that none by (auto simp: x)
  show ?case
    using Cons.IH [of "map_fields (\<lambda>f. f_agr f = aid \<and> f_page f = old) (\<lambda>f. f\<lparr>f_page := k + 100000\<rparr>) w"] Cons.prems
    by (simp add: x upd_where_def fin [unfolded x] comp_def)
qed

lemma reorder_remap_fields:
  assumes "is_page_perm order n" and "n \<le> 100000"
  shows "field_rows (reorder_remap aid order w) =
    map (\<lambda>f. if f_agr f = aid then (case map_of (new_of_old order) (f_page f) of
              Some k \<Rightarrow> f\<lparr>f_page := k\<rparr>
            | None \<Rightarrow> if f_page f \<ge> 100000 then f\<lparr>f_page := f_page f - 100000\<rparr> else f) else f)
      (field_rows w)"
proof -
  have dist: "distinct order" by (rule page_perm_distinct [OF assms(1)])
  have ran: "map_of (new_of_old order) old = Some k \<Longrightarrow> old < 100000 \<and> 0 \<le> k" for old k
    using new_of_old_map [OF dist, of old k] page_perm_set [OF assms(1)] assms(2) nth_mem [of "nat k" order]
    by auto
  have d: "distinct (map fst (new_of_old order))"
    by (simp add: new_of_old_eq dist comp_def split_beta)
  have all: "\<forall>(old, k) \<in> set (new_of_old order). old < 100000 \<and> 0 \<le> k"
    using ran d by (auto simp: map_of_eq_Some_iff)
  show ?thesis
    unfolding reorder_remap_def remap_edited_frame map_fields_simps reorder_first_phase [OF d all]
    using ran by (auto simp: upd_where_def split: option.splits)
qed

lemma esign_reorder_ok:
  assumes "esign_reorder_pages eng now aid (map JInt order) w = (PageOk n h fs, w')"
  obtains a data ps new where "agr_row w aid = Some a" and "source_bytes w a = Some data"
    and "pdf_open (en_pk eng) data = Inr ps" and "is_page_perm order (int (length ps))"
    and "reorder_pages (en_pk eng) data order = Inr new"
    and "rewrite_source eng now a new (reorder_remap aid order) ''pages_reorder''
           (''reordered '' @ py_str (int (length ps)) @ '' pages'') w = (PageOk n h fs, w')"
proof -
  have j: "jints (map JInt order) = Inr order" by (induction order) simp_all
  show ?thesis
    using assms that unfolding esign_reorder_pages_def
    by (elim with_source_ok) (auto simp: j page_count_open split: if_splits sum.splits)
qed

text \<open>Property C25. Reordering the pages keeps every field on its content: a field of the agreement that stood on page
  \<open>p\<close> stands, with the same box, on the new page that shows what page \<open>p\<close> showed; the page count
  is unchanged and the fields of other agreements are untouched.\<close>

theorem reorder_pages_fields:
  assumes "pk_faithful (en_pk eng)" and "agr_row w aid = Some a" and "source_bytes w a = Some data"
    and "pdf_open (en_pk eng) data = Inr ps" and "length ps \<le> 100000"
    and "esign_reorder_pages eng now aid (map JInt order) w = (PageOk n h fs, w')"
  shows "\<exists>new qs. files w' (a_source_path a) = Some new \<and> h = en_sha256 eng new \<and>
    pdf_open (en_pk eng) new = Inr qs \<and> length qs = length ps \<and> n = int (length ps) \<and>
    (\<forall>f \<in> set (field_rows w). f_agr f \<noteq> aid \<longrightarrow> f \<in> set (field_rows w')) \<and>
    (\<forall>f \<in> set (field_rows w). f_agr f = aid \<and> 0 \<le> f_page f \<and> f_page f < n \<longrightarrow>
       (\<exists>j. f\<lparr>f_page := j\<rparr> \<in> set (field_rows w') \<and> 0 \<le> j \<and> j < n \<and> qs ! nat j = ps ! nat (f_page f)))"
proof -
  obtain new where perm: "is_page_perm order (int (length ps))"
    and ro: "reorder_pages (en_pk eng) data order = Inr new"
    and rw: "rewrite_source eng now a new (reorder_remap aid order) ''pages_reorder''
           (''reordered '' @ py_str (int (length ps)) @ '' pages'') w = (PageOk n h fs, w')"
    by (rule esign_reorder_ok [OF assms(6)]) (use assms(2-4) that in simp)
  obtain qs where qs: "pdf_open (en_pk eng) new = Inr qs" "length qs = length ps"
    "\<forall>k < length ps. qs ! k = ps ! nat (order ! k)"
    using reorder_nth [OF assms(1,4) perm] ro by auto
  note ok = rewrite_source_ok [OF rw reorder_remap_frame(2)]
  have n: "n = int (length ps)" using ok qs by (simp add: page_count_def)
  have len: "length order = length ps" using page_perm_length [OF perm] by simp
  have dist: "distinct order" by (rule page_perm_distinct [OF perm])
  have fields: "field_rows w' = map (\<lambda>f. if f_agr f = aid then (case map_of (new_of_old order) (f_page f) of
              Some k \<Rightarrow> f\<lparr>f_page := k\<rparr>
            | None \<Rightarrow> if f_page f \<ge> 100000 then f\<lparr>f_page := f_page f - 100000\<rparr> else f) else f)
      (field_rows w)"
    using ok reorder_remap_fields [OF perm] assms(5) by simp
  have other: "f \<in> set (field_rows w')" if "f \<in> set (field_rows w)" "f_agr f \<noteq> aid" for f
    using that by (force simp: fields)
  have follow: "\<exists>j. f\<lparr>f_page := j\<rparr> \<in> set (field_rows w') \<and> 0 \<le> j \<and> j < n \<and> qs ! nat j = ps ! nat (f_page f)"
    if f: "f \<in> set (field_rows w)" "f_agr f = aid" "0 \<le> f_page f" "f_page f < n" for f
  proof -
    have "f_page f \<in> set order" using page_perm_set [OF perm] f n by simp
    then obtain i where i: "i < length ps" "order ! i = f_page f" by (auto simp: in_set_conv_nth len)
    then have m: "map_of (new_of_old order) (f_page f) = Some (int i)"
      using new_of_old_map [OF dist] len by simp
    have "f\<lparr>f_page := int i\<rparr> \<in> set (field_rows w')"
      using f(1,2) m by (force simp: fields)
    with i qs(3) n show ?thesis by (intro exI [of _ "int i"]) auto
  qed
  show ?thesis using qs n ok other follow by (intro exI [of _ new] exI [of _ qs]) auto
qed

lemma reorder_pages_fields_witness:
  "\<exists>n h fs w'. esign_reorder_pages ref_engine 40 1 (map JInt [1, 0]) draft_world = (PageOk n h fs, w') \<and> n = 2"
proof -
  have "(case fst (esign_reorder_pages ref_engine 40 1 (map JInt [1, 0]) draft_world) of PageOk _ _ _ \<Rightarrow> True | _ \<Rightarrow> False)"
    by code_simp
  then obtain n h fs w' where f: "esign_reorder_pages ref_engine 40 1 (map JInt [1, 0]) draft_world = (PageOk n h fs, w')"
    by (cases "esign_reorder_pages ref_engine 40 1 (map JInt [1, 0]) draft_world") (auto split: page_result.splits)
  have l: "length sample_pages = 2" by (simp add: sample_pages_def)
  have "n = 2" using reorder_pages_fields [OF draft_world_facts(4,1,2,3) _ f] l by auto
  with f show ?thesis by blast
qed

text \<open>The two-phase update mistakes a large page number for its own mark: a field of the agreement that
  was placed on page 100000 or later (nothing bounds a field's page) is pulled down by 100000 by any
  reordering, and lands on a page of the document.\<close>

theorem reorder_moves_large_page:
  assumes "is_page_perm order n" and "n \<le> 100000" and "f \<in> set (field_rows w)" and "f_agr f = aid"
    and "f_page f = 100000 + k" and "0 \<le> k"
  shows "f\<lparr>f_page := k\<rparr> \<in> set (field_rows (reorder_remap aid order w))"
proof -
  have "f_page f \<notin> set order" using page_perm_set [OF assms(1)] assms(2,5,6) by auto
  then have "map_of (new_of_old order) (f_page f) = None"
    using new_of_old_map [OF page_perm_distinct [OF assms(1)], of "f_page f"] by (metis not_None_eq nth_mem)
  then show ?thesis
    using assms(3-6) unfolding reorder_remap_fields [OF assms(1,2)] by force
qed

lemma reorder_moves_large_page_witness:
  "blank_field\<lparr>f_page := 0\<rparr> \<in> set (field_rows (reorder_remap 1 [1, 0]
     (sample_world\<lparr>field_rows := [blank_field\<lparr>f_page := 100000\<rparr>]\<rparr>)))"
proof -
  have "is_page_perm [1, 0] 2" by code_simp
  then show ?thesis
    using reorder_moves_large_page [of "[1, 0]" 2 "blank_field\<lparr>f_page := 100000\<rparr>"
        "sample_world\<lparr>field_rows := [blank_field\<lparr>f_page := 100000\<rparr>]\<rparr>" 1 0]
    by (simp add: blank_field_def)
qed

section \<open>The pages edited in place\<close>

lemma py_split_join_digits:
  "ps \<noteq> [] \<Longrightarrow> \<forall>i \<in> set ps. 0 \<le> i \<Longrightarrow> py_split (CHR '','') (py_join '','' (map py_str ps)) = map py_str ps"
  by (rule py_split_join) (auto simp: py_str_def dest: is_digit_not_sign show_nat_digits [rule_format])

lemma py_isdigit_py_str: "0 \<le> i \<Longrightarrow> py_isdigit (py_strip (py_str i))"
  using show_nat_digits [of "nat i"]
  by (simp add: py_str_def py_isdigit_def py_strip_digits list_all_iff)

lemma parse_render_pages: "\<forall>i \<in> set ps. 0 \<le> i \<Longrightarrow> parse_pages (render_pages ps) = ps"
proof (cases "ps = []")
  case True
  then show ?thesis
    by (simp add: parse_pages_def render_pages_def py_isdigit_def py_strip_def List.map_filter_def)
next
  case False
  assume nn: "\<forall>i \<in> set ps. 0 \<le> i"
  have "List.map_filter (\<lambda>p. if py_isdigit (py_strip p) then py_int p else None) (map py_str ps) = ps"
    using nn by (induction ps) (simp_all add: List.map_filter_def py_isdigit_py_str)
  then show ?thesis using False nn by (simp add: parse_pages_def render_pages_def py_split_join_digits)
qed

lemma set_edited_render:
  "\<forall>i \<in> set ps. 0 \<le> i \<Longrightarrow> a_edited_pages a = render_pages ps \<Longrightarrow> set (edited_page_list a) = set ps"
  by (simp add: edited_page_list_def parse_render_pages)

lemma parse_pages_nonneg: "i \<in> set (parse_pages s) \<Longrightarrow> 0 \<le> i"
proof -
  assume "i \<in> set (parse_pages s)"
  then obtain p where p: "py_isdigit (py_strip p)" "py_int p = Some i"
    by (auto simp: parse_pages_def List.map_filter_def split: if_splits)
  obtain c cs where c: "py_strip p = c # cs" "is_digit c"
    using p(1) by (cases "py_strip p") (auto simp: py_isdigit_def)
  then show "0 \<le> i" using p(2) is_digit_not_sign [OF c(2)] by (auto simp: py_int_def)
qed

lemma parse_pages_Nil: "parse_pages [] = []"
  by (simp add: parse_pages_def py_isdigit_def py_strip_def List.map_filter_def)

lemma edited_remap:
  assumes "agr_row w aid = Some a"
  shows "\<exists>a'. agr_row (remap_edited_pages aid m w) aid = Some a' \<and>
    set (edited_page_list a') = {j. 0 \<le> j \<and> (\<exists>i \<in> set (edited_page_list a). m i = Some j)}"
proof (cases "a_edited_pages a = []")
  case True
  then show ?thesis
    using assms by (intro exI [of _ a]) (simp add: remap_edited_pages_def edited_page_list_def parse_pages_Nil)
next
  case False
  let ?ps = "sort (remdups (filter (\<lambda>m. 0 \<le> m) (List.map_filter m (parse_pages (a_edited_pages a)))))"
  let ?a = "a\<lparr>a_edited_pages := render_pages ?ps\<rparr>"
  have "agr_row (remap_edited_pages aid m w) aid = Some ?a"
    using False assms by (simp add: remap_edited_pages_def agr.get_upd)
  moreover have "set (edited_page_list ?a) = set ?ps"
    by (rule set_edited_render [of ?ps]) auto
  moreover have "set ?ps = {j. 0 \<le> j \<and> (\<exists>i \<in> set (edited_page_list a). m i = Some j)}"
    by (force simp: edited_page_list_def List.map_filter_def image_iff)
  ultimately show ?thesis by (intro exI [of _ ?a]) simp
qed

lemma agr_row_map_fields [simp]: "agr_row (map_fields P f w) j = agr_row w j"
  by (simp add: agr_row_def)

text \<open>The pages edited in place are remembered through the page operations: after a deletion or a
  reordering the recorded set is exactly the set of the new positions of the pages that were edited
  (and an edit adds its pages), so that sending flattens the pages whose text was replaced, wherever
  they have moved to.\<close>

theorem edited_pages_follow:
  assumes "agr_row w aid = Some a" and "distinct order"
  shows "(\<exists>a'. agr_row (delete_remap aid p w) aid = Some a' \<and> set (edited_page_list a') =
      {j. 0 \<le> j \<and> (\<exists>i \<in> set (edited_page_list a). i \<noteq> p \<and> j = (if i > p then i - 1 else i))}) \<and>
    (\<exists>a'. agr_row (reorder_remap aid order w) aid = Some a' \<and> set (edited_page_list a') =
      {j. 0 \<le> j \<and> nat j < length order \<and> order ! nat j \<in> set (edited_page_list a)}) \<and>
    (\<exists>a'. agr_row (note_edited_pages aid [q] w) aid = Some a' \<and> (0 \<le> q \<longrightarrow>
      set (edited_page_list a') = insert q (set (edited_page_list a))))"
proof (intro conjI)
  let ?d = "map_fields (\<lambda>f. f_agr f = aid \<and> f_page f > p) (\<lambda>f. f\<lparr>f_page := f_page f - 1\<rparr>)
         (w\<lparr>field_rows := del_where (\<lambda>f. f_agr f = aid \<and> f_page f = p) (field_rows w)\<rparr>)"
  have "agr_row ?d aid = Some a" using assms(1) by simp (simp add: agr_row_def)
  from edited_remap [OF this, of "\<lambda>i. if i = p then None else Some (if i > p then i - 1 else i)"]
  show "\<exists>a'. agr_row (delete_remap aid p w) aid = Some a' \<and> set (edited_page_list a') =
      {j. 0 \<le> j \<and> (\<exists>i \<in> set (edited_page_list a). i \<noteq> p \<and> j = (if i > p then i - 1 else i))}"
    unfolding delete_remap_def by (elim ex_forward) (auto split: if_splits)
next
  let ?r = "map_fields (\<lambda>f. f_agr f = aid \<and> f_page f \<ge> 100000) (\<lambda>f. f\<lparr>f_page := f_page f - 100000\<rparr>)
        (fold (\<lambda>(old, k). map_fields (\<lambda>f. f_agr f = aid \<and> f_page f = old) (\<lambda>f. f\<lparr>f_page := k + 100000\<rparr>))
           (new_of_old order) w)"
  have "agr_row ?r aid = Some a" using assms(1) by (simp add: agr_row_def reorder_fold_frame)
  from edited_remap [OF this, of "map_of (new_of_old order)"]
  show "\<exists>a'. agr_row (reorder_remap aid order w) aid = Some a' \<and> set (edited_page_list a') =
      {j. 0 \<le> j \<and> nat j < length order \<and> order ! nat j \<in> set (edited_page_list a)}"
    unfolding reorder_remap_def by (elim ex_forward) (auto simp: new_of_old_map [OF assms(2)])
next
  let ?ps = "sort (remdups (parse_pages (a_edited_pages a) @ [q]))"
  have "set (edited_page_list (a\<lparr>a_edited_pages := render_pages ?ps\<rparr>)) = set ?ps" if "0 \<le> q"
    by (rule set_edited_render [of ?ps]) (use that parse_pages_nonneg in auto)
  then show "\<exists>a'. agr_row (note_edited_pages aid [q] w) aid = Some a' \<and> (0 \<le> q \<longrightarrow>
      set (edited_page_list a') = insert q (set (edited_page_list a)))"
    using assms(1) by (auto simp: note_edited_pages_def agr.get_upd edited_page_list_def)
qed

lemma edited_pages_follow_witness:
  "\<exists>a'. agr_row (reorder_remap 1 [1, 0] (draft_world\<lparr>agreement_rows := [blank_agreement\<lparr>a_edited_pages := ''0''\<rparr>]\<rparr>)) 1
     = Some a' \<and> set (edited_page_list a') = {1}"
proof -
  let ?w = "draft_world\<lparr>agreement_rows := [blank_agreement\<lparr>a_edited_pages := ''0''\<rparr>]\<rparr>"
  have r: "agr_row ?w 1 = Some (blank_agreement\<lparr>a_edited_pages := ''0''\<rparr>)"
    by (simp add: agr_row_def blank_agreement_def)
  have e: "edited_page_list (blank_agreement\<lparr>a_edited_pages := ''0''\<rparr>) = [0]" by code_simp
  have "{j::int. 0 \<le> j \<and> nat j < length [1::int, 0] \<and> [1, 0] ! nat j \<in> set [0::int]} = {1}"
  proof (rule set_eqI)
    fix j :: int
    have "0 \<le> j \<Longrightarrow> nat j < Suc (Suc 0) \<Longrightarrow> j = 0 \<or> j = 1" by arith
    then show "j \<in> {j. 0 \<le> j \<and> nat j < length [1::int, 0] \<and> [1, 0] ! nat j \<in> set [0::int]} \<longleftrightarrow> j \<in> {1}"
      by auto
  qed
  then show ?thesis using edited_pages_follow [OF r, of "[1, 0]" 0 0] by (simp add: e)
qed

section \<open>Fail closed\<close>

lemma rewrite_not_err: "rewrite_source eng now a new remap kind detail w \<noteq> (PageErr e i, w')"
  by (simp add: rewrite_source_def Let_def split: sum.splits)

lemma with_source_err:
  assumes "with_source eng aid k w = (PageErr e i, w')"
    and "\<And>a data n. k a data n w = (PageErr e i, w') \<Longrightarrow> w' = w"
  shows "w' = w"
  using assms by (auto simp: with_source_def split: sum.splits option.splits)

text \<open>The page operations fail closed: whenever one of them answers with an error, whatever was asked for
  and however many items of the batch were fine, no byte of the document, no field and no row has
  changed.\<close>

theorem page_ops_fail_closed:
  assumes "op \<in> {delete_page eng now aid pagej, esign_reorder_pages eng now aid order,
    rotate_page eng now aid pagej degj, add_pages eng now aid extra, redact_regions eng now aid regions,
    add_texts eng now aid items, edit_texts eng now aid items}"
    and "op w = (PageErr e i, w')"
  shows "w' = w"
proof -
  have "delete_page eng now aid pagej w = (PageErr e i, w') \<Longrightarrow> w' = w"
    unfolding delete_page_def
    by (erule with_source_err) (auto simp: rewrite_not_err split: sum.splits if_splits)
  moreover have "esign_reorder_pages eng now aid order w = (PageErr e i, w') \<Longrightarrow> w' = w"
    unfolding esign_reorder_pages_def
    by (erule with_source_err) (auto simp: rewrite_not_err split: sum.splits if_splits)
  moreover have "rotate_page eng now aid pagej degj w = (PageErr e i, w') \<Longrightarrow> w' = w"
    unfolding rotate_page_def
    by (erule with_source_err) (auto simp: rewrite_not_err split: sum.splits if_splits prod.splits)
  moreover have "add_pages eng now aid extra w = (PageErr e i, w') \<Longrightarrow> w' = w"
    by (auto simp: add_pages_def rewrite_not_err split: sum.splits if_splits option.splits)
  moreover have "redact_regions eng now aid regions w = (PageErr e i, w') \<Longrightarrow> w' = w"
    by (auto simp: redact_regions_def rewrite_not_err split: sum.splits if_splits elim!: with_source_err)
  moreover have "add_texts eng now aid items w = (PageErr e i, w') \<Longrightarrow> w' = w"
    by (auto simp: add_texts_def rewrite_not_err split: sum.splits if_splits edit_exc.splits py_exc.splits
        elim!: with_source_err)
  moreover have "edit_texts eng now aid items w = (PageErr e i, w') \<Longrightarrow> w' = w"
    by (auto simp: edit_texts_def rewrite_not_err split: sum.splits if_splits edit_exc.splits py_exc.splits
        elim!: with_source_err)
  ultimately show ?thesis using assms by auto
qed

lemma page_ops_fail_closed_witness:
  "\<exists>w'. delete_page ref_engine 40 1 (JInt 5) draft_world = (PageErr BadPage None, w') \<and> w' = draft_world"
proof -
  have "fst (delete_page ref_engine 40 1 (JInt 5) draft_world) = PageErr BadPage None" by code_simp
  then obtain w' where f: "delete_page ref_engine 40 1 (JInt 5) draft_world = (PageErr BadPage None, w')"
    by (metis prod.collapse)
  have "w' = draft_world"
    using page_ops_fail_closed [where op = "delete_page ref_engine 40 1 (JInt 5)" and eng = ref_engine
        and now = 40 and aid = 1 and pagej = "JInt 5"] f by blast
  with f show ?thesis by blast
qed

lemma check_each_Inr: "check_each f xs = Inr ys \<longleftrightarrow> list_all2 (\<lambda>x y. f x = Inr y) xs ys"
proof (induction xs arbitrary: ys)
  case (Cons x xs)
  show ?case by (auto simp: list_all2_Cons1 Cons.IH [symmetric] split: sum.splits)
qed auto

text \<open>A redaction is applied to every region that was asked for or to none: on success the stored source
  is the engine's result on the old bytes and one checked region per requested one, each of them on a
  page of the document, with a box inside the page, and no field was changed.\<close>

theorem redaction_complete:
  assumes "redact_regions eng now aid regions w = (PageOk n h fs, w')" and "agr_row w aid = Some a"
  shows "\<exists>data m edits new. source_bytes w a = Some data \<and> page_count (en_pk eng) data = Inr m \<and>
    edits \<noteq> [] \<and> length edits = length (json_list regions) \<and>
    en_apply_edits eng data edits = Inr new \<and> files w' (a_source_path a) = Some new \<and>
    field_rows w' = field_rows w \<and>
    (\<forall>ed \<in> set edits. \<exists>kind page x y bw bh.
       ed = JObj [(''kind'', kind), (''page'', JInt page), (''x'', JFloat x), (''y'', JFloat y),
                  (''w'', JFloat bw), (''h'', JFloat bh)] \<and>
       kind \<in> {JStr ''redact'', JStr ''whiteout''} \<and> 0 \<le> page \<and> page < m \<and> box_in_page x y bw bh)"
proof -
  have ne: "json_list regions \<noteq> []"
    and ws: "with_source eng aid (\<lambda>a data n w.
            case check_each (check_region eng n) (json_list regions) of
              Inl e \<Rightarrow> (PageErr e None, w)
            | Inr edits \<Rightarrow> (case en_apply_edits eng data edits of
                  Inl _ \<Rightarrow> (PageRaise, w)
                | Inr new \<Rightarrow> rewrite_source eng now a new (\<lambda>w. w) ''redacted''
                    (''redacted '' @ py_str (int (length edits)) @ '' region(s)'') w)) w = (PageOk n h fs, w')"
    using assms(1) by (auto simp: redact_regions_def split: sum.splits if_splits)
  from ws obtain data m edits new where d: "source_bytes w a = Some data" "page_count (en_pk eng) data = Inr m"
    and ch: "check_each (check_region eng m) (json_list regions) = Inr edits"
    and new: "en_apply_edits eng data edits = Inr new"
    and rw: "rewrite_source eng now a new (\<lambda>w. w) ''redacted''
      (''redacted '' @ py_str (int (length edits)) @ '' region(s)'') w = (PageOk n h fs, w')"
    using assms(2) by (elim with_source_ok) (auto split: sum.splits)
  have l2: "list_all2 (\<lambda>r ed. check_region eng m r = Inr ed) (json_list regions) edits"
    using ch by (simp add: check_each_Inr)
  have len: "length edits = length (json_list regions)" using list_all2_lengthD [OF l2] by simp
  have each: "\<exists>kind page x y bw bh. ed = JObj [(''kind'', kind), (''page'', JInt page), (''x'', JFloat x),
        (''y'', JFloat y), (''w'', JFloat bw), (''h'', JFloat bh)] \<and>
       kind \<in> {JStr ''redact'', JStr ''whiteout''} \<and> 0 \<le> page \<and> page < m \<and> box_in_page x y bw bh"
    if "ed \<in> set edits" for ed
  proof -
    obtain r where "check_region eng m r = Inr ed"
      using l2 \<open>ed \<in> set edits\<close> by (auto simp: in_set_conv_nth dest: list_all2_nthD2)
    then show ?thesis
      by (auto simp: check_region_def Let_def split: json.splits if_splits sum.splits)
  qed
  note ok = rewrite_source_ok [OF rw]
  show ?thesis
    using d new ok each len ne by (intro exI [of _ data] exI [of _ m] exI [of _ edits] exI [of _ new]) auto
qed

lemma redaction_complete_witness:
  "\<exists>n h fs w'. redact_regions ref_engine 40 1 (JList [JObj [(''page'', JInt 0), (''x'', JInt 0), (''y'', JInt 0),
       (''w'', JInt 1), (''h'', JInt 1)]]) draft_world = (PageOk n h fs, w') \<and> field_rows w' = field_rows draft_world"
proof -
  let ?r = "JList [JObj [(''page'', JInt 0), (''x'', JInt 0), (''y'', JInt 0), (''w'', JInt 1), (''h'', JInt 1)]]"
  have "(case fst (redact_regions ref_engine 40 1 ?r draft_world) of PageOk _ _ _ \<Rightarrow> True | _ \<Rightarrow> False)"
    by code_simp
  then obtain n h fs w' where f: "redact_regions ref_engine 40 1 ?r draft_world = (PageOk n h fs, w')"
    by (cases "redact_regions ref_engine 40 1 ?r draft_world") (auto split: page_result.splits)
  have "field_rows w' = field_rows draft_world" using redaction_complete [OF f draft_world_facts(1)] by blast
  with f show ?thesis by blast
qed

end
