(* ===== verification/Templates.thy ===== *)
theory Templates
  imports Drafting
begin

text \<open>
  Reusable templates (\<open>sign/esign.py\<close>): snapshotting an agreement or storing an explicit layout,
  listing and archiving, and instantiating a template as a new draft through \<open>create_agreement\<close>,
  \<open>set_signers\<close> and \<open>set_fields\<close>.
\<close>

section \<open>Python's \<open>or\<close> on JSON values\<close>

definition jor :: "json \<Rightarrow> json \<Rightarrow> json" where
  "jor a b = (if truthy a then a else b)"

text \<open>The members of a dict; any other value has no \<open>get\<close>.\<close>

definition jdict :: "json \<Rightarrow> py_exc + (string \<times> json) list" where
  "jdict j = (case j of JObj kvs \<Rightarrow> Inr kvs | _ \<Rightarrow> Inl AttributeError)"

text \<open>An owner id that counts as none.\<close>

definition no_owner :: "int option \<Rightarrow> bool" where
  "no_owner owner = (owner = None \<or> owner = Some 0)"

section \<open>Snapshot\<close>

text \<open>\<open>int(s.get("sign_order", i + 1) or (i + 1))\<close>.\<close>

definition order_or :: "int \<Rightarrow> nat \<Rightarrow> int" where
  "order_or order i = (if order = 0 then int i + 1 else order)"

definition snapshot_signer :: "nat \<Rightarrow> signer \<Rightarrow> json" where
  "snapshot_signer i s =
     JObj [(''name'', JStr (s_name s)), (''email'', JStr (s_email s)),
       (''role'', JStr (nonblank (s_role s) ''signer'')), (''order'', JInt (order_or (s_order s) i)),
       (''is_consumer'', JBool (s_is_consumer s)), (''auth'', JStr (nonblank (s_auth_method s) ''email''))]"

definition tpl_snapshot_signers :: "signer list \<Rightarrow> json list \<times> (int \<times> int) list" where
  "tpl_snapshot_signers ss =
     (map (\<lambda>(i, s). snapshot_signer i s) (enumerate 0 ss),
      fold (\<lambda>(i, s) d. dict_set (s_id s) (int i) d) (enumerate 0 ss) [])"

text \<open>\<open>id_to_idx.get(f["signer_id"], 0)\<close>: a field of no signer goes to index 0.\<close>

definition signer_index :: "(int \<times> int) list \<Rightarrow> int option \<Rightarrow> int" where
  "signer_index d so =
     (case so of None \<Rightarrow> 0 | Some sid \<Rightarrow> (case map_of d sid of None \<Rightarrow> 0 | Some i \<Rightarrow> i))"

definition snapshot_field :: "(int \<times> int) list \<Rightarrow> field \<Rightarrow> json" where
  "snapshot_field d f =
     JObj [(''signer_index'', JInt (signer_index d (f_signer f))),
       (''type'', JStr (nonblank (f_type f) ''text'')), (''page'', JInt (f_page f)),
       (''x'', JFloat (f_x f)), (''y'', JFloat (f_y f)), (''w'', JFloat (f_w f)), (''h'', JFloat (f_h f)),
       (''required'', JBool (f_required f)), (''value'', JStr (f_value f)),
       (''placeholder'', JStr (f_placeholder f)), (''prefill'', JBool (f_prefill f)),
       (''prompt'', JStr (f_prompt f)), (''field_key'', JStr (f_key f))]"

section \<open>create_template\<close>

datatype tpl_result = TplSourceDocRefused | TplAgreementNotFound | TplRaise | TplOk int

definition resolve_source :: "world \<Rightarrow> int option \<Rightarrow> int \<Rightarrow> agr_view option" where
  "resolve_source w owner aid =
     (if no_owner owner then get_agreement w aid else get_agreement_owned w aid (the owner))"

text \<open>\<open>list(v or [])\<close>.\<close>

definition py_list_of :: "json \<Rightarrow> py_exc + json list" where
  "py_list_of j =
     (if \<not> truthy j then Inr []
      else case j of JList xs \<Rightarrow> Inr xs | JObj kvs \<Rightarrow> Inr (map (JStr \<circ> fst) kvs)
      | JStr s \<Rightarrow> Inr (map (\<lambda>c. JStr [c]) s) | _ \<Rightarrow> Inl TypeError)"

record tpl_source =
  ts_name :: string
  ts_signers :: "json list"
  ts_fields :: "json list"
  ts_doc :: "int option"
  ts_agr :: "int option"
  ts_pdf :: bytes

text \<open>The mode that snapshots an agreement.\<close>

definition from_agreement :: "world \<Rightarrow> string \<Rightarrow> agr_view \<Rightarrow> int \<Rightarrow> tpl_source" where
  "from_agreement w name v aid =
     (let (signers, d) = tpl_snapshot_signers (v_signers v) in
      \<lparr>ts_name = py_strip (first_nonempty [name, a_name (v_row v), ''Untitled template'']),
       ts_signers = signers, ts_fields = map (snapshot_field d) (v_fields v),
       ts_doc = a_source_doc_id (v_row v), ts_agr = Some aid,
       ts_pdf = coalesce (source_bytes w (v_row v)) []\<rparr>)"

text \<open>The mode that takes an explicit layout.\<close>

definition layout_name :: "string \<Rightarrow> (string \<times> json) list \<Rightarrow> py_exc + string" where
  "layout_name name layout =
     (if name \<noteq> [] then Inr (py_strip name)
      else let j = jget layout ''name'' in
        if \<not> truthy j then Inr ''Untitled template''
        else case j of JStr s \<Rightarrow> Inr (py_strip s) | _ \<Rightarrow> Inl AttributeError)"

definition from_layout ::
  "world \<Rightarrow> string \<Rightarrow> (string \<times> json) list \<Rightarrow> int option \<Rightarrow> tpl_result + tpl_source" where
  "from_layout w name layout owner =
     (case try_bind (layout_name name layout) (\<lambda>n. try_bind (py_list_of (jget layout ''signers'')) (\<lambda>ss.
            try_bind (py_list_of (jget layout ''fields'')) (\<lambda>fs. Inr (n, ss, fs)))) of
        Inl _ \<Rightarrow> Inl TplRaise
      | Inr (n, ss, fs) \<Rightarrow>
          if truthy (jget layout ''source_doc_id'') then Inl TplRaise
          else let base = \<lparr>ts_name = n, ts_signers = ss, ts_fields = fs, ts_doc = None, ts_agr = None, ts_pdf = []\<rparr> in
            if \<not> truthy (jget layout ''source_agreement_id'') then Inr base
            else case jint (jget layout ''source_agreement_id'') of
              Inl _ \<Rightarrow> Inl TplRaise
            | Inr aid \<Rightarrow> (case resolve_source w owner aid of
                  None \<Rightarrow> Inl TplAgreementNotFound
                | Some v \<Rightarrow> Inr (base\<lparr>ts_agr := Some aid, ts_pdf := coalesce (source_bytes w (v_row v)) []\<rparr>)))"

definition tpl_path :: "int \<Rightarrow> string" where
  "tpl_path tid = ''esign/tpl_'' @ py_str tid @ ''_source.pdf''"

definition store_template ::
  "engine \<Rightarrow> time \<Rightarrow> string \<Rightarrow> int option \<Rightarrow> tpl_source \<Rightarrow> world \<Rightarrow> tpl_result \<times> world" where
  "store_template eng now created_by owner ts w =
     (let tid = next_tpl w; pdf = ts_pdf ts;
          row = \<lparr>t_id = tid, t_name = nonblank (ts_name ts) ''Untitled template'',
            t_created_by = nonblank created_by ''Will'',
            t_source_path = (if pdf = [] then [] else tpl_path tid),
            t_doc_hash = (if pdf = [] then [] else en_sha256 eng pdf),
            t_source_doc_id = ts_doc ts, t_source_agr = ts_agr ts, t_signers = ts_signers ts,
            t_fields = ts_fields ts,
            t_page_n = (if pdf = [] then 0 else coalesce (en_page_count eng pdf) 0),
            t_created_at = Some now, t_archived_at = None, t_owner = owner\<rparr>;
          w1 = w\<lparr>template_rows := template_rows w @ [row], next_tpl := tid + 1\<rparr>
      in (TplOk tid, if pdf = [] then w1 else write_file (tpl_path tid) pdf w1))"

definition create_template ::
  "engine \<Rightarrow> time \<Rightarrow> string \<Rightarrow> int option \<Rightarrow> (string \<times> json) list \<Rightarrow> string \<Rightarrow> int option \<Rightarrow> world \<Rightarrow>
   tpl_result \<times> world" where
  "create_template eng now name source layout created_by owner w =
     (if \<not> no_owner owner \<and> truthy (jget layout ''source_doc_id'') then (TplSourceDocRefused, w)
      else if \<not> no_owner source then
        (case resolve_source w owner (the source) of
           None \<Rightarrow> (TplAgreementNotFound, w)
         | Some v \<Rightarrow> store_template eng now created_by owner (from_agreement w name v (the source)) w)
      else (case from_layout w name layout owner of
           Inl r \<Rightarrow> (r, w)
         | Inr ts \<Rightarrow> store_template eng now created_by owner ts w))"

section \<open>Reading and archiving\<close>

definition list_templates :: "world \<Rightarrow> bool \<Rightarrow> template list" where
  "list_templates w archived =
     rev (sort_key t_id (filter (\<lambda>t. archived \<or> t_archived_at t = None) (template_rows w)))"

definition list_templates_for_owner :: "world \<Rightarrow> int \<Rightarrow> bool \<Rightarrow> template list" where
  "list_templates_for_owner w owner archived =
     (if owner = 0 then []
      else rev (sort_key t_id (filter (\<lambda>t. t_owner t = Some owner \<and> (archived \<or> t_archived_at t = None))
             (template_rows w))))"

definition get_template :: "world \<Rightarrow> int \<Rightarrow> template option" where
  "get_template w tid = find (\<lambda>t. t_id t = tid) (template_rows w)"

definition get_template_owned :: "world \<Rightarrow> int \<Rightarrow> int \<Rightarrow> template option" where
  "get_template_owned w tid owner =
     (if owner = 0 then None
      else case get_template w tid of
        None \<Rightarrow> None
      | Some t \<Rightarrow> if t_owner t \<noteq> Some owner then None else Some t)"

definition archive_where :: "time \<Rightarrow> (template \<Rightarrow> bool) \<Rightarrow> world \<Rightarrow> bool \<times> world" where
  "archive_where now P w =
     (0 < rowcount (\<lambda>t. P t \<and> t_archived_at t = None) (template_rows w),
      w\<lparr>template_rows := upd_where (\<lambda>t. P t \<and> t_archived_at t = None)
          (\<lambda>t. t\<lparr>t_archived_at := Some now\<rparr>) (template_rows w)\<rparr>)"

definition archive_template :: "time \<Rightarrow> int \<Rightarrow> world \<Rightarrow> bool \<times> world" where
  "archive_template now tid w = archive_where now (\<lambda>t. t_id t = tid) w"

definition archive_template_owned :: "time \<Rightarrow> int \<Rightarrow> int \<Rightarrow> world \<Rightarrow> bool \<times> world" where
  "archive_template_owned now tid owner w =
     (if owner = 0 then (False, w)
      else archive_where now (\<lambda>t. t_id t = tid \<and> t_owner t = Some owner) w)"

section \<open>Instantiation\<close>

datatype inst_result = InstNotFound | InstNoSource | InstRaise | InstOk int

text \<open>One signer: the recipient's members win over the template's.\<close>

definition inst_signer :: "nat \<Rightarrow> (string \<times> json) list \<Rightarrow> (string \<times> json) list \<Rightarrow> py_exc + (string \<times> json) list" where
  "inst_signer i base rec =
     try_bind (jint (jor (jget_def base ''order'' (JInt (int i + 1))) (JInt (int i + 1)))) (\<lambda>order.
       Inr [(''name'', jor (jget rec ''name'') (jor (jget base ''name'') (JStr []))),
            (''email'', jor (jget rec ''email'') (jor (jget base ''email'') (JStr []))),
            (''role'', jor (jget rec ''role'') (jor (jget_def base ''role'' (JStr ''signer'')) (JStr ''signer''))),
            (''order'', JInt order),
            (''is_consumer'', JBool (truthy (if map_of rec ''is_consumer'' \<noteq> None
                then jget rec ''is_consumer'' else jget base ''is_consumer''))),
            (''auth'', jor (jget rec ''auth'') (jor (jget_def base ''auth'' (JStr ''email'')) (JStr ''email'')))])"

fun inst_signers ::
  "nat \<Rightarrow> json list \<Rightarrow> (string \<times> json) list list \<Rightarrow> py_exc + (string \<times> json) list list" where
  "inst_signers i [] [] = Inr []"
| "inst_signers i (b # bs) [] =
     try_bind (jdict b) (\<lambda>base. try_bind (inst_signer i base []) (\<lambda>d.
     try_bind (inst_signers (Suc i) bs []) (\<lambda>ds. Inr (d # ds))))"
| "inst_signers i [] (r # rs) =
     try_bind (inst_signer i [] r) (\<lambda>d. try_bind (inst_signers (Suc i) [] rs) (\<lambda>ds. Inr (d # ds)))"
| "inst_signers i (b # bs) (r # rs) =
     try_bind (jdict b) (\<lambda>base. try_bind (inst_signer i base r) (\<lambda>d.
     try_bind (inst_signers (Suc i) bs rs) (\<lambda>ds. Inr (d # ds))))"

text \<open>The value of a field: a prefill field takes its answer by key, else by position.\<close>

definition answer_for ::
  "engine \<Rightarrow> (string \<times> json) list \<Rightarrow> nat \<Rightarrow> json \<Rightarrow> json \<Rightarrow> py_exc + json" where
  "answer_for eng answers i fk value =
     (let by_index = (case map_of answers (py_str (int i)) of
            None \<Rightarrow> value | Some a \<Rightarrow> JStr (str_or_empty eng a))
      in if \<not> truthy fk then Inr by_index
         else case fk of
           JStr k \<Rightarrow> (case map_of answers k of None \<Rightarrow> Inr by_index | Some a \<Rightarrow> Inr (JStr (str_or_empty eng a)))
         | JList _ \<Rightarrow> Inl TypeError | JObj _ \<Rightarrow> Inl TypeError | _ \<Rightarrow> Inr by_index)"

definition inst_field ::
  "engine \<Rightarrow> int list \<Rightarrow> (string \<times> json) list \<Rightarrow> nat \<Rightarrow> json \<Rightarrow> py_exc + (string \<times> json) list" where
  "inst_field eng ids answers i j =
     try_bind (jdict j) (\<lambda>f.
     try_bind (jint (jor (jget f ''signer_index'') (JInt 0))) (\<lambda>si.
     try_bind (let v = jor (jget f ''value'') (JStr []) in
               if truthy (jget f ''prefill'') then answer_for eng answers i (jget f ''field_key'') v else Inr v) (\<lambda>value.
     try_bind (jint (jor (jget f ''page'') (JInt 0))) (\<lambda>page.
     try_bind (jfloat (en_parse_float eng) (jor (jget f ''x'') (JInt 0))) (\<lambda>x.
     try_bind (jfloat (en_parse_float eng) (jor (jget f ''y'') (JInt 0))) (\<lambda>y.
     try_bind (jfloat (en_parse_float eng) (jor (jget f ''w'') (JInt 0))) (\<lambda>bw.
     try_bind (jfloat (en_parse_float eng) (jor (jget f ''h'') (JInt 0))) (\<lambda>bh.
       Inr [(''signer_id'', if 0 \<le> si \<and> nat si < length ids then JInt (ids ! nat si) else JNull),
            (''type'', jor (jget f ''type'') (JStr ''text'')), (''page'', JInt page),
            (''x'', JFloat x), (''y'', JFloat y), (''w'', JFloat bw), (''h'', JFloat bh),
            (''required'', JBool (truthy (jget_def f ''required'' (JBool True)))), (''value'', value),
            (''placeholder'', jor (jget f ''placeholder'') (JStr [])),
            (''prefill'', JBool (truthy (jget f ''prefill''))),
            (''prompt'', jor (jget f ''prompt'') (JStr [])),
            (''field_key'', jor (jget f ''field_key'') (JStr []))]))))))))"

fun inst_fields ::
  "engine \<Rightarrow> int list \<Rightarrow> (string \<times> json) list \<Rightarrow> nat \<Rightarrow> json list \<Rightarrow> py_exc + (string \<times> json) list list" where
  "inst_fields eng ids answers i [] = Inr []"
| "inst_fields eng ids answers i (j # js) =
     try_bind (inst_field eng ids answers i j) (\<lambda>d.
     try_bind (inst_fields eng ids answers (Suc i) js) (\<lambda>ds. Inr (d # ds)))"

text \<open>The draft is committed before its signers and fields: an exception after that leaves it behind.\<close>

definition fill_fields ::
  "engine \<Rightarrow> template \<Rightarrow> int list \<Rightarrow> (string \<times> json) list \<Rightarrow> int \<Rightarrow> world \<Rightarrow> inst_result \<times> world" where
  "fill_fields eng t ids answers aid w =
     (case inst_fields eng ids answers 0 (t_fields t) of
        Inl _ \<Rightarrow> (InstRaise, w)
      | Inr fs \<Rightarrow>
          if fs = [] then (InstOk aid, w)
          else (case set_fields eng aid fs w of
              (SetRaise, w1) \<Rightarrow> (InstRaise, w1)
            | (_, w1) \<Rightarrow> (InstOk aid, w1)))"

definition fill_draft ::
  "engine \<Rightarrow> template \<Rightarrow> (string \<times> json) list list \<Rightarrow> (string \<times> json) list \<Rightarrow> int \<Rightarrow> world \<Rightarrow> inst_result \<times> world" where
  "fill_draft eng t recipients answers aid w =
     (case inst_signers 0 (t_signers t) recipients of
        Inl _ \<Rightarrow> (InstRaise, w)
      | Inr dicts \<Rightarrow>
          if dicts = [] then fill_fields eng t [] answers aid w
          else (case set_signers eng aid dicts w of
             (SetRaise, w1) \<Rightarrow> (InstRaise, w1)
           | (_, w1) \<Rightarrow>
               fill_fields eng t (map s_id (filter (\<lambda>s. s_agr s = aid) (sort_key s_id (signer_rows w1))))
                 answers aid w1))"

definition instantiate_template ::
  "engine \<Rightarrow> time \<Rightarrow> string \<Rightarrow> int \<Rightarrow> (string \<times> json) list list \<Rightarrow> string \<Rightarrow> string \<Rightarrow> int option \<Rightarrow>
   (string \<times> json) list \<Rightarrow> world \<Rightarrow> inst_result \<times> world" where
  "instantiate_template eng now env_id tid recipients name created_by owner answers w =
     (case get_template w tid of
        None \<Rightarrow> (InstNotFound, w)
      | Some t \<Rightarrow>
          if \<not> no_owner owner \<and> t_owner t \<noteq> owner then (InstNotFound, w)
          else let pdf = (if t_source_path t = [] then [] else coalesce (files w (t_source_path t)) []) in
            if pdf = [] then (InstNoSource, w)
            else let aname = nonblank (py_strip (first_nonempty [name, t_name t, ''Agreement''])) ''Agreement'' in
              (case create_agreement eng now env_id aname pdf [] (nonblank created_by ''Will'')
                      (t_source_doc_id t) owner w of
                 (None, w1) \<Rightarrow> (InstRaise, w1)
               | (Some aid, w1) \<Rightarrow> fill_draft eng t recipients answers aid w1))"

section \<open>A snapshot instantiates to the same layout\<close>

lemma jor_JStr: "jor (JStr s) (JStr d) = JStr (nonblank s d)"
  by (simp add: jor_def nonblank_def)

lemma str_or_empty_JStr [simp]: "str_or_empty eng (JStr s) = s"
  by (simp add: str_or_empty_def)

lemma str_or_empty_JNull [simp]: "str_or_empty eng JNull = []"
  by (simp add: str_or_empty_def)

lemma jor_JInt0: "jint (jor (JInt i) (JInt 0)) = Inr i"
  by (simp add: jor_def)

lemma jfloat_jor0: "jfloat pf (jor (JFloat x) (JInt 0)) = Inr x"
  by (simp add: jor_def)

text \<open>The signer a re-instantiated field belongs to.\<close>

definition inst_owner :: "int list \<Rightarrow> int \<Rightarrow> int option" where
  "inst_owner ids si = (if 0 \<le> si \<and> nat si < length ids then Some (ids ! nat si) else None)"

definition reinstated :: "int list \<Rightarrow> (int \<times> int) list \<Rightarrow> int \<Rightarrow> int \<Rightarrow> field \<Rightarrow> field" where
  "reinstated ids d aid fid f =
     f\<lparr>f_id := fid, f_agr := aid, f_signer := inst_owner ids (signer_index d (f_signer f)),
       f_type := nonblank (f_type f) ''text'', f_adopted_at := JNull, f_method := []\<rparr>"

lemma field_roundtrip:
  assumes "int64 (f_page f)" and "list_all int64 ids"
  shows "\<exists>dict. inst_field eng ids [] i (snapshot_field d f) = Inr dict \<and>
    field_of_dict eng aid fid dict = Inr (reinstated ids d aid fid f)"
proof -
  let ?si = "signer_index d (f_signer f)"
  let ?sid = "if 0 \<le> ?si \<and> nat ?si < length ids then JInt (ids ! nat ?si) else JNull"
  let ?dict = "[(''signer_id'', ?sid), (''type'', JStr (nonblank (f_type f) ''text'')), (''page'', JInt (f_page f)),
     (''x'', JFloat (f_x f)), (''y'', JFloat (f_y f)), (''w'', JFloat (f_w f)), (''h'', JFloat (f_h f)),
     (''required'', JBool (f_required f)), (''value'', JStr (f_value f)),
     (''placeholder'', JStr (f_placeholder f)), (''prefill'', JBool (f_prefill f)),
     (''prompt'', JStr (f_prompt f)), (''field_key'', JStr (f_key f))]"
  have nb: "nonblank s [] = s" and nn: "nonblank (nonblank s ''text'') ''text'' = nonblank s ''text''" for s
    by (simp_all add: nonblank_def)
  have ans: "answer_for eng [] i (JStr k) v = Inr v" for v k
    by (simp add: answer_for_def)
  have inst: "inst_field eng ids [] i (snapshot_field d f) = Inr ?dict"
    by (simp add: inst_field_def snapshot_field_def jdict_def jget_def jget_def_def jor_JInt0 jfloat_jor0
        jor_JStr nb nn ans Let_def)
  have sid: "db_int ?sid = Inr (inst_owner ids ?si)"
    using assms(2) by (auto simp: db_int_def inst_owner_def list_all_length)
  have val: "value_text eng ?dict = f_value f"
    by (simp add: value_text_def jget_def)
  have "field_of_dict eng aid fid ?dict = Inr (reinstated ids d aid fid f)"
    unfolding field_of_dict_def val
    by (simp add: jget_def jget_def_def sid db_text_def bind_int_def assms(1) reinstated_def)
  with inst show ?thesis by blast
qed

text \<open>A template keeps the field layout: instantiating the snapshot of an agreement without answers gives
  fields of the same type, page, box, required mark, value, placeholder, prefill mark, prompt and
  key, in the same order with consecutive fresh ids, each assigned to the new signer in the position
  of the old one (a field of no signer goes to the first).\<close>

theorem template_fields_roundtrip:
  assumes "list_all (\<lambda>f. int64 (f_page f)) fs" and "list_all int64 ids"
  shows "\<exists>dicts. inst_fields eng ids [] i (map (snapshot_field d) fs) = Inr dicts \<and>
    fields_of_dicts eng aid fid dicts =
      Inr (map (\<lambda>(k, f). reinstated ids d aid (fid + int k) f) (enumerate 0 fs))"
  using assms(1)
proof (induction fs arbitrary: i fid)
  case Nil
  then show ?case by simp
next
  case (Cons f fs)
  obtain dict where d: "inst_field eng ids [] i (snapshot_field d f) = Inr dict"
    "field_of_dict eng aid fid dict = Inr (reinstated ids d aid fid f)"
    using field_roundtrip [of f ids eng i d aid fid] Cons.prems assms(2) by auto
  obtain dicts where ds: "inst_fields eng ids [] (Suc i) (map (snapshot_field d) fs) = Inr dicts"
    "fields_of_dicts eng aid (fid + 1) dicts =
      Inr (map (\<lambda>(k, f). reinstated ids d aid (fid + 1 + int k) f) (enumerate 0 fs))"
    using Cons.IH [of "Suc i" "fid + 1"] Cons.prems by auto
  have "map (\<lambda>(k, f). reinstated ids d aid (fid + int k) f) (enumerate (Suc 0) fs) =
      map (\<lambda>(k, f). reinstated ids d aid (fid + 1 + int k) f) (enumerate 0 fs)"
    by (rule nth_equalityI) (simp_all add: nth_enumerate_eq algebra_simps)
  with d ds show ?case by (intro exI [of _ "dict # dicts"]) simp
qed

lemma template_fields_roundtrip_witness:
  "\<exists>dicts. inst_fields ref_engine [9] [] 0 (map (snapshot_field [(1, 0)]) [blank_field]) = Inr dicts \<and>
     fields_of_dicts ref_engine 5 30 dicts = Inr [blank_field\<lparr>f_id := 30, f_agr := 5, f_signer := Some 9\<rparr>]"
proof -
  have "list_all (\<lambda>f. int64 (f_page f)) [blank_field]" "list_all int64 [9]" by code_simp+
  from template_fields_roundtrip [OF this, of ref_engine 0 "[(1, 0)]" 5 30] show ?thesis
    by (simp add: reinstated_def inst_owner_def signer_index_def blank_field_def nonblank_def)
qed

section \<open>Tenants\<close>

lemma set_signers_leaves:
  assumes "set_signers eng aid dicts w = (r, w')"
  shows "agreement_rows w' = agreement_rows w \<and> field_rows w' = field_rows w \<and> files w' = files w \<and>
    filter (\<lambda>s. s_agr s \<noteq> aid) (signer_rows w') = filter (\<lambda>s. s_agr s \<noteq> aid) (signer_rows w)"
proof -
  have own: "signers_of_dicts eng aid i sid ds = Inr ss \<Longrightarrow> filter (\<lambda>s. s_agr s \<noteq> aid) ss = []" for i sid ds ss
  proof (induction ds arbitrary: i sid ss)
    case (Cons d ds)
    then show ?case by (auto simp: try_bind_eq_Inr signer_of_dict_def)
  qed simp
  show ?thesis
    using assms own by (auto simp: set_signers_def Let_def del_where_def split: if_splits sum.splits)
qed

lemma set_fields_leaves:
  assumes "set_fields eng aid dicts w = (r, w')"
  shows "agreement_rows w' = agreement_rows w \<and> signer_rows w' = signer_rows w \<and> files w' = files w \<and>
    filter (\<lambda>f. f_agr f \<noteq> aid) (field_rows w') = filter (\<lambda>f. f_agr f \<noteq> aid) (field_rows w)"
proof -
  have own: "fields_of_dicts eng aid fid ds = Inr fs \<Longrightarrow> filter (\<lambda>f. f_agr f \<noteq> aid) fs = []" for fid ds fs
  proof (induction ds arbitrary: fid fs)
    case (Cons d ds)
    then show ?case by (auto simp: try_bind_eq_Inr field_of_dict_def)
  qed simp
  show ?thesis
    using assms own by (auto simp: set_fields_def Let_def del_where_def split: if_splits sum.splits)
qed

lemma fill_fields_leaves:
  assumes "fill_fields eng t ids answers aid w = (r, w')"
  shows "agreement_rows w' = agreement_rows w \<and> signer_rows w' = signer_rows w \<and> files w' = files w \<and>
    filter (\<lambda>f. f_agr f \<noteq> aid) (field_rows w') = filter (\<lambda>f. f_agr f \<noteq> aid) (field_rows w) \<and>
    (\<forall>i. r = InstOk i \<longrightarrow> i = aid)"
proof (cases "inst_fields eng ids answers 0 (t_fields t)")
  case (Inl e)
  then show ?thesis using assms by (simp add: fill_fields_def)
next
  case (Inr fs)
  obtain r1 w1 where s: "set_fields eng aid fs w = (r1, w1)" by fastforce
  show ?thesis
    using assms Inr s set_fields_leaves [OF s]
    by (cases r1) (auto simp: fill_fields_def split: if_splits)
qed

lemma fill_draft_leaves:
  assumes "fill_draft eng t recipients answers aid w = (r, w')"
  shows "agreement_rows w' = agreement_rows w \<and> files w' = files w \<and>
    filter (\<lambda>s. s_agr s \<noteq> aid) (signer_rows w') = filter (\<lambda>s. s_agr s \<noteq> aid) (signer_rows w) \<and>
    filter (\<lambda>f. f_agr f \<noteq> aid) (field_rows w') = filter (\<lambda>f. f_agr f \<noteq> aid) (field_rows w) \<and>
    (\<forall>i. r = InstOk i \<longrightarrow> i = aid)"
proof (cases "inst_signers 0 (t_signers t) recipients")
  case (Inl e)
  then show ?thesis using assms by (simp add: fill_draft_def)
next
  case (Inr dicts)
  obtain r1 w1 where s: "set_signers eng aid dicts w = (r1, w1)" by fastforce
  note sl = set_signers_leaves [OF s]
  show ?thesis
  proof (cases "dicts = [] \<or> r1 = SetRaise")
    case True
    then show ?thesis
      using assms Inr s sl fill_fields_leaves [of eng t "[]" answers aid w r w']
      by (auto simp: fill_draft_def split: if_splits)
  next
    case False
    then have "fill_fields eng t (map s_id (filter (\<lambda>s. s_agr s = aid) (sort_key s_id (signer_rows w1))))
                 answers aid w1 = (r, w')"
      using assms Inr s by (cases r1) (simp_all add: fill_draft_def)
    from fill_fields_leaves [OF this] sl show ?thesis by simp
  qed
qed

text \<open>A tenant instantiates only its own templates and gets a draft of its own: on success the template
  belongs to the owner, exactly one agreement is added, a draft of this owner under the next id with
  the template's stored file as its source, and nothing of any other agreement changes; a template of
  another owner, or of none, is not found and nothing is written.\<close>

theorem instantiate_isolated:
  assumes "owner \<noteq> 0"
    and "instantiate_template eng now env_id tid recipients name created_by (Some owner) answers w = (r, w')"
  shows "(\<forall>aid. r = InstOk aid \<longrightarrow>
      (\<exists>t pdf a. get_template_owned w tid owner = Some t \<and> files w (t_source_path t) = Some pdf \<and>
        aid = next_agr w \<and> agreement_rows w' = agreement_rows w @ [a] \<and> a_id a = aid \<and> a_owner a = Some owner \<and>
        a_status a = Draft \<and> files w' (a_source_path a) = Some pdf \<and> a_doc_hash a = en_sha256 eng pdf \<and>
        filter (\<lambda>s. s_agr s \<noteq> aid) (signer_rows w') = filter (\<lambda>s. s_agr s \<noteq> aid) (signer_rows w) \<and>
        filter (\<lambda>f. f_agr f \<noteq> aid) (field_rows w') = filter (\<lambda>f. f_agr f \<noteq> aid) (field_rows w))) \<and>
    (get_template_owned w tid owner = None \<longrightarrow> r = InstNotFound \<and> w' = w)"
proof (cases "get_template_owned w tid owner")
  case None
  then have "instantiate_template eng now env_id tid recipients name created_by (Some owner) answers w = (InstNotFound, w)"
    using assms(1)
    by (auto simp: get_template_owned_def instantiate_template_def no_owner_def split: option.splits if_splits)
  with assms(2) show ?thesis by auto
next
  case (Some t)
  then have t: "get_template w tid = Some t" "t_owner t = Some owner"
    by (auto simp: get_template_owned_def split: option.splits if_splits)
  have "\<exists>pdf a. files w (t_source_path t) = Some pdf \<and>
        aid = next_agr w \<and> agreement_rows w' = agreement_rows w @ [a] \<and> a_id a = aid \<and> a_owner a = Some owner \<and>
        a_status a = Draft \<and> files w' (a_source_path a) = Some pdf \<and> a_doc_hash a = en_sha256 eng pdf \<and>
        filter (\<lambda>s. s_agr s \<noteq> aid) (signer_rows w') = filter (\<lambda>s. s_agr s \<noteq> aid) (signer_rows w) \<and>
        filter (\<lambda>f. f_agr f \<noteq> aid) (field_rows w') = filter (\<lambda>f. f_agr f \<noteq> aid) (field_rows w)"
    if r: "r = InstOk aid" for aid
  proof -
    let ?nm = "nonblank (py_strip (first_nonempty [name, t_name t, ''Agreement''])) ''Agreement''"
    let ?pdf = "if t_source_path t = [] then [] else coalesce (files w (t_source_path t)) []"
    obtain aid1 w1 where c: "create_agreement eng now env_id ?nm ?pdf [] (nonblank created_by ''Will'')
          (t_source_doc_id t) (Some owner) w = (Some aid1, w1)" and ne: "?pdf \<noteq> []"
      and fd: "fill_draft eng t recipients answers aid1 w1 = (r, w')"
      using assms(2) t r
      by (auto simp: instantiate_template_def Let_def no_owner_def split: if_splits option.splits prod.splits)
    have pdf: "files w (t_source_path t) = Some ?pdf"
      using ne by (cases "files w (t_source_path t)") (auto split: if_splits)
    have "aid1 = aid" using fill_draft_leaves [OF fd] r by simp
    then show ?thesis
      using c fill_draft_leaves [OF fd] pdf
      by (auto simp: create_agreement_def Let_def new_agreement_def write_file_def split: option.splits)
  qed
  then show ?thesis using Some by auto
qed

text \<open>An agreement that Ann completed, a template made from it, and the draft instantiated for Bob.\<close>

definition signed_world :: world where
  "signed_world = sample_world\<lparr>
     agreement_rows := [blank_agreement\<lparr>a_status := Completed\<rparr>],
     signer_rows := [blank_signer\<lparr>s_status := Signed, s_signed_at := Some 20\<rparr>],
     field_rows := [blank_field\<lparr>f_type := ''signature'', f_required := False, f_value := ''data:ann''\<rparr>]\<rparr>"

definition with_template :: world where
  "with_template = snd (create_template ref_engine 30 ''T'' (Some 1) [] ''own'' (Some 7) signed_world)"

definition for_bob :: "inst_result \<times> world" where
  "for_bob = instantiate_template ref_engine 40 ''E2'' 1 [[(''name'', JStr ''Bob''), (''email'', JStr ''b@x.io'')]]
     [] ''own'' (Some 7) [] with_template"

lemma for_bob_ok: "fst for_bob = InstOk 2"
  by code_simp

lemma instantiate_isolated_witness:
  "\<exists>a. agreement_rows (snd for_bob) = agreement_rows with_template @ [a] \<and> a_owner a = Some 7 \<and> a_status a = Draft"
proof -
  have "instantiate_template ref_engine 40 ''E2'' 1 [[(''name'', JStr ''Bob''), (''email'', JStr ''b@x.io'')]]
     [] ''own'' (Some 7) [] with_template = (InstOk 2, snd for_bob)"
    using for_bob_ok by (simp add: for_bob_def prod_eq_iff)
  from instantiate_isolated [OF _ this] show ?thesis by auto
qed

text \<open>A template made from a signed agreement carries the signatures: the snapshot copies the fields'
  values, so the new draft's signature field already holds the first signer's signature image, now
  assigned to another person, and an optional signature field is stamped with it without anyone
  signing.\<close>

theorem template_copies_signature:
  "\<exists>w'. for_bob = (InstOk 2, w') \<and>
     map (\<lambda>s. (s_id s, s_name s, s_status s)) (agr_signers w' 2) = [(2, ''Bob'', Pending)] \<and>
     map (\<lambda>f. (f_signer f, f_type f, f_value f)) (agr_fields w' 2) = [(Some 2, ''signature'', ''data:ann'')] \<and>
     map st_value (stamps ref_engine (the (get_agreement w' 2))) = [''data:ann'']"
proof -
  have "map (\<lambda>s. (s_id s, s_name s, s_status s)) (agr_signers (snd for_bob) 2) = [(2, ''Bob'', Pending)] \<and>
     map (\<lambda>f. (f_signer f, f_type f, f_value f)) (agr_fields (snd for_bob) 2) = [(Some 2, ''signature'', ''data:ann'')] \<and>
     map st_value (stamps ref_engine (the (get_agreement (snd for_bob) 2))) = [''data:ann'']"
    by code_simp
  then show ?thesis using for_bob_ok by (intro exI [of _ "snd for_bob"]) (simp add: prod_eq_iff)
qed

end
