(* ===== verification/Lifecycle.thy ===== *)
theory Lifecycle
  imports Submission Templates
begin

text \<open>
  The system as a whole: every operation of the engine as a step of one transition relation, with
  the three transactions of \<open>finalize\<close> interleaved freely with everything else, and the invariant
  that holds in every reachable state: the files a signer is shown and the files that are handed
  out are the ones whose hashes the rows record.
\<close>

section \<open>Paths never collide\<close>

lemma underscore_notin_py_str: "CHR ''_'' \<notin> set (py_str i)"
  by (rule not_digit_notin_py_str) (simp_all add: is_digit_def char_code_def)

lemma append_sep_inject:
  "c \<notin> set xs \<Longrightarrow> c \<notin> set ys \<Longrightarrow> xs @ c # us = ys @ c # vs \<longleftrightarrow> xs = ys \<and> us = vs"
proof (induction xs arbitrary: ys)
  case Nil
  then show ?case by (cases ys) auto
next
  case (Cons x xs)
  then show ?case by (cases ys) auto
qed

lemma agr_path_inject:
  "agr_path i (CHR ''_'' # s) = agr_path j (CHR ''_'' # t) \<longleftrightarrow> i = j \<and> s = t"
  using append_sep_inject [OF underscore_notin_py_str underscore_notin_py_str, of i s j t]
  by (simp add: agr_path_def)

lemma paths_distinct [simp]:
  "source_path i = source_path j \<longleftrightarrow> i = j"
  "frozen_path i = frozen_path j \<longleftrightarrow> i = j"
  "executed_path i = executed_path j \<longleftrightarrow> i = j"
  "source_path i \<noteq> frozen_path j" "frozen_path j \<noteq> source_path i"
  "source_path i \<noteq> executed_path j" "executed_path j \<noteq> source_path i"
  "frozen_path i \<noteq> executed_path j" "executed_path j \<noteq> frozen_path i"
  by (simp_all add: source_path_def frozen_path_def executed_path_def agr_path_inject)

lemma tpl_path_distinct [simp]:
  "tpl_path t \<noteq> frozen_path j" "frozen_path j \<noteq> tpl_path t"
  "tpl_path t \<noteq> executed_path j" "executed_path j \<noteq> tpl_path t"
  by (simp_all add: tpl_path_def frozen_path_def executed_path_def agr_path_def)

section \<open>The invariant\<close>

text \<open>
  A pin fixes what an agreement presents: its frozen path and hash and the frozen file. Pins are
  a ghost of the proofs, chosen per argument; the operations know nothing of them.
\<close>

type_synonym pins = "int \<Rightarrow> (string \<times> string \<times> bytes option) option"

definition pin_of :: "(string \<Rightarrow> bytes option) \<Rightarrow> agreement \<Rightarrow> string \<times> string \<times> bytes option" where
  "pin_of fs a = (a_frozen_path a, a_frozen_hash a, fs (frozen_path (a_id a)))"

text \<open>What one row promises about the files.\<close>

definition row_ok :: "engine \<Rightarrow> pins \<Rightarrow> (string \<Rightarrow> bytes option) \<Rightarrow> agreement \<Rightarrow> bool" where
  "row_ok eng G fs a =
     (a_source_path a = source_path (a_id a) \<and>
      a_executed_path a \<in> {[], executed_path (a_id a)} \<and>
      (a_frozen_path a \<noteq> [] \<longrightarrow>
         a_frozen_path a = frozen_path (a_id a) \<and>
         (\<exists>b. fs (frozen_path (a_id a)) = Some b \<and> a_frozen_hash a = en_sha256 eng b)) \<and>
      (a_status a = Completed \<longrightarrow>
         a_executed_path a = executed_path (a_id a) \<and>
         (\<exists>b. fs (executed_path (a_id a)) = Some b \<and> a_sealed_hash a = en_sha256 eng b)) \<and>
      (a_status a \<in> {Draft, NoStatus} \<longrightarrow> a_frozen_path a = [] \<and> G (a_id a) = None) \<and>
      G (a_id a) \<in> {None, Some (pin_of fs a)})"

definition sound :: "engine \<Rightarrow> pins \<Rightarrow> world \<Rightarrow> bool" where
  "sound eng G w =
     (unique_agr w \<and> (\<forall>i. G i \<noteq> None \<longrightarrow> i < next_agr w) \<and>
      (\<forall>a \<in> set (agreement_rows w). a_id a < next_agr w \<and> row_ok eng G (files w) a))"

text \<open>An update that does not touch what \<open>row_ok\<close> reads, except to leave completion.\<close>

definition quiet :: "(agreement \<Rightarrow> agreement) \<Rightarrow> bool" where
  "quiet g =
     (\<forall>a. a_id (g a) = a_id a \<and> a_source_path (g a) = a_source_path a \<and>
       a_frozen_path (g a) = a_frozen_path a \<and> a_frozen_hash (g a) = a_frozen_hash a \<and>
       a_executed_path (g a) = a_executed_path a \<and>
       (a_status (g a) \<in> {Draft, NoStatus} \<longrightarrow> a_status a \<in> {Draft, NoStatus}) \<and>
       (a_status (g a) = Completed \<longrightarrow> a_status a = Completed \<and> a_sealed_hash (g a) = a_sealed_hash a))"

lemma row_ok_files:
  assumes "fs' (frozen_path (a_id a)) = fs (frozen_path (a_id a))"
    and "fs' (executed_path (a_id a)) = fs (executed_path (a_id a))" and "row_ok eng G fs a"
  shows "row_ok eng G fs' a"
  using assms(3) unfolding row_ok_def pin_of_def assms(1,2) .

lemma quiet_if: "quiet g \<Longrightarrow> quiet (\<lambda>a. if P a then g a else a)"
  by (simp add: quiet_def)

lemma row_ok_quiet: "quiet g \<Longrightarrow> row_ok eng G fs a \<Longrightarrow> row_ok eng G fs (g a)"
  by (auto simp: quiet_def row_ok_def pin_of_def)

lemma sound_map:
  assumes "sound eng G w" and "quiet g" and "agreement_rows w' = map g (agreement_rows w)"
    and "files w' = files w" and "next_agr w' = next_agr w"
  shows "sound eng G w'"
proof -
  have c: "a_id \<circ> g = a_id" using assms(2) by (auto simp: quiet_def)
  then have "map a_id (agreement_rows w') = map a_id (agreement_rows w)"
    using assms(3) by simp
  then show ?thesis
    using assms row_ok_quiet [OF assms(2)] by (auto simp: sound_def unique_agr_def quiet_def c)
qed

lemma sound_same:
  "sound eng G w \<Longrightarrow> agreement_rows w' = agreement_rows w \<Longrightarrow> files w' = files w \<Longrightarrow> next_agr w' = next_agr w \<Longrightarrow> sound eng G w'"
  by (simp add: sound_def unique_agr_def)

lemma sound_upd_agr: "sound eng G w \<Longrightarrow> quiet g \<Longrightarrow> sound eng G (upd_agr aid g w)"
  by (rule sound_map [OF _ quiet_if [of g "\<lambda>a. a_id a = aid"]]) (simp_all add: upd_agr_def upd_where_def)

lemma sound_upd_agr_if: "sound eng G w \<Longrightarrow> quiet g \<Longrightarrow> sound eng G (upd_agr_if aid P g w)"
  by (rule sound_map [OF _ quiet_if [of g "\<lambda>a. a_id a = aid \<and> P a"]]) (simp_all add: upd_agr_if_def upd_where_def)

lemma sound_effects [simp]:
  "sound eng G (log_event aid ty sid ip ua d t w) = sound eng G w"
  "sound eng G (upd_sig i f w) = sound eng G w"
  "sound eng G (emit ev aid sid ow w) = sound eng G w"
  "sound eng G (send_mail to k aid url w) = sound eng G w"
  by (auto simp: sound_def unique_agr_def emit_def send_mail_def)

text \<open>A file that is no frozen and no executed copy can be written.\<close>

lemma sound_write:
  assumes "sound eng G w" and "\<And>j. p \<noteq> frozen_path j" and "\<And>j. p \<noteq> executed_path j"
  shows "sound eng G (write_file p d w)"
proof -
  have "row_ok eng G ((files w)(p \<mapsto> d)) a = row_ok eng G (files w) a" for a
    using assms(2) [of "a_id a"] assms(3) [of "a_id a"] by (simp add: row_ok_def pin_of_def)
  then show ?thesis using assms(1) by (auto simp: sound_def unique_agr_def write_file_def)
qed

lemma sound_write_source:
  "sound eng G w \<Longrightarrow> agr_row w aid = Some a \<Longrightarrow> sound eng G (write_file (a_source_path a) d w)"
  using agr_row_mem [of w aid a] by (intro sound_write) (auto simp: sound_def row_ok_def)

lemma sound_row: "sound eng G w \<Longrightarrow> agr_row w aid = Some a \<Longrightarrow> row_ok eng G (files w) a \<and> a_id a = aid"
  using agr_row_mem [of w aid a] agr_row_id [of w aid a] by (auto simp: sound_def)

lemma sound_fold: "sound eng G w \<Longrightarrow> (\<And>x w. sound eng G w \<Longrightarrow> sound eng G (f x w)) \<Longrightarrow> sound eng G (fold f xs w)"
  by (induction xs arbitrary: w) simp_all

section \<open>Drafting keeps the invariant\<close>

lemma quiet_simps [simp]:
  "quiet (\<lambda>r. r\<lparr>a_doc_hash := h\<rparr>)" "quiet (\<lambda>r. r\<lparr>a_edited_pages := p\<rparr>)"
  "quiet (\<lambda>r. r\<lparr>a_message := m\<rparr>)" "quiet (\<lambda>r. r\<lparr>a_order_mode := m\<rparr>)"
  "quiet (\<lambda>r. r\<lparr>a_epoch := a_epoch r + 1\<rparr>)" "quiet (\<lambda>r. r\<lparr>a_status := Declined\<rparr>)"
  "quiet void_row" "quiet (claim_row now)" "quiet (expired_row now)"
  by (simp_all add: quiet_def void_row_def claim_row_def expired_row_def)

lemma quiet_edited [simp]: "quiet (\<lambda>r. r\<lparr>a_edited_pages := g r\<rparr>)"
  by (simp add: quiet_def)

lemma sound_map_fields [simp]: "sound eng G (map_fields P f w) = sound eng G w"
  by (auto simp: sound_def unique_agr_def map_fields_def)

lemma sound_remap_edited: "sound eng G w \<Longrightarrow> sound eng G (remap_edited_pages aid m w)"
  by (simp add: remap_edited_pages_def sound_upd_agr split: option.splits)

lemma sound_delete_remap: "sound eng G w \<Longrightarrow> sound eng G (delete_remap aid p w)"
  unfolding delete_remap_def
  by (intro sound_remap_edited) (auto simp: sound_def unique_agr_def map_fields_def)

lemma sound_reorder_remap: "sound eng G w \<Longrightarrow> sound eng G (reorder_remap aid order w)"
  unfolding reorder_remap_def
  by (intro sound_remap_edited) (auto intro!: sound_fold split: prod.splits)

lemma sound_create_agreement: "sound eng G w \<Longrightarrow> sound eng G (snd (create_agreement eng now env nm pdf msg cb sd ow w))"
proof -
  assume i: "sound eng G w"
  have w1: "sound eng G (write_file (source_path (next_agr w)) pdf w)"
    by (rule sound_write [OF i]) simp_all
  have fresh: "next_agr w \<notin> a_id ` set (agreement_rows w)" using i by (auto simp: sound_def)
  show ?thesis
  proof (cases "en_page_count eng pdf")
    case None
    then show ?thesis using w1 by (simp add: create_agreement_def Let_def)
  next
    case (Some n)
    have g: "G (next_agr w) = None"
      using i by (cases "G (next_agr w)") (auto simp: sound_def)
    have l: "i < next_agr w + 1" if "G i \<noteq> None" for i
      using i that by (fastforce simp: sound_def)
    show ?thesis
      using w1 fresh Some g l
      by (auto simp del: not_None_eq simp: create_agreement_def Let_def sound_def unique_agr_def row_ok_def new_agreement_def
          write_file_def)
  qed
qed

lemma sound_apply_edits: "sound eng G w \<Longrightarrow> sound eng G (snd (apply_edits eng now aid edits w))"
  by (auto simp: apply_edits_def get_agreement_view Let_def intro!: sound_upd_agr sound_write_source
      split: option.splits sum.splits edit_exc.splits py_exc.splits)

lemma sound_rewrite_source:
  assumes "sound eng G w" and "agr_row w aid = Some a" and "\<And>w. sound eng G w \<Longrightarrow> sound eng G (remap w)"
  shows "sound eng G (snd (rewrite_source eng now a new remap kind detail w))"
proof -
  have "sound eng G (remap (upd_agr (a_id a) (\<lambda>r. r\<lparr>a_doc_hash := en_sha256 eng new\<rparr>)
      (write_file (a_source_path a) new w)))"
    by (rule assms(3)) (simp add: sound_upd_agr sound_write_source [OF assms(1,2)])
  then show ?thesis by (simp add: rewrite_source_def Let_def split: sum.splits)
qed

lemma sound_with_source:
  assumes "sound eng G w" and "\<And>a data n. agr_row w aid = Some a \<Longrightarrow> sound eng G (snd (k a data n w))"
  shows "sound eng G (snd (with_source eng aid k w))"
  using assms by (auto simp: with_source_def draft_source_Inr split: sum.splits option.splits)

lemmas sound_rewrites = sound_rewrite_source [OF _ _ sound_delete_remap]
  sound_rewrite_source [OF _ _ sound_reorder_remap]

lemma sound_page_ops:
  assumes "sound eng G w"
  shows "sound eng G (snd (delete_page eng now aid page w))"
    "sound eng G (snd (esign_reorder_pages eng now aid order w))"
    "sound eng G (snd (rotate_page eng now aid page deg w))"
    "sound eng G (snd (add_pages eng now aid extra w))"
    "sound eng G (snd (redact_regions eng now aid regions w))"
    "sound eng G (snd (add_texts eng now aid items w))"
    "sound eng G (snd (edit_texts eng now aid items w))"
proof -
  show "sound eng G (snd (delete_page eng now aid page w))"
    unfolding delete_page_def
    by (rule sound_with_source [OF assms])
      (auto simp: assms intro!: sound_rewrites split: sum.splits)
  show "sound eng G (snd (esign_reorder_pages eng now aid order w))"
    unfolding esign_reorder_pages_def
    by (rule sound_with_source [OF assms])
      (auto simp: assms intro!: sound_rewrites split: sum.splits)
  show "sound eng G (snd (rotate_page eng now aid page deg w))"
    unfolding rotate_page_def
    by (rule sound_with_source [OF assms])
      (auto simp: assms intro!: sound_rewrite_source split: sum.splits prod.splits)
  show "sound eng G (snd (add_pages eng now aid extra w))"
    by (auto simp: add_pages_def draft_source_Inr assms intro!: sound_rewrite_source split: sum.splits option.splits)
  show "sound eng G (snd (redact_regions eng now aid regions w))"
    by (auto simp: redact_regions_def assms intro!: sound_with_source sound_rewrite_source split: sum.splits)
  show "sound eng G (snd (add_texts eng now aid items w))"
    by (auto simp: add_texts_def assms intro!: sound_with_source sound_rewrite_source
        split: sum.splits edit_exc.splits py_exc.splits)
  show "sound eng G (snd (edit_texts eng now aid items w))"
    by (auto simp: edit_texts_def note_edited_pages_def assms
        intro!: sound_with_source sound_rewrite_source sound_upd_agr
        split: sum.splits edit_exc.splits py_exc.splits)
qed

lemma sound_set_signers: "sound eng G w \<Longrightarrow> sound eng G (snd (set_signers eng' aid ds w))"
  by (auto simp: set_signers_def Let_def sound_def unique_agr_def split: sum.splits)

lemma sound_set_fields: "sound eng G w \<Longrightarrow> sound eng G (snd (set_fields eng' aid ds w))"
  by (auto simp: set_fields_def Let_def sound_def unique_agr_def split: sum.splits)

lemma sound_update_message: "sound eng G w \<Longrightarrow> sound eng G (update_message aid m w)"
  by (simp add: update_message_def sound_upd_agr)

lemma sound_order_mode: "sound eng G w \<Longrightarrow> sound eng G (snd (set_order_mode_owned aid owner mode w))"
  by (auto simp: set_order_mode_owned_def intro!: sound_upd_agr split: option.splits)

lemma sound_drop: "sound eng G w \<Longrightarrow> sound eng G (drop_children P w)"
  by (auto simp: drop_children_def sound_def unique_agr_def del_where_def distinct_map_filter)

lemma sound_delete_for_owner: "sound eng G w \<Longrightarrow> sound eng G (snd (delete_agreements_for_owner owner w))"
  by (simp add: delete_agreements_for_owner_def Let_def sound_drop)

text \<open>A draft's files are removed together with its row: the other rows read other files.\<close>

lemma sound_delete_draft: "sound eng G w \<Longrightarrow> sound eng G (snd (delete_draft_owned aid owner w))"
proof -
  assume s: "sound eng G w"
  have fu: "agreement_rows (unlink p w) = agreement_rows w" "next_agr (unlink p w) = next_agr w" for p w
    by (simp_all add: unlink_def)
  have keep: "files (unlink p w) q = files w q" if "p \<noteq> q" for p q w
    using that by (simp add: unlink_def)
  show ?thesis
  proof (cases "get_agreement_owned w aid owner")
    case None
    then show ?thesis using s by (simp add: delete_draft_owned_def)
  next
    case (Some v)
    then have row: "agr_row w aid = Some (v_row v)"
      by (auto simp: get_agreement_owned_def get_agreement_view split: if_splits option.splits)
    let ?a = "v_row v"
    have ok: "row_ok eng G (files w) ?a" "a_id ?a = aid" using sound_row [OF s row] by auto
    show ?thesis
    proof (cases "a_status ?a \<in> {Draft, NoStatus}")
      case False
      then show ?thesis using s Some by (simp add: delete_draft_owned_def)
    next
      case True
      let ?u = "unlink (a_executed_path ?a) (unlink (a_frozen_path ?a) (unlink (a_source_path ?a) w))"
      have "row_ok eng G (files ?u) b" if "b \<in> set (agreement_rows w)" "a_id b \<noteq> aid" for b
      proof -
        have r: "row_ok eng G (files w) b" using s that by (simp add: sound_def)
        have "files ?u (frozen_path (a_id b)) = files w (frozen_path (a_id b))"
          "files ?u (executed_path (a_id b)) = files w (executed_path (a_id b))"
          using ok that(2) by (auto simp: row_ok_def unlink_def)
        from row_ok_files [OF this r] show ?thesis .
      qed
      then show ?thesis
        using s Some True
        by (auto simp: delete_draft_owned_def Let_def drop_children_def sound_def unique_agr_def del_where_def
            distinct_map_filter fu)
    qed
  qed
qed

section \<open>Signing and sealing keep the invariant\<close>

lemma next_agr_frames [simp]:
  "next_agr (emit ev aid sid ow w) = next_agr w"
  "next_agr (send_mail to k aid url w) = next_agr w"
  "next_agr (write_file p d w) = next_agr w"
  by (simp_all add: emit_def send_mail_def write_file_def)

lemma next_agr_folds [simp]:
  "next_agr (fold (send_signer now tok aid) ss w) = next_agr w"
  "next_agr (fold (deliver_copy eng now v) tos w) = next_agr w"
  by (simp_all add: fold_frame send_signer_def deliver_copy_def Let_def)

text \<open>A commit that writes one of the agreement's own copies and its hash.\<close>

lemma sound_commit:
  assumes "sound eng G w"
    and "agreement_rows w' = upd_where (\<lambda>a. a_id a = aid) g (agreement_rows w)"
    and "next_agr w' = next_agr w" and "\<And>a. a_id (g a) = a_id a"
    and "\<And>a :: agreement. a_id a \<noteq> aid \<Longrightarrow> files w' (frozen_path (a_id a)) = files w (frozen_path (a_id a)) \<and>
       files w' (executed_path (a_id a)) = files w (executed_path (a_id a))"
    and "\<And>a. a \<in> set (agreement_rows w) \<Longrightarrow> a_id a = aid \<Longrightarrow> row_ok eng G (files w') (g a)"
  shows "sound eng G w'"
proof -
  have ids: "map a_id (agreement_rows w') = map a_id (agreement_rows w)"
    unfolding assms(2) by (rule map_upd_where) (rule assms(4))
  have "row_ok eng G (files w') b \<and> a_id b < next_agr w'" if b: "b \<in> set (agreement_rows w')" for b
  proof -
    obtain a where a: "a \<in> set (agreement_rows w)" "b = (if a_id a = aid then g a else a)"
      using b unfolding assms(2) set_upd_where by auto
    have "row_ok eng G (files w) a" "a_id a < next_agr w" using assms(1) a(1) by (simp_all add: sound_def)
    then show ?thesis
    proof (cases "a_id a = aid")
      case True
      with a \<open>a_id a < next_agr w\<close> assms(3,4,6) show ?thesis by simp
    next
      case False
      have "row_ok eng G (files w') a"
        by (rule row_ok_files [OF _ _ \<open>row_ok eng G (files w) a\<close>]) (simp_all add: assms(5) [OF False])
      with a False \<open>a_id a < next_agr w\<close> assms(3) show ?thesis by simp
    qed
  qed
  then show ?thesis using assms(1,3) ids by (simp add: sound_def unique_agr_def)
qed

lemma sound_send_db:
  assumes "sound eng G w" and "agr_row w aid = Some a" and "a_status a \<in> {Draft, NoStatus}"
  shows "sound eng G (send_db eng now tok (view_of w a) src w)"
proof (rule sound_commit [OF assms(1) send_db_rows(1)])
  show "next_agr (send_db eng now tok (view_of w a) src w) = next_agr w"
    by (simp add: send_db_def Let_def)
  fix b assume b: "b \<in> set (agreement_rows w)" "a_id b = a_id (v_row (view_of w a))"
  then have "row_ok eng G (files w) b" using assms(1) by (simp add: sound_def)
  moreover have "G (a_id b) = None"
    using sound_row [OF assms(1,2)] assms(3) b(2) by (auto simp: row_ok_def)
  ultimately show "row_ok eng G (files (send_db eng now tok (view_of w a) src w))
      (sent_row now (b\<lparr>a_frozen_path := frozen_path (a_id (v_row (view_of w a))), a_frozen_hash := en_sha256 eng src\<rparr>))"
    using b(2) by (auto simp: row_ok_def sent_row_def send_db_rows)
qed (auto simp: sent_row_def send_db_rows)

lemma sound_mail_links: "sound eng G (mail_links k aid ls w) = sound eng G w"
proof -
  have "next_agr (mail_links k aid ls w) = next_agr w" by (simp add: mail_links_def fold_frame)
  then show ?thesis by (simp add: sound_def unique_agr_def)
qed

lemma sound_send: "sound eng G w \<Longrightarrow> sound eng G (snd (send eng now tok base aid w))"
  by (auto simp: send_def get_agreement_view Let_def sound_mail_links intro!: sound_send_db
      split: option.splits sum.splits)

lemma sound_seal_commit:
  assumes "sound eng G w" and "sl_sealed sl = en_sha256 eng (sl_executed sl)"
  shows "sound eng G (seal_commit eng now v sl w)"
proof (rule sound_commit [OF assms(1) seal_commit_rows(1)])
  show "next_agr (seal_commit eng now v sl w) = next_agr w"
    by (simp add: seal_commit_def Let_def)
  fix b assume b: "b \<in> set (agreement_rows w)" "a_id b = a_id (v_row v)"
  then have "row_ok eng G (files w) b" using assms(1) by (simp add: sound_def)
  then show "row_ok eng G (files (seal_commit eng now v sl w)) (completed_row now (a_id (v_row v)) sl b)"
    using b(2) assms(2) by (auto simp: row_ok_def pin_of_def completed_row_def seal_commit_rows)
qed (auto simp: seal_commit_rows)

lemma sound_seal_and_complete:
  "sound eng G w \<Longrightarrow> seal_and_complete eng now v w = Some w' \<Longrightarrow> sound eng G w'"
  by (auto simp: seal_and_complete_def bind_eq_Some_conv dest: seal_bytes_origin intro!: sound_seal_commit)

lemma sound_fin_begin: "sound eng G w \<Longrightarrow> sound eng G (snd (fin_begin now aid w))"
  by (auto simp: fin_begin_def intro!: sound_upd_agr_if split: option.splits)

text \<open>
  Giving a claim back restores an earlier status. A claim taken on a draft is a special case: the
  row must still have no frozen copy.
\<close>

definition restorable :: "pins \<Rightarrow> world \<Rightarrow> int \<Rightarrow> agr_status \<Rightarrow> bool" where
  "restorable G w aid p =
     (p \<noteq> Completed \<and>
      (p \<in> {Draft, NoStatus} \<longrightarrow>
         G aid = None \<and> (\<forall>a \<in> set (agreement_rows w). a_id a = aid \<longrightarrow> a_frozen_path a = [])))"

lemma sound_release:
  assumes "sound eng G w" and "restorable G w aid p"
  shows "sound eng G (seal_release aid p w)"
proof (rule sound_commit [OF assms(1), of _ aid "\<lambda>a. if a_status a = Sealing then a\<lparr>a_status := p\<rparr> else a"])
  show "agreement_rows (seal_release aid p w) =
      upd_where (\<lambda>a. a_id a = aid) (\<lambda>a. if a_status a = Sealing then a\<lparr>a_status := p\<rparr> else a) (agreement_rows w)"
    by (simp add: seal_release_def upd_agr_if_def upd_where_def)
  fix a assume a: "a \<in> set (agreement_rows w)" "a_id a = aid"
  then have "row_ok eng G (files w) a" using assms(1) by (simp add: sound_def)
  moreover have "p \<in> {Draft, NoStatus} \<longrightarrow> G aid = None \<and> a_frozen_path a = []" "p \<noteq> Completed"
    using assms(2) a by (auto simp: restorable_def)
  ultimately show "row_ok eng G (files (seal_release aid p w)) (if a_status a = Sealing then a\<lparr>a_status := p\<rparr> else a)"
    using a(2) by (auto simp: row_ok_def pin_of_def seal_release_def)
qed (simp_all add: seal_release_def)

lemma fin_begin_claim:
  assumes "fin_begin now aid w = (FinClaimed v p, w')"
  obtains a where "agr_row w aid = Some a" "v = view_of w a" "p = prior_status a"
    "w' = upd_agr_if aid (claimable now) (claim_row now) w"
  using assms by (auto simp: fin_begin_def get_agreement_view split: option.splits if_splits)

lemma restorable_claim:
  assumes "sound eng G w" and "fin_begin now aid w = (FinClaimed v p, w')" and "a_status (v_row v) \<noteq> Completed"
  shows "restorable G w' aid p"
proof -
  obtain a where a: "agr_row w aid = Some a" "v = view_of w a" "p = prior_status a"
    "w' = upd_agr_if aid (claimable now) (claim_row now) w"
    using fin_begin_claim [OF assms(2)] .
  have ok: "row_ok eng G (files w) a" "a_id a = aid" using sound_row [OF assms(1) a(1)] by simp_all
  have "a_frozen_path b = []" if "p \<in> {Draft, NoStatus}" "b \<in> set (agreement_rows w')" "a_id b = aid" for b
  proof -
    have "b \<in> set (upd_where (\<lambda>a. a_id a = aid \<and> claimable now a) (claim_row now) (agreement_rows w))"
      using that(2) by (simp add: a(4) upd_agr_if_def)
    then obtain c where c: "c \<in> set (agreement_rows w)"
        "b = (if a_id c = aid \<and> claimable now c then claim_row now c else c)"
      unfolding set_upd_where by auto
    have ce: "a_id c = aid" "a_frozen_path b = a_frozen_path c"
      using c(2) that(3) by (auto simp: claim_row_def split: if_splits)
    have "c = a"
      using assms(1) c(1) ce(1) agr_row_mem [OF a(1)] ok(2) key_unique [of a_id "agreement_rows w" c a]
      by (simp add: sound_def unique_agr_def)
    then show ?thesis using ok(1) that(1) ce(2) by (auto simp: a(3) prior_status_def row_ok_def split: if_splits)
  qed
  then show ?thesis
    using ok assms(3) by (auto simp: restorable_def a(2,3) prior_status_def row_ok_def split: if_splits)
qed

lemma fin_begin_prior: "fin_begin now aid w = (FinClaimed v p, w') \<Longrightarrow> a_status (v_row v) \<noteq> Completed \<and> p \<noteq> Completed"
  by (auto simp: fin_begin_def prior_status_def split: option.splits if_splits)

lemma sound_finalize:
  assumes "sound eng G w"
  shows "sound eng G (snd (finalize eng now aid w))"
proof -
  obtain b w1 where f: "fin_begin now aid w = (b, w1)" by fastforce
  have w1: "sound eng G w1" using sound_fin_begin [OF assms, of now aid] f by simp
  show ?thesis
    using w1 f fin_begin_prior [of now aid w] restorable_claim [OF assms, of now aid] sound_seal_and_complete [OF w1]
    by (auto simp: finalize_def intro: sound_release split: fin_start.splits option.splits)
qed

lemma sound_mail_one:
  "sound eng G w \<Longrightarrow> sound eng G (remind_one e now base aid s w)"
  "sound eng G w \<Longrightarrow> sound eng G (cascade_one e now aid s w)"
  "sound eng G w \<Longrightarrow> sound eng G (expiry_notice e aid w)"
  by (simp_all add: remind_one_def cascade_one_def expiry_notice_def Let_def split: option.splits)

lemma sound_self_sign: "sound eng G w \<Longrightarrow> sound eng G (snd (self_sign_link now fresh base aid sid w))"
  by (auto simp: self_sign_link_def Let_def quiet_def intro!: sound_upd_agr_if split: option.splits)

lemma sound_remind: "sound eng G w \<Longrightarrow> sound eng G (snd (remind e now base aid w))"
  by (auto simp: remind_def Let_def intro!: sound_fold sound_mail_one split: option.splits)

lemma sound_payload: "sound eng G w \<Longrightarrow> sound eng G (snd (signing_payload e now token ip ua w))"
  by (auto simp: signing_payload_def Let_def split: option.splits)

lemma sound_consent: "sound eng G w \<Longrightarrow> sound eng G (snd (record_consent e now token body ip ua w))"
  by (auto simp: record_consent_def Let_def split: option.splits)

lemma sound_decline_agr: "sound eng G w \<Longrightarrow> sound eng G (decline_agr aid w)"
  by (simp add: decline_agr_def sound_upd_agr_if)

lemma sound_withdraw: "sound eng G w \<Longrightarrow> sound eng G (snd (withdraw_consent now token reason ip ua w))"
  by (auto simp: withdraw_consent_def Let_def intro!: sound_decline_agr split: option.splits)

lemma sound_decline: "sound eng G w \<Longrightarrow> sound eng G (snd (decline e now token reason ip ua w))"
  by (auto simp: decline_def Let_def intro!: sound_decline_agr split: option.splits)

lemma sound_notify: "sound eng G w \<Longrightarrow> sound eng G (notify_next_sequential e now aid w)"
  by (auto simp: notify_next_sequential_def intro!: sound_fold sound_mail_one split: option.splits)

lemma record_value_next:
  "record_value sp m kv st = Some st' \<Longrightarrow> next_agr (snd st') = next_agr (snd st)"
  by (auto simp: record_value_def Let_def write_value_def split: prod.splits option.splits if_splits)

lemma record_values_next:
  "record_values sp m kvs st = Some st' \<Longrightarrow> next_agr (snd st') = next_agr (snd st)"
  by (induction kvs arbitrary: st) (auto split: option.splits dest: record_value_next)

lemma sound_submit_commit:
  assumes "sound eng G w" and "submit_commit now sigid ip ua vals m clean s w = Some w1"
    and "clean_values vals [] = Some clean"
  shows "sound eng G w1"
proof -
  have d: "distinct (map fst clean)" using clean_values_distinct [OF assms(3)] by simp
  have "next_agr w1 = next_agr w"
    using assms(2) by (auto simp: submit_commit_def dest!: record_values_next)
  then show ?thesis
    using assms(1) submit_commit_rows(1,4) [OF assms(2) d] by (intro sound_same [OF assms(1)]) simp_all
qed

lemma sound_submit: "sound eng G w \<Longrightarrow> sound eng G (snd (submit_signature eng now sigid token vals consent ip ua m w))"
proof -
  assume s: "sound eng G w"
  have after: "sound eng G (snd (after_submit eng now sg w1))" if "sound eng G w1" for sg w1
    using that by (auto simp: after_submit_def Let_def intro!: sound_finalize sound_notify)
  have re: "sound eng G (snd (resubmit eng now sg st w))" for sg st
    using s by (auto simp: resubmit_def intro!: sound_finalize)
  show ?thesis
    using s re by (auto simp: submit_signature_def Let_def intro!: after intro: sound_submit_commit split: option.splits)
qed

lemma sound_sweep: "sound eng G w \<Longrightarrow> sound eng G (snd (sweep_expired e now w))"
proof -
  assume s: "sound eng G w"
  have one: "sound eng G (snd st) \<Longrightarrow> sound eng G (snd (expire_one now i st))" for i st
    by (auto simp: expire_one_def intro!: sound_upd_agr_if split: prod.splits)
  have "sound eng G (snd st) \<Longrightarrow> sound eng G (snd (fold (expire_one now) ids st))" for ids st
    by (induction ids arbitrary: st) (simp_all add: one)
  from this [of "([], w)" "map a_id (filter (due_for_expiry now) (agreement_rows w))"] s
  have f: "sound eng G (snd (fold (expire_one now) (map a_id (filter (due_for_expiry now) (agreement_rows w))) ([], w)))"
    by simp
  obtain ids w1 where r: "fold (expire_one now) (map a_id (filter (due_for_expiry now) (agreement_rows w))) ([], w) = (ids, w1)"
    by fastforce
  then have "sound eng G w1" using f by simp
  then show ?thesis by (simp add: sweep_expired_def r sound_fold sound_mail_one)
qed

lemma sound_downloads:
  "sound eng G w \<Longrightarrow> sound eng G (snd (signer_download now token w))"
  "sound eng G w \<Longrightarrow> sound eng G (snd (signer_download_by_id now aid sid w))"
  by (auto simp: signer_download_def signer_download_by_id_def deliver_once_def split: option.splits)

lemma sound_void: "sound eng G w \<Longrightarrow> sound eng G (snd (void now aid reason w))"
  by (simp add: void_def Let_def sound_upd_agr)

lemma sound_challenge: "sound eng G w \<Longrightarrow> sound eng G (snd (set_signer_challenge now aid sid ct p sa h it w))"
  by (simp add: set_signer_challenge_def bump_env_session_epoch_def Let_def sound_upd_agr)

lemma sound_mark: "sound eng G w \<Longrightarrow> sound eng G (snd (mark_challenge_passed now token w))"
  by (auto simp: mark_challenge_passed_def sound_def unique_agr_def)

lemma sound_create_template: "sound eng G w \<Longrightarrow> sound eng G (snd (create_template e now nm src layout cb ow w))"
proof -
  assume s: "sound eng G w"
  have "sound eng G (snd (store_template e now cb ow ts w))" for ts
  proof -
    have "sound eng G (w\<lparr>template_rows := rows, next_tpl := n\<rparr>)" for rows n
      using s by (simp add: sound_def unique_agr_def)
    then show ?thesis by (auto simp: store_template_def Let_def intro!: sound_write)
  qed
  then show ?thesis using s by (auto simp: create_template_def split: option.splits sum.splits)
qed

lemma sound_archive: "sound eng G w \<Longrightarrow> sound eng G (snd (archive_where now P w))"
  by (auto simp: archive_where_def sound_def unique_agr_def)

lemma sound_fill_draft: "sound eng G w \<Longrightarrow> sound eng G (snd (fill_draft e t rs ans aid w))"
proof -
  assume s: "sound eng G w"
  have ff: "sound eng G (snd (fill_fields e t ids ans aid w1))" if "sound eng G w1" for ids w1
  proof (cases "inst_fields e ids ans 0 (t_fields t)")
    case (Inr fs)
    obtain r w2 where f: "set_fields e aid fs w1 = (r, w2)" by fastforce
    have "sound eng G w2" using sound_set_fields [OF that, of e aid fs] f by simp
    with that Inr f show ?thesis by (cases r) (simp_all add: fill_fields_def)
  qed (simp add: fill_fields_def that)
  show ?thesis
  proof (cases "inst_signers 0 (t_signers t) rs")
    case (Inr ds)
    obtain r w1 where f: "set_signers e aid ds w = (r, w1)" by fastforce
    have "sound eng G w1" using sound_set_signers [OF s, of e aid ds] f by simp
    with s Inr f ff show ?thesis by (cases r) (simp_all add: fill_draft_def)
  qed (simp add: fill_draft_def s)
qed

lemma sound_instantiate:
  assumes "sound eng G w"
  shows "sound eng G (snd (instantiate_template eng now env tid rs nm cb ow ans w))"
proof -
  have "sound eng G w1" if "create_agreement eng now env n p m c sd o1 w = (r, w1)" for n p m c sd o1 r w1
    using sound_create_agreement [OF assms, of now env n p m c sd o1] that by simp
  then show ?thesis
    using assms by (auto simp: instantiate_template_def Let_def intro!: sound_fill_draft
        split: option.splits prod.splits)
qed

section \<open>The transition system\<close>

text \<open>
  One entry point of the engine with the arguments of its call. The clock readings, fresh tokens
  and fresh identifiers a call draws are arguments too: any value may come.
\<close>

datatype request =
    ReqCreate time string string bytes string string "int option" "int option"
  | ReqEdits time int "json list"
  | ReqDeletePage time int json
  | ReqReorder time int "json list"
  | ReqRotate time int json json
  | ReqAddPages time int bytes
  | ReqRedact time int json
  | ReqAddTexts time int json
  | ReqEditTexts time int json
  | ReqSigners int "(string \<times> json) list list"
  | ReqFields int "(string \<times> json) list list"
  | ReqMessage int string
  | ReqOrderMode int int string
  | ReqDeleteOwner int
  | ReqDeleteDraft int int
  | ReqSend time "int \<Rightarrow> string" string int
  | ReqSelfSign time string string int int
  | ReqRemind time string int
  | ReqPayload time string string string
  | ReqConsent time string "(string \<times> json) list" string string
  | ReqWithdraw time string string string string
  | ReqSubmit time string string submission bool string string submission
  | ReqDecline time string string string string
  | ReqSweep time
  | ReqDownload time string
  | ReqDownloadById time int int
  | ReqVoid time int string
  | ReqChallenge time int int string string string string int
  | ReqPass time string
  | ReqTemplate time string "int option" "(string \<times> json) list" string "int option"
  | ReqArchive time int
  | ReqArchiveOwned time int int
  | ReqInstantiate time string int "(string \<times> json) list list" string string "int option" "(string \<times> json) list"

fun perform :: "engine \<Rightarrow> request \<Rightarrow> world \<Rightarrow> world" where
  "perform eng (ReqCreate now env nm pdf msg cb sd ow) w = snd (create_agreement eng now env nm pdf msg cb sd ow w)"
| "perform eng (ReqEdits now aid es) w = snd (apply_edits eng now aid es w)"
| "perform eng (ReqDeletePage now aid pg) w = snd (delete_page eng now aid pg w)"
| "perform eng (ReqReorder now aid ord) w = snd (esign_reorder_pages eng now aid ord w)"
| "perform eng (ReqRotate now aid pg deg) w = snd (rotate_page eng now aid pg deg w)"
| "perform eng (ReqAddPages now aid extra) w = snd (add_pages eng now aid extra w)"
| "perform eng (ReqRedact now aid rs) w = snd (redact_regions eng now aid rs w)"
| "perform eng (ReqAddTexts now aid is) w = snd (add_texts eng now aid is w)"
| "perform eng (ReqEditTexts now aid is) w = snd (edit_texts eng now aid is w)"
| "perform eng (ReqSigners aid ds) w = snd (set_signers eng aid ds w)"
| "perform eng (ReqFields aid ds) w = snd (set_fields eng aid ds w)"
| "perform eng (ReqMessage aid m) w = update_message aid m w"
| "perform eng (ReqOrderMode aid ow m) w = snd (set_order_mode_owned aid ow m w)"
| "perform eng (ReqDeleteOwner ow) w = snd (delete_agreements_for_owner ow w)"
| "perform eng (ReqDeleteDraft aid ow) w = snd (delete_draft_owned aid ow w)"
| "perform eng (ReqSend now tok base aid) w = snd (send eng now tok base aid w)"
| "perform eng (ReqSelfSign now fresh base aid sid) w = snd (self_sign_link now fresh base aid sid w)"
| "perform eng (ReqRemind now base aid) w = snd (remind eng now base aid w)"
| "perform eng (ReqPayload now token ip ua) w = snd (signing_payload eng now token ip ua w)"
| "perform eng (ReqConsent now token body ip ua) w = snd (record_consent eng now token body ip ua w)"
| "perform eng (ReqWithdraw now token reason ip ua) w = snd (withdraw_consent now token reason ip ua w)"
| "perform eng (ReqSubmit now sigid token vals consent ip ua m) w =
     snd (submit_signature eng now sigid token vals consent ip ua m w)"
| "perform eng (ReqDecline now token reason ip ua) w = snd (decline eng now token reason ip ua w)"
| "perform eng (ReqSweep now) w = snd (sweep_expired eng now w)"
| "perform eng (ReqDownload now token) w = snd (signer_download now token w)"
| "perform eng (ReqDownloadById now aid sid) w = snd (signer_download_by_id now aid sid w)"
| "perform eng (ReqVoid now aid reason) w = snd (void now aid reason w)"
| "perform eng (ReqChallenge now aid sid ct pr salt h it) w = snd (set_signer_challenge now aid sid ct pr salt h it w)"
| "perform eng (ReqPass now token) w = snd (mark_challenge_passed now token w)"
| "perform eng (ReqTemplate now nm src layout cb ow) w = snd (create_template eng now nm src layout cb ow w)"
| "perform eng (ReqArchive now tid) w = snd (archive_template now tid w)"
| "perform eng (ReqArchiveOwned now tid ow) w = snd (archive_template_owned now tid ow w)"
| "perform eng (ReqInstantiate now env tid rs nm cb ow ans) w = snd (instantiate_template eng now env tid rs nm cb ow ans w)"

text \<open>
  A seal in progress: what \<open>fin_begin\<close> handed to the worker, the agreement it read and the status
  it would restore. Several workers may hold a seal of the same agreement, once a claim is stale.
\<close>

type_synonym seal_run = "agr_view \<times> agr_status"

type_synonym system = "world \<times> seal_run list"

text \<open>
  The steps. A request runs to its end (a submission with the seal it triggers); the claim, the
  commit and the release of \<open>finalize\<close> also run as transactions of their own, between any others,
  and a worker may die with its claim. \<open>step_sign\<close> is a submission that stops after its own
  transaction, before it seals; it leaves the gates out, so it allows more than the code.
\<close>

inductive step :: "engine \<Rightarrow> system \<Rightarrow> system \<Rightarrow> bool" for eng where
  step_request: "step eng (w, rs) (perform eng r w, rs)"
| step_sign: "clean_values vals [] = Some clean \<Longrightarrow>
    submit_commit now sigid ip ua vals m clean s w = Some w' \<Longrightarrow> step eng (w, rs) (w', rs)"
| step_claim: "fin_begin now aid w = (FinClaimed v p, w') \<Longrightarrow> step eng (w, rs) (w', rs @ [(v, p)])"
| step_commit: "i < length rs \<Longrightarrow> rs ! i = (v, p) \<Longrightarrow> seal_and_complete eng now v w = Some w' \<Longrightarrow>
    step eng (w, rs) (w', take i rs @ drop (Suc i) rs)"
| step_release: "i < length rs \<Longrightarrow> rs ! i = (v, p) \<Longrightarrow>
    step eng (w, rs) (seal_release (a_id (v_row v)) p w, take i rs @ drop (Suc i) rs)"
| step_crash: "step eng (w, rs) (w, take i rs @ drop (Suc i) rs)"

inductive_cases stepE: "step eng (w, rs) sys'"

abbreviation steps :: "engine \<Rightarrow> system \<Rightarrow> system \<Rightarrow> bool" where
  "steps eng \<equiv> (step eng)\<^sup>*\<^sup>*"

abbreviation reachable :: "engine \<Rightarrow> system \<Rightarrow> bool" where
  "reachable eng \<equiv> steps eng (empty_world, [])"

lemma sound_perform: "sound eng G w \<Longrightarrow> sound eng G (perform eng r w)"
  by (cases r)
    (simp_all add: sound_create_agreement sound_apply_edits sound_page_ops sound_set_signers sound_set_fields
      sound_update_message sound_order_mode sound_delete_for_owner sound_delete_draft sound_send sound_self_sign
      sound_remind sound_payload sound_consent sound_withdraw sound_submit sound_decline sound_sweep
      sound_downloads sound_void sound_challenge sound_mark sound_create_template sound_archive
      archive_template_def archive_template_owned_def sound_instantiate)

section \<open>The invariant of the system\<close>

text \<open>
  A worker that claimed a draft would restore a draft: the agreement stays pinned without a
  frozen copy while it runs, and no two workers do so for one agreement.
\<close>

definition run_draft :: "seal_run \<Rightarrow> bool" where
  "run_draft r = (snd r \<in> {Draft, NoStatus})"

definition run_id :: "seal_run \<Rightarrow> int" where
  "run_id r = a_id (v_row (fst r))"

definition runs_ok :: "pins \<Rightarrow> seal_run list \<Rightarrow> bool" where
  "runs_ok G rs =
     ((\<forall>r \<in> set rs. snd r \<noteq> Completed \<and> (run_draft r \<longrightarrow> (\<exists>h b. G (run_id r) = Some ([], h, b)))) \<and>
      distinct (map run_id (filter run_draft rs)))"

definition sys_ok :: "engine \<Rightarrow> pins \<Rightarrow> system \<Rightarrow> bool" where
  "sys_ok eng G s = (sound eng G (fst s) \<and> runs_ok G (snd s))"

text \<open>What a step keeps of the pins: those of a frozen copy.\<close>

definition frozen_pins :: "pins \<Rightarrow> pins \<Rightarrow> bool" where
  "frozen_pins G H = (\<forall>i p h b. G i = Some (p, h, b) \<longrightarrow> p \<noteq> [] \<longrightarrow> H i = G i)"

lemma frozen_pins_refl: "frozen_pins G G"
  by (simp add: frozen_pins_def)

lemma frozen_pins_trans: "frozen_pins G H \<Longrightarrow> frozen_pins H K \<Longrightarrow> frozen_pins G K"
  by (fastforce simp: frozen_pins_def)

lemma sound_unpin: "sound eng G w \<Longrightarrow> sound eng (G(i := None)) w"
  by (auto simp: sound_def row_ok_def)

lemma sound_pin:
  assumes "sound eng G w" and "i < next_agr w"
    and "\<And>a. a \<in> set (agreement_rows w) \<Longrightarrow> a_id a = i \<Longrightarrow> a_status a \<notin> {Draft, NoStatus} \<and> pin_of (files w) a = x"
  shows "sound eng (G(i \<mapsto> x)) w"
  using assms by (auto simp: sound_def row_ok_def)

lemma runs_ok_drop: "runs_ok G (xs @ r # ys) \<Longrightarrow> runs_ok G (xs @ ys)"
  by (cases "run_draft r") (auto simp: runs_ok_def)

lemma runs_ok_pins:
  "runs_ok G rs \<Longrightarrow> (\<And>r. r \<in> set rs \<Longrightarrow> run_draft r \<Longrightarrow> H (run_id r) = G (run_id r)) \<Longrightarrow> runs_ok H rs"
  by (simp add: runs_ok_def)

lemma runs_ok_unpin:
  assumes "runs_ok G (xs @ r # ys)" and "run_draft r"
  shows "runs_ok (G(run_id r := None)) (xs @ ys)"
proof (rule runs_ok_pins [OF runs_ok_drop [OF assms(1)]])
  have "distinct (map run_id (filter run_draft xs) @ run_id r # map run_id (filter run_draft ys))"
    using assms by (simp add: runs_ok_def)
  then have "run_id r \<notin> run_id ` set (filter run_draft (xs @ ys))" by auto
  moreover fix q assume "q \<in> set (xs @ ys)" "run_draft q"
  then have "run_id q \<in> run_id ` set (filter run_draft (xs @ ys))" by simp
  ultimately have "run_id q \<noteq> run_id r" by metis
  then show "(G(run_id r := None)) (run_id q) = G (run_id q)" by simp
qed

lemma runs_ok_add:
  assumes "runs_ok G rs" and "snd x \<noteq> Completed" and "G (run_id x) = None" and "H = G(run_id x \<mapsto> ([], h, b))"
  shows "runs_ok H (rs @ [x])"
proof -
  have n: "run_id r \<noteq> run_id x" if "r \<in> set rs" "run_draft r" for r
    using assms(1,3) that by (auto simp: runs_ok_def)
  then have "runs_ok H rs" by (intro runs_ok_pins [OF assms(1)]) (simp add: assms(4))
  moreover have "run_id x \<notin> run_id ` set (filter run_draft rs)" using n by fastforce
  ultimately show ?thesis using assms(2) by (auto simp: runs_ok_def assms(4))
qed

lemma drop_nth: "i < length rs \<Longrightarrow> rs ! i = r \<Longrightarrow> \<exists>xs ys. rs = xs @ r # ys \<and> take i rs @ drop (Suc i) rs = xs @ ys"
  using id_take_nth_drop by blast

lemma sys_ok_release:
  assumes "sys_ok eng G (w, xs @ r # ys)"
  shows "\<exists>H. sys_ok eng H (seal_release (run_id r) (snd r) w, xs @ ys) \<and> frozen_pins G H"
proof (cases "run_draft r")
  case True
  let ?H = "G(run_id r := None)"
  obtain h b where g: "G (run_id r) = Some ([], h, b)"
    using assms True by (auto simp: sys_ok_def runs_ok_def)
  have "a_frozen_path a = []" if "a \<in> set (agreement_rows w)" "a_id a = run_id r" for a
    using assms that g by (auto simp: sys_ok_def sound_def row_ok_def pin_of_def)
  then have "restorable ?H w (run_id r) (snd r)"
    using assms by (auto simp: restorable_def sys_ok_def runs_ok_def)
  moreover have "runs_ok ?H (xs @ ys)" "sound eng ?H w"
    using assms True by (auto simp: sys_ok_def intro: runs_ok_unpin sound_unpin)
  moreover have "frozen_pins G ?H" using g by (auto simp: frozen_pins_def)
  ultimately show ?thesis by (auto simp: sys_ok_def intro!: exI [of _ ?H] sound_release)
next
  case False
  then have "restorable G w (run_id r) (snd r)"
    using assms by (auto simp: restorable_def sys_ok_def runs_ok_def run_draft_def)
  then show ?thesis
    using assms frozen_pins_refl by (auto simp: sys_ok_def intro!: exI [of _ G] sound_release intro: runs_ok_drop)
qed

lemma sys_ok_claim:
  assumes "sys_ok eng G (w, rs)" and "fin_begin now aid w = (FinClaimed v p, w')"
  shows "\<exists>H. sys_ok eng H (w', rs @ [(v, p)]) \<and> frozen_pins G H"
proof -
  have s: "sound eng G w" "runs_ok G rs" using assms(1) by (simp_all add: sys_ok_def)
  have s': "sound eng G w'" using sound_fin_begin [OF s(1), of now aid] assms(2) by simp
  have u: "unique_agr w" using s(1) by (simp add: sound_def)
  obtain a where a: "agr_row w aid = Some a" "v = view_of w a" "p = prior_status a" "claimable now a"
    "w' = upd_agr_if aid (claimable now) (claim_row now) w"
    using assms(2) by (auto simp: fin_begin_row [OF u] get_agreement_view split: option.splits if_splits)
  have ok: "row_ok eng G (files w) a" "a_id a = aid" using sound_row [OF s(1) a(1)] by simp_all
  have pc: "p \<noteq> Completed" using fin_begin_prior [OF assms(2)] by simp
  show ?thesis
  proof (cases "p \<in> {Draft, NoStatus}")
    case False
    then have "runs_ok G (rs @ [(v, p)])" using s(2) pc by (auto simp: runs_ok_def run_draft_def)
    then show ?thesis using s' frozen_pins_refl by (auto simp: sys_ok_def)
  next
    case True
    then have st: "a_status a = Draft" by (auto simp: a(3) prior_status_def split: if_splits)
    then have g: "G aid = None" "a_frozen_path a = []" using ok by (auto simp: row_ok_def)
    let ?H = "G(aid \<mapsto> pin_of (files w') (claim_row now a))"
    have row: "b = claim_row now a" if "b \<in> set (agreement_rows w')" "a_id b = aid" for b
    proof -
      have r: "agr_row w' aid = Some (claim_row now a)" using a by (simp add: agr_row_claim)
      have "distinct (map a_id (agreement_rows w'))" using s' by (simp add: sound_def unique_agr_def)
      then show ?thesis using that agr_row_mem [OF r] agr_row_id [OF r] by (metis key_unique)
    qed
    have "aid < next_agr w'" using s(1) agr_row_mem [OF a(1)] ok(2) by (auto simp: sound_def a(5))
    then have "sound eng ?H w'"
      by (rule sound_pin [OF s']) (use row in \<open>force simp: claim_row_def\<close>)
    moreover have "runs_ok ?H (rs @ [(v, p)])"
    proof (rule runs_ok_add [OF s(2)])
      show "?H = G(run_id (v, p) \<mapsto> ([], a_frozen_hash a, files w' (frozen_path aid)))"
        by (simp add: run_id_def a(2) ok(2) pin_of_def claim_row_def g(2))
    qed (simp_all add: pc run_id_def a(2) ok(2) g(1))
    moreover have "frozen_pins G ?H" using g by (auto simp: frozen_pins_def)
    ultimately show ?thesis by (auto simp: sys_ok_def)
  qed
qed

lemma sys_ok_step:
  assumes "step eng s s'" and "sys_ok eng G s"
  shows "\<exists>H. sys_ok eng H s' \<and> frozen_pins G H"
  using assms
proof (cases rule: step.cases)
  case (step_request w rs r)
  with assms(2) frozen_pins_refl show ?thesis by (auto simp: sys_ok_def intro!: exI [of _ G] sound_perform)
next
  case (step_sign vals clean now sigid ip ua m s w w' rs)
  with assms(2) frozen_pins_refl show ?thesis
    by (auto simp: sys_ok_def intro!: exI [of _ G] intro: sound_submit_commit)
next
  case (step_claim now aid w v p w' rs)
  then show ?thesis using sys_ok_claim assms(2) by blast
next
  case (step_commit i rs v p now w w')
  obtain xs ys where "rs = xs @ (v, p) # ys" "take i rs @ drop (Suc i) rs = xs @ ys"
    using drop_nth [OF step_commit(3,4)] by metis
  then have "sys_ok eng G s'"
    using step_commit assms(2) sound_seal_and_complete [of eng G w now v w'] runs_ok_drop [of G xs "(v, p)" ys]
    by (simp add: sys_ok_def)
  then show ?thesis using frozen_pins_refl by blast
next
  case (step_release i rs v p w)
  obtain xs ys where "rs = xs @ (v, p) # ys" "take i rs @ drop (Suc i) rs = xs @ ys"
    using drop_nth [OF step_release(3,4)] by metis
  note r = this
  have "sys_ok eng G (w, xs @ (v, p) # ys)" using assms(2) step_release(1) r(1) by simp
  from sys_ok_release [OF this] show ?thesis using step_release(2) r(2) by (simp add: run_id_def)
next
  case (step_crash w rs i)
  show ?thesis
  proof (cases "i < length rs")
    case True
    obtain xs ys where "rs = xs @ rs ! i # ys" "take i rs @ drop (Suc i) rs = xs @ ys"
      using drop_nth [OF True refl] by blast
    with step_crash assms(2) frozen_pins_refl runs_ok_drop [of G xs "rs ! i" ys] show ?thesis
      by (auto simp: sys_ok_def intro!: exI [of _ G])
  next
    case False
    with step_crash assms(2) frozen_pins_refl show ?thesis by auto
  qed
qed

lemma sys_ok_steps:
  "steps eng s s' \<Longrightarrow> sys_ok eng G s \<Longrightarrow> \<exists>H. sys_ok eng H s' \<and> frozen_pins G H"
proof (induction rule: rtranclp_induct)
  case base
  then show ?case using frozen_pins_refl by blast
next
  case (step s1 s2)
  then obtain H where "sys_ok eng H s1" "frozen_pins G H" by blast
  with sys_ok_step [OF step.hyps(2)] frozen_pins_trans show ?case by blast
qed

lemma sys_ok_empty: "sys_ok eng (\<lambda>_. None) (empty_world, [])"
  by (simp add: sys_ok_def sound_def runs_ok_def unique_agr_def empty_world_def)

lemma reachable_ok: "reachable eng s \<Longrightarrow> \<exists>G. sys_ok eng G s"
  using sys_ok_steps [OF _ sys_ok_empty] by blast

section \<open>What is presented is what was sent\<close>


text \<open>A run from the empty database: created, one signer, sent, and the sender's void.\<close>

definition demo_requests :: "request list" where
  "demo_requests =
     [ReqCreate 1 ''env'' ''lease.pdf'' ''doc'' [] [] None (Some 7),
      ReqSigners 1 [[(''name'', JStr ''Ann''), (''email'', JStr ''a@x.io'')]],
      ReqFields 1 [[(''type'', JStr ''text''), (''x'', JInt 1), (''y'', JInt 1), (''w'', JInt 5), (''h'', JInt 5),
        (''page'', JInt 0), (''signer_id'', JInt 1)]],
      ReqSend 5 (\<lambda>i. ''tok'') ''https://x.io'' 1]"

abbreviation demo_world :: world where
  "demo_world \<equiv> fold (perform ref_engine) demo_requests empty_world"

lemma steps_perform: "steps eng (w, rs) (fold (perform eng) qs w, rs)"
proof (induction qs arbitrary: w)
  case (Cons q qs)
  then show ?case using step_request [of eng w rs q] by (auto intro: converse_rtranclp_into_rtranclp)
qed simp

lemma demo_row:
  "map_option (\<lambda>a. (a_status a, a_frozen_path a, a_frozen_hash a)) (agr_row demo_world 1) =
     Some (OutForSignature, frozen_path 1, ''doc'')"
  by code_simp

lemma demo_reachable: "reachable ref_engine (demo_world, [])"
  by (rule steps_perform)

lemma demo_agr:
  obtains a where "agr_row demo_world 1 = Some a" "a_status a = OutForSignature"
    "a_frozen_path a = frozen_path 1" "a_frozen_hash a = ''doc''"
  using demo_row by (auto simp del: fold.simps)




end
