(* ===== verification/Recovery.thy ===== *)
theory Recovery
  imports Lifecycle
begin

text \<open>
  Recovery: an interrupted seal is finished. A claim whose holder died is taken over, and a seal that failed
  leaves an agreement that can be claimed again; the retry is the re-submission of a signer who already signed.
\<close>

lemma sent_presented:
  assumes "reachable eng (w, rs)" and "agr_row w aid = Some a" and "a_frozen_path a \<noteq> []"
  shows "\<exists>b. presented_bytes w a = Some b \<and> a_frozen_hash a = en_sha256 eng b" and "unique_agr w"
proof -
  obtain G where g: "sound eng G w" using reachable_ok [OF assms(1)] by (auto simp: sys_ok_def)
  from sound_row [OF g assms(2)] show "\<exists>b. presented_bytes w a = Some b \<and> a_frozen_hash a = en_sha256 eng b"
    using assms(3) by (auto simp: row_ok_def presented_bytes_def)
  show "unique_agr w" using g by (simp add: sound_def)
qed


text \<open>The demonstration envelope: signed, then claimed by a worker that died.\<close>

definition signed_world :: world where
  "signed_world = the (submit_commit 20 ''SIG'' ''ip'' ''ua'' [(''1'', JStr ''v'')] [] [(1, ''v'')]
     (the (signer_by_token demo_world ''tok'')) demo_world)"

definition crashed_world :: world where
  "crashed_world = snd (fin_begin 21 1 signed_world)"

lemma crashed_reachable: "reachable ref_engine (crashed_world, [])"
proof -
  have "clean_values [(''1'', JStr ''v'')] [] = Some [(1, ''v'')]" by code_simp
  moreover have "submit_commit 20 ''SIG'' ''ip'' ''ua'' [(''1'', JStr ''v'')] [] [(1, ''v'')] (the (signer_by_token demo_world ''tok'')) demo_world \<noteq> None"
    by code_simp
  ultimately have "step ref_engine (demo_world, []) (signed_world, [])"
    by (intro step_sign) (auto simp: signed_world_def simp del: fold.simps)
  moreover have "case fst (fin_begin 21 1 signed_world) of FinStop b \<Rightarrow> False | FinClaimed v p \<Rightarrow> True"
    by code_simp
  then obtain v p where "fin_begin 21 1 signed_world = (FinClaimed v p, crashed_world)"
    by (auto simp: crashed_world_def prod_eq_iff split: fin_start.splits)
  then have "step ref_engine (signed_world, []) (crashed_world, [] @ [(v, p)])" by (rule step_claim)
  moreover have "step ref_engine (crashed_world, [(v, p)]) (crashed_world, [])"
    using step_crash [of ref_engine crashed_world "[(v, p)]" 0] by simp
  ultimately show ?thesis using demo_reachable by (metis append_Nil rtranclp.rtrancl_into_rtrancl)
qed

lemma crashed_state:
  "map_option (\<lambda>s. (s_agr s, s_status s)) (signer_by_token crashed_world ''tok'') = Some (1, Signed)"
  "map_option (\<lambda>a. (a_status a, a_sealing_at a, a_frozen_path a)) (agr_row crashed_world 1) = Some (Sealing, Some 21, frozen_path 1)"
  "submit_gate_early 200 (the (signer_by_token crashed_world ''tok'')) (agr_row crashed_world 1) = None"
  "unsigned_count crashed_world 1 = 0" "list_all (\<lambda>r. \<not> challenge_unmet r) (agr_signers crashed_world 1)"
  by code_simp+


end
