(* ===== verification/Throttle.thy ===== *)
theory Throttle
  imports Prelude
begin

text \<open>
  The shared settings and throttling tables of \<open>sign/db.py\<close>: one-time markers
  (\<open>claim_once\<close>), the brute-force lockout (\<open>auth_limits\<close>) and the fixed-window rate
  limiter (\<open>auth_rate_limits\<close>). Each table is keyed by a string primary key, so it is a map; a
  read-modify-write of the code is one upsert under a write lock, so it is one function here. The
  clock reading of a call is an argument. A setting is the JSON value the row holds.
\<close>

section \<open>The tables\<close>

record lock_row =
  lk_fails :: int
  lk_until :: time
  lk_updated :: time

record rate_row =
  rt_count :: int
  rt_start :: time
  rt_updated :: time

record auth_db =
  settings :: "string \<Rightarrow> json option"
  locks :: "string \<Rightarrow> lock_row option"
  rates :: "string \<Rightarrow> rate_row option"

definition empty_auth :: auth_db where
  "empty_auth = \<lparr>settings = (\<lambda>_. None), locks = (\<lambda>_. None), rates = (\<lambda>_. None)\<rparr>"

section \<open>Settings\<close>

definition get_setting :: "string \<Rightarrow> json \<Rightarrow> auth_db \<Rightarrow> json" where
  "get_setting k dflt d = (case settings d k of None \<Rightarrow> dflt | Some v \<Rightarrow> v)"

definition set_setting :: "string \<Rightarrow> json \<Rightarrow> auth_db \<Rightarrow> auth_db" where
  "set_setting k v d = d\<lparr>settings := (settings d)(k \<mapsto> v)\<rparr>"

text \<open>\<open>INSERT ... ON CONFLICT(key) DO NOTHING\<close>: the row count tells who claimed the key.\<close>

definition claim_once :: "string \<Rightarrow> json \<Rightarrow> auth_db \<Rightarrow> bool \<times> auth_db" where
  "claim_once k v d =
     (case settings d k of
        None \<Rightarrow> (True, d\<lparr>settings := (settings d)(k \<mapsto> v)\<rparr>)
      | Some _ \<Rightarrow> (False, d))"

section \<open>Lockout\<close>

definition auth_limit_locked :: "time \<Rightarrow> string \<Rightarrow> auth_db \<Rightarrow> bool" where
  "auth_limit_locked now k d = (case locks d k of None \<Rightarrow> False | Some r \<Rightarrow> now < lk_until r)"

text \<open>The upsert of a miss: a lock still running is left as it is, a lapsed one is cleared.\<close>

definition miss_row :: "time \<Rightarrow> lock_row option \<Rightarrow> lock_row" where
  "miss_row ts r =
     (case r of
        None \<Rightarrow> \<lparr>lk_fails = 1, lk_until = 0, lk_updated = ts\<rparr>
      | Some r \<Rightarrow>
          \<lparr>lk_fails = (if ts < lk_until r then lk_fails r else lk_fails r + 1),
           lk_until = (if ts < lk_until r then lk_until r else 0), lk_updated = ts\<rparr>)"

definition auth_limit_record :: "time \<Rightarrow> string \<Rightarrow> bool \<Rightarrow> int \<Rightarrow> time \<Rightarrow> auth_db \<Rightarrow> auth_db" where
  "auth_limit_record ts k ok fail_limit lock_seconds d =
     (if ok then d\<lparr>locks := (locks d)(k := None)\<rparr>
      else
        (let r = miss_row ts (locks d k)
         in if ts < lk_until r then d\<lparr>locks := (locks d)(k \<mapsto> r)\<rparr>
            else if fail_limit \<le> lk_fails r
            then d\<lparr>locks := (locks d)(k \<mapsto> \<lparr>lk_fails = 0, lk_until = ts + lock_seconds, lk_updated = ts\<rparr>)\<rparr>
            else d\<lparr>locks := (locks d)(k \<mapsto> r)\<rparr>))"

section \<open>Fixed-window rate limit\<close>

definition rate_upsert :: "time \<Rightarrow> time \<Rightarrow> rate_row option \<Rightarrow> rate_row" where
  "rate_upsert ts window r =
     (case r of
        None \<Rightarrow> \<lparr>rt_count = 1, rt_start = ts, rt_updated = ts\<rparr>
      | Some r \<Rightarrow>
          \<lparr>rt_count = (if window \<le> ts - rt_start r then 1 else rt_count r + 1),
           rt_start = (if window \<le> ts - rt_start r then ts else rt_start r), rt_updated = ts\<rparr>)"

definition auth_rate_allowed :: "time \<Rightarrow> string \<Rightarrow> int \<Rightarrow> time \<Rightarrow> auth_db \<Rightarrow> bool \<times> auth_db" where
  "auth_rate_allowed ts k limit window d =
     (let r = rate_upsert ts window (rates d k)
      in (rt_count r \<le> limit, d\<lparr>rates := (rates d)(k \<mapsto> r)\<rparr>))"

section \<open>What a call leaves alone\<close>

lemma settings_frames [simp]:
  "settings (set_setting k v d) = (settings d)(k \<mapsto> v)"
  "settings (auth_limit_record ts k ok n s d) = settings d"
  "settings (snd (auth_rate_allowed ts k l w d)) = settings d"
  by (simp_all add: set_setting_def auth_limit_record_def auth_rate_allowed_def Let_def)

lemma locks_frames [simp]:
  "locks (set_setting k v d) = locks d"
  "locks (snd (claim_once k v d)) = locks d"
  "locks (snd (auth_rate_allowed ts k l w d)) = locks d"
  by (simp_all add: set_setting_def claim_once_def auth_rate_allowed_def Let_def split: option.splits)

lemma rates_frames [simp]:
  "rates (set_setting k v d) = rates d"
  "rates (snd (claim_once k v d)) = rates d"
  "rates (auth_limit_record ts k ok n s d) = rates d"
  by (simp_all add: set_setting_def claim_once_def auth_limit_record_def Let_def split: option.splits)

lemma locked_frames [simp]:
  "auth_limit_locked now k (set_setting k' v d) = auth_limit_locked now k d"
  "auth_limit_locked now k (snd (auth_rate_allowed ts k' l w d)) = auth_limit_locked now k d"
  by (simp_all add: auth_limit_locked_def)

lemma locks_record_other: "k' \<noteq> k \<Longrightarrow> locks (auth_limit_record ts k ok n s d) k' = locks d k'"
  by (simp add: auth_limit_record_def Let_def)

lemma rates_allowed_other: "k' \<noteq> k \<Longrightarrow> rates (snd (auth_rate_allowed ts k l w d)) k' = rates d k'"
  by (simp add: auth_rate_allowed_def Let_def)

lemma get_set_setting [simp]:
  "get_setting k dflt (set_setting k v d) = v"
  "k' \<noteq> k \<Longrightarrow> get_setting k' dflt (set_setting k v d) = get_setting k' dflt d"
  by (simp_all add: get_setting_def)

section \<open>One-time markers\<close>

text \<open>Any number of claims of one key, in any order with other claims.\<close>

fun claim_all :: "(string \<times> json) list \<Rightarrow> auth_db \<Rightarrow> bool list \<times> auth_db" where
  "claim_all [] d = ([], d)"
| "claim_all ((k, v) # cs) d =
     (let (b, d1) = claim_once k v d; (bs, d2) = claim_all cs d1 in (b # bs, d2))"

definition wins :: "string \<Rightarrow> (string \<times> json) list \<Rightarrow> bool list \<Rightarrow> nat" where
  "wins k cs bs = length (filter (\<lambda>((k', _), b). k' = k \<and> b) (zip cs bs))"

lemma wins_simps [simp]:
  "wins k [] bs = 0"
  "wins k (c # cs) (b # bs) = (if fst c = k \<and> b then 1 else 0) + wins k cs bs"
  by (cases c; simp add: wins_def)+

lemma claim_all_taken: "settings d k \<noteq> None \<Longrightarrow> wins k cs (fst (claim_all cs d)) = 0"
proof (induction cs arbitrary: d)
  case (Cons c cs)
  obtain k' v where c: "c = (k', v)" by fastforce
  have "settings (snd (claim_once k' v d)) k \<noteq> None"
    using Cons.prems by (auto simp: claim_once_def split: option.splits)
  from Cons.IH [OF this] Cons.prems show ?case
    by (auto simp: c claim_once_def Let_def split: prod.splits option.splits)
qed simp

lemma claim_all_free:
  "settings d k = None \<Longrightarrow> wins k cs (fst (claim_all cs d)) = (if k \<in> fst ` set cs then 1 else 0)"
proof (induction cs arbitrary: d)
  case (Cons c cs)
  obtain k' v where c: "c = (k', v)" by fastforce
  show ?case
  proof (cases "k' = k")
    case True
    then have "claim_once k' v d = (True, d\<lparr>settings := (settings d)(k \<mapsto> v)\<rparr>)"
      using Cons.prems by (simp add: claim_once_def)
    with True claim_all_taken [of "d\<lparr>settings := (settings d)(k \<mapsto> v)\<rparr>" k cs] show ?thesis
      by (simp add: c Let_def split_beta)
  next
    case False
    then have "settings (snd (claim_once k' v d)) k = None"
      using Cons.prems by (auto simp: claim_once_def split: option.splits)
    from Cons.IH [OF this] False show ?thesis by (simp add: c Let_def split_beta)
  qed
qed simp

text \<open>A one-time marker is claimed exactly once: whatever claims of whatever keys are made in whatever
  order, exactly one claim of a free key wins, and none of a key already taken.\<close>

theorem claimed_once:
  "wins k cs (fst (claim_all cs d)) = (if settings d k = None \<and> k \<in> fst ` set cs then 1 else 0)"
  by (cases "settings d k") (simp_all add: claim_all_free claim_all_taken)

section \<open>The lockout bounds guessing\<close>

text \<open>
  A guess as every caller makes it: refused without being looked at while the key is locked, and
  otherwise evaluated and recorded. The result tells whether it was evaluated.
\<close>

definition guess :: "string \<Rightarrow> int \<Rightarrow> time \<Rightarrow> time \<times> bool \<Rightarrow> auth_db \<Rightarrow> bool \<times> auth_db" where
  "guess k n lock g d =
     (if auth_limit_locked (fst g) k d then (False, d)
      else (True, auth_limit_record (fst g) k (snd g) n lock d))"

fun guesses :: "string \<Rightarrow> int \<Rightarrow> time \<Rightarrow> (time \<times> bool) list \<Rightarrow> auth_db \<Rightarrow> bool list \<times> auth_db" where
  "guesses k n lock [] d = ([], d)"
| "guesses k n lock (g # gs) d =
     (let (b, d1) = guess k n lock g d; (bs, d2) = guesses k n lock gs d1 in (b # bs, d2))"

definition evaluated :: "bool list \<Rightarrow> int" where
  "evaluated bs = int (length (filter id bs))"

lemma evaluated_simps [simp]:
  "evaluated [] = 0" "evaluated (b # bs) = (if b then 1 else 0) + evaluated bs"
  by (simp_all add: evaluated_def)

lemma guesses_locked_out:
  assumes "locks d k = Some r" and "\<forall>g \<in> set gs. fst g < lk_until r"
  shows "evaluated (fst (guesses k n lock gs d)) = 0"
  using assms(2)
proof (induction gs)
  case (Cons g gs)
  then have "guess k n lock g d = (False, d)" by (simp add: guess_def auth_limit_locked_def assms(1))
  with Cons show ?case by (simp add: Let_def split_beta)
qed simp

text \<open>How many misses the row still allows.\<close>

definition misses_left :: "int \<Rightarrow> lock_row option \<Rightarrow> int" where
  "misses_left n r = (case r of None \<Rightarrow> n | Some r \<Rightarrow> max 1 (n - lk_fails r))"

lemma guesses_bound:
  assumes "1 \<le> n" and "0 \<le> T" and "\<forall>g \<in> set gs. T \<le> fst g \<and> fst g < T + lock \<and> \<not> snd g"
  shows "evaluated (fst (guesses k n lock gs d)) \<le> misses_left n (locks d k)"
  using assms(3)
proof (induction gs arbitrary: d)
  case Nil
  then show ?case using assms(1) by (auto simp: misses_left_def split: option.splits)
next
  case (Cons g gs)
  let ?t = "fst g"
  have rest: "\<forall>g \<in> set gs. T \<le> fst g \<and> fst g < T + lock \<and> \<not> snd g" using Cons.prems by simp
  show ?case
  proof (cases "auth_limit_locked ?t k d")
    case True
    then show ?thesis using Cons.IH [OF rest, of d] by (simp add: guess_def Let_def split_beta)
  next
    case False
    define f where "f = (case locks d k of None \<Rightarrow> 0 | Some r \<Rightarrow> lk_fails r)"
    let ?r = "miss_row ?t (locks d k)"
    have t: "0 \<le> ?t" "T \<le> ?t" "\<not> snd g" using Cons.prems assms(2) by auto
    have r: "\<not> ?t < lk_until ?r" "lk_fails ?r = f + 1"
      using False t(1) by (auto simp: f_def miss_row_def auth_limit_locked_def split: option.splits)
    let ?d = "snd (guess k n lock g d)"
    have left: "misses_left n (locks d k) = (if locks d k = None then n else max 1 (n - f))"
      by (auto simp: misses_left_def f_def split: option.splits)
    show ?thesis
    proof (cases "n \<le> f + 1")
      case True
      have "locks ?d k = Some \<lparr>lk_fails = 0, lk_until = ?t + lock, lk_updated = ?t\<rparr>"
        using False r t(3) True by (simp add: guess_def auth_limit_record_def Let_def)
      then have "evaluated (fst (guesses k n lock gs ?d)) = 0"
        by (rule guesses_locked_out) (use rest t(2) in force)
      then show ?thesis using left assms(1) by (simp add: guess_def False Let_def split_beta)
    next
      case False': False
      have "locks ?d k = Some ?r"
        using False r t(3) False' by (simp add: guess_def auth_limit_record_def Let_def)
      then have "misses_left n (locks ?d k) = n - f - 1"
        using False' r(2) by (simp add: misses_left_def)
      with Cons.IH [OF rest, of ?d] left False' show ?thesis
        by (auto simp: guess_def False Let_def split_beta f_def split: if_splits)
    qed
  qed
qed



section \<open>The rate limit\<close>

fun calls :: "string \<Rightarrow> int \<Rightarrow> time \<Rightarrow> time list \<Rightarrow> auth_db \<Rightarrow> bool list \<times> auth_db" where
  "calls k l w [] d = ([], d)"
| "calls k l w (t # ts) d =
     (let (b, d1) = auth_rate_allowed t k l w d; (bs, d2) = calls k l w ts d1 in (b # bs, d2))"

text \<open>A window opened inside the interval outlasts it; one opened before is left at most once.\<close>

lemma calls_in_window:
  assumes "rates d k = Some r" and "T \<le> rt_start r" and "\<forall>t \<in> set ts. T \<le> t \<and> t < T + w"
  shows "evaluated (fst (calls k l w ts d)) \<le> max 0 (l - rt_count r)"
  using assms
proof (induction ts arbitrary: d r)
  case (Cons t ts)
  have "\<not> w \<le> t - rt_start r" using Cons.prems(2,3) by (auto simp: algebra_simps)
  then have a: "auth_rate_allowed t k l w d =
      (rt_count r + 1 \<le> l, d\<lparr>rates := (rates d)(k \<mapsto> r\<lparr>rt_count := rt_count r + 1, rt_updated := t\<rparr>)\<rparr>)"
    by (cases r) (simp add: auth_rate_allowed_def rate_upsert_def Cons.prems(1))
  let ?d = "d\<lparr>rates := (rates d)(k \<mapsto> r\<lparr>rt_count := rt_count r + 1, rt_updated := t\<rparr>)\<rparr>"
  have "evaluated (fst (calls k l w ts ?d)) \<le> max 0 (l - (rt_count r + 1))"
    using Cons.IH [of ?d "r\<lparr>rt_count := rt_count r + 1, rt_updated := t\<rparr>"] Cons.prems by simp
  then show ?case by (auto simp: a Let_def split_beta)
qed simp

lemma calls_bound:
  assumes "0 \<le> l" and "\<forall>t \<in> set ts. T \<le> t \<and> t < T + w"
    and "\<forall>r. rates d k = Some r \<longrightarrow> 0 \<le> rt_count r"
  shows "evaluated (fst (calls k l w ts d)) \<le>
    l + (case rates d k of None \<Rightarrow> 0 | Some r \<Rightarrow> max 0 (l - rt_count r))"
  using assms(2,3)
proof (induction ts arbitrary: d)
  case Nil
  then show ?case using assms(1) by (auto split: option.splits)
next
  case (Cons t ts)
  let ?d = "snd (auth_rate_allowed t k l w d)"
  let ?r = "rate_upsert t w (rates d k)"
  have d: "rates ?d k = Some ?r" "fst (auth_rate_allowed t k l w d) = (rt_count ?r \<le> l)"
    by (simp_all add: auth_rate_allowed_def Let_def)
  have rest: "\<forall>t \<in> set ts. T \<le> t \<and> t < T + w" "T \<le> t" using Cons.prems(1) by auto
  show ?case
  proof (cases "case rates d k of None \<Rightarrow> True | Some r \<Rightarrow> w \<le> t - rt_start r")
    case True
    then have r: "rt_count ?r = 1" "rt_start ?r = t"
      by (auto simp: rate_upsert_def split: option.splits)
    have "evaluated (fst (calls k l w ts ?d)) \<le> max 0 (l - 1)"
      using calls_in_window [OF d(1) _ rest(1)] r rest(2) by simp
    then show ?thesis using d(2) r(1) assms(1) by (auto simp: Let_def split_beta split: option.splits)
  next
    case False
    then obtain r where r: "rates d k = Some r" "rt_count ?r = rt_count r + 1"
      by (auto simp: rate_upsert_def split: option.splits)
    have "0 \<le> rt_count r" using Cons.prems(2) r(1) by simp
    then have "evaluated (fst (calls k l w ts ?d)) \<le> l + max 0 (l - (rt_count r + 1))"
      using Cons.IH [of ?d] rest(1) d(1) r(2) by simp
    then show ?thesis using d(2) r by (auto simp: Let_def split_beta)
  qed
qed

text \<open>The rate limiter never lets more than twice its limit through in any interval of one window's
  length, wherever the interval starts and however the calls fall in it, and no more than the limit when the
  key is fresh.\<close>

theorem rate_limit_bound:
  assumes "0 \<le> l" and "\<forall>t \<in> set ts. T \<le> t \<and> t < T + w"
    and "\<forall>r. rates d k = Some r \<longrightarrow> 0 \<le> rt_count r"
  shows "evaluated (fst (calls k l w ts d)) \<le> 2 * l \<and>
    (rates d k = None \<longrightarrow> evaluated (fst (calls k l w ts d)) \<le> l)"
  using calls_bound [OF assms] assms(1,3) by (auto split: option.splits)

lemma rate_limit_bound_witness:
  "evaluated (fst (calls ''k'' 2 60 [119, 120, 120, 121] (snd (calls ''k'' 2 60 [60, 62] empty_auth)))) \<le> 4 \<and>
   fst (calls ''k'' 2 60 [119, 120, 120, 121] (snd (calls ''k'' 2 60 [60, 62] empty_auth))) = [False, True, True, False]"
proof
  let ?d = "snd (calls ''k'' 2 60 [60, 62] empty_auth)"
  have "rates ?d ''k'' = Some \<lparr>rt_count = 2, rt_start = 60, rt_updated = 62\<rparr>"
    by (simp add: Let_def auth_rate_allowed_def rate_upsert_def empty_auth_def)
  then show "evaluated (fst (calls ''k'' 2 60 [119, 120, 120, 121] ?d)) \<le> 4"
    using rate_limit_bound [of 2 "[119, 120, 120, 121]" 119 60 ?d "''k''"] by simp
  show "fst (calls ''k'' 2 60 [119, 120, 120, 121] ?d) = [False, True, True, False]"
    by (simp add: Let_def auth_rate_allowed_def rate_upsert_def empty_auth_def)
qed

end
