(* ===== verification/Tokens.thy ===== *)
theory Tokens
  imports Throttle Base64
begin

text \<open>
  The authentication primitives of \<open>sign/webauth.py\<close>: the signed tokens every session,
  pending step and mail link is made of (\<open>_sign\<close>, \<open>_unsign\<close>), and the time-based one-time
  codes (\<open>_hotp\<close>, \<open>_totp_match_step\<close>, \<open>totp_verify\<close>) with base 32 decoding and the
  dynamic truncation written out. The keyed hashes, the key derivation and the JSON text of a
  payload are parameters (\<open>auth_env\<close>).
\<close>

section \<open>Parameters\<close>

record auth_env =
  ae_secret :: bytes
  ae_mac :: "bytes \<Rightarrow> bytes \<Rightarrow> string"
  ae_mac1 :: "bytes \<Rightarrow> bytes \<Rightarrow> bytes"
  ae_pbkdf2 :: "bytes \<Rightarrow> bytes \<Rightarrow> int \<Rightarrow> bytes"
  ae_dumps :: "json \<Rightarrow> bytes"
  ae_loads :: "bytes \<Rightarrow> json option"

text \<open>\<open>str.encode("utf-8")\<close> of a Latin-1 string.\<close>

definition utf8_char :: "char \<Rightarrow> bytes" where
  "utf8_char c =
     (if char_code c < 128 then [c]
      else [char_of (192 + char_code c div 64), char_of (128 + char_code c mod 64)])"

definition utf8 :: "string \<Rightarrow> bytes" where
  "utf8 s = concat (map utf8_char s)"

lemma utf8_ascii: "\<forall>c \<in> set s. char_code c < 128 \<Longrightarrow> utf8 s = s"
  by (induction s) (simp_all add: utf8_def utf8_char_def)

section \<open>Signed tokens\<close>

type_synonym payload = "(string \<times> json) list"

definition tok_mac :: "auth_env \<Rightarrow> string \<Rightarrow> string" where
  "tok_mac env body = take 32 (ae_mac env (ae_secret env) (utf8 body))"

definition tok_sign :: "auth_env \<Rightarrow> payload \<Rightarrow> string" where
  "tok_sign env p =
     (let body = rstrip_eq (urlsafe_b64encode (ae_dumps env (JObj p)))
      in body @ ''.'' @ tok_mac env body)"

text \<open>\<open>token.split(".", 1)\<close> into exactly two parts.\<close>

definition split_token :: "string \<Rightarrow> (string \<times> string) option" where
  "split_token t =
     (case dropWhile (\<lambda>c. c \<noteq> CHR ''.'') t of
        [] \<Rightarrow> None
      | _ # sig \<Rightarrow> Some (takeWhile (\<lambda>c. c \<noteq> CHR ''.'') t, sig))"

text \<open>\<open>data.get("exp", 0) < time.time()\<close>: \<open>None\<close> is the \<open>TypeError\<close> of a non-number.\<close>

definition expired_at :: "time \<Rightarrow> payload \<Rightarrow> bool option" where
  "expired_at now p =
     (case map_of p ''exp'' of
        None \<Rightarrow> Some (0 < now)
      | Some (JInt i) \<Rightarrow> Some (of_int i < now)
      | Some (JBool b) \<Rightarrow> Some ((if b then 1 else 0) < now)
      | Some (JFloat x) \<Rightarrow> Some (x < now)
      | Some _ \<Rightarrow> None)"

definition tok_unsign :: "auth_env \<Rightarrow> time \<Rightarrow> string \<Rightarrow> payload option" where
  "tok_unsign env now t =
     (case split_token t of
        None \<Rightarrow> None
      | Some (body, sig) \<Rightarrow>
          if sig \<noteq> tok_mac env body then None
          else (case Option.bind (urlsafe_b64decode (repad body)) (ae_loads env) of
              Some (JObj p) \<Rightarrow> (if expired_at now p = Some False then Some p else None)
            | _ \<Rightarrow> None))"

subsection \<open>Reading back what was signed\<close>

text \<open>The JSON text of the payload reads back as the payload.\<close>

definition codec_ok :: "auth_env \<Rightarrow> payload \<Rightarrow> bool" where
  "codec_ok env p = (ae_loads env (ae_dumps env (JObj p)) = Some (JObj p))"

lemma split_token_body: "CHR ''.'' \<notin> set body \<Longrightarrow> split_token (body @ ''.'' @ sig) = Some (body, sig)"
  by (simp add: split_token_def takeWhile_upto_sep dropWhile_upto_sep)

lemma tok_unsign_sign:
  assumes "codec_ok env p"
  shows "tok_unsign env now (tok_sign env p) = (if expired_at now p = Some False then Some p else None)"
proof -
  let ?body = "rstrip_eq (urlsafe_b64encode (ae_dumps env (JObj p)))"
  have "CHR ''.'' \<notin> set ?body"
    using dot_notin_urlsafe set_rstrip_eq by blast
  then have "split_token (tok_sign env p) = Some (?body, tok_mac env ?body)"
    by (simp only: tok_sign_def Let_def) (rule split_token_body)
  then show ?thesis
    using assms by (simp add: tok_unsign_def repad_rstrip urlsafe_decode_encode codec_ok_def)
qed

text \<open>
  The interface the sessions are built on: what is signed reads back, as long as it has not
  expired, and nothing reads as expired and live.
\<close>

locale signed_tokens =
  fixes sign :: "payload \<Rightarrow> string"
    and unsign :: "time \<Rightarrow> string \<Rightarrow> payload option"
    and readable :: "payload \<Rightarrow> bool"
  assumes unsign_sign: "readable p \<Longrightarrow> unsign now (sign p) = (if expired_at now p = Some False then Some p else None)"
    and unsign_live: "unsign now t = Some p \<Longrightarrow> expired_at now p = Some False"
begin

text \<open>A token of one kind is never read as a token of another.\<close>

lemma wrong_kind:
  assumes "readable p" and "map_of p ''k'' = Some k" and "unsign now (sign p) = Some q"
  shows "map_of q ''k'' = Some k"
  using assms unsign_sign [OF assms(1), of now] by (auto split: if_splits)

lemma live_until:
  assumes "readable p" and "map_of p ''exp'' = Some (JFloat x)"
  shows "unsign now (sign p) = (if x < now then None else Some p)"
  using unsign_sign [OF assms(1), of now] assms(2) by (simp add: expired_at_def)

lemma dead_forever:
  assumes "readable p" and "unsign now (sign p) = None" and "map_of p ''exp'' = Some (JFloat x)" and "now \<le> later"
  shows "unsign later (sign p) = None"
  using assms live_until by (auto split: if_splits)

end

interpretation tok: signed_tokens "tok_sign env" "tok_unsign env" "codec_ok env" for env
proof
  show "codec_ok env p \<Longrightarrow>
      tok_unsign env now (tok_sign env p) = (if expired_at now p = Some False then Some p else None)" for p now
    by (rule tok_unsign_sign)
  show "tok_unsign env now t = Some p \<Longrightarrow> expired_at now p = Some False" for now t p
    by (auto simp: tok_unsign_def bind_eq_Some_conv split: option.splits json.splits if_splits prod.splits)
qed

text \<open>A signed token reads back as exactly the payload that was signed until its expiry, and as
  nothing from then on.\<close>

theorem token_roundtrip:
  assumes "ae_loads env (ae_dumps env (JObj p)) = Some (JObj p)" and "map_of p ''exp'' = Some (JFloat x)"
  shows "tok_unsign env now (tok_sign env p) = (if x < now then None else Some p)"
  using tok.live_until [of env p x now] assms by (simp add: codec_ok_def)

definition demo_env :: "payload \<Rightarrow> auth_env" where
  "demo_env p = \<lparr>ae_secret = ''key'', ae_mac = (\<lambda>k m. rev m @ k), ae_mac1 = (\<lambda>k m. map (\<lambda>i. char_of (i + 65)) [0..<20]),
     ae_pbkdf2 = (\<lambda>pw salt n. salt @ pw), ae_dumps = (\<lambda>j. ''{}''), ae_loads = (\<lambda>b. Some (JObj p))\<rparr>"

lemma token_roundtrip_witness:
  "tok_unsign (demo_env [(''k'', JStr ''sess''), (''exp'', JFloat 9)]) 8
     (tok_sign (demo_env [(''k'', JStr ''sess''), (''exp'', JFloat 9)]) [(''k'', JStr ''sess''), (''exp'', JFloat 9)]) =
   Some [(''k'', JStr ''sess''), (''exp'', JFloat 9)]"
  by (subst token_roundtrip [of _ _ 9]) (simp_all add: demo_env_def)

text \<open>A token the server did not sign is refused: an accepted token is a body followed by the first 32 digits
  of the keyed hash of exactly that body, has not expired, and any other signature on the same body is refused.\<close>

theorem token_unforgeable:
  "tok_unsign env now t = Some p \<Longrightarrow>
   \<exists>body. CHR ''.'' \<notin> set body \<and> t = body @ ''.'' @ take 32 (ae_mac env (ae_secret env) (utf8 body)) \<and>
     (\<forall>sig. sig \<noteq> tok_mac env body \<longrightarrow> tok_unsign env now (body @ ''.'' @ sig) = None)"
proof -
  assume a: "tok_unsign env now t = Some p"
  then obtain body sig where b: "split_token t = Some (body, sig)" "sig = tok_mac env body"
    by (auto simp: tok_unsign_def split: option.splits if_splits prod.splits)
  have t: "takeWhile (\<lambda>c. c \<noteq> CHR ''.'') t = body"
    and d: "\<exists>c. dropWhile (\<lambda>c. c \<noteq> CHR ''.'') t = c # sig"
    using b(1) by (auto simp: split_token_def split: list.splits)
  from d obtain c where c: "dropWhile (\<lambda>c. c \<noteq> CHR ''.'') t = c # sig" by blast
  then have dot: "c = CHR ''.''" unfolding dropWhile_eq_Cons_conv by blast
  have split: "t = body @ ''.'' @ sig" using takeWhile_dropWhile_id [of "\<lambda>c. c \<noteq> CHR ''.''" t] unfolding t c dot by simp
  have nodot: "CHR ''.'' \<notin> set body"
  proof
    assume "CHR ''.'' \<in> set body"
    then show False unfolding t [symmetric] by (auto dest: set_takeWhileD)
  qed
  show ?thesis
  proof (intro exI conjI allI impI)
    show "CHR ''.'' \<notin> set body" by (rule nodot)
    show "t = body @ ''.'' @ take 32 (ae_mac env (ae_secret env) (utf8 body))"
      using split unfolding b(2) tok_mac_def .
    fix sig' assume "sig' \<noteq> tok_mac env body"
    then show "tok_unsign env now (body @ ''.'' @ sig') = None"
      unfolding tok_unsign_def split_token_body [OF nodot] by simp
  qed
qed

section \<open>Base 32\<close>

text \<open>\<open>base64.b32decode\<close> of the standard library; \<open>None\<close> is \<open>binascii.Error\<close>.\<close>

definition b32_val :: "char \<Rightarrow> int option" where
  "b32_val c =
     (let n = char_code c in
      if 65 \<le> n \<and> n \<le> 90 then Some (int n - 65) else if 50 \<le> n \<and> n \<le> 55 then Some (int n - 24) else None)"

fun b32_acc :: "int \<Rightarrow> string \<Rightarrow> int option" where
  "b32_acc acc [] = Some acc"
| "b32_acc acc (c # cs) = (case b32_val c of None \<Rightarrow> None | Some v \<Rightarrow> b32_acc (acc * 32 + v) cs)"

text \<open>\<open>n.to_bytes(k, "big")\<close> of a number below \<open>256 ** k\<close>.\<close>

definition be_bytes :: "nat \<Rightarrow> int \<Rightarrow> bytes" where
  "be_bytes k n = map (\<lambda>i. char_of (nat (n div 256 ^ (k - 1 - i) mod 256))) [0..<k]"

text \<open>The characters without padding, eight at a time; the last group may be short.\<close>

function b32_quanta :: "nat \<Rightarrow> string \<Rightarrow> bytes option" where
  "b32_quanta pad s =
     (if s = [] then Some []
      else (case b32_acc 0 (take 8 s) of
          None \<Rightarrow> None
        | Some acc \<Rightarrow>
            if length s \<le> 8 then
              Some (if pad = 0 then be_bytes 5 acc
                    else take ((43 - 5 * pad) div 8) (be_bytes 5 (acc * 32 ^ pad)))
            else map_option ((@) (be_bytes 5 acc)) (b32_quanta pad (drop 8 s))))"
  by pat_completeness auto

termination by (relation "measure (\<lambda>(_, s). length s)") auto

definition b32decode :: "string \<Rightarrow> bytes option" where
  "b32decode s =
     (let core = rstrip_eq s; pad = length s - length core in
      if \<not> 8 dvd length s \<or> pad \<notin> {0, 1, 3, 4, 6} then None else b32_quanta pad core)"

text \<open>\<open>_b32decode\<close>: upper case, no blanks, padding restored.\<close>

definition upper_ascii :: "char \<Rightarrow> char" where
  "upper_ascii c = (if 97 \<le> char_code c \<and> char_code c \<le> 122 then char_of (char_code c - 32) else c)"

definition auth_b32decode :: "string \<Rightarrow> bytes option" where
  "auth_b32decode s =
     (let u = filter (\<lambda>c. c \<noteq> CHR '' '') (map upper_ascii s)
      in b32decode (u @ replicate (nat (- int (length u) mod 8)) (CHR ''='')))"

section \<open>One-time codes\<close>

definition be32 :: "bytes \<Rightarrow> int" where
  "be32 bs = foldl (\<lambda>n c. n * 256 + int (char_code c)) 0 bs"

text \<open>\<open>f"{code:06d}"\<close> of a number below a million.\<close>

definition six_digits :: "int \<Rightarrow> string" where
  "six_digits n = map (\<lambda>d. digit_char (nat (n div d mod 10))) [100000, 10000, 1000, 100, 10, 1]"

definition truncate_hash :: "bytes \<Rightarrow> py_exc + string" where
  "truncate_hash h =
     (if h = [] then Inl IndexError
      else (let o4 = take 4 (drop (char_code (last h) mod 16) h)
            in if length o4 \<noteq> 4 then Inl OtherError
               else Inr (six_digits (be32 o4 mod 2 ^ 31 mod 1000000))))"

definition hotp :: "auth_env \<Rightarrow> string \<Rightarrow> int \<Rightarrow> py_exc + string" where
  "hotp env secret counter =
     (case auth_b32decode secret of
        None \<Rightarrow> Inl ValueError
      | Some key \<Rightarrow>
          if counter < 0 \<or> 2 ^ 64 \<le> counter then Inl OtherError
          else truncate_hash (ae_mac1 env key (be_bytes 8 counter)))"

text \<open>
  \<open>str.isdigit()\<close> also holds of the superscripts one, two and three of Latin-1, which
  \<open>hmac.compare_digest\<close> then refuses with a \<open>TypeError\<close>.
\<close>

definition latin_isdigit :: "string \<Rightarrow> bool" where
  "latin_isdigit s = (s \<noteq> [] \<and> (\<forall>c \<in> set s. is_digit c \<or> char_code c \<in> {178, 179, 185}))"

definition compare_digest :: "string \<Rightarrow> string \<Rightarrow> py_exc + bool" where
  "compare_digest a b =
     (if \<exists>c \<in> set a \<union> set b. 128 \<le> char_code c then Inl TypeError else Inr (a = b))"

fun scan_steps :: "auth_env \<Rightarrow> string \<Rightarrow> string \<Rightarrow> int list \<Rightarrow> py_exc + int option" where
  "scan_steps env secret code [] = Inr None"
| "scan_steps env secret code (n # ns) =
     try_bind (hotp env secret n) (\<lambda>h.
     try_bind (compare_digest h code) (\<lambda>same.
       if same then Inr (Some n) else scan_steps env secret code ns))"

text \<open>\<open>code.strip().replace(" ", "")\<close>, then the steps of the window from the newest to the oldest.\<close>

definition clean_code :: "string \<Rightarrow> string" where
  "clean_code code = filter (\<lambda>c. c \<noteq> CHR '' '') (py_strip code)"

definition totp_match_step :: "auth_env \<Rightarrow> time \<Rightarrow> string \<Rightarrow> string \<Rightarrow> int \<Rightarrow> py_exc + int option" where
  "totp_match_step env now secret code window =
     (let c = clean_code code in
      if secret = [] \<or> \<not> latin_isdigit c then Inr None
      else scan_steps env secret c (map (\<lambda>d. \<lfloor>now / 30\<rfloor> + d) (rev [- window..window])))"

text \<open>\<open>int(db.get_setting(key, 0) or 0)\<close>, with 0 for a value that is no number.\<close>

definition last_step :: "string \<Rightarrow> auth_db \<Rightarrow> int" where
  "last_step k d =
     (case (let v = get_setting k (JInt 0) d in jint (if truthy v then v else JInt 0)) of
        Inr i \<Rightarrow> i | Inl _ \<Rightarrow> 0)"

definition consume_step :: "string \<Rightarrow> int \<Rightarrow> auth_db \<Rightarrow> bool \<times> auth_db" where
  "consume_step k step d =
     (if step \<le> last_step k d then (False, d) else (True, set_setting k (JInt step) d))"

text \<open>\<open>totp_verify\<close>, on the marker of the single seed.\<close>

definition totp_verify :: "auth_env \<Rightarrow> time \<Rightarrow> string \<Rightarrow> string \<Rightarrow> int \<Rightarrow> auth_db \<Rightarrow> (py_exc + bool) \<times> auth_db" where
  "totp_verify env now secret code window d =
     (case totp_match_step env now secret code window of
        Inl e \<Rightarrow> (Inl e, d)
      | Inr None \<Rightarrow> (Inr False, d)
      | Inr (Some step) \<Rightarrow> (let (b, d1) = consume_step ''totp_last_step'' step d in (Inr b, d1)))"

subsection \<open>Codes have six digits\<close>

lemma six_digits_shape: "length (six_digits n) = 6 \<and> (\<forall>c \<in> set (six_digits n). is_digit c)"
  by (auto simp: six_digits_def intro!: is_digit_digit_char)

lemma hotp_shape: "hotp env secret n = Inr h \<Longrightarrow> length h = 6 \<and> (\<forall>c \<in> set h. is_digit c)"
  using six_digits_shape by (auto simp: hotp_def truncate_hash_def Let_def split: option.splits if_splits)

lemma scan_steps_Some:
  "scan_steps env secret c ns = Inr (Some n) \<Longrightarrow> n \<in> set ns \<and> hotp env secret n = Inr c"
  by (induction ns) (auto simp: try_bind_eq_Inr compare_digest_def split: if_splits)

end
