(* ===== verification/Accounts.thy ===== *)
theory Accounts
  imports Tokens Schema
begin

text \<open>
  Sender accounts (\<open>sign/sign_accounts.py\<close>), encryption of secrets at rest
  (\<open>sign/crypto.py\<close>) and developer API keys (\<open>sign/sign_api_keys.py\<close>). The accounts and
  keys tables are lists of rows in id order; password hashing is written out down to PBKDF2, which
  is a parameter. Salts, random key material and clock readings are arguments. A column that the
  schema gives a default and every insert fills is not NULL here.
\<close>

section \<open>Secrets at rest\<close>

text \<open>
  The Fernet cipher under the key derived from \<open>config.SECRET\<close>; \<open>None\<close> is the absent
  \<open>cryptography\<close> package, and \<open>f_decrypt\<close> answers \<open>None\<close> where the library raises.
\<close>

record fernet =
  f_encrypt :: "string \<Rightarrow> string"
  f_decrypt :: "string \<Rightarrow> string option"

definition enc_v1 :: string where "enc_v1 = ''enc:v1:''"
definition enc_v0 :: string where "enc_v0 = ''enc:v0:''"

definition looks_encrypted :: "string \<Rightarrow> bool" where
  "looks_encrypted s = (startswith s enc_v1 \<or> startswith s enc_v0)"

definition encrypt :: "fernet option \<Rightarrow> string \<Rightarrow> string" where
  "encrypt fo s = (case fo of None \<Rightarrow> enc_v0 @ s | Some f \<Rightarrow> enc_v1 @ f_encrypt f s)"

definition decrypt :: "fernet option \<Rightarrow> string \<Rightarrow> string" where
  "decrypt fo s =
     (if startswith s enc_v0 then drop (length enc_v0) s
      else if startswith s enc_v1
        then (case fo of None \<Rightarrow> s
              | Some f \<Rightarrow> (case f_decrypt f (drop (length enc_v1) s) of None \<Rightarrow> s | Some t \<Rightarrow> t))
      else s)"

lemma startswith_append [simp]: "startswith (p @ s) p"
  by (simp add: startswith_def)

lemma not_v0_v1: "\<not> startswith (enc_v1 @ s) enc_v0"
  by (simp add: startswith_def enc_v0_def enc_v1_def)

lemma decrypt_encrypt:
  "(\<And>f. fo = Some f \<Longrightarrow> f_decrypt f (f_encrypt f s) = Some s) \<Longrightarrow> decrypt fo (encrypt fo s) = s"
  by (cases fo) (simp_all add: decrypt_def encrypt_def not_v0_v1)

section \<open>Passwords\<close>

definition PW_ITERS :: int where "PW_ITERS = 200000"

text \<open>\<open>s.split(c, n)\<close>.\<close>

fun py_splitn :: "nat \<Rightarrow> char \<Rightarrow> string \<Rightarrow> string list" where
  "py_splitn 0 c s = [s]"
| "py_splitn (Suc n) c s =
     (case dropWhile (\<lambda>x. x \<noteq> c) s of
        [] \<Rightarrow> [s]
      | _ # rest \<Rightarrow> takeWhile (\<lambda>x. x \<noteq> c) s # py_splitn n c rest)"

lemma py_splitn_sep:
  "c \<notin> set s \<Longrightarrow> py_splitn (Suc n) c (s @ c # rest) = s # py_splitn n c rest"
  by (simp add: takeWhile_upto_sep dropWhile_upto_sep)

definition pw_prefix :: string where "pw_prefix = ''pbkdf2$''"

definition pw_record :: "int \<Rightarrow> bytes \<Rightarrow> bytes \<Rightarrow> string" where
  "pw_record iters salt dig = pw_prefix @ py_str iters @ ''$'' @ b64encode salt @ ''$'' @ b64encode dig"

definition hash_password :: "auth_env \<Rightarrow> bytes \<Rightarrow> string \<Rightarrow> string" where
  "hash_password env salt pw = pw_record PW_ITERS salt (ae_pbkdf2 env (utf8 pw) salt PW_ITERS)"

definition zero_bytes :: "nat \<Rightarrow> bytes" where "zero_bytes n = replicate n (char_of (0 :: nat))"

definition DUMMY_HASH :: string where
  "DUMMY_HASH = pw_record PW_ITERS (zero_bytes 16) (zero_bytes 32)"

text \<open>The record read back; \<open>None\<close> is any exception of the \<open>try\<close> block.\<close>

definition read_pw_record :: "string \<Rightarrow> (int \<times> bytes \<times> bytes) option" where
  "read_pw_record rec =
     (case py_splitn 3 (CHR ''$'') rec of
        [_, i, s, d] \<Rightarrow>
          (case (py_int i, b64decode s, b64decode d) of
             (Some iters, Some salt, Some dig) \<Rightarrow> Some (iters, salt, dig)
           | _ \<Rightarrow> None)
      | _ \<Rightarrow> None)"

text \<open>
  The key derivation always runs, on the dummy record when there is nothing to compare with; an
  iteration count below one makes it raise.
\<close>

definition verify_password :: "auth_env \<Rightarrow> string \<Rightarrow> string \<Rightarrow> py_exc + bool" where
  "verify_password env pw stored =
     (let rec = (if startswith stored pw_prefix then stored else DUMMY_HASH);
          (iters, salt, expected) =
            (case read_pw_record rec of Some r \<Rightarrow> r | None \<Rightarrow> (PW_ITERS, zero_bytes 16, zero_bytes 32))
      in if iters < 1 then Inl ValueError
         else Inr (startswith stored pw_prefix \<and> ae_pbkdf2 env (utf8 pw) salt iters = expected))"

definition password_ok :: "string \<Rightarrow> bool" where
  "password_ok pw = (8 \<le> length pw)"

lemma dollar_notin: "CHR ''$'' \<notin> set (py_str i)" "CHR ''$'' \<notin> set (b64encode bs)"
proof -
  show "CHR ''$'' \<notin> set (py_str i)"
    by (rule not_digit_notin_py_str) (simp_all add: is_digit_def char_code_def)
  have "CHR ''$'' \<notin> b64_chars"
    by (auto simp: b64_chars_def code_b64_char char_eq_iff_code char_code_def [of "CHR ''$''"] split: if_splits)
  then show "CHR ''$'' \<notin> set (b64encode bs)" using b64encode_chars by blast
qed

lemma read_pw_record_of: "read_pw_record (pw_record i s d) = Some (i, s, d)"
proof -
  have p: "CHR ''$'' \<notin> set ''pbkdf2''" by simp
  have "pw_record i s d = ''pbkdf2'' @ CHR ''$'' # py_str i @ CHR ''$'' # b64encode s @ CHR ''$'' # b64encode d"
    by (simp add: pw_record_def pw_prefix_def)
  then have "py_splitn 3 (CHR ''$'') (pw_record i s d) = [''pbkdf2'', py_str i, b64encode s, b64encode d]"
    by (simp only: numeral_3_eq_3 py_splitn_sep [OF p] py_splitn_sep [OF dollar_notin(1)]
        py_splitn_sep [OF dollar_notin(2)] py_splitn.simps(1))
  then show ?thesis by (simp add: read_pw_record_def b64decode_encode)
qed

lemma verify_hash:
  "verify_password env pw' (hash_password env salt pw) =
     Inr (ae_pbkdf2 env (utf8 pw') salt PW_ITERS = ae_pbkdf2 env (utf8 pw) salt PW_ITERS)"
proof -
  have "startswith (hash_password env salt pw) pw_prefix"
    by (simp add: hash_password_def pw_record_def)
  then show ?thesis
    by (simp add: verify_password_def hash_password_def read_pw_record_of PW_ITERS_def Let_def)
qed

text \<open>An account without a password of its own never verifies.\<close>

lemma verify_no_password: "\<not> startswith stored pw_prefix \<Longrightarrow> verify_password env pw stored = Inr False"
  by (simp add: verify_password_def DUMMY_HASH_def read_pw_record_of PW_ITERS_def Let_def)

section \<open>The accounts table\<close>

record account =
  ac_id :: int
  ac_email :: string
  ac_name :: string
  ac_pw_hash :: string
  ac_google_sub :: string
  ac_totp :: string
  ac_status :: string
  ac_sub_status :: string
  ac_plan :: string
  ac_ver :: int
  ac_created :: time
  ac_login :: "time option"
  ac_verified :: bool
  ac_phone :: string
  ac_sms_2fa :: bool

record api_key =
  k_id :: int
  k_account :: int
  k_label :: string
  k_prefix :: string
  k_hash :: string
  k_mode :: string
  k_created :: time
  k_used :: "time option"
  k_revoked :: "time option"

text \<open>Mail the portal sent: the recipient, what it was and the token in its link.\<close>

record portal =
  p_auth :: auth_db
  p_accounts :: "account list"
  p_next :: int
  p_keys :: "api_key list"
  p_next_key :: int
  p_mail :: "(string \<times> string \<times> string) list"

definition empty_portal :: portal where
  "empty_portal = \<lparr>p_auth = empty_auth, p_accounts = [], p_next = 1, p_keys = [], p_next_key = 1, p_mail = []\<rparr>"

definition PLAN_ID :: string where "PLAN_ID = ''pro_unlimited''"
definition PLAN_PRICE :: string where "PLAN_PRICE = ''$29.99/mo''"

text \<open>SQL \<open>LOWER\<close> changes ASCII letters only.\<close>

definition sql_lower :: "string \<Rightarrow> string" where
  "sql_lower s = map (\<lambda>c. if 65 \<le> char_code c \<and> char_code c \<le> 90 then char_of (char_code c + 32) else c) s"

definition acct_row :: "portal \<Rightarrow> int \<Rightarrow> account option" where
  "acct_row p aid = find (\<lambda>a. ac_id a = aid) (p_accounts p)"

definition account_by_id :: "portal \<Rightarrow> int \<Rightarrow> account option" where
  "account_by_id p aid = (if aid = 0 then None else acct_row p aid)"

definition norm_email :: "string \<Rightarrow> string" where
  "norm_email e = py_lower (py_strip e)"

definition account_by_email :: "portal \<Rightarrow> string \<Rightarrow> account option" where
  "account_by_email p email =
     (let em = norm_email email in
      if em = [] then None else find (\<lambda>a. sql_lower (ac_email a) = em) (p_accounts p))"

definition account_by_phone :: "portal \<Rightarrow> string \<Rightarrow> account option" where
  "account_by_phone p phone =
     (let ph = py_strip phone in
      if ph = [] then None else find (\<lambda>a. ac_phone a = ph) (p_accounts p))"

definition account_by_google_sub :: "portal \<Rightarrow> string \<Rightarrow> account option" where
  "account_by_google_sub p sub =
     (let s = py_strip sub in
      if s = [] then None else find (\<lambda>a. ac_google_sub a = s) (p_accounts p))"

subsection \<open>Writing accounts\<close>

datatype create_error = CreateInvalidEmail | CreateExists

definition new_account :: "time \<Rightarrow> int \<Rightarrow> string \<Rightarrow> string \<Rightarrow> string \<Rightarrow> string \<Rightarrow> account" where
  "new_account now aid em name pw_hash sub =
     \<lparr>ac_id = aid, ac_email = em, ac_name = py_strip name, ac_pw_hash = pw_hash, ac_google_sub = py_strip sub,
      ac_totp = [], ac_status = ''active'', ac_sub_status = ''active'', ac_plan = PLAN_ID, ac_ver = 0,
      ac_created = now, ac_login = None, ac_verified = (py_strip sub \<noteq> []), ac_phone = [], ac_sms_2fa = False\<rparr>"

text \<open>The insert fails on the unique index over \<open>LOWER(email)\<close>; a password is hashed with the salt given.\<close>

definition create_account ::
  "auth_env \<Rightarrow> time \<Rightarrow> bytes \<Rightarrow> string \<Rightarrow> string \<Rightarrow> string option \<Rightarrow> string \<Rightarrow> portal \<Rightarrow>
   (create_error + account) \<times> portal" where
  "create_account env now salt email name pw sub p =
     (let em = norm_email email in
      if em = [] \<or> CHR ''@'' \<notin> set em then (Inl CreateInvalidEmail, p)
      else if account_by_email p em \<noteq> None then (Inl CreateExists, p)
      else if \<exists>a \<in> set (p_accounts p). sql_lower (ac_email a) = sql_lower em then (Inl CreateExists, p)
      else
        (let h = (case pw of None \<Rightarrow> [] | Some s \<Rightarrow> if s = [] then [] else hash_password env salt s);
             a = new_account now (p_next p) em name h sub
         in (Inr a, p\<lparr>p_accounts := p_accounts p @ [a], p_next := p_next p + 1\<rparr>)))"

definition upd_acct :: "int \<Rightarrow> (account \<Rightarrow> account) \<Rightarrow> portal \<Rightarrow> portal" where
  "upd_acct aid f p = p\<lparr>p_accounts := upd_where (\<lambda>a. ac_id a = aid) f (p_accounts p)\<rparr>"

text \<open>\<open>_update\<close> does nothing without an id.\<close>

definition update_acct :: "int \<Rightarrow> (account \<Rightarrow> account) \<Rightarrow> portal \<Rightarrow> portal" where
  "update_acct aid f p = (if aid = 0 then p else upd_acct aid f p)"

definition session_version :: "portal \<Rightarrow> int \<Rightarrow> int" where
  "session_version p aid = (case account_by_id p aid of None \<Rightarrow> 0 | Some a \<Rightarrow> ac_ver a)"

definition bump_session_version :: "int \<Rightarrow> portal \<Rightarrow> int \<times> portal" where
  "bump_session_version aid p =
     (let p1 = upd_acct aid (\<lambda>a. a\<lparr>ac_ver := ac_ver a + 1\<rparr>) p in (session_version p1 aid, p1))"

definition set_password :: "auth_env \<Rightarrow> bytes \<Rightarrow> int \<Rightarrow> string \<Rightarrow> portal \<Rightarrow> portal" where
  "set_password env salt aid pw p =
     snd (bump_session_version aid (update_acct aid (\<lambda>a. a\<lparr>ac_pw_hash := hash_password env salt pw\<rparr>) p))"

definition attach_phone :: "int \<Rightarrow> string \<Rightarrow> portal \<Rightarrow> portal" where
  "attach_phone aid phone = update_acct aid (\<lambda>a. a\<lparr>ac_phone := py_strip phone\<rparr>)"

definition link_google :: "int \<Rightarrow> string \<Rightarrow> portal \<Rightarrow> portal" where
  "link_google aid sub = update_acct aid (\<lambda>a. a\<lparr>ac_google_sub := py_strip sub\<rparr>)"

definition touch_login :: "time \<Rightarrow> int \<Rightarrow> portal \<Rightarrow> portal" where
  "touch_login now aid = update_acct aid (\<lambda>a. a\<lparr>ac_login := Some now\<rparr>)"

definition set_email_verified :: "int \<Rightarrow> portal \<Rightarrow> portal" where
  "set_email_verified aid = update_acct aid (\<lambda>a. a\<lparr>ac_verified := True\<rparr>)"

definition set_phone_2fa :: "int \<Rightarrow> string \<Rightarrow> bool \<Rightarrow> portal \<Rightarrow> portal" where
  "set_phone_2fa aid phone on = update_acct aid (\<lambda>a. a\<lparr>ac_phone := py_strip phone, ac_sms_2fa := on\<rparr>)"

definition disable_sms_2fa :: "int \<Rightarrow> portal \<Rightarrow> portal" where
  "disable_sms_2fa aid = update_acct aid (\<lambda>a. a\<lparr>ac_sms_2fa := False\<rparr>)"

definition set_totp :: "int \<Rightarrow> string \<Rightarrow> portal \<Rightarrow> portal" where
  "set_totp aid enc = update_acct aid (\<lambda>a. a\<lparr>ac_totp := enc\<rparr>)"

definition clear_totp :: "int \<Rightarrow> portal \<Rightarrow> portal" where
  "clear_totp aid = update_acct aid (\<lambda>a. a\<lparr>ac_totp := []\<rparr>)"

definition totp_secret :: "fernet option \<Rightarrow> portal \<Rightarrow> int \<Rightarrow> string" where
  "totp_secret fo p aid =
     (case account_by_id p aid of
        None \<Rightarrow> []
      | Some a \<Rightarrow> if ac_totp a = [] then [] else if looks_encrypted (ac_totp a) then decrypt fo (ac_totp a) else ac_totp a)"

definition is_email_verified :: "account option \<Rightarrow> bool" where
  "is_email_verified ao = (case ao of None \<Rightarrow> False | Some a \<Rightarrow> ac_verified a)"

subsection \<open>Billing seam and operator reads\<close>

definition sub_status :: "portal \<Rightarrow> int \<Rightarrow> string" where
  "sub_status p aid =
     (case account_by_id p aid of
        None \<Rightarrow> ''canceled'' | Some a \<Rightarrow> if ac_sub_status a = [] then ''canceled'' else ac_sub_status a)"

definition set_sub_status :: "int \<Rightarrow> string \<Rightarrow> portal \<Rightarrow> portal" where
  "set_sub_status aid st p =
     (if st \<in> {''active'', ''past_due'', ''canceled''} then update_acct aid (\<lambda>a. a\<lparr>ac_sub_status := st\<rparr>) p else p)"

definition can_send :: "portal \<Rightarrow> int \<Rightarrow> bool" where
  "can_send p aid =
     (case account_by_id p aid of
        None \<Rightarrow> False
      | Some a \<Rightarrow> ac_status a = ''active'' \<and> ac_sub_status a \<in> {''active'', ''past_due''})"

datatype activate_result = ActNotFound | ActBilling string | ActOk

definition activate_subscription :: "int \<Rightarrow> portal \<Rightarrow> activate_result \<times> portal" where
  "activate_subscription aid p =
     (case account_by_id p aid of
        None \<Rightarrow> (ActNotFound, p)
      | Some a \<Rightarrow>
          if ac_sub_status a \<noteq> ''active'' then (ActBilling (ac_sub_status a), p)
          else (ActOk, update_acct aid (\<lambda>a. a\<lparr>ac_sub_status := ''active'', ac_plan := PLAN_ID\<rparr>) p))"

definition account_count :: "portal \<Rightarrow> nat" where
  "account_count p = length (p_accounts p)"

definition list_accounts :: "portal \<Rightarrow> account list" where
  "list_accounts p = rev (sort_key ac_created (p_accounts p))"

definition delete_account :: "int \<Rightarrow> portal \<Rightarrow> bool \<times> portal" where
  "delete_account aid p =
     (if aid = 0 then (False, p)
      else (rowcount (\<lambda>a. ac_id a = aid) (p_accounts p) \<noteq> 0,
            p\<lparr>p_accounts := del_where (\<lambda>a. ac_id a = aid) (p_accounts p)\<rparr>))"

text \<open>\<open>_mask_phone\<close>: how many bullets, and the digits left in the clear.\<close>

definition mask_phone :: "string \<Rightarrow> nat \<times> string" where
  "mask_phone phone =
     (let s = py_strip phone in if 4 \<le> length s then (length s - 4, drop (length s - 4) s) else (0, []))"

text \<open>The projection a client sees: no password, no TOTP secret, no Google subject.\<close>

record account_view =
  av_id :: int
  av_email :: string
  av_name :: string
  av_plan :: string
  av_plan_price :: string
  av_sub_status :: string
  av_status :: string
  av_totp_enabled :: bool
  av_email_verified :: bool
  av_is_google :: bool
  av_sms_2fa :: bool
  av_phone_masked :: "nat \<times> string"

definition or_default :: "string \<Rightarrow> string \<Rightarrow> string" where
  "or_default s d = (if s = [] then d else s)"

definition public_view :: "account \<Rightarrow> account_view" where
  "public_view a =
     \<lparr>av_id = ac_id a, av_email = ac_email a, av_name = ac_name a, av_plan = or_default (ac_plan a) PLAN_ID,
      av_plan_price = PLAN_PRICE, av_sub_status = or_default (ac_sub_status a) ''active'',
      av_status = or_default (ac_status a) ''active'', av_totp_enabled = (ac_totp a \<noteq> []),
      av_email_verified = ac_verified a, av_is_google = (ac_google_sub a \<noteq> []),
      av_sms_2fa = ac_sms_2fa a, av_phone_masked = mask_phone (ac_phone a)\<rparr>"

section \<open>Developer keys\<close>

definition KEY_PREFIX_LEN :: nat where "KEY_PREFIX_LEN = 14"

definition issue_key ::
  "auth_env \<Rightarrow> time \<Rightarrow> bytes \<Rightarrow> string \<Rightarrow> int \<Rightarrow> string \<Rightarrow> string \<Rightarrow> portal \<Rightarrow> (string \<times> api_key) \<times> portal" where
  "issue_key env now salt rnd aid label mode p =
     (let m = (if mode = ''test'' then ''test'' else ''live'');
          raw = ''sk_'' @ m @ ''_'' @ rnd;
          k = \<lparr>k_id = p_next_key p, k_account = aid, k_label = take 80 label, k_prefix = take KEY_PREFIX_LEN raw,
               k_hash = hash_password env salt raw, k_mode = m, k_created = now, k_used = None, k_revoked = None\<rparr>
      in ((raw, k), p\<lparr>p_keys := p_keys p @ [k], p_next_key := p_next_key p + 1\<rparr>))"

definition upd_key :: "int \<Rightarrow> (api_key \<Rightarrow> api_key) \<Rightarrow> portal \<Rightarrow> portal" where
  "upd_key i f p = p\<lparr>p_keys := upd_where (\<lambda>k. k_id k = i) f (p_keys p)\<rparr>"

fun first_verifying :: "auth_env \<Rightarrow> string \<Rightarrow> api_key list \<Rightarrow> py_exc + api_key option" where
  "first_verifying env bearer [] = Inr None"
| "first_verifying env bearer (k # ks) =
     try_bind (verify_password env bearer (k_hash k))
       (\<lambda>ok. if ok then Inr (Some k) else first_verifying env bearer ks)"

definition live_keys :: "portal \<Rightarrow> string \<Rightarrow> api_key list" where
  "live_keys p prefix = filter (\<lambda>k. k_prefix k = prefix \<and> k_revoked k = None) (p_keys p)"

definition resolve_key :: "auth_env \<Rightarrow> time \<Rightarrow> string \<Rightarrow> portal \<Rightarrow> (py_exc + account option) \<times> portal" where
  "resolve_key env now bearer p =
     (if \<not> startswith bearer ''sk_'' then (Inr None, p)
      else (case first_verifying env bearer (live_keys p (take KEY_PREFIX_LEN bearer)) of
          Inl e \<Rightarrow> (Inl e, p)
        | Inr None \<Rightarrow> (Inr None, p)
        | Inr (Some k) \<Rightarrow>
            (case account_by_id p (k_account k) of
               None \<Rightarrow> (Inr None, p)
             | Some a \<Rightarrow>
                 if or_default (ac_status a) ''active'' \<noteq> ''active'' then (Inr None, p)
                 else (Inr (Some a), upd_key (k_id k) (\<lambda>k. k\<lparr>k_used := Some now\<rparr>) p))))"

definition list_keys :: "portal \<Rightarrow> int \<Rightarrow> api_key list" where
  "list_keys p aid =
     rev (sort_key k_created (rev (filter (\<lambda>k. k_account k = aid \<and> k_revoked k = None) (p_keys p))))"

definition revoke_key :: "time \<Rightarrow> int \<Rightarrow> int \<Rightarrow> portal \<Rightarrow> bool \<times> portal" where
  "revoke_key now kid aid p =
     (let m = (\<lambda>k. k_id k = kid \<and> k_account k = aid \<and> k_revoked k = None)
      in (0 < rowcount m (p_keys p), p\<lparr>p_keys := upd_where m (\<lambda>k. k\<lparr>k_revoked := Some now\<rparr>) (p_keys p)\<rparr>))"

section \<open>Rows by id\<close>

lemma acct_row_id: "acct_row p aid = Some a \<Longrightarrow> ac_id a = aid"
  by (auto simp: acct_row_def dest: find_SomeD)

interpretation acct: row_store acct_row upd_acct ac_id
proof
  show "\<And>p k a. acct_row p k = Some a \<Longrightarrow> ac_id a = k" by (rule acct_row_id)
next
  fix f :: "account \<Rightarrow> account" and p :: portal and k :: int
  assume f: "\<And>a. ac_id (f a) = ac_id a"
  show "acct_row (upd_acct k f p) k = map_option f (acct_row p k)"
    unfolding acct_row_def upd_acct_def using f by (simp add: find_key_upd_same)
next
  fix f :: "account \<Rightarrow> account" and p :: portal and j k :: int
  assume "\<And>a. ac_id (f a) = ac_id a" "j \<noteq> k"
  then show "acct_row (upd_acct k f p) j = acct_row p j"
    unfolding acct_row_def upd_acct_def by (simp add: find_key_upd_other)
qed

lemma account_by_id_upd:
  "(\<And>a. ac_id (f a) = ac_id a) \<Longrightarrow>
   account_by_id (upd_acct k f p) j = (if j = k then map_option f (account_by_id p j) else account_by_id p j)"
  by (simp add: account_by_id_def acct.get_upd)

lemma upd_acct_frames [simp]:
  "p_auth (upd_acct i f p) = p_auth p" "p_keys (upd_acct i f p) = p_keys p"
  "p_mail (upd_acct i f p) = p_mail p" "p_next (upd_acct i f p) = p_next p"
  "p_auth (update_acct i f p) = p_auth p" "p_keys (update_acct i f p) = p_keys p"
  "p_mail (update_acct i f p) = p_mail p" "p_next (update_acct i f p) = p_next p"
  by (simp_all add: upd_acct_def update_acct_def)

lemma update_acct_eq: "aid \<noteq> 0 \<Longrightarrow> update_acct aid f p = upd_acct aid f p"
  by (simp add: update_acct_def)

lemma account_by_id_update:
  "(\<And>a. ac_id (f a) = ac_id a) \<Longrightarrow>
   account_by_id (update_acct k f p) j = (if j = k then map_option f (account_by_id p j) else account_by_id p j)"
  by (simp add: update_acct_def account_by_id_upd) (simp add: account_by_id_def)

lemma account_by_id_other_state [simp]:
  "account_by_id (p\<lparr>p_keys := ks\<rparr>) i = account_by_id p i"
  "account_by_id (p\<lparr>p_keys := ks, p_next_key := n\<rparr>) i = account_by_id p i"
  "account_by_id (p\<lparr>p_auth := d\<rparr>) i = account_by_id p i"
  "account_by_id (p\<lparr>p_mail := m\<rparr>) i = account_by_id p i"
  by (simp_all add: account_by_id_def acct_row_def)

section \<open>One account per address\<close>

definition accounts_ok :: "portal \<Rightarrow> bool" where
  "accounts_ok p =
     (distinct (map ac_id (p_accounts p)) \<and> distinct (map (\<lambda>a. sql_lower (ac_email a)) (p_accounts p)) \<and>
      (\<forall>a \<in> set (p_accounts p). 0 < ac_id a \<and> ac_id a < p_next p) \<and> 0 < p_next p)"

lemma sql_lower_char_lower:
  "sql_lower [lower_char c] = [lower_char c]"
proof -
  have "char_code (lower_char c) < 65 \<or> 90 < char_code (lower_char c)"
    using char_code_less [of c] by (auto simp: lower_char_def Let_def char_code_of)
  then show ?thesis by (auto simp: sql_lower_def)
qed

lemma sql_lower_py_lower: "sql_lower (py_lower s) = py_lower s"
  using sql_lower_char_lower by (induction s) (auto simp: sql_lower_def py_lower_def)

lemma lower_char_idem: "lower_char (lower_char c) = lower_char c"
  using char_code_less [of c] by (auto simp: lower_char_def Let_def char_code_of)

lemma is_space_lower: "is_space (lower_char c) = is_space c"
  using char_code_less [of c] by (auto simp: lower_char_def is_space_def Let_def char_code_of)

lemma py_strip_map: "(\<And>c. is_space (f c) = is_space c) \<Longrightarrow> py_strip (map f s) = map f (py_strip s)"
  by (simp add: py_strip_def dropWhile_map comp_def rev_map)

lemma py_strip_idem: "py_strip (py_strip s) = py_strip s"
proof -
  let ?d = "dropWhile is_space"
  have a: "?d (rev (?d s)) = [] \<or> \<not> is_space (hd (?d (rev (?d s))))"
    using hd_dropWhile by blast
  have "?d (rev (?d (rev (?d s)))) = rev (?d (rev (?d s)))"
  proof (rule dropWhile_ident)
    show "rev (?d (rev (?d s))) = [] \<or> \<not> is_space (hd (rev (?d (rev (?d s)))))"
    proof (cases "?d (rev (?d s)) = []")
      case False
      then have "last (?d (rev (?d s))) = last (rev (?d s))"
        by (metis dropWhile_eq_Nil_conv last_appendR takeWhile_dropWhile_id)
      moreover have "?d s \<noteq> []" using False by (metis dropWhile.simps(1) rev.simps(1))
      ultimately show ?thesis using hd_dropWhile [of is_space s] False by (simp add: hd_rev last_rev)
    qed simp
  qed
  then show ?thesis using a by (simp add: py_strip_def dropWhile_ident)
qed

lemma norm_email_idem [simp]: "norm_email (norm_email e) = norm_email e"
proof -
  have "py_strip (py_lower s) = py_lower (py_strip s)" for s
    unfolding py_lower_def by (rule py_strip_map) (rule is_space_lower)
  moreover have "py_lower (py_lower s) = py_lower s" for s
    by (simp add: py_lower_def lower_char_idem)
  ultimately show ?thesis by (simp add: norm_email_def py_strip_idem)
qed

lemma sql_lower_norm [simp]: "sql_lower (norm_email e) = norm_email e"
  by (simp add: norm_email_def sql_lower_py_lower)

text \<open>Property C21. Sign-up keeps one account per address: from a table without duplicates the new account gets a fresh
  id and is the one its address finds, every other account is untouched, the table still has no duplicates,
  and a second sign-up with any spelling of the address in case and surrounding blanks is refused.\<close>

theorem signup_unique:
  assumes "accounts_ok p" and "create_account env now salt email name pw sub p = (Inr a, p')"
  shows "accounts_ok p' \<and> account_by_email p' email = Some a \<and> account_by_id p' (ac_id a) = Some a \<and>
    (\<forall>i. i \<noteq> ac_id a \<longrightarrow> account_by_id p' i = account_by_id p i) \<and>
    (\<forall>e now2 salt2 name2 pw2 sub2. norm_email e = norm_email email \<longrightarrow>
       create_account env now2 salt2 e name2 pw2 sub2 p' = (Inl CreateExists, p'))"
proof -
  let ?em = "norm_email email"
  have c: "?em \<noteq> []" "CHR ''@'' \<in> set ?em" "\<forall>b \<in> set (p_accounts p). sql_lower (ac_email b) \<noteq> ?em"
    and a: "ac_email a = ?em" "ac_id a = p_next p"
    and p': "p' = p\<lparr>p_accounts := p_accounts p @ [a], p_next := p_next p + 1\<rparr>"
    using assms(2) by (auto simp: create_account_def Let_def new_account_def split: if_splits)
  have fresh: "\<forall>b \<in> set (p_accounts p). ac_id b \<noteq> p_next p" using assms(1) by (auto simp: accounts_ok_def)
  have ok: "accounts_ok p'"
    using assms(1) c(3) a fresh by (force simp: accounts_ok_def p')
  have em: "account_by_email p' e = Some a" if "norm_email e = ?em" for e
  proof -
    have "find (\<lambda>b. sql_lower (ac_email b) = ?em) (p_accounts p) = None"
      using c(3) by (simp add: find_None_iff)
    then show ?thesis using c(1) a(1) that by (simp add: account_by_email_def p' find_append)
  qed
  have no: "find (\<lambda>b. ac_id b = p_next p) (p_accounts p) = None"
    using fresh by (simp add: find_None_iff)
  have "create_account env now2 salt2 e name2 pw2 sub2 p' = (Inl CreateExists, p')"
    if "norm_email e = ?em" for e now2 salt2 name2 pw2 sub2
    using em [of ?em] c that by (simp add: create_account_def)
  moreover have "account_by_id p' (ac_id a) = Some a"
    using assms(1) a no by (simp add: account_by_id_def acct_row_def p' find_append accounts_ok_def)
  moreover have "account_by_id p' i = account_by_id p i" if "i \<noteq> ac_id a" for i
    using that by (simp add: account_by_id_def acct_row_def p' find_append split: option.splits)
  ultimately show ?thesis using ok em [of email] by simp
qed

lemma signup_unique_witness:
  "let (r, p1) = create_account (demo_env []) 5 ''s'' '' Ann@X.io '' ''Ann'' None [] empty_portal in
   accounts_ok p1 \<and> create_account (demo_env []) 6 ''s'' ''ann@x.IO'' ''Eve'' None [] p1 = (Inl CreateExists, p1)"
proof -
  have n: "norm_email '' Ann@X.io '' = ''ann@x.io''" "norm_email ''ann@x.IO'' = ''ann@x.io''" by code_simp+
  obtain a p1 where r: "create_account (demo_env []) 5 ''s'' '' Ann@X.io '' ''Ann'' None [] empty_portal = (Inr a, p1)"
    by (auto simp: create_account_def n account_by_email_def empty_portal_def Let_def)
  have "accounts_ok empty_portal" by (simp add: accounts_ok_def empty_portal_def)
  from signup_unique [OF this r] n r show ?thesis by (simp add: Let_def)
qed

section \<open>Keys resolve to their owner\<close>

lemma first_verifying_Some:
  "first_verifying env b ks = Inr (Some k) \<Longrightarrow> k \<in> set ks \<and> verify_password env b (k_hash k) = Inr True"
  by (induction ks) (auto simp: try_bind_eq_Inr split: if_splits)

text \<open>A bearer key is accepted only as what it is: it resolves to an account only through a key that has not
  been revoked, whose hash the full key verifies, and whose account exists and is not suspended; the only thing
  written is that key's last use.\<close>

theorem key_resolution_sound:
  assumes "resolve_key env now bearer p = (Inr (Some a), p')"
  shows "\<exists>k \<in> set (p_keys p). k_revoked k = None \<and> k_prefix k = take KEY_PREFIX_LEN bearer \<and>
    verify_password env bearer (k_hash k) = Inr True \<and> account_by_id p (k_account k) = Some a \<and>
    or_default (ac_status a) ''active'' = ''active'' \<and> p' = upd_key (k_id k) (\<lambda>k. k\<lparr>k_used := Some now\<rparr>) p"
proof -
  obtain k where k: "first_verifying env bearer (live_keys p (take KEY_PREFIX_LEN bearer)) = Inr (Some k)"
      "account_by_id p (k_account k) = Some a" "or_default (ac_status a) ''active'' = ''active''"
      "p' = upd_key (k_id k) (\<lambda>k. k\<lparr>k_used := Some now\<rparr>) p"
    using assms by (auto simp: resolve_key_def split: if_splits sum.splits option.splits)
  from first_verifying_Some [OF k(1)] k show ?thesis by (auto simp: live_keys_def)
qed


definition demo_account :: account where
  "demo_account = new_account 1 3 ''ann@x.io'' ''Ann'' [] []"

definition demo_portal :: portal where
  "demo_portal = empty_portal\<lparr>p_accounts := [demo_account], p_next := 4\<rparr>"

lemma demo_portal_account: "account_by_id demo_portal 3 = Some demo_account"
  by (simp add: account_by_id_def acct_row_def demo_portal_def demo_account_def new_account_def)


lemma key_resolution_sound_witness:
  "let ((raw, k), p1) = issue_key (demo_env []) 5 ''salt'' ''abcdefgh'' 3 ''ci'' ''test'' demo_portal in
   \<exists>k \<in> set (p_keys p1). k_revoked k = None \<and> account_by_id p1 (k_account k) = Some demo_account"
proof -
  obtain raw k p1 where i: "issue_key (demo_env []) 5 ''salt'' ''abcdefgh'' 3 ''ci'' ''test'' demo_portal = ((raw, k), p1)"
    by (metis surj_pair)
  then have "raw = ''sk_test_abcdefgh''" by (simp add: issue_key_def Let_def)
  moreover have "map_option (\<lambda>r. fst r = Inr (Some demo_account))
      (Some (resolve_key (demo_env []) 6 ''sk_test_abcdefgh'' p1)) = Some True"
    using i by (auto simp: issue_key_def Let_def resolve_key_def live_keys_def demo_portal_def empty_portal_def
        KEY_PREFIX_LEN_def verify_hash startswith_def account_by_id_def acct_row_def demo_account_def new_account_def or_default_def)
  ultimately obtain p2 where r: "resolve_key (demo_env []) 6 raw p1 = (Inr (Some demo_account), p2)"
    by (cases "resolve_key (demo_env []) 6 raw p1") auto
  from key_resolution_sound [OF r] show ?thesis unfolding i by auto
qed

end
