(* ===== verification/Portal.thy ===== *)
theory Portal
  imports Accounts
begin

text \<open>
  Sender authentication (\<open>sign/sign_portal_auth.py\<close>): sessions, the pending steps of a
  sign-in, mail links, throttles, the per-account authenticator check and the phone codes. Every
  token is made with \<open>tok_sign\<close> and carries its kind in the member \<open>k\<close>. Twilio, the mail
  server and the configuration are parameters.
\<close>

record portal_env =
  pe_auth :: auth_env
  pe_fernet :: "fernet option"
  pe_signups_open :: bool
  pe_google_ready :: bool
  pe_phone_ready :: bool
  pe_sms_send :: "string \<Rightarrow> bool option"
  pe_sms_check :: "string \<Rightarrow> string \<Rightarrow> bool option"

definition SESSION_TTL :: time where "SESSION_TTL = 7 * 24 * 3600"
definition PENDING_2FA_TTL :: time where "PENDING_2FA_TTL = 300"
definition PENDING_PHONE_TTL :: time where "PENDING_PHONE_TTL = 600"
definition VERIFY_TTL :: time where "VERIFY_TTL = 7 * 86400"
definition MAGIC_TTL :: time where "MAGIC_TTL = 900"
definition FACTOR_FAIL_LIMIT :: int where "FACTOR_FAIL_LIMIT = 5"
definition FACTOR_LOCK_SECONDS :: time where "FACTOR_LOCK_SECONDS = 15 * 60"

text \<open>\<open>d and d.get("k") == kind\<close> and the named members truthy; no cookie reads as nothing.\<close>

definition read_kind :: "auth_env \<Rightarrow> time \<Rightarrow> string \<Rightarrow> string list \<Rightarrow> string option \<Rightarrow> payload option" where
  "read_kind env now kind needed cookie =
     (case cookie of
        None \<Rightarrow> None
      | Some t \<Rightarrow>
          if t = [] then None
          else (case tok_unsign env now t of
              None \<Rightarrow> None
            | Some d \<Rightarrow>
                if jget d ''k'' = JStr kind \<and> (\<forall>m \<in> set needed. truthy (jget d m)) then Some d else None))"

section \<open>Sessions\<close>

definition session_payload :: "time \<Rightarrow> time \<Rightarrow> int \<Rightarrow> portal \<Rightarrow> payload" where
  "session_payload now ttl aid p =
     [(''k'', JStr ''signacct''), (''aid'', JInt aid), (''sv'', JInt (session_version p aid)), (''exp'', JFloat (now + ttl))]"

definition make_session :: "auth_env \<Rightarrow> time \<Rightarrow> time \<Rightarrow> int \<Rightarrow> portal \<Rightarrow> string" where
  "make_session env now ttl aid p = tok_sign env (session_payload now ttl aid p)"

definition jget_or0 :: "payload \<Rightarrow> string \<Rightarrow> json" where
  "jget_or0 d k = (case map_of d k of None \<Rightarrow> JInt 0 | Some v \<Rightarrow> v)"

definition session_account :: "auth_env \<Rightarrow> time \<Rightarrow> string option \<Rightarrow> portal \<Rightarrow> py_exc + account option" where
  "session_account env now cookie p =
     (case read_kind env now ''signacct'' [''aid''] cookie of
        None \<Rightarrow> Inr None
      | Some d \<Rightarrow>
          try_bind (jint (jget d ''aid'')) (\<lambda>aid.
            case account_by_id p aid of
              None \<Rightarrow> Inr None
            | Some a \<Rightarrow>
                if ac_status a \<noteq> ''active'' then Inr None
                else try_bind (jint (jget_or0 d ''sv'')) (\<lambda>sv.
                  Inr (if sv = session_version p (ac_id a) then Some a else None))))"

section \<open>Pending steps and mail links\<close>

definition make_2fa_pending :: "auth_env \<Rightarrow> time \<Rightarrow> string \<Rightarrow> int \<Rightarrow> string" where
  "make_2fa_pending env now jti aid =
     tok_sign env [(''k'', JStr ''signacct2fa''), (''aid'', JInt aid), (''jti'', JStr jti), (''exp'', JFloat (now + PENDING_2FA_TTL))]"

definition redeem_2fa_pending :: "auth_env \<Rightarrow> time \<Rightarrow> string option \<Rightarrow> payload option" where
  "redeem_2fa_pending env now = read_kind env now ''signacct2fa'' [''aid'']"

text \<open>\<open>_e164\<close>: digits and plus signs kept; a bare ten-digit number is a US number.\<close>

definition e164 :: "string \<Rightarrow> string" where
  "e164 phone =
     (let s = filter (\<lambda>c. is_digit c \<or> c = CHR ''+'') (py_strip phone);
          ds = filter is_digit s
      in if s = [] then []
         else if startswith s ''+'' then s
         else if length ds = 10 then ''+1'' @ ds
         else if length ds = 11 \<and> startswith ds ''1'' then ''+'' @ ds
         else ''+'' @ ds)"

definition valid_phone :: "string \<Rightarrow> bool" where
  "valid_phone phone =
     (case e164 phone of
        c # ds \<Rightarrow> c = CHR ''+'' \<and> 10 \<le> length ds \<and> length ds \<le> 15 \<and> list_all is_digit ds
      | [] \<Rightarrow> False)"

definition make_phone_pending :: "auth_env \<Rightarrow> time \<Rightarrow> string \<Rightarrow> string \<Rightarrow> string \<Rightarrow> string \<Rightarrow> string" where
  "make_phone_pending env now jti phone email name =
     tok_sign env [(''k'', JStr ''signacctphone''), (''ph'', JStr (e164 phone)),
       (''em'', JStr (take 120 (norm_email email))), (''nm'', JStr (take 80 (py_strip name))),
       (''jti'', JStr jti), (''exp'', JFloat (now + PENDING_PHONE_TTL))]"

definition redeem_phone_pending :: "auth_env \<Rightarrow> time \<Rightarrow> string option \<Rightarrow> payload option" where
  "redeem_phone_pending env now = read_kind env now ''signacctphone'' [''ph'']"

definition make_verify_token :: "auth_env \<Rightarrow> time \<Rightarrow> int \<Rightarrow> string \<Rightarrow> string" where
  "make_verify_token env now aid email =
     tok_sign env [(''k'', JStr ''signverify''), (''aid'', JInt aid), (''em'', JStr (norm_email email)),
       (''exp'', JFloat (now + VERIFY_TTL))]"

definition read_verify_token :: "auth_env \<Rightarrow> time \<Rightarrow> string \<Rightarrow> payload option" where
  "read_verify_token env now t = read_kind env now ''signverify'' [''aid'', ''em''] (Some t)"

definition make_magic_token :: "auth_env \<Rightarrow> time \<Rightarrow> string \<Rightarrow> string \<Rightarrow> string \<Rightarrow> string" where
  "make_magic_token env now jti email name =
     tok_sign env [(''k'', JStr ''signmagic''), (''em'', JStr (take 120 (norm_email email))),
       (''nm'', JStr (take 80 (py_strip name))), (''jti'', JStr jti), (''exp'', JFloat (now + MAGIC_TTL))]"

definition read_magic_token :: "auth_env \<Rightarrow> time \<Rightarrow> string \<Rightarrow> payload option" where
  "read_magic_token env now t = read_kind env now ''signmagic'' [''em''] (Some t)"

section \<open>Throttles\<close>

definition on_auth :: "(auth_db \<Rightarrow> 'a \<times> auth_db) \<Rightarrow> portal \<Rightarrow> 'a \<times> portal" where
  "on_auth f p = (case f (p_auth p) of (r, d) \<Rightarrow> (r, p\<lparr>p_auth := d\<rparr>))"

definition allow2 :: "time \<Rightarrow> string \<Rightarrow> int \<Rightarrow> time \<Rightarrow> string \<Rightarrow> int \<Rightarrow> time \<Rightarrow> portal \<Rightarrow> bool \<times> portal" where
  "allow2 now k1 l1 w1 k2 l2 w2 p =
     (case on_auth (auth_rate_allowed now k1 l1 w1) p of (a, p1) \<Rightarrow>
        (case on_auth (auth_rate_allowed now k2 l2 w2) p1 of (b, p2) \<Rightarrow> (a \<and> b, p2)))"

definition phone_start_allowed :: "time \<Rightarrow> string \<Rightarrow> string \<Rightarrow> portal \<Rightarrow> bool \<times> portal" where
  "phone_start_allowed now ip phone =
     allow2 now (''signphone:ip:'' @ or_default ip ''?'') 8 3600 (''signphone:num:'' @ e164 phone) 5 900"

definition magic_start_allowed :: "time \<Rightarrow> string \<Rightarrow> string \<Rightarrow> portal \<Rightarrow> bool \<times> portal" where
  "magic_start_allowed now ip email =
     allow2 now (''signmagic:ip:'' @ or_default ip ''?'') 10 3600
       (''signmagic:em:'' @ or_default (norm_email email) ''?'') 5 900"

definition signup_allowed :: "time \<Rightarrow> string \<Rightarrow> portal \<Rightarrow> bool \<times> portal" where
  "signup_allowed now ip =
     on_auth (auth_rate_allowed now (''signacct:signup:'' @ py_strip (or_default ip ''noip'')) 5 (24 * 3600))"

section \<open>Authenticator codes per account\<close>

definition totp_key :: "int \<Rightarrow> string" where
  "totp_key aid = ''signacct:totp:'' @ py_str aid"

definition totp_locked :: "time \<Rightarrow> int \<Rightarrow> portal \<Rightarrow> bool" where
  "totp_locked now aid p = auth_limit_locked now (totp_key aid) (p_auth p)"

definition totp_record :: "time \<Rightarrow> int \<Rightarrow> bool \<Rightarrow> portal \<Rightarrow> portal" where
  "totp_record now aid ok p =
     p\<lparr>p_auth := auth_limit_record now (totp_key aid) ok FACTOR_FAIL_LIMIT FACTOR_LOCK_SECONDS (p_auth p)\<rparr>"

definition totp_last_step_key :: "int \<Rightarrow> string" where
  "totp_last_step_key aid = ''sign_totp_last_step:'' @ py_str aid"

text \<open>The body both checks share, once the secret is known. A \<open>TypeError\<close> or a bad secret escapes.\<close>

definition check_totp :: "auth_env \<Rightarrow> time \<Rightarrow> int \<Rightarrow> string \<Rightarrow> string \<Rightarrow> int \<Rightarrow> portal \<Rightarrow> (py_exc + bool) \<times> portal" where
  "check_totp env now aid secret code window p =
     (if totp_locked now aid p then (Inr False, p)
      else (case (if secret = [] then Inr None else totp_match_step env now secret code window) of
          Inl e \<Rightarrow> (Inl e, p)
        | Inr None \<Rightarrow> (Inr False, totp_record now aid False p)
        | Inr (Some step) \<Rightarrow>
            if step \<le> last_step (totp_last_step_key aid) (p_auth p) then (Inr False, totp_record now aid False p)
            else (Inr True, totp_record now aid True
                   (p\<lparr>p_auth := set_setting (totp_last_step_key aid) (JInt step) (p_auth p)\<rparr>))))"

definition verify_totp_for_pending ::
  "portal_env \<Rightarrow> time \<Rightarrow> int \<Rightarrow> string \<Rightarrow> string \<Rightarrow> portal \<Rightarrow> (py_exc + bool) \<times> portal" where
  "verify_totp_for_pending e now aid secret code p = check_totp (pe_auth e) now aid secret code 1 p"

definition verify_totp_for_account :: "portal_env \<Rightarrow> time \<Rightarrow> int \<Rightarrow> string \<Rightarrow> portal \<Rightarrow> (py_exc + bool) \<times> portal" where
  "verify_totp_for_account e now aid code p =
     check_totp (pe_auth e) now aid (totp_secret (pe_fernet e) p aid) code 1 p"

section \<open>Phone codes\<close>

definition send_phone_code :: "portal_env \<Rightarrow> string \<Rightarrow> bool" where
  "send_phone_code e phone =
     (let s = e164 phone in
      if \<not> valid_phone s \<or> \<not> pe_phone_ready e then False else pe_sms_send e s = Some True)"

definition check_phone_code :: "portal_env \<Rightarrow> string \<Rightarrow> string \<Rightarrow> bool" where
  "check_phone_code e phone code =
     (let s = e164 phone; c = py_strip code in
      if \<not> valid_phone s \<or> \<not> (latin_isdigit c \<and> 4 \<le> length c \<and> length c \<le> 8) then False
      else pe_sms_check e s c = Some True)"

definition sms_key :: "int \<Rightarrow> string" where
  "sms_key aid = ''signacct:sms2fa:'' @ py_str aid"

definition sms_2fa_locked :: "time \<Rightarrow> int \<Rightarrow> portal \<Rightarrow> bool" where
  "sms_2fa_locked now aid p = auth_limit_locked now (sms_key aid) (p_auth p)"

definition send_login_sms :: "portal_env \<Rightarrow> time \<Rightarrow> account \<Rightarrow> portal \<Rightarrow> bool \<times> portal" where
  "send_login_sms e now a p =
     (if ac_phone a = [] \<or> \<not> ac_sms_2fa a then (False, p)
      else (case on_auth (auth_rate_allowed now (''signacct:sms2fasend:'' @ py_str (ac_id a)) 5 900) p of
          (False, p1) \<Rightarrow> (False, p1)
        | (True, p1) \<Rightarrow> (send_phone_code e (ac_phone a), p1)))"

definition verify_login_sms :: "portal_env \<Rightarrow> time \<Rightarrow> int \<Rightarrow> string \<Rightarrow> portal \<Rightarrow> bool \<times> portal" where
  "verify_login_sms e now aid code p =
     (if sms_2fa_locked now aid p then (False, p)
      else
        (let ok = (case account_by_id p aid of
                     None \<Rightarrow> False | Some a \<Rightarrow> ac_phone a \<noteq> [] \<and> check_phone_code e (ac_phone a) code)
         in (ok, p\<lparr>p_auth := auth_limit_record now (sms_key aid) ok FACTOR_FAIL_LIMIT FACTOR_LOCK_SECONDS (p_auth p)\<rparr>)))"

section \<open>Mail\<close>

definition mail_to :: "string \<Rightarrow> string \<Rightarrow> string \<Rightarrow> portal \<Rightarrow> portal" where
  "mail_to to what tok p = p\<lparr>p_mail := p_mail p @ [(to, what, tok)]\<rparr>"

definition send_verify_email :: "portal_env \<Rightarrow> time \<Rightarrow> account \<Rightarrow> portal \<Rightarrow> portal" where
  "send_verify_email e now a p =
     (if ac_email a = [] \<or> ac_google_sub a \<noteq> [] then p
      else (case on_auth (auth_rate_allowed now (''signacct:verifysend:'' @ py_str (ac_id a)) 5 3600) p of
          (False, p1) \<Rightarrow> p1
        | (True, p1) \<Rightarrow> mail_to (ac_email a) ''verify'' (make_verify_token (pe_auth e) now (ac_id a) (ac_email a)) p1))"

text \<open>\<open>"@" in em and "." in em.split("@")[-1]\<close>.\<close>

definition looks_like_email :: "string \<Rightarrow> bool" where
  "looks_like_email em = (CHR ''@'' \<in> set em \<and> CHR ''.'' \<in> set (last (py_split (CHR ''@'') em)))"

definition send_magic_link :: "portal_env \<Rightarrow> time \<Rightarrow> string \<Rightarrow> string \<Rightarrow> string \<Rightarrow> portal \<Rightarrow> portal" where
  "send_magic_link e now jti email name p =
     (let em = norm_email email in
      if \<not> looks_like_email em then p
      else if account_by_email p em = None \<and> \<not> pe_signups_open e then p
      else mail_to em ''magic'' (make_magic_token (pe_auth e) now jti em name) p)"

record sign_methods =
  sm_magic :: bool
  sm_google :: bool
  sm_phone :: bool

definition available_methods :: "portal_env \<Rightarrow> sign_methods" where
  "available_methods e = \<lparr>sm_magic = True, sm_google = pe_google_ready e, sm_phone = pe_phone_ready e\<rparr>"

section \<open>Sessions live and die\<close>

lemma tok_sign_not_Nil [simp]: "tok_sign env q \<noteq> []"
  by (simp add: tok_sign_def Let_def)

lemma read_kind_sign:
  assumes "codec_ok env q" and "map_of q ''exp'' = Some (JFloat x)"
  shows "read_kind env now kind ms (Some (tok_sign env q)) =
    (if \<not> x < now \<and> jget q ''k'' = JStr kind \<and> (\<forall>m \<in> set ms. truthy (jget q m)) then Some q else None)"
  using tok.live_until [OF assms, of now] by (simp add: read_kind_def)

lemma read_kind_Some:
  "read_kind env now kind ms c = Some d \<Longrightarrow>
   \<exists>t. c = Some t \<and> tok_unsign env now t = Some d \<and> jget d ''k'' = JStr kind \<and> (\<forall>m \<in> set ms. truthy (jget d m))"
  by (auto simp: read_kind_def split: option.splits if_splits)

lemma session_payload_simps [simp]:
  "map_of (session_payload now ttl aid p) ''exp'' = Some (JFloat (now + ttl))"
  "jget (session_payload now ttl aid p) ''k'' = JStr ''signacct''"
  "jget (session_payload now ttl aid p) ''aid'' = JInt aid"
  "jget_or0 (session_payload now ttl aid p) ''sv'' = JInt (session_version p aid)"
  by (simp_all add: session_payload_def jget_def jget_or0_def)

lemma account_by_id_facts: "account_by_id p aid = Some a \<Longrightarrow> ac_id a = aid \<and> aid \<noteq> 0 \<and> session_version p aid = ac_ver a"
  by (auto simp: account_by_id_def session_version_def dest: acct_row_id split: if_splits)

lemma session_account_make:
  assumes "codec_ok env (session_payload now ttl aid p)" and "account_by_id q aid = Some a"
  shows "session_account env later (Some (make_session env now ttl aid p)) q =
    Inr (if later \<le> now + ttl \<and> ac_status a = ''active'' \<and> ac_ver a = session_version p aid then Some a else None)"
  using assms account_by_id_facts [OF assms(2)]
  by (auto simp: session_account_def make_session_def read_kind_sign)

text \<open>Property C17. A session opens exactly its own account: minted for an account, it is good until its expiry while the
  account is active and no revocation happened; one revocation (log-out, password change, suspension) ends every
  session minted before it, for good, however often the account is written afterwards.\<close>

theorem session_lifecycle:
  assumes "ae_loads (ae) (ae_dumps ae (JObj (session_payload now ttl aid p))) = Some (JObj (session_payload now ttl aid p))"
    and "account_by_id p aid = Some a" and "ac_status a = ''active''"
  shows "session_account ae later (Some (make_session ae now ttl aid p)) p = Inr (if later \<le> now + ttl then Some a else None) \<and>
    (\<forall>b q. account_by_id q aid = Some b \<and> ac_ver a < ac_ver b \<longrightarrow>
       session_account ae later (Some (make_session ae now ttl aid p)) q = Inr None) \<and>
    (\<exists>b. account_by_id (snd (bump_session_version aid p)) aid = Some b \<and> ac_ver a < ac_ver b)"
proof -
  have c: "codec_ok ae (session_payload now ttl aid p)" using assms(1) by (simp add: codec_ok_def)
  have v: "session_version p aid = ac_ver a" "aid \<noteq> 0" using account_by_id_facts [OF assms(2)] by auto
  have "account_by_id (snd (bump_session_version aid p)) aid = Some (a\<lparr>ac_ver := ac_ver a + 1\<rparr>)"
    using assms(2) by (simp add: bump_session_version_def Let_def account_by_id_upd)
  then show ?thesis
    using session_account_make [OF c assms(2), of later] session_account_make [OF c, of _ _ later] assms(3) v by auto
qed

lemma session_lifecycle_witness:
  "let ae = demo_env (session_payload 10 SESSION_TTL 3 demo_portal); c = make_session ae 10 SESSION_TTL 3 demo_portal in
   session_account ae 20 (Some c) demo_portal = Inr (Some demo_account) \<and>
   session_account ae 20 (Some c) (snd (bump_session_version 3 demo_portal)) = Inr None"
proof -
  let ?ae = "demo_env (session_payload 10 SESSION_TTL 3 demo_portal)"
  have "ae_loads ?ae (ae_dumps ?ae (JObj (session_payload 10 SESSION_TTL 3 demo_portal))) =
      Some (JObj (session_payload 10 SESSION_TTL 3 demo_portal))" by (simp add: demo_env_def)
  moreover have "ac_status demo_account = ''active''" by (simp add: demo_account_def new_account_def)
  ultimately show ?thesis
    using session_lifecycle [of ?ae 10 SESSION_TTL 3 demo_portal demo_account 20] demo_portal_account
    by (auto simp: Let_def SESSION_TTL_def)
qed

section \<open>No token serves two purposes\<close>

lemma at_most_one:
  "list_all2 (\<lambda>b k. b \<longrightarrow> x = k) bs ks \<Longrightarrow> distinct ks \<Longrightarrow> length (filter id bs) \<le> 1"
proof (induction rule: list_all2_induct)
  case (Cons b bs k ks)
  have "\<not> (\<exists>b \<in> set bs. b)" if b
  proof
    assume "\<exists>b \<in> set bs. b"
    then have "x \<in> set ks"
      using Cons.hyps(2) by (auto simp: list_all2_conv_all_nth in_set_conv_nth) (metis nth_mem)
    with Cons.hyps(1) that Cons.prems show False by auto
  qed
  then show ?case using Cons.IH Cons.prems by (auto simp: filter_empty_conv)
qed simp

text \<open>Token kinds never mix: whatever the bytes of a token, at most one of the five readers (session, pending
  second factor, pending phone, verify link, magic link) accepts it, whatever the clock and the database say.\<close>

theorem one_reader_per_token:
  "length (filter id
     [\<exists>a. session_account env now (Some t) p = Inr (Some a), redeem_2fa_pending env now (Some t) \<noteq> None,
      redeem_phone_pending env now (Some t) \<noteq> None, read_verify_token env now t \<noteq> None,
      read_magic_token env now t \<noteq> None]) \<le> 1"
proof (cases "tok_unsign env now t")
  case None
  then show ?thesis
    by (simp add: session_account_def redeem_2fa_pending_def redeem_phone_pending_def read_verify_token_def
        read_magic_token_def read_kind_def)
next
  case (Some d)
  have "\<exists>a. session_account env now (Some t) p = Inr (Some a) \<Longrightarrow> jget d ''k'' = JStr ''signacct''"
    using Some by (auto simp: session_account_def read_kind_def split: if_splits)
  moreover have "read_kind env now kind ms (Some t) \<noteq> None \<Longrightarrow> jget d ''k'' = JStr kind" for kind ms
    using Some by (auto simp: read_kind_def split: if_splits)
  ultimately show ?thesis
    unfolding redeem_2fa_pending_def redeem_phone_pending_def read_verify_token_def read_magic_token_def
    by (intro at_most_one [where x = "jget d ''k''"
          and ks = "map JStr [''signacct'', ''signacct2fa'', ''signacctphone'', ''signverify'', ''signmagic'']"])
      (simp_all del: not_None_eq)
qed

section \<open>Authenticator codes are used once\<close>

text \<open>The steps accepted along any sequence of attempts (clock, secret, code) on one account.\<close>

fun accepted_steps :: "auth_env \<Rightarrow> int \<Rightarrow> (time \<times> string \<times> string) list \<Rightarrow> portal \<Rightarrow> int list" where
  "accepted_steps env aid [] p = []"
| "accepted_steps env aid ((now, secret, code) # as) p =
     (case check_totp env now aid secret code 1 p of
        (Inr True, p1) \<Rightarrow> last_step (totp_last_step_key aid) (p_auth p1) # accepted_steps env aid as p1
      | (_, p1) \<Rightarrow> accepted_steps env aid as p1)"

lemma last_step_frames [simp]:
  "last_step k (auth_limit_record ts k' ok n s d) = last_step k d"
  "last_step k (set_setting k (JInt i) d) = i"
  by (auto simp: last_step_def get_setting_def Let_def)

lemma check_totp_accept:
  assumes "check_totp env now aid secret code w p = (Inr True, p1)"
  shows "last_step (totp_last_step_key aid) (p_auth p) < last_step (totp_last_step_key aid) (p_auth p1) \<and>
    hotp env secret (last_step (totp_last_step_key aid) (p_auth p1)) = Inr (clean_code code) \<and>
    \<bar>last_step (totp_last_step_key aid) (p_auth p1) - \<lfloor>now / 30\<rfloor>\<bar> \<le> w"
proof -
  obtain step where s: "totp_match_step env now secret code w = Inr (Some step)"
      "last_step (totp_last_step_key aid) (p_auth p) < step"
      "last_step (totp_last_step_key aid) (p_auth p1) = step"
    using assms by (auto simp: check_totp_def totp_record_def split: sum.splits option.splits if_splits)
  then have "scan_steps env secret (clean_code code) (map (\<lambda>d. \<lfloor>now / 30\<rfloor> + d) (rev [- w..w])) = Inr (Some step)"
    by (auto simp: totp_match_step_def Let_def split: if_splits)
  from scan_steps_Some [OF this] s show ?thesis by auto
qed

lemma check_totp_refuse:
  "check_totp env now aid secret code w p = (r, p1) \<Longrightarrow> r \<noteq> Inr True \<Longrightarrow>
   last_step k (p_auth p1) = last_step k (p_auth p)"
  by (auto simp: check_totp_def totp_record_def split: sum.splits option.splits if_splits)

text \<open>Property C18. An authenticator code works once: along any sequence of attempts on an account, with any clocks, codes
  and enrolments, the accepted 30-second steps strictly increase, beyond the step recorded before; and each was
  the step of a correct code for the secret tried, at most one step from its clock.\<close>

theorem totp_single_use:
  "sorted_wrt (<) (last_step (totp_last_step_key aid) (p_auth p) # accepted_steps env aid as p) \<and>
   (\<forall>n \<in> set (accepted_steps env aid as p).
      \<exists>(now, secret, code) \<in> set as. hotp env secret n = Inr (clean_code code) \<and> \<bar>n - \<lfloor>now / 30\<rfloor>\<bar> \<le> 1)"
proof (induction as arbitrary: p)
  case (Cons x as)
  obtain now secret code where x: "x = (now, secret, code)" by (cases x)
  obtain r p1 where r: "check_totp env now aid secret code 1 p = (r, p1)" by fastforce
  show ?case
  proof (cases "r = Inr True")
    case True
    then show ?thesis
      using Cons.IH [of p1] check_totp_accept [of env now aid secret code 1 p p1] r by (auto simp: x)
  next
    case False
    have "accepted_steps env aid (x # as) p = accepted_steps env aid as p1"
      using False r by (auto simp: x split: sum.splits bool.splits)
    with Cons.IH [of p1] check_totp_refuse [OF r False] show ?thesis by auto
  qed
qed simp

lemma demo_hotp: "0 \<le> n \<Longrightarrow> n < 2 ^ 64 \<Longrightarrow> hotp (demo_env []) ''AAAAAAAA'' n = Inr ''233672''"
proof -
  assume n: "0 \<le> n" "n < 2 ^ 64"
  have "auth_b32decode ''AAAAAAAA'' \<noteq> None" by code_simp
  moreover have "truncate_hash (map (\<lambda>i. char_of (i + 65)) [0..<20]) = Inr ''233672''" by code_simp
  ultimately show ?thesis using n by (auto simp: hotp_def demo_env_def)
qed

lemma totp_single_use_witness:
  "let xs = [(100, ''AAAAAAAA'', ''23 3672''), (101, ''AAAAAAAA'', ''233672'')];
       as = accepted_steps (demo_env []) 3 xs demo_portal in
   as = [4] \<and> (\<exists>(now, secret, code) \<in> set xs. hotp (demo_env []) secret 4 = Inr (clean_code code))"
proof -
  let ?xs = "[(100, ''AAAAAAAA'', ''23 3672''), (101, ''AAAAAAAA'', ''233672'')] :: (time \<times> string \<times> string) list"
  have f: "\<lfloor>100 / 30 :: real\<rfloor> = 3" "\<lfloor>101 / 30 :: real\<rfloor> = 3" by (simp_all add: floor_eq_iff)
  have c: "clean_code ''23 3672'' = ''233672''" "clean_code ''233672'' = ''233672''" "latin_isdigit ''233672''"
      "compare_digest ''233672'' ''233672'' = Inr True" by code_simp+
  have r: "rev [-1..1] = [1, 0, -1 :: int]" by code_simp
  have m: "totp_match_step (demo_env []) 100 ''AAAAAAAA'' ''23 3672'' 1 = Inr (Some 4)"
      "totp_match_step (demo_env []) 101 ''AAAAAAAA'' ''233672'' 1 = Inr (Some 4)"
    unfolding totp_match_step_def c f r by (simp_all add: demo_hotp c)
  have "accepted_steps (demo_env []) 3 ?xs demo_portal = [4]"
    using m by (simp add: check_totp_def totp_locked_def totp_record_def auth_limit_locked_def auth_limit_record_def
        last_step_def get_setting_def set_setting_def demo_portal_def empty_portal_def empty_auth_def)
  with totp_single_use [of 3 demo_portal "demo_env []" ?xs] show ?thesis
    by (simp add: Let_def del: accepted_steps.simps)
qed

section \<open>Phone numbers\<close>

lemma e164_shape: "e164 s = [] \<or> (\<exists>t. e164 s = CHR ''+'' # t \<and> (\<forall>c \<in> set t. is_digit c \<or> c = CHR ''+''))"
proof -
  define f where "f = filter (\<lambda>c. is_digit c \<or> c = CHR ''+'') (py_strip s)"
  have one: "is_digit (CHR ''1'')" by code_simp
  have "\<forall>c \<in> set f. is_digit c \<or> c = CHR ''+''" by (simp add: f_def)
  then show ?thesis
    unfolding e164_def Let_def f_def [symmetric]
    by (cases f) (use one in \<open>auto simp: startswith_def\<close>)
qed

lemma e164_idem: "e164 (e164 s) = e164 s"
proof (cases "e164 s = []")
  case True
  then show ?thesis by (simp add: e164_def py_strip_def)
next
  case False
  then obtain t where t: "e164 s = CHR ''+'' # t" "\<forall>c \<in> set t. is_digit c \<or> c = CHR ''+''"
    using e164_shape by blast
  have plus: "\<not> is_space (CHR ''+'')" by code_simp
  have "\<not> is_space c" if "c \<in> set (CHR ''+'' # t)" for c
    using that t(2) is_digit_not_space [of c] plus by (cases "c = CHR ''+''") auto
  then have "py_strip (CHR ''+'' # t) = CHR ''+'' # t"
    by (intro py_strip_no_space) blast
  moreover have "filter (\<lambda>c. is_digit c \<or> c = CHR ''+'') t = t" using t(2) by simp
  ultimately show ?thesis unfolding t(1) e164_def [of "CHR ''+'' # t"] by (simp add: Let_def startswith_def)
qed

lemma valid_phone_e164 [simp]: "valid_phone (e164 s) = valid_phone s"
  by (simp add: valid_phone_def e164_idem)

lemma check_phone_code_e164 [simp]: "check_phone_code e (e164 s) code = check_phone_code e s code"
  by (simp add: check_phone_code_def e164_idem)

end
