(* ===== verification/Signin.thy ===== *)
theory Signin
  imports Portal
begin

text \<open>
  The sign-in routes of \<open>sign/routers/portal.py\<close>, over the sender authentication: phone code,
  mail link and Google sign-in, the authenticator step, mail verification, log-out and the
  enrolment of an authenticator. A route is a function from the request's values, the clock and the
  fresh randomness it draws to its answer and the new state. The JSON body is a parsed object.
\<close>

text \<open>How a sign-in route answers: an error, the second-factor cookie, or a session cookie.\<close>

datatype signin =
    SiError string
  | SiNeed2fa string
  | SiSession int string

text \<open>The last part of every route: the second factor if one is armed, a session otherwise.\<close>

definition open_session :: "portal_env \<Rightarrow> time \<Rightarrow> string \<Rightarrow> account \<Rightarrow> portal \<Rightarrow> signin \<times> portal" where
  "open_session e now jti a p =
     (if ac_totp a \<noteq> [] then (SiNeed2fa (make_2fa_pending (pe_auth e) now jti (ac_id a)), p)
      else (let p1 = touch_login now (ac_id a) p
            in (SiSession (ac_id a) (make_session (pe_auth e) now SESSION_TTL (ac_id a) p1), p1)))"

section \<open>Phone code\<close>

datatype phone_start = PsInvalid | PsLimited | PsUnavailable | PsCode string

definition phone_start ::
  "portal_env \<Rightarrow> time \<Rightarrow> string \<Rightarrow> string \<Rightarrow> string \<Rightarrow> string \<Rightarrow> string \<Rightarrow> portal \<Rightarrow> phone_start \<times> portal" where
  "phone_start e now jti ip phone email name p =
     (if \<not> valid_phone phone then (PsInvalid, p)
      else (case phone_start_allowed now ip phone p of
          (False, p1) \<Rightarrow> (PsLimited, p1)
        | (True, p1) \<Rightarrow>
            if \<not> send_phone_code e phone then (PsUnavailable, p1)
            else (PsCode (make_phone_pending (pe_auth e) now jti phone email name), p1)))"

text \<open>A string member of a token the server signed; the routes only sign strings here.\<close>

definition jstr :: "payload \<Rightarrow> string \<Rightarrow> string" where
  "jstr d k = (case jget d k of JStr s \<Rightarrow> s | _ \<Rightarrow> [])"

definition phone_verify ::
  "portal_env \<Rightarrow> time \<Rightarrow> string \<Rightarrow> string option \<Rightarrow> string \<Rightarrow> string \<Rightarrow> string \<Rightarrow> portal \<Rightarrow> signin \<times> portal" where
  "phone_verify e now jti cookie code body_email body_name p =
     (case redeem_phone_pending (pe_auth e) now cookie of
        None \<Rightarrow> (SiError ''expired'', p)
      | Some d \<Rightarrow>
          if \<not> check_phone_code e (jstr d ''ph'') code then (SiError ''invalid_code'', p)
          else (case account_by_phone p (jstr d ''ph'') of
              Some a \<Rightarrow> open_session e now jti a p
            | None \<Rightarrow>
                (let email = norm_email (or_default (jstr d ''em'') body_email);
                     name = py_strip (or_default (jstr d ''nm'') body_name)
                 in if \<not> looks_like_email email then (SiError ''email_required'', p)
                    else if \<not> pe_signups_open e then (SiError ''signups_closed'', p)
                    else (case create_account (pe_auth e) now [] email name None [] p of
                        (Inl CreateExists, p1) \<Rightarrow> (SiError ''email_in_use'', p1)
                      | (Inl CreateInvalidEmail, p1) \<Rightarrow> (SiError ''invalid_email'', p1)
                      | (Inr a, p1) \<Rightarrow>
                          (let p2 = attach_phone (ac_id a) (jstr d ''ph'') p1;
                               b = the (account_by_id p2 (ac_id a));
                               p3 = send_verify_email e now b p2
                           in open_session e now jti b p3)))))"

section \<open>Second factor\<close>

definition second_factor :: "portal_env \<Rightarrow> time \<Rightarrow> string option \<Rightarrow> string \<Rightarrow> portal \<Rightarrow> (py_exc + signin) \<times> portal" where
  "second_factor e now cookie code p =
     (case redeem_2fa_pending (pe_auth e) now cookie of
        None \<Rightarrow> (Inr (SiError ''expired''), p)
      | Some d \<Rightarrow>
          (case jint (jget d ''aid'') of
             Inl x \<Rightarrow> (Inl x, p)
           | Inr aid \<Rightarrow>
               (case account_by_id p aid of
                  None \<Rightarrow> (Inr (SiError ''invalid''), p)
                | Some a \<Rightarrow>
                    if ac_status a \<noteq> ''active'' then (Inr (SiError ''invalid''), p)
                    else if ac_totp a = [] then (Inr (SiError ''invalid_code''), p)
                    else (case verify_totp_for_account e now aid code p of
                        (Inl x, p1) \<Rightarrow> (Inl x, p1)
                      | (Inr False, p1) \<Rightarrow> (Inr (SiError ''invalid_code''), p1)
                      | (Inr True, p1) \<Rightarrow>
                          (let p2 = touch_login now aid p1
                           in (Inr (SiSession aid (make_session (pe_auth e) now SESSION_TTL aid p2)), p2))))))"

section \<open>Mail links\<close>

definition verify_email :: "portal_env \<Rightarrow> time \<Rightarrow> string \<Rightarrow> portal \<Rightarrow> (py_exc + bool) \<times> portal" where
  "verify_email e now token p =
     (case read_verify_token (pe_auth e) now token of
        None \<Rightarrow> (Inr False, p)
      | Some d \<Rightarrow>
          (case jint (jget d ''aid'') of
             Inl x \<Rightarrow> (Inl x, p)
           | Inr aid \<Rightarrow>
               (case account_by_id p aid of
                  None \<Rightarrow> (Inr False, p)
                | Some a \<Rightarrow>
                    if norm_email (ac_email a) \<noteq> norm_email (jstr d ''em'') then (Inr False, p)
                    else (Inr True, set_email_verified aid p))))"

definition magic_start ::
  "portal_env \<Rightarrow> time \<Rightarrow> string \<Rightarrow> string \<Rightarrow> string \<Rightarrow> string \<Rightarrow> portal \<Rightarrow> bool \<times> portal" where
  "magic_start e now jti ip email name p =
     (let em = norm_email email in
      if \<not> looks_like_email em then (False, p)
      else (case magic_start_allowed now ip em p of
          (False, p1) \<Rightarrow> (True, p1)
        | (True, p1) \<Rightarrow> (True, send_magic_link e now jti em name p1)))"

definition claim_jti :: "string \<Rightarrow> json \<Rightarrow> portal \<Rightarrow> bool \<times> portal" where
  "claim_jti jti expj p = on_auth (claim_once (''magic_used:'' @ jti) (JObj [(''exp'', expj)])) p"

definition magic_verify :: "portal_env \<Rightarrow> time \<Rightarrow> string \<Rightarrow> string \<Rightarrow> portal \<Rightarrow> signin \<times> portal" where
  "magic_verify e now jti2 token p =
     (case read_magic_token (pe_auth e) now token of
        None \<Rightarrow> (SiError ''magic'', p)
      | Some d \<Rightarrow>
          (let email = norm_email (jstr d ''em''); name = py_strip (jstr d ''nm''); jti = jstr d ''jti'' in
           if CHR ''@'' \<notin> set email then (SiError ''magic'', p)
           else if jti = [] then (SiError ''magic'', p)
           else (case claim_jti jti (jget d ''exp'') p of
               (False, p1) \<Rightarrow> (SiError ''magic'', p1)
             | (True, p1) \<Rightarrow>
                 (case account_by_email p1 email of
                    None \<Rightarrow>
                      if \<not> pe_signups_open e then (SiError ''closed'', p1)
                      else (case create_account (pe_auth e) now [] email name None [] p1 of
                          (Inl _, p2) \<Rightarrow> (SiError ''create'', p2)
                        | (Inr a, p2) \<Rightarrow>
                            (let p3 = set_email_verified (ac_id a) p2
                             in open_session e now jti2 (the (account_by_id p3 (ac_id a))) p3))
                  | Some a \<Rightarrow>
                      open_session e now jti2 a
                        (if ac_verified a then p1 else set_email_verified (ac_id a) p1)))))"

section \<open>Google\<close>

text \<open>\<open>_oauth_state_ok\<close> on ASCII values.\<close>

definition oauth_state_ok :: "string option \<Rightarrow> string \<Rightarrow> bool" where
  "oauth_state_ok cookie param = (case cookie of None \<Rightarrow> False | Some c \<Rightarrow> c \<noteq> [] \<and> param \<noteq> [] \<and> c = param)"

text \<open>
  The callback, with the address the exchange of the code returned (\<open>None\<close>: it failed). The row
  the session is opened from is the one read before the writes, as in the code.
\<close>

definition google_callback ::
  "portal_env \<Rightarrow> time \<Rightarrow> string \<Rightarrow> string option \<Rightarrow> string option \<Rightarrow> string \<Rightarrow> string option \<Rightarrow> portal \<Rightarrow> signin \<times> portal" where
  "google_callback e now jti cookie nonce state exchanged p =
     (if \<not> oauth_state_ok cookie state then (SiError ''state'', p)
      else if nonce = None \<or> nonce = Some [] then (SiError ''state'', p)
      else (case exchanged of
          None \<Rightarrow> (SiError ''google'', p)
        | Some raw \<Rightarrow>
            if raw = [] then (SiError ''google'', p)
            else (let email = norm_email raw in
              (case account_by_email p email of
                 None \<Rightarrow>
                   if \<not> pe_signups_open e then (SiError ''closed'', p)
                   else (case create_account (pe_auth e) now [] email (hd (py_split (CHR ''@'') email)) None [] p of
                       (Inl _, p1) \<Rightarrow> (SiError ''create'', p1)
                     | (Inr a, p1) \<Rightarrow> open_session e now jti a p1)
               | Some a \<Rightarrow>
                   if ac_verified a then open_session e now jti a p
                   else
                     (let p1 = (if ac_phone a \<noteq> [] then attach_phone (ac_id a) [] p else p);
                          p2 = set_email_verified (ac_id a) p1
                      in open_session e now jti a p2)))))"

section \<open>Log-out and the authenticator\<close>

definition logout :: "portal_env \<Rightarrow> time \<Rightarrow> string option \<Rightarrow> portal \<Rightarrow> py_exc + portal" where
  "logout e now cookie p =
     try_bind (session_account (pe_auth e) now cookie p) (\<lambda>ao.
       Inr (case ao of None \<Rightarrow> p | Some a \<Rightarrow> snd (bump_session_version (ac_id a) p)))"

definition resend_verify :: "portal_env \<Rightarrow> time \<Rightarrow> string option \<Rightarrow> portal \<Rightarrow> py_exc + bool \<times> portal" where
  "resend_verify e now cookie p =
     try_bind (session_account (pe_auth e) now cookie p) (\<lambda>ao.
       Inr (case ao of
              None \<Rightarrow> (False, p)
            | Some a \<Rightarrow> (True, if \<not> ac_verified a \<and> ac_google_sub a = [] then send_verify_email e now a p else p)))"

definition totp_enroll :: "portal_env \<Rightarrow> time \<Rightarrow> string \<Rightarrow> string option \<Rightarrow> portal \<Rightarrow> py_exc + string option" where
  "totp_enroll e now secret cookie p =
     try_bind (session_account (pe_auth e) now cookie p) (\<lambda>ao.
       Inr (map_option (\<lambda>a. tok_sign (pe_auth e)
              [(''k'', JStr ''signtotp''), (''aid'', JInt (ac_id a)), (''s'', JStr secret), (''exp'', JFloat (now + 600))]) ao))"

datatype totp_answer = ToUnauthorized | ToExpired | ToInvalidCode | ToOk

definition totp_confirm ::
  "portal_env \<Rightarrow> time \<Rightarrow> string option \<Rightarrow> string option \<Rightarrow> string \<Rightarrow> portal \<Rightarrow> (py_exc + totp_answer) \<times> portal" where
  "totp_confirm e now cookie pending code p =
     (case session_account (pe_auth e) now cookie p of
        Inl x \<Rightarrow> (Inl x, p)
      | Inr None \<Rightarrow> (Inr ToUnauthorized, p)
      | Inr (Some a) \<Rightarrow>
          (case read_kind (pe_auth e) now ''signtotp'' [] pending of
             None \<Rightarrow> (Inr ToExpired, p)
           | Some d \<Rightarrow>
               (case jint (jget_or0 d ''aid'') of
                  Inl x \<Rightarrow> (Inl x, p)
                | Inr aid \<Rightarrow>
                    if aid \<noteq> ac_id a then (Inr ToExpired, p)
                    else (case verify_totp_for_pending e now (ac_id a) (jstr d ''s'') code p of
                        (Inl x, p1) \<Rightarrow> (Inl x, p1)
                      | (Inr False, p1) \<Rightarrow> (Inr ToInvalidCode, p1)
                      | (Inr True, p1) \<Rightarrow> (Inr ToOk, set_totp (ac_id a) (encrypt (pe_fernet e) (jstr d ''s'')) p1)))))"

definition totp_disable :: "portal_env \<Rightarrow> time \<Rightarrow> string option \<Rightarrow> string \<Rightarrow> portal \<Rightarrow> (py_exc + totp_answer) \<times> portal" where
  "totp_disable e now cookie code p =
     (case session_account (pe_auth e) now cookie p of
        Inl x \<Rightarrow> (Inl x, p)
      | Inr None \<Rightarrow> (Inr ToUnauthorized, p)
      | Inr (Some a) \<Rightarrow>
          if ac_totp a = [] then (Inr ToOk, p)
          else (case verify_totp_for_account e now (ac_id a) code p of
              (Inl x, p1) \<Rightarrow> (Inl x, p1)
            | (Inr False, p1) \<Rightarrow> (Inr ToInvalidCode, p1)
            | (Inr True, p1) \<Rightarrow> (Inr ToOk, clear_totp (ac_id a) p1)))"

section \<open>Where a session comes from\<close>

lemma find_by_id:
  assumes "accounts_ok p" and "a \<in> set (p_accounts p)"
  shows "account_by_id p (ac_id a) = Some a"
  using assms find_key [of ac_id "p_accounts p" a] by (auto simp: accounts_ok_def account_by_id_def acct_row_def)

lemma account_lookups:
  assumes "accounts_ok p"
  shows "account_by_phone p s = Some a \<Longrightarrow> account_by_id p (ac_id a) = Some a"
    and "account_by_email p s = Some a \<Longrightarrow> account_by_id p (ac_id a) = Some a"
  using find_by_id [OF assms] by (auto simp: account_by_phone_def account_by_email_def Let_def dest: find_SomeD split: if_splits)

lemma p_accounts_auth [simp]:
  "p_accounts (snd (on_auth f p)) = p_accounts p"
  "account_by_id (snd (on_auth f p)) i = account_by_id p i"
  "account_by_email (snd (on_auth f p)) s = account_by_email p s"
  "account_by_id (mail_to t k u p) i = account_by_id p i"
  by (simp_all add: on_auth_def mail_to_def account_by_email_def Let_def split: prod.splits)

lemma on_auth_pair: "on_auth f p = (r, p1) \<Longrightarrow> p1 = p\<lparr>p_auth := snd (f (p_auth p))\<rparr>"
  by (auto simp: on_auth_def split: prod.splits)

lemma send_verify_account [simp]: "account_by_id (send_verify_email e now a p) i = account_by_id p i"
  by (auto simp: send_verify_email_def dest!: on_auth_pair split: prod.splits bool.splits)

text \<open>What the steps of a sign-in leave of an account: all but its login time, verification and phone.\<close>

definition same_secrets :: "account \<Rightarrow> account \<Rightarrow> bool" where
  "same_secrets a b =
     (ac_id b = ac_id a \<and> ac_email b = ac_email a \<and> ac_pw_hash b = ac_pw_hash a \<and> ac_totp b = ac_totp a \<and>
      ac_status b = ac_status a \<and> ac_ver b = ac_ver a \<and> ac_google_sub b = ac_google_sub a)"

lemma same_secrets_refl [simp]: "same_secrets a a"
  by (simp add: same_secrets_def)

lemma account_writes:
  "account_by_id (touch_login now i p) j =
     (if j = i then map_option (\<lambda>a. a\<lparr>ac_login := Some now\<rparr>) (account_by_id p j) else account_by_id p j)"
  "account_by_id (set_email_verified i p) j =
     (if j = i then map_option (\<lambda>a. a\<lparr>ac_verified := True\<rparr>) (account_by_id p j) else account_by_id p j)"
  "account_by_id (attach_phone i ph p) j =
     (if j = i then map_option (\<lambda>a. a\<lparr>ac_phone := py_strip ph\<rparr>) (account_by_id p j) else account_by_id p j)"
  by (simp_all add: touch_login_def set_email_verified_def attach_phone_def account_by_id_update)

lemma open_session_session:
  assumes "open_session e now jti a p = (SiSession aid tok, p')" and "account_by_id p (ac_id a) = Some b"
    and "ac_totp b = ac_totp a"
  shows "aid = ac_id a \<and> ac_totp a = [] \<and> account_by_id p' aid = Some (b\<lparr>ac_login := Some now\<rparr>)"
  using assms by (auto simp: open_session_def Let_def account_writes split: if_splits)

lemma create_account_row:
  assumes "create_account env now salt email name pw sub p = (Inr a, p')" and "accounts_ok p"
  shows "account_by_id p' (ac_id a) = Some a" "ac_totp a = []" "ac_verified a = (py_strip sub \<noteq> [])"
    "\<And>i b. account_by_id p i = Some b \<Longrightarrow> i \<noteq> ac_id a \<and> account_by_id p' i = Some b"
proof -
  show n: "account_by_id p' (ac_id a) = Some a" using signup_unique [OF assms(2,1)] by simp
  show "ac_totp a = []" "ac_verified a = (py_strip sub \<noteq> [])"
    using assms(1) by (auto simp: create_account_def Let_def new_account_def split: if_splits)
  fix i b assume b: "account_by_id p i = Some b"
  have "ac_id a = p_next p" using assms(1) by (auto simp: create_account_def Let_def new_account_def split: if_splits)
  moreover have "i < p_next p"
    using b assms(2) by (auto simp: account_by_id_def acct_row_def accounts_ok_def dest!: find_SomeD split: if_splits)
  ultimately show "i \<noteq> ac_id a \<and> account_by_id p' i = Some b"
    using b signup_unique [OF assms(2,1)] by auto
qed

lemma accounts_ok_frames [simp]:
  "accounts_ok (p\<lparr>p_auth := d\<rparr>) = accounts_ok p"
  by (simp add: accounts_ok_def)

lemma phone_verify_session:
  assumes "accounts_ok p" and "phone_verify e now jti c code be bn p = (SiSession aid tok, p')"
  shows "\<exists>a. account_by_id p' aid = Some a \<and> ac_totp a = []"
proof -
  obtain d where d: "redeem_phone_pending (pe_auth e) now c = Some d"
    using assms(2) by (auto simp: phone_verify_def split: option.splits)
  show ?thesis
  proof (cases "account_by_phone p (jstr d ''ph'')")
    case (Some a)
    then have "open_session e now jti a p = (SiSession aid tok, p')"
      using assms(2) d by (auto simp: phone_verify_def split: if_splits)
    from open_session_session [OF this account_lookups(1) [OF assms(1) Some] refl] show ?thesis by auto
  next
    case None
    then obtain a p1 where a: "create_account (pe_auth e) now [] (norm_email (or_default (jstr d ''em'') be))
          (py_strip (or_default (jstr d ''nm'') bn)) None [] p = (Inr a, p1)"
        and o: "open_session e now jti (the (account_by_id (attach_phone (ac_id a) (jstr d ''ph'') p1) (ac_id a)))
          (send_verify_email e now (the (account_by_id (attach_phone (ac_id a) (jstr d ''ph'') p1) (ac_id a)))
             (attach_phone (ac_id a) (jstr d ''ph'') p1)) = (SiSession aid tok, p')"
      using assms(2) d
      by (auto simp: phone_verify_def Let_def split: if_splits sum.splits prod.splits create_error.splits)
    have "account_by_id (attach_phone (ac_id a) (jstr d ''ph'') p1) (ac_id a) = Some (a\<lparr>ac_phone := py_strip (jstr d ''ph'')\<rparr>)"
      using create_account_row(1) [OF a assms(1)] by (simp add: account_writes)
    with open_session_session [OF o, of "a\<lparr>ac_phone := py_strip (jstr d ''ph'')\<rparr>"] create_account_row(2) [OF a assms(1)]
    show ?thesis by auto
  qed
qed

lemma magic_verify_session:
  assumes "accounts_ok p" and "magic_verify e now jti token p = (SiSession aid tok, p')"
  shows "\<exists>a. account_by_id p' aid = Some a \<and> ac_totp a = []"
proof -
  obtain d where d: "read_magic_token (pe_auth e) now token = Some d"
    using assms(2) by (auto simp: magic_verify_def split: option.splits)
  let ?em = "norm_email (jstr d ''em'')" and ?nm = "py_strip (jstr d ''nm'')"
  obtain p1 where c: "claim_jti (jstr d ''jti'') (jget d ''exp'') p = (True, p1)"
    using assms(2) d by (auto simp: magic_verify_def Let_def split: if_splits prod.splits bool.splits)
  have "p1 = p\<lparr>p_auth := snd (claim_once (''magic_used:'' @ jstr d ''jti'') (JObj [(''exp'', jget d ''exp'')]) (p_auth p))\<rparr>"
    using c unfolding claim_jti_def by (rule on_auth_pair)
  then have ok1: "accounts_ok p1" using assms(1) by simp
  have r: "magic_verify e now jti token p =
      (case account_by_email p1 ?em of
         None \<Rightarrow> if \<not> pe_signups_open e then (SiError ''closed'', p1)
           else (case create_account (pe_auth e) now [] ?em ?nm None [] p1 of
               (Inl _, p2) \<Rightarrow> (SiError ''create'', p2)
             | (Inr a, p2) \<Rightarrow> let p3 = set_email_verified (ac_id a) p2
                 in open_session e now jti (the (account_by_id p3 (ac_id a))) p3)
       | Some a \<Rightarrow> open_session e now jti a (if ac_verified a then p1 else set_email_verified (ac_id a) p1))"
    using assms(2) d c by (simp add: magic_verify_def Let_def split: if_splits)
  show ?thesis
  proof (cases "account_by_email p1 ?em")
    case (Some a)
    let ?q = "if ac_verified a then p1 else set_email_verified (ac_id a) p1"
    have o: "open_session e now jti a ?q = (SiSession aid tok, p')" using r Some assms(2) by simp
    have "account_by_id p1 (ac_id a) = Some a" by (rule account_lookups(2) [OF ok1 Some])
    then have "\<exists>b. account_by_id ?q (ac_id a) = Some b \<and> ac_totp b = ac_totp a" by (simp add: account_writes)
    then obtain b where "account_by_id ?q (ac_id a) = Some b" "ac_totp b = ac_totp a" by blast
    from open_session_session [OF o this] this show ?thesis by auto
  next
    case None
    obtain a p2 where a: "create_account (pe_auth e) now [] ?em ?nm None [] p1 = (Inr a, p2)"
        and o: "open_session e now jti (the (account_by_id (set_email_verified (ac_id a) p2) (ac_id a)))
          (set_email_verified (ac_id a) p2) = (SiSession aid tok, p')"
      using r None assms(2) by (auto simp: Let_def split: if_splits sum.splits prod.splits)
    have "account_by_id (set_email_verified (ac_id a) p2) (ac_id a) = Some (a\<lparr>ac_verified := True\<rparr>)"
      using create_account_row(1) [OF a ok1] by (simp add: account_writes)
    with open_session_session [OF o, of "a\<lparr>ac_verified := True\<rparr>"] create_account_row(2) [OF a ok1]
    show ?thesis by auto
  qed
qed

lemma google_session:
  assumes "accounts_ok p" and "google_callback e now jti c nonce st ex p = (SiSession aid tok, p')"
  shows "\<exists>a. account_by_id p' aid = Some a \<and> ac_totp a = []"
proof -
  obtain raw where r: "ex = Some raw" "raw \<noteq> []"
    using assms(2) by (auto simp: google_callback_def split: if_splits option.splits)
  let ?em = "norm_email raw"
  show ?thesis
  proof (cases "account_by_email p ?em")
    case (Some a)
    let ?q = "if ac_verified a then p
      else set_email_verified (ac_id a) (if ac_phone a \<noteq> [] then attach_phone (ac_id a) [] p else p)"
    have o: "open_session e now jti a ?q = (SiSession aid tok, p')"
      using r Some assms(2) by (auto simp: google_callback_def Let_def split: if_splits)
    have "account_by_id p (ac_id a) = Some a" by (rule account_lookups(2) [OF assms(1) Some])
    then have "\<exists>b. account_by_id ?q (ac_id a) = Some b \<and> ac_totp b = ac_totp a" by (simp add: account_writes)
    then obtain b where "account_by_id ?q (ac_id a) = Some b" "ac_totp b = ac_totp a" by blast
    from open_session_session [OF o this] this show ?thesis by auto
  next
    case None
    then obtain a p1 where a: "create_account (pe_auth e) now [] ?em (hd (py_split (CHR ''@'') ?em)) None [] p = (Inr a, p1)"
        and o: "open_session e now jti a p1 = (SiSession aid tok, p')"
      using r assms(2) by (auto simp: google_callback_def Let_def split: if_splits sum.splits prod.splits)
    from open_session_session [OF o create_account_row(1) [OF a assms(1)] refl] show ?thesis by auto
  qed
qed

text \<open>Property C15. An armed authenticator is never bypassed: whichever way a sign-in goes (phone code, mail link, Google),
  a session is only opened for an account without an authenticator, and the second-factor route opens one only for
  an active account with an authenticator whose code was accepted at a step beyond every step used before.\<close>

theorem second_factor_required:
  assumes "accounts_ok p"
    and "phone_verify e now jti cookie code be bn p = (SiSession aid tok, p') \<or>
      magic_verify e now jti token p = (SiSession aid tok, p') \<or>
      google_callback e now jti cookie nonce st ex p = (SiSession aid tok, p') \<or>
      second_factor e now cookie code p = (Inr (SiSession aid tok), p')"
  shows "(\<exists>a. account_by_id p' aid = Some a \<and> ac_totp a = []) \<or>
    (\<exists>a. account_by_id p aid = Some a \<and> ac_totp a \<noteq> [] \<and> ac_status a = ''active'' \<and>
       last_step (totp_last_step_key aid) (p_auth p) < last_step (totp_last_step_key aid) (p_auth p') \<and>
       hotp (pe_auth e) (totp_secret (pe_fernet e) p aid) (last_step (totp_last_step_key aid) (p_auth p')) =
         Inr (clean_code code))"
proof (cases "second_factor e now cookie code p = (Inr (SiSession aid tok), p')")
  case False
  with assms(2) have "\<exists>a. account_by_id p' aid = Some a \<and> ac_totp a = []"
    by (elim disjE) (erule phone_verify_session [OF assms(1)] magic_verify_session [OF assms(1)]
      google_session [OF assms(1)] notE, assumption?)+
  then show ?thesis ..
next
  case True
  then obtain a p1 where a: "account_by_id p aid = Some a" "ac_totp a \<noteq> []" "ac_status a = ''active''"
      "verify_totp_for_account e now aid code p = (Inr True, p1)" "p' = touch_login now aid p1"
    by (auto simp: second_factor_def Let_def split: option.splits sum.splits if_splits prod.splits bool.splits)
  from check_totp_accept [OF a(4) [unfolded verify_totp_for_account_def]] a show ?thesis
    by (auto simp: touch_login_def)
qed

definition demo_penv :: "payload \<Rightarrow> portal_env" where
  "demo_penv q = \<lparr>pe_auth = demo_env q, pe_fernet = None, pe_signups_open = True, pe_google_ready = True,
     pe_phone_ready = True, pe_sms_send = (\<lambda>n. Some True), pe_sms_check = (\<lambda>n c. Some (c = ''1234''))\<rparr>"

lemma demo_portal_ok: "accounts_ok demo_portal"
  by (simp add: accounts_ok_def demo_portal_def demo_account_def new_account_def)

lemma demo_email: "norm_email ''ann@x.io'' = ''ann@x.io''" "sql_lower ''ann@x.io'' = ''ann@x.io''"
  by code_simp+

lemma second_factor_required_witness:
  "\<exists>tok p' a. google_callback (demo_penv []) 20 ''j'' (Some ''s'') (Some ''n'') ''s'' (Some ''ann@x.io'') demo_portal =
     (SiSession 3 tok, p') \<and> account_by_id p' 3 = Some a \<and> (ac_totp a = [] \<or> account_by_id demo_portal 3 = Some a)"
proof -
  obtain tok p' where g: "google_callback (demo_penv []) 20 ''j'' (Some ''s'') (Some ''n'') ''s'' (Some ''ann@x.io'') demo_portal =
     (SiSession 3 tok, p')"
    by (simp add: google_callback_def oauth_state_ok_def demo_email account_by_email_def demo_portal_def
        demo_account_def new_account_def open_session_def Let_def py_strip_def)
  have "account_by_id demo_portal 3 = Some demo_account" "ac_totp demo_account = []"
    by (simp_all add: demo_portal_account) (simp add: demo_account_def new_account_def)
  with second_factor_required [OF demo_portal_ok, of "demo_penv []" 20 "''j''" "Some ''s''" _ _ _ 3 tok p' _ "Some ''n''" "''s''" "Some ''ann@x.io''"] g
  show ?thesis by auto
qed

section \<open>Mail links work once\<close>

lemma magic_verify_claims:
  assumes "magic_verify e now jti token p = (r, p')" and "r \<noteq> SiError ''magic''"
  shows "\<exists>d. read_magic_token (pe_auth e) now token = Some d \<and> jstr d ''jti'' \<noteq> [] \<and>
    settings (p_auth p) (''magic_used:'' @ jstr d ''jti'') = None \<and>
    settings (p_auth p') (''magic_used:'' @ jstr d ''jti'') \<noteq> None"
proof -
  obtain d where d: "read_magic_token (pe_auth e) now token = Some d" "jstr d ''jti'' \<noteq> []"
    using assms by (auto simp: magic_verify_def Let_def split: option.splits if_splits)
  let ?k = "''magic_used:'' @ jstr d ''jti''"
  obtain p1 where c: "claim_jti (jstr d ''jti'') (jget d ''exp'') p = (True, p1)"
    using assms d by (auto simp: magic_verify_def Let_def split: if_splits prod.splits bool.splits)
  then have "fst (claim_once ?k (JObj [(''exp'', jget d ''exp'')]) (p_auth p))"
      and p1: "p1 = p\<lparr>p_auth := snd (claim_once ?k (JObj [(''exp'', jget d ''exp'')]) (p_auth p))\<rparr>"
    by (auto simp: claim_jti_def on_auth_def split: prod.splits)
  then have free: "settings (p_auth p) ?k = None" and used: "settings (p_auth p1) ?k \<noteq> None"
    by (auto simp: claim_once_def split: option.splits)
  have os: "p_auth (snd (open_session e now jti a q)) = p_auth q" for a q
    by (simp add: open_session_def Let_def touch_login_def)
  have cr: "p_auth (snd (create_account env now salt em nm pw sub q)) = p_auth q" for env salt em nm pw sub q
    by (simp add: create_account_def Let_def)
  have "p_auth p' = p_auth p1"
    using assms d c os cr [of "pe_auth e" "[]" "norm_email (jstr d ''em'')" "py_strip (jstr d ''nm'')" None "[]" p1]
    by (auto simp: magic_verify_def Let_def set_email_verified_def claim_jti_def split: if_splits option.splits sum.splits prod.splits
        dest!: arg_cong [where f = "\<lambda>x. p_auth (snd x)"])
  with d free used show ?thesis by auto
qed

text \<open>A mail link opens at most one sign-in: once a click got past the link check, every later click on the same
  link is refused as invalid, at any time and in any later state that still has the settings written by then.\<close>

theorem magic_link_once:
  assumes "magic_verify e now jti token p = (r, p')" and "r \<noteq> SiError ''magic''"
    and "\<And>k. settings (p_auth p') k \<noteq> None \<Longrightarrow> settings (p_auth q) k \<noteq> None"
  shows "fst (magic_verify e later jti2 token q) = SiError ''magic''"
proof (rule ccontr)
  assume n: "fst (magic_verify e later jti2 token q) \<noteq> SiError ''magic''"
  obtain d where d: "read_magic_token (pe_auth e) now token = Some d"
      "settings (p_auth p') (''magic_used:'' @ jstr d ''jti'') \<noteq> None"
    using magic_verify_claims [OF assms(1,2)] by blast
  obtain d2 where d2: "read_magic_token (pe_auth e) later token = Some d2"
      "settings (p_auth q) (''magic_used:'' @ jstr d2 ''jti'') = None"
    using magic_verify_claims [OF prod.collapse [symmetric] n] by blast
  have "d2 = d"
    using d(1) d2(1) by (auto simp: read_magic_token_def read_kind_def tok_unsign_def split: option.splits if_splits json.splits prod.splits)
  with d(2) d2(2) assms(3) show False by blast
qed

definition demo_magic :: payload where
  "demo_magic = [(''k'', JStr ''signmagic''), (''em'', JStr ''ann@x.io''), (''nm'', JStr []), (''jti'', JStr ''j''), (''exp'', JFloat 900)]"

lemma demo_magic_read:
  "now \<le> 900 \<Longrightarrow> read_magic_token (demo_env demo_magic) now (tok_sign (demo_env demo_magic) demo_magic) = Some demo_magic"
  unfolding read_magic_token_def
  by (subst read_kind_sign [where x = 900]) (simp_all add: codec_ok_def demo_env_def demo_magic_def jget_def)

lemma demo_magic_opens:
  "\<exists>tok p'. magic_verify (demo_penv demo_magic) 20 ''x'' (tok_sign (demo_env demo_magic) demo_magic) demo_portal = (SiSession 3 tok, p')"
  using demo_magic_read [of 20]
  by (simp add: magic_verify_def demo_penv_def demo_magic_def jstr_def jget_def demo_email Let_def claim_jti_def
      on_auth_def claim_once_def demo_portal_def empty_portal_def empty_auth_def account_by_email_def demo_account_def
      new_account_def open_session_def split: prod.splits)

lemma magic_link_once_witness:
  "\<exists>p'. fst (magic_verify (demo_penv demo_magic) 21 ''y'' (tok_sign (demo_env demo_magic) demo_magic) p') = SiError ''magic''"
proof -
  obtain tok p' where m: "magic_verify (demo_penv demo_magic) 20 ''x'' (tok_sign (demo_env demo_magic) demo_magic) demo_portal = (SiSession 3 tok, p')"
    using demo_magic_opens by blast
  from magic_link_once [OF m, of p' 21 "''y''"] show ?thesis by blast
qed

section \<open>Who may touch whose account\<close>

lemma open_session_other:
  "account_by_id p i = Some a \<Longrightarrow>
   \<exists>b. account_by_id (snd (open_session e now jti x p)) i = Some b \<and> same_secrets a b \<and> ac_phone b = ac_phone a \<and>
     ac_verified b = ac_verified a"
  by (auto simp: open_session_def Let_def account_writes same_secrets_def)

text \<open>A phone code proves a phone, not an address: no phone sign-in, whatever address and number it carries,
  changes the phone, address, verification, password, authenticator, status or session epoch of an account that
  existed before.\<close>

theorem phone_takeover_resisted:
  assumes "accounts_ok p" and "phone_verify e now jti cookie code be bn p = (r, p')" and "account_by_id p i = Some a"
  shows "\<exists>b. account_by_id p' i = Some b \<and> same_secrets a b \<and> ac_phone b = ac_phone a \<and> ac_verified b = ac_verified a"
proof (cases "redeem_phone_pending (pe_auth e) now cookie")
  case None
  then show ?thesis using assms by (auto simp: phone_verify_def)
next
  case (Some d)
  show ?thesis
  proof (cases "account_by_phone p (jstr d ''ph'')")
    case (Some x)
    then show ?thesis
      using assms \<open>redeem_phone_pending (pe_auth e) now cookie = Some d\<close> open_session_other [OF assms(3), of e now jti x]
      by (auto simp: phone_verify_def split: if_splits)
  next
    case None
    obtain res p1 where cr: "create_account (pe_auth e) now [] (norm_email (or_default (jstr d ''em'') be))
        (py_strip (or_default (jstr d ''nm'') bn)) None [] p = (res, p1)" by fastforce
    show ?thesis
    proof (cases res)
      case (Inl x)
      then have "p1 = p" using cr by (auto simp: create_account_def Let_def split: if_splits)
      then show ?thesis
        using assms Inl cr None \<open>redeem_phone_pending (pe_auth e) now cookie = Some d\<close>
        by (auto simp: phone_verify_def Let_def split: if_splits create_error.splits)
    next
      case (Inr x)
      from create_account_row(4) [OF cr [unfolded Inr] assms(1) assms(3)]
      have n: "i \<noteq> ac_id x" "account_by_id p1 i = Some a" by simp_all
      let ?p2 = "attach_phone (ac_id x) (jstr d ''ph'') p1"
      let ?b = "the (account_by_id ?p2 (ac_id x))"
      have "account_by_id (send_verify_email e now ?b ?p2) i = Some a" using n by (simp add: account_writes)
      from open_session_other [OF this, of e now jti ?b] show ?thesis
        using assms cr Inr None \<open>redeem_phone_pending (pe_auth e) now cookie = Some d\<close>
        by (auto simp: phone_verify_def Let_def split: if_splits)
    qed
  qed
qed

definition demo_phone :: payload where
  "demo_phone = [(''k'', JStr ''signacctphone''), (''ph'', JStr ''+15551234567''), (''em'', JStr ''eve@x.io''),
     (''nm'', JStr ''Eve''), (''jti'', JStr ''j''), (''exp'', JFloat 900)]"

lemma phone_takeover_resisted_witness:
  "\<exists>b. account_by_id (snd (phone_verify (demo_penv demo_phone) 20 ''j''
       (Some (tok_sign (demo_env demo_phone) demo_phone)) ''1234'' [] [] demo_portal)) 3 = Some b \<and>
     same_secrets demo_account b"
  using phone_takeover_resisted [OF demo_portal_ok prod.collapse [symmetric] demo_portal_account] by blast

section \<open>What the sign-in routes do not do\<close>

text \<open>
  The Google callback takes an unverified phone off an account whose address the owner has just
  proved; the mail link proves the address as well and keeps the phone, so whoever put it there
  still signs in by phone code.
\<close>

lemma magic_keeps_unverified_phone:
  assumes "accounts_ok p" and "magic_verify e now jti token p = (SiSession i tok, p')"
    and "account_by_id p i = Some a" and "\<not> ac_verified a"
  shows "\<exists>b. account_by_id p' i = Some b \<and> ac_verified b \<and> ac_phone b = ac_phone a"
proof -
  obtain d where d: "read_magic_token (pe_auth e) now token = Some d"
    using assms(2) by (auto simp: magic_verify_def split: option.splits)
  let ?em = "norm_email (jstr d ''em'')"
  obtain p1 where c: "claim_jti (jstr d ''jti'') (jget d ''exp'') p = (True, p1)"
    using assms(2) d by (auto simp: magic_verify_def Let_def split: if_splits prod.splits bool.splits)
  then have p1: "p1 = p\<lparr>p_auth := p_auth p1\<rparr>"
    by (auto simp: claim_jti_def on_auth_def split: prod.splits)
  then have ok1: "accounts_ok p1" and row: "account_by_id p1 i = Some a"
    using assms(1,3) by (metis accounts_ok_frames account_by_id_other_state(3))+
  show ?thesis
  proof (cases "account_by_email p1 ?em")
    case (Some x)
    then have o: "open_session e now jti x (if ac_verified x then p1 else set_email_verified (ac_id x) p1) = (SiSession i tok, p')"
      using assms(2) d c by (auto simp: magic_verify_def Let_def split: if_splits)
    then have i: "i = ac_id x" by (auto simp: open_session_def Let_def split: if_splits)
    then have "x = a" using account_lookups(2) [OF ok1 Some] row by simp
    then have "account_by_id (if ac_verified x then p1 else set_email_verified (ac_id x) p1) i = Some (a\<lparr>ac_verified := True\<rparr>)"
      using assms(4) row i by (simp add: account_writes)
    from open_session_other [OF this, of e now jti x] o show ?thesis by auto
  next
    case None
    then obtain x p2 where x: "create_account (pe_auth e) now [] ?em (py_strip (jstr d ''nm'')) None [] p1 = (Inr x, p2)"
        and o: "open_session e now jti (the (account_by_id (set_email_verified (ac_id x) p2) (ac_id x)))
          (set_email_verified (ac_id x) p2) = (SiSession i tok, p')"
      using assms(2) d c by (auto simp: magic_verify_def Let_def split: if_splits sum.splits prod.splits)
    have "account_by_id (set_email_verified (ac_id x) p2) (ac_id x) = Some (x\<lparr>ac_verified := True\<rparr>)"
      using create_account_row(1) [OF x ok1] by (simp add: account_writes)
    then have "i = ac_id x" using o by (auto simp: open_session_def Let_def split: if_splits)
    then show ?thesis using create_account_row(4) [OF x ok1 row] by simp
  qed
qed

text \<open>
  A first Google sign-in creates the account with an empty subject, so its address counts as
  unverified although Google has verified it: sending stays blocked until the second sign-in.
\<close>

lemma google_signup_unverified:
  assumes "accounts_ok p" and "account_by_email p (norm_email raw) = None"
    and "google_callback e now jti c nonce st (Some raw) p = (SiSession i tok, p')"
  shows "\<exists>b. account_by_id p' i = Some b \<and> \<not> ac_verified b"
proof -
  obtain a p1 where a: "create_account (pe_auth e) now [] (norm_email raw) (hd (py_split (CHR ''@'') (norm_email raw))) None [] p = (Inr a, p1)"
      and o: "open_session e now jti a p1 = (SiSession i tok, p')"
    using assms(2,3) by (auto simp: google_callback_def Let_def split: if_splits sum.splits prod.splits)
  have "account_by_id p1 (ac_id a) = Some a" "\<not> ac_verified a"
    using create_account_row(1,3) [OF a assms(1)] by (simp_all add: py_strip_def)
  with open_session_session [OF o, of a] show ?thesis by auto
qed

text \<open>SMS as a second factor is enrolled and disabled but never asked for at sign-in.\<close>

lemma sms_2fa_not_asked: "fst (open_session e now jti (a\<lparr>ac_sms_2fa := b\<rparr>) p) = fst (open_session e now jti a p)"
  by (simp add: open_session_def Let_def)

end
