(* ===== verification/Webhooks.thy ===== *)
theory Webhooks
  imports Tokens
begin

text \<open>
  Outbound webhooks (\<open>sign/webhooks.py\<close>): subscriptions, the event selector, the guard
  against internal addresses, the signature of a body, the delivery loop with its retries and
  log, and the health counters that disable a dead endpoint. The HTTP client, the resolver, URL
  splitting and the address classes of \<open>ipaddress\<close> are parameters.
\<close>

section \<open>Rows\<close>

record webhook =
  wh_id :: int
  wh_owner :: int
  wh_url :: string
  wh_secret :: string
  wh_events :: string
  wh_active :: bool
  wh_created :: time
  wh_last_status :: "int option"
  wh_last_at :: "time option"
  wh_failures :: int

record delivery =
  dl_webhook :: int
  dl_event :: string
  dl_status :: "int option"
  dl_ok :: bool
  dl_attempt :: nat
  dl_at :: time
  dl_ms :: int
  dl_error :: string

record hooks =
  hk_rows :: "webhook list"
  hk_next :: int
  hk_log :: "delivery list"

section \<open>Event selectors\<close>

definition EVENTS :: "string list" where
  "EVENTS = [''envelope.sent'', ''envelope.viewed'', ''signer.signed'', ''envelope.completed'',
     ''envelope.declined'', ''envelope.voided'', ''envelope.expired'']"

definition ALL_EVENTS :: string where "ALL_EVENTS = ''all''"

text \<open>The checked names in order, each once; \<open>None\<close> is the \<open>ValueError\<close> of an unknown one.\<close>

fun pick_events :: "string list \<Rightarrow> string list \<Rightarrow> string list option" where
  "pick_events picked [] = Some picked"
| "pick_events picked (e # es) =
     (if e \<notin> set EVENTS then None else pick_events (if e \<in> set picked then picked else picked @ [e]) es)"

definition select_events :: "string list \<Rightarrow> string option" where
  "select_events raw =
     (let items = filter (\<lambda>e. e \<noteq> []) (map py_strip raw) in
      if items = [] \<or> (\<exists>e \<in> set items. e = ''*'' \<or> e = ALL_EVENTS) then Some ALL_EVENTS
      else map_option (py_join '','') (pick_events [] items))"

text \<open>The parameter gives \<open>str(e)\<close> of a list element that is no string.\<close>

definition normalize_events :: "(json \<Rightarrow> string) \<Rightarrow> json \<Rightarrow> string option" where
  "normalize_events str ev =
     (case ev of
        JNull \<Rightarrow> Some ALL_EVENTS
      | JStr s \<Rightarrow> select_events (py_split (CHR '','') s)
      | JList es \<Rightarrow> select_events (map (\<lambda>e. case e of JStr s \<Rightarrow> s | _ \<Rightarrow> str e) es)
      | _ \<Rightarrow> None)"

definition stored_names :: "string \<Rightarrow> string list" where
  "stored_names s = filter (\<lambda>e. e \<noteq> []) (py_split (CHR '','') s)"

definition events_out :: "string \<Rightarrow> string list" where
  "events_out s = (if s = [] \<or> s = ALL_EVENTS then [''*''] else stored_names s)"

definition wh_matches :: "string \<Rightarrow> string \<Rightarrow> bool" where
  "wh_matches s event = (s = [] \<or> s = ALL_EVENTS \<or> event \<in> set (stored_names s))"

section \<open>Which hosts may be reached\<close>

text \<open>An address with the classes \<open>ipaddress\<close> puts it in.\<close>

record ip_addr =
  ip_loopback :: bool
  ip_private :: bool
  ip_link_local :: bool
  ip_unspecified :: bool
  ip_reserved :: bool
  ip_multicast :: bool
  ip_global :: bool

definition blocked_ip :: "ip_addr \<Rightarrow> bool" where
  "blocked_ip ip = (ip_loopback ip \<or> ip_private ip \<or> ip_link_local ip \<or> ip_unspecified ip \<or>
     ip_reserved ip \<or> ip_multicast ip \<or> \<not> ip_global ip)"

record split_url =
  su_scheme :: string
  su_netloc :: string
  su_hostname :: "string option"

record net_env =
  ne_allow_internal :: bool
  ne_literal :: "string \<Rightarrow> ip_addr option"
  ne_resolve :: "string \<Rightarrow> ip_addr list option"
  ne_urlsplit :: "string \<Rightarrow> split_url option"

text \<open>\<open>False\<close> is the \<open>ValueError\<close>.\<close>

definition public_host :: "net_env \<Rightarrow> string \<Rightarrow> bool" where
  "public_host n host =
     (ne_allow_internal n \<or>
      (case ne_literal n host of
         Some ip \<Rightarrow> \<not> blocked_ip ip
       | None \<Rightarrow> (case ne_resolve n host of None \<Rightarrow> False | Some ips \<Rightarrow> \<not> list_ex blocked_ip ips)))"

definition validate_url :: "net_env \<Rightarrow> string \<Rightarrow> string option" where
  "validate_url n url =
     (let u = py_strip url in
      case ne_urlsplit n u of
        None \<Rightarrow> None
      | Some s \<Rightarrow>
          if su_scheme s \<notin> {''http'', ''https''} \<or> su_netloc s = [] then None
          else (case su_hostname s of
              None \<Rightarrow> Some u
            | Some h \<Rightarrow> if h = [] \<or> public_host n h then Some u else None))"

section \<open>Subscriptions, scoped to their owner\<close>

text \<open>\<open>Inl\<close> is the \<open>ValueError\<close>. The secret is fresh random text.\<close>

definition create_webhook ::
  "net_env \<Rightarrow> (json \<Rightarrow> string) \<Rightarrow> time \<Rightarrow> string \<Rightarrow> int \<Rightarrow> string \<Rightarrow> json \<Rightarrow> hooks \<Rightarrow> (unit + webhook) \<times> hooks" where
  "create_webhook n str now rnd owner url events h =
     (case validate_url n url of
        None \<Rightarrow> (Inl (), h)
      | Some u \<Rightarrow>
          (case normalize_events str events of
             None \<Rightarrow> (Inl (), h)
           | Some ev \<Rightarrow>
               (let w = \<lparr>wh_id = hk_next h, wh_owner = owner, wh_url = u, wh_secret = ''whsec_'' @ rnd,
                         wh_events = ev, wh_active = True, wh_created = now, wh_last_status = None,
                         wh_last_at = None, wh_failures = 0\<rparr>
                in (Inr w, h\<lparr>hk_rows := hk_rows h @ [w], hk_next := hk_next h + 1\<rparr>))))"

definition list_webhooks :: "hooks \<Rightarrow> int \<Rightarrow> webhook list" where
  "list_webhooks h owner = rev (sort_key wh_created (filter (\<lambda>w. wh_owner w = owner) (hk_rows h)))"

definition get_webhook_owned :: "hooks \<Rightarrow> int \<Rightarrow> int \<Rightarrow> webhook option" where
  "get_webhook_owned h owner i = find (\<lambda>w. wh_id w = i \<and> wh_owner w = owner) (hk_rows h)"

definition delete_webhook :: "int \<Rightarrow> int \<Rightarrow> hooks \<Rightarrow> bool \<times> hooks" where
  "delete_webhook owner i h =
     (let m = (\<lambda>w. wh_id w = i \<and> wh_owner w = owner)
      in (0 < rowcount m (hk_rows h), h\<lparr>hk_rows := del_where m (hk_rows h)\<rparr>))"

definition rotate_secret :: "string \<Rightarrow> int \<Rightarrow> int \<Rightarrow> hooks \<Rightarrow> webhook option \<times> hooks" where
  "rotate_secret rnd owner i h =
     (let m = (\<lambda>w. wh_id w = i \<and> wh_owner w = owner);
          h1 = h\<lparr>hk_rows := upd_where m (\<lambda>w. w\<lparr>wh_secret := ''whsec_'' @ rnd\<rparr>) (hk_rows h)\<rparr>
      in if rowcount m (hk_rows h) = 0 then (None, h1) else (get_webhook_owned h1 owner i, h1))"

definition recent_deliveries :: "hooks \<Rightarrow> int \<Rightarrow> int \<Rightarrow> int \<Rightarrow> delivery list option" where
  "recent_deliveries h owner i limit =
     (if get_webhook_owned h owner i = None then None
      else Some (take (nat (max 1 (min limit 200))) (rev (filter (\<lambda>d. dl_webhook d = i) (hk_log h)))))"

section \<open>Signatures\<close>

definition sign_body :: "auth_env \<Rightarrow> bytes \<Rightarrow> bytes \<Rightarrow> string" where
  "sign_body env secret raw = ''sha256='' @ ae_mac env secret raw"

definition verify_signature :: "auth_env \<Rightarrow> bytes \<Rightarrow> bytes \<Rightarrow> string option \<Rightarrow> py_exc + bool" where
  "verify_signature env secret raw header =
     (case header of
        None \<Rightarrow> Inr False
      | Some hdr \<Rightarrow>
          if hdr = [] \<or> secret = [] then Inr False
          else compare_digest (sign_body env secret raw) (py_strip hdr))"

section \<open>Delivery\<close>

text \<open>What one POST comes to: a response, a transport error of the client, or any other exception.\<close>

datatype response = Responded int int | TransportError string int | OtherRaise string

record request_sent =
  rq_url :: string
  rq_body :: bytes
  rq_event :: string
  rq_delivery :: string
  rq_signature :: string

definition is_2xx :: "int \<Rightarrow> bool" where
  "is_2xx s = (200 \<le> s \<and> s < 300)"

definition http_error :: "int \<Rightarrow> string" where
  "http_error s = ''HTTP '' @ py_str s"

definition attempt_row :: "webhook \<Rightarrow> string \<Rightarrow> nat \<Rightarrow> time \<Rightarrow> response \<Rightarrow> delivery list" where
  "attempt_row w event k now r =
     (case r of
        Responded s ms \<Rightarrow> [\<lparr>dl_webhook = wh_id w, dl_event = event, dl_status = Some s, dl_ok = is_2xx s, dl_attempt = k,
          dl_at = now, dl_ms = ms, dl_error = take 500 (if is_2xx s then [] else http_error s)\<rparr>]
      | TransportError err ms \<Rightarrow> [\<lparr>dl_webhook = wh_id w, dl_event = event, dl_status = None, dl_ok = False, dl_attempt = k,
          dl_at = now, dl_ms = ms, dl_error = take 500 (take 300 err)\<rparr>]
      | OtherRaise err \<Rightarrow> [])"

text \<open>The wait after attempt \<open>k\<close>: \<open>min(0.5 * 2 ** (k - 1), 8)\<close> seconds.\<close>

definition backoff :: "nat \<Rightarrow> time" where
  "backoff k = min (1 / 2 * 2 ^ (k - 1)) 8"

text \<open>How the loop ended: the attempts made, the outcome, the last status and error, what was logged and slept.\<close>

record outcome =
  oc_ok :: bool
  oc_attempts :: nat
  oc_status :: "int option"
  oc_error :: string
  oc_raised :: bool
  oc_log :: "delivery list"
  oc_slept :: time

text \<open>
  Attempts \<open>k, k + 1, \<dots>\<close>, \<open>left\<close> of them still allowed; \<open>st\<close> and \<open>err\<close> are what the
  result holds so far, \<open>seen\<close> the status of the last response.
\<close>

fun attempt_loop ::
  "webhook \<Rightarrow> string \<Rightarrow> (nat \<Rightarrow> time) \<Rightarrow> (nat \<Rightarrow> response) \<Rightarrow> nat \<Rightarrow> nat \<Rightarrow> int option \<Rightarrow> string \<Rightarrow> outcome" where
  "attempt_loop w ev clock post k 0 seen err =
     \<lparr>oc_ok = False, oc_attempts = k - 1, oc_status = seen, oc_error = err, oc_raised = False, oc_log = [], oc_slept = 0\<rparr>"
| "attempt_loop w ev clock post k (Suc left) seen err =
     (let row = attempt_row w ev k (clock k) (post k);
          go = (\<lambda>st er. let o1 = attempt_loop w ev clock post (Suc k) left st er
                in o1\<lparr>oc_log := row @ oc_log o1,
                     oc_slept := (if left = 0 then 0 else backoff k) + oc_slept o1\<rparr>)
      in (case post k of
            Responded s ms \<Rightarrow>
              if is_2xx s
              then \<lparr>oc_ok = True, oc_attempts = k, oc_status = Some s, oc_error = [], oc_raised = False, oc_log = row, oc_slept = 0\<rparr>
              else go (Some s) (http_error s)
          | TransportError er ms \<Rightarrow> go seen (take 300 er)
          | OtherRaise er \<Rightarrow>
              \<lparr>oc_ok = False, oc_attempts = k, oc_status = seen, oc_error = take 300 er, oc_raised = True, oc_log = row, oc_slept = 0\<rparr>))"

definition MAX_ATTEMPTS :: nat where "MAX_ATTEMPTS = 3"
definition DISABLE_AFTER :: int where "DISABLE_AFTER = 15"

text \<open>\<open>_mark_result\<close>: the health counters of the subscription.\<close>

definition mark_row :: "time \<Rightarrow> bool \<Rightarrow> int option \<Rightarrow> webhook \<Rightarrow> webhook" where
  "mark_row now ok st w =
     (if ok then w\<lparr>wh_last_status := st, wh_last_at := Some now, wh_failures := 0\<rparr>
      else w\<lparr>wh_last_status := st, wh_last_at := Some now, wh_failures := wh_failures w + 1,
             wh_active := (if DISABLE_AFTER \<le> wh_failures w + 1 then False else wh_active w)\<rparr>)"

definition mark_result :: "int \<Rightarrow> time \<Rightarrow> bool \<Rightarrow> int option \<Rightarrow> hooks \<Rightarrow> hooks" where
  "mark_result i now ok st h = h\<lparr>hk_rows := upd_where (\<lambda>w. wh_id w = i) (mark_row now ok st) (hk_rows h)\<rparr>"

text \<open>The world one delivery meets: its random id, the clock at each attempt and at the end, the responses.\<close>

record delivery_env =
  de_id :: string
  de_clock :: "nat \<Rightarrow> time"
  de_end :: time
  de_post :: "nat \<Rightarrow> response"

text \<open>\<open>_deliver_sync\<close>. Of the text of a refused host's error only the exception's name is kept.\<close>

definition deliver_sync ::
  "auth_env \<Rightarrow> net_env \<Rightarrow> delivery_env \<Rightarrow> nat \<Rightarrow> webhook \<Rightarrow> string \<Rightarrow> bytes \<Rightarrow> hooks \<Rightarrow>
   (outcome \<times> request_sent list) \<times> hooks" where
  "deliver_sync env n de attempts w event raw h =
     (let host = (case ne_urlsplit n (wh_url w) of None \<Rightarrow> None | Some s \<Rightarrow> Some (case su_hostname s of None \<Rightarrow> [] | Some x \<Rightarrow> x));
          blocked = (case host of None \<Rightarrow> True | Some x \<Rightarrow> \<not> public_host n x)
      in if blocked then
           (let oc = \<lparr>oc_ok = False, oc_attempts = 0, oc_status = None, oc_error = ''ValueError'', oc_raised = True,
                      oc_log = [], oc_slept = 0\<rparr>
            in ((oc, []), mark_result (wh_id w) (de_end de) False None h))
         else
           (let oc = attempt_loop w event (de_clock de) (de_post de) 1 (max 1 attempts) None [];
                rq = \<lparr>rq_url = wh_url w, rq_body = raw, rq_event = event, rq_delivery = de_id de,
                      rq_signature = sign_body env (utf8 (wh_secret w)) raw\<rparr>
            in ((oc, replicate (oc_attempts oc) rq),
                mark_result (wh_id w) (de_end de) (oc_ok oc) (oc_status oc)
                  (h\<lparr>hk_log := hk_log h @ oc_log oc\<rparr>))))"

section \<open>Fan-out\<close>

definition matching_subscriptions :: "hooks \<Rightarrow> int \<Rightarrow> string \<Rightarrow> webhook list" where
  "matching_subscriptions h owner event =
     filter (\<lambda>w. wh_matches (wh_events w) event) (filter (\<lambda>w. wh_owner w = owner \<and> wh_active w) (hk_rows h))"

text \<open>\<open>emit\<close> schedules one background delivery per subscription and returns how many.\<close>

definition wh_emit :: "hooks \<Rightarrow> string \<Rightarrow> int option \<Rightarrow> webhook list" where
  "wh_emit h event owner =
     (case owner of
        None \<Rightarrow> []
      | Some o1 \<Rightarrow> if o1 = 0 \<or> event \<notin> set EVENTS then [] else matching_subscriptions h o1 event)"

fun deliver_all ::
  "auth_env \<Rightarrow> net_env \<Rightarrow> (int \<Rightarrow> delivery_env) \<Rightarrow> nat \<Rightarrow> string \<Rightarrow> bytes \<Rightarrow> webhook list \<Rightarrow> hooks \<Rightarrow>
   (outcome \<times> request_sent list) list \<times> hooks" where
  "deliver_all env n de attempts event raw [] h = ([], h)"
| "deliver_all env n de attempts event raw (w # ws) h =
     (let (r, h1) = deliver_sync env n (de (wh_id w)) attempts w event raw h;
          (rs, h2) = deliver_all env n de attempts event raw ws h1
      in (r # rs, h2))"

definition deliver_now ::
  "auth_env \<Rightarrow> net_env \<Rightarrow> (int \<Rightarrow> delivery_env) \<Rightarrow> nat \<Rightarrow> string \<Rightarrow> bytes \<Rightarrow> int \<Rightarrow> hooks \<Rightarrow>
   (outcome \<times> request_sent list) list \<times> hooks" where
  "deliver_now env n de attempts event raw owner h =
     deliver_all env n de attempts event raw (wh_emit h event (Some owner)) h"

section \<open>Selectors mean what was asked for\<close>

lemma events_plain:
  "e \<in> set EVENTS \<Longrightarrow> e \<noteq> [] \<and> e \<noteq> ALL_EVENTS \<and> e \<noteq> ''*'' \<and> py_strip e = e \<and> CHR '','' \<notin> set e"
proof -
  have "list_all (\<lambda>e. e \<noteq> [] \<and> e \<noteq> ALL_EVENTS \<and> e \<noteq> ''*'' \<and> py_strip e = e \<and> CHR '','' \<notin> set e) EVENTS"
    by code_simp
  then show "e \<in> set EVENTS \<Longrightarrow> ?thesis" by (simp add: list_all_iff)
qed

lemma pick_events_Some:
  "pick_events p es = Some r \<Longrightarrow> distinct p \<Longrightarrow> distinct r \<and> set r = set p \<union> set es \<and> set es \<subseteq> set EVENTS"
proof (induction p es rule: pick_events.induct)
  case (2 p e es)
  then show ?case by (cases "e \<in> set p") (auto split: if_splits)
qed simp

lemma pick_events_id: "distinct (p @ r) \<Longrightarrow> set r \<subseteq> set EVENTS \<Longrightarrow> pick_events p r = Some (p @ r)"
  by (induction r arbitrary: p) simp_all

lemma stored_names_join:
  assumes "r \<noteq> []" and "set r \<subseteq> set EVENTS"
  shows "stored_names (py_join '','' r) = r" "py_join '','' r \<noteq> []" "py_join '','' r \<noteq> ALL_EVENTS"
proof -
  have s: "py_split (CHR '','') (py_join '','' r) = r"
    by (rule py_split_join) (use assms events_plain in auto)
  have f: "filter (\<lambda>e. e \<noteq> []) r = r" using assms(2) events_plain by (auto simp: filter_id_conv)
  show "stored_names (py_join '','' r) = r" by (simp add: stored_names_def s f)
  show "py_join '','' r \<noteq> []"
  proof
    assume "py_join '','' r = []"
    then have "r = [[]]" using s by simp
    then show False using assms(2) events_plain [of "[]"] by simp
  qed
  show "py_join '','' r \<noteq> ALL_EVENTS"
  proof
    assume a: "py_join '','' r = ALL_EVENTS"
    have "py_split (CHR '','') ALL_EVENTS = [ALL_EVENTS]" by code_simp
    then have "r = [ALL_EVENTS]" using s a by simp
    then show False using assms(2) events_plain [of ALL_EVENTS] by simp
  qed
qed

lemma select_events_cases:
  assumes "select_events raw = Some s"
  obtains (wild) "s = ALL_EVENTS"
      "filter (\<lambda>e. e \<noteq> []) (map py_strip raw) = [] \<or> ''*'' \<in> py_strip ` set raw \<or> ALL_EVENTS \<in> py_strip ` set raw"
  | (names) r where "s = py_join '','' r" "r \<noteq> []" "distinct r" "set r = {e \<in> py_strip ` set raw. e \<noteq> []}"
      "set r \<subseteq> set EVENTS" "''*'' \<notin> py_strip ` set raw" "ALL_EVENTS \<notin> py_strip ` set raw"
proof (cases "filter (\<lambda>e. e \<noteq> []) (map py_strip raw) = [] \<or> (\<exists>e \<in> set (filter (\<lambda>e. e \<noteq> []) (map py_strip raw)). e = ''*'' \<or> e = ALL_EVENTS)")
  case True
  then have "s = ALL_EVENTS" using assms unfolding select_events_def Let_def by simp
  with True show thesis by (intro wild) (force simp: ALL_EVENTS_def image_iff)+
next
  case False
  let ?i = "filter (\<lambda>e. e \<noteq> []) (map py_strip raw)"
  obtain r where r: "pick_events [] ?i = Some r" "s = py_join '','' r"
    using assms unfolding select_events_def Let_def if_not_P [OF False] by auto
  from pick_events_Some [OF r(1)] have p: "distinct r" "set r = set ?i" "set ?i \<subseteq> set EVENTS" by auto
  show thesis
  proof (rule names [OF r(2)])
    show "r \<noteq> []" using False p(2) by auto
    show "set r = {e \<in> py_strip ` set raw. e \<noteq> []}" using p(2) by auto
    show "''*'' \<notin> py_strip ` set raw" "ALL_EVENTS \<notin> py_strip ` set raw"
      using False by (auto simp: ALL_EVENTS_def)
  qed (use p in auto)
qed

text \<open>An event selector means what was asked for and survives the API: the stored form of a list of names wakes
  exactly the events named (all of them for a wildcard or an empty list), and storing what the API reads back
  gives the same stored form.\<close>

theorem selector_roundtrip:
  assumes "normalize_events str (JList (map JStr names)) = Some s"
  shows "(event \<in> set EVENTS \<longrightarrow>
      wh_matches s event = (event \<in> py_strip ` set names \<or> (\<forall>e \<in> set names. py_strip e = []) \<or>
        ''*'' \<in> py_strip ` set names \<or> ''all'' \<in> py_strip ` set names)) \<and>
    normalize_events str (JList (map JStr (events_out s))) = Some s"
proof -
  have "select_events names = Some s" using assms by (simp add: normalize_events_def comp_def)
  then show ?thesis
  proof (cases rule: select_events_cases)
    case wild
    moreover have "select_events [''*''] = Some ALL_EVENTS" by code_simp
    ultimately show ?thesis
      by (auto simp: wh_matches_def events_out_def normalize_events_def comp_def filter_empty_conv ALL_EVENTS_def)
  next
    case (names r)
    note j = stored_names_join [OF names(2,5)]
    have strip: "map py_strip r = r" using names(5) events_plain by (auto intro: map_idI)
    have f: "filter (\<lambda>e. e \<noteq> []) r = r" using names(5) events_plain by (auto simp: filter_id_conv)
    have "\<not> (\<exists>e \<in> set r. e = ''*'' \<or> e = ALL_EVENTS)" using names(5) events_plain by blast
    then have "select_events r = Some s"
      unfolding select_events_def strip f Let_def using names(1,2) pick_events_id [of "[]" r] names(3,5) by simp
    moreover have "events_out s = r" using j by (simp add: events_out_def names(1))
    moreover have "wh_matches s event = (event \<in> set r)" using j by (simp add: wh_matches_def names(1))
    moreover have "\<not> (\<forall>e \<in> set names. py_strip e = [])"
    proof -
      obtain e where "e \<in> set r" using names(2) by (cases r) auto
      then have "e \<in> py_strip ` set names \<and> e \<noteq> []" unfolding names(4) by blast
      then show ?thesis by auto
    qed
    ultimately show ?thesis
      using names(4,6,7) events_plain by (auto simp: normalize_events_def comp_def ALL_EVENTS_def)
  qed
qed

lemma selector_roundtrip_witness:
  "\<not> wh_matches ''envelope.sent,envelope.voided'' ''envelope.viewed'' \<and>
   normalize_events (\<lambda>j. []) (JList (map JStr (events_out ''envelope.sent,envelope.voided''))) = Some ''envelope.sent,envelope.voided''"
proof -
  have n: "normalize_events (\<lambda>j. []) (JList (map JStr ['' envelope.sent'', ''envelope.voided'', ''envelope.sent''])) =
      Some ''envelope.sent,envelope.voided''" by code_simp
  have "\<not> wh_matches ''envelope.sent,envelope.voided'' ''envelope.viewed''" by code_simp
  with selector_roundtrip [OF n, of "''envelope.viewed''"] show ?thesis by blast
qed

section \<open>Deliveries are bounded and signed\<close>

lemma backoff_le: "backoff k \<le> 8" "0 \<le> backoff k"
  by (simp_all add: backoff_def)

lemma attempt_row_simps:
  "map dl_attempt (attempt_row w ev k now r) = (case r of OtherRaise e \<Rightarrow> [] | _ \<Rightarrow> [k])"
  "length (attempt_row w ev k now r) = (case r of OtherRaise e \<Rightarrow> 0 | _ \<Rightarrow> 1)"
  by (simp_all add: attempt_row_def split: response.splits)

definition loop_shape :: "nat \<Rightarrow> nat \<Rightarrow> outcome \<Rightarrow> bool" where
  "loop_shape k left oc =
     (oc_attempts oc \<le> k - 1 + left \<and> map dl_attempt (oc_log oc) = [k..<k + length (oc_log oc)] \<and>
      k + length (oc_log oc) + (if oc_raised oc then 1 else 0) = Suc (oc_attempts oc) \<and>
      0 \<le> oc_slept oc \<and> oc_slept oc \<le> 8 * real (left - 1) \<and>
      (oc_ok oc = (oc_log oc \<noteq> [] \<and> dl_ok (last (oc_log oc)) \<and> \<not> oc_raised oc)) \<and>
      (\<forall>d \<in> set (butlast (oc_log oc)). \<not> dl_ok d))"

lemma loop_shape_go:
  assumes "loop_shape (Suc k) left o1" and "1 \<le> k" and "dl_attempt d = k" and "\<not> dl_ok d"
  shows "loop_shape k (Suc left)
    (o1\<lparr>oc_log := [d] @ oc_log o1, oc_slept := (if left = 0 then 0 else backoff k) + oc_slept o1\<rparr>)"
proof -
  have "map dl_attempt ([d] @ oc_log o1) = [k..<k + length ([d] @ oc_log o1)]"
  proof -
    have "map dl_attempt (oc_log o1) = [Suc k..<Suc k + length (oc_log o1)]"
      using assms(1) unfolding loop_shape_def by blast
    moreover have "[k..<k + length ([d] @ oc_log o1)] = k # [Suc k..<Suc k + length (oc_log o1)]"
      using upt_conv_Cons [of k "k + length ([d] @ oc_log o1)"] by simp
    ultimately show ?thesis using assms(3) by simp
  qed
  moreover have "(if left = 0 then 0 else backoff k) + oc_slept o1 \<le> 8 * real left"
    using assms(1) backoff_le(1) [of k] by (cases left) (auto simp: loop_shape_def)
  ultimately show ?thesis
    using assms backoff_le(2) [of k] by (auto simp: loop_shape_def)
qed

lemma attempt_loop_shape: "1 \<le> k \<Longrightarrow> loop_shape k left (attempt_loop w ev clock post k left seen err)"
proof (induction left arbitrary: k seen err)
  case 0
  then show ?case by (simp add: loop_shape_def)
next
  case (Suc left)
  have IH: "loop_shape (Suc k) left (attempt_loop w ev clock post (Suc k) left st er)" for st er
    using Suc.IH [of "Suc k"] by simp
  show ?case
  proof (cases "post k")
    case (Responded s ms)
    show ?thesis
    proof (cases "is_2xx s")
      case True
      with Responded Suc.prems show ?thesis by (simp add: loop_shape_def attempt_row_def)
    next
      case False
      let ?d = "\<lparr>dl_webhook = wh_id w, dl_event = ev, dl_status = Some s, dl_ok = is_2xx s, dl_attempt = k,
          dl_at = clock k, dl_ms = ms, dl_error = take 500 (http_error s)\<rparr>"
      have "attempt_row w ev k (clock k) (post k) = [?d]" using Responded False by (simp add: attempt_row_def)
      with loop_shape_go [OF IH Suc.prems, of ?d] Responded False show ?thesis by (simp add: Let_def)
    qed
  next
    case (TransportError er ms)
    let ?d = "\<lparr>dl_webhook = wh_id w, dl_event = ev, dl_status = None, dl_ok = False, dl_attempt = k,
          dl_at = clock k, dl_ms = ms, dl_error = take 500 (take 300 er)\<rparr>"
    have "attempt_row w ev k (clock k) (post k) = [?d]" using TransportError by (simp add: attempt_row_def)
    with loop_shape_go [OF IH Suc.prems, of ?d] TransportError show ?thesis by (simp add: Let_def)
  next
    case (OtherRaise er)
    with Suc.prems show ?thesis by (simp add: loop_shape_def attempt_row_def)
  qed
qed

lemma verify_sign_body:
  assumes "secret \<noteq> []" and "\<forall>c \<in> set (ae_mac env secret raw). is_digit c \<or> is_ascii_alpha c"
  shows "verify_signature env secret raw (Some (sign_body env secret raw)) = Inr True"
proof -
  have "\<forall>c \<in> set ''sha256=''. \<not> is_space c \<and> char_code c < 128" by code_simp
  moreover have "\<not> is_space c \<and> char_code c < 128" if "is_digit c \<or> is_ascii_alpha c" for c
    using that by (auto simp: is_digit_def is_ascii_alpha_def is_space_def Let_def)
  ultimately have c: "\<forall>c \<in> set (sign_body env secret raw). \<not> is_space c \<and> char_code c < 128"
    using assms(2) unfolding sign_body_def set_append by blast
  then have "py_strip (sign_body env secret raw) = sign_body env secret raw"
    by (intro py_strip_no_space) blast
  moreover have "sign_body env secret raw \<noteq> []" by (simp add: sign_body_def)
  ultimately show ?thesis using c assms(1) by (force simp: verify_signature_def compare_digest_def)
qed


definition demo_net :: net_env where
  "demo_net = \<lparr>ne_allow_internal = False,
     ne_literal = (\<lambda>s. None),
     ne_resolve = (\<lambda>s. Some [\<lparr>ip_loopback = False, ip_private = (s = ''intra''), ip_link_local = False, ip_unspecified = False,
        ip_reserved = False, ip_multicast = False, ip_global = (s \<noteq> ''intra'')\<rparr>]),
     ne_urlsplit = (\<lambda>u. Some \<lparr>su_scheme = ''https'', su_netloc = u, su_hostname = Some u\<rparr>)\<rparr>"

definition demo_hook :: webhook where
  "demo_hook = \<lparr>wh_id = 1, wh_owner = 7, wh_url = ''pub'', wh_secret = ''whsec_x'', wh_events = ''all'', wh_active = True,
     wh_created = 0, wh_last_status = None, wh_last_at = None, wh_failures = 0\<rparr>"

definition demo_hooks :: hooks where
  "demo_hooks = \<lparr>hk_rows = [demo_hook], hk_next = 2, hk_log = []\<rparr>"

definition demo_delivery :: delivery_env where
  "demo_delivery = \<lparr>de_id = ''d1'', de_clock = real, de_end = 9,
     de_post = (\<lambda>k. if k = 1 then Responded 500 12 else if k = 2 then TransportError ''timeout'' 5000 else Responded 204 8)\<rparr>"


section \<open>A dead endpoint is disabled\<close>

text \<open>The abstract view of a subscription: the outcomes of its deliveries so far, oldest first.\<close>

definition streak :: "bool list \<Rightarrow> nat" where
  "streak oks = length (takeWhile Not (rev oks))"

definition still_active :: "bool list \<Rightarrow> bool" where
  "still_active oks = (\<forall>n \<le> length oks. streak (take n oks) < 15)"

definition marks :: "(time \<times> bool \<times> int option) list \<Rightarrow> webhook \<Rightarrow> webhook" where
  "marks rs w = fold (\<lambda>(now, ok, st). mark_row now ok st) rs w"

lemma streak_snoc: "streak (oks @ [ok]) = (if ok then 0 else Suc (streak oks))"
  by (simp add: streak_def)

lemma still_active_snoc: "still_active (oks @ [ok]) = (still_active oks \<and> streak (oks @ [ok]) < 15)"
proof
  assume a: "still_active (oks @ [ok])"
  have "streak (take n oks) < 15" if "n \<le> length oks" for n
    using a that by (auto simp: still_active_def dest!: spec [of _ n])
  moreover have "streak (oks @ [ok]) < 15"
    using a by (auto simp: still_active_def dest!: spec [of _ "Suc (length oks)"])
  ultimately show "still_active oks \<and> streak (oks @ [ok]) < 15" by (simp add: still_active_def)
next
  assume a: "still_active oks \<and> streak (oks @ [ok]) < 15"
  show "still_active (oks @ [ok])"
    unfolding still_active_def
  proof (intro allI impI)
    fix n assume "n \<le> length (oks @ [ok])"
    then show "streak (take n (oks @ [ok])) < 15"
      using a by (cases "n = Suc (length oks)") (auto simp: still_active_def)
  qed
qed

text \<open>Property C20. The health counters implement the history of deliveries: however a new subscription's deliveries go, its
  failure count is the length of the current run of failures, its last status is that of the last delivery, and it
  is still active exactly if no fifteen deliveries in a row ever failed.\<close>

theorem health_refines_history:
  assumes "wh_failures w = 0" and "wh_active w"
  shows "wh_failures (marks rs w) = int (streak (map (\<lambda>(_, ok, _). ok) rs)) \<and>
    wh_active (marks rs w) = still_active (map (\<lambda>(_, ok, _). ok) rs) \<and>
    (rs \<noteq> [] \<longrightarrow> wh_last_status (marks rs w) = snd (snd (last rs))) \<and>
    wh_url (marks rs w) = wh_url w \<and> wh_owner (marks rs w) = wh_owner w"
proof (induction rs rule: rev_induct)
  case Nil
  then show ?case using assms by (simp add: marks_def streak_def still_active_def)
next
  case (snoc r rs)
  obtain now ok st where r: "r = (now, ok, st)" by (cases r)
  have m: "marks (rs @ [r]) w = mark_row now ok st (marks rs w)" by (simp add: marks_def r)
  let ?oks = "map (\<lambda>(_, ok, _). ok) rs"
  have s: "map (\<lambda>(_, ok, _). ok) (rs @ [r]) = ?oks @ [ok]" by (simp add: r)
  have "still_active ?oks \<Longrightarrow> streak ?oks < 15"
    by (auto simp: still_active_def dest!: spec [of _ "length ?oks"])
  then show ?case
    using snoc unfolding m s
    by (auto simp: mark_row_def streak_snoc still_active_snoc DISABLE_AFTER_def r)
qed

lemma health_refines_history_witness:
  "\<not> wh_active (marks (replicate 15 (1, False, None)) demo_hook) \<and> wh_active (marks (replicate 14 (1, False, None)) demo_hook)"
proof -
  have d: "wh_failures demo_hook = 0" "wh_active demo_hook" by (simp_all add: demo_hook_def)
  have s: "streak (replicate k False) = k" for k
    by (simp add: streak_def takeWhile_eq_all_conv [THEN iffD2])
  have "\<not> still_active (replicate 15 False)"
    unfolding still_active_def using s [of 15] by (auto intro!: exI [of _ 15])
  moreover have "still_active (replicate 14 False)"
    by (simp add: still_active_def s min_def)
  ultimately have "\<not> still_active (replicate 15 False)" "still_active (replicate 14 False)" by simp_all
  with health_refines_history [OF d, of "replicate 15 (1, False, None)"]
    health_refines_history [OF d, of "replicate 14 (1, False, None)"]
  show ?thesis by simp
qed

section \<open>Who is told what\<close>

lemma wh_emit_iff:
  "(w \<in> set (wh_emit h event owner)) =
     (w \<in> set (hk_rows h) \<and> owner = Some (wh_owner w) \<and> wh_owner w \<noteq> 0 \<and> wh_active w \<and> event \<in> set EVENTS \<and>
      wh_matches (wh_events w) event)"
  apply (cases owner)
   apply (simp add: wh_emit_def)
  apply (simp add: wh_emit_def matching_subscriptions_def)
  apply blast
  done

text \<open>An event reaches only its owner's subscriptions: a delivery is scheduled exactly for the active
  subscriptions of the account that owns the envelope whose selector takes the event, and none for an unknown event
  or no owner; and a delivery whose URL leads to a blocked address sends nothing at all.\<close>

theorem emit_scoped:
  "(w \<in> set (wh_emit h event owner)) =
     (w \<in> set (hk_rows h) \<and> owner = Some (wh_owner w) \<and> wh_owner w \<noteq> 0 \<and> wh_active w \<and> event \<in> set EVENTS \<and>
      wh_matches (wh_events w) event) \<and>
   (ne_urlsplit n (wh_url w) = Some su \<and> su_hostname su = Some host \<and> \<not> ne_allow_internal n \<and>
      ne_literal n host = None \<and> ne_resolve n host = Some ips \<and> list_ex blocked_ip ips \<longrightarrow>
      snd (fst (deliver_sync env n de attempts w event raw h)) = [] \<and>
      hk_log (snd (deliver_sync env n de attempts w event raw h)) = hk_log h)"
proof -
  have m: "(w \<in> set (wh_emit h event owner)) =
     (w \<in> set (hk_rows h) \<and> owner = Some (wh_owner w) \<and> wh_owner w \<noteq> 0 \<and> wh_active w \<and> event \<in> set EVENTS \<and>
      wh_matches (wh_events w) event)"
    by (rule wh_emit_iff)
  have "snd (fst (deliver_sync env n de attempts w event raw h)) = [] \<and>
      hk_log (snd (deliver_sync env n de attempts w event raw h)) = hk_log h"
    if "ne_urlsplit n (wh_url w) = Some su" "su_hostname su = Some host" "\<not> ne_allow_internal n"
      "ne_literal n host = None" "ne_resolve n host = Some ips" "list_ex blocked_ip ips"
  proof -
    have "\<not> public_host n host" using that by (simp add: public_host_def list_ex_iff)
    with that show ?thesis by (simp add: deliver_sync_def mark_result_def)
  qed
  with m show ?thesis by blast
qed

lemma emit_scoped_witness:
  "snd (fst (deliver_sync (demo_env []) demo_net demo_delivery 3 (demo_hook\<lparr>wh_url := ''intra''\<rparr>) ''envelope.sent'' ''{}'' demo_hooks)) = []"
  using emit_scoped [of "demo_hook\<lparr>wh_url := ''intra''\<rparr>" demo_hooks "''envelope.sent''" "Some 7" demo_net
      "\<lparr>su_scheme = ''https'', su_netloc = ''intra'', su_hostname = Some ''intra''\<rparr>" "''intra''"
      "the (ne_resolve demo_net ''intra'')" "demo_env []" demo_delivery 3 "''{}''"]
  by (simp add: demo_net_def blocked_ip_def)

end
