(* ===== verification/Placement.thy ===== *)
theory Placement
  imports Templates "HOL-Library.Product_Lexorder"
begin

text \<open>
  Programmatic field placement (\<open>sign/esign.py\<close>): the search index over a page's words, anchor
  matching, \<open>place_fields\<close>, and the detection of fill-in fields (merge tokens and common labels) behind
  \<open>autodetect_prefill_owned\<close>. What pdfplumber reads out of a PDF is the parameter \<open>extractor\<close>: the
  pages' sizes and words (\<open>None\<close> for a page whose words cannot be read), or nothing for a file that
  cannot be opened.
\<close>

record word =
  wd_text :: string
  wd_x0 :: real
  wd_x1 :: real
  wd_top :: real
  wd_bottom :: real

record page_text =
  pt_width :: real
  pt_height :: real
  pt_words :: "word list option"

type_synonym extractor = "bytes \<Rightarrow> page_text list option"

section \<open>Rounding\<close>

text \<open>\<open>round(x)\<close> and \<open>round(x, 5)\<close>: halves go to the even neighbour.\<close>

definition py_round :: "real \<Rightarrow> int" where
  "py_round x =
     (let f = \<lfloor>x\<rfloor>; d = x - of_int f in
      if d < 1 / 2 then f else if 1 / 2 < d then f + 1 else if even f then f else f + 1)"

definition round5 :: "real \<Rightarrow> real" where
  "round5 x = of_int (py_round (x * 100000)) / 100000"

section \<open>The search index\<close>

text \<open>A line: its words in lower case, its text, and for every character the word it belongs to.\<close>

record pline =
  ln_page :: int
  ln_W :: real
  ln_H :: real
  ln_text :: string
  ln_words :: "word list"
  ln_chars :: "nat option list"

fun line_text :: "nat \<Rightarrow> string \<Rightarrow> nat option list \<Rightarrow> string list \<Rightarrow> string \<times> nat option list" where
  "line_text i txt cw [] = (txt, cw)"
| "line_text i txt cw (t # ts) =
     (case (if txt \<noteq> [] then (txt @ '' '', cw @ [None]) else (txt, cw)) of
        (txt1, cw1) \<Rightarrow> line_text (i + 1) (txt1 @ t) (cw1 @ replicate (length t) (Some i)) ts)"

definition mk_line :: "int \<Rightarrow> real \<Rightarrow> real \<Rightarrow> word list \<Rightarrow> pline" where
  "mk_line pg w h words =
     (let ws = map (\<lambda>x. x\<lparr>wd_text := py_lower (wd_text x)\<rparr>) words in
      case line_text 0 [] [] (map wd_text ws) of
        (txt, cw) \<Rightarrow> \<lparr>ln_page = pg, ln_W = w, ln_H = h, ln_text = txt, ln_words = ws, ln_chars = cw\<rparr>)"

text \<open>Words are grouped into bands of 3 points; the band's top is that of its first word.\<close>

fun bands :: "word list \<Rightarrow> real option \<Rightarrow> word list \<Rightarrow> word list list" where
  "bands cur cur_top [] = (if cur = [] then [] else [cur])"
| "bands cur cur_top (w # ws) =
     (case cur_top of
        None \<Rightarrow> bands (cur @ [w]) (Some (wd_top w)) ws
      | Some t \<Rightarrow>
          if \<bar>wd_top w - t\<bar> \<le> 3 then bands (cur @ [w]) (Some t) ws
          else cur # bands [w] (Some (wd_top w)) ws)"

definition or_one :: "real \<Rightarrow> real" where
  "or_one x = (if x = 0 then 1 else x)"

definition page_lines :: "int \<Rightarrow> page_text \<Rightarrow> pline list" where
  "page_lines pg p =
     map (mk_line pg (or_one (pt_width p)) (or_one (pt_height p)))
       (bands [] None (sort_key (\<lambda>w. (py_round (wd_top w / 3), wd_x0 w)) (case pt_words p of None \<Rightarrow> [] | Some ws \<Rightarrow> ws)))"

definition anchor_hits :: "extractor \<Rightarrow> bytes \<Rightarrow> pline list option" where
  "anchor_hits ext data =
     map_option (\<lambda>ps. concat (map (\<lambda>(i, p). page_lines (int i) p) (zip [0..<length ps] ps))) (ext data)"

section \<open>Finding text\<close>

text \<open>\<open>str.split()\<close>.\<close>

fun split_at_space :: "string \<Rightarrow> string list" where
  "split_at_space [] = [[]]"
| "split_at_space (c # s) =
     (if is_space c then [] # split_at_space s
      else (case split_at_space s of [] \<Rightarrow> [[c]] | w # ws \<Rightarrow> (c # w) # ws))"

definition split_ws :: "string \<Rightarrow> string list" where
  "split_ws s = filter (\<lambda>w. w \<noteq> []) (split_at_space s)"

text \<open>The positions \<open>find\<close> returns when it is asked again from the next character on.\<close>

definition finds :: "string \<Rightarrow> string \<Rightarrow> nat list" where
  "finds needle hay = filter (\<lambda>p. startswith (drop p hay) needle) [0..<length hay]"

text \<open>The words some of whose characters lie in a stretch of the line, and the box around them.\<close>

definition words_in :: "pline \<Rightarrow> nat \<Rightarrow> nat \<Rightarrow> nat list" where
  "words_in li start stop = sort (remdups (List.map_filter id (take (stop - start) (drop start (ln_chars li)))))"

definition bbox_from_charspan :: "pline \<Rightarrow> nat \<Rightarrow> nat \<Rightarrow> (real \<times> real \<times> real \<times> real) option" where
  "bbox_from_charspan li start stop =
     (let stretch = map (\<lambda>i. ln_words li ! i) (words_in li start stop) in
      if stretch = [] then None
      else Some (Min (set (map wd_x0 stretch)), Max (set (map wd_x1 stretch)),
                 Min (set (map wd_top stretch)), Max (set (map wd_bottom stretch))))"

definition anchor_needle :: "string \<Rightarrow> string" where
  "anchor_needle anchor = py_join '' '' (split_ws (py_lower anchor))"

definition anchor_occurrences :: "pline list \<Rightarrow> string \<Rightarrow> (pline \<times> nat) list" where
  "anchor_occurrences lines needle = concat (map (\<lambda>li. map (Pair li) (finds needle (ln_text li))) lines)"

definition find_anchor :: "pline list \<Rightarrow> string \<Rightarrow> int \<Rightarrow> (int \<times> real \<times> real \<times> real \<times> real) option" where
  "find_anchor lines anchor index =
     (let needle = anchor_needle anchor; hits = anchor_occurrences lines needle in
      if needle = [] \<or> index < 1 \<or> int (length hits) < index then None
      else (case hits ! nat (index - 1) of (li, p) \<Rightarrow>
        (case bbox_from_charspan li p (p + length needle) of
           None \<Rightarrow> None
         | Some (x0, x1, tp, bt) \<Rightarrow>
             Some (ln_page li, x0 / ln_W li, tp / ln_H li, (x1 - x0) / ln_W li, (bt - tp) / ln_H li))))"

section \<open>Placing fields\<close>

datatype place_error = BadField | SignerNotFound string | SignerRequired | AnchorNotFound string

datatype place_fail = PfError place_error | PfRaise py_exc

definition pf_bind :: "place_fail + 'a \<Rightarrow> ('a \<Rightarrow> place_fail + 'b) \<Rightarrow> place_fail + 'b" where
  "pf_bind m f = (case m of Inl e \<Rightarrow> Inl e | Inr x \<Rightarrow> f x)"

definition pf_lift :: "py_exc + 'a \<Rightarrow> place_fail + 'a" where
  "pf_lift m = (case m of Inl e \<Rightarrow> Inl (PfRaise e) | Inr x \<Rightarrow> Inr x)"

lemma pf_bind_simps [simp]: "pf_bind (Inl e) f = Inl e" "pf_bind (Inr x) f = f x"
  by (simp_all add: pf_bind_def)

lemma pf_bind_eq_Inr: "pf_bind m f = Inr y \<longleftrightarrow> (\<exists>x. m = Inr x \<and> f x = Inr y)"
  by (cases m) simp_all

lemma pf_lift_eq_Inr [simp]: "pf_lift m = Inr y \<longleftrightarrow> m = Inr y"
  by (cases m) (simp_all add: pf_lift_def)

definition FIELD_SIZE_PT :: "(string \<times> (real \<times> real)) list" where
  "FIELD_SIZE_PT =
     [(''signature'', (180, 44)), (''initials'', (72, 44)), (''date'', (110, 26)), (''text'', (170, 26)),
      (''name'', (180, 26)), (''email'', (200, 26)), (''title'', (170, 26)), (''company'', (180, 26)),
      (''checkbox'', (18, 18))]"

definition ANCHOR_PLACE :: "string list" where
  "ANCHOR_PLACE = [''right'', ''left'', ''below'', ''above'', ''over'']"

definition field_size :: "string \<Rightarrow> real \<times> real \<Rightarrow> real \<times> real" where
  "field_size ty d = coalesce (map_of FIELD_SIZE_PT ty) d"

type_synonym dict = "(string \<times> json) list"

text \<open>The signer of a field: by address among the draft's signers, by id, or the only one.\<close>

definition place_signer :: "engine \<Rightarrow> signer list \<Rightarrow> dict \<Rightarrow> place_fail + json" where
  "place_signer eng signers f =
     (let by = jget f ''signer''; sid = jget f ''signer_id'' in
      if truthy by then
        (let em = py_lower (py_strip (str_or_empty eng by)) in
         case find (\<lambda>s. py_lower (py_strip (s_email s)) = em) (rev signers) of
           None \<Rightarrow> Inl (PfError (SignerNotFound (str_or_empty eng by)))
         | Some s \<Rightarrow> Inr (JInt (s_id s)))
      else
        (let sid1 = (if sid = JNull \<and> length signers = 1 then JInt (s_id (hd signers)) else sid)
         in if sid1 = JNull then Inl (PfError SignerRequired) else Inr sid1))"

definition page_dims_of :: "pline list \<Rightarrow> int \<Rightarrow> (real \<times> real) option" where
  "page_dims_of lines page = map_option (\<lambda>li. (ln_W li, ln_H li)) (find (\<lambda>li. ln_page li = page) lines)"

definition source_lines :: "extractor \<Rightarrow> world \<Rightarrow> agreement \<Rightarrow> place_fail + pline list" where
  "source_lines ext w a =
     (case Option.bind (source_bytes w a) (anchor_hits ext) of
        None \<Rightarrow> Inl (PfRaise OtherError) | Some ls \<Rightarrow> Inr ls)"

text \<open>A box: page, left, top, width, height.\<close>

type_synonym box = "int \<times> real \<times> real \<times> real \<times> real"

definition anchor_box :: "engine \<Rightarrow> string \<Rightarrow> dict \<Rightarrow> pline list \<Rightarrow> place_fail + box" where
  "anchor_box eng ftype f lines =
     pf_bind (pf_lift (jint (jor (jget_def f ''anchor_index'' (JInt 1)) (JInt 1)))) (\<lambda>index.
     (case find_anchor lines (str_or_empty eng (jget f ''anchor'')) index of
        None \<Rightarrow> Inl (PfError (AnchorNotFound (str_or_empty eng (jget f ''anchor''))))
      | Some (pg, ax, ay, aw, ah) \<Rightarrow>
          (case (field_size ftype (170, 26), coalesce (page_dims_of lines pg) (612, 792)) of
             ((dw, dh), (W, H)) \<Rightarrow>
               pf_bind (pf_lift (jfloat (en_parse_float eng) (jget_def f ''width'' (JFloat dw)))) (\<lambda>fw0.
               pf_bind (pf_lift (jfloat (en_parse_float eng) (jget_def f ''height'' (JFloat dh)))) (\<lambda>fh0.
               pf_bind (pf_lift (jfloat (en_parse_float eng) (jget_def f ''dx'' (JInt 6)))) (\<lambda>dx.
               pf_bind (pf_lift (jfloat (en_parse_float eng) (jget_def f ''dy'' (JInt 0)))) (\<lambda>dy.
                 let fw = fw0 / W; fh = fh0 / H; ndx = dx / W; ndy = dy / H;
                     place = py_lower (str_or_empty eng (jor (jget f ''place'') (JStr ''right'')))
                 in Inr (if place = ''left'' then (pg, ax - fw - ndx, ay + ah / 2 - fh / 2 + ndy, fw, fh)
                         else if place = ''below'' then (pg, ax + ndx, ay + ah + ndy, fw, fh)
                         else if place = ''above'' then (pg, ax + ndx, ay - fh - ndy, fw, fh)
                         else if place = ''over'' then (pg, ax + ndx, ay + ndy, fw, fh)
                         else (pg, ax + aw + ndx, ay + ah / 2 - fh / 2 + ndy, fw, fh)))))))))"

text \<open>\<open>float(v) if v else d\<close>.\<close>

definition jfloat_or :: "engine \<Rightarrow> json \<Rightarrow> real \<Rightarrow> py_exc + real" where
  "jfloat_or eng j d = (if truthy j then jfloat (en_parse_float eng) j else Inr d)"

definition point_box :: "engine \<Rightarrow> string \<Rightarrow> dict \<Rightarrow> (place_fail + pline list) \<Rightarrow> place_fail + box" where
  "point_box eng ftype f lines =
     pf_bind (pf_lift (jint (jget_def f ''page'' (JInt 0)))) (\<lambda>page.
     pf_bind (pf_lift (jfloat (en_parse_float eng) (jget_def f ''x'' (JInt 0)))) (\<lambda>x.
     pf_bind (pf_lift (jfloat (en_parse_float eng) (jget_def f ''y'' (JInt 0)))) (\<lambda>y.
       let w_in = jget_def f ''w'' (jget f ''width''); h_in = jget_def f ''h'' (jget f ''height'');
           unit = py_lower (str_or_empty eng (jget f ''unit'')) in
       pf_bind (pf_lift (jfloat_or eng w_in 0)) (\<lambda>w1.
         if unit \<in> {''pt'', ''point'', ''points''} \<or> 1 < x \<or> 1 < y \<or> 1 < w1 then
           pf_bind lines (\<lambda>ls.
             (case (coalesce (page_dims_of ls page) (612, 792), field_size ftype (170, 26)) of
                ((W, H), (dw, dh)) \<Rightarrow>
                  pf_bind (pf_lift (jfloat_or eng w_in dw)) (\<lambda>bw.
                  pf_bind (pf_lift (jfloat_or eng h_in dh)) (\<lambda>bh.
                    Inr (page, x / W, y / H, bw / W, bh / H)))))
         else
           pf_bind (pf_lift (jfloat_or eng w_in (1 / 5))) (\<lambda>bw.
           pf_bind (pf_lift (jfloat_or eng h_in (1 / 25))) (\<lambda>bh.
             Inr (page, x, y, bw, bh)))))))"

definition clamp_box :: "box \<Rightarrow> box" where
  "clamp_box b =
     (case b of (page, x, y, bw, bh) \<Rightarrow>
       (let w1 = max (1 / 1000) (min bw 1); h1 = max (1 / 1000) (min bh 1)
        in (page, max 0 (min x (1 - w1)), max 0 (min y (1 - h1)), w1, h1)))"

record placement =
  pl_type :: string
  pl_signer :: json
  pl_page :: int
  pl_x :: real
  pl_y :: real
  pl_w :: real
  pl_h :: real
  pl_anchor :: "string option"
  pl_id :: "int option"

definition placed_field :: "engine \<Rightarrow> dict \<Rightarrow> string \<Rightarrow> json \<Rightarrow> box \<Rightarrow> dict \<times> placement" where
  "placed_field eng f ftype sid b =
     (case clamp_box b of (page, x, y, bw, bh) \<Rightarrow>
       ([(''signer_id'', sid), (''type'', JStr ftype), (''page'', JInt page), (''x'', JFloat (round5 x)),
         (''y'', JFloat (round5 y)), (''w'', JFloat (round5 bw)), (''h'', JFloat (round5 bh)),
         (''required'', JBool (truthy (jget_def f ''required'' (JBool True)))),
         (''value'', jget_def f ''value'' (JStr [])), (''placeholder'', jget_def f ''placeholder'' (JStr [])),
         (''prefill'', JInt (if truthy (jget f ''prefill'') then 1 else 0)),
         (''prompt'', JStr (str_or_empty eng (jget f ''prompt''))),
         (''field_key'', JStr (str_or_empty eng (jget f ''field_key'')))],
        \<lparr>pl_type = ftype, pl_signer = sid, pl_page = page, pl_x = round5 x, pl_y = round5 y, pl_w = round5 bw,
         pl_h = round5 bh,
         pl_anchor = (if truthy (jget f ''anchor'') then Some (str_or_empty eng (jget f ''anchor'')) else None),
         pl_id = None\<rparr>))"

definition place_one :: "engine \<Rightarrow> signer list \<Rightarrow> (place_fail + pline list) \<Rightarrow> json \<Rightarrow> place_fail + (dict \<times> placement)" where
  "place_one eng signers lines j =
     (case j of
        JObj f \<Rightarrow>
          (let ftype = py_lower (str_or_empty eng (jor (jget f ''type'') (JStr ''text''))) in
           pf_bind (place_signer eng signers f) (\<lambda>sid.
           pf_bind (if truthy (jget f ''anchor'') then pf_bind lines (anchor_box eng ftype f) else point_box eng ftype f lines) (\<lambda>b.
             Inr (placed_field eng f ftype sid b))))
      | _ \<Rightarrow> Inl (PfError BadField))"

fun place_all :: "engine \<Rightarrow> signer list \<Rightarrow> (place_fail + pline list) \<Rightarrow> nat \<Rightarrow> json list \<Rightarrow> (nat \<times> place_fail) + (dict \<times> placement) list" where
  "place_all eng signers lines i [] = Inr []"
| "place_all eng signers lines i (j # js) =
     (case place_one eng signers lines j of
        Inl e \<Rightarrow> Inl (i, e)
      | Inr r \<Rightarrow> (case place_all eng signers lines (i + 1) js of Inl e \<Rightarrow> Inl e | Inr rs \<Rightarrow> Inr (r # rs)))"

datatype place_result = PlNotFound | PlLocked | PlNoFields | PlError place_error nat | PlRaise | PlOk nat "placement list"

definition place_fields :: "engine \<Rightarrow> extractor \<Rightarrow> int \<Rightarrow> json \<Rightarrow> world \<Rightarrow> place_result \<times> world" where
  "place_fields eng ext aid specs w =
     (case get_agreement w aid of
        None \<Rightarrow> (PlNotFound, w)
      | Some v \<Rightarrow>
          if a_status (v_row v) \<notin> {Draft, NoStatus} then (PlLocked, w)
          else (case specs of
              JList (j # js) \<Rightarrow>
                (case place_all eng (v_signers v) (source_lines ext w (v_row v)) 0 (j # js) of
                   Inl (i, PfError e) \<Rightarrow> (PlError e i, w)
                 | Inl (i, PfRaise x) \<Rightarrow> (PlRaise, w)
                 | Inr rs \<Rightarrow>
                     (case set_fields eng aid (map fst rs) w of
                        (SetRaise, w1) \<Rightarrow> (PlRaise, w1)
                      | (r, w1) \<Rightarrow>
                          (let ids = map f_id (sort_key f_id (agr_fields w1 aid))
                           in (PlOk (length rs) (map (\<lambda>(p, k). p\<lparr>pl_id := Some k\<rparr>) (zip (map snd rs) ids)), w1))))
            | _ \<Rightarrow> (PlNoFields, w)))"

section \<open>Detecting fill-in fields\<close>

text \<open>
  The three bracket forms of \<open>_MERGE_TOKEN_RE\<close> on lower-case text. The lazy token between the brackets
  ends before the trailing white space; in the square form it has at least two characters, the second
  may be a space, and at most 41.
\<close>

definition token_start :: "char \<Rightarrow> bool" where
  "token_start c = (is_digit c \<or> (97 \<le> char_code c \<and> char_code c \<le> 122))"

definition token_char :: "char \<Rightarrow> bool" where
  "token_char c = (token_start c \<or> c \<in> set '' _-'')"

definition rstrip :: "string \<Rightarrow> string" where
  "rstrip s = rev (dropWhile is_space (rev s))"

definition bracket_at :: "string \<Rightarrow> string \<Rightarrow> nat \<Rightarrow> nat option \<Rightarrow> string \<Rightarrow> (string \<times> nat) option" where
  "bracket_at op cl lo hi s =
     (if \<not> startswith s op then None
      else let r = dropWhile is_space (drop (length op) s); body = takeWhile token_char r;
               rest = dropWhile is_space (drop (length body) r); n = max lo (length (rstrip body)) in
        if body \<noteq> [] \<and> token_start (hd body) \<and> startswith rest cl \<and> n \<le> length body \<and> (case hi of None \<Rightarrow> True | Some m \<Rightarrow> n \<le> m)
        then Some (take n body, length s - length rest + length cl) else None)"

definition merge_at :: "string \<Rightarrow> (string \<times> nat) option" where
  "merge_at s =
     (case bracket_at ''{{'' ''}}'' 1 None s of Some r \<Rightarrow> Some r
      | None \<Rightarrow> (case bracket_at ''['' '']'' 2 (Some 41) s of Some r \<Rightarrow> Some r
        | None \<Rightarrow> bracket_at ''<<'' ''>>'' 1 None s))"

text \<open>\<open>finditer\<close>: token, start and end of each match, left to right, without overlap.\<close>

fun tokens_from :: "nat \<Rightarrow> nat \<Rightarrow> string \<Rightarrow> (string \<times> nat \<times> nat) list" where
  "tokens_from skip p [] = []"
| "tokens_from skip p (c # s) =
     (if 0 < skip then tokens_from (skip - 1) (p + 1) s
      else (case merge_at (c # s) of
          None \<Rightarrow> tokens_from 0 (p + 1) s
        | Some (t, n) \<Rightarrow> (t, p, p + n) # tokens_from (n - 1) (p + 1) s))"

definition PREFILL_LABELS :: "string list" where
  "PREFILL_LABELS =
     [''effective date'', ''expiration date'', ''start date'', ''end date'', ''company name'', ''full name'',
      ''print name'', ''business name'', ''legal name'', ''contract value'', ''total amount'', ''job title'',
      ''phone number'', ''email address'', ''mailing address'', ''company'', ''address'', ''amount'', ''total'',
      ''title'', ''email'', ''phone'', ''date'', ''name'']"

text \<open>A run of characters outside \<open>a-z0-9\<close> becomes one underscore; underscores at the ends go.\<close>

fun slug_chars :: "bool \<Rightarrow> string \<Rightarrow> string" where
  "slug_chars gap [] = []"
| "slug_chars gap (c # s) =
     (if token_start c then c # slug_chars False s
      else if gap then slug_chars True s else CHR ''_'' # slug_chars True s)"

definition strip_char :: "char \<Rightarrow> string \<Rightarrow> string" where
  "strip_char c s = rev (dropWhile (\<lambda>x. x = c) (rev (dropWhile (\<lambda>x. x = c) s)))"

definition slug :: "string \<Rightarrow> string" where
  "slug s = strip_char (CHR ''_'') (slug_chars False s)"

definition upper_first :: "string \<Rightarrow> string" where
  "upper_first w =
     (case w of [] \<Rightarrow> []
      | c # s \<Rightarrow> (if 97 \<le> char_code c \<and> char_code c \<le> 122 then char_of (char_code c - 32) else c) # s)"

definition humanize_token :: "string \<Rightarrow> string" where
  "humanize_token t =
     take 60 (py_join '' '' (map upper_first (split_ws (map (\<lambda>c. if c = CHR ''_'' \<or> c = CHR ''-'' then CHR '' '' else c) t))))"

definition contains :: "string \<Rightarrow> string \<Rightarrow> bool" where
  "contains needle hay = list_ex (\<lambda>p. startswith (drop p hay) needle) [0..<Suc (length hay)]"

definition prefill_type_for :: "string \<Rightarrow> string" where
  "prefill_type_for l =
     (if contains ''date'' l then ''date'' else if contains ''email'' l then ''email''
      else if contains ''company'' l \<or> contains ''business'' l then ''company''
      else if contains ''title'' l then ''title'' else if contains ''name'' l then ''name'' else ''text'')"

record detected =
  de_type :: string
  de_page :: int
  de_box :: "real \<times> real \<times> real \<times> real"
  de_prompt :: string
  de_key :: string

definition emit_field :: "pline \<Rightarrow> string \<Rightarrow> string \<Rightarrow> real \<times> real \<times> real \<times> real \<Rightarrow> bool \<Rightarrow> detected" where
  "emit_field li key prompt bb over =
     (case bb of (x0, x1, tp, bt) \<Rightarrow>
       (let W = ln_W li; H = ln_H li; ftype = prefill_type_for (py_lower prompt); min_w = fst (field_size ftype (150, 26));
            nx0 = (if over then x0 / W else (x1 + 6) / W);
            nw = min (if over then max ((x1 - x0) / W) (min_w / W) else min_w / W) 1;
            nh = min (max ((bt - tp) / H) (22 / H)) 1;
            nx = max 0 (min nx0 (1 - nw)); ny = max 0 (min (tp / H) (1 - nh))
        in \<lparr>de_type = ftype, de_page = ln_page li, de_box = (round5 nx, round5 ny, round5 nw, round5 nh),
            de_prompt = prompt, de_key = key\<rparr>))"

definition overlaps :: "nat \<times> nat \<Rightarrow> (nat \<times> nat) list \<Rightarrow> bool" where
  "overlaps a occ = list_ex (\<lambda>b. \<not> (snd a \<le> fst b \<or> snd b \<le> fst a)) occ"

definition MAX_DETECTED :: nat where "MAX_DETECTED = 40"

text \<open>The scan's state: what was found, and the stretches taken on the line. Once it holds
  \<open>MAX_DETECTED\<close> fields it is not changed any more, which is the early return.\<close>

type_synonym scan = "detected list \<times> (nat \<times> nat) list"

definition has_key :: "detected list \<Rightarrow> string \<Rightarrow> bool" where
  "has_key out key = (key \<in> set (map de_key out))"

definition token_step :: "pline \<Rightarrow> (string \<times> nat \<times> nat) \<Rightarrow> scan \<Rightarrow> scan" where
  "token_step li m st =
     (case m of (t, stretch) \<Rightarrow> (case st of (out, occ) \<Rightarrow>
       (let key = slug t in
        if MAX_DETECTED \<le> length out \<or> key = [] \<or> has_key out key \<or> overlaps stretch occ then st
        else (case bbox_from_charspan li (fst stretch) (snd stretch) of
            None \<Rightarrow> st
          | Some bb \<Rightarrow> (out @ [emit_field li key (humanize_token t) bb True], occ @ [stretch])))))"

definition latin_alnum :: "char \<Rightarrow> bool" where
  "latin_alnum c =
     (is_ascii_alpha c \<or> is_digit c \<or> char_code c \<in> {170, 178, 179, 181, 185, 186, 188, 189, 190} \<or>
      (192 \<le> char_code c \<and> char_code c \<noteq> 215 \<and> char_code c \<noteq> 247))"

definition mid_word :: "string \<Rightarrow> nat \<Rightarrow> bool" where
  "mid_word txt p = (0 < p \<and> (latin_alnum (txt ! (p - 1)) \<or> txt ! (p - 1) = CHR ''_''))"

definition label_step :: "pline \<Rightarrow> string \<Rightarrow> scan \<Rightarrow> scan" where
  "label_step li label st =
     (case st of (out, occ) \<Rightarrow>
       (let key = slug label; n = length label + 1; txt = ln_text li in
        if MAX_DETECTED \<le> length out \<or> has_key out key then st
        else (case find (\<lambda>p. \<not> mid_word txt p \<and> \<not> overlaps (p, p + n) occ \<and> bbox_from_charspan li p (p + n) \<noteq> None)
                (finds (label @ '':'') txt) of
            None \<Rightarrow> st
          | Some p \<Rightarrow>
              (out @ [emit_field li key (humanize_token label) (the (bbox_from_charspan li p (p + n))) False], occ @ [(p, p + n)]))))"

definition line_step :: "pline \<Rightarrow> detected list \<Rightarrow> detected list" where
  "line_step li out = fst (fold (label_step li) PREFILL_LABELS (fold (token_step li) (tokens_from 0 0 (ln_text li)) (out, [])))"

definition detect_prefill_fields :: "extractor \<Rightarrow> bytes \<Rightarrow> detected list" where
  "detect_prefill_fields ext data =
     (case anchor_hits ext data of None \<Rightarrow> [] | Some lines \<Rightarrow> fold line_step lines [])"

text \<open>What is handed to \<open>set_fields\<close>: the stored rows and the records of the new fields.\<close>

definition dict_of_detected :: "detected \<Rightarrow> dict" where
  "dict_of_detected d =
     (case de_box d of (x, y, bw, bh) \<Rightarrow>
       [(''type'', JStr (de_type d)), (''page'', JInt (de_page d)), (''x'', JFloat x), (''y'', JFloat y), (''w'', JFloat bw),
        (''h'', JFloat bh), (''prefill'', JInt 1), (''prompt'', JStr (de_prompt d)), (''field_key'', JStr (de_key d)),
        (''placeholder'', JStr (de_prompt d)), (''required'', JBool True)])"

definition dict_of_field :: "field \<Rightarrow> dict" where
  "dict_of_field f =
     [(''id'', JInt (f_id f)), (''agreement_id'', JInt (f_agr f)),
      (''signer_id'', case f_signer f of None \<Rightarrow> JNull | Some i \<Rightarrow> JInt i), (''type'', JStr (f_type f)),
      (''page'', JInt (f_page f)), (''x'', JFloat (f_x f)), (''y'', JFloat (f_y f)), (''w'', JFloat (f_w f)),
      (''h'', JFloat (f_h f)), (''required'', JInt (if f_required f then 1 else 0)), (''value'', JStr (f_value f)),
      (''placeholder'', JStr (f_placeholder f)), (''prefill'', JInt (if f_prefill f then 1 else 0)),
      (''prompt'', JStr (f_prompt f)), (''field_key'', JStr (f_key f))]"

datatype detect_result = DtNotFound | DtLocked | DtNoSource | DtRaise | DtOk nat "detected list"

definition new_detected :: "field list \<Rightarrow> detected list \<Rightarrow> detected list" where
  "new_detected existing ds =
     filter (\<lambda>d. de_key d \<noteq> [] \<and> de_key d \<notin> set (map f_key (filter f_prefill existing))) ds"

definition autodetect_prefill_owned :: "engine \<Rightarrow> extractor \<Rightarrow> int \<Rightarrow> int \<Rightarrow> world \<Rightarrow> detect_result \<times> world" where
  "autodetect_prefill_owned eng ext aid owner w =
     (case get_agreement_owned w aid owner of
        None \<Rightarrow> (DtNotFound, w)
      | Some v \<Rightarrow>
          if a_status (v_row v) \<notin> {Draft, NoStatus} then (DtLocked, w)
          else (case source_bytes w (v_row v) of
              None \<Rightarrow> (DtNoSource, w)
            | Some data \<Rightarrow>
                (let ds = detect_prefill_fields ext data; added = new_detected (v_fields v) ds in
                 if added = [] then (DtOk (length ds) [], w)
                 else (case set_fields eng aid (map dict_of_field (v_fields v) @ map dict_of_detected added) w of
                     (SetRaise, w1) \<Rightarrow> (DtRaise, w1) | (r, w1) \<Rightarrow> (DtOk (length ds) added, w1)))))"

section \<open>Rounding stays in range\<close>

lemma py_round_le: "x \<le> of_int n \<Longrightarrow> py_round x \<le> n"
proof -
  assume x: "x \<le> of_int n"
  have "py_round x \<le> \<lfloor>x\<rfloor> \<or> x - of_int \<lfloor>x\<rfloor> > 0 \<and> py_round x \<le> \<lfloor>x\<rfloor> + 1" by (auto simp: py_round_def Let_def)
  then show ?thesis using x by linarith
qed

lemma py_round_ge: "of_int n \<le> x \<Longrightarrow> n \<le> py_round x"
proof -
  assume x: "of_int n \<le> x"
  have "\<lfloor>x\<rfloor> \<le> py_round x" by (auto simp: py_round_def Let_def)
  then show ?thesis using x by linarith
qed

lemma py_round_near: "\<bar>of_int (py_round x) - x\<bar> \<le> 1 / 2"
proof -
  have "py_round x = \<lfloor>x\<rfloor> \<and> x - of_int \<lfloor>x\<rfloor> \<le> 1 / 2 \<or> py_round x = \<lfloor>x\<rfloor> + 1 \<and> 1 / 2 \<le> x - of_int \<lfloor>x\<rfloor>"
    by (auto simp: py_round_def Let_def)
  then show ?thesis by linarith
qed

lemma round5_range:
  "0 \<le> x \<Longrightarrow> 0 \<le> round5 x" "x \<le> 1 \<Longrightarrow> round5 x \<le> 1" "1 / 1000 \<le> x \<Longrightarrow> 1 / 1000 \<le> round5 x"
  "x + y \<le> 1 \<Longrightarrow> round5 x + round5 y \<le> 1 + 1 / 100000"
proof -
  show "0 \<le> x \<Longrightarrow> 0 \<le> round5 x" using py_round_ge [of 0 "x * 100000"] by (simp add: round5_def)
  show "x \<le> 1 \<Longrightarrow> round5 x \<le> 1" using py_round_le [of "x * 100000" 100000] by (simp add: round5_def)
  show "1 / 1000 \<le> x \<Longrightarrow> 1 / 1000 \<le> round5 x" using py_round_ge [of 100 "x * 100000"] by (simp add: round5_def)
  show "x + y \<le> 1 \<Longrightarrow> round5 x + round5 y \<le> 1 + 1 / 100000"
  proof -
    assume "x + y \<le> 1"
    moreover have "of_int (py_round z) \<le> z + 1 / 2" for z using py_round_near [of z] by linarith
    from add_mono [OF this [of "x * 100000"] this [of "y * 100000"]]
    have "of_int (py_round (x * 100000)) + of_int (py_round (y * 100000)) \<le> (x + y) * 100000 + 1" by (simp add: algebra_simps)
    moreover have "(x + y) * 100000 \<le> 1 * 100000" using \<open>x + y \<le> 1\<close> by (rule mult_right_mono) simp
    ultimately have "of_int (py_round (x * 100000)) + of_int (py_round (y * 100000)) \<le> (100001 :: real)" by linarith
    then show ?thesis by (simp add: round5_def add_divide_distrib [symmetric])
  qed
qed

text \<open>A box on a page, up to the rounding of its corners.\<close>

definition in_page :: "real \<Rightarrow> real \<Rightarrow> real \<Rightarrow> real \<Rightarrow> bool" where
  "in_page x y bw bh =
     (0 \<le> x \<and> 0 \<le> y \<and> bw \<le> 1 \<and> bh \<le> 1 \<and> x + bw \<le> 1 + 1 / 100000 \<and> y + bh \<le> 1 + 1 / 100000)"

lemma in_page_round:
  "in_page (round5 (max 0 (min x (1 - w)))) (round5 (max 0 (min y (1 - h)))) (round5 w) (round5 h)" if "w \<le> 1" "h \<le> 1"
proof -
  have "max 0 (min x (1 - w)) + w \<le> 1" "max 0 (min y (1 - h)) + h \<le> 1" using that by (auto simp: max_def min_def)
  then show ?thesis using that unfolding in_page_def by (intro conjI round5_range) auto
qed

section \<open>Placed fields lie on their page\<close>

lemma jget_simps [simp]:
  "jget ((k, v) # d) k' = (if k' = k then v else jget d k')" "jget_def ((k, v) # d) k' e = (if k' = k then v else jget_def d k' e)"
  by (simp_all add: jget_def jget_def_def)

lemma placed_field_row:
  assumes "placed_field eng g ftype sid b = (d, p)" and "field_of_dict eng aid fid d = Inr f"
  shows "f_type f = pl_type p \<and> f_page f = pl_page p \<and>
    f_x f = pl_x p \<and> f_y f = pl_y p \<and> f_w f = pl_w p \<and> f_h f = pl_h p \<and> db_int (pl_signer p) = Inr (f_signer f) \<and> f_id f = fid \<and> f_agr f = aid \<and>
    in_page (f_x f) (f_y f) (f_w f) (f_h f) \<and> 1 / 1000 \<le> f_w f \<and> 1 / 1000 \<le> f_h f"
proof -
  obtain page x0 y0 w0 h0 where b: "b = (page, x0, y0, w0, h0)" by (cases b) auto
  obtain X Y W H where c: "clamp_box b = (page, X, Y, W, H)" and i: "in_page (round5 X) (round5 Y) (round5 W) (round5 H)"
    and m: "1 / 1000 \<le> round5 W" "1 / 1000 \<le> round5 H"
  proof
    let ?w = "max (1 / 1000) (min w0 1)" and ?h = "max (1 / 1000) (min h0 1)"
    show "clamp_box b = (page, max 0 (min x0 (1 - ?w)), max 0 (min y0 (1 - ?h)), ?w, ?h)" by (simp add: b clamp_box_def Let_def)
    show "in_page (round5 (max 0 (min x0 (1 - ?w)))) (round5 (max 0 (min y0 (1 - ?h)))) (round5 ?w) (round5 ?h)"
      by (rule in_page_round) auto
    show "1 / 1000 \<le> round5 ?w" "1 / 1000 \<le> round5 ?h" by (rule round5_range, simp)+
  qed
  have p: "p = snd (placed_field eng g ftype sid b)" and d: "d = fst (placed_field eng g ftype sid b)" using assms(1) by simp_all
  show ?thesis
    using assms(2) i m unfolding p d placed_field_def c
    by (simp add: field_of_dict_def try_bind_eq_Inr) (elim exE conjE, auto simp: db_text_def bind_int_def try_bind_eq_Inr split: if_splits)
qed

lemma place_all_each:
  "place_all eng signers lines i js = Inr rs \<Longrightarrow> list_all2 (\<lambda>j r. place_one eng signers lines j = Inr r) js rs"
  by (induction js arbitrary: i rs) (auto split: sum.splits)

lemma fields_of_dicts_each:
  "fields_of_dicts eng aid fid ds = Inr fs \<Longrightarrow>
   length fs = length ds \<and> (\<forall>k < length ds. field_of_dict eng aid (fid + int k) (ds ! k) = Inr (fs ! k))"
proof (induction ds arbitrary: fid fs)
  case (Cons d ds)
  then obtain f gs where g: "field_of_dict eng aid fid d = Inr f" "fields_of_dicts eng aid (fid + 1) ds = Inr gs" "fs = f # gs"
    by (auto simp: try_bind_eq_Inr)
  from Cons.IH [OF g(2)] have l: "length gs = length ds"
      "\<And>k. k < length ds \<Longrightarrow> field_of_dict eng aid (fid + 1 + int k) (ds ! k) = Inr (gs ! k)" by auto
  have "field_of_dict eng aid (fid + int k) ((d # ds) ! k) = Inr (fs ! k)" if "k < length (d # ds)" for k
    using that g(1) l(2) [of "k - 1"] by (cases k) (simp_all add: g(3) algebra_simps)
  then show ?case using l(1) g(3) by auto
qed simp

lemma field_of_dict_ids: "field_of_dict eng aid fid d = Inr f \<Longrightarrow> f_id f = fid \<and> f_agr f = aid"
  by (auto simp: field_of_dict_def try_bind_eq_Inr)

text \<open>What \<open>set_fields\<close> stores: the new rows, in order, with fresh ascending ids.\<close>

lemma set_fields_stored:
  assumes "set_fields eng aid ds w = (r, w')" and "r \<noteq> SetLocked" and "r \<noteq> SetRaise"
  obtains fs where "agr_fields w' aid = fs" "sort_key f_id fs = fs" "length fs = length ds"
    "\<And>k. k < length ds \<Longrightarrow> field_of_dict eng aid (next_fld w + int k) (ds ! k) = Inr (fs ! k)"
    "field_rows w' = filter (\<lambda>f. f_agr f \<noteq> aid) (field_rows w) @ fs"
    "w'\<lparr>field_rows := field_rows w, next_fld := next_fld w\<rparr> = w"
proof -
  obtain fs where fs: "fields_of_dicts eng aid (next_fld w) ds = Inr fs"
      and w': "w' = w\<lparr>field_rows := del_where (\<lambda>f. f_agr f = aid) (field_rows w) @ fs, next_fld := next_fld w + int (length fs)\<rparr>"
    using assms by (auto simp: set_fields_def Let_def split: if_splits sum.splits)
  from fields_of_dicts_each [OF fs] have l: "length fs = length ds"
      "\<And>k. k < length ds \<Longrightarrow> field_of_dict eng aid (next_fld w + int k) (ds ! k) = Inr (fs ! k)" by auto
  have id: "f_id (fs ! k) = next_fld w + int k \<and> f_agr (fs ! k) = aid" if "k < length fs" for k
    using field_of_dict_ids [OF l(2)] that l(1) by simp
  have all: "\<forall>f \<in> set fs. f_agr f = aid" using id by (metis in_set_conv_nth)
  have "filter (\<lambda>f. f_agr f = aid) (del_where (\<lambda>f. f_agr f = aid) xs) = []" for xs :: "field list" by (simp add: filter_empty_conv)
  then have a: "agr_fields w' aid = fs" using all by (simp add: agr_fields_def w')
  have "sorted (map f_id fs)" unfolding sorted_iff_nth_mono using id by simp
  then have "sort_key f_id fs = fs" by (rule sort_key_id_if_sorted)
  then show thesis using that [of fs] a l w' by (simp add: del_where_def)
qed

text \<open>Property C26. Placing fields: on success the draft's fields are, in order, exactly the ones reported, with the reported ids, types,
  pages and boxes; every box is at least a thousandth wide and high and lies on the page (up to the rounding of
  the fifth decimal); and nothing else of the site is changed. On any other answer nothing is changed at all.\<close>

theorem place_fields_reported:
  assumes "place_fields eng ext aid specs w = (r, w')"
  shows "(\<forall>n rep. r = PlOk n rep \<longrightarrow>
      length (agr_fields w' aid) = n \<and> length rep = n \<and>
      (\<forall>k < n. let f = agr_fields w' aid ! k; p = rep ! k in
         pl_id p = Some (f_id f) \<and> f_type f = pl_type p \<and> f_page f = pl_page p \<and> f_x f = pl_x p \<and> f_y f = pl_y p \<and>
         f_w f = pl_w p \<and> f_h f = pl_h p \<and> db_int (pl_signer p) = Inr (f_signer f) \<and>
         in_page (f_x f) (f_y f) (f_w f) (f_h f) \<and> 1 / 1000 \<le> f_w f \<and> 1 / 1000 \<le> f_h f) \<and>
      filter (\<lambda>f. f_agr f \<noteq> aid) (field_rows w') = filter (\<lambda>f. f_agr f \<noteq> aid) (field_rows w) \<and>
      w'\<lparr>field_rows := field_rows w, next_fld := next_fld w\<rparr> = w) \<and>
    ((\<forall>n rep. r \<noteq> PlOk n rep) \<longrightarrow> w' = w)"
proof (cases "\<exists>n rep. r = PlOk n rep")
  case False
  have "set_fields eng aid ds w = (SetRaise, w1) \<Longrightarrow> w1 = w" for ds w1
    by (auto simp: set_fields_def Let_def split: if_splits sum.splits)
  then show ?thesis
    using assms False
    by (auto simp: place_fields_def Let_def split: option.splits if_splits json.splits list.splits sum.splits place_fail.splits prod.splits set_result.splits)
next
  case True
  then obtain n rep where r: "r = PlOk n rep" by blast
  obtain v js rs r1 where v: "get_agreement w aid = Some v" and rs: "place_all eng (v_signers v) (source_lines ext w (v_row v)) 0 js = Inr rs"
      and s: "set_fields eng aid (map fst rs) w = (r1, w')" "r1 \<noteq> SetRaise" and st: "a_status (v_row v) \<in> {Draft, NoStatus}"
      and n: "n = length rs" and rep: "rep = map (\<lambda>(p, k). p\<lparr>pl_id := Some k\<rparr>) (zip (map snd rs) (map f_id (sort_key f_id (agr_fields w' aid))))"
    using assms unfolding r
    by (auto simp: place_fields_def Let_def simp del: place_all.simps split: option.splits if_splits json.splits list.splits sum.splits place_fail.splits prod.splits set_result.splits)
  have "r1 \<noteq> SetLocked" using s st v by (auto simp: set_fields_def locked_def get_agreement_def Let_def split: if_splits sum.splits option.splits)
  from set_fields_stored [OF s(1) this s(2)] obtain fs where fs: "agr_fields w' aid = fs" "sort_key f_id fs = fs" "length fs = length rs"
      "\<And>k. k < length rs \<Longrightarrow> field_of_dict eng aid (next_fld w + int k) (fst (rs ! k)) = Inr (fs ! k)"
      "field_rows w' = filter (\<lambda>f. f_agr f \<noteq> aid) (field_rows w) @ fs"
      "w'\<lparr>field_rows := field_rows w, next_fld := next_fld w\<rparr> = w" by (auto simp del: not_None_eq)
  note pl = place_all_each [OF rs]
  have one: "\<exists>g ftype sid b. placed_field eng g ftype sid b = (fst (rs ! k), snd (rs ! k))" if "k < length rs" for k
  proof -
    have "place_one eng (v_signers v) (source_lines ext w (v_row v)) (js ! k) = Inr (rs ! k)"
      using list_all2_nthD2 [OF pl that] .
    then show ?thesis by (auto simp: place_one_def Let_def pf_bind_eq_Inr split: json.splits) (metis surjective_pairing)
  qed
  have ag: "\<forall>f \<in> set fs. f_agr f = aid" using field_of_dict_ids fs(3,4) by (metis in_set_conv_nth)
  have lr: "length rep = n" and rk: "\<And>k. k < n \<Longrightarrow> rep ! k = (snd (rs ! k))\<lparr>pl_id := Some (f_id (fs ! k))\<rparr>"
    by (simp_all add: rep n fs(1-3))
  have "let f = agr_fields w' aid ! k; p = rep ! k in
         pl_id p = Some (f_id f) \<and> f_type f = pl_type p \<and> f_page f = pl_page p \<and> f_x f = pl_x p \<and> f_y f = pl_y p \<and>
         f_w f = pl_w p \<and> f_h f = pl_h p \<and> db_int (pl_signer p) = Inr (f_signer f) \<and>
         in_page (f_x f) (f_y f) (f_w f) (f_h f) \<and> 1 / 1000 \<le> f_w f \<and> 1 / 1000 \<le> f_h f" if k: "k < n" for k
  proof -
    obtain g ftype sid b where "placed_field eng g ftype sid b = (fst (rs ! k), snd (rs ! k))" using one k n by blast
    from placed_field_row [OF this fs(4)] k n show ?thesis by (auto simp: Let_def fs(1) rk)
  qed
  moreover have "filter (\<lambda>f. f_agr f \<noteq> aid) (field_rows w') = filter (\<lambda>f. f_agr f \<noteq> aid) (field_rows w)"
    using ag by (simp add: fs(5) filter_empty_conv)
  ultimately show ?thesis using lr fs(1,3,6) n r by simp
qed

section \<open>An anchor is found where its text stands\<close>

text \<open>The index of a line: every character belongs to a word, or is the space between two words.\<close>

definition aligned :: "nat \<Rightarrow> string \<Rightarrow> nat option list \<Rightarrow> bool" where
  "aligned n tx cw =
     (length cw = length tx \<and>
      (\<forall>q < length tx. case cw ! q of None \<Rightarrow> tx ! q = CHR '' '' | Some i \<Rightarrow> i < n))"

lemma aligned_line_text:
  assumes "aligned i tx cw" and "line_text i tx cw ts = (tx', cw')"
  shows "aligned (i + length ts) tx' cw'"
  using assms
proof (induction ts arbitrary: i tx cw)
  case (Cons t ts)
  obtain tx1 cw1 where n: "(if tx \<noteq> [] then (tx @ '' '', cw @ [None]) else (tx, cw)) = (tx1, cw1)" by fastforce
  have a: "aligned i tx1 cw1"
    using Cons.prems(1) n by (auto simp: aligned_def nth_append split: if_splits option.splits)
  have "aligned (i + 1) (tx1 @ t) (cw1 @ replicate (length t) (Some i))"
    using a by (auto simp: aligned_def nth_append split: option.splits)
  from Cons.IH [OF this] Cons.prems(2) n show ?case by (simp add: add.assoc)
qed simp

lemma aligned_mk_line: "aligned (length (ln_words (mk_line pg w h ws))) (ln_text (mk_line pg w h ws)) (ln_chars (mk_line pg w h ws))"
proof -
  obtain tx cw where l: "line_text 0 [] [] (map (\<lambda>x. py_lower (wd_text x)) ws) = (tx, cw)" by fastforce
  from aligned_line_text [OF _ l] have "aligned (length ws) tx cw" by (simp add: aligned_def)
  then show ?thesis using l by (simp add: mk_line_def Let_def comp_def)
qed

lemma anchor_lines_aligned:
  assumes "anchor_hits ext data = Some lines" and "li \<in> set lines"
  shows "aligned (length (ln_words li)) (ln_text li) (ln_chars li)"
  using assms aligned_mk_line by (auto simp: anchor_hits_def page_lines_def)

lemma split_at_space_parts: "w \<in> set (split_at_space s) \<Longrightarrow> \<forall>c \<in> set w. \<not> is_space c"
proof (induction s arbitrary: w)
  case (Cons c s)
  then show ?case by (cases "split_at_space s") (fastforce split: if_splits)+
qed simp

lemma needle_start: "anchor_needle a \<noteq> [] \<Longrightarrow> \<not> is_space (hd (anchor_needle a))"
proof -
  assume n: "anchor_needle a \<noteq> []"
  have "\<forall>w \<in> set ws. w \<noteq> [] \<and> (\<forall>c \<in> set w. \<not> is_space c) \<Longrightarrow> ws \<noteq> [] \<Longrightarrow> \<not> is_space (hd (py_join '' '' ws))" for ws
    by (cases ws rule: remdups_adj.cases) auto
  moreover have "\<forall>w \<in> set (split_ws (py_lower a)). w \<noteq> [] \<and> (\<forall>c \<in> set w. \<not> is_space c)"
    using split_at_space_parts by (auto simp: split_ws_def)
  moreover have "split_ws (py_lower a) \<noteq> []" using n by (auto simp: anchor_needle_def)
  ultimately show ?thesis by (simp add: anchor_needle_def)
qed

lemma finds_at: "p \<in> set (finds needle hay) \<Longrightarrow> p + length needle \<le> length hay \<and> take (length needle) (drop p hay) = needle"
  by (auto simp: finds_def startswith_def dest: arg_cong [where f = length])

text \<open>The words of a stretch, and the box around them.\<close>

lemma words_in_iff:
  "i \<in> set (words_in li a b) \<longleftrightarrow> (\<exists>q. a \<le> q \<and> q < b \<and> q < length (ln_chars li) \<and> ln_chars li ! q = Some i)"
proof -
  have "i \<in> set (words_in li a b) \<longleftrightarrow> Some i \<in> set (take (b - a) (drop a (ln_chars li)))"
    by (auto simp: words_in_def List.map_filter_def image_iff)
  also have "\<dots> \<longleftrightarrow> (\<exists>k < min (b - a) (length (ln_chars li) - a). ln_chars li ! (a + k) = Some i)"
    by (auto simp: in_set_conv_nth)
  also have "\<dots> \<longleftrightarrow> (\<exists>q. a \<le> q \<and> q < b \<and> q < length (ln_chars li) \<and> ln_chars li ! q = Some i)"
    by (auto simp: le_iff_add) (metis add.commute less_diff_conv)+
  finally show ?thesis .
qed

lemma bbox_covers:
  assumes "bbox_from_charspan li a b = Some (x0, x1, t, d)" and "i \<in> set (words_in li a b)"
  shows "x0 \<le> wd_x0 (ln_words li ! i) \<and> wd_x1 (ln_words li ! i) \<le> x1 \<and> t \<le> wd_top (ln_words li ! i) \<and> wd_bottom (ln_words li ! i) \<le> d"
  using assms by (auto simp: bbox_from_charspan_def Let_def split: if_splits)

text \<open>Property C27. Anchoring: an anchor text is resolved exactly if the document's lines contain it that often (in lower case, white
  space squeezed); and then the box lies on the page of that very occurrence and covers every word the
  matched text touches.\<close>

theorem anchor_found:
  assumes "anchor_hits ext data = Some lines"
  shows "(find_anchor lines anchor k \<noteq> None) =
      (anchor_needle anchor \<noteq> [] \<and> 1 \<le> k \<and> k \<le> int (length (anchor_occurrences lines (anchor_needle anchor)))) \<and>
    (\<forall>page x y bw bh. find_anchor lines anchor k = Some (page, x, y, bw, bh) \<longrightarrow>
       (\<exists>li p x0 x1 t b. anchor_occurrences lines (anchor_needle anchor) ! nat (k - 1) = (li, p) \<and> li \<in> set lines \<and>
          take (length (anchor_needle anchor)) (drop p (ln_text li)) = anchor_needle anchor \<and> page = ln_page li \<and>
          x = x0 / ln_W li \<and> y = t / ln_H li \<and> bw = (x1 - x0) / ln_W li \<and> bh = (b - t) / ln_H li \<and>
          (\<forall>q i. p \<le> q \<and> q < p + length (anchor_needle anchor) \<and> ln_chars li ! q = Some i \<longrightarrow>
             x0 \<le> wd_x0 (ln_words li ! i) \<and> wd_x1 (ln_words li ! i) \<le> x1 \<and>
             t \<le> wd_top (ln_words li ! i) \<and> wd_bottom (ln_words li ! i) \<le> b)))"
proof -
  let ?n = "anchor_needle anchor" and ?os = "anchor_occurrences lines (anchor_needle anchor)"
  have occ: "li \<in> set lines \<and> p + length ?n \<le> length (ln_text li) \<and> take (length ?n) (drop p (ln_text li)) = ?n \<and>
      length (ln_chars li) = length (ln_text li) \<and> (?n \<noteq> [] \<longrightarrow> bbox_from_charspan li p (p + length ?n) \<noteq> None)"
    if "(li, p) \<in> set ?os" for li p
  proof -
    have l: "li \<in> set lines" and f: "p + length ?n \<le> length (ln_text li)" "take (length ?n) (drop p (ln_text li)) = ?n"
      using that finds_at by (auto simp: anchor_occurrences_def)
    note a = anchor_lines_aligned [OF assms l]
    have "bbox_from_charspan li p (p + length ?n) \<noteq> None" if n: "?n \<noteq> []"
    proof -
      have p: "p < length (ln_text li)" using f(1) n by (cases ?n) auto
      then have "ln_text li ! p = hd ?n" using f(2) n by (metis append_take_drop_id hd_append2 hd_drop_conv_nth)
      then have "ln_text li ! p \<noteq> CHR '' ''" using needle_start [OF n] by (auto simp: is_space_def char_code_def)
      then obtain i where "ln_chars li ! p = Some i" using a p by (fastforce simp: aligned_def split: option.splits)
      then have "i \<in> set (words_in li p (p + length ?n))" using a p n by (auto simp: words_in_iff aligned_def)
      then show ?thesis by (auto simp: bbox_from_charspan_def Let_def)
    qed
    then show ?thesis using l f a by (simp add: aligned_def)
  qed
  show ?thesis
  proof (cases "?n \<noteq> [] \<and> 1 \<le> k \<and> k \<le> int (length ?os)")
    case False
    then have "find_anchor lines anchor k = None" by (auto simp: find_anchor_def Let_def)
    then show ?thesis using False by auto
  next
    case True
    obtain li p where h: "?os ! nat (k - 1) = (li, p)" by fastforce
    have "nat (k - 1) < length ?os" using True by auto
    then have m: "(li, p) \<in> set ?os" using h by (metis nth_mem)
    note o1 = occ [OF m]
    obtain x0 x1 t b where bb: "bbox_from_charspan li p (p + length ?n) = Some (x0, x1, t, b)" using o1 True by (metis option.exhaust prod_cases4)
    have fa: "find_anchor lines anchor k = Some (ln_page li, x0 / ln_W li, t / ln_H li, (x1 - x0) / ln_W li, (b - t) / ln_H li)"
      using True h bb by (auto simp: find_anchor_def Let_def)
    have cov: "x0 \<le> wd_x0 (ln_words li ! i) \<and> wd_x1 (ln_words li ! i) \<le> x1 \<and> t \<le> wd_top (ln_words li ! i) \<and> wd_bottom (ln_words li ! i) \<le> b"
      if "p \<le> q \<and> q < p + length ?n \<and> ln_chars li ! q = Some i" for q i
      using that o1 by (intro bbox_covers [OF bb]) (auto simp: words_in_iff)
    show ?thesis using True fa h o1 cov by auto
  qed
qed

section \<open>Detection adds, once\<close>

definition box_in_page :: "real \<times> real \<times> real \<times> real \<Rightarrow> bool" where
  "box_in_page b = (case b of (x, y, bw, bh) \<Rightarrow> in_page x y bw bh)"

definition scan_ok :: "detected list \<Rightarrow> bool" where
  "scan_ok out = (distinct (map de_key out) \<and> length out \<le> MAX_DETECTED \<and> (\<forall>d \<in> set out. box_in_page (de_box d)))"

lemma emit_in_page: "box_in_page (de_box (emit_field li key prompt bb ov))"
proof -
  obtain x0 x1 tp bt where bb: "bb = (x0, x1, tp, bt)" by (cases bb)
  show ?thesis
    unfolding bb emit_field_def box_in_page_def Let_def prod.case detected.select_convs
    by (rule in_page_round) (rule min.cobounded2)+
qed

lemma emit_key [simp]: "de_key (emit_field li key prompt bb ov) = key"
  by (simp add: emit_field_def Let_def split: prod.splits)

lemma scan_ok_snoc:
  "scan_ok out \<Longrightarrow> \<not> MAX_DETECTED \<le> length out \<Longrightarrow> \<not> has_key out key \<Longrightarrow> scan_ok (out @ [emit_field li key prompt bb ov])"
  using emit_in_page by (auto simp: scan_ok_def has_key_def)

lemma token_step_ok:
  assumes "scan_ok (fst st)"
  shows "scan_ok (fst (token_step li m st))"
proof -
  obtain out occ where st: "st = (out, occ)" by (cases st)
  obtain t stretch where m: "m = (t, stretch)" by (cases m)
  show ?thesis
  proof (cases "MAX_DETECTED \<le> length out \<or> slug t = [] \<or> has_key out (slug t) \<or> overlaps stretch occ")
    case True
    then show ?thesis using assms by (simp only: st m token_step_def Let_def prod.case if_True)
  next
    case False
    then have k: "\<not> MAX_DETECTED \<le> length out" "\<not> has_key out (slug t)" by auto
    have ok: "scan_ok (out @ [emit_field li (slug t) prompt bb ov])" for prompt bb ov
      using assms by (intro scan_ok_snoc k) (simp add: st)
    show ?thesis
      unfolding st m token_step_def Let_def prod.case if_not_P [OF False]
      using assms ok by (simp add: st split: option.split del: not_None_eq)
  qed
qed

lemma label_step_ok:
  assumes "scan_ok (fst st)"
  shows "scan_ok (fst (label_step li label st))"
proof -
  obtain out occ where st: "st = (out, occ)" by fastforce
  show ?thesis
  proof (cases "MAX_DETECTED \<le> length out \<or> has_key out (slug label)")
    case True
    then show ?thesis using assms by (simp only: st label_step_def Let_def prod.case if_True)
  next
    case False
    then have k: "\<not> MAX_DETECTED \<le> length out" "\<not> has_key out (slug label)" by auto
    have ok: "scan_ok (out @ [emit_field li (slug label) prompt bb ov])" for prompt bb ov
      using assms by (intro scan_ok_snoc k) (simp add: st)
    show ?thesis
      unfolding st label_step_def Let_def prod.case if_not_P [OF False]
      using assms ok by (simp add: st split: option.split del: not_None_eq)
  qed
qed

lemma fold_inv: "(\<And>x st. P st \<Longrightarrow> P (f x st)) \<Longrightarrow> P st \<Longrightarrow> P (fold f xs st)"
  by (induction xs arbitrary: st) auto

lemma detect_ok: "scan_ok (detect_prefill_fields ext data)"
proof -
  have l: "scan_ok (line_step li out)" if "scan_ok out" for li out
    unfolding line_step_def using that
    by (intro fold_inv [where P = "\<lambda>st. scan_ok (fst st)"] token_step_ok label_step_ok) simp_all
  have "scan_ok []" by (simp add: scan_ok_def)
  then have "scan_ok (fold line_step lines [])" for lines by (rule fold_inv [where P = scan_ok, rotated]) (rule l)
  with \<open>scan_ok []\<close> show ?thesis by (simp add: detect_prefill_fields_def split: option.split)
qed

text \<open>What a field is to its reader: everything but its id and the signing record.\<close>

definition layout_of :: "field \<Rightarrow> field" where
  "layout_of f = f\<lparr>f_id := 0, f_adopted_at := JNull, f_method := []\<rparr>"

lemma field_of_stored:
  assumes "field_of_dict eng aid fid (dict_of_field f) = Inr g" and "f_agr f = aid"
  shows "layout_of g = layout_of f"
proof -
  have t: "db_text eng (JStr x) = Inr x" for x by (simp add: db_text_def)
  have v: "str_or_empty eng (JStr x) = x" for x by (simp add: str_or_empty_def)
  have vt: "value_text eng (dict_of_field f) = f_value f"
    by (cases "f_value f") (simp_all add: value_text_def dict_of_field_def str_or_empty_def jget_def)
  have p: "bind_int (jint (JInt i)) = Inr j \<Longrightarrow> j = i" for i j by (auto simp: bind_int_def split: if_splits)
  have d: "db_int (case x of None \<Rightarrow> JNull | Some i \<Rightarrow> JInt i) = Inr y \<Longrightarrow> y = x" for x y
    by (auto simp: db_int_def split: option.splits if_splits)
  obtain sid page where h: "db_int (case f_signer f of None \<Rightarrow> JNull | Some i \<Rightarrow> JInt i) = Inr sid"
      "bind_int (jint (JInt (f_page f))) = Inr page"
      "g = \<lparr>f_id = fid, f_agr = aid, f_signer = sid, f_type = f_type f, f_page = page, f_x = f_x f, f_y = f_y f,
            f_w = f_w f, f_h = f_h f, f_required = truthy (JInt (if f_required f then 1 else 0)),
            f_value = f_value f, f_placeholder = f_placeholder f, f_prefill = truthy (JInt (if f_prefill f then 1 else 0)),
            f_prompt = f_prompt f, f_key = f_key f, f_adopted_at = JNull, f_method = []\<rparr>"
    using assms(1) unfolding field_of_dict_def vt
    by (simp only: dict_of_field_def jget_simps try_bind_eq_Inr t v jfloat.simps char.inject list.inject) (elim exE conjE, simp add: t)
  then show ?thesis using p [OF h(2)] d [OF h(1)] assms(2) by (cases f) (simp add: layout_of_def)
qed

lemma field_of_detected:
  "field_of_dict eng aid fid (dict_of_detected d) = Inr g \<Longrightarrow>
   f_key g = de_key d \<and> f_prefill g \<and> f_required g \<and> f_type g = de_type d \<and> f_page g = de_page d \<and> f_signer g = None \<and> f_value g = [] \<and>
   (f_x g, f_y g, f_w g, f_h g) = de_box d"
  by (cases "de_box d") (auto simp: dict_of_detected_def field_of_dict_def try_bind_eq_Inr db_int_def db_text_def bind_int_def
      value_text_def str_or_empty_def jget_def split: if_splits)

lemma new_detected_fresh:
  "d \<in> set (new_detected fs ds) \<Longrightarrow> de_key d \<notin> set (map f_key (filter f_prefill fs))"
  unfolding new_detected_def by simp

text \<open>Detection only adds, and only once: the stored fields keep their signer, place, type, value and texts, in
  order, and are followed by the added ones, at most forty, on their page, each with a key that no
  pre-filled field had; no other agreement's field and no other table is touched; and asking again adds
  nothing.\<close>

theorem autodetect_keeps:
  assumes "autodetect_prefill_owned eng ext aid owner w = (DtOk n added, w')"
  shows "map layout_of (take (length (agr_fields w aid)) (agr_fields w' aid)) = map layout_of (agr_fields w aid) \<and>
    map f_key (drop (length (agr_fields w aid)) (agr_fields w' aid)) = map de_key added \<and>
    length (agr_fields w' aid) = length (agr_fields w aid) + length added \<and>
    length added \<le> MAX_DETECTED \<and> distinct (map de_key added) \<and> (\<forall>d \<in> set added. box_in_page (de_box d)) \<and>
    (\<forall>f \<in> set (agr_fields w aid). f_prefill f \<longrightarrow> f_key f \<notin> set (map de_key added)) \<and>
    filter (\<lambda>f. f_agr f \<noteq> aid) (field_rows w') = filter (\<lambda>f. f_agr f \<noteq> aid) (field_rows w) \<and>
    w'\<lparr>field_rows := field_rows w, next_fld := next_fld w\<rparr> = w \<and>
    autodetect_prefill_owned eng ext aid owner w' = (DtOk n [], w')"
proof -
  obtain a v data where v: "get_agreement_owned w aid owner = Some v" and st: "a_status (v_row v) \<in> {Draft, NoStatus}"
      and d: "source_bytes w (v_row v) = Some data" and n: "n = length (detect_prefill_fields ext data)"
      and ad: "added = new_detected (v_fields v) (detect_prefill_fields ext data)"
    using assms by (auto simp: autodetect_prefill_owned_def Let_def split: option.splits if_splits prod.splits set_result.splits)
  have vw: "get_agreement w aid = Some v" using v by (auto simp: get_agreement_owned_def split: if_splits option.splits)
  then have vf: "v_fields v = agr_fields w aid" by (auto simp: get_agreement_def split: option.splits)
  have ok: "scan_ok added"
    using detect_ok [of ext data] by (auto simp: ad new_detected_def scan_ok_def distinct_map_filter intro: order_trans [OF length_filter_le])
  have fresh: "\<forall>f \<in> set (agr_fields w aid). f_prefill f \<longrightarrow> f_key f \<notin> set (map de_key added)"
  proof (intro ballI impI)
    fix f assume f: "f \<in> set (agr_fields w aid)" "f_prefill f"
    then have k: "f_key f \<in> set (map f_key (filter f_prefill (v_fields v)))" by (simp add: vf)
    show "f_key f \<notin> set (map de_key added)"
    proof
      assume "f_key f \<in> set (map de_key added)"
      then obtain d where "d \<in> set added" "f_key f = de_key d" by (metis imageE set_map)
      then show False using new_detected_fresh k unfolding ad by metis
    qed
  qed
  have again: "autodetect_prefill_owned eng ext aid owner w1 = (DtOk n [], w1)"
    if e: "w1\<lparr>field_rows := field_rows w, next_fld := next_fld w\<rparr> = w"
      and k: "\<forall>d \<in> set (detect_prefill_fields ext data). de_key d \<noteq> [] \<longrightarrow> (\<exists>f \<in> set (agr_fields w1 aid). f_prefill f \<and> f_key f = de_key d)" for w1
  proof -
    have q: "agreement_rows w1 = agreement_rows w" "signer_rows w1 = signer_rows w" "event_rows w1 = event_rows w" "files w1 = files w"
      using arg_cong [OF e, of agreement_rows] arg_cong [OF e, of signer_rows] arg_cong [OF e, of event_rows] arg_cong [OF e, of files] by simp_all
    have v1: "get_agreement_owned w1 aid owner = Some (v\<lparr>v_fields := agr_fields w1 aid\<rparr>)"
      using v vw by (auto simp: get_agreement_owned_def get_agreement_def agr_row_def agr_signers_def agr_events_def q split: if_splits option.splits)
    have "new_detected (agr_fields w1 aid) (detect_prefill_fields ext data) = []"
      using k by (force simp: new_detected_def filter_empty_conv)
    then show ?thesis using st d v1 n by (simp add: autodetect_prefill_owned_def source_bytes_def q)
  qed
  show ?thesis
  proof (cases "added = []")
    case True
    then have w': "w' = w" using assms v st d ad by (auto simp: autodetect_prefill_owned_def Let_def)
    have "autodetect_prefill_owned eng ext aid owner w = (DtOk n [], w)" using assms True w' by simp
    then show ?thesis using True w' ok by (simp add: scan_ok_def)
  next
    case False
    obtain r1 where s: "set_fields eng aid (map dict_of_field (v_fields v) @ map dict_of_detected added) w = (r1, w')" "r1 \<noteq> SetRaise"
      using assms v st d ad False by (auto simp: autodetect_prefill_owned_def Let_def split: prod.splits set_result.splits)
    have "r1 \<noteq> SetLocked" using s st vw by (auto simp: set_fields_def locked_def Let_def split: if_splits sum.splits)
    from set_fields_stored [OF s(1) this s(2)] obtain fs where fs: "agr_fields w' aid = fs"
        "length fs = length (agr_fields w aid) + length added"
        "\<And>k. k < length (agr_fields w aid) + length added \<Longrightarrow>
           field_of_dict eng aid (next_fld w + int k) ((map dict_of_field (v_fields v) @ map dict_of_detected added) ! k) = Inr (fs ! k)"
        "field_rows w' = filter (\<lambda>f. f_agr f \<noteq> aid) (field_rows w) @ fs"
        "w'\<lparr>field_rows := field_rows w, next_fld := next_fld w\<rparr> = w" by (auto simp: vf)
    have old: "layout_of (fs ! k) = layout_of (agr_fields w aid ! k)" if "k < length (agr_fields w aid)" for k
    proof -
      have "f_agr (agr_fields w aid ! k) = aid" using nth_mem [OF that] by (simp add: agr_fields_def)
      with fs(3) [of k] that show ?thesis by (auto simp: nth_append vf intro: field_of_stored)
    qed
    have new: "f_key (fs ! (length (agr_fields w aid) + k)) = de_key (added ! k) \<and> f_prefill (fs ! (length (agr_fields w aid) + k))"
      if "k < length added" for k
      using field_of_detected [of eng aid _ "added ! k"] fs(3) [of "length (agr_fields w aid) + k"] that by (auto simp: nth_append vf)
    have "map layout_of (take (length (agr_fields w aid)) fs) = map layout_of (agr_fields w aid)"
      by (rule nth_equalityI) (simp_all add: fs(2) old)
    moreover have "map f_key (drop (length (agr_fields w aid)) fs) = map de_key added"
      by (rule nth_equalityI) (simp_all add: fs(2) new)
    moreover have "filter (\<lambda>f. f_agr f \<noteq> aid) (field_rows w') = filter (\<lambda>f. f_agr f \<noteq> aid) (field_rows w)"
      using fs(1) by (simp add: fs(4) filter_empty_conv) (auto simp: agr_fields_def)
    moreover have "autodetect_prefill_owned eng ext aid owner w' = (DtOk n [], w')"
    proof (rule again [OF fs(5)], intro ballI impI)
      fix d assume m: "d \<in> set (detect_prefill_fields ext data)" "de_key d \<noteq> []"
      show "\<exists>f \<in> set (agr_fields w' aid). f_prefill f \<and> f_key f = de_key d"
      proof (cases "de_key d \<in> set (map f_key (filter f_prefill (agr_fields w aid)))")
        case True
        then obtain k where k: "k < length (agr_fields w aid)" "f_prefill (agr_fields w aid ! k)" "f_key (agr_fields w aid ! k) = de_key d"
          by (auto simp: in_set_conv_nth)
        have "layout_of (fs ! k) = layout_of (agr_fields w aid ! k)" by (rule old [OF k(1)])
        then have "f_prefill (layout_of (fs ! k)) = f_prefill (layout_of (agr_fields w aid ! k))"
            "f_key (layout_of (fs ! k)) = f_key (layout_of (agr_fields w aid ! k))" by simp_all
        then have "f_prefill (fs ! k) \<and> f_key (fs ! k) = de_key d" using k by (simp add: layout_of_def)
        then show ?thesis using k(1) fs(1,2) by (intro bexI [of _ "fs ! k"]) simp_all
      next
        case False
        then have "d \<in> set added" using m by (simp add: ad new_detected_def vf)
        then obtain k where k: "k < length added" "added ! k = d" by (auto simp: in_set_conv_nth)
        then show ?thesis using new [OF k(1)] fs(1,2) by (intro bexI [of _ "fs ! (length (agr_fields w aid) + k)"]) simp_all
      qed
    qed
    ultimately show ?thesis using fs(1,2,5) ok fresh by (simp add: scan_ok_def)
  qed
qed


section \<open>Witnesses\<close>

text \<open>A page that reads \<open>Sign here: {{Name}}\<close>, and one request for a field at its anchor, one by coordinates.\<close>

definition sign_here :: extractor where
  "sign_here b = Some [\<lparr>pt_width = 600, pt_height = 800, pt_words = Some
     [\<lparr>wd_text = ''Sign'', wd_x0 = 60, wd_x1 = 90, wd_top = 80, wd_bottom = 90\<rparr>,
      \<lparr>wd_text = ''here:'', wd_x0 = 96, wd_x1 = 120, wd_top = 80, wd_bottom = 90\<rparr>,
      \<lparr>wd_text = ''{{Name}}'', wd_x0 = 300, wd_x1 = 360, wd_top = 80, wd_bottom = 90\<rparr>]\<rparr>]"

definition by_coordinates :: json where
  "by_coordinates = JObj [(''page'', JInt 0), (''x'', JInt 0), (''y'', JInt 0)]"

lemma by_coordinates_placed:
  "case fst (place_fields ref_engine sign_here 1 (JList [by_coordinates]) sample_world) of PlOk n rep \<Rightarrow> n = 1 | _ \<Rightarrow> False"
  by code_simp

lemma place_fields_reported_witness:
  "\<exists>rep w'. place_fields ref_engine sign_here 1 (JList [by_coordinates]) sample_world = (PlOk 1 rep, w') \<and>
     length (agr_fields w' 1) = 1 \<and> (\<forall>f \<in> set (agr_fields w' 1). in_page (f_x f) (f_y f) (f_w f) (f_h f))"
proof -
  obtain r w' where e: "place_fields ref_engine sign_here 1 (JList [by_coordinates]) sample_world = (r, w')" by fastforce
  with by_coordinates_placed obtain rep where r: "r = PlOk 1 rep" by (auto split: place_result.splits)
  note k = place_fields_reported [OF e]
  have l: "length (agr_fields w' 1) = 1" using k r by blast
  have "in_page (f_x f) (f_y f) (f_w f) (f_h f)" if f: "f \<in> set (agr_fields w' 1)" for f
  proof -
    have "f = agr_fields w' 1 ! 0" using f l by (auto simp: length_Suc_conv)
    moreover have "\<forall>i < 1. let f = agr_fields w' 1 ! i in in_page (f_x f) (f_y f) (f_w f) (f_h f)"
      using k r unfolding Let_def by blast
    ultimately show ?thesis by (simp add: Let_def)
  qed
  with e r l show ?thesis by blast
qed

lemma sign_here_lines:
  "case anchor_hits sign_here [] of Some [li] \<Rightarrow> ln_text li = ''sign here: {{name}}'' | _ \<Rightarrow> False"
  by code_simp

lemma sign_here_needle:
  "anchor_needle ''Sign  here'' = ''sign here''"
  "length (anchor_occurrences (the (anchor_hits sign_here [])) ''sign here'') = 1"
  by code_simp+

lemma anchor_found_witness:
  "find_anchor (the (anchor_hits sign_here [])) ''Sign  here'' 1 \<noteq> None \<and>
   find_anchor (the (anchor_hits sign_here [])) ''Sign  here'' 2 = None"
proof -
  have e: "anchor_hits sign_here [] = Some (the (anchor_hits sign_here []))"
    using sign_here_lines by (auto split: option.splits)
  show ?thesis
    using anchor_found [OF e, of "''Sign  here''" 1, THEN conjunct1] anchor_found [OF e, of "''Sign  here''" 2, THEN conjunct1]
    by (simp only: sign_here_needle) (simp del: not_None_eq)
qed

lemma detected_once:
  "case fst (autodetect_prefill_owned ref_engine sign_here 1 7 sample_world) of DtOk n added \<Rightarrow> n = 1 \<and> length added = 1 | _ \<Rightarrow> False"
  by code_simp

lemma autodetect_keeps_witness:
  "\<exists>added w'. autodetect_prefill_owned ref_engine sign_here 1 7 sample_world = (DtOk 1 added, w') \<and>
     length (agr_fields w' 1) = length (agr_fields sample_world 1) + 1 \<and>
     autodetect_prefill_owned ref_engine sign_here 1 7 w' = (DtOk 1 [], w')"
proof -
  obtain r w' where e: "autodetect_prefill_owned ref_engine sign_here 1 7 sample_world = (r, w')" by fastforce
  with detected_once obtain added where r: "r = DtOk 1 added" and l: "length added = 1" by (auto split: detect_result.splits)
  note k = autodetect_keeps [OF e [unfolded r]]
  have "length (agr_fields w' 1) = length (agr_fields sample_world 1) + 1" using k l by metis
  moreover have "autodetect_prefill_owned ref_engine sign_here 1 7 w' = (DtOk 1 [], w')" using k by blast
  ultimately show ?thesis using e r by blast
qed

end
