(* ===== verification/Tenancy.thy ===== *)
theory Tenancy
  imports Lifecycle Placement
begin

text \<open>
  What an operation of the engine may write when it works on one agreement. \<open>schema_ok\<close> is the typing
  of the database: primary keys are unique and below their counters, every child row belongs to a stored
  agreement, and the file columns hold the agreement's own paths. \<open>others aid\<close> is everything outside one
  agreement. Every operation of \<open>sign/esign.py\<close> that the product API calls keeps both, which is proved
  operation by operation over the few primitives they are made of.
\<close>

section \<open>The typed database\<close>

definition own_files :: "int \<Rightarrow> string set" where
  "own_files aid = {source_path aid, frozen_path aid, executed_path aid}"

definition path_ok :: "agreement \<Rightarrow> bool" where
  "path_ok a =
     (a_source_path a \<in> {[], source_path (a_id a)} \<and> a_frozen_path a \<in> {[], frozen_path (a_id a)} \<and>
      a_executed_path a \<in> {[], executed_path (a_id a)})"

definition agr_ids :: "world \<Rightarrow> int set" where
  "agr_ids w = a_id ` set (agreement_rows w)"

definition schema_ok :: "world \<Rightarrow> bool" where
  "schema_ok w =
     (unique_agr w \<and> unique_sig w \<and> unique_fld w \<and> distinct (map t_id (template_rows w)) \<and>
      (\<forall>a \<in> set (agreement_rows w). a_id a < next_agr w \<and> path_ok a) \<and>
      (\<forall>s \<in> set (signer_rows w). s_id s < next_sig w \<and> s_agr s \<in> agr_ids w) \<and>
      (\<forall>f \<in> set (field_rows w). f_id f < next_fld w \<and> f_agr f \<in> agr_ids w) \<and>
      (\<forall>e \<in> set (event_rows w). e_agr e \<in> agr_ids w) \<and>
      (\<forall>t \<in> set (template_rows w). t_id t < next_tpl w \<and> t_source_path t \<in> {[], tpl_path (t_id t)}))"

definition hide_files :: "string set \<Rightarrow> (string \<Rightarrow> bytes option) \<Rightarrow> string \<Rightarrow> bytes option" where
  "hide_files ps fs = (\<lambda>p. if p \<in> ps then None else fs p)"

lemma hide_files_upd [simp]: "p \<in> ps \<Longrightarrow> hide_files ps (fs(p := v)) = hide_files ps fs"
  by (auto simp: hide_files_def)

text \<open>Everything that is not one agreement's: the counters are shared and left out.\<close>

definition others :: "int \<Rightarrow> world \<Rightarrow> world" where
  "others aid w =
     w\<lparr>agreement_rows := filter (\<lambda>a. a_id a \<noteq> aid) (agreement_rows w),
       signer_rows := filter (\<lambda>s. s_agr s \<noteq> aid) (signer_rows w),
       field_rows := filter (\<lambda>f. f_agr f \<noteq> aid) (field_rows w),
       event_rows := filter (\<lambda>e. e_agr e \<noteq> aid) (event_rows w),
       outbox := filter (\<lambda>m. m_agr m \<noteq> aid) (outbox w), hooks := filter (\<lambda>h. h_agr h \<noteq> aid) (hooks w),
       files := hide_files (own_files aid) (files w), next_sig := 0, next_fld := 0\<rparr>"

text \<open>The agreement is stored, belongs to \<open>ow\<close>, and the rest of the world is \<open>W\<close>.\<close>

definition mine :: "int \<Rightarrow> int option \<Rightarrow> world \<Rightarrow> world \<Rightarrow> bool" where
  "mine aid ow W w = (schema_ok w \<and> (\<exists>a. agr_row w aid = Some a \<and> a_owner a = ow) \<and> others aid w = W)"

definition keeps :: "int \<Rightarrow> (agreement \<Rightarrow> agreement) \<Rightarrow> bool" where
  "keeps aid g =
     (\<forall>a. a_id (g a) = a_id a \<and> a_owner (g a) = a_owner a \<and> (a_id a = aid \<longrightarrow> path_ok a \<longrightarrow> path_ok (g a)))"

section \<open>The primitives\<close>

lemma filter_upd_other:
  "(\<And>x. key (f x) = key x) \<Longrightarrow> (\<And>x. x \<in> set xs \<Longrightarrow> P x \<Longrightarrow> key x = k) \<Longrightarrow>
   filter (\<lambda>x. key x \<noteq> k) (upd_where P f xs) = filter (\<lambda>x. key x \<noteq> k) xs"
  by (induction xs) (auto simp: upd_where_def)

lemma map_upd_key: "(\<And>x. key (f x) = key x) \<Longrightarrow> map key (upd_where P f xs) = map key xs"
  by (induction xs) (auto simp: upd_where_def)

lemma agr_ids_simps [simp]:
  "agr_ids (log_event aid ty sid ip ua d t w) = agr_ids w"
  "agr_ids (upd_sig i f w) = agr_ids w" "agr_ids (emit ev aid sid ow w) = agr_ids w"
  "agr_ids (send_mail to k aid url w) = agr_ids w" "agr_ids (write_file p d w) = agr_ids w"
  "agr_ids (w\<lparr>field_rows := fs\<rparr>) = agr_ids w" "agr_ids (w\<lparr>field_rows := fs, next_fld := n\<rparr>) = agr_ids w"
  "agr_ids (w\<lparr>signer_rows := ss, next_sig := n\<rparr>) = agr_ids w"
  by (simp_all add: agr_ids_def)

lemma agr_row_ids: "agr_row w aid = Some a \<Longrightarrow> aid \<in> agr_ids w"
  unfolding agr_ids_def using agr_row_mem [of w aid a] agr_row_id [of w aid a] by blast

lemma agr_row_mine: "mine aid ow W w \<Longrightarrow> aid \<in> agr_ids w"
  unfolding mine_def using agr_row_ids by blast

lemmas unique_defs = unique_agr_def unique_sig_def unique_fld_def

lemma others_effects [simp]:
  "others aid (log_event aid ty sid ip ua d t w) = others aid w"
  "others aid (emit ev aid sid o1 w) = others aid w"
  "others aid (send_mail to k aid url w) = others aid w"
  by (simp_all add: others_def log_event_def emit_def send_mail_def)

lemma others_write: "p \<in> own_files aid \<Longrightarrow> others aid (write_file p d w) = others aid w"
  by (simp add: others_def write_file_def)

lemma schema_effects:
  "schema_ok w \<Longrightarrow> aid \<in> agr_ids w \<Longrightarrow> schema_ok (log_event aid ty sid ip ua d t w)"
  "schema_ok (emit ev aid sid o1 w) = schema_ok w" "schema_ok (send_mail to k aid url w) = schema_ok w"
  "schema_ok (write_file p d w) = schema_ok w"
  by (auto simp: schema_ok_def unique_defs log_event_def emit_def send_mail_def write_file_def agr_ids_def)

lemma agr_row_effects [simp]:
  "agr_row (log_event i ty sid ip ua d t w) aid = agr_row w aid"
  "agr_row (emit ev i sid o1 w) aid = agr_row w aid" "agr_row (send_mail to k i url w) aid = agr_row w aid"
  "agr_row (write_file p d w) aid = agr_row w aid" "agr_row (upd_sig i f w) aid = agr_row w aid"
  by (simp_all add: agr_row_def)

lemma mine_event: "mine aid ow W w \<Longrightarrow> mine aid ow W (log_event aid ty sid ip ua d t w)"
  using agr_row_mine [of aid ow W w] by (simp add: mine_def schema_effects)

lemma mine_effects [simp]:
  "mine aid ow W (emit ev aid sid o1 w) = mine aid ow W w"
  "mine aid ow W (send_mail to k aid url w) = mine aid ow W w"
  "p \<in> own_files aid \<Longrightarrow> mine aid ow W (write_file p d w) = mine aid ow W w"
  by (simp_all add: mine_def schema_effects others_write)

lemma mine_agr_if:
  assumes m: "mine aid ow W w" and g: "keeps aid g"
  shows "mine aid ow W (upd_agr_if aid P g w)"
proof -
  have k: "a_id (g a) = a_id a" "a_owner (g a) = a_owner a" "a_id a = aid \<Longrightarrow> path_ok a \<Longrightarrow> path_ok (g a)" for a
    using g by (auto simp: keeps_def)
  have i: "map a_id (upd_where Q g xs) = map a_id xs" for Q xs by (rule map_upd_key) (rule k)
  have j: "agr_ids (upd_agr_if aid P g w) = agr_ids w"
    using arg_cong [OF i [of _ "agreement_rows w"], of set] by (simp add: agr_ids_def upd_agr_if_def)
  obtain a where a: "agr_row w aid = Some a" "a_owner a = ow" using m by (auto simp: mine_def)
  have "find (\<lambda>r. a_id r = aid) (upd_where Q g xs) = Some (if Q b then g b else b)"
    if "find (\<lambda>r. a_id r = aid) xs = Some b" for Q xs b
    using that by (induction xs) (auto simp: upd_where_def k split: if_splits)
  from this [OF a(1) [unfolded agr_row_def]] have "\<exists>b. agr_row (upd_agr_if aid P g w) aid = Some b \<and> a_owner b = ow"
    using a by (auto simp: agr_row_def upd_agr_if_def k)
  moreover have "schema_ok (upd_agr_if aid P g w)"
  proof -
    have "a_id r < next_agr w \<and> path_ok r" if "r \<in> set (agreement_rows (upd_agr_if aid P g w))" for r
      using that m k by (auto simp: upd_agr_if_def set_upd_where mine_def schema_ok_def split: if_splits)
    moreover have "unique_agr (upd_agr_if aid P g w)" "unique_sig (upd_agr_if aid P g w)" "unique_fld (upd_agr_if aid P g w)"
      using m by (simp_all add: mine_def schema_ok_def unique_defs) (simp add: upd_agr_if_def i)
    ultimately show ?thesis using m unfolding schema_ok_def j by (simp add: mine_def schema_ok_def)
  qed
  moreover have "others aid (upd_agr_if aid P g w) = W"
    using m by (auto simp: mine_def others_def upd_agr_if_def k(1) intro!: world.equality filter_upd_other)
  ultimately show ?thesis by (simp add: mine_def)
qed

lemma mine_agr: "mine aid ow W w \<Longrightarrow> keeps aid g \<Longrightarrow> mine aid ow W (upd_agr aid g w)"
  using mine_agr_if [of aid ow W w g "\<lambda>_. True"] by (simp add: upd_agr_def upd_agr_if_def)

lemma mine_sig:
  assumes m: "mine aid ow W w" and s: "\<And>s. s \<in> set (signer_rows w) \<Longrightarrow> s_id s = sid \<Longrightarrow> s_agr s = aid"
    and g: "\<And>s. s_id (g s) = s_id s" "\<And>s. s_agr (g s) = s_agr s"
  shows "mine aid ow W (upd_sig sid g w)"
proof -
  have i: "map s_id (upd_where Q g xs) = map s_id xs" for Q xs by (rule map_upd_key) (rule g)
  have "filter (\<lambda>s. s_agr s \<noteq> aid) (upd_where (\<lambda>s. s_id s = sid) g (signer_rows w)) = filter (\<lambda>s. s_agr s \<noteq> aid) (signer_rows w)"
    using s by (intro filter_upd_other g) auto
  then have "others aid (upd_sig sid g w) = others aid w" by (simp add: others_def upd_sig_def)
  moreover have "schema_ok (upd_sig sid g w)"
  proof -
    have "s_id r < next_sig w \<and> s_agr r \<in> agr_ids w" if "r \<in> set (signer_rows (upd_sig sid g w))" for r
      using that m g by (auto simp: upd_sig_def set_upd_where mine_def schema_ok_def split: if_splits)
    moreover have "unique_agr (upd_sig sid g w)" "unique_sig (upd_sig sid g w)" "unique_fld (upd_sig sid g w)"
      using m by (simp_all add: mine_def schema_ok_def unique_defs) (simp add: upd_sig_def i)
    ultimately show ?thesis using m by (simp add: mine_def schema_ok_def)
  qed
  ultimately show ?thesis using m by (simp add: mine_def)
qed

lemma mine_fields:
  assumes m: "mine aid ow W w" and o: "filter (\<lambda>f. f_agr f \<noteq> aid) fs = filter (\<lambda>f. f_agr f \<noteq> aid) (field_rows w)"
    and d: "distinct (map f_id fs)" and n: "\<And>f. f \<in> set fs \<Longrightarrow> f_id f < n" and l: "next_fld w \<le> n"
  shows "mine aid ow W (w\<lparr>field_rows := fs, next_fld := n\<rparr>)"
proof -
  have "f_agr f \<in> agr_ids w" if "f \<in> set fs" for f
  proof (cases "f_agr f = aid")
    case False
    then have "f \<in> set (filter (\<lambda>f. f_agr f \<noteq> aid) fs)" using that by simp
    then show ?thesis unfolding o using m by (auto simp: mine_def schema_ok_def)
  qed (use agr_row_mine [OF m] in simp)
  then show ?thesis
    using m o d n by (auto simp: mine_def schema_ok_def others_def unique_agr_def unique_sig_def unique_fld_def agr_row_def)
qed

section \<open>Operations on a draft\<close>

lemma keeps_simps [simp]:
  "keeps aid (\<lambda>r. r\<lparr>a_doc_hash := h\<rparr>)" "keeps aid (\<lambda>r. r\<lparr>a_message := m\<rparr>)"
  "keeps aid (\<lambda>r. r\<lparr>a_order_mode := m\<rparr>)" "keeps aid (\<lambda>r. r\<lparr>a_edited_pages := g r\<rparr>)"
  "keeps aid (\<lambda>a. a\<lparr>a_frozen_path := frozen_path aid, a_frozen_hash := h\<rparr>)"
  "keeps aid (sent_row now)" "keeps aid void_row"
  by (auto simp: keeps_def path_ok_def sent_row_def void_row_def)

lemma mine_row: "mine aid ow W w \<Longrightarrow> agr_row w aid = Some a \<Longrightarrow> path_ok a \<and> a_id a = aid \<and> a_owner a = ow"
  using agr_row_mem [of w aid a] agr_row_id [of w aid a] by (auto simp: mine_def schema_ok_def)

lemma view_row: "get_agreement w aid = Some v \<Longrightarrow> agr_row w aid = Some (v_row v) \<and> a_id (v_row v) = aid"
  by (auto simp: get_agreement_view dest: agr_row_id)

lemma mine_map_fields:
  assumes "mine aid ow W w" and "\<And>f. P f \<Longrightarrow> f_agr f = aid" and "\<And>f. f_id (g f) = f_id f" "\<And>f. f_agr (g f) = f_agr f"
  shows "mine aid ow W (map_fields P g w)"
proof -
  have "mine aid ow W (w\<lparr>field_rows := upd_where P g (field_rows w), next_fld := next_fld w\<rparr>)"
  proof (rule mine_fields [OF assms(1)])
    show "filter (\<lambda>f. f_agr f \<noteq> aid) (upd_where P g (field_rows w)) = filter (\<lambda>f. f_agr f \<noteq> aid) (field_rows w)"
      by (rule filter_upd_other) (simp_all add: assms)
    show "distinct (map f_id (upd_where P g (field_rows w)))"
      using assms(1) by (simp add: map_upd_key [of f_id g, OF assms(3)] mine_def schema_ok_def unique_fld_def)
    show "f_id f < next_fld w" if "f \<in> set (upd_where P g (field_rows w))" for f
      using that assms(1,3) by (auto simp: set_upd_where mine_def schema_ok_def split: if_splits)
  qed simp
  then show ?thesis by (simp add: map_fields_def)
qed

lemma mine_drop_fields:
  assumes "mine aid ow W w" and "\<And>f. P f \<Longrightarrow> f_agr f = aid"
  shows "mine aid ow W (w\<lparr>field_rows := del_where P (field_rows w)\<rparr>)"
proof -
  have "mine aid ow W (w\<lparr>field_rows := del_where P (field_rows w), next_fld := next_fld w\<rparr>)"
  proof (rule mine_fields [OF assms(1)])
    show "filter (\<lambda>f. f_agr f \<noteq> aid) (del_where P (field_rows w)) = filter (\<lambda>f. f_agr f \<noteq> aid) (field_rows w)"
      using assms(2) by (auto simp: del_where_def filter_filter intro: filter_cong)
  qed (use assms(1) in \<open>auto simp: del_where_def distinct_map_filter mine_def schema_ok_def unique_fld_def\<close>)
  then show ?thesis by simp
qed

lemma mine_remap_edited: "mine aid ow W w \<Longrightarrow> mine aid ow W (remap_edited_pages aid m w)"
  by (simp add: remap_edited_pages_def mine_agr split: option.splits)

lemma mine_fold: "mine aid ow W w \<Longrightarrow> (\<And>x w. mine aid ow W w \<Longrightarrow> mine aid ow W (f x w)) \<Longrightarrow> mine aid ow W (fold f xs w)"
  by (induction xs arbitrary: w) simp_all

lemma mine_remaps:
  assumes "mine aid ow W w"
  shows "mine aid ow W (delete_remap aid p w)" "mine aid ow W (reorder_remap aid order w)"
    "mine aid ow W (note_edited_pages aid pages w)"
proof -
  show "mine aid ow W (delete_remap aid p w)"
    unfolding delete_remap_def by (intro mine_remap_edited mine_map_fields mine_drop_fields assms) simp_all
  have "mine aid ow W (fold (\<lambda>(old, k). map_fields (\<lambda>f. f_agr f = aid \<and> f_page f = old) (\<lambda>f. f\<lparr>f_page := k + 100000\<rparr>)) xs w)" for xs
    by (rule mine_fold [OF assms]) (clarsimp, rule mine_map_fields, simp_all)
  then show "mine aid ow W (reorder_remap aid order w)"
    unfolding reorder_remap_def by (intro mine_remap_edited mine_map_fields) simp_all
  show "mine aid ow W (note_edited_pages aid pages w)"
    unfolding note_edited_pages_def using assms by (intro mine_agr) simp_all
qed

lemma mine_rewrite:
  assumes "mine aid ow W w" and "draft_source w aid = Inr a" and "\<And>w. mine aid ow W w \<Longrightarrow> mine aid ow W (remap w)"
  shows "mine aid ow W (snd (rewrite_source eng now a new remap kind detail w))"
proof -
  have r: "agr_row w aid = Some a" "a_source_path a \<noteq> []"
    using assms(2) by (auto simp: draft_source_def dest!: view_row split: option.splits if_splits)
  then have "a_source_path a \<in> own_files aid" "a_id a = aid"
    using mine_row [OF assms(1) r(1)] by (auto simp: path_ok_def own_files_def)
  then have "mine aid ow W (remap (upd_agr (a_id a) (\<lambda>r. r\<lparr>a_doc_hash := en_sha256 eng new\<rparr>) (write_file (a_source_path a) new w)))"
    using assms(1) by (intro assms(3)) (simp add: mine_agr)
  then show ?thesis using \<open>a_id a = aid\<close> by (simp add: rewrite_source_def Let_def mine_event split: sum.splits)
qed

lemma mine_with_source:
  assumes "mine aid ow W w" and "\<And>a data n. draft_source w aid = Inr a \<Longrightarrow> mine aid ow W (snd (k a data n w))"
  shows "mine aid ow W (snd (with_source eng aid k w))"
  using assms by (auto simp: with_source_def split: sum.splits option.splits)

lemma rotate_box_keys: "f_id (rotate_box d f) = f_id f" "f_agr (rotate_box d f) = f_agr f"
  by (simp_all add: rotate_box_def Let_def)

lemma mine_page_ops:
  assumes "mine aid ow W w"
  shows "mine aid ow W (snd (delete_page eng now aid page w))"
    "mine aid ow W (snd (esign_reorder_pages eng now aid order w))"
    "mine aid ow W (snd (rotate_page eng now aid page deg w))"
    "mine aid ow W (snd (add_pages eng now aid extra w))"
    "mine aid ow W (snd (redact_regions eng now aid regions w))"
    "mine aid ow W (snd (add_texts eng now aid items w))"
    "mine aid ow W (snd (edit_texts eng now aid items w))"
proof -
  show "mine aid ow W (snd (delete_page eng now aid page w))"
    unfolding delete_page_def
    by (rule mine_with_source [OF assms]) (auto simp: assms intro!: mine_rewrite mine_remaps split: sum.splits)
  show "mine aid ow W (snd (esign_reorder_pages eng now aid order w))"
    unfolding esign_reorder_pages_def
    by (rule mine_with_source [OF assms]) (auto simp: assms intro!: mine_rewrite mine_remaps split: sum.splits)
  show "mine aid ow W (snd (rotate_page eng now aid page deg w))"
    unfolding rotate_page_def
    by (rule mine_with_source [OF assms])
      (auto simp: assms rotate_box_keys intro!: mine_rewrite mine_map_fields split: sum.splits)
  show "mine aid ow W (snd (add_pages eng now aid extra w))"
    by (auto simp: add_pages_def assms intro!: mine_rewrite split: sum.splits option.splits)
  show "mine aid ow W (snd (redact_regions eng now aid regions w))"
    by (auto simp: redact_regions_def assms intro!: mine_with_source mine_rewrite split: sum.splits)
  show "mine aid ow W (snd (add_texts eng now aid items w))"
    by (auto simp: add_texts_def assms intro!: mine_with_source mine_rewrite split: sum.splits edit_exc.splits py_exc.splits)
  show "mine aid ow W (snd (edit_texts eng now aid items w))"
    by (auto simp: edit_texts_def assms intro!: mine_with_source mine_rewrite mine_remaps
        split: sum.splits edit_exc.splits py_exc.splits)
qed

section \<open>Signers, fields and the message\<close>

lemma agr_row_locked: "mine aid ow W w \<Longrightarrow> locked w aid = (\<exists>a. agr_row w aid = Some a \<and> a_status a \<notin> {Draft, NoStatus})"
  by (auto simp: locked_def get_agreement_view mine_def split: option.splits)

lemma signers_of_dicts_keys:
  "signers_of_dicts eng aid i sid ds = Inr ss \<Longrightarrow>
   distinct (map s_id ss) \<and> (\<forall>s \<in> set ss. s_agr s = aid \<and> sid \<le> s_id s \<and> s_id s < sid + int (length ss))"
proof (induction ds arbitrary: i sid ss)
  case (Cons d ds)
  then obtain s ss' where s: "signer_of_dict eng aid i sid d = Inr s" "signers_of_dicts eng aid (Suc i) (sid + 1) ds = Inr ss'"
      "ss = s # ss'" by (auto simp: try_bind_eq_Inr)
  have "s_id s = sid \<and> s_agr s = aid" using s(1) by (auto simp: signer_of_dict_def try_bind_eq_Inr)
  with Cons.IH [OF s(2)] show ?case by (fastforce simp: s(3))
qed simp

lemma fields_of_dicts_keys:
  "fields_of_dicts eng aid fid ds = Inr fs \<Longrightarrow>
   distinct (map f_id fs) \<and> (\<forall>f \<in> set fs. f_agr f = aid \<and> fid \<le> f_id f \<and> f_id f < fid + int (length fs))"
proof (induction ds arbitrary: fid fs)
  case (Cons d ds)
  then obtain f fs' where f: "field_of_dict eng aid fid d = Inr f" "fields_of_dicts eng aid (fid + 1) ds = Inr fs'"
      "fs = f # fs'" by (auto simp: try_bind_eq_Inr)
  have "f_id f = fid \<and> f_agr f = aid" using f(1) by (auto simp: field_of_dict_def try_bind_eq_Inr)
  with Cons.IH [OF f(2)] show ?case by (fastforce simp: f(3))
qed simp

lemma mine_set_fields:
  assumes m: "mine aid ow W w"
  shows "mine aid ow W (snd (set_fields eng aid ds w))"
proof (cases "fields_of_dicts eng aid (next_fld w) ds")
  case (Inr fs)
  note k = fields_of_dicts_keys [OF Inr]
  have old: "f_id f < next_fld w" if "f \<in> set (field_rows w)" for f using m that by (simp add: mine_def schema_ok_def)
  have "mine aid ow W (w\<lparr>field_rows := del_where (\<lambda>f. f_agr f = aid) (field_rows w) @ fs, next_fld := next_fld w + int (length fs)\<rparr>)"
  proof (rule mine_fields [OF m])
    show "filter (\<lambda>f. f_agr f \<noteq> aid) (del_where (\<lambda>f. f_agr f = aid) (field_rows w) @ fs) = filter (\<lambda>f. f_agr f \<noteq> aid) (field_rows w)"
      using k by (simp add: del_where_def filter_empty_conv)
    show "distinct (map f_id (del_where (\<lambda>f. f_agr f = aid) (field_rows w) @ fs))"
      using k m old by (fastforce simp: del_where_def distinct_map_filter mine_def schema_ok_def unique_fld_def)
  qed (use k old in \<open>fastforce+\<close>)
  then show ?thesis using Inr m by (simp add: set_fields_def Let_def)
qed (use m in \<open>simp add: set_fields_def\<close>)

lemma mine_set_signers:
  assumes m: "mine aid ow W w"
  shows "mine aid ow W (snd (set_signers eng aid ds w))"
proof (cases "signers_of_dicts eng aid 0 (next_sig w) ds")
  case (Inr ss)
  note k = signers_of_dicts_keys [OF Inr]
  let ?w = "w\<lparr>signer_rows := del_where (\<lambda>s. s_agr s = aid) (signer_rows w) @ ss, next_sig := next_sig w + int (length ss)\<rparr>"
  have old: "s_id s < next_sig w" "s_agr s \<in> agr_ids w" if "s \<in> set (signer_rows w)" for s
    using m that by (auto simp: mine_def schema_ok_def)
  have "distinct (map s_id (signer_rows ?w))"
    using k m old by (fastforce simp: del_where_def distinct_map_filter mine_def schema_ok_def unique_sig_def)
  moreover have "s_id s < next_sig ?w \<and> s_agr s \<in> agr_ids w" if "s \<in> set (signer_rows ?w)" for s
    using that k old agr_row_mine [OF m] by fastforce
  ultimately have "schema_ok ?w" using m unfolding schema_ok_def by (simp add: mine_def schema_ok_def unique_defs)
  moreover have "others aid ?w = others aid w"
    using k by (simp add: others_def del_where_def filter_empty_conv)
  ultimately have "mine aid ow W ?w" using m by (simp add: mine_def agr_row_def)
  then show ?thesis using Inr m by (simp add: set_signers_def Let_def)
qed (use m in \<open>simp add: set_signers_def\<close>)

lemma mine_update_message: "mine aid ow W w \<Longrightarrow> mine aid ow W (update_message aid m w)"
  by (simp add: update_message_def mine_agr)

lemma mine_order_mode: "mine aid ow W w \<Longrightarrow> mine aid ow W (snd (set_order_mode_owned aid owner mode w))"
  by (simp add: set_order_mode_owned_def mine_agr split: option.split)

lemma mine_stored: "set_fields eng aid ds w = (r, w1) \<Longrightarrow> mine aid ow W w \<Longrightarrow> mine aid ow W w1"
  using mine_set_fields [of aid ow W w eng ds] by simp

lemma mine_place_fields: "mine aid ow W w \<Longrightarrow> mine aid ow W (snd (place_fields eng ext aid specs w))"
  by (auto simp: place_fields_def Let_def intro: mine_stored split: option.split json.split list.split sum.split place_fail.split prod.split set_result.split)

lemma mine_autodetect: "mine aid ow W w \<Longrightarrow> mine aid ow W (snd (autodetect_prefill_owned eng ext aid owner w))"
  by (auto simp: autodetect_prefill_owned_def Let_def intro: mine_stored split: option.split prod.split set_result.split)

section \<open>Sending, reminding, voiding\<close>

definition owns_sig :: "int \<Rightarrow> world \<Rightarrow> signer \<Rightarrow> bool" where
  "owns_sig aid w s = (\<forall>r \<in> set (signer_rows w). s_id r = s_id s \<longrightarrow> s_agr r = aid)"

lemma view_signers_own:
  assumes "schema_ok w" and "get_agreement w aid = Some v" and "s \<in> set (v_signers v)"
  shows "owns_sig aid w s"
proof -
  obtain r where r: "r \<in> set (signer_rows w)" "s_agr r = aid" "s_id r = s_id s"
    using assms(2,3) by (auto simp: get_agreement_def agr_signers_def strip_signer_secrets_def split: option.splits)
  show ?thesis unfolding owns_sig_def
  proof (intro ballI impI)
    fix q assume "q \<in> set (signer_rows w)" "s_id q = s_id s"
    moreover have "inj_on s_id (set (signer_rows w))"
      using assms(1) by (simp add: schema_ok_def unique_sig_def distinct_map)
    ultimately have "q = r" using r by (simp add: inj_on_def)
    then show "s_agr q = aid" using r by simp
  qed
qed

lemma mine_send_signer:
  assumes "mine aid ow W w" and "owns_sig aid w s"
  shows "mine aid ow W (send_signer now tok aid s w)" "owns_sig aid w r \<Longrightarrow> owns_sig aid (send_signer now tok aid s w) r"
proof -
  show "mine aid ow W (send_signer now tok aid s w)"
    unfolding send_signer_def using assms by (intro mine_event mine_sig) (auto simp: owns_sig_def)
  show "owns_sig aid w r \<Longrightarrow> owns_sig aid (send_signer now tok aid s w) r"
    by (auto simp: send_signer_def owns_sig_def upd_sig_def set_upd_where split: if_splits)
qed

lemma mine_send_signers:
  "mine aid ow W w \<Longrightarrow> (\<And>s. s \<in> set ss \<Longrightarrow> owns_sig aid w s) \<Longrightarrow> mine aid ow W (fold (send_signer now tok aid) ss w)"
proof (induction ss arbitrary: w)
  case (Cons s ss)
  show ?case using mine_send_signer [OF Cons.prems(1), of s] Cons by simp
qed simp

lemma mine_mail_links: "mine aid ow W w \<Longrightarrow> mine aid ow W (mail_links k aid ls w)"
  unfolding mail_links_def by (rule mine_fold) simp_all

lemma mine_send:
  assumes m: "mine aid ow W w"
  shows "mine aid ow W (snd (send eng now tok base aid w))"
proof -
  have "mine aid ow W (send_db eng now tok v src w)" if v: "get_agreement w aid = Some v" for v src
  proof -
    have i: "a_id (v_row v) = aid" using view_row [OF v] by simp
    have "owns_sig aid w s" if "s \<in> set (v_signers v)" for s
      using view_signers_own [OF _ v that] m by (simp add: mine_def)
    then have o: "owns_sig aid (write_file p d w) s" if "s \<in> set (v_signers v)" for s p d using that by (simp add: owns_sig_def)
    show ?thesis
      unfolding send_db_def Let_def i using m o
      by (intro mine_agr mine_event mine_send_signers) (simp_all add: own_files_def)
  qed
  then show ?thesis using m
    by (auto simp: send_def Let_def intro!: mine_event mine_mail_links split: option.split sum.split)
qed

lemma mine_remind: "mine aid ow W w \<Longrightarrow> mine aid ow W (snd (remind eng now base aid w))"
  by (auto simp: remind_def Let_def remind_one_def mine_event intro!: mine_fold split: option.split)

lemma mine_void: "mine aid ow W w \<Longrightarrow> mine aid ow W (snd (void now aid reason w))"
  by (simp add: void_def Let_def mine_event mine_agr)

section \<open>What a tenant owns\<close>

definition owned_ids :: "int \<Rightarrow> world \<Rightarrow> int set" where
  "owned_ids b w = set (map a_id (filter (\<lambda>a. a_owner a = Some b) (agreement_rows w)))"

definition owned_tpls :: "int \<Rightarrow> world \<Rightarrow> template list" where
  "owned_tpls b w = filter (\<lambda>t. t_owner t = Some b) (template_rows w)"

definition tenant_files :: "int \<Rightarrow> world \<Rightarrow> string \<Rightarrow> bytes option" where
  "tenant_files b w =
     hide_files (- (\<Union> (own_files ` owned_ids b w) \<union> tpl_path ` t_id ` set (owned_tpls b w))) (files w)"

definition tenant_view ::
  "int \<Rightarrow> world \<Rightarrow> agreement list \<times> signer list \<times> field list \<times> event list \<times> template list \<times> (string \<Rightarrow> bytes option)" where
  "tenant_view b w =
     (filter (\<lambda>a. a_owner a = Some b) (agreement_rows w), filter (\<lambda>s. s_agr s \<in> owned_ids b w) (signer_rows w),
      filter (\<lambda>f. f_agr f \<in> owned_ids b w) (field_rows w), filter (\<lambda>e. e_agr e \<in> owned_ids b w) (event_rows w),
      owned_tpls b w, tenant_files b w)"

lemma own_files_disjoint: "i \<noteq> j \<Longrightarrow> p \<in> own_files i \<Longrightarrow> p \<notin> own_files j"
  by (auto simp: own_files_def)

lemma tpl_path_own [simp]: "tpl_path t \<notin> own_files i"
  by (auto simp: own_files_def) (simp add: tpl_path_def source_path_def agr_path_def)

lemma tpl_path_inject [simp]: "tpl_path t = tpl_path u \<longleftrightarrow> t = u"
  using append_sep_inject [OF underscore_notin_py_str underscore_notin_py_str, of t "''source.pdf''" u "''source.pdf''"]
  by (simp add: tpl_path_def)

lemma filter_through: "(\<And>x. x \<in> set xs \<Longrightarrow> P x \<Longrightarrow> Q x) \<Longrightarrow> filter P xs = filter P (filter Q xs)"
  by (auto simp: filter_filter intro: filter_cong)

lemma hide_files_eq: "hide_files ps fs = hide_files ps gs \<Longrightarrow> p \<notin> ps \<Longrightarrow> fs p = gs p"
  by (drule fun_cong [of _ _ p]) (simp add: hide_files_def)

text \<open>What one agreement's operation leaves alone holds every other tenant's view.\<close>

lemma tenant_others:
  assumes o: "others aid w' = others aid w"
    and n: "aid \<notin> owned_ids b w" "aid \<notin> owned_ids b w'"
  shows "tenant_view b w' = tenant_view b w"
proof -
  have q: "filter (\<lambda>a. a_id a \<noteq> aid) (agreement_rows w') = filter (\<lambda>a. a_id a \<noteq> aid) (agreement_rows w)"
    "filter (\<lambda>s. s_agr s \<noteq> aid) (signer_rows w') = filter (\<lambda>s. s_agr s \<noteq> aid) (signer_rows w)"
    "filter (\<lambda>f. f_agr f \<noteq> aid) (field_rows w') = filter (\<lambda>f. f_agr f \<noteq> aid) (field_rows w)"
    "filter (\<lambda>e. e_agr e \<noteq> aid) (event_rows w') = filter (\<lambda>e. e_agr e \<noteq> aid) (event_rows w)"
    "hide_files (own_files aid) (files w') = hide_files (own_files aid) (files w)" "template_rows w' = template_rows w"
    using arg_cong [OF o, of agreement_rows] arg_cong [OF o, of signer_rows] arg_cong [OF o, of field_rows]
      arg_cong [OF o, of event_rows] arg_cong [OF o, of files] arg_cong [OF o, of template_rows]
    by (simp_all add: others_def)
  have t: "filter (\<lambda>a. a_owner a = Some b) (agreement_rows v) = filter (\<lambda>a. a_owner a = Some b) (filter (\<lambda>a. a_id a \<noteq> aid) (agreement_rows v))"
    if "aid \<notin> owned_ids b v" for v
    using that by (intro filter_through) (auto simp: owned_ids_def)
  have a: "filter (\<lambda>a. a_owner a = Some b) (agreement_rows w') = filter (\<lambda>a. a_owner a = Some b) (agreement_rows w)"
    using t [OF n(1)] t [OF n(2)] q(1) by simp
  then have i: "owned_ids b w' = owned_ids b w" by (simp add: owned_ids_def)
  have c: "filter (\<lambda>x. key x \<in> owned_ids b w) xs = filter (\<lambda>x. key x \<in> owned_ids b w) (filter (\<lambda>x. key x \<noteq> aid) xs)" for key and xs :: "'r list"
    using n(1) by (intro filter_through) auto
  have f: "files w' p = files w p" if "p \<notin> own_files aid" for p using hide_files_eq [OF q(5) that] .
  have "tenant_files b w' = tenant_files b w"
  proof (rule ext)
    fix p
    have "p \<notin> own_files aid" if "p \<in> \<Union> (own_files ` owned_ids b w) \<union> tpl_path ` t_id ` set (owned_tpls b w)"
    proof (rule UnE [OF that])
      assume "p \<in> \<Union> (own_files ` owned_ids b w)"
      then obtain i where "i \<in> owned_ids b w" "p \<in> own_files i" by blast
      then show ?thesis using n(1) own_files_disjoint [of i aid p] by metis
    qed auto
    then show "tenant_files b w' p = tenant_files b w p"
      using f unfolding tenant_files_def hide_files_def i owned_tpls_def q(6) Compl_iff by presburger
  qed
  then show ?thesis
    unfolding tenant_view_def i a owned_tpls_def q(6)
    using c [of s_agr "signer_rows w"] c [of s_agr "signer_rows w'"] c [of f_agr "field_rows w"] c [of f_agr "field_rows w'"]
      c [of e_agr "event_rows w"] c [of e_agr "event_rows w'"] q(2-4) by simp
qed

lemma owned_row: "schema_ok w \<Longrightarrow> agr_row w aid = Some a \<Longrightarrow> a_owner a \<noteq> Some b \<Longrightarrow> aid \<notin> owned_ids b w"
  using agr_row_mem [of w aid a] agr_row_id [of w aid a]
  by (auto simp: owned_ids_def schema_ok_def unique_agr_def distinct_map dest: inj_onD)

lemma mine_tenant:
  assumes "schema_ok w" and "agr_row w aid = Some a" and "mine aid (a_owner a) (others aid w) w'" and "a_owner a \<noteq> Some b"
  shows "tenant_view b w' = tenant_view b w \<and> schema_ok w'"
proof -
  obtain a' where "agr_row w' aid = Some a'" "a_owner a' = a_owner a" "schema_ok w'" "others aid w' = others aid w"
    using assms(3) by (auto simp: mine_def)
  then show ?thesis using assms owned_row [of w aid a b] owned_row [of w' aid a' b] tenant_others by metis
qed

text \<open>A step of one account: the database stays typed and no other tenant's view changes.\<close>

definition tenant_step :: "int \<Rightarrow> world \<Rightarrow> world \<Rightarrow> bool" where
  "tenant_step a w w' = (schema_ok w' \<and> (\<forall>b. b \<noteq> a \<longrightarrow> tenant_view b w' = tenant_view b w))"

lemma tstep_refl: "schema_ok w \<Longrightarrow> tenant_step a w w"
  by (simp add: tenant_step_def)

lemma tstep_trans: "tenant_step a w w1 \<Longrightarrow> tenant_step a w1 w2 \<Longrightarrow> tenant_step a w w2"
  by (simp add: tenant_step_def)

lemma tstep_mine:
  "schema_ok w \<Longrightarrow> agr_row w aid = Some r \<Longrightarrow> a_owner r = Some a \<Longrightarrow> mine aid (Some a) (others aid w) w' \<Longrightarrow> tenant_step a w w'"
  using mine_tenant [of w aid r w'] by (auto simp: tenant_step_def mine_def)

lemma mine_start: "schema_ok w \<Longrightarrow> agr_row w aid = Some r \<Longrightarrow> a_owner r = ow \<Longrightarrow> mine aid ow (others aid w) w"
  by (simp add: mine_def)

section \<open>New agreements and templates\<close>

lemma schema_ids:
  assumes "schema_ok w"
  shows "i \<in> agr_ids w \<Longrightarrow> i < next_agr w" "owned_ids b w \<subseteq> agr_ids w" "t \<in> set (template_rows w) \<Longrightarrow> t_id t < next_tpl w"
  using assms by (auto simp: schema_ok_def agr_ids_def owned_ids_def)

lemma tenant_fresh_file:
  assumes "schema_ok w" and "p \<in> own_files (next_agr w) \<or> p = tpl_path (next_tpl w)"
  shows "tenant_files b (write_file p d w) = tenant_files b w"
proof -
  have i: "p \<notin> own_files j" if "j \<in> owned_ids b w" for j
  proof -
    have "j < next_agr w" using schema_ids [OF assms(1)] that by blast
    then show ?thesis using assms(2) own_files_disjoint [of "next_agr w" j p] by auto
  qed
  have t: "p \<noteq> tpl_path (t_id t)" if "t \<in> set (owned_tpls b w)" for t
    using that assms(2) schema_ids(3) [OF assms(1), of t] by (auto simp: owned_tpls_def)
  have "owned_ids b (write_file p d w) = owned_ids b w" "owned_tpls b (write_file p d w) = owned_tpls b w"
    by (simp_all add: owned_ids_def owned_tpls_def)
  then show ?thesis using i t by (auto simp: tenant_files_def write_file_def intro!: hide_files_upd)
qed

lemma tstep_fresh_file:
  assumes "schema_ok w" and "p \<in> own_files (next_agr w) \<or> p = tpl_path (next_tpl w)"
  shows "tenant_step a w (write_file p d w)"
proof -
  have "owned_ids b (write_file p d w) = owned_ids b w" "owned_tpls b (write_file p d w) = owned_tpls b w" for b
    by (simp_all add: owned_ids_def owned_tpls_def)
  then show ?thesis
    using assms(1) tenant_fresh_file [OF assms] by (simp add: tenant_step_def schema_effects tenant_view_def)
qed

lemma tstep_new_row:
  assumes s: "schema_ok w" and r: "a_id r = next_agr w" "path_ok r" "a_owner r = Some a"
  shows "tenant_step a w (w\<lparr>agreement_rows := agreement_rows w @ [r], next_agr := next_agr w + 1\<rparr>)" (is "tenant_step a w ?w")
proof -
  have f: "a_id x < next_agr w" if "x \<in> set (agreement_rows w)" for x using s that by (simp add: schema_ok_def)
  have "schema_ok ?w"
    using s r f by (fastforce simp: schema_ok_def unique_defs agr_ids_def)
  moreover have "tenant_view b ?w = tenant_view b w" if "b \<noteq> a" for b
    using that r(3) by (simp add: tenant_view_def owned_ids_def owned_tpls_def tenant_files_def)
  ultimately show ?thesis by (simp add: tenant_step_def)
qed

lemma tstep_create:
  assumes s: "schema_ok w" and c: "create_agreement eng now env name pdf msg cb sd (Some a) w = (r, w')"
  shows "tenant_step a w w' \<and> (\<forall>aid. r = Some aid \<longrightarrow> (\<exists>row. agr_row w' aid = Some row \<and> a_owner row = Some a))"
proof -
  let ?w1 = "write_file (source_path (next_agr w)) pdf w"
  have w1: "tenant_step a w ?w1" by (rule tstep_fresh_file [OF s]) (simp add: own_files_def)
  then have s1: "schema_ok ?w1" by (simp add: tenant_step_def)
  show ?thesis
  proof (cases "en_page_count eng pdf")
    case None
    then show ?thesis using c w1 by (auto simp: create_agreement_def Let_def)
  next
    case (Some n)
    define row where "row = (new_agreement now (next_agr w) name msg cb sd (Some a))
        \<lparr>a_source_path := source_path (next_agr w), a_doc_hash := en_sha256 eng pdf, a_envelope_id := env\<rparr>"
    have row: "a_id row = next_agr w" "path_ok row" "a_owner row = Some a"
      by (simp_all add: row_def new_agreement_def path_ok_def)
    let ?w2 = "?w1\<lparr>agreement_rows := agreement_rows ?w1 @ [row], next_agr := next_agr w + 1\<rparr>"
    have w': "r = Some (next_agr w)" "w' = log_event (next_agr w) ''created'' None [] [] (py_str n @ '' pages'') now ?w2"
      using c Some by (auto simp: create_agreement_def Let_def row_def)
    have w2: "tenant_step a ?w1 ?w2" using tstep_new_row [OF s1, of row a] row by simp
    have fresh: "next_agr w \<notin> a_id ` set (agreement_rows w)" using schema_ids(1) [OF s] by (force simp: agr_ids_def)
    then have row2: "agr_row ?w2 (next_agr w) = Some row"
      using row(1) by (auto simp: agr_row_def find_append split: option.split dest!: find_SomeD) (metis imageI)
    then have "mine (next_agr w) (Some a) (others (next_agr w) ?w2) w'"
      unfolding w' using w2 row(3) by (intro mine_event mine_start) (simp_all add: tenant_step_def)
    then have "tenant_step a ?w2 w'" "\<exists>q. agr_row w' (next_agr w) = Some q \<and> a_owner q = Some a"
      using tstep_mine [of ?w2 "next_agr w" row a w'] w2 row2 row(3) by (auto simp: tenant_step_def mine_def)
    then show ?thesis using tstep_trans [OF tstep_trans [OF w1 w2]] w'(1) by simp
  qed
qed

lemma tstep_templates:
  assumes s: "schema_ok w" and d: "distinct (map t_id ts)"
    and t: "\<And>t. t \<in> set ts \<Longrightarrow> t_id t < n \<and> t_source_path t \<in> {[], tpl_path (t_id t)}"
    and o: "\<And>b. b \<noteq> a \<Longrightarrow> filter (\<lambda>t. t_owner t = Some b) ts = filter (\<lambda>t. t_owner t = Some b) (template_rows w)"
  shows "tenant_step a w (w\<lparr>template_rows := ts, next_tpl := n\<rparr>)"
proof -
  have "agr_ids (w\<lparr>template_rows := ts, next_tpl := n\<rparr>) = agr_ids w" by (simp add: agr_ids_def)
  then have "schema_ok (w\<lparr>template_rows := ts, next_tpl := n\<rparr>)"
    using s d t by (simp add: schema_ok_def unique_defs)
  moreover have "tenant_view b (w\<lparr>template_rows := ts, next_tpl := n\<rparr>) = tenant_view b w" if "b \<noteq> a" for b
    using o [OF that] by (simp add: tenant_view_def owned_ids_def owned_tpls_def tenant_files_def)
  ultimately show ?thesis by (simp add: tenant_step_def)
qed

lemma tstep_store_template:
  assumes s: "schema_ok w"
  shows "tenant_step a w (snd (store_template eng now cb (Some a) ts w))"
proof -
  let ?row = "\<lparr>t_id = next_tpl w, t_name = nonblank (ts_name ts) ''Untitled template'', t_created_by = nonblank cb ''Will'',
      t_source_path = (if ts_pdf ts = [] then [] else tpl_path (next_tpl w)),
      t_doc_hash = (if ts_pdf ts = [] then [] else en_sha256 eng (ts_pdf ts)), t_source_doc_id = ts_doc ts,
      t_source_agr = ts_agr ts, t_signers = ts_signers ts, t_fields = ts_fields ts,
      t_page_n = (if ts_pdf ts = [] then 0 else coalesce (en_page_count eng (ts_pdf ts)) 0),
      t_created_at = Some now, t_archived_at = None, t_owner = Some a\<rparr>"
  let ?w1 = "\<lambda>v. v\<lparr>template_rows := template_rows w @ [?row], next_tpl := next_tpl w + 1\<rparr>"
  have old: "t_id t < next_tpl w" "t_source_path t = [] \<or> t_source_path t = tpl_path (t_id t)" if "t \<in> set (template_rows w)" for t
    using s that by (auto simp: schema_ok_def)
  have row: "tenant_step a v (?w1 v)" if "schema_ok v" "template_rows v = template_rows w" for v
  proof (rule tstep_templates [OF that(1)])
    show "distinct (map t_id (template_rows w @ [?row]))" using s old by (force simp: schema_ok_def)
    show "t_id t < next_tpl w + 1 \<and> t_source_path t \<in> {[], tpl_path (t_id t)}" if "t \<in> set (template_rows w @ [?row])" for t
      using that old by force
  qed (simp add: that(2))
  show ?thesis
  proof (cases "ts_pdf ts = []")
    case True
    then show ?thesis using row [OF s] by (simp add: store_template_def Let_def)
  next
    case False
    let ?f = "write_file (tpl_path (next_tpl w)) (ts_pdf ts)"
    have f: "tenant_step a w (?f w)" by (rule tstep_fresh_file [OF s]) simp
    then have "tenant_step a (?f w) (?w1 (?f w))" by (intro row) (simp_all add: tenant_step_def)
    with f have "tenant_step a w (?w1 (?f w))" by (rule tstep_trans)
    moreover have "snd (store_template eng now cb (Some a) ts w) = ?w1 (?f w)"
      using False by (intro world.equality) (simp_all add: store_template_def Let_def write_file_def)
    ultimately show ?thesis by simp
  qed
qed

lemma tstep_create_template:
  "schema_ok w \<Longrightarrow> tenant_step a w (snd (create_template eng now name src layout cb (Some a) w))"
  by (simp add: create_template_def tstep_refl tstep_store_template split: option.split sum.split)

lemma tstep_archive:
  assumes s: "schema_ok w"
  shows "tenant_step a w (snd (archive_template_owned now tid a w))"
proof -
  let ?P = "\<lambda>t. (t_id t = tid \<and> t_owner t = Some a) \<and> t_archived_at t = None"
  let ?ts = "upd_where ?P (\<lambda>t. t\<lparr>t_archived_at := Some now\<rparr>) (template_rows w)"
  have "tenant_step a w (w\<lparr>template_rows := ?ts, next_tpl := next_tpl w\<rparr>)"
  proof (rule tstep_templates [OF s])
    show "distinct (map t_id ?ts)" using s by (simp add: map_upd_key schema_ok_def)
    show "t_id t < next_tpl w \<and> t_source_path t \<in> {[], tpl_path (t_id t)}" if "t \<in> set ?ts" for t
      using that s by (auto simp: set_upd_where schema_ok_def split: if_splits)
    show "filter (\<lambda>t. t_owner t = Some b) ?ts = filter (\<lambda>t. t_owner t = Some b) (template_rows w)" if "b \<noteq> a" for b
    proof -
      have "filter (\<lambda>t. t_owner t = Some b) (upd_where ?P (\<lambda>t. t\<lparr>t_archived_at := Some now\<rparr>) ts) = filter (\<lambda>t. t_owner t = Some b) ts" for ts
        using that by (induction ts) (auto simp: upd_where_def)
      then show ?thesis .
    qed
  qed
  then show ?thesis by (simp add: archive_template_owned_def archive_where_def tstep_refl [OF s])
qed

lemma mine_fill_draft:
  assumes "mine aid ow W w"
  shows "mine aid ow W (snd (fill_draft eng t recipients answers aid w))"
proof -
  have s: "mine aid ow W w1" if "set_signers eng aid ds w = (r, w1)" for ds r w1
    using mine_set_signers [OF assms, of eng ds] that by simp
  have f: "mine aid ow W (snd (fill_fields eng t ids answers aid v))" if "mine aid ow W v" for v ids
    using that by (auto simp: fill_fields_def intro: mine_stored split: sum.split prod.split set_result.split)
  show ?thesis using assms s f
    by (auto simp: fill_draft_def split: sum.split prod.split set_result.split)
qed

lemma tstep_instantiate:
  assumes s: "schema_ok w"
  shows "tenant_step a w (snd (instantiate_template eng now env tid recipients name cb (Some a) answers w))"
proof -
  have c: "tenant_step a w (snd (case create_agreement eng now env nm pdf msg cb' sd (Some a) w of
        (None, w1) \<Rightarrow> (InstRaise, w1) | (Some aid, w1) \<Rightarrow> fill_draft eng t recipients answers aid w1))" for nm pdf msg cb' sd t
  proof -
    obtain r w1 where c: "create_agreement eng now env nm pdf msg cb' sd (Some a) w = (r, w1)" by fastforce
    note k = tstep_create [OF s c]
    show ?thesis
    proof (cases r)
      case None
      then show ?thesis using c k by simp
    next
      case (Some aid)
      then obtain row where row: "agr_row w1 aid = Some row" "a_owner row = Some a" using k by blast
      have "tenant_step a w1 (snd (fill_draft eng t recipients answers aid w1))"
        using k row by (intro tstep_mine [OF _ row] mine_fill_draft mine_start) (simp_all add: tenant_step_def)
      then show ?thesis using c Some k tstep_trans by auto
    qed
  qed
  show ?thesis using c by (simp add: instantiate_template_def Let_def tstep_refl [OF s] split: option.split)
qed

lemma tstep_delete_draft:
  assumes s: "schema_ok w"
  shows "tenant_step a w (snd (delete_draft_owned aid a w))"
proof (cases "\<exists>v. get_agreement_owned w aid a = Some v \<and> a_status (v_row v) \<in> {Draft, NoStatus}")
  case False
  then show ?thesis by (auto simp: delete_draft_owned_def Let_def tstep_refl [OF s] split: option.split)
next
  case True
  then obtain v where v: "get_agreement_owned w aid a = Some v" "a_status (v_row v) \<in> {Draft, NoStatus}" by blast
  then have row: "agr_row w aid = Some (v_row v)" "a_id (v_row v) = aid" "a_owner (v_row v) = Some a"
    using view_row [of w aid v] by (auto simp: get_agreement_owned_def split: if_splits option.splits)
  then have p: "path_ok (v_row v)" using s agr_row_mem [OF row(1)] by (simp add: schema_ok_def)
  have u: "others aid (unlink q w1) = others aid w1 \<and> schema_ok (unlink q w1) = schema_ok w1 \<and> agreement_rows (unlink q w1) = agreement_rows w1"
    if "q = [] \<or> q \<in> own_files aid" for q w1
    using that by (auto simp: unlink_def others_def schema_ok_def unique_defs agr_ids_def)
  let ?w1 = "unlink (a_executed_path (v_row v)) (unlink (a_frozen_path (v_row v)) (unlink (a_source_path (v_row v)) w))"
  let ?w2 = "drop_children (\<lambda>i. i = aid) ?w1"
  have w1: "others aid ?w1 = others aid w" "schema_ok ?w1" "agreement_rows ?w1 = agreement_rows w"
    using u p row(2) s by (auto simp: path_ok_def own_files_def)
  have "others aid ?w2 = others aid ?w1"
    by (simp add: others_def drop_children_def del_where_def filter_filter)
  moreover have "schema_ok ?w2"
    using w1(2) by (auto simp: schema_ok_def unique_defs drop_children_def del_where_def distinct_map_filter agr_ids_def)
  moreover have "aid \<notin> owned_ids b ?w2" for b
    by (auto simp: owned_ids_def drop_children_def del_where_def)
  moreover have "aid \<notin> owned_ids b w" if "b \<noteq> a" for b
    using owned_row [OF s row(1)] row(3) that by simp
  ultimately have "tenant_step a w ?w2"
    using w1(1) tenant_others [of aid ?w2 w] unfolding tenant_step_def by metis
  then show ?thesis using v by (auto simp: delete_draft_owned_def Let_def)
qed

end
