(* ===== verification/Gates.thy ===== *)
theory Gates
  imports Signin Reads
begin

text \<open>
  What every request passes before a route runs (\<open>sign/http_helpers.py\<close>, \<open>sign/ratelimit.py\<close>, the
  middleware of \<open>sign/app.py\<close> and the operator gate of \<open>sign/routers/ops.py\<close>): the client address
  behind trusted proxies, the origin check on mutating calls, the public-path list, the two
  authentication gates, the ownership gate and the per-account API budget. The state of a request is
  the \<open>site\<close>: the signing engine's \<open>world\<close> and the \<open>portal\<close>.
\<close>

record site =
  st_world :: world
  st_portal :: portal

text \<open>A request: header names are in lower case, as the framework looks them up.\<close>

record http_req =
  q_peer :: "string option"
  q_method :: string
  q_path :: string
  q_headers :: "(string \<times> string) list"
  q_cookies :: "(string \<times> string) list"

text \<open>
  The process environment the gates read, and \<open>hc_bracket_ok\<close>: whether the interpreter's
  \<open>urlsplit\<close> accepts a bracketed host, a check that differs between Python versions.
\<close>

record http_config =
  hc_proxies :: string
  hc_base_url :: string
  hc_rate_limit :: "string option"
  hc_admins :: "string list"
  hc_cookie_prefix :: string
  hc_bracket_ok :: "string \<Rightarrow> bool"

definition header :: "http_req \<Rightarrow> string \<Rightarrow> string" where
  "header q name = (case map_of (q_headers q) name of None \<Rightarrow> [] | Some v \<Rightarrow> v)"

definition cookie :: "http_config \<Rightarrow> http_req \<Rightarrow> string \<Rightarrow> string option" where
  "cookie hc q base = map_of (q_cookies q) (hc_cookie_prefix hc @ base)"

section \<open>The client's address\<close>

definition comma_list :: "string \<Rightarrow> string list" where
  "comma_list raw = filter (\<lambda>p. p \<noteq> []) (map py_strip (py_split (CHR '','') raw))"

definition trusted_proxies :: "http_config \<Rightarrow> string list" where
  "trusted_proxies hc = comma_list (hc_proxies hc)"

definition client_ip :: "http_config \<Rightarrow> http_req \<Rightarrow> string" where
  "client_ip hc q =
     (let peer = (case q_peer q of None \<Rightarrow> [] | Some p \<Rightarrow> p); trusted = trusted_proxies hc in
      if peer \<in> set trusted then
        (case find (\<lambda>h. h \<notin> set trusted) (rev (comma_list (header q ''x-forwarded-for''))) of
           Some h \<Rightarrow> h | None \<Rightarrow> peer)
      else peer)"

section \<open>The origin check\<close>

text \<open>\<open>urlsplit(url).hostname\<close>, empty for none; \<open>Inl\<close> where \<open>urlsplit\<close> raises.\<close>

definition before_char :: "char \<Rightarrow> string \<Rightarrow> string" where
  "before_char c s = takeWhile (\<lambda>x. x \<noteq> c) s"

definition after_char :: "char \<Rightarrow> string \<Rightarrow> string" where
  "after_char c s = tl (dropWhile (\<lambda>x. x \<noteq> c) s)"

definition scheme_char :: "char \<Rightarrow> bool" where
  "scheme_char c = (is_digit c \<or> is_ascii_alpha c \<or> c \<in> set ''+-.'')"

definition clean_url :: "string \<Rightarrow> string" where
  "clean_url u = filter (\<lambda>c. char_code c \<notin> {9, 10, 13}) (dropWhile (\<lambda>c. char_code c \<le> 32) u)"

definition drop_scheme :: "string \<Rightarrow> string" where
  "drop_scheme u =
     (let s = before_char (CHR '':'') u in
      if CHR '':'' \<in> set u \<and> s \<noteq> [] \<and> is_ascii_alpha (hd s) \<and> list_all scheme_char s
      then after_char (CHR '':'') u else u)"

definition netloc_of :: "string \<Rightarrow> string" where
  "netloc_of u =
     (let r = drop_scheme (clean_url u) in
      if take 2 r = ''//'' then takeWhile (\<lambda>c. c \<notin> set ''/?#'') (drop 2 r) else [])"

definition host_info :: "string \<Rightarrow> string" where
  "host_info n =
     (let h = rev (before_char (CHR ''@'') (rev n)) in
      if CHR ''['' \<in> set h then before_char (CHR '']'') (after_char (CHR ''['') h)
      else before_char (CHR '':'') h)"

definition lower_host :: "string \<Rightarrow> string" where
  "lower_host h =
     py_lower (before_char (CHR ''%'') h) @ dropWhile (\<lambda>x. x \<noteq> CHR ''%'') h"

definition url_host :: "http_config \<Rightarrow> string \<Rightarrow> py_exc + string" where
  "url_host hc u =
     (let n = netloc_of u; br = (CHR ''['' \<in> set n); cb = (CHR '']'' \<in> set n) in
      if br \<noteq> cb \<or> (br \<and> \<not> hc_bracket_ok hc n) then Inl ValueError
      else Inr (lower_host (host_info n)))"

definition own_hosts :: "http_config \<Rightarrow> py_exc + string list" where
  "own_hosts hc =
     try_bind (url_host hc (hc_base_url hc)) (\<lambda>h0.
       let h = py_lower h0 in
       Inr ([''localhost'', ''127.0.0.1'', ''testserver''] @ (if h = [] then [] else [h])))"

definition csrf_origin_ok :: "http_config \<Rightarrow> http_req \<Rightarrow> py_exc + bool" where
  "csrf_origin_ok hc q =
     (if q_method q \<notin> {''POST'', ''PUT'', ''PATCH'', ''DELETE''} then Inr True
      else if \<not> startswith (q_path q) ''/api/'' then Inr True
      else if startswith (q_path q) ''/api/sign/token/'' then Inr True
      else let origin = header q ''origin'' in
        if origin = [] then Inr True
        else try_bind (url_host hc origin) (\<lambda>o0.
          let oh = py_lower o0 in
          if oh = [] then Inr True
          else try_bind (own_hosts hc) (\<lambda>own.
            let hh = header q ''host'';
                allowed = own @ (if hh = [] then [] else [py_lower (before_char (CHR '':'') hh)])
            in Inr (oh \<in> set allowed))))"

section \<open>Authentication and ownership\<close>

definition sign_acct :: "http_config \<Rightarrow> auth_env \<Rightarrow> time \<Rightarrow> http_req \<Rightarrow> portal \<Rightarrow> py_exc + account option" where
  "sign_acct hc env now q p = session_account env now (cookie hc q ''ls_sign'') p"

text \<open>The key after \<open>Bearer\<close>, in any case.\<close>

definition bearer_of :: "http_req \<Rightarrow> string option" where
  "bearer_of q =
     (let auth = header q ''authorization'' in
      if py_lower (take 7 auth) = ''bearer '' then Some (py_strip (drop 7 auth)) else None)"

datatype gate = GateRaise py_exc | GateDenied | GateOk account

definition require_sign_acct ::
  "http_config \<Rightarrow> auth_env \<Rightarrow> time \<Rightarrow> http_req \<Rightarrow> portal \<Rightarrow> gate \<times> portal" where
  "require_sign_acct hc env now q p =
     (case sign_acct hc env now q p of
        Inl e \<Rightarrow> (GateRaise e, p)
      | Inr (Some a) \<Rightarrow> (GateOk a, p)
      | Inr None \<Rightarrow>
          (case bearer_of q of
             None \<Rightarrow> (GateDenied, p)
           | Some key \<Rightarrow>
               (case resolve_key env now key p of
                  (Inl e, p1) \<Rightarrow> (GateRaise e, p1)
                | (Inr None, p1) \<Rightarrow> (GateDenied, p1)
                | (Inr (Some a), p1) \<Rightarrow> (GateOk a, p1))))"

definition require_sign_cookie :: "http_config \<Rightarrow> auth_env \<Rightarrow> time \<Rightarrow> http_req \<Rightarrow> portal \<Rightarrow> gate" where
  "require_sign_cookie hc env now q p =
     (case sign_acct hc env now q p of
        Inl e \<Rightarrow> GateRaise e | Inr None \<Rightarrow> GateDenied | Inr (Some a) \<Rightarrow> GateOk a)"

definition require_owned :: "int \<Rightarrow> account \<Rightarrow> world \<Rightarrow> agr_view option" where
  "require_owned aid a w = get_agreement_owned w aid (ac_id a)"

text \<open>The operator console: a session whose address is on the list, whether it was confirmed or not.\<close>

definition require_operator :: "http_config \<Rightarrow> auth_env \<Rightarrow> time \<Rightarrow> http_req \<Rightarrow> portal \<Rightarrow> gate" where
  "require_operator hc env now q p =
     (case sign_acct hc env now q p of
        Inl e \<Rightarrow> GateRaise e
      | Inr None \<Rightarrow> GateDenied
      | Inr (Some a) \<Rightarrow>
          if hc_admins hc = [] \<or> py_lower (py_strip (ac_email a)) \<notin> set (hc_admins hc) then GateDenied
          else GateOk a)"

definition MAX_SIGN_PDF_BYTES :: int where "MAX_SIGN_PDF_BYTES = 60 * 1024 * 1024"

text \<open>\<open>pdf_edit.validate_source\<close> is a parameter: the message it raises with, if it does.\<close>

definition validate_sign_pdf :: "(bytes \<Rightarrow> string option) \<Rightarrow> bytes \<Rightarrow> string option" where
  "validate_sign_pdf validate_source raw =
     (if MAX_SIGN_PDF_BYTES < int (length raw) then Some ''file too large (max 60 MB)''
      else validate_source raw)"

section \<open>The API budget\<close>

definition api_limit :: "http_config \<Rightarrow> int" where
  "api_limit hc =
     (case hc_rate_limit hc of
        None \<Rightarrow> 120
      | Some raw \<Rightarrow> (case py_int (py_strip raw) of None \<Rightarrow> 120 | Some v \<Rightarrow> if 0 < v then v else 120))"

definition bearer_budget :: "http_req \<Rightarrow> string option" where
  "bearer_budget q =
     (case bearer_of q of
        None \<Rightarrow> None
      | Some token \<Rightarrow> if token = [] then None else Some (''apirate:key:'' @ take KEY_PREFIX_LEN token))"

definition budget_key :: "http_config \<Rightarrow> auth_env \<Rightarrow> time \<Rightarrow> http_req \<Rightarrow> py_exc + string option" where
  "budget_key hc env now q =
     (case read_kind env now ''signacct'' [''aid''] (cookie hc q ''ls_sign'') of
        Some d \<Rightarrow> try_bind (jint (jget d ''aid'')) (\<lambda>aid. Inr (Some (''apirate:acct:'' @ py_str aid)))
      | None \<Rightarrow> Inr (bearer_budget q))"

text \<open>\<open>True\<close> is the 429 answer; whatever raises is let through.\<close>

definition rate_check :: "http_config \<Rightarrow> auth_env \<Rightarrow> time \<Rightarrow> http_req \<Rightarrow> portal \<Rightarrow> bool \<times> portal" where
  "rate_check hc env now q p =
     (if \<not> startswith (q_path q) ''/api/mysign/'' then (False, p)
      else (case budget_key hc env now q of
          Inl e \<Rightarrow> (False, p)
        | Inr None \<Rightarrow> (False, p)
        | Inr (Some k) \<Rightarrow>
            (case on_auth (auth_rate_allowed now k (api_limit hc) 60) p of (ok, p1) \<Rightarrow> (\<not> ok, p1))))"

section \<open>The middleware\<close>

definition PUBLIC_EXACT :: "string list" where
  "PUBLIC_EXACT =
     [''/'', ''/app'', ''/signapp'', ''/health'', ''/healthz'', ''/readyz'', ''/version'', ''/favicon.ico'',
      ''/privacy'', ''/terms'', ''/developers'', ''/developers/'', ''/robots.txt'', ''/sw.js'',
      ''/manifest.webmanifest'']"

definition PUBLIC_PREFIXES :: "string list" where
  "PUBLIC_PREFIXES =
     [''/sign/'', ''/api/sign/token/'', ''/api/sign/disclosure'', ''/api/sign-portal/'', ''/envelope/'',
      ''/api/envelope/'', ''/static/'', ''/developers/'']"

definition is_public :: "string \<Rightarrow> bool" where
  "is_public path = (path \<in> set PUBLIC_EXACT \<or> (\<exists>p \<in> set PUBLIC_PREFIXES. startswith path p))"

datatype passage = PassRaise py_exc | BadOrigin | NeedAuth | NotFoundPage | RateLimited | PassOn

definition middleware :: "http_config \<Rightarrow> auth_env \<Rightarrow> time \<Rightarrow> http_req \<Rightarrow> portal \<Rightarrow> passage \<times> portal" where
  "middleware hc env now q p =
     (case csrf_origin_ok hc q of
        Inl e \<Rightarrow> (PassRaise e, p)
      | Inr False \<Rightarrow> (BadOrigin, p)
      | Inr True \<Rightarrow>
          if \<not> is_public (q_path q) \<and>
             \<not> ((case cookie hc q ''ls_sign'' of None \<Rightarrow> False | Some c \<Rightarrow> c \<noteq> []) \<or> bearer_of q \<noteq> None)
          then (if startswith (q_path q) ''/api/'' then (NeedAuth, p) else (NotFoundPage, p))
          else (case rate_check hc env now q p of
              (True, p1) \<Rightarrow> (RateLimited, p1) | (False, p1) \<Rightarrow> (PassOn, p1)))"

section \<open>Lists of comma-separated values\<close>

lemma py_split_snoc_sep: "py_split c (s @ c # t) = py_split c s @ py_split c t"
  by (induction s) (auto split: list.splits)

lemma comma_list_app: "comma_list (s @ CHR '','' # t) = comma_list s @ comma_list t"
  by (simp add: comma_list_def py_split_snoc_sep)

text \<open>An address as a header or a setting spells it.\<close>

definition plain_item :: "string \<Rightarrow> bool" where
  "plain_item h = (h \<noteq> [] \<and> CHR '','' \<notin> set h \<and> py_strip h = h)"

lemma comma_list_plain: "plain_item h \<Longrightarrow> comma_list h = [h]"
  by (simp add: comma_list_def plain_item_def py_split_no_sep)

lemma comma_list_join:
  "list_all plain_item hs \<Longrightarrow> hs \<noteq> [] \<Longrightarrow> comma_list (py_join '','' hs) = hs"
proof (induction hs rule: induct_list012)
  case (3 h h2 hs)
  then have "py_join '','' (h # h2 # hs) = h @ CHR '','' # py_join '','' (h2 # hs)" by simp
  with 3 show ?case by (simp add: comma_list_app comma_list_plain)
qed (simp_all add: comma_list_plain)

lemma find_rev_suffix:
  assumes "\<not> P x" and "\<forall>y \<in> set ys. P y"
  shows "find (\<lambda>h. \<not> P h) (rev (xs @ x # ys)) = Some x"
proof -
  have "find (\<lambda>h. \<not> P h) (rev ys @ zs) = find (\<lambda>h. \<not> P h) zs" for zs
    using assms(2) by (induction ys arbitrary: zs) simp_all
  then show ?thesis using assms(1) by simp
qed

text \<open>The recorded client address cannot be forged: without a trusted proxy in front it is the socket peer
  whatever the header says, and behind trusted proxies it is the address the outermost of them saw, whatever
  the client put into the forwarding header before it.\<close>

theorem client_ip_unspoofable:
  assumes "q_peer q = Some peer"
  shows "(peer \<notin> set (trusted_proxies hc) \<longrightarrow> client_ip hc q = peer) \<and>
    (\<forall>forged seen proxies.
       peer \<in> set (trusted_proxies hc) \<and> set proxies \<subseteq> set (trusted_proxies hc) \<and> seen \<notin> set (trusted_proxies hc) \<and>
       list_all plain_item (seen # proxies) \<and>
       header q ''x-forwarded-for'' = forged @ CHR '','' # py_join '','' (seen # proxies) \<longrightarrow>
       client_ip hc q = seen)"
proof (intro conjI allI impI)
  show "peer \<notin> set (trusted_proxies hc) \<Longrightarrow> client_ip hc q = peer"
    using assms by (simp add: client_ip_def)
next
  fix forged seen proxies
  assume a: "peer \<in> set (trusted_proxies hc) \<and> set proxies \<subseteq> set (trusted_proxies hc) \<and> seen \<notin> set (trusted_proxies hc) \<and>
       list_all plain_item (seen # proxies) \<and>
       header q ''x-forwarded-for'' = forged @ CHR '','' # py_join '','' (seen # proxies)"
  then have "comma_list (header q ''x-forwarded-for'') = comma_list forged @ seen # proxies"
    by (metis comma_list_app comma_list_join list.distinct(1))
  moreover have "find (\<lambda>h. \<not> h \<in> set (trusted_proxies hc)) (rev (comma_list forged @ seen # proxies)) = Some seen"
    using a by (intro find_rev_suffix) auto
  ultimately show "client_ip hc q = seen"
    using assms a by (simp add: client_ip_def Let_def del: rev_append)
qed

definition demo_config :: http_config where
  "demo_config = \<lparr>hc_proxies = ''10.0.0.1, 10.0.0.2'', hc_base_url = ''https://sign.io'', hc_rate_limit = None,
     hc_admins = [''boss@x.io''], hc_cookie_prefix = ''__Host-'', hc_bracket_ok = (\<lambda>n. True)\<rparr>"

definition demo_req :: http_req where
  "demo_req = \<lparr>q_peer = Some ''10.0.0.1'', q_method = ''POST'', q_path = ''/api/mysign/agreements'',
     q_headers = [(''x-forwarded-for'', ''1.1.1.1, 8.8.8.8,9.9.9.9,10.0.0.2''), (''origin'', ''https://evil.io:8443''),
       (''host'', ''Sign.IO'')], q_cookies = []\<rparr>"

lemma client_ip_unspoofable_witness: "client_ip demo_config demo_req = ''9.9.9.9''"
proof -
  have t: "trusted_proxies demo_config = [''10.0.0.1'', ''10.0.0.2'']" by code_simp
  have "list_all plain_item [''9.9.9.9'', ''10.0.0.2'']" by code_simp
  moreover have "header demo_req ''x-forwarded-for'' = ''1.1.1.1, 8.8.8.8'' @ CHR '','' # py_join '','' [''9.9.9.9'', ''10.0.0.2'']"
    by code_simp
  moreover have "q_peer demo_req = Some ''10.0.0.1''" by (simp add: demo_req_def)
  ultimately show ?thesis
    using client_ip_unspoofable [THEN conjunct2, rule_format, of demo_req "''10.0.0.1''" demo_config "[''10.0.0.2'']" "''9.9.9.9''"
        "''1.1.1.1, 8.8.8.8''"] t by simp
qed

section \<open>The origin check decides by host\<close>

definition host_char :: "char \<Rightarrow> bool" where
  "host_char c = (is_digit c \<or> is_ascii_alpha c \<or> c \<in> set ''.-'')"

lemma host_char_plain:
  "host_char c \<Longrightarrow> c \<notin> {CHR '':'', CHR ''/'', CHR ''?'', CHR ''#'', CHR ''@'', CHR ''['', CHR '']'', CHR ''%''} \<and>
     char_code c \<notin> {9, 10, 13}"
  by (auto simp: host_char_def is_digit_def is_ascii_alpha_def char_code_def)

lemma before_char_none: "c \<notin> set s \<Longrightarrow> before_char c s = s"
  unfolding before_char_def by (rule takeWhile_eq_all_conv [THEN iffD2]) blast

lemma before_char_app: "c \<notin> set s \<Longrightarrow> before_char c (s @ c # t) = s"
  unfolding before_char_def by (subst takeWhile_append2) auto

lemma py_lower_idem: "py_lower (py_lower s) = py_lower s"
  by (simp add: py_lower_def lower_char_idem)

lemma py_lower_Nil [simp]: "py_lower s = [] \<longleftrightarrow> s = []"
  by (simp add: py_lower_def)

text \<open>\<open>port\<close> is empty or a colon and digits.\<close>

definition plain_port :: "string \<Rightarrow> bool" where
  "plain_port p = (p = [] \<or> (hd p = CHR '':'' \<and> list_all is_digit (tl p)))"

lemma plain_port_chars:
  assumes "plain_port p" and "c \<in> set p"
  shows "c \<notin> {CHR ''/'', CHR ''?'', CHR ''#'', CHR ''@'', CHR ''['', CHR '']''} \<and> char_code c \<notin> {9, 10, 13}"
proof -
  have "c = CHR '':'' \<or> is_digit c"
    using assms by (cases p) (auto simp: plain_port_def list_all_iff)
  then show ?thesis by (auto simp: is_digit_def char_code_def)
qed

lemma netloc_of_https:
  assumes "list_all host_char h" and "plain_port p"
  shows "netloc_of (''https://'' @ h @ p) = h @ p"
proof -
  have ok: "c \<notin> set ''/?#'' \<and> char_code c \<notin> {9, 10, 13}" if "c \<in> set (h @ p)" for c
    using that assms(1) host_char_plain [of c] plain_port_chars [OF assms(2), of c] by (auto simp: list_all_iff)
  have "filter (\<lambda>c. char_code c \<notin> {9, 10, 13}) (h @ p) = h @ p"
    using ok by (intro filter_True) blast
  then have c: "clean_url (''https://'' @ h @ p) = ''https:'' @ ''//'' @ h @ p"
    by (simp add: clean_url_def char_code_def)
  have "drop_scheme (''https'' @ CHR '':'' # ''//'' @ h @ p) = ''//'' @ h @ p"
    by (simp add: drop_scheme_def before_char_def after_char_def scheme_char_def is_ascii_alpha_def char_code_def)
  then have "drop_scheme (clean_url (''https://'' @ h @ p)) = ''//'' @ h @ p" using c by simp
  moreover have "takeWhile (\<lambda>c. c \<notin> set ''/?#'') (h @ p) = h @ p"
    by (rule takeWhile_eq_all_conv [THEN iffD2]) (use ok in blast)
  ultimately show ?thesis by (simp add: netloc_of_def)
qed

lemma url_host_https:
  assumes "list_all host_char h" and "plain_port p"
  shows "url_host hc (''https://'' @ h @ p) = Inr (py_lower h)"
proof -
  have hc: "c \<notin> {CHR '':'', CHR ''@'', CHR ''['', CHR '']'', CHR ''%''}" if "c \<in> set h" for c
    using that assms(1) host_char_plain [of c] by (auto simp: list_all_iff)
  have nb: "CHR ''['' \<notin> set (h @ p)" "CHR '']'' \<notin> set (h @ p)" "CHR ''@'' \<notin> set (h @ p)"
    using hc plain_port_chars [OF assms(2)] by auto
  have "before_char (CHR ''@'') (rev (h @ p)) = rev (h @ p)" using nb(3) by (intro before_char_none) simp
  moreover have "before_char (CHR '':'') (h @ p) = h"
  proof (cases p)
    case Nil
    then show ?thesis using hc by (auto intro: before_char_none)
  next
    case (Cons x ys)
    then show ?thesis using assms(2) hc before_char_app [of "CHR '':''" h ys] by (auto simp: plain_port_def)
  qed
  ultimately have "host_info (h @ p) = h"
    using nb(1) by (simp add: host_info_def Let_def)
  moreover have "lower_host h = py_lower h"
  proof -
    have n: "CHR ''%'' \<notin> set h" using hc by blast
    then have "dropWhile (\<lambda>x. x \<noteq> CHR ''%'') h = []" by (intro dropWhile_eq_Nil_conv [THEN iffD2]) blast
    with n show ?thesis by (simp add: lower_host_def before_char_none)
  qed
  ultimately show ?thesis
    unfolding url_host_def netloc_of_https [OF assms] using nb by (simp add: Let_def)
qed

text \<open>The origin check decides by host name: a mutating API call that carries an origin of an https page
  (any port) passes exactly if its host, in any case, is this install's, a development host or the host the
  request itself was sent to.\<close>

theorem origin_check_exact:
  assumes "q_method q \<in> {''POST'', ''PUT'', ''PATCH'', ''DELETE''}" and "startswith (q_path q) ''/api/''"
    and "\<not> startswith (q_path q) ''/api/sign/token/''" and "header q ''origin'' = ''https://'' @ h @ p"
    and "h \<noteq> []" and "list_all host_char h" and "plain_port p" and "own_hosts hc = Inr own"
  shows "csrf_origin_ok hc q =
    Inr (py_lower h \<in> set own \<or>
         (header q ''host'' \<noteq> [] \<and> py_lower h = py_lower (before_char (CHR '':'') (header q ''host''))))"
proof -
  show ?thesis
    unfolding csrf_origin_ok_def assms(4) Let_def url_host_https [OF assms(6,7)]
    using assms(1-3,5,8) by (auto simp: py_lower_idem)
qed

lemma origin_check_exact_witness:
  "csrf_origin_ok demo_config demo_req = Inr False \<and>
   csrf_origin_ok demo_config (demo_req\<lparr>q_headers := [(''origin'', ''https://SIGN.io'')]\<rparr>) = Inr True"
proof -
  have o: "own_hosts demo_config = Inr [''localhost'', ''127.0.0.1'', ''testserver'', ''sign.io'']" by code_simp
  have r: "csrf_origin_ok demo_config demo_req = Inr False"
    using origin_check_exact [OF _ _ _ _ _ _ _ o, of demo_req "''evil.io''" "'':8443''"]
    by (simp add: demo_req_def startswith_def header_def plain_port_def host_char_def is_ascii_alpha_def is_digit_def
        char_code_def py_lower_def lower_char_def before_char_def)
  have l: "py_lower ''SIGN.io'' = ''sign.io''" by code_simp
  have "csrf_origin_ok demo_config (demo_req\<lparr>q_headers := [(''origin'', ''https://SIGN.io'')]\<rparr>) = Inr True"
    using origin_check_exact [OF _ _ _ _ _ _ _ o, of "demo_req\<lparr>q_headers := [(''origin'', ''https://SIGN.io'')]\<rparr>" "''SIGN.io''" "[]"]
    by (simp add: l) (simp add: demo_req_def startswith_def header_def plain_port_def host_char_def is_ascii_alpha_def
        is_digit_def char_code_def)
  with r show ?thesis by blast
qed

end
