(* ===== verification/Dates.thy ===== *)
theory Dates
  imports Prelude
begin

text \<open>
  The birth dates of a challenge (\<open>_to_iso_date\<close> in \<open>sign/esign_access.py\<close>): \<open>date.fromisoformat\<close>
  first, then four \<open>strptime\<close> formats, else the stripped text. A \<open>strptime\<close> directive is a list of
  successes in the order of its regular expression; the first overall match has to use up the text.
  The ISO week spellings of \<open>fromisoformat\<close>, which differ between Python versions, are a parameter.
\<close>

section \<open>Calendar\<close>

definition leap :: "int \<Rightarrow> bool" where
  "leap y = (y mod 4 = 0 \<and> (y mod 100 \<noteq> 0 \<or> y mod 400 = 0))"

definition days_in_month :: "int \<Rightarrow> int \<Rightarrow> int" where
  "days_in_month y m =
     (if m = 2 then (if leap y then 29 else 28) else if m \<in> {4, 6, 9, 11} then 30 else 31)"

definition valid_date :: "int \<times> int \<times> int \<Rightarrow> bool" where
  "valid_date d = (case d of (y, m, k) \<Rightarrow>
     1 \<le> y \<and> y \<le> 9999 \<and> 1 \<le> m \<and> m \<le> 12 \<and> 1 \<le> k \<and> k \<le> days_in_month y m)"

section \<open>Digits\<close>

definition dig :: "int \<Rightarrow> char" where "dig n = char_of (nat (48 + n))"
definition undig :: "char \<Rightarrow> int" where "undig c = int (char_code c) - 48"

definition number :: "string \<Rightarrow> int" where
  "number s = fold (\<lambda>c n. 10 * n + undig c) s 0"

definition dd :: "int \<Rightarrow> string" where "dd n = [dig (n div 10), dig (n mod 10)]"
definition dddd :: "int \<Rightarrow> string" where "dddd n = dd (n div 100) @ dd (n mod 100)"

definition iso_date :: "int \<times> int \<times> int \<Rightarrow> string" where
  "iso_date d = (case d of (y, m, k) \<Rightarrow> dddd y @ ''-'' @ dd m @ ''-'' @ dd k)"

section \<open>fromisoformat\<close>

definition digits_of :: "nat \<Rightarrow> string \<Rightarrow> int option" where
  "digits_of k s = (if length s = k \<and> list_all is_digit s then Some (number s) else None)"

definition ymd :: "string \<Rightarrow> string \<Rightarrow> string \<Rightarrow> (int \<times> int \<times> int) option" where
  "ymd ys ms ds =
     (case (digits_of 4 ys, digits_of 2 ms, digits_of 2 ds) of
        (Some y, Some m, Some d) \<Rightarrow> if valid_date (y, m, d) then Some (y, m, d) else None
      | _ \<Rightarrow> None)"

definition from_iso :: "(string \<Rightarrow> (int \<times> int \<times> int) option) \<Rightarrow> string \<Rightarrow> (int \<times> int \<times> int) option" where
  "from_iso week s =
     (if length s \<notin> {7, 8, 10} then None
      else if CHR ''W'' \<in> set (take 2 (drop 4 s)) then week s
      else if length s = 10 \<and> s ! 4 = CHR ''-'' \<and> s ! 7 = CHR ''-''
        then ymd (take 4 s) (take 2 (drop 5 s)) (drop 8 s)
      else if length s = 8 then ymd (take 4 s) (take 2 (drop 4 s)) (drop 6 s)
      else None)"

section \<open>strptime\<close>

text \<open>A token of exactly \<open>k\<close> digits with its value in a range.\<close>

definition take_num :: "nat \<Rightarrow> int \<Rightarrow> int \<Rightarrow> string \<Rightarrow> (int \<times> string) list" where
  "take_num k lo hi s =
     (if k \<le> length s \<and> list_all is_digit (take k s) \<and> lo \<le> number (take k s) \<and> number (take k s) \<le> hi
      then [(number (take k s), drop k s)] else [])"

text \<open>\<open>1[0-2]|0[1-9]|[1-9]\<close>, \<open>3[0-1]|[1-2]\d|0[1-9]|[1-9]| [1-9]\<close> and \<open>\d\d\d\d\<close>.\<close>

definition month :: "string \<Rightarrow> (int \<times> string) list" where
  "month s = take_num 2 10 12 s @ take_num 2 1 9 s @ take_num 1 1 9 s"

definition day :: "string \<Rightarrow> (int \<times> string) list" where
  "day s = take_num 2 30 31 s @ take_num 2 10 29 s @ take_num 2 1 9 s @ take_num 1 1 9 s @
     (case s of c # r \<Rightarrow> if c = CHR '' '' then take_num 1 1 9 r else [] | [] \<Rightarrow> [])"

definition year :: "string \<Rightarrow> (int \<times> string) list" where
  "year s = take_num 4 0 9999 s"

definition lit :: "string \<Rightarrow> string \<Rightarrow> string list" where
  "lit p s = (if take (length p) s = p then [drop (length p) s] else [])"

definition month_first :: "string \<Rightarrow> string \<Rightarrow> ((int \<times> int \<times> int) \<times> string) list" where
  "month_first sep s =
     concat (map (\<lambda>(m, s1). concat (map (\<lambda>s2. concat (map (\<lambda>(d, s3). concat (map (\<lambda>s4.
       map (\<lambda>(y, s5). ((y, m, d), s5)) (year s4)) (lit sep s3))) (day s2))) (lit sep s1))) (month s))"

definition year_first :: "string \<Rightarrow> ((int \<times> int \<times> int) \<times> string) list" where
  "year_first s =
     concat (map (\<lambda>(y, s1). concat (map (\<lambda>(m, s2). map (\<lambda>(d, s3). ((y, m, d), s3)) (day s2)) (month s1))) (year s))"

definition strptime :: "((int \<times> int \<times> int) \<times> string) list \<Rightarrow> (int \<times> int \<times> int) option" where
  "strptime matches =
     (case matches of
        [] \<Rightarrow> None
      | (d, rest) # _ \<Rightarrow> if rest = [] \<and> valid_date d then Some d else None)"

definition to_iso_date :: "(string \<Rightarrow> (int \<times> int \<times> int) option) \<Rightarrow> string \<Rightarrow> string" where
  "to_iso_date week s =
     (let v = py_strip s in
      if v = [] then []
      else case from_iso week v of
        Some d \<Rightarrow> iso_date d
      | None \<Rightarrow> (case strptime (month_first ''/'' v) of
          Some d \<Rightarrow> iso_date d
        | None \<Rightarrow> (case strptime (month_first ''-'' v) of
            Some d \<Rightarrow> iso_date d
          | None \<Rightarrow> (case strptime (month_first [] v) of
              Some d \<Rightarrow> iso_date d
            | None \<Rightarrow> (case strptime (year_first v) of Some d \<Rightarrow> iso_date d | None \<Rightarrow> v)))))"

section \<open>Every spelling of a date gives its ISO form\<close>

lemma dig_props:
  assumes "0 \<le> n" and "n \<le> 9"
  shows "is_digit (dig n)" "undig (dig n) = n" "\<not> is_space (dig n)"
proof -
  have "n = 0 \<or> n = 1 \<or> n = 2 \<or> n = 3 \<or> n = 4 \<or> n = 5 \<or> n = 6 \<or> n = 7 \<or> n = 8 \<or> n = 9"
    using assms by presburger
  then show "is_digit (dig n)" "undig (dig n) = n" "\<not> is_space (dig n)"
    by (auto simp: dig_def undig_def is_digit_def is_space_def char_code_def)
qed

lemma not_digit: "\<not> is_digit (CHR ''/'')" "\<not> is_digit (CHR ''-'')"
  by (simp_all add: is_digit_def char_code_def)

lemma dd_props:
  assumes "0 \<le> n" and "n \<le> 99"
  shows "length (dd n) = 2" "list_all is_digit (dd n)" "number (dd n) = n" "\<forall>c \<in> set (dd n). \<not> is_space c"
proof -
  have r: "0 \<le> n div 10" "n div 10 \<le> 9" "0 \<le> n mod 10" "n mod 10 \<le> 9" using assms by auto
  then show "length (dd n) = 2" "list_all is_digit (dd n)" "\<forall>c \<in> set (dd n). \<not> is_space c"
    by (simp_all add: dd_def dig_props)
  show "number (dd n) = n" using r by (simp add: dd_def number_def dig_props)
qed

lemma dddd_props:
  assumes "0 \<le> n" and "n \<le> 9999"
  shows "length (dddd n) = 4" "list_all is_digit (dddd n)" "number (dddd n) = n" "\<forall>c \<in> set (dddd n). \<not> is_space c"
proof -
  have r: "0 \<le> n div 100" "n div 100 \<le> 99" "0 \<le> n mod 100" "n mod 100 \<le> 99" using assms by auto
  note d = dd_props [OF r(1,2)] dd_props [OF r(3,4)]
  show "length (dddd n) = 4" "list_all is_digit (dddd n)" "\<forall>c \<in> set (dddd n). \<not> is_space c"
    using d by (auto simp: dddd_def)
  obtain a b c e where "dd (n div 100) = [a, b]" "dd (n mod 100) = [c, e]" by (simp add: dd_def)
  then have n: "number (dddd n) = 100 * number (dd (n div 100)) + number (dd (n mod 100))"
    by (simp add: dddd_def number_def)
  have "number (dddd n) = 100 * (n div 100) + n mod 100" using n d(3,7) by simp
  moreover have "100 * (n div 100) + n mod 100 = n" by (rule mult_div_mod_eq)
  ultimately show "number (dddd n) = n" by linarith
qed

lemma take_num_app:
  assumes "length w = k" and "list_all is_digit w"
  shows "take_num k lo hi (w @ s) = (if lo \<le> number w \<and> number w \<le> hi then [(number w, s)] else [])"
  using assms by (simp add: take_num_def)

lemma take_num_sep: "\<not> is_digit c \<Longrightarrow> length w < k \<Longrightarrow> take_num k lo hi (w @ c # s) = []"
  by (simp add: take_num_def take_Cons')

lemma month_dd:
  assumes "1 \<le> m" and "m \<le> 12"
  shows "\<exists>more. month (dd m @ s) = (m, s) # more"
proof -
  have d: "length (dd m) = 2" "list_all is_digit (dd m)" "number (dd m) = m"
    using dd_props [of m] assms by simp_all
  show ?thesis
    using assms by (cases "10 \<le> m") (simp_all add: month_def take_num_app [OF d(1,2)] d(3))
qed

lemma day_dd:
  assumes "1 \<le> n" and "n \<le> 31"
  shows "\<exists>more. day (dd n @ s) = (n, s) # more"
proof -
  have d: "length (dd n) = 2" "list_all is_digit (dd n)" "number (dd n) = n"
    using dd_props [of n] assms by simp_all
  have "n \<in> {30..31} \<or> n \<in> {10..29} \<or> n \<in> {1..9}" using assms by auto
  then show ?thesis
    by (elim disjE) (simp_all add: day_def take_num_app [OF d(1,2)] d(3))
qed

lemma month_d:
  assumes "1 \<le> m" and "m \<le> 9" and "\<not> is_digit c"
  shows "month (dig m # c # s) = [(m, c # s)]"
proof -
  have d: "is_digit (dig m)" "undig (dig m) = m" using dig_props [of m] assms by simp_all
  show ?thesis
    using take_num_app [of "[dig m]" 1 1 9 "c # s"] take_num_sep [OF assms(3), of "[dig m]" 2] d assms
    by (simp add: month_def number_def)
qed

lemma day_d:
  assumes "1 \<le> n" and "n \<le> 9" and "\<not> is_digit c"
  shows "\<exists>more. day (dig n # c # s) = (n, c # s) # more"
proof -
  have d: "is_digit (dig n)" "undig (dig n) = n" using dig_props [of n] assms by simp_all
  show ?thesis
    using take_num_app [of "[dig n]" 1 1 9 "c # s"] take_num_sep [OF assms(3), of "[dig n]" 2] d assms
    by (simp add: day_def number_def)
qed

lemma year_dddd: "0 \<le> y \<Longrightarrow> y \<le> 9999 \<Longrightarrow> year (dddd y) = [(y, [])]"
  using take_num_app [of "dddd y" 4 0 9999 "[]"] dddd_props [of y] by (simp add: year_def)

text \<open>A spelling of a number of one or two digits.\<close>

definition spells :: "string \<Rightarrow> int \<Rightarrow> bool" where
  "spells w n = (w = dd n \<or> (n \<le> 9 \<and> w = [dig n]))"

lemma strptime_month_first:
  assumes "valid_date (y, m, d)" and "spells ms m" and "spells ds d" and "\<not> is_digit c"
  shows "strptime (month_first [c] (ms @ c # ds @ c # dddd y)) = Some (y, m, d)"
proof -
  have r: "1 \<le> m" "m \<le> 12" "1 \<le> d" "d \<le> 31" "0 \<le> y" "y \<le> 9999"
    using assms(1) by (auto simp: valid_date_def days_in_month_def split: if_splits)
  obtain mm where m: "month (ms @ c # ds @ c # dddd y) = (m, c # ds @ c # dddd y) # mm"
    using month_dd [OF r(1,2)] month_d [OF r(1) _ assms(4)] assms(2) unfolding spells_def by (metis append_Cons append_Nil)
  obtain md where d: "day (ds @ c # dddd y) = (d, c # dddd y) # md"
    using day_dd [OF r(3,4)] day_d [OF r(3) _ assms(4)] assms(3) unfolding spells_def by (metis append_Cons append_Nil)
  show ?thesis
    using assms(1) by (simp add: strptime_def month_first_def m d lit_def year_dddd [OF r(5,6)])
qed

lemma strptime_packed:
  assumes "valid_date (y, m, d)"
  shows "strptime (month_first [] (dd m @ dd d @ dddd y)) = Some (y, m, d)"
proof -
  have r: "1 \<le> m" "m \<le> 12" "1 \<le> d" "d \<le> 31" "0 \<le> y" "y \<le> 9999"
    using assms by (auto simp: valid_date_def days_in_month_def split: if_splits)
  obtain mm where m: "month (dd m @ dd d @ dddd y) = (m, dd d @ dddd y) # mm" using month_dd [OF r(1,2)] by blast
  obtain md where d: "day (dd d @ dddd y) = (d, dddd y) # md" using day_dd [OF r(3,4)] by blast
  show ?thesis
    using assms by (simp add: strptime_def month_first_def m d lit_def year_dddd [OF r(5,6)])
qed

lemma month_first_sep: "c \<notin> set v \<Longrightarrow> month_first [c] v = []"
proof -
  assume c: "c \<notin> set v"
  have sub: "set s1 \<subseteq> set v" if "(m, s1) \<in> set (month v)" for m s1
    using that by (auto simp: month_def take_num_def split: if_splits dest: in_set_dropD)
  have "lit [c] s1 = []" if "(m, s1) \<in> set (month v)" for m s1
    using sub [OF that] c by (cases s1) (auto simp: lit_def)
  then show ?thesis unfolding month_first_def by (fastforce simp: concat_eq_Nil_conv)
qed

lemma ymd_dd:
  assumes "valid_date (y, m, d)"
  shows "ymd (dddd y) (dd m) (dd d) = Some (y, m, d)"
proof -
  have r: "0 \<le> m" "m \<le> 99" "0 \<le> d" "d \<le> 99" "0 \<le> y" "y \<le> 9999"
    using assms by (auto simp: valid_date_def days_in_month_def split: if_splits)
  show ?thesis
    using assms dd_props [OF r(1,2)] dd_props [OF r(3,4)] dddd_props [OF r(5,6)] by (simp add: ymd_def digits_of_def)
qed

lemma ymd_not_digit: "\<not> list_all is_digit ys \<Longrightarrow> ymd ys ms ds = None"
  by (simp add: ymd_def digits_of_def)

lemma strip_date:
  "v \<noteq> [] \<Longrightarrow> \<forall>c \<in> set v. \<not> is_space c \<Longrightarrow> py_strip v = v"
  by (rule py_strip_ident) auto

definition spellings :: "int \<Rightarrow> int \<Rightarrow> int \<Rightarrow> string \<Rightarrow> string \<Rightarrow> string set" where
  "spellings y m d ms ds =
     {iso_date (y, m, d), dddd y @ dd m @ dd d, ms @ ''/'' @ ds @ ''/'' @ dddd y,
      ms @ ''-'' @ ds @ ''-'' @ dddd y, dd m @ dd d @ dddd y}"

lemma from_iso_none:
  assumes "CHR ''W'' \<notin> set v" and "c \<in> set v" and "\<not> is_digit c" and "length v = 10 \<Longrightarrow> v ! 4 \<noteq> CHR ''-''"
  shows "from_iso week v = None"
proof -
  have w: "CHR ''W'' \<notin> set (take 2 (drop 4 v))"
    using assms(1) by (meson in_set_dropD in_set_takeD)
  have "ymd (take 4 v) (take 2 (drop 4 v)) (drop 6 v) = None"
  proof (rule ccontr)
    assume "ymd (take 4 v) (take 2 (drop 4 v)) (drop 6 v) \<noteq> None"
    then have "list_all is_digit (take 4 v)" "list_all is_digit (take 2 (drop 4 v))" "list_all is_digit (drop 6 v)"
      by (auto simp: ymd_def digits_of_def split: option.splits if_splits)
    moreover have "v = take 4 v @ take 2 (drop 4 v) @ drop 6 v"
      using append_take_drop_id [of 4 v] append_take_drop_id [of 2 "drop 4 v"] by simp
    ultimately have "list_all is_digit v" by (metis list_all_append)
    with assms(2,3) show False by (auto simp: list_all_iff)
  qed
  with w assms(4) show ?thesis by (simp add: from_iso_def)
qed

lemma from_iso_cases:
  assumes "valid_date (y, m, d)" and "1300 \<le> y" and "spells ms m" and "spells ds d"
  shows "from_iso week (iso_date (y, m, d)) = Some (y, m, d)"
    "from_iso week (dddd y @ dd m @ dd d) = Some (y, m, d)"
    "from_iso week (ms @ ''/'' @ ds @ ''/'' @ dddd y) = None"
    "from_iso week (ms @ ''-'' @ ds @ ''-'' @ dddd y) = None"
    "from_iso week (dd m @ dd d @ dddd y) = None"
proof -
  have r: "0 \<le> m" "m \<le> 99" "0 \<le> d" "d \<le> 99" "0 \<le> y" "y \<le> 9999"
    using assms(1) by (auto simp: valid_date_def days_in_month_def split: if_splits)
  have r2: "0 \<le> y div 100" "y div 100 \<le> 99" "0 \<le> y mod 100" "y mod 100 \<le> 99" using r by auto
  obtain a1 a2 where a: "dd m = [a1, a2]" by (simp add: dd_def)
  obtain b1 b2 where b: "dd d = [b1, b2]" by (simp add: dd_def)
  obtain c1 c2 where c: "dd (y div 100) = [c1, c2]" by (simp add: dd_def)
  obtain c3 c4 where e: "dd (y mod 100) = [c3, c4]" by (simp add: dd_def)
  have f: "dddd y = [c1, c2, c3, c4]" using c e by (simp add: dddd_def)
  have dg: "is_digit x" if "x \<in> {a1, a2, b1, b2, c1, c2, c3, c4}" for x
    using that dd_props [OF r(1,2)] dd_props [OF r(3,4)] dd_props [OF r2(1,2)] dd_props [OF r2(3,4)] a b c e by auto
  have nw: "x \<noteq> CHR ''W''" "x \<noteq> CHR ''-''" if "x \<in> {a1, a2, b1, b2, c1, c2, c3, c4}" for x
    using dg [OF that] by (auto simp: is_digit_def char_code_def)
  note ch = nw(1) [THEN not_sym] nw(2) nw(2) [THEN not_sym]
  show "from_iso week (iso_date (y, m, d)) = Some (y, m, d)"
    using ymd_dd [OF assms(1)] ch by (simp add: from_iso_def iso_date_def a b f)
  show "from_iso week (dddd y @ dd m @ dd d) = Some (y, m, d)"
    using ymd_dd [OF assms(1)] ch by (simp add: from_iso_def a b f)
  have ms: "ms = [a1, a2] \<or> (\<exists>x. ms = [x] \<and> x = a2)" and ds: "ds = [b1, b2] \<or> (\<exists>x. ds = [x] \<and> x = b2)"
    using assms(3,4) a b r by (auto simp: spells_def dd_def)
  have all: "list_all is_digit ms" "list_all is_digit ds" "list_all is_digit (dddd y)"
    using dd_props(2) [OF r(1,2)] dd_props(2) [OF r(3,4)] dddd_props(2) [OF r(5,6)] ms ds a b by auto
  have "\<not> is_digit (CHR ''W'')" by (simp add: is_digit_def char_code_def)
  then have "CHR ''W'' \<notin> set ms" "CHR ''W'' \<notin> set ds" "CHR ''W'' \<notin> set (dddd y)"
    using all unfolding list_all_iff by blast+
  then have nW: "CHR ''W'' \<notin> set (ms @ z @ ds @ z @ dddd y)" if "z = ''/'' \<or> z = ''-''" for z
    using that by auto
  show "from_iso week (ms @ ''/'' @ ds @ ''/'' @ dddd y) = None"
  proof (rule from_iso_none [OF nW _ not_digit(1)])
    assume "length (ms @ ''/'' @ ds @ ''/'' @ dddd y) = 10"
    then have "ms = [a1, a2]" "ds = [b1, b2]" using ms ds f by auto
    then show "(ms @ ''/'' @ ds @ ''/'' @ dddd y) ! 4 \<noteq> CHR ''-''" using ch by simp
  qed simp_all
  show "from_iso week (ms @ ''-'' @ ds @ ''-'' @ dddd y) = None"
  proof (rule from_iso_none [OF nW _ not_digit(2)])
    assume "length (ms @ ''-'' @ ds @ ''-'' @ dddd y) = 10"
    then have "ms = [a1, a2]" "ds = [b1, b2]" using ms ds f by auto
    then show "(ms @ ''-'' @ ds @ ''-'' @ dddd y) ! 4 \<noteq> CHR ''-''" using ch by simp
  qed simp_all
  have "number [c1, c2] = y div 100" using dd_props [OF r2(1,2)] c by simp
  then have "\<not> valid_date (k, number [c1, c2], l)" for k l using assms(2) by (simp add: valid_date_def)
  then show "from_iso week (dd m @ dd d @ dddd y) = None"
    using ch by (simp add: from_iso_def a b f ymd_def digits_of_def split: option.splits)
qed

text \<open>Every spelling of a birth date that the form accepts is normalised to the same text.\<close>

lemma to_iso_spelling:
  assumes "valid_date (y, m, d)" and "1300 \<le> y" and "spells ms m" and "spells ds d"
    and "py_strip v \<in> spellings y m d ms ds"
  shows "to_iso_date week v = iso_date (y, m, d)"
proof -
  note f = from_iso_cases [OF assms(1-4)]
  have r: "0 \<le> m" "m \<le> 99" "0 \<le> d" "d \<le> 99" "0 \<le> y" "y \<le> 9999" "m \<le> 12" "1 \<le> m" "1 \<le> d" "d \<le> 31"
    using assms(1) by (auto simp: valid_date_def days_in_month_def split: if_splits)
  have ne: "py_strip v \<noteq> []"
    using assms(5) dddd_props(1) [OF r(5,6)] by (auto simp: spellings_def iso_date_def)
  have dg: "list_all is_digit (dd m)" "list_all is_digit (dd d)" "list_all is_digit (dddd y)"
      "list_all is_digit ms" "list_all is_digit ds"
    using dd_props(2) [OF r(1,2)] dd_props(2) [OF r(3,4)] dddd_props(2) [OF r(5,6)] dig_props(1) [of m] dig_props(1) [of d]
      assms(3,4) r by (auto simp: spells_def)
  have sd: "CHR ''/'' \<notin> set w" "CHR ''-'' \<notin> set w" if "list_all is_digit w" for w
    using that not_digit by (auto simp: list_all_iff)
  note nd = not_digit
  from assms(5) consider
      "py_strip v = iso_date (y, m, d)" | "py_strip v = dddd y @ dd m @ dd d"
    | "py_strip v = ms @ ''/'' @ ds @ ''/'' @ dddd y" | "py_strip v = ms @ ''-'' @ ds @ ''-'' @ dddd y"
    | "py_strip v = dd m @ dd d @ dddd y"
    by (auto simp: spellings_def)
  then show ?thesis
  proof cases
    case 3
    then show ?thesis
      using f(3) strptime_month_first [OF assms(1,3,4) nd(1)] ne by (simp add: to_iso_date_def Let_def)
  next
    case 4
    have "CHR ''/'' \<notin> set (ms @ ''-'' @ ds @ ''-'' @ dddd y)"
      using sd(1) [OF dg(3)] sd(1) [OF dg(4)] sd(1) [OF dg(5)] by simp
    from month_first_sep [OF this] show ?thesis
      using 4 f(4) strptime_month_first [OF assms(1,3,4) nd(2)] ne by (simp add: to_iso_date_def Let_def strptime_def)
  next
    case 5
    have n: "CHR ''/'' \<notin> set (dd m @ dd d @ dddd y)" "CHR ''-'' \<notin> set (dd m @ dd d @ dddd y)"
      using sd [OF dg(1)] sd [OF dg(2)] sd [OF dg(3)] by simp_all
    have "dddd y \<noteq> []" using dddd_props(1) [OF r(5,6)] by auto
    with month_first_sep [OF n(1)] month_first_sep [OF n(2)] show ?thesis
      using 5 f(5) strptime_packed [OF assms(1)] by (simp add: to_iso_date_def Let_def strptime_def)
  next
    case 1
    then have "from_iso week (py_strip v) = Some (y, m, d)" using f(1) by simp
    with ne show ?thesis by (simp add: to_iso_date_def Let_def)
  next
    case 2
    then have "from_iso week (py_strip v) = Some (y, m, d)" using f(2) by simp
    with ne show ?thesis by (simp add: to_iso_date_def Let_def)
  qed
qed

end
