(* ===== verification/Access.thy ===== *)
theory Access
  imports Gates Sealing Dates
begin

text \<open>
  Access to an envelope (\<open>sign/esign_access.py\<close>): the sender's access-lock challenge (normalising,
  hashing, verifying, locking out), the envelope session and its guard, the match of a verified
  address to a signer, and the mailed one-time code. One clock reading serves a call. Strings are
  Latin-1; the micro sign, the one such letter whose case folding leaves that range, is kept.
\<close>

record access_env =
  ax_auth :: auth_env
  ax_fernet :: "fernet option"
  ax_mail_ok :: "string \<Rightarrow> bool"
  ax_week :: "string \<Rightarrow> (int \<times> int \<times> int) option"

definition on_site_auth :: "(auth_db \<Rightarrow> 'a \<times> auth_db) \<Rightarrow> site \<Rightarrow> 'a \<times> site" where
  "on_site_auth f s = (case on_auth f (st_portal s) of (r, p) \<Rightarrow> (r, s\<lparr>st_portal := p\<rparr>))"

definition upd_auth :: "(auth_db \<Rightarrow> auth_db) \<Rightarrow> site \<Rightarrow> site" where
  "upd_auth f s = s\<lparr>st_portal := (st_portal s)\<lparr>p_auth := f (p_auth (st_portal s))\<rparr>\<rparr>"

abbreviation auth_of :: "site \<Rightarrow> auth_db" where
  "auth_of s \<equiv> p_auth (st_portal s)"

definition upd_world :: "(world \<Rightarrow> world) \<Rightarrow> site \<Rightarrow> site" where
  "upd_world f s = s\<lparr>st_world := f (st_world s)\<rparr>"

section \<open>Challenge values\<close>

definition casefold :: "string \<Rightarrow> string" where
  "casefold s = concat (map (\<lambda>c. if char_code c = 223 then ''ss'' else [lower_char c]) s)"

text \<open>\<open>re.sub(r"\s+", " ", v)\<close>.\<close>

fun squeeze :: "bool \<Rightarrow> string \<Rightarrow> string" where
  "squeeze sp [] = []"
| "squeeze sp (c # s) =
     (if is_space c then (if sp then squeeze True s else CHR '' '' # squeeze True s) else c # squeeze False s)"

definition normalize_text :: "access_env \<Rightarrow> string \<Rightarrow> string \<Rightarrow> string" where
  "normalize_text ax v ctype =
     (let t = py_strip v in
      if ctype = ''code'' \<or> ctype = ''text'' then casefold (squeeze False t)
      else if ctype = ''ssn'' \<or> ctype = ''ssn_last4'' then filter is_digit t
      else if ctype = ''dob'' then to_iso_date (ax_week ax) t
      else t)"

text \<open>\<open>value or ""\<close> of a JSON value; a number, list or object has no \<open>strip\<close>.\<close>

definition normalize_challenge :: "access_env \<Rightarrow> json \<Rightarrow> string \<Rightarrow> py_exc + string" where
  "normalize_challenge ax value ctype =
     (if \<not> truthy value then Inr (normalize_text ax [] ctype)
      else case value of JStr v \<Rightarrow> Inr (normalize_text ax v ctype) | _ \<Rightarrow> Inl AttributeError)"

definition PBKDF2_ITERS :: int where "PBKDF2_ITERS = 200000"

definition chal_digest :: "access_env \<Rightarrow> string \<Rightarrow> bytes \<Rightarrow> bytes" where
  "chal_digest ax normalized salt = ae_pbkdf2 (ax_auth ax) (utf8 normalized) salt PBKDF2_ITERS"

definition hash_challenge :: "access_env \<Rightarrow> bytes \<Rightarrow> json \<Rightarrow> string \<Rightarrow> py_exc + (string \<times> string \<times> int)" where
  "hash_challenge ax salt value ctype =
     try_bind (normalize_challenge ax value ctype) (\<lambda>v.
       Inr (b64encode salt, encrypt (ax_fernet ax) (b64encode (chal_digest ax v salt)), PBKDF2_ITERS))"

section \<open>Verifying a challenge\<close>

definition chal_key :: "int \<Rightarrow> string" where
  "chal_key sid = ''chal:'' @ py_str sid"

definition chal_ip_key :: "int \<Rightarrow> string \<Rightarrow> string" where
  "chal_ip_key sid ip = chal_key sid @ '':'' @ ip"

definition chal_fails :: "string \<Rightarrow> auth_db \<Rightarrow> int" where
  "chal_fails k d = (case locks d k of None \<Rightarrow> 0 | Some r \<Rightarrow> lk_fails r)"

datatype chal_result = ChalOk | ChalLocked time | ChalTryAgain int

text \<open>The record a signer's row carries, and the comparison; \<open>None\<close> is an exception inside it.\<close>

definition has_record :: "signer \<Rightarrow> bool" where
  "has_record s = (has_challenge s \<and> s_challenge_hash s \<noteq> [])"

definition chal_matches :: "access_env \<Rightarrow> signer \<Rightarrow> json \<Rightarrow> bool option" where
  "chal_matches ax s value =
     (case b64decode (decrypt (ax_fernet ax) (s_challenge_hash s)) of
        None \<Rightarrow> None
      | Some stored \<Rightarrow>
          (case (if s_challenge_salt s = [] then Some (zero_bytes 16) else b64decode (s_challenge_salt s)) of
             None \<Rightarrow> None
           | Some salt \<Rightarrow>
               (case normalize_challenge ax value (s_challenge_type s) of
                  Inl e \<Rightarrow> None
                | Inr v \<Rightarrow> Some (chal_digest ax v salt = stored))))"

text \<open>Step 4: the verdict, and the signer the audit trail is written for.\<close>

definition chal_check :: "access_env \<Rightarrow> signer option \<Rightarrow> json \<Rightarrow> bool \<times> signer option" where
  "chal_check ax so value =
     (case so of
        None \<Rightarrow> (False, None)
      | Some s \<Rightarrow>
          if has_record s then
            (case chal_matches ax s value of None \<Rightarrow> (False, None) | Some ok \<Rightarrow> (ok, Some s))
          else (case normalize_challenge ax value ''code'' of Inl e \<Rightarrow> (False, None) | Inr v \<Rightarrow> (False, Some s)))"

definition chal_audit :: "time \<Rightarrow> string \<Rightarrow> bool \<Rightarrow> bool \<Rightarrow> int \<Rightarrow> signer \<Rightarrow> world \<Rightarrow> world" where
  "chal_audit now ip ok locked sid s w =
     (let ev = (\<lambda>ty. log_event (s_agr s) ty (Some sid) ip [] (''type='' @ s_challenge_type s) now w) in
      if ok then upd_sig sid (\<lambda>r. r\<lparr>s_challenge_passed_at := Some now\<rparr>) (ev ''ACCESS_CHALLENGE_PASSED'')
      else if locked then ev ''ACCESS_CHALLENGE_LOCKED''
      else ev ''ACCESS_CHALLENGE_FAILED'')"

definition verify_challenge ::
  "access_env \<Rightarrow> time \<Rightarrow> string \<Rightarrow> int \<Rightarrow> json \<Rightarrow> string \<Rightarrow> site \<Rightarrow> chal_result \<times> site" where
  "verify_challenge ax now env_id sid value ip st =
     (let lk = chal_ip_key sid ip in
      if auth_limit_locked now lk (auth_of st) then (ChalLocked 900, st)
      else (case on_site_auth (auth_rate_allowed now (chal_key sid) 40 3600) st of
          (False, st1) \<Rightarrow> (ChalLocked 120, st1)
        | (True, st1) \<Rightarrow>
            (let (ok, so) = chal_check ax (signer_for_envelope (st_world st1) env_id sid) value;
                 st2 = upd_auth (auth_limit_record now lk ok 5 900) st1;
                 locked = auth_limit_locked now lk (auth_of st2);
                 st3 = (case so of
                     None \<Rightarrow> st2
                   | Some s \<Rightarrow> if has_record s then upd_world (chal_audit now ip ok locked sid s) st2 else st2)
             in (if ok then ChalOk
                 else if locked then ChalLocked 900
                 else ChalTryAgain (max 0 (5 - chal_fails lk (auth_of st2))), st3))))"

section \<open>Envelope sessions\<close>

definition ENV_SESSION_TTL :: time where "ENV_SESSION_TTL = 1800"

definition env_payload ::
  "time \<Rightarrow> string \<Rightarrow> int \<Rightarrow> string \<Rightarrow> string \<Rightarrow> bool \<Rightarrow> int \<Rightarrow> payload" where
  "env_payload now env_id sid email meth chal_ok epoch =
     [(''k'', JStr ''envsess''), (''env_id'', JStr env_id), (''signer_id'', JInt sid),
      (''email_lc'', JStr (py_lower email)), (''m'', JStr meth), (''chal_ok'', JBool chal_ok),
      (''ep'', JInt epoch), (''exp'', JFloat (now + ENV_SESSION_TTL))]"

definition mint_env_session ::
  "auth_env \<Rightarrow> time \<Rightarrow> string \<Rightarrow> int \<Rightarrow> string \<Rightarrow> string \<Rightarrow> bool \<Rightarrow> int \<Rightarrow> string" where
  "mint_env_session ae now env_id sid email meth chal_ok epoch =
     tok_sign ae (env_payload now env_id sid email meth chal_ok epoch)"

definition read_env_session :: "auth_env \<Rightarrow> time \<Rightarrow> string option \<Rightarrow> payload option" where
  "read_env_session ae now = read_kind ae now ''envsess'' []"

datatype env_guard = EnvDeny | EnvVoided payload agr_view signer | EnvOk payload agr_view signer

text \<open>Members of a token the server signed: it only signs strings and integers here.\<close>

definition jint_of :: "payload \<Rightarrow> string \<Rightarrow> int" where
  "jint_of d k = (case jget d k of JInt i \<Rightarrow> i | _ \<Rightarrow> 0)"

definition require_env_session :: "auth_env \<Rightarrow> time \<Rightarrow> string \<Rightarrow> string option \<Rightarrow> world \<Rightarrow> env_guard" where
  "require_env_session ae now path_env ck w =
     (case read_env_session ae now ck of
        None \<Rightarrow> EnvDeny
      | Some d \<Rightarrow>
          (case agreement_by_envelope w (jstr d ''env_id'') of
             None \<Rightarrow> EnvDeny
           | Some v \<Rightarrow>
               if jstr d ''env_id'' \<noteq> path_env then EnvDeny
               else (case signer_for_envelope w (jstr d ''env_id'') (jint_of d ''signer_id'') of
                   None \<Rightarrow> EnvDeny
                 | Some s \<Rightarrow>
                     if s_agr s \<noteq> (if a_id (v_row v) = 0 then -1 else a_id (v_row v)) then EnvDeny
                     else if jint_of d ''ep'' \<noteq> a_epoch (v_row v) then EnvDeny
                     else if a_status (v_row v) \<in> {Voided, Cancelled} then EnvVoided d v s
                     else EnvOk d v s)))"

section \<open>Identity\<close>

definition match_google_signer :: "world \<Rightarrow> string \<Rightarrow> string \<Rightarrow> signer option" where
  "match_google_signer w env_id email =
     (let em = norm_email email in
      if em = [] then None
      else case agreement_by_envelope w env_id of
        None \<Rightarrow> None
      | Some v \<Rightarrow> find (\<lambda>s. norm_email (s_email s) = em) (v_signers v))"

definition resolve_signer_by_email :: "world \<Rightarrow> string \<Rightarrow> string \<Rightarrow> signer option" where
  "resolve_signer_by_email = match_google_signer"

text \<open>The signer rows have no \<open>phone\<close> column: the text-message channel finds no destination.\<close>

definition otp_destination :: "world \<Rightarrow> string \<Rightarrow> int \<Rightarrow> string \<Rightarrow> (string \<times> string) option" where
  "otp_destination w env_id sid channel =
     (case signer_for_envelope w env_id sid of
        None \<Rightarrow> None
      | Some s \<Rightarrow>
          if channel = ''sms'' then None
          else let to = py_strip (s_email s) in if to = [] then None else Some (''email'', to))"

section \<open>The mailed one-time code\<close>

definition chan :: "string \<Rightarrow> string" where
  "chan channel = (if channel = ''sms'' then ''sms'' else ''email'')"

definition otp_sent_key :: "int \<Rightarrow> string \<Rightarrow> string" where
  "otp_sent_key sid channel = ''env_otp_sent:'' @ py_str sid @ '':'' @ chan channel"

definition otp_lock_key :: "int \<Rightarrow> string \<Rightarrow> string" where
  "otp_lock_key sid channel = ''env:otp:'' @ py_str sid @ '':'' @ chan channel"

definition eotp_key :: "int \<Rightarrow> string" where
  "eotp_key sid = ''env_eotp:'' @ py_str sid"

definition EOTP_TTL :: time where "EOTP_TTL = 600"

text \<open>A number a setting holds; only numbers are ever stored under these keys.\<close>

definition jnum :: "json \<Rightarrow> real" where
  "jnum j = (case j of JFloat x \<Rightarrow> x | JInt i \<Rightarrow> real_of_int i | _ \<Rightarrow> 0)"

definition otp_send_fresh :: "time \<Rightarrow> int \<Rightarrow> string \<Rightarrow> auth_db \<Rightarrow> bool" where
  "otp_send_fresh now sid channel d = (now - jnum (get_setting (otp_sent_key sid channel) (JInt 0) d) \<le> 600)"

definition otp_mac :: "auth_env \<Rightarrow> string \<Rightarrow> string \<Rightarrow> string" where
  "otp_mac ae salt code = ae_mac ae (ae_secret ae) (utf8 (salt @ code))"

datatype otp_send = OtpRateLimited | OtpNoAddress | OtpLocked | OtpUndelivered | OtpSent

definition send_email_otp ::
  "access_env \<Rightarrow> time \<Rightarrow> string \<Rightarrow> string \<Rightarrow> int \<Rightarrow> string \<Rightarrow> site \<Rightarrow> otp_send \<times> site" where
  "send_email_otp ax now code salt sid to st =
     (let st1 = upd_auth (set_setting (eotp_key sid)
            (JObj [(''h'', JStr (otp_mac (ax_auth ax) salt code)), (''salt'', JStr salt), (''exp'', JFloat (now + EOTP_TTL))])) st
      in if \<not> ax_mail_ok ax to then (OtpUndelivered, upd_auth (set_setting (eotp_key sid) (JInt 0)) st1)
         else (OtpSent, upd_auth (set_setting (otp_sent_key sid ''email'') (JFloat now))
                 (st1\<lparr>st_portal := mail_to to ''otp'' code (st_portal st1)\<rparr>)))"

definition verify_email_otp :: "auth_env \<Rightarrow> time \<Rightarrow> int \<Rightarrow> string \<Rightarrow> auth_db \<Rightarrow> bool \<times> auth_db" where
  "verify_email_otp ae now sid code0 d =
     (let code = py_strip code0 in
      if \<not> (latin_isdigit code \<and> length code = 6) then (False, d)
      else (case get_setting (eotp_key sid) JNull d of
          JObj rec \<Rightarrow>
            if jnum (jget rec ''exp'') < now then (False, d)
            else if otp_mac ae (jstr rec ''salt'') code = jstr rec ''h'' then (True, set_setting (eotp_key sid) (JInt 0) d)
            else (False, d)
        | _ \<Rightarrow> (False, d)))"

definition send_env_otp ::
  "access_env \<Rightarrow> time \<Rightarrow> string \<Rightarrow> string \<Rightarrow> string \<Rightarrow> int \<Rightarrow> string \<Rightarrow> site \<Rightarrow> otp_send \<times> site" where
  "send_env_otp ax now code salt env_id sid channel st =
     (case on_site_auth (auth_rate_allowed now (''env:otpsend:'' @ py_str sid) 5 3600) st of
        (False, st1) \<Rightarrow> (OtpRateLimited, st1)
      | (True, st1) \<Rightarrow>
          (case otp_destination (st_world st1) env_id sid channel of
             None \<Rightarrow> (OtpNoAddress, st1)
           | Some (ch, to) \<Rightarrow>
               if auth_limit_locked now (otp_lock_key sid ch) (auth_of st1) then (OtpLocked, st1)
               else send_email_otp ax now code salt sid to st1))"

definition check_env_otp :: "auth_env \<Rightarrow> time \<Rightarrow> int \<Rightarrow> string \<Rightarrow> string \<Rightarrow> auth_db \<Rightarrow> bool \<times> auth_db" where
  "check_env_otp ae now sid code channel d =
     (let key = otp_lock_key sid channel in
      if auth_limit_locked now key d \<or> \<not> latin_isdigit (py_strip code) then (False, auth_limit_record now key False 5 900 d)
      else if \<not> otp_send_fresh now sid channel d then (False, d)
      else (case verify_email_otp ae now sid code d of (ok, d1) \<Rightarrow>
        (let d2 = auth_limit_record now key ok 5 900 d1
         in (ok, if ok then set_setting (otp_sent_key sid channel) (JInt 0) d2 else d2))))"

text \<open>\<open>_mask\<close> for an address; \<open>CHR 0x95\<close> stands for the bullet the display uses.\<close>

definition mask_email :: "string \<Rightarrow> string" where
  "mask_email to =
     (let bullets = replicate 4 (CHR 0x95) in
      if CHR ''@'' \<in> set to
      then take 1 (before_char (CHR ''@'') to) @ bullets @ ''@'' @ after_char (CHR ''@'') to
      else bullets)"

section \<open>What each step leaves alone\<close>

lemma on_site_auth_frames:
  assumes "on_site_auth f s = (r, s')"
  shows "st_world s' = st_world s" "auth_of s' = snd (f (auth_of s))" "r = fst (f (auth_of s))"
    "p_accounts (st_portal s') = p_accounts (st_portal s)"
  using assms by (auto simp: on_site_auth_def on_auth_def split: prod.splits)

lemma upd_auth_simps [simp]:
  "st_world (upd_auth f s) = st_world s" "auth_of (upd_auth f s) = f (auth_of s)"
  by (simp_all add: upd_auth_def)

lemma upd_world_simps [simp]:
  "st_world (upd_world f s) = f (st_world s)" "st_portal (upd_world f s) = st_portal s"
  by (simp_all add: upd_world_def)

lemma rate_allowed_locks [simp]: "locks (snd (auth_rate_allowed now k l w d)) = locks d"
  by (simp add: auth_rate_allowed_def Let_def)

lemma chal_audit_frames [simp]:
  "agreement_rows (chal_audit now ip ok lk sid s w) = agreement_rows w"
  "field_rows (chal_audit now ip ok lk sid s w) = field_rows w"
  "files (chal_audit now ip ok lk sid s w) = files w"
  by (simp_all add: chal_audit_def Let_def upd_sig_def)

lemma chal_audit_sig:
  "sig_row (chal_audit now ip ok lk sid s w) i =
     (if ok \<and> i = sid then map_option (\<lambda>r. r\<lparr>s_challenge_passed_at := Some now\<rparr>) (sig_row w i) else sig_row w i)"
proof -
  have l: "sig_row (log_event a b c d e f g w) j = sig_row w j" for a b c d e f g j by (simp add: sig_row_def)
  show ?thesis by (simp add: chal_audit_def Let_def sig.get_upd l)
qed

section \<open>A challenge opens to its answer and to nothing else\<close>

text \<open>Whether an attempt is compared at all.\<close>

definition looked_at :: "time \<Rightarrow> int \<Rightarrow> string \<Rightarrow> site \<Rightarrow> bool" where
  "looked_at now sid ip st =
     (\<not> auth_limit_locked now (chal_ip_key sid ip) (auth_of st) \<and>
      fst (auth_rate_allowed now (chal_key sid) 40 3600 (auth_of st)))"

lemma verify_not_looked_at:
  assumes "\<not> looked_at now sid ip st"
  shows "\<exists>t st'. (\<forall>ax env v. verify_challenge ax now env sid v ip st = (ChalLocked t, st')) \<and> st_world st' = st_world st \<and>
    locks (auth_of st') = locks (auth_of st)"
proof (cases "auth_limit_locked now (chal_ip_key sid ip) (auth_of st)")
  case True
  then show ?thesis by (intro exI [of _ 900] exI [of _ st]) (simp add: verify_challenge_def Let_def)
next
  case False
  obtain r st1 where r: "on_site_auth (auth_rate_allowed now (chal_key sid) 40 3600) st = (r, st1)" by fastforce
  with False assms have "\<not> r" using on_site_auth_frames(3) [OF r] by (simp add: looked_at_def)
  with False r show ?thesis
    by (intro exI [of _ 120] exI [of _ st1]) (simp add: verify_challenge_def Let_def on_site_auth_frames [OF r])
qed

lemma verify_looked_at:
  assumes "looked_at now sid ip st"
    and "chal_check ax (signer_for_envelope (st_world st) env sid) v = (ok, so)"
    and "verify_challenge ax now env sid v ip st = (r, st')"
  shows "(r = ChalOk) = ok"
    "locks (auth_of st') = locks (auth_limit_record now (chal_ip_key sid ip) ok 5 900 (snd (auth_rate_allowed now (chal_key sid) 40 3600 (auth_of st))))"
    "st_world st' = (case so of None \<Rightarrow> st_world st
       | Some s \<Rightarrow> if has_record s then chal_audit now ip ok (auth_limit_locked now (chal_ip_key sid ip) (auth_of st')) sid s (st_world st)
           else st_world st)"
proof -
  obtain st1 where a: "on_site_auth (auth_rate_allowed now (chal_key sid) 40 3600) st = (True, st1)"
    using assms(1) on_site_auth_frames(3) by (metis (full_types) looked_at_def prod.exhaust)
  note f = on_site_auth_frames [OF a]
  have v: "(r, st') = verify_challenge ax now env sid v ip st" using assms(3) by simp
  have nl: "\<not> auth_limit_locked now (chal_ip_key sid ip) (auth_of st)" using assms(1) by (simp add: looked_at_def)
  show "(r = ChalOk) = ok"
    "locks (auth_of st') = locks (auth_limit_record now (chal_ip_key sid ip) ok 5 900 (snd (auth_rate_allowed now (chal_key sid) 40 3600 (auth_of st))))"
    "st_world st' = (case so of None \<Rightarrow> st_world st
       | Some s \<Rightarrow> if has_record s then chal_audit now ip ok (auth_limit_locked now (chal_ip_key sid ip) (auth_of st')) sid s (st_world st)
           else st_world st)"
    using v nl by (auto simp: verify_challenge_def Let_def a assms(2) f(1,2) split: option.splits if_splits)
qed

lemma chal_check_ok:
  "chal_check ax so v = (True, so') \<Longrightarrow> \<exists>s. so = Some s \<and> so' = Some s \<and> has_record s \<and> chal_matches ax s v = Some True"
  by (auto simp: chal_check_def split: option.splits if_splits sum.splits)

text \<open>Only the right answer opens the lock, and only this signer's: an attempt is answered with success exactly
  if it was looked at and its digest is the stored one; then the signer's row gets its passing mark, and
  nothing but that mark and audit events is ever written to the envelopes, whatever the attempt.\<close>

theorem challenge_opens_exactly:
  assumes "verify_challenge ax now env sid v ip st = (r, st')"
  shows "(r = ChalOk) = (looked_at now sid ip st \<and>
      (\<exists>s. signer_for_envelope (st_world st) env sid = Some s \<and> has_record s \<and> chal_matches ax s v = Some True)) \<and>
    (\<forall>i. sig_row (st_world st') i =
       (if r = ChalOk \<and> i = sid then map_option (\<lambda>s. s\<lparr>s_challenge_passed_at := Some now\<rparr>) (sig_row (st_world st) i)
        else sig_row (st_world st) i)) \<and>
    agreement_rows (st_world st') = agreement_rows (st_world st) \<and> field_rows (st_world st') = field_rows (st_world st) \<and>
    files (st_world st') = files (st_world st)"
proof (cases "looked_at now sid ip st")
  case False
  from verify_not_looked_at [OF this] obtain t st2 where
    n: "\<And>ax env v. verify_challenge ax now env sid v ip st = (ChalLocked t, st2)" "st_world st2 = st_world st" by metis
  have "r = ChalLocked t \<and> st' = st2" using n(1) [of ax env v] assms by simp
  with n(2) False show ?thesis by simp
next
  case True
  obtain ok so where c: "chal_check ax (signer_for_envelope (st_world st) env sid) v = (ok, so)" by fastforce
  note l = verify_looked_at [OF True c assms]
  have q: "ok = (\<exists>s. signer_for_envelope (st_world st) env sid = Some s \<and> has_record s \<and> chal_matches ax s v = Some True)"
    using c chal_check_ok [of ax "signer_for_envelope (st_world st) env sid" v so]
    by (auto simp: chal_check_def split: option.splits if_splits sum.splits)
  show ?thesis
  proof (cases ok)
    case ok: True
    with c chal_check_ok [of ax _ v so] obtain s where s: "so = Some s" "has_record s" by auto
    show ?thesis using True l(1) q ok unfolding l(3) s(1) by (simp add: s(2) chal_audit_sig)
  next
    case bad: False
    have w: "sig_row (st_world st') i = sig_row (st_world st) i" "agreement_rows (st_world st') = agreement_rows (st_world st)"
        "field_rows (st_world st') = field_rows (st_world st)" "files (st_world st') = files (st_world st)" for i
      unfolding l(3) using bad by (simp_all add: chal_audit_sig split: option.splits)
    have "r \<noteq> ChalOk" using l(1) bad by simp
    with bad w show ?thesis unfolding q [symmetric] by simp
  qed
qed

text \<open>Two texts spell the same day.\<close>

definition same_day :: "string \<Rightarrow> string \<Rightarrow> bool" where
  "same_day x x' = (\<exists>y m d ms ds ms' ds'. valid_date (y, m, d) \<and> 1300 \<le> y \<and> spells ms m \<and> spells ds d \<and>
     spells ms' m \<and> spells ds' d \<and> py_strip x \<in> spellings y m d ms ds \<and> py_strip x' \<in> spellings y m d ms' ds')"

lemma normalize_same_day: "same_day x x' \<Longrightarrow> normalize_text ax x ''dob'' = normalize_text ax x' ''dob''"
proof -
  assume "same_day x x'"
  then obtain y m d ms ds ms' ds' where h: "valid_date (y, m, d)" "1300 \<le> y" "spells ms m" "spells ds d"
      "spells ms' m" "spells ds' d" "py_strip x \<in> spellings y m d ms ds" "py_strip x' \<in> spellings y m d ms' ds'"
    by (auto simp: same_day_def)
  have "to_iso_date (ax_week ax) (py_strip x) = iso_date (y, m, d)" "to_iso_date (ax_week ax) (py_strip x') = iso_date (y, m, d)"
    using to_iso_spelling [OF h(1-4)] to_iso_spelling [OF h(1,2,5,6)] h(7,8) by (simp_all add: py_strip_idem)
  then show ?thesis by (simp add: normalize_text_def Let_def)
qed

text \<open>Property C31. A lock set with an answer opens to that answer and its spellings: a later attempt that is looked at
  succeeds exactly if its normal form has the digest of the normal form the sender chose; for a birth date
  that is so for every accepted spelling of the same day.\<close>

theorem challenge_roundtrip:
  assumes "hash_challenge ax salt value ctype = Inr (sb, wrapped, iters)" and "salt \<noteq> []"
    and "\<And>f x. ax_fernet ax = Some f \<Longrightarrow> f_decrypt f (f_encrypt f x) = Some x"
    and "signer_for_envelope (st_world st) env sid = Some s" and "has_challenge s"
    and "s_challenge_type s = ctype" and "s_challenge_salt s = sb" and "s_challenge_hash s = wrapped"
    and "looked_at now sid ip st"
  shows "\<exists>v0. normalize_challenge ax value ctype = Inr v0 \<and>
    (\<forall>answer v1. normalize_challenge ax answer ctype = Inr v1 \<longrightarrow>
       (fst (verify_challenge ax now env sid answer ip st) = ChalOk) = (chal_digest ax v1 salt = chal_digest ax v0 salt)) \<and>
    (\<forall>x x'. ctype = ''dob'' \<and> value = JStr x \<and> same_day x x' \<and> x' \<noteq> [] \<longrightarrow>
       fst (verify_challenge ax now env sid (JStr x') ip st) = ChalOk)"
proof -
  obtain v0 where v0: "normalize_challenge ax value ctype = Inr v0"
    using assms(1) by (cases "normalize_challenge ax value ctype") (auto simp: hash_challenge_def)
  have h: "sb = b64encode salt" "wrapped = encrypt (ax_fernet ax) (b64encode (chal_digest ax v0 salt))"
    using assms(1) v0 by (auto simp: hash_challenge_def)
  have d: "decrypt (ax_fernet ax) wrapped = b64encode (chal_digest ax v0 salt)"
    unfolding h(2) using assms(3) by (intro decrypt_encrypt)
  have "b64encode salt \<noteq> []" using assms(2) by (cases salt rule: b64encode.cases) (auto simp: Let_def split: prod.splits)
  moreover have "wrapped \<noteq> []" by (auto simp: h(2) encrypt_def enc_v0_def enc_v1_def split: option.splits)
  ultimately have m: "has_record s" "b64decode (s_challenge_salt s) = Some salt" "s_challenge_salt s \<noteq> []"
    using assms(5,7,8) h by (auto simp: has_record_def b64decode_encode)
  have main: "(fst (verify_challenge ax now env sid answer ip st) = ChalOk) = (chal_digest ax v1 salt = chal_digest ax v0 salt)"
    if n: "normalize_challenge ax answer ctype = Inr v1" for answer v1
  proof -
    obtain r st' where r: "verify_challenge ax now env sid answer ip st = (r, st')" by fastforce
    have "chal_matches ax s answer = Some (chal_digest ax v1 salt = chal_digest ax v0 salt)"
      using m(2,3) n assms(6,8) d by (simp add: chal_matches_def b64decode_encode)
    then have "chal_check ax (Some s) answer = (chal_digest ax v1 salt = chal_digest ax v0 salt, Some s)"
      using m(1) by (simp add: chal_check_def)
    from verify_looked_at(1) [OF assms(9) this [folded assms(4)] r] show ?thesis by (simp add: r)
  qed
  have "fst (verify_challenge ax now env sid (JStr x') ip st) = ChalOk"
    if c: "ctype = ''dob''" "value = JStr x" "same_day x x'" "x' \<noteq> []" for x x'
  proof -
    have "normalize_challenge ax (JStr x') ctype = Inr (normalize_text ax x ''dob'')"
      using c(1,4) normalize_same_day [OF c(3), of ax] by (simp add: normalize_challenge_def)
    moreover have "v0 = normalize_text ax x ''dob''"
      using v0 c(1,2) by (auto simp: normalize_challenge_def split: if_splits)
    ultimately show ?thesis using main by blast
  qed
  with v0 main show ?thesis by blast
qed

section \<open>Guessing is bounded\<close>

text \<open>How many misses a row still allows before \<open>T + lock\<close>.\<close>

definition budget :: "int \<Rightarrow> time \<Rightarrow> lock_row option \<Rightarrow> int" where
  "budget n T_end r =
     (case r of None \<Rightarrow> n | Some r \<Rightarrow> if T_end \<le> lk_until r then 0 else max 1 (n - lk_fails r))"

lemma miss_spends_budget:
  assumes "1 \<le> n" and "0 \<le> T" and "T \<le> t" and "t < T + lock" and "\<not> auth_limit_locked t k d"
  shows "budget n (T + lock) (locks (auth_limit_record t k False n lock d) k) < budget n (T + lock) (locks d k) \<and>
    0 \<le> budget n (T + lock) (locks (auth_limit_record t k False n lock d) k)"
proof (cases "locks d k")
  case None
  then show ?thesis
    using assms by (auto simp: budget_def auth_limit_record_def miss_row_def Let_def)
next
  case (Some r)
  then have "lk_until r \<le> t" using assms(5) by (simp add: auth_limit_locked_def)
  then show ?thesis
    using assms Some by (auto simp: budget_def auth_limit_record_def miss_row_def Let_def)
qed

fun chal_tries :: "access_env \<Rightarrow> string \<Rightarrow> int \<Rightarrow> string \<Rightarrow> (time \<times> json) list \<Rightarrow> site \<Rightarrow> (bool \<times> chal_result) list" where
  "chal_tries ax env sid ip [] st = []"
| "chal_tries ax env sid ip ((now, v) # as) st =
     (case verify_challenge ax now env sid v ip st of (r, st') \<Rightarrow>
       (looked_at now sid ip st, r) # chal_tries ax env sid ip as st')"

lemma chal_tries_budget:
  assumes "0 \<le> T" and "\<forall>a \<in> set as. T \<le> fst a \<and> fst a < T + 900"
    and "\<forall>t \<in> set (chal_tries ax env sid ip as st). snd t \<noteq> ChalOk"
  shows "evaluated (map fst (chal_tries ax env sid ip as st)) \<le> max 0 (budget 5 (T + 900) (locks (auth_of st) (chal_ip_key sid ip)))"
  using assms(2,3)
proof (induction as arbitrary: st)
  case (Cons a as)
  obtain now v where a: "a = (now, v)" by (cases a)
  obtain r st' where r: "verify_challenge ax now env sid v ip st = (r, st')" by fastforce
  have pre: "\<forall>a \<in> set as. T \<le> fst a \<and> fst a < T + 900" "\<forall>t \<in> set (chal_tries ax env sid ip as st'). snd t \<noteq> ChalOk"
      "r \<noteq> ChalOk" "T \<le> now" "now < T + 900"
    using Cons.prems by (auto simp: a r)
  note IH = Cons.IH [OF pre(1,2)]
  show ?case
  proof (cases "looked_at now sid ip st")
    case False
    then have "locks (auth_of st') = locks (auth_of st)" using verify_not_looked_at [OF False] r by auto
    with IH False show ?thesis by (simp add: a r)
  next
    case True
    obtain ok so where c: "chal_check ax (signer_for_envelope (st_world st) env sid) v = (ok, so)" by fastforce
    note l = verify_looked_at [OF True c r]
    let ?k = "chal_ip_key sid ip" and ?d = "snd (auth_rate_allowed now (chal_key sid) 40 3600 (auth_of st))"
    have nl: "\<not> auth_limit_locked now ?k ?d" using True by (simp add: looked_at_def auth_limit_locked_def)
    have "locks (auth_of st') = locks (auth_limit_record now ?k False 5 900 ?d)" using l(1,2) pre(3) by simp
    moreover have "locks ?d = locks (auth_of st)" by simp
    ultimately have "budget 5 (T + 900) (locks (auth_of st') ?k) < budget 5 (T + 900) (locks (auth_of st) ?k)"
        "0 \<le> budget 5 (T + 900) (locks (auth_of st') ?k)"
      using miss_spends_budget [of 5 T now 900 ?k ?d, OF _ assms(1) pre(4,5) nl] by simp_all
    with IH True show ?thesis by (simp add: a r)
  qed
qed simp

text \<open>Guessing a challenge is hopeless from one address: whatever is tried in fifteen minutes, at most five wrong answers
  are compared; an attempt that is not compared gets the same refusal whatever it says.\<close>

theorem challenge_guess_bound:
  assumes "0 \<le> T" and "\<forall>a \<in> set as. T \<le> fst a \<and> fst a < T + 900"
    and "\<forall>t \<in> set (chal_tries ax env sid ip as st). snd t \<noteq> ChalOk"
    and "\<forall>r. locks (auth_of st) (chal_ip_key sid ip) = Some r \<longrightarrow> 0 \<le> lk_fails r"
  shows "evaluated (map fst (chal_tries ax env sid ip as st)) \<le> 5 \<and>
    (\<not> looked_at now sid ip st \<longrightarrow>
       verify_challenge ax now env sid v ip st = verify_challenge ax' now env' sid v' ip st \<and>
       fst (verify_challenge ax now env sid v ip st) \<noteq> ChalOk)"
proof -
  have "budget 5 (T + 900) (locks (auth_of st) (chal_ip_key sid ip)) \<le> 5"
    using assms(4) by (auto simp: budget_def split: option.splits)
  then have "evaluated (map fst (chal_tries ax env sid ip as st)) \<le> 5"
    using chal_tries_budget [OF assms(1-3)] by linarith
  then show ?thesis using verify_not_looked_at [of now sid ip st] by (metis chal_result.distinct(1) fst_conv)
qed

section \<open>The life of an envelope session\<close>

lemma env_payload_simps [simp]:
  "map_of (env_payload now env sid em m c ep) ''exp'' = Some (JFloat (now + ENV_SESSION_TTL))"
  "jget (env_payload now env sid em m c ep) ''k'' = JStr ''envsess''"
  "jstr (env_payload now env sid em m c ep) ''env_id'' = env"
  "jstr (env_payload now env sid em m c ep) ''email_lc'' = py_lower em"
  "jstr (env_payload now env sid em m c ep) ''m'' = m"
  "jint_of (env_payload now env sid em m c ep) ''signer_id'' = sid"
  "jint_of (env_payload now env sid em m c ep) ''ep'' = ep"
  "jget (env_payload now env sid em m c ep) ''chal_ok'' = JBool c"
  by (simp_all add: env_payload_def jget_def jstr_def jint_of_def)

lemma read_env_session_mint:
  assumes "codec_ok ae (env_payload now env sid em m c ep)"
  shows "read_env_session ae later (Some (mint_env_session ae now env sid em m c ep)) =
    (if later \<le> now + ENV_SESSION_TTL then Some (env_payload now env sid em m c ep) else None)"
  using read_kind_sign [OF assms, of "now + ENV_SESSION_TTL" later "''envsess''" "[]"]
  by (simp add: read_env_session_def mint_env_session_def)

lemma find_map_same: "(\<And>x. P (g x) = P x) \<Longrightarrow> find P (map g xs) = map_option g (find P xs)"
  by (induction xs) auto

lemma agreement_by_envelope_upd:
  assumes "agreement_by_envelope (upd_agr aid f w) env = Some v'" and "agreement_by_envelope w env = Some v"
    and "\<And>a. a_id (f a) = a_id a" and "\<And>a. a_envelope_id (f a) = a_envelope_id a" and "aid = a_id (v_row v)"
  shows "v_row v' = f (v_row v)"
proof -
  let ?g = "\<lambda>a. if a_id a = aid then f a else a"
  obtain a where a: "find (\<lambda>a. a_envelope_id a = env) (agreement_rows w) = Some a" "get_agreement w (a_id a) = Some v"
    using assms(2) by (auto simp: agreement_by_envelope_def split: option.splits)
  have "find (\<lambda>a. a_envelope_id a = env) (map ?g (agreement_rows w)) = map_option ?g (find (\<lambda>a. a_envelope_id a = env) (agreement_rows w))"
    by (rule find_map_same) (simp add: assms(4))
  then have "find (\<lambda>a. a_envelope_id a = env) (agreement_rows (upd_agr aid f w)) = Some (?g a)"
    using a(1) by (simp add: upd_agr_def upd_where_def)
  then have g: "get_agreement (upd_agr aid f w) (a_id a) = Some v'"
    using assms(1,3) by (simp add: agreement_by_envelope_def split: if_splits)
  have r: "agr_row w (a_id a) = Some (v_row v)" using a(2) by (auto simp: get_agreement_def split: option.splits)
  have "a_id a = aid" using agr.get_key [OF r] assms(5) by simp
  then have "agr_row (upd_agr aid f w) (a_id a) = Some (f (v_row v))" using r by (simp add: agr.get_upd assms(3))
  with g show ?thesis by (auto simp: get_agreement_def split: option.splits)
qed

text \<open>An envelope session opens one envelope for one signer for half an hour: minted for a signer of a live envelope it
  gives exactly that signer and that agreement, only under that envelope's own path and until its expiry; and
  one revocation (a void, a changed challenge) ends it, and every other one of that envelope, at once.\<close>

theorem env_session_lifecycle:
  assumes "ae_loads ae (ae_dumps ae (JObj (env_payload now env sid em m c ep))) = Some (JObj (env_payload now env sid em m c ep))"
    and "agreement_by_envelope w env = Some v" and "signer_for_envelope w env sid = Some s"
    and "s_agr s = a_id (v_row v)" and "a_id (v_row v) \<noteq> 0" and "a_status (v_row v) \<notin> {Voided, Cancelled}"
    and "ep = a_epoch (v_row v)"
  shows "require_env_session ae later path (Some (mint_env_session ae now env sid em m c ep)) w =
      (if later \<le> now + 1800 \<and> path = env then EnvOk (env_payload now env sid em m c ep) v s else EnvDeny) \<and>
    require_env_session ae later path (Some (mint_env_session ae now env sid em m c ep))
      (snd (bump_env_session_epoch (a_id (v_row v)) w)) = EnvDeny"
proof -
  have co: "codec_ok ae (env_payload now env sid em m c ep)" using assms(1) by (simp add: codec_ok_def)
  note r = read_env_session_mint [OF co, of later]
  let ?w = "snd (bump_env_session_epoch (a_id (v_row v)) w)"
  have b: "?w = upd_agr (a_id (v_row v)) (\<lambda>a. a\<lparr>a_epoch := a_epoch a + 1\<rparr>) w"
    by (simp add: bump_env_session_epoch_def Let_def)
  have "a_epoch (v_row v') = ep + 1" if "agreement_by_envelope ?w env = Some v'" for v'
    using agreement_by_envelope_upd [OF that [unfolded b] assms(2)] assms(7) by simp
  then have "require_env_session ae later path (Some (mint_env_session ae now env sid em m c ep)) ?w = EnvDeny"
    by (auto simp: require_env_session_def r split: option.splits)
  moreover have "require_env_session ae later path (Some (mint_env_session ae now env sid em m c ep)) w =
      (if later \<le> now + 1800 \<and> path = env then EnvOk (env_payload now env sid em m c ep) v s else EnvDeny)"
    unfolding require_env_session_def r using assms(2-7) by (simp add: ENV_SESSION_TTL_def)
  ultimately show ?thesis by blast
qed

section \<open>The life of a mailed code\<close>

lemma auth_limit_record_settings [simp]: "settings (auth_limit_record t k ok n l d) = settings d"
  by (simp add: auth_limit_record_def Let_def)

lemma otp_keys: "otp_sent_key i c \<noteq> eotp_key j" "eotp_key j \<noteq> otp_sent_key i c"
  by (simp_all add: otp_sent_key_def eotp_key_def)

lemma get_setting_set [simp]:
  "get_setting k v0 (set_setting k v d) = v" "k \<noteq> j \<Longrightarrow> get_setting k v0 (set_setting j v d) = get_setting k v0 d"
  "get_setting k v0 (auth_limit_record t k' ok n l d) = get_setting k v0 d"
  "locks (set_setting k v d) = locks d"
  by (simp_all add: get_setting_def set_setting_def)

lemma verify_email_otp_spent:
  "get_setting (eotp_key sid) JNull d = JInt 0 \<Longrightarrow> verify_email_otp ae now sid code d = (False, d)"
  by (simp add: verify_email_otp_def Let_def)

lemma check_env_otp_spent:
  assumes "get_setting (eotp_key sid) JNull d = JInt 0"
  shows "\<not> fst (check_env_otp ae now sid code ch d)"
  by (simp add: check_env_otp_def Let_def verify_email_otp_spent [OF assms])

lemma check_env_otp_accept:
  assumes "check_env_otp ae now sid code ch d = (True, d')"
  shows "get_setting (eotp_key sid) JNull d' = JInt 0"
proof -
  have "verify_email_otp ae now sid code d = (True, set_setting (eotp_key sid) (JInt 0) d)"
    using assms by (auto simp: check_env_otp_def verify_email_otp_def Let_def split: if_splits json.splits prod.splits)
  then show ?thesis
    using assms by (auto simp: check_env_otp_def Let_def otp_keys split: if_splits)
qed

lemma digits_strip: "list_all is_digit w \<Longrightarrow> py_strip w = w"
  by (rule py_strip_no_space) (auto simp: list_all_iff is_digit_def is_space_def)

lemma send_env_otp_locks:
  assumes "send_env_otp ax now code salt env sid channel st = (r, st')"
  shows "locks (auth_of st') = locks (auth_of st)"
proof -
  obtain b st1 where b: "on_site_auth (auth_rate_allowed now (''env:otpsend:'' @ py_str sid) 5 3600) st = (b, st1)" by fastforce
  have "locks (auth_of st1) = locks (auth_of st)" using on_site_auth_frames(2) [OF b] by simp
  then show ?thesis
    using assms unfolding send_env_otp_def b
    by (auto simp: send_email_otp_def Let_def upd_auth_def mail_to_def split: bool.splits option.splits if_splits prod.splits)
qed

text \<open>A mailed code works once: after a successful send, for ten minutes and unless the check is locked, exactly the
  texts whose keyed digest is that of the code are accepted, the code itself among them; and once one has been
  accepted nothing is, at any time and on any channel, until the next send.\<close>

theorem otp_lifecycle:
  assumes "send_env_otp ax now code salt env sid channel st = (OtpSent, st')" and "list_all is_digit code" and "length code = 6"
    and "now \<le> later" and "later \<le> now + 600" and "\<not> auth_limit_locked later (otp_lock_key sid ''email'') (auth_of st')"
  shows "fst (check_env_otp (ax_auth ax) later sid code' ''email'' (auth_of st')) =
      (latin_isdigit (py_strip code') \<and> length (py_strip code') = 6 \<and>
       otp_mac (ax_auth ax) salt (py_strip code') = otp_mac (ax_auth ax) salt code) \<and>
    fst (check_env_otp (ax_auth ax) later sid code ''email'' (auth_of st')) \<and>
    (\<forall>d' t c ch. check_env_otp (ax_auth ax) later sid code' ''email'' (auth_of st') = (True, d') \<longrightarrow>
       \<not> fst (check_env_otp (ax_auth ax) t sid c ch d'))"
proof -
  let ?rec = "[(''h'', JStr (otp_mac (ax_auth ax) salt code)), (''salt'', JStr salt), (''exp'', JFloat (now + EOTP_TTL))]"
  have s: "get_setting (eotp_key sid) JNull (auth_of st') = JObj ?rec"
      "get_setting (otp_sent_key sid ''email'') (JInt 0) (auth_of st') = JFloat now"
    using assms(1)
    by (auto simp: send_env_otp_def send_email_otp_def Let_def otp_keys upd_auth_def mail_to_def
        split: prod.splits bool.splits option.splits if_splits)
  have fr: "otp_send_fresh later sid ''email'' (auth_of st')"
    using s(2) assms(5) by (simp add: otp_send_fresh_def jnum_def)
  have v: "fst (verify_email_otp (ax_auth ax) later sid x (auth_of st')) =
      (latin_isdigit (py_strip x) \<and> length (py_strip x) = 6 \<and> otp_mac (ax_auth ax) salt (py_strip x) = otp_mac (ax_auth ax) salt code)" for x
    using assms(5) by (auto simp: verify_email_otp_def Let_def s(1) jget_def jstr_def jnum_def EOTP_TTL_def)
  have c: "fst (check_env_otp (ax_auth ax) later sid x ''email'' (auth_of st')) =
      (latin_isdigit (py_strip x) \<and> length (py_strip x) = 6 \<and> otp_mac (ax_auth ax) salt (py_strip x) = otp_mac (ax_auth ax) salt code)" for x
    using v [of x] assms(6) fr by (auto simp: check_env_otp_def Let_def split: prod.splits)
  have "latin_isdigit code" using assms(2,3) by (auto simp: latin_isdigit_def list_all_iff)
  then have "fst (check_env_otp (ax_auth ax) later sid code ''email'' (auth_of st'))"
    using c [of code] digits_strip [OF assms(2)] assms(3) by simp
  with c [of code'] check_env_otp_accept check_env_otp_spent show ?thesis by blast
qed

section \<open>A code check can be locked without a code\<close>

text \<open>
  \<open>check_env_otp\<close> promises that without a code sent no check counts, against lock-outs by strangers; but a
  text that is no number is recorded as a miss before that test. Five of them, with no code ever sent,
  lock the signer's codes for fifteen minutes, the sending of one included.
\<close>

lemma cold_miss:
  "check_env_otp ae t sid ''x'' ch d = (False, auth_limit_record t (otp_lock_key sid ch) False 5 900 d)"
  by (simp add: check_env_otp_def Let_def py_strip_def latin_isdigit_def is_digit_def is_space_def char_code_def)

lemma otp_cold_lockout:
  assumes "locks d (otp_lock_key sid ''email'') = None" and "0 \<le> t" and "t \<le> t'" and "t' < t + 900"
  shows "auth_limit_locked t' (otp_lock_key sid ''email'') (((\<lambda>d. snd (check_env_otp ae t sid ''x'' ''email'' d)) ^^ 5) d)"
  using assms by (simp add: cold_miss numeral_eq_Suc auth_limit_record_def miss_row_def Let_def auth_limit_locked_def)

section \<open>The properties on a concrete envelope\<close>

definition demo_ax :: access_env where
  "demo_ax = \<lparr>ax_auth = demo_env [], ax_fernet = None, ax_mail_ok = (\<lambda>a. True), ax_week = (\<lambda>s. None)\<rparr>"

definition locked_signer :: signer where
  "locked_signer = blank_signer\<lparr>s_challenge_type := ''dob'', s_challenge_salt := b64encode ''salt'',
     s_challenge_hash := encrypt None (b64encode (chal_digest demo_ax ''1976-07-04'' ''salt''))\<rparr>"

definition demo_site :: site where
  "demo_site = \<lparr>st_world = sample_out\<lparr>signer_rows := [locked_signer]\<rparr>, st_portal = empty_portal\<rparr>"

lemma demo_lookup:
  "signer_for_envelope (st_world demo_site) ''E1'' 1 = Some locked_signer"
  "agreement_by_envelope (st_world demo_site) ''E1'' = get_agreement (st_world demo_site) 1"
  "auth_of demo_site = empty_auth"
  by (simp_all add: demo_site_def signer_for_envelope_def agreement_by_envelope_def sample_out_def sample_world_def
      blank_agreement_def locked_signer_def blank_signer_def empty_portal_def)

lemma demo_looked_at: "looked_at 100 1 ''ip'' demo_site"
  by (simp add: looked_at_def demo_lookup auth_limit_locked_def empty_auth_def auth_rate_allowed_def rate_upsert_def)

lemma demo_hash:
  "hash_challenge demo_ax ''salt'' (JStr ''7/4/1976'') ''dob'' =
     Inr (s_challenge_salt locked_signer, s_challenge_hash locked_signer, PBKDF2_ITERS)"
proof -
  have "to_iso_date (ax_week demo_ax) ''7/4/1976'' = ''1976-07-04''" by code_simp
  moreover have "py_strip ''7/4/1976'' = ''7/4/1976''" by code_simp
  ultimately have "normalize_challenge demo_ax (JStr ''7/4/1976'') ''dob'' = Inr ''1976-07-04''"
    by (simp add: normalize_challenge_def normalize_text_def)
  then show ?thesis by (simp add: hash_challenge_def locked_signer_def demo_ax_def)
qed

lemma demo_same_day: "same_day ''7/4/1976'' ''07041976''"
proof -
  have "valid_date (1976, 7, 4) \<and> spells ''7'' 7 \<and> spells ''4'' 4 \<and>
      py_strip ''7/4/1976'' = ''7'' @ ''/'' @ ''4'' @ ''/'' @ dddd 1976 \<and> py_strip ''07041976'' = dd 7 @ dd 4 @ dddd 1976"
    by code_simp
  then show ?thesis
    unfolding same_day_def spellings_def
    by (intro exI [of _ 1976] exI [of _ 7] exI [of _ 4] exI [of _ "''7''"] exI [of _ "''4''"]) simp
qed

lemma challenge_roundtrip_witness:
  "fst (verify_challenge demo_ax 100 ''E1'' 1 (JStr ''07041976'') ''ip'' demo_site) = ChalOk"
proof -
  have "has_challenge locked_signer" "s_challenge_type locked_signer = ''dob''"
    by (simp_all add: has_challenge_def locked_signer_def)
  moreover have "ax_fernet demo_ax = None" by (simp add: demo_ax_def)
  ultimately show ?thesis
    using challenge_roundtrip [OF demo_hash, of demo_site "''E1''" 1 locked_signer 100 "''ip''"]
      demo_lookup demo_looked_at demo_same_day by auto
qed

lemma challenge_opens_exactly_witness:
  "\<exists>r st'. verify_challenge demo_ax 100 ''E1'' 1 (JStr ''1976-07-05'') ''ip'' demo_site = (r, st') \<and> r \<noteq> ChalOk \<and>
     sig_row (st_world st') 1 = Some locked_signer"
proof -
  obtain r st' where r: "verify_challenge demo_ax 100 ''E1'' 1 (JStr ''1976-07-05'') ''ip'' demo_site = (r, st')" by fastforce
  have "to_iso_date (ax_week demo_ax) (py_strip ''1976-07-05'') = ''1976-07-05''" by code_simp
  then have "normalize_challenge demo_ax (JStr ''1976-07-05'') ''dob'' = Inr ''1976-07-05''"
    by (simp add: normalize_challenge_def normalize_text_def Let_def)
  moreover have "s_challenge_type locked_signer = ''dob''" "s_challenge_salt locked_signer = b64encode ''salt''"
      "s_challenge_hash locked_signer = encrypt None (b64encode (chal_digest demo_ax ''1976-07-04'' ''salt''))"
      "ax_fernet demo_ax = None" "b64encode ''salt'' \<noteq> []"
    by (simp_all add: locked_signer_def demo_ax_def Let_def split: prod.splits)
  moreover have "chal_digest demo_ax ''1976-07-05'' ''salt'' \<noteq> chal_digest demo_ax ''1976-07-04'' ''salt''"
    by (simp add: chal_digest_def demo_ax_def demo_env_def utf8_def utf8_char_def char_code_def)
  moreover have "decrypt None (encrypt None x) = x" for x by (rule decrypt_encrypt) simp
  ultimately have m: "chal_matches demo_ax locked_signer (JStr ''1976-07-05'') \<noteq> Some True"
    by (simp only: chal_matches_def b64decode_encode) (simp add: b64decode_encode del: b64encode.simps)
  from challenge_opens_exactly [OF r] m demo_lookup(1) have "r \<noteq> ChalOk" by auto
  moreover have "sig_row (st_world demo_site) 1 = Some locked_signer"
    by (simp add: demo_site_def sig_row_def locked_signer_def blank_signer_def)
  ultimately show ?thesis using challenge_opens_exactly [OF r] r by auto
qed

lemma challenge_guess_bound_witness:
  "evaluated (map fst (chal_tries demo_ax ''E1'' 1 ''ip'' [(100, JInt 3)] demo_site)) \<le> 5"
proof -
  have "fst (verify_challenge demo_ax 100 ''E1'' 1 (JInt 3) ''ip'' demo_site) \<noteq> ChalOk"
  proof -
    obtain r st' where r: "verify_challenge demo_ax 100 ''E1'' 1 (JInt 3) ''ip'' demo_site = (r, st')" by fastforce
    have "normalize_challenge demo_ax (JInt 3) ct = Inl AttributeError" for ct by (simp add: normalize_challenge_def)
    then have "chal_matches demo_ax locked_signer (JInt 3) = None" by (simp add: chal_matches_def split: option.splits)
    moreover have "has_record locked_signer"
      by (simp add: has_record_def has_challenge_def locked_signer_def encrypt_def enc_v0_def)
    ultimately have "chal_check demo_ax (signer_for_envelope (st_world demo_site) ''E1'' 1) (JInt 3) = (False, None)"
      by (simp add: demo_lookup chal_check_def)
    from verify_looked_at(1) [OF demo_looked_at this r] r show ?thesis by simp
  qed
  then have "\<forall>t \<in> set (chal_tries demo_ax ''E1'' 1 ''ip'' [(100, JInt 3)] demo_site). snd t \<noteq> ChalOk"
    by (cases "verify_challenge demo_ax 100 ''E1'' 1 (JInt 3) ''ip'' demo_site") simp
  from challenge_guess_bound [of 100, OF _ _ this] show ?thesis by (simp add: demo_lookup empty_auth_def)
qed

lemma env_session_lifecycle_witness:
  "let q = env_payload 100 ''E1'' 1 ''a@x.io'' ''google'' False 0; ae = demo_env q; w = st_world demo_site in
   require_env_session ae 1900 ''E1'' (Some (mint_env_session ae 100 ''E1'' 1 ''a@x.io'' ''google'' False 0)) w \<noteq> EnvDeny \<and>
   require_env_session ae 1900 ''E2'' (Some (mint_env_session ae 100 ''E1'' 1 ''a@x.io'' ''google'' False 0)) w = EnvDeny"
proof -
  let ?q = "env_payload 100 ''E1'' 1 ''a@x.io'' ''google'' False 0"
  obtain v where v: "get_agreement (st_world demo_site) 1 = Some v" and r: "v_row v = blank_agreement\<lparr>a_status := OutForSignature,
       a_sent_at := Some 10, a_expires_at := Some 5184010\<rparr>"
    using sample_out_rows(1) by (auto simp: get_agreement_def demo_site_def agr_row_def)
  have c: "ae_loads (demo_env ?q) (ae_dumps (demo_env ?q) (JObj ?q)) = Some (JObj ?q)" by (simp add: demo_env_def)
  have a: "a_id (v_row v) = 1" "a_epoch (v_row v) = 0" "a_status (v_row v) = OutForSignature"
    by (simp_all add: r blank_agreement_def)
  have sg: "s_agr locked_signer = 1" by (simp add: locked_signer_def blank_signer_def)
  note l = env_session_lifecycle [OF c, of "st_world demo_site" v locked_signer 1900]
  show ?thesis
    using l [of "''E1''"] l [of "''E2''"] v demo_lookup a sg by (simp add: Let_def)
qed

lemma locked_signer_mail: "py_strip (s_email locked_signer) = ''a@x.io''"
proof -
  have "py_strip ''a@x.io'' = ''a@x.io''" by code_simp
  then show ?thesis by (simp add: locked_signer_def blank_signer_def)
qed

lemma otp_lifecycle_witness:
  "\<exists>st'. send_env_otp demo_ax 100 ''123456'' ''s'' ''E1'' 1 ''email'' demo_site = (OtpSent, st') \<and>
     fst (check_env_otp (ax_auth demo_ax) 200 1 ''123456'' ''email'' (auth_of st')) \<and>
     \<not> fst (check_env_otp (ax_auth demo_ax) 200 1 ''123457'' ''email'' (auth_of st'))"
proof -
  have s: "fst (send_env_otp demo_ax 100 ''123456'' ''s'' ''E1'' 1 ''email'' demo_site) = OtpSent"
    by (simp add: send_env_otp_def on_site_auth_def on_auth_def demo_lookup auth_rate_allowed_def rate_upsert_def empty_auth_def
        otp_destination_def Let_def auth_limit_locked_def send_email_otp_def locked_signer_mail)
      (simp add: demo_ax_def)
  then obtain st' where st: "send_env_otp demo_ax 100 ''123456'' ''s'' ''E1'' 1 ''email'' demo_site = (OtpSent, st')"
    by (metis prod.collapse)
  have l: "\<not> auth_limit_locked 200 (otp_lock_key 1 ''email'') (auth_of st')"
    using send_env_otp_locks [OF st] by (simp add: auth_limit_locked_def demo_lookup empty_auth_def)
  have d: "list_all is_digit ''123456''" "length ''123456'' = 6" by (simp_all add: is_digit_def char_code_def)
  have p: "py_strip ''123457'' = ''123457''" by code_simp
  have m: "otp_mac (ax_auth demo_ax) ''s'' ''123457'' \<noteq> otp_mac (ax_auth demo_ax) ''s'' ''123456''"
    by (simp add: otp_mac_def demo_ax_def demo_env_def utf8_def utf8_char_def char_code_def)
  show ?thesis
    using otp_lifecycle [OF st d _ _ l, of "''123457''"] p m st by simp
qed

end
