(* ===== verification/Envelope.thy ===== *)
theory Envelope
  imports Access Submission
begin

text \<open>
  The signer-facing routes: the tokenised signing page (\<open>sign/routers/signer.py\<close>) and the envelope
  return-view (\<open>sign/routers/envelope.py\<close>), over the operations of \<open>sign/esign.py\<close> and
  \<open>sign/esign_access.py\<close>. A route takes the clock, the values of its request and the fresh values it
  draws; a route that sets the envelope cookie answers with the payload it signs. Rendering a page to an
  image and the exchange of a Google code are parameters.
\<close>

section \<open>The signing page\<close>

text \<open>The access lock of a token, when it is set and not passed.\<close>

definition gate_meta :: "world \<Rightarrow> string \<Rightarrow> token_meta option" where
  "gate_meta w token =
     (case signer_by_token_public w token of
        None \<Rightarrow> None
      | Some m \<Rightarrow> if tm_type m \<noteq> [] \<and> tm_type m \<noteq> ''none'' \<and> \<not> is_set (tm_passed_at m) then Some m else None)"

datatype token_payload = TpNotFound | TpLocked string string | TpError payload_error | TpRaise | TpOk Signing.payload

definition sign_token_payload ::
  "engine \<Rightarrow> time \<Rightarrow> string \<Rightarrow> string \<Rightarrow> string \<Rightarrow> world \<Rightarrow> token_payload \<times> world" where
  "sign_token_payload eng now token ip ua w =
     (case signing_payload eng now token ip ua w of
        (PayMissing, w1) \<Rightarrow> (TpNotFound, w1)
      | (PayErr e, w1) \<Rightarrow> (TpError e, w1)
      | (PayRaise, w1) \<Rightarrow> (TpRaise, w1)
      | (PayOk p, w1) \<Rightarrow>
          (case gate_meta w1 token of Some m \<Rightarrow> TpLocked (tm_type m) (tm_prompt m) | None \<Rightarrow> TpOk p, w1))"

definition sign_token_challenge :: "access_env \<Rightarrow> time \<Rightarrow> string \<Rightarrow> json \<Rightarrow> string \<Rightarrow> site \<Rightarrow> chal_result \<times> site" where
  "sign_token_challenge ax now token value ip st =
     (case signer_by_token_public (st_world st) token of
        None \<Rightarrow> (ChalTryAgain 5, st)
      | Some m \<Rightarrow>
          (let env = (case get_agreement (st_world st) (tm_agr m) of None \<Rightarrow> [] | Some v \<Rightarrow> a_envelope_id (v_row v))
           in verify_challenge ax now env (tm_id m) value ip st))"

type_synonym renderer = "bytes \<Rightarrow> int \<Rightarrow> int \<Rightarrow> bytes option"

definition page_render :: "renderer \<Rightarrow> world \<Rightarrow> int \<Rightarrow> int \<Rightarrow> int \<Rightarrow> bytes option" where
  "page_render render w aid page dpi =
     (case get_agreement w aid of
        None \<Rightarrow> None
      | Some v \<Rightarrow>
          if a_source_path (v_row v) = [] then None
          else Option.bind (presented_bytes w (v_row v)) (\<lambda>b. render b page dpi))"

datatype token_page = PgNotFound | PgLocked | PgGone block_reason | PgImage bytes

definition sign_token_page :: "renderer \<Rightarrow> time \<Rightarrow> string \<Rightarrow> int \<Rightarrow> world \<Rightarrow> token_page" where
  "sign_token_page render now token n w =
     (case signer_by_token w token of
        None \<Rightarrow> PgNotFound
      | Some s \<Rightarrow>
          if gate_meta w token \<noteq> None then PgLocked
          else (case signer_render_blocked now token w of
              Some BlockInvalid \<Rightarrow> PgNotFound
            | Some r \<Rightarrow> PgGone r
            | None \<Rightarrow> PgImage (coalesce (page_render render w (s_agr s) n 144) [])))"

definition sign_token_download :: "time \<Rightarrow> string \<Rightarrow> world \<Rightarrow> download_result \<times> world" where
  "sign_token_download now token w = signer_download now token w"

section \<open>Signing in to an envelope\<close>

definition OAUTH_STATE_TTL :: time where "OAUTH_STATE_TTL = 600"

text \<open>The signed \<open>state\<close> of the Google round trip carries the envelope and a nonce held in a cookie.\<close>

definition env_state_payload :: "time \<Rightarrow> string \<Rightarrow> string \<Rightarrow> Tokens.payload" where
  "env_state_payload now env state_nonce =
     [(''k'', JStr ''envstate''), (''env_id'', JStr env), (''s'', JStr state_nonce), (''exp'', JFloat (now + OAUTH_STATE_TTL))]"

datatype auth_start = AsGoogle string string string | AsOtp | AsUnsupported

definition envelope_auth_start ::
  "access_env \<Rightarrow> time \<Rightarrow> string \<Rightarrow> string \<Rightarrow> string \<Rightarrow> string \<Rightarrow> string \<Rightarrow> string \<Rightarrow> string \<Rightarrow> string \<Rightarrow> site \<Rightarrow> auth_start \<times> site" where
  "envelope_auth_start ax now nonce state_nonce code salt env meth0 hint0 ip st =
     (let meth = py_lower (py_strip meth0) in
      if meth = ''google'' then
        (AsGoogle (tok_sign (ax_auth ax) (env_state_payload now env state_nonce)) state_nonce nonce, st)
      else if meth = ''otp'' then
        (case on_site_auth (auth_rate_allowed now (''env:otpstart:'' @ env @ '':'' @ ip) 12 3600) st of
           (False, st1) \<Rightarrow> (AsOtp, st1)
         | (True, st1) \<Rightarrow>
             (case resolve_signer_by_email (st_world st1) env (py_strip hint0) of
                None \<Rightarrow> (AsOtp, st1)
              | Some s \<Rightarrow> (AsOtp, snd (send_env_otp ax now code salt env (s_id s) ''email'' st1))))
      else (AsUnsupported, st))"

text \<open>A sign-in that succeeds sets the cookie signing this payload.\<close>

datatype env_login = ElError string | ElSession string Tokens.payload

definition set_env_cookie :: "auth_env \<Rightarrow> Tokens.payload \<Rightarrow> string" where
  "set_env_cookie ae q = tok_sign ae q"

definition google_persist :: "time \<Rightarrow> int \<Rightarrow> int \<Rightarrow> string \<Rightarrow> string \<Rightarrow> string \<Rightarrow> world \<Rightarrow> world" where
  "google_persist now aid sid email ip ua w =
     log_event aid ''ENVELOPE_ACCESS_VERIFIED'' (Some sid) ip ua (''google:'' @ email) now
       (upd_sig sid (\<lambda>r. r\<lparr>s_env_method := ''google'', s_env_at := Some now, s_env_email := email\<rparr>) w)"

definition envelope_auth_callback ::
  "access_env \<Rightarrow> time \<Rightarrow> string option \<Rightarrow> string \<Rightarrow> string option \<Rightarrow> string \<Rightarrow> string \<Rightarrow> site \<Rightarrow> env_login \<times> site" where
  "envelope_auth_callback ax now state_cookie state exchanged ip ua st =
     (case read_kind (ax_auth ax) now ''envstate'' [] (Some state) of
        None \<Rightarrow> (ElError ''expired'', st)
      | Some sd \<Rightarrow>
          if \<not> oauth_state_ok state_cookie (jstr sd ''s'') then (ElError ''expired'', st)
          else (case exchanged of
              None \<Rightarrow> (ElError ''google'', st)
            | Some email \<Rightarrow>
                if email = [] then (ElError ''google'', st)
                else let env = jstr sd ''env_id'' in
                  (case match_google_signer (st_world st) env email of
                     None \<Rightarrow> (ElError ''not a signer'', st)
                   | Some s \<Rightarrow>
                       (case agreement_by_envelope (st_world st) env of
                          None \<Rightarrow> (ElError ''not found'', st)
                        | Some v \<Rightarrow>
                            (ElSession env (env_payload now env (s_id s) email ''google'' (\<not> has_challenge s) (a_epoch (v_row v))),
                             upd_world (google_persist now (a_id (v_row v)) (s_id s) email ip ua) st)))))"

definition otp_persist :: "time \<Rightarrow> int \<Rightarrow> int \<Rightarrow> string \<Rightarrow> string \<Rightarrow> world \<Rightarrow> world" where
  "otp_persist now aid sid ip ua w =
     log_event aid ''ENVELOPE_ACCESS_VERIFIED'' (Some sid) ip ua ''otp:email'' now
       (upd_sig sid (\<lambda>r. r\<lparr>s_env_method := ''otp:email'', s_env_at := Some now, s_otp_at := Some now\<rparr>) w)"

definition envelope_otp_verify ::
  "access_env \<Rightarrow> time \<Rightarrow> string \<Rightarrow> string \<Rightarrow> string \<Rightarrow> string \<Rightarrow> string \<Rightarrow> site \<Rightarrow> env_login \<times> site" where
  "envelope_otp_verify ax now env hint0 code ip ua st =
     (case resolve_signer_by_email (st_world st) env (py_strip hint0) of
        None \<Rightarrow> (ElError ''mismatch'', st)
      | Some s \<Rightarrow>
          (case on_site_auth (check_env_otp (ax_auth ax) now (s_id s) code ''email'') st of
             (False, st1) \<Rightarrow> (ElError ''mismatch'', st1)
           | (True, st1) \<Rightarrow>
               (case agreement_by_envelope (st_world st1) env of
                  None \<Rightarrow> (ElError ''not found'', st1)
                | Some v \<Rightarrow>
                    (ElSession env (env_payload now env (s_id s) (s_email s) ''otp:email'' (\<not> has_challenge s) (a_epoch (v_row v))),
                     upd_world (otp_persist now (a_id (v_row v)) (s_id s) ip ua) st1))))"

section \<open>The envelope page\<close>

text \<open>\<open>CHR 0x95\<close> stands for the bullet, as in \<open>mask_email\<close>.\<close>

definition mask_email_display :: "string \<Rightarrow> string" where
  "mask_email_display email =
     (let e = py_strip email; bullets = replicate 4 (CHR 0x95) in
      if CHR ''@'' \<notin> set e then (if e = [] then [] else bullets)
      else take 1 (before_char (CHR ''@'') e) @ bullets @ ''@'' @ after_char (CHR ''@'') e)"

definition ENV_TIMELINE_LABELS :: "(string \<times> string) list" where
  "ENV_TIMELINE_LABELS =
     [(''created'', ''Created''), (''sent'', ''Sent for signature''), (''emailed'', ''Invitation emailed''),
      (''viewed'', ''Document viewed''), (''signer_authenticated'', ''Signer authenticated''),
      (''econsent_accepted'', ''E-sign consent accepted''),
      (''records_access_demonstrated'', ''Records access demonstrated''),
      (''signature_adopted'', ''Signature adopted''), (''field_signed'', ''Field signed''), (''signed'', ''Signed''),
      (''doc_frozen'', ''Document frozen''), (''doc_sealed'', ''Document sealed''), (''completed'', ''Completed''),
      (''completed_copy_delivered'', ''Completed copy delivered''), (''declined'', ''Declined''),
      (''econsent_withdrawn'', ''E-sign consent withdrawn''), (''voided'', ''Voided''), (''reminded'', ''Reminder sent''),
      (''access_challenge_passed'', ''Identity check passed''), (''access_challenge_failed'', ''Identity check failed''),
      (''access_challenge_locked'', ''Identity check locked''),
      (''access_challenge_configured'', ''Identity check configured''),
      (''envelope_access_verified'', ''Envelope access verified''), (''envelope_viewed'', ''Envelope viewed'')]"

text \<open>\<open>str.title()\<close>; event types are ASCII.\<close>

fun title_case :: "bool \<Rightarrow> string \<Rightarrow> string" where
  "title_case in_word [] = []"
| "title_case in_word (c # s) =
     (if is_ascii_alpha c
      then (if in_word then lower_char c else if 97 \<le> char_code c then char_of (char_code c - 32) else c) # title_case True s
      else c # title_case False s)"

definition timeline_label :: "string \<Rightarrow> string" where
  "timeline_label ty =
     (case map_of ENV_TIMELINE_LABELS (py_lower ty) of
        Some l \<Rightarrow> l
      | None \<Rightarrow> title_case False (map (\<lambda>c. if c = CHR ''_'' then CHR '' '' else c) ty))"

record party =
  pa_name :: string
  pa_mail :: string
  pa_role :: string
  pa_status :: sig_status
  pa_signed_at :: "time option"

record timeline_entry =
  tl_at :: time
  tl_label :: string
  tl_actor :: string
  tl_ip :: string

record env_page =
  ep_env :: string
  ep_name :: string
  ep_status :: agr_status
  ep_created_at :: "time option"
  ep_completed_at :: "time option"
  ep_signer :: int
  ep_me_name :: string
  ep_me_mail :: string
  ep_me_status :: sig_status
  ep_parties :: "party list"
  ep_timeline :: "timeline_entry list"
  ep_download :: bool

definition or_pending :: "sig_status \<Rightarrow> sig_status" where
  "or_pending x = (if x = NoSigStatus then Pending else x)"

definition party_of :: "signer \<Rightarrow> party" where
  "party_of s =
     \<lparr>pa_name = s_name s, pa_mail = mask_email_display (s_email s), pa_role = nonblank (s_role s) ''signer'',
      pa_status = or_pending (s_status s), pa_signed_at = s_signed_at s\<rparr>"

definition timeline_of :: "signer list \<Rightarrow> int \<Rightarrow> event \<Rightarrow> timeline_entry" where
  "timeline_of signers me e =
     \<lparr>tl_at = e_at e, tl_label = timeline_label (e_type e),
      tl_actor = (case find (\<lambda>s. Some (s_id s) = e_signer e) signers of None \<Rightarrow> [] | Some s \<Rightarrow> s_name s),
      tl_ip = (if e_signer e = Some me then e_ip e else [])\<rparr>"

definition mark_env_viewed :: "time \<Rightarrow> int \<Rightarrow> int \<Rightarrow> string \<Rightarrow> string \<Rightarrow> world \<Rightarrow> world" where
  "mark_env_viewed now aid sid ip ua w =
     (if \<exists>e \<in> set (event_rows w). e_agr e = aid \<and> e_signer e = Some sid \<and> e_type e = ''ENVELOPE_VIEWED'' then w
      else log_event aid ''ENVELOPE_VIEWED'' (Some sid) ip ua ''envelope page'' now w)"

text \<open>The second gate after identity.\<close>

definition session_locked :: "Tokens.payload \<Rightarrow> signer \<Rightarrow> bool" where
  "session_locked d s = (has_challenge s \<and> \<not> truthy (jget d ''chal_ok''))"

definition page_of :: "string \<Rightarrow> agr_view \<Rightarrow> signer list \<Rightarrow> event list \<Rightarrow> signer \<Rightarrow> env_page" where
  "page_of env v signers events s =
     \<lparr>ep_env = env, ep_name = a_name (v_row v), ep_status = a_status (v_row v),
      ep_created_at = a_created_at (v_row v), ep_completed_at = a_completed_at (v_row v), ep_signer = s_id s,
      ep_me_name = s_name s, ep_me_mail = mask_email_display (s_email s), ep_me_status = or_pending (s_status s),
      ep_parties = map party_of signers, ep_timeline = map (timeline_of signers (s_id s)) events,
      ep_download = (a_status (v_row v) = Completed)\<rparr>"

datatype env_data = EdNeedAuth | EdVoided | EdLocked string string | EdPage env_page

definition envelope_data ::
  "auth_env \<Rightarrow> time \<Rightarrow> string \<Rightarrow> string option \<Rightarrow> string \<Rightarrow> string \<Rightarrow> world \<Rightarrow> env_data \<times> world" where
  "envelope_data ae now env ck ip ua w =
     (case require_env_session ae now env ck w of
        EnvDeny \<Rightarrow> (EdNeedAuth, w)
      | EnvVoided d v s \<Rightarrow> (EdVoided, w)
      | EnvOk d v s \<Rightarrow>
          if session_locked d s then (EdLocked (s_challenge_type s) (s_challenge_prompt s), w)
          else
            (let full = get_agreement w (a_id (v_row v));
                 signers = (case full of None \<Rightarrow> v_signers v | Some f \<Rightarrow> v_signers f);
                 events = (case full of None \<Rightarrow> [] | Some f \<Rightarrow> v_events f)
             in (EdPage (page_of env v signers events s), mark_env_viewed now (a_id (v_row v)) (s_id s) ip ua w)))"

datatype env_challenge = EcNeedAuth | EcVoided | EcFailed chal_result | EcSession string Tokens.payload

definition envelope_challenge ::
  "access_env \<Rightarrow> time \<Rightarrow> string \<Rightarrow> string option \<Rightarrow> json \<Rightarrow> string \<Rightarrow> site \<Rightarrow> env_challenge \<times> site" where
  "envelope_challenge ax now env ck value ip st =
     (case require_env_session (ax_auth ax) now env ck (st_world st) of
        EnvDeny \<Rightarrow> (EcNeedAuth, st)
      | EnvVoided d v s \<Rightarrow> (EcVoided, st)
      | EnvOk d v s \<Rightarrow>
          (case verify_challenge ax now env (s_id s) value ip st of
             (ChalOk, st1) \<Rightarrow>
               (EcSession env (env_payload now env (s_id s) (jstr d ''email_lc'') (jstr d ''m'') True (a_epoch (v_row v))), st1)
           | (r, st1) \<Rightarrow> (EcFailed r, st1)))"

section \<open>The inbox\<close>

datatype env_inbox = EiNeedAuth | EiVoided | EiItems string "(inbox_item \<times> bool) list"

definition envelope_inbox :: "auth_env \<Rightarrow> time \<Rightarrow> string \<Rightarrow> string option \<Rightarrow> world \<Rightarrow> env_inbox" where
  "envelope_inbox ae now env ck w =
     (case require_env_session ae now env ck w of
        EnvDeny \<Rightarrow> EiNeedAuth
      | EnvVoided d v s \<Rightarrow> EiVoided
      | EnvOk d v s \<Rightarrow>
          (let em = py_lower (jstr d ''email_lc'')
           in EiItems (mask_email_display em) (map (\<lambda>i. (i, ib_envelope i = env)) (envelopes_for_email w em))))"

datatype env_switch =
    EsNeedAuth | EsVoided | EsNoTarget | EsNotAddressed | EsNotFound | EsSession string bool Tokens.payload

definition switch_log :: "time \<Rightarrow> int \<Rightarrow> int \<Rightarrow> string \<Rightarrow> string \<Rightarrow> string \<Rightarrow> world \<Rightarrow> world" where
  "switch_log now aid sid m ip ua w =
     log_event aid ''ENVELOPE_ACCESS_VERIFIED'' (Some sid) ip ua (''inbox-switch:'' @ m) now w"

definition envelope_switch ::
  "auth_env \<Rightarrow> time \<Rightarrow> string \<Rightarrow> string option \<Rightarrow> string \<Rightarrow> string \<Rightarrow> string \<Rightarrow> world \<Rightarrow> env_switch \<times> world" where
  "envelope_switch ae now env ck target0 ip ua w =
     (case require_env_session ae now env ck w of
        EnvDeny \<Rightarrow> (EsNeedAuth, w)
      | EnvVoided d v s \<Rightarrow> (EsVoided, w)
      | EnvOk d v s \<Rightarrow>
          (let em = py_lower (jstr d ''email_lc''); target = py_strip target0; m = nonblank (jstr d ''m'') ''email'' in
           if target = [] then (EsNoTarget, w)
           else (case match_google_signer w target em of
               None \<Rightarrow> (EsNotAddressed, w)
             | Some ts \<Rightarrow>
                 (case agreement_by_envelope w target of
                    None \<Rightarrow> (EsNotFound, w)
                  | Some tv \<Rightarrow>
                      (let locked = (case signer_for_envelope w target (s_id ts) of None \<Rightarrow> False | Some x \<Rightarrow> has_challenge x)
                       in (EsSession target locked
                             (env_payload now target (s_id ts) em m (\<not> locked) (a_epoch (v_row tv))),
                           switch_log now (a_id (v_row tv)) (s_id ts) m ip ua w))))))"

section \<open>Downloads\<close>

definition env_download_guard :: "auth_env \<Rightarrow> time \<Rightarrow> string \<Rightarrow> string option \<Rightarrow> world \<Rightarrow> (agr_view \<times> signer) option" where
  "env_download_guard ae now env ck w =
     (case require_env_session ae now env ck w of
        EnvOk d v s \<Rightarrow> if session_locked d s then None else Some (v, s)
      | _ \<Rightarrow> None)"

datatype env_file = EfNeedAuth | EfMissing | EfFile bytes string

definition envelope_download ::
  "auth_env \<Rightarrow> time \<Rightarrow> string \<Rightarrow> string option \<Rightarrow> world \<Rightarrow> env_file \<times> world" where
  "envelope_download ae now env ck w =
     (case env_download_guard ae now env ck w of
        None \<Rightarrow> (EfNeedAuth, w)
      | Some (v, s) \<Rightarrow>
          if a_status (v_row v) \<noteq> Completed then (EfMissing, w)
          else (case signer_download_by_id now (a_id (v_row v)) (s_id s) w of
              (DownOk b fn, w1) \<Rightarrow> (EfFile b fn, w1)
            | (r, w1) \<Rightarrow> (EfMissing, w1)))"

definition certificate_filename :: "string \<Rightarrow> int \<Rightarrow> string" where
  "certificate_filename name aid =
     take 90 (nonblank (py_strip (filter (\<lambda>c. \<not> unsafe_char c) (strip_pdf name)))
       (''agreement-'' @ py_str aid) @ ''-CERTIFICATE.pdf'')"

definition envelope_certificate ::
  "engine \<Rightarrow> auth_env \<Rightarrow> time \<Rightarrow> string \<Rightarrow> string option \<Rightarrow> world \<Rightarrow> env_file" where
  "envelope_certificate eng ae now env ck w =
     (case env_download_guard ae now env ck w of
        None \<Rightarrow> EfNeedAuth
      | Some (v, s) \<Rightarrow>
          if a_status (v_row v) \<noteq> Completed then EfMissing
          else (case certificate_bytes eng w (a_id (v_row v)) of
              None \<Rightarrow> EfMissing
            | Some b \<Rightarrow> if b = [] then EfMissing
                else EfFile b (certificate_filename (a_name (v_row v)) (a_id (v_row v)))))"

section \<open>What a signing link shows\<close>

lemma gate_meta_row:
  "gate_meta w token = None \<longleftrightarrow> (\<forall>s. signer_by_token w token = Some s \<longrightarrow> \<not> challenge_unmet s)"
  by (auto simp: gate_meta_def signer_by_token_public_def challenge_unmet_def has_challenge_def split: option.splits)

lemma payload_lock_kept:
  assumes "signing_payload eng now token ip ua w = (r, w1)" and "signer_by_token w token = Some s"
  shows "\<exists>s1. signer_by_token w1 token = Some s1 \<and> challenge_unmet s1 = challenge_unmet s"
proof -
  have "signer_rows w1 = signer_rows w \<or>
      signer_rows w1 = upd_where (\<lambda>r. s_id r = s_id s) (view_row now ip ua) (signer_rows w)"
    using assms by (auto simp: signing_payload_def Let_def upd_sig_def split: option.splits if_splits prod.splits)
  then show ?thesis
  proof
    assume u: "signer_rows w1 = upd_where (\<lambda>r. s_id r = s_id s) (view_row now ip ua) (signer_rows w)"
    have "s_token (view_row now ip ua r) = s_token r" for r by (simp add: view_row_def)
    then have "signer_by_token w1 token = Some (view_row now ip ua s)"
      using assms(2) by (simp add: signer_by_token_def u find_upd_where)
    then show ?thesis by (simp add: view_row_def challenge_unmet_def has_challenge_def)
  qed (use assms(2) in \<open>simp add: signer_by_token_def\<close>)
qed


section \<open>The sign-in tells nothing\<close>

lemma send_env_otp_mail:
  assumes "send_env_otp ax now code salt env sid ch st = (r, st')"
  shows "st_world st' = st_world st \<and> (p_mail (st_portal st') = p_mail (st_portal st) \<or>
    (\<exists>s. signer_for_envelope (st_world st) env sid = Some s \<and>
       p_mail (st_portal st') = p_mail (st_portal st) @ [(py_strip (s_email s), ''otp'', code)]))"
  using assms
  by (auto simp: send_env_otp_def send_email_otp_def otp_destination_def on_site_auth_def on_auth_def upd_auth_def mail_to_def Let_def
      split: prod.splits bool.splits option.splits if_splits)

lemma signer_for_envelope_mem:
  "signer_for_envelope w env sid = Some s \<Longrightarrow> s \<in> set (signer_rows w) \<and> s_id s = sid \<and>
   (\<exists>a. a \<in> set (agreement_rows w) \<and> a_id a = s_agr s \<and> a_envelope_id a = env)"
  unfolding signer_for_envelope_def by (drule find_SomeD) blast

text \<open>Asking for a mailed code reveals nothing: the answer is the same for every address, envelope and state, the
  envelopes are left alone, and at most one mail is sent, to the address on file of a signer of that envelope,
  never to an address of the asker's choice.\<close>

theorem otp_start_reveals_nothing:
  assumes "py_lower (py_strip meth) = ''otp''"
  shows "fst (envelope_auth_start ax now nonce sn code salt env meth hint ip st) =
      fst (envelope_auth_start ax now2 nonce2 sn2 code2 salt2 env2 meth hint2 ip2 st2) \<and>
    (\<forall>r st'. envelope_auth_start ax now nonce sn code salt env meth hint ip st = (r, st') \<longrightarrow>
       st_world st' = st_world st \<and>
       (p_mail (st_portal st') = p_mail (st_portal st) \<or>
        (\<exists>s a. s \<in> set (signer_rows (st_world st)) \<and> a \<in> set (agreement_rows (st_world st)) \<and> a_id a = s_agr s \<and>
           a_envelope_id a = env \<and>
           p_mail (st_portal st') = p_mail (st_portal st) @ [(py_strip (s_email s), ''otp'', code)])))"
proof -
  have a: "fst (envelope_auth_start ax now nonce sn code salt env meth hint ip st) = AsOtp" for now nonce sn code salt env hint ip st
    using assms by (auto simp: envelope_auth_start_def Let_def split: prod.splits bool.splits option.splits)
  have "st_world st' = st_world st \<and>
       (p_mail (st_portal st') = p_mail (st_portal st) \<or>
        (\<exists>s a. s \<in> set (signer_rows (st_world st)) \<and> a \<in> set (agreement_rows (st_world st)) \<and> a_id a = s_agr s \<and>
           a_envelope_id a = env \<and>
           p_mail (st_portal st') = p_mail (st_portal st) @ [(py_strip (s_email s), ''otp'', code)]))"
    if e: "envelope_auth_start ax now nonce sn code salt env meth hint ip st = (r, st')" for r st'
  proof -
    obtain b st1 where b: "on_site_auth (auth_rate_allowed now (''env:otpstart:'' @ env @ '':'' @ ip) 12 3600) st = (b, st1)"
      by fastforce
    have f: "st_world st1 = st_world st" "p_mail (st_portal st1) = p_mail (st_portal st)"
      using b by (auto simp: on_site_auth_def on_auth_def split: prod.splits)
    have "st' = st1 \<or> st' \<in> range (\<lambda>i. snd (send_env_otp ax now code salt env i ''email'' st1))"
    proof (cases b)
      case False
      with e assms b show ?thesis by (simp add: envelope_auth_start_def Let_def)
    next
      case True
      with e assms b have "(case resolve_signer_by_email (st_world st1) env (py_strip hint) of None \<Rightarrow> (AsOtp, st1)
          | Some s \<Rightarrow> (AsOtp, snd (send_env_otp ax now code salt env (s_id s) ''email'' st1))) = (r, st')"
        by (simp add: envelope_auth_start_def Let_def)
      then show ?thesis
      proof (cases "resolve_signer_by_email (st_world st1) env (py_strip hint)")
        case (Some s)
        then have "st' = snd (send_env_otp ax now code salt env (s_id s) ''email'' st1)"
          using \<open>(case resolve_signer_by_email (st_world st1) env (py_strip hint) of None \<Rightarrow> _ | Some s \<Rightarrow> _ s) = _\<close> by simp
        then show ?thesis by blast
      qed simp
    qed
    then consider "st' = st1" | i where "st' = snd (send_env_otp ax now code salt env i ''email'' st1)" by blast
    then show ?thesis
    proof cases
      case 2
      obtain r2 where "send_env_otp ax now code salt env i ''email'' st1 = (r2, st')" using 2 by (metis prod.collapse)
      from send_env_otp_mail [OF this] have w: "st_world st' = st_world st"
        and m: "p_mail (st_portal st') = p_mail (st_portal st) \<or>
          (\<exists>s. signer_for_envelope (st_world st) env i = Some s \<and>
             p_mail (st_portal st') = p_mail (st_portal st) @ [(py_strip (s_email s), ''otp'', code)])" by (simp_all only: f)
      from m show ?thesis
      proof
        assume "\<exists>s. signer_for_envelope (st_world st) env i = Some s \<and>
             p_mail (st_portal st') = p_mail (st_portal st) @ [(py_strip (s_email s), ''otp'', code)]"
        then obtain s where s: "signer_for_envelope (st_world st) env i = Some s"
          "p_mail (st_portal st') = p_mail (st_portal st) @ [(py_strip (s_email s), ''otp'', code)]" by (elim exE conjE)
        from signer_for_envelope_mem [OF s(1)] s(2) w show ?thesis by (intro conjI disjI2) (assumption, blast)
      qed (use w in simp)
    qed (use f in simp)
  qed
  moreover have "fst (envelope_auth_start ax now nonce sn code salt env meth hint ip st) =
      fst (envelope_auth_start ax now2 nonce2 sn2 code2 salt2 env2 meth hint2 ip2 st2)" by (simp only: a)
  ultimately show ?thesis by blast
qed

section \<open>Who sees an envelope\<close>

text \<open>
  The life of the cookies this server signs, over any sequence of sign-in requests against any states of
  the site. \<open>C\<close> holds the payloads signed so far, \<open>L\<close> the facts that were true at some step: an address
  proved to Google or by its mailed code, a signer row carrying an address, a signer without a lock or whose
  lock was just passed, at an epoch of the envelope. A cookie that reads as a session was signed here: that
  the codes of \<open>tok_sign\<close> cannot be forged is the premise \<open>signed_here\<close>.
\<close>

datatype fact = Proved string | Addressed string int string | Opened string int int

definition rows_say :: "world \<Rightarrow> fact set" where
  "rows_say w =
     {Addressed (a_envelope_id a) (s_id s) (norm_email (s_email s)) | a s.
        a \<in> set (agreement_rows w) \<and> s \<in> set (signer_rows w) \<and> s_agr s = a_id a} \<union>
     {Opened (a_envelope_id a) (s_id s) (a_epoch a) | a s.
        a \<in> set (agreement_rows w) \<and> s \<in> set (signer_rows w) \<and> s_agr s = a_id a \<and> \<not> has_challenge s}"

definition signed_here :: "auth_env \<Rightarrow> time \<Rightarrow> string option \<Rightarrow> Tokens.payload set \<Rightarrow> bool" where
  "signed_here ae now ck C = (\<forall>d. read_env_session ae now ck = Some d \<longrightarrow> d \<in> C)"

definition google_facts :: "string option \<Rightarrow> fact set" where
  "google_facts exchanged = (case exchanged of None \<Rightarrow> {} | Some e \<Rightarrow> {Proved (norm_email e)})"

definition code_facts :: "access_env \<Rightarrow> time \<Rightarrow> string \<Rightarrow> string \<Rightarrow> string \<Rightarrow> site \<Rightarrow> fact set" where
  "code_facts ax now env hint code st =
     {Proved (norm_email (s_email s)) | s. resolve_signer_by_email (st_world st) env (py_strip hint) = Some s \<and>
        fst (check_env_otp (ax_auth ax) now (s_id s) code ''email'' (auth_of st))}"

definition lock_facts :: "access_env \<Rightarrow> time \<Rightarrow> string \<Rightarrow> string option \<Rightarrow> json \<Rightarrow> string \<Rightarrow> site \<Rightarrow> fact set" where
  "lock_facts ax now env ck value ip st =
     {Opened env (s_id s) (a_epoch (v_row v)) | d v s. require_env_session (ax_auth ax) now env ck (st_world st) = EnvOk d v s \<and>
        fst (verify_challenge ax now env (s_id s) value ip st) = ChalOk}"

text \<open>Ids are primary keys and start at 1.\<close>

definition keyed :: "world \<Rightarrow> bool" where
  "keyed w = (unique_agr w \<and> unique_sig w \<and> (\<forall>a \<in> set (agreement_rows w). a_id a \<noteq> 0))"

inductive env_run :: "access_env \<Rightarrow> Tokens.payload set \<Rightarrow> fact set \<Rightarrow> bool" for ax where
  run_start: "env_run ax {} {}"
| run_google:
    "env_run ax (insert q C) (L \<union> rows_say (st_world st) \<union> google_facts exchanged)"
    if "env_run ax C L" and "keyed (st_world st)"
      and "fst (envelope_auth_callback ax now sc state exchanged ip ua st) = ElSession env q"
| run_code:
    "env_run ax (insert q C) (L \<union> rows_say (st_world st) \<union> code_facts ax now env hint code st)"
    if "env_run ax C L" and "keyed (st_world st)" and "fst (envelope_otp_verify ax now env hint code ip ua st) = ElSession env q"
| run_challenge:
    "env_run ax (insert q C) (L \<union> rows_say (st_world st) \<union> lock_facts ax now env ck value ip st)"
    if "env_run ax C L" and "keyed (st_world st)" and "signed_here (ax_auth ax) now ck C"
      and "fst (envelope_challenge ax now env ck value ip st) = EcSession env q"
| run_switch:
    "env_run ax (insert q C) (L \<union> rows_say w)"
    if "env_run ax C L" and "keyed w" and "signed_here (ax_auth ax) now ck C"
      and "fst (envelope_switch (ax_auth ax) now env ck target ip ua w) = EsSession env2 locked q"

text \<open>What a signed payload stands for.\<close>

definition grounded :: "fact set \<Rightarrow> Tokens.payload \<Rightarrow> bool" where
  "grounded L q =
     (\<exists>t env sid em m ok ep. q = env_payload t env sid em m ok ep \<and> Proved (norm_email em) \<in> L \<and>
        Addressed env sid (norm_email em) \<in> L \<and> (ok \<longrightarrow> Opened env sid ep \<in> L))"

lemma grounded_mono: "grounded L q \<Longrightarrow> L \<subseteq> L' \<Longrightarrow> grounded L' q"
  unfolding grounded_def by blast

lemma norm_email_lower [simp]: "norm_email (py_lower e) = norm_email e"
proof -
  have "py_strip (py_lower e) = py_lower (py_strip e)"
    unfolding py_lower_def by (rule py_strip_map) (rule is_space_lower)
  then show ?thesis by (simp add: norm_email_def py_lower_def lower_char_idem)
qed

lemma env_payload_members [simp]:
  "jstr (env_payload t env sid em m ok ep) ''env_id'' = env"
  "jint_of (env_payload t env sid em m ok ep) ''signer_id'' = sid"
  "jstr (env_payload t env sid em m ok ep) ''email_lc'' = py_lower em"
  "jint_of (env_payload t env sid em m ok ep) ''ep'' = ep"
  "truthy (jget (env_payload t env sid em m ok ep) ''chal_ok'') = ok"
  by (simp_all add: env_payload_def jstr_def jget_def jint_of_def)

lemma env_lookup:
  assumes "agreement_by_envelope w env = Some v" and "unique_agr w"
  shows "v_row v \<in> set (agreement_rows w)" "a_envelope_id (v_row v) = env" "get_agreement w (a_id (v_row v)) = Some v"
    "\<And>s. s \<in> set (v_signers v) \<Longrightarrow> \<exists>r. r \<in> set (signer_rows w) \<and> s_agr r = a_id (v_row v) \<and> s = strip_signer_secrets r"
proof -
  obtain a where a: "find (\<lambda>a. a_envelope_id a = env) (agreement_rows w) = Some a" and g: "get_agreement w (a_id a) = Some v"
    using assms(1) by (auto simp: agreement_by_envelope_def split: option.splits)
  have m: "a \<in> set (agreement_rows w)" "a_envelope_id a = env" using find_SomeD [OF a] by auto
  have "agr_row w (a_id a) = Some a"
    using assms(2) m(1) unfolding agr_row_def unique_agr_def by (rule find_key)
  then have "v_row v = a" "v_signers v = map strip_signer_secrets (agr_signers w (a_id a))" using g by (auto simp: get_agreement_def)
  with m g show "v_row v \<in> set (agreement_rows w)" "a_envelope_id (v_row v) = env" "get_agreement w (a_id (v_row v)) = Some v"
    "\<And>s. s \<in> set (v_signers v) \<Longrightarrow> \<exists>r. r \<in> set (signer_rows w) \<and> s_agr r = a_id (v_row v) \<and> s = strip_signer_secrets r"
    by (auto simp: agr_signers_def)
qed

lemma strip_keeps [simp]:
  "s_id (strip_signer_secrets s) = s_id s" "s_email (strip_signer_secrets s) = s_email s"
  "has_challenge (strip_signer_secrets s) = has_challenge s"
  by (simp_all add: strip_signer_secrets_def has_challenge_def)

text \<open>A matched signer is a row of the envelope that carries the address.\<close>

lemma match_says:
  assumes "match_google_signer w env email = Some s" and "agreement_by_envelope w env = Some v" and "unique_agr w"
  shows "Addressed env (s_id s) (norm_email email) \<in> rows_say w" "norm_email (s_email s) = norm_email email"
    "\<not> has_challenge s \<Longrightarrow> Opened env (s_id s) (a_epoch (v_row v)) \<in> rows_say w"
    "\<exists>r \<in> set (signer_rows w). s_agr r = a_id (v_row v) \<and> s = strip_signer_secrets r"
proof -
  have f: "s \<in> set (v_signers v)" "norm_email (s_email s) = norm_email email"
    using assms(1,2) by (auto simp: match_google_signer_def Let_def dest: find_SomeD split: if_splits)
  from env_lookup(4) [OF assms(2,3) f(1)] obtain r where r: "r \<in> set (signer_rows w)" "s_agr r = a_id (v_row v)"
      "s = strip_signer_secrets r" by blast
  note e = env_lookup(1,2) [OF assms(2,3)]
  show "norm_email (s_email s) = norm_email email" by (rule f(2))
  show "\<exists>r \<in> set (signer_rows w). s_agr r = a_id (v_row v) \<and> s = strip_signer_secrets r" using r by blast
  show "Addressed env (s_id s) (norm_email email) \<in> rows_say w"
    unfolding rows_say_def using e r f(2) by (intro UnI1 CollectI exI [of _ "v_row v"] exI [of _ r]) simp
  assume "\<not> has_challenge s"
  then show "Opened env (s_id s) (a_epoch (v_row v)) \<in> rows_say w"
    unfolding rows_say_def using e r by (intro UnI2 CollectI exI [of _ "v_row v"] exI [of _ r]) simp
qed

lemma guard_ok:
  assumes "require_env_session ae now env ck w = EnvOk d v s"
  shows "read_env_session ae now ck = Some d" "jstr d ''env_id'' = env" "agreement_by_envelope w env = Some v"
    "signer_for_envelope w env (jint_of d ''signer_id'') = Some s" "jint_of d ''ep'' = a_epoch (v_row v)"
    "a_status (v_row v) \<notin> {Voided, Cancelled}" "s_id s = jint_of d ''signer_id''"
proof -
  show g: "read_env_session ae now ck = Some d" "jstr d ''env_id'' = env" "agreement_by_envelope w env = Some v"
    "signer_for_envelope w env (jint_of d ''signer_id'') = Some s" "jint_of d ''ep'' = a_epoch (v_row v)"
    "a_status (v_row v) \<notin> {Voided, Cancelled}"
    using assms by (auto simp: require_env_session_def split: option.splits if_splits)
  show "s_id s = jint_of d ''signer_id''" using g(4) by (auto simp: signer_for_envelope_def dest: find_SomeD)
qed

lemma signer_for_envelope_row:
  assumes "signer_for_envelope w env sid = Some x" and "r \<in> set (signer_rows w)" and "s_id r = sid" and "unique_sig w"
  shows "x = r"
  using assms key_unique [of s_id "signer_rows w" x r]
  by (auto simp: signer_for_envelope_def unique_sig_def dest!: find_SomeD)

lemma has_challenge_strip_row:
  "match_google_signer w env email = Some s \<Longrightarrow> agreement_by_envelope w env = Some v \<Longrightarrow> keyed w \<Longrightarrow>
   signer_for_envelope w env (s_id s) = Some x \<Longrightarrow> has_challenge x = has_challenge s"
proof -
  assume m: "match_google_signer w env email = Some s" "agreement_by_envelope w env = Some v"
    and k: "keyed w" and x: "signer_for_envelope w env (s_id s) = Some x"
  from match_says(4) [OF m] k obtain r where r: "r \<in> set (signer_rows w)" "s = strip_signer_secrets r" by (auto simp: keyed_def)
  have "x = r" using signer_for_envelope_row [OF x r(1)] r(2) k by (simp add: keyed_def)
  then show "has_challenge x = has_challenge s" by (simp add: r(2))
qed

lemma matched_found:
  assumes "match_google_signer w env email = Some s" and "agreement_by_envelope w env = Some v" and "keyed w"
  shows "signer_for_envelope w env (s_id s) \<noteq> None"
proof -
  from match_says(4) [OF assms(1,2)] assms(3) obtain r where r: "r \<in> set (signer_rows w)" "s_agr r = a_id (v_row v)"
      "s = strip_signer_secrets r" by (auto simp: keyed_def)
  then show ?thesis
    using env_lookup(1,2) [OF assms(2)] assms(3) by (auto simp: signer_for_envelope_def find_None_iff keyed_def intro!: bexI)
qed

text \<open>One step: a new session stands on facts of the step, or on those of the session it was made from.\<close>

lemma grounded_new:
  assumes "match_google_signer w env em = Some s" and "agreement_by_envelope w env = Some v" and "keyed w"
    and "Proved (norm_email em) \<in> L" and "rows_say w \<subseteq> L" and "norm_email em' = norm_email em"
  shows "grounded L (env_payload t env (s_id s) em' m (\<not> has_challenge s) (a_epoch (v_row v)))"
proof -
  have u: "unique_agr w" using assms(3) by (simp add: keyed_def)
  note f = match_says [OF assms(1,2) u]
  show ?thesis
    unfolding grounded_def using f(1,3) assms(4-6)
    by (intro exI conjI impI) (rule refl, auto)
qed

lemma run_grounded:
  assumes "env_run ax C L"
  shows "\<forall>q \<in> C. grounded L q"
  using assms
proof induction
  case (run_google C L st now sc state exchanged ip ua env q)
  let ?L = "L \<union> rows_say (st_world st) \<union> google_facts exchanged"
  obtain em s v where h: "exchanged = Some em" "match_google_signer (st_world st) env em = Some s"
      "agreement_by_envelope (st_world st) env = Some v"
      "q = env_payload now env (s_id s) em ''google'' (\<not> has_challenge s) (a_epoch (v_row v))"
    using run_google by (auto simp: envelope_auth_callback_def Let_def split: option.splits if_splits)
  have "grounded ?L q"
    unfolding h(4) using run_google(2) by (intro grounded_new [OF h(2,3)]) (auto simp: google_facts_def h(1))
  then show ?case using run_google.IH grounded_mono [of L _ ?L] by blast
next
  case (run_code C L st now env hint code ip ua q)
  let ?L = "L \<union> rows_say (st_world st) \<union> code_facts ax now env hint code st"
  obtain s st1 v where h: "resolve_signer_by_email (st_world st) env (py_strip hint) = Some s"
      "on_site_auth (check_env_otp (ax_auth ax) now (s_id s) code ''email'') st = (True, st1)"
      "agreement_by_envelope (st_world st1) env = Some v"
      "q = env_payload now env (s_id s) (s_email s) ''otp:email'' (\<not> has_challenge s) (a_epoch (v_row v))"
    using run_code by (auto simp: envelope_otp_verify_def split: option.splits prod.splits bool.splits)
  note sf = on_site_auth_frames(1,3) [OF h(2)]
  have m: "match_google_signer (st_world st) env (py_strip hint) = Some s" using h(1) by (simp add: resolve_signer_by_email_def)
  have v: "agreement_by_envelope (st_world st) env = Some v" using h(3) sf(1) by simp
  have u: "unique_agr (st_world st)" using run_code by (simp add: keyed_def)
  have e: "norm_email (s_email s) = norm_email (py_strip hint)" by (rule match_says(2) [OF m v u])
  have "Proved (norm_email (s_email s)) \<in> ?L" using h(1) sf(2) by (auto simp: code_facts_def)
  then have "grounded ?L q"
    unfolding h(4) using run_code(2) e by (intro grounded_new [OF m v]) auto
  then show ?case using run_code.IH grounded_mono [of L _ ?L] by blast
next
  case (run_challenge C L st now ck env ans ip q)
  let ?L = "L \<union> rows_say (st_world st) \<union> lock_facts ax now env ck ans ip st"
  obtain d v s where g: "require_env_session (ax_auth ax) now env ck (st_world st) = EnvOk d v s"
      and c: "fst (verify_challenge ax now env (s_id s) ans ip st) = ChalOk"
      and q: "q = env_payload now env (s_id s) (jstr d ''email_lc'') (jstr d ''m'') True (a_epoch (v_row v))"
    using run_challenge(4) by (auto simp: envelope_challenge_def split: env_guard.splits prod.splits chal_result.splits)
  note f = guard_ok [OF g]
  have "d \<in> C" using run_challenge(3) f(1) by (simp add: signed_here_def)
  then obtain t env' sid em m ok ep where d: "d = env_payload t env' sid em m ok ep" and p: "Proved (norm_email em) \<in> L"
      "Addressed env' sid (norm_email em) \<in> L" using run_challenge.IH unfolding grounded_def by blast
  have id: "env' = env" "sid = s_id s" using f(2,7) by (simp_all add: d)
  have op: "Opened env (s_id s) (a_epoch (v_row v)) \<in> ?L" using g c by (auto simp: lock_facts_def)
  have "grounded ?L q"
    unfolding grounded_def q d using p op id
    by (intro exI conjI impI) (rule refl, auto)
  then show ?case using run_challenge.IH grounded_mono [of L _ ?L] by blast
next
  case (run_switch C L w now ck env target ip ua env2 locked q)
  let ?L = "L \<union> rows_say w"
  obtain d v s ts tv where g: "require_env_session (ax_auth ax) now env ck w = EnvOk d v s"
      and m: "match_google_signer w (py_strip target) (py_lower (jstr d ''email_lc'')) = Some ts"
      and v: "agreement_by_envelope w (py_strip target) = Some tv"
      and q: "q = env_payload now (py_strip target) (s_id ts) (py_lower (jstr d ''email_lc'')) (nonblank (jstr d ''m'') ''email'')
        (\<not> (case signer_for_envelope w (py_strip target) (s_id ts) of None \<Rightarrow> False | Some x \<Rightarrow> has_challenge x)) (a_epoch (v_row tv))"
    using run_switch(4) by (auto simp: envelope_switch_def Let_def split: env_guard.splits option.splits if_splits)
  note f = guard_ok [OF g]
  have "d \<in> C" using run_switch(3) f(1) by (simp add: signed_here_def)
  then have p: "Proved (norm_email (jstr d ''email_lc'')) \<in> L" using run_switch.IH unfolding grounded_def by force
  obtain x where x: "signer_for_envelope w (py_strip target) (s_id ts) = Some x"
    using matched_found [OF m v run_switch(2)] by blast
  have "has_challenge x = has_challenge ts" by (rule has_challenge_strip_row [OF m v run_switch(2) x])
  then have "grounded ?L q"
    unfolding q x using p run_switch(2) by (simp, intro grounded_new [OF m v]) auto
  then show ?case using run_switch.IH grounded_mono [of L _ ?L] by blast
qed simp

text \<open>What an envelope route shows, if it shows anything of the document.\<close>

definition env_shown :: "engine \<Rightarrow> auth_env \<Rightarrow> time \<Rightarrow> string \<Rightarrow> string option \<Rightarrow> world \<Rightarrow> bool" where
  "env_shown eng ae now env ck w =
     ((case fst (envelope_data ae now env ck [] [] w) of EdPage pg \<Rightarrow> True | _ \<Rightarrow> False) \<or>
      (case fst (envelope_download ae now env ck w) of EfFile b fn \<Rightarrow> True | _ \<Rightarrow> False) \<or>
      (case envelope_certificate eng ae now env ck w of EfFile b fn \<Rightarrow> True | _ \<Rightarrow> False))"

lemma env_shown_guard:
  "env_shown eng ae now env ck w \<Longrightarrow> \<exists>d v s. require_env_session ae now env ck w = EnvOk d v s \<and> \<not> session_locked d s"
  by (auto simp: env_shown_def envelope_data_def envelope_download_def envelope_certificate_def env_download_guard_def Let_def
      split: env_guard.splits if_splits option.splits prod.splits)

text \<open>Property C28. Whatever sequence of sign-ins, code checks, lock answers and inbox switches has happened, in whatever states of the
  site: whoever is shown an envelope's page, executed copy or certificate holds a session of a signer of that
  envelope, which is not voided; somebody proved to own that signer's address, as it stood on the row when the
  session was made; and if the signer has an access lock, it was passed (or absent) at the envelope's current
  epoch, which changes whenever a lock is set or access is revoked.\<close>

theorem envelope_shown_proven:
  assumes "env_run ax C L" and "keyed w" and "signed_here (ax_auth ax) now ck C" and "env_shown eng (ax_auth ax) now env ck w"
  shows "\<exists>a s em. a \<in> set (agreement_rows w) \<and> a_envelope_id a = env \<and> a_status a \<notin> {Voided, Cancelled} \<and>
    s \<in> set (signer_rows w) \<and> s_agr s = a_id a \<and> Proved em \<in> L \<and> Addressed env (s_id s) em \<in> L \<and>
    (has_challenge s \<longrightarrow> Opened env (s_id s) (a_epoch a) \<in> L)"
proof -
  obtain d v s where g: "require_env_session (ax_auth ax) now env ck w = EnvOk d v s" and l: "\<not> session_locked d s"
    using env_shown_guard [OF assms(4)] by blast
  note f = guard_ok [OF g]
  have u: "unique_agr w" using assms(2) by (simp add: keyed_def)
  note e = env_lookup(1,2) [OF f(3) u]
  obtain a where a: "s \<in> set (signer_rows w)" "a \<in> set (agreement_rows w)" "a_id a = s_agr s" "a_envelope_id a = env"
    using signer_for_envelope_mem [OF f(4)] by blast
  have sa: "s_agr s = (if a_id (v_row v) = 0 then -1 else a_id (v_row v))"
    using g by (auto simp: require_env_session_def split: option.splits if_splits)
  have "d \<in> C" using assms(3) f(1) by (simp add: signed_here_def)
  with run_grounded [OF assms(1)] obtain t env' sid em m ok ep where d: "d = env_payload t env' sid em m ok ep"
      and p: "Proved (norm_email em) \<in> L" "Addressed env' sid (norm_email em) \<in> L" "ok \<longrightarrow> Opened env' sid ep \<in> L"
    unfolding grounded_def by blast
  have id: "env' = env" "sid = s_id s" "ep = a_epoch (v_row v)" using f(2,5,7) by (simp_all add: d)
  have "has_challenge s \<longrightarrow> ok" using l by (simp add: session_locked_def d)
  moreover have "s_agr s = a_id (v_row v)" using sa e(1) assms(2) by (auto simp: keyed_def)
  ultimately show ?thesis using e f(6) a p id by blast
qed

section \<open>What the page says about the others\<close>

lemma mask_split:
  assumes "py_strip em = u @ CHR ''@'' # host" and "CHR ''@'' \<notin> set u"
  shows "mask_email_display em = take 1 u @ replicate 4 (CHR 0x95) @ CHR ''@'' # host"
  using assms by (simp add: mask_email_display_def Let_def before_char_def after_char_def takeWhile_upto_sep dropWhile_upto_sep)

lemma view_rows:
  assumes "get_agreement w i = Some v"
  shows "set (v_signers v) \<subseteq> strip_signer_secrets ` set (signer_rows w)" "set (v_events v) \<subseteq> set (event_rows w)"
  using assms by (auto simp: get_agreement_def agr_signers_def agr_events_def split: option.splits)

lemma strip_keeps_party [simp]: "party_of (strip_signer_secrets s) = party_of s"
  by (simp add: party_of_def strip_signer_secrets_def)


section \<open>Two gaps of the tokenised page\<close>

text \<open>
  The payload route stamps and logs the view before it looks at the access lock: the audit trail says the
  document was viewed by somebody who was shown the lock only. And the download by token has no lock at all.
\<close>

definition locked_out :: world where
  "locked_out = sample_out\<lparr>signer_rows := [locked_signer\<lparr>s_status := Sent, s_token := Some ''tok''\<rparr>]\<rparr>"

lemma locked_view_recorded:
  "\<exists>w1. sign_token_payload ref_engine 20 ''tok'' ''ip'' ''ua'' locked_out = (TpLocked ''dob'' [], w1) \<and>
     (\<exists>s. sig_row w1 1 = Some s \<and> s_status s = Viewed \<and> s_viewed_at s = Some 20) \<and>
     (\<exists>e \<in> set (event_rows w1). e_type e = ''viewed'' \<and> e_signer e = Some 1)"
  by (simp add: sign_token_payload_def signing_payload_def locked_out_def sample_out_def sample_world_def locked_signer_def
      blank_signer_def blank_agreement_def signer_by_token_def get_agreement_def agr_row_def Let_def token_expired_def
      link_clock_def upd_sig_def view_row_def log_event_def presented_bytes_def source_bytes_def ref_engine_def source_path_def
      gate_meta_def signer_by_token_public_def sig_row_def SIGN_TOKEN_TTL_DAYS_def)

lemma token_download_ignores_lock:
  assumes "signer_by_token w token = Some s" and "agr_row w (s_agr s) = Some a" and "executed_copy w a = Some b"
  shows "\<exists>fn w1. sign_token_download now token w = (DownOk b fn, w1)"
  using assms by (simp add: sign_token_download_def signer_download_def)

section \<open>The properties on a concrete envelope\<close>


lemma otp_start_reveals_nothing_witness:
  "fst (envelope_auth_start demo_ax 100 [] [] ''123456'' ''s'' ''E1'' ''otp'' ''a@x.io'' ''ip'' demo_site) =
   fst (envelope_auth_start demo_ax 100 [] [] ''123456'' ''s'' ''E1'' ''otp'' ''eve@y.io'' ''ip'' demo_site) \<and>
   st_world (snd (envelope_auth_start demo_ax 100 [] [] ''123456'' ''s'' ''E1'' ''otp'' ''a@x.io'' ''ip'' demo_site)) = st_world demo_site"
proof -
  have "py_lower (py_strip ''otp'') = ''otp''" by code_simp
  note t = otp_start_reveals_nothing [OF this]
  show ?thesis
    using t [of demo_ax 100 "[]" "[]" "''123456''" "''s''" "''E1''" "''a@x.io''" "''ip''" demo_site 100 "[]" "[]" "''123456''" "''s''"
        "''E1''" "''eve@y.io''" "''ip''" demo_site]
    by (metis prod.collapse)
qed

text \<open>A code has been sent to the one signer, who has no lock, and is entered.\<close>

definition otp_payload :: Tokens.payload where
  "otp_payload = env_payload 200 ''E1'' 1 ''a@x.io'' ''otp:email'' True 0"

definition otp_ax :: access_env where
  "otp_ax = demo_ax\<lparr>ax_auth := demo_env otp_payload\<rparr>"

definition otp_site :: site where
  "otp_site = upd_auth (set_setting (otp_sent_key 1 ''email'') (JFloat 100))
     (upd_auth (set_setting (eotp_key 1) (JObj [(''h'', JStr (otp_mac (ax_auth otp_ax) ''s'' ''123456'')), (''salt'', JStr ''s''),
        (''exp'', JFloat 700)])) \<lparr>st_world = sample_out, st_portal = empty_portal\<rparr>)"

lemma otp_site_world [simp]: "st_world otp_site = sample_out"
  by (simp add: otp_site_def)

lemma otp_site_signer:
  "match_google_signer sample_out ''E1'' ''a@x.io'' = Some (strip_signer_secrets (blank_signer\<lparr>s_token := Some ''tok'', s_status := Sent\<rparr>))"
  "signer_for_envelope sample_out ''E1'' 1 = Some (blank_signer\<lparr>s_token := Some ''tok'', s_status := Sent\<rparr>)"
proof -
  have "norm_email ''a@x.io'' = ''a@x.io''" by code_simp
  then show "match_google_signer sample_out ''E1'' ''a@x.io'' = Some (strip_signer_secrets (blank_signer\<lparr>s_token := Some ''tok'', s_status := Sent\<rparr>))"
    by (simp add: match_google_signer_def agreement_by_envelope_def get_agreement_def sample_out_def sample_world_def agr_row_def
        blank_agreement_def agr_signers_def blank_signer_def Let_def)
  show "signer_for_envelope sample_out ''E1'' 1 = Some (blank_signer\<lparr>s_token := Some ''tok'', s_status := Sent\<rparr>)"
    by (simp add: signer_for_envelope_def sample_out_def sample_world_def blank_agreement_def blank_signer_def)
qed

lemma otp_site_code: "fst (check_env_otp (ax_auth otp_ax) 200 1 ''123456'' ''email'' (auth_of otp_site)) = True"
proof -
  have d: "py_strip ''123456'' = ''123456''" by code_simp
  have l: "latin_isdigit ''123456''" by (simp add: latin_isdigit_def is_digit_def char_code_def)
  have k: "\<not> auth_limit_locked 200 (otp_lock_key 1 ''email'') (auth_of otp_site)"
    by (simp add: otp_site_def auth_limit_locked_def empty_portal_def empty_auth_def)
  have f: "otp_send_fresh 200 1 ''email'' (auth_of otp_site)"
    by (simp add: otp_site_def otp_send_fresh_def jnum_def)
  have "verify_email_otp (ax_auth otp_ax) 200 1 ''123456'' (auth_of otp_site) = (True, set_setting (eotp_key 1) (JInt 0) (auth_of otp_site))"
    by (simp add: verify_email_otp_def d l otp_site_def otp_keys jget_def jnum_def jstr_def)
  then show ?thesis by (simp add: check_env_otp_def Let_def k d l f)
qed

lemma envelope_shown_proven_witness:
  "env_shown ref_engine (ax_auth otp_ax) 300 ''E1'' (Some (set_env_cookie (ax_auth otp_ax) otp_payload)) sample_out \<and>
   (\<exists>C L em s. env_run otp_ax C L \<and> Proved em \<in> L \<and> Addressed ''E1'' (s_id s) em \<in> L \<and> s \<in> set (signer_rows sample_out))"
proof -
  let ?ck = "Some (set_env_cookie (ax_auth otp_ax) otp_payload)"
  have h: "py_strip ''a@x.io'' = ''a@x.io''" by code_simp
  have v: "\<exists>v. agreement_by_envelope sample_out ''E1'' = Some v \<and> a_epoch (v_row v) = 0 \<and> a_id (v_row v) = 1 \<and>
      a_status (v_row v) = OutForSignature"
    by (simp add: agreement_by_envelope_def get_agreement_def sample_out_def sample_world_def agr_row_def blank_agreement_def)
  then obtain v where v: "agreement_by_envelope sample_out ''E1'' = Some v" "a_epoch (v_row v) = 0" "a_id (v_row v) = 1"
      "a_status (v_row v) = OutForSignature" by blast
  have nc: "\<not> has_challenge blank_signer" by (simp add: has_challenge_def blank_signer_def)
  have nc2: "has_challenge (blank_signer\<lparr>s_token := Some ''tok'', s_status := Sent\<rparr>) = has_challenge blank_signer"
    by (simp add: has_challenge_def)
  have e: "s_email blank_signer = ''a@x.io''" "s_id blank_signer = 1" "s_agr blank_signer = 1" by (simp_all add: blank_signer_def)
  have "fst (envelope_otp_verify otp_ax 200 ''E1'' ''a@x.io'' ''123456'' [] [] otp_site) = ElSession ''E1'' otp_payload"
  proof -
    obtain b st1 where b: "on_site_auth (check_env_otp (ax_auth otp_ax) 200 1 ''123456'' ''email'') otp_site = (b, st1)" by fastforce
    have "b" "st_world st1 = sample_out" using on_site_auth_frames [OF b] otp_site_code by simp_all
    then show ?thesis
      using b v by (simp add: envelope_otp_verify_def resolve_signer_by_email_def h otp_site_signer e nc nc2 otp_payload_def)
  qed
  moreover have k: "keyed sample_out"
    by (simp add: keyed_def unique_agr_def unique_sig_def sample_out_def sample_world_def blank_agreement_def)
  ultimately have r: "env_run otp_ax {otp_payload} ({} \<union> rows_say (st_world otp_site) \<union> code_facts otp_ax 200 ''E1'' ''a@x.io'' ''123456'' otp_site)"
    by (intro run_code [OF run_start]) simp_all
  have rd: "read_env_session (ax_auth otp_ax) 300 c = Some d \<Longrightarrow> d = otp_payload" for c d
    by (auto simp: read_env_session_def read_kind_def tok_unsign_def otp_ax_def demo_ax_def demo_env_def Let_def bind_eq_Some_conv
        split: option.splits if_splits prod.splits)
  have "codec_ok (ax_auth otp_ax) otp_payload" by (simp add: codec_ok_def otp_ax_def demo_ax_def demo_env_def)
  then have rr: "read_env_session (ax_auth otp_ax) 300 ?ck = Some otp_payload"
    unfolding read_env_session_def set_env_cookie_def
    by (subst read_kind_sign [where x = "200 + ENV_SESSION_TTL"])
      (simp_all add: otp_payload_def env_payload_def jget_def ENV_SESSION_TTL_def)
  have g: "require_env_session (ax_auth otp_ax) 300 ''E1'' ?ck sample_out = EnvOk otp_payload v (blank_signer\<lparr>s_token := Some ''tok'', s_status := Sent\<rparr>)"
    using rr v otp_site_signer(2) by (simp add: require_env_session_def otp_payload_def e)
  then have sh: "env_shown ref_engine (ax_auth otp_ax) 300 ''E1'' ?ck sample_out"
    by (simp add: env_shown_def envelope_data_def session_locked_def nc nc2 Let_def)
  have "signed_here (ax_auth otp_ax) 300 ?ck {otp_payload}" using rd by (auto simp: signed_here_def)
  from envelope_shown_proven [OF r k this sh] r sh show ?thesis by blast
qed


end
