(* ===== verification/Api.thy ===== *)
theory Api
  imports Tenancy Envelope
begin

text \<open>
  The product API (\<open>sign/routers/mysign.py\<close>). One definition per route: the gate, the ownership choke-point, the reading of the
  body in the order of the code, the engine operation, the answer. \<open>AnRaise\<close> is an exception that leaves
  the route, answered by the framework with a server error. One clock reading serves a request, and the
  fresh values it draws are part of it. Rendering, text extraction and PDF validation are parameters.
\<close>

record api_env =
  ap_http :: http_config
  ap_portal :: portal_env
  ap_engine :: engine
  ap_render :: renderer
  ap_extract :: extractor
  ap_spans :: "bytes \<Rightarrow> int \<Rightarrow> json list option"
  ap_validate :: "bytes \<Rightarrow> string option"

text \<open>A multipart form's \<open>file\<close> member: absent, a plain text member, or an upload with its file name.\<close>

datatype upload = NoUpload | TextUpload | FileUpload string bytes

record api_req =
  rq_http :: http_req
  rq_now :: time
  rq_body :: "json option"
  rq_name :: string
  rq_file :: upload
  rq_page :: json
  rq_env_id :: string
  rq_tokens :: "int \<Rightarrow> string"
  rq_salt :: bytes
  rq_rnd :: string

datatype api_answer =
    AnRaise | AnUnauthorized | AnMissing | AnBad string | AnInactive | AnUnverified | AnLimited
  | AnSent bool | AnCode bool | AnAccount account_view nat | AnView account_view
  | AnAgreements "agr_summary list" nat int int bool | AnCreated int
  | AnTemplates "template list" nat int int bool | AnTemplate template | AnTplMade tpl_result int
  | AnArchived | AnUsed inst_result int | AnDetected detect_result | AnAgreement agr_view
  | AnPages "(real \<times> real) list" | AnImage bytes | AnPdf bytes | AnSigners "signer list set_result"
  | AnOrder "draft_error option" | AnPlaced place_result | AnPageOp page_result int
  | AnDeleted owned_result int | AnSpans "json list" | AnDispatched send_result
  | AnReminded remind_result | AnVoided bool | AnFile bytes string | AnKeys "api_key list"
  | AnKey string api_key | AnRevoked bool | AnBilling activate_result int

section \<open>Gates and bodies\<close>

definition on_world :: "(world \<Rightarrow> 'a \<times> world) \<Rightarrow> ('a \<Rightarrow> api_answer) \<Rightarrow> site \<Rightarrow> api_answer \<times> site" where
  "on_world f k s = (case f (st_world s) of (r, w) \<Rightarrow> (k r, s\<lparr>st_world := w\<rparr>))"

definition on_portal :: "(portal \<Rightarrow> 'a \<times> portal) \<Rightarrow> ('a \<Rightarrow> api_answer) \<Rightarrow> site \<Rightarrow> api_answer \<times> site" where
  "on_portal f k s = (case f (st_portal s) of (r, p) \<Rightarrow> (k r, s\<lparr>st_portal := p\<rparr>))"

definition with_acct ::
  "api_env \<Rightarrow> api_req \<Rightarrow> (account \<Rightarrow> site \<Rightarrow> api_answer \<times> site) \<Rightarrow> site \<Rightarrow> api_answer \<times> site" where
  "with_acct e q k s =
     (case require_sign_acct (ap_http e) (pe_auth (ap_portal e)) (rq_now q) (rq_http q) (st_portal s) of
        (GateRaise x, p) \<Rightarrow> (AnRaise, s\<lparr>st_portal := p\<rparr>)
      | (GateDenied, p) \<Rightarrow> (AnUnauthorized, s\<lparr>st_portal := p\<rparr>)
      | (GateOk a, p) \<Rightarrow> k a (s\<lparr>st_portal := p\<rparr>))"

text \<open>The cookie-only gate: a developer key never opens it.\<close>

definition with_cookie ::
  "api_env \<Rightarrow> api_req \<Rightarrow> (account \<Rightarrow> site \<Rightarrow> api_answer \<times> site) \<Rightarrow> site \<Rightarrow> api_answer \<times> site" where
  "with_cookie e q k s =
     (case require_sign_cookie (ap_http e) (pe_auth (ap_portal e)) (rq_now q) (rq_http q) (st_portal s) of
        GateRaise x \<Rightarrow> (AnRaise, s) | GateDenied \<Rightarrow> (AnUnauthorized, s) | GateOk a \<Rightarrow> k a s)"

definition with_owned ::
  "api_env \<Rightarrow> int \<Rightarrow> api_req \<Rightarrow> (account \<Rightarrow> agr_view \<Rightarrow> site \<Rightarrow> api_answer \<times> site) \<Rightarrow> site \<Rightarrow> api_answer \<times> site" where
  "with_owned e aid q k =
     with_acct e q (\<lambda>a s. case require_owned aid a (st_world s) of None \<Rightarrow> (AnMissing, s) | Some v \<Rightarrow> k a v s)"

text \<open>\<open>await req.json()\<close> and \<open>.get\<close>: a body that is no JSON or no object raises.\<close>

definition with_body :: "api_req \<Rightarrow> (dict \<Rightarrow> site \<Rightarrow> api_answer \<times> site) \<Rightarrow> site \<Rightarrow> api_answer \<times> site" where
  "with_body q k s = (case rq_body q of Some (JObj d) \<Rightarrow> k d s | _ \<Rightarrow> (AnRaise, s))"

text \<open>The same under \<open>try\<close>: a body that is no JSON is empty.\<close>

definition with_body_or_empty :: "api_req \<Rightarrow> (dict \<Rightarrow> site \<Rightarrow> api_answer \<times> site) \<Rightarrow> site \<Rightarrow> api_answer \<times> site" where
  "with_body_or_empty q k s =
     (case rq_body q of None \<Rightarrow> k [] s | Some (JObj d) \<Rightarrow> k d s | Some _ \<Rightarrow> (AnRaise, s))"

definition or_raise :: "py_exc + 'a \<Rightarrow> ('a \<Rightarrow> site \<Rightarrow> api_answer \<times> site) \<Rightarrow> site \<Rightarrow> api_answer \<times> site" where
  "or_raise r k s = (case r of Inl x \<Rightarrow> (AnRaise, s) | Inr x \<Rightarrow> k x s)"

text \<open>\<open>(v or "").strip()\<close>.\<close>

definition strip_text :: "json \<Rightarrow> py_exc + string" where
  "strip_text j = (if \<not> truthy j then Inr [] else case j of JStr t \<Rightarrow> Inr (py_strip t) | _ \<Rightarrow> Inl AttributeError)"

section \<open>Account security\<close>

definition mysign_2fa_phone_start :: "api_env \<Rightarrow> api_req \<Rightarrow> site \<Rightarrow> api_answer \<times> site" where
  "mysign_2fa_phone_start e q =
     with_cookie e q (\<lambda>a. with_body q (\<lambda>b. or_raise (strip_text (jget b ''phone'')) (\<lambda>phone s.
       if \<not> valid_phone phone then (AnBad ''invalid_phone'', s)
       else (case on_auth (auth_rate_allowed (rq_now q) (''signacct:phoneenroll:'' @ py_str (ac_id a)) 5 900) (st_portal s) of
           (False, p) \<Rightarrow> (AnLimited, s\<lparr>st_portal := p\<rparr>)
         | (True, p) \<Rightarrow> (AnSent (send_phone_code (ap_portal e) phone), s\<lparr>st_portal := p\<rparr>)))))"

text \<open>The account as it is stored after the call; it is there, the gate has just read it.\<close>

definition view_after :: "account \<Rightarrow> portal \<Rightarrow> api_answer" where
  "view_after a p = (case account_by_id p (ac_id a) of None \<Rightarrow> AnRaise | Some b \<Rightarrow> AnView (public_view b))"

definition mysign_2fa_phone_confirm :: "api_env \<Rightarrow> api_req \<Rightarrow> site \<Rightarrow> api_answer \<times> site" where
  "mysign_2fa_phone_confirm e q =
     with_cookie e q (\<lambda>a. with_body q (\<lambda>b. or_raise (strip_text (jget b ''phone'')) (\<lambda>phone.
       or_raise (strip_text (jget b ''code'')) (\<lambda>code s.
         if \<not> check_phone_code (ap_portal e) phone code then (AnBad ''invalid_code'', s)
         else let p = set_phone_2fa (ac_id a) (e164 phone) True (st_portal s)
              in (view_after a p, s\<lparr>st_portal := p\<rparr>)))))"

definition mysign_2fa_disable_challenge :: "api_env \<Rightarrow> api_req \<Rightarrow> site \<Rightarrow> api_answer \<times> site" where
  "mysign_2fa_disable_challenge e q =
     with_cookie e q (\<lambda>a s.
       if \<not> ac_sms_2fa a then (AnSent True, s)
       else on_portal (send_login_sms (ap_portal e) (rq_now q) a) AnSent s)"

definition mysign_2fa_disable :: "api_env \<Rightarrow> api_req \<Rightarrow> site \<Rightarrow> api_answer \<times> site" where
  "mysign_2fa_disable e q =
     with_cookie e q (\<lambda>a s.
       if \<not> ac_sms_2fa a then (view_after a (st_portal s), s)
       else with_body q (\<lambda>b. or_raise (strip_text (jget b ''code'')) (\<lambda>code s.
         (case verify_login_sms (ap_portal e) (rq_now q) (ac_id a) code (st_portal s) of
            (False, p) \<Rightarrow> (AnBad ''invalid_code'', s\<lparr>st_portal := p\<rparr>)
          | (True, p) \<Rightarrow>
              let p1 = disable_sms_2fa (ac_id a) p in (view_after a p1, s\<lparr>st_portal := p1\<rparr>)))) s)"

section \<open>Agreements: list and create\<close>

definition page_limit :: "int \<Rightarrow> int" where
  "page_limit l = max 1 (min l 200)"

definition mysign_list :: "api_env \<Rightarrow> int \<Rightarrow> int \<Rightarrow> api_req \<Rightarrow> site \<Rightarrow> api_answer \<times> site" where
  "mysign_list e lmt off q =
     with_acct e q (\<lambda>a s.
       let l = page_limit lmt; o1 = max 0 off;
           out = list_agreements_for_owner (st_world s) (ac_id a) (Some l) o1;
           total = count_agreements_for_owner (st_world s) (ac_id a)
       in (AnAgreements out total o1 l (o1 + int (length out) < int total), s))"

text \<open>Reading the upload: the name is the form's, else the file's; a text member has no \<open>read\<close>.\<close>

definition with_upload :: "api_env \<Rightarrow> api_req \<Rightarrow> (string \<Rightarrow> bytes \<Rightarrow> site \<Rightarrow> api_answer \<times> site) \<Rightarrow> site \<Rightarrow> api_answer \<times> site" where
  "with_upload e q k s =
     (case rq_file q of
        NoUpload \<Rightarrow> (AnBad ''file required'', s)
      | TextUpload \<Rightarrow> (AnRaise, s)
      | FileUpload fname raw \<Rightarrow>
          (case validate_sign_pdf (ap_validate e) raw of
             Some err \<Rightarrow> (AnBad err, s)
           | None \<Rightarrow> k (nonblank (rq_name q) fname) raw s))"

definition mysign_create :: "api_env \<Rightarrow> api_req \<Rightarrow> site \<Rightarrow> api_answer \<times> site" where
  "mysign_create e q =
     with_acct e q (\<lambda>a. with_upload e q (\<lambda>name raw.
       on_world (create_agreement (ap_engine e) (rq_now q) (rq_env_id q) name raw [] (ac_email a) None (Some (ac_id a)))
         (\<lambda>r. case r of None \<Rightarrow> AnRaise | Some aid \<Rightarrow> AnCreated aid)))"

section \<open>Templates\<close>

definition mysign_templates_list :: "api_env \<Rightarrow> int \<Rightarrow> int \<Rightarrow> api_req \<Rightarrow> site \<Rightarrow> api_answer \<times> site" where
  "mysign_templates_list e lmt off q =
     with_acct e q (\<lambda>a s.
       let l = page_limit lmt; o1 = max 0 off; rows = list_templates_for_owner (st_world s) (ac_id a) False;
           out = take (nat l) (drop (nat o1) rows)
       in (AnTemplates out (length rows) o1 l (o1 + int (length out) < int (length rows)), s))"

definition mysign_templates_get :: "api_env \<Rightarrow> int \<Rightarrow> api_req \<Rightarrow> site \<Rightarrow> api_answer \<times> site" where
  "mysign_templates_get e tid q =
     with_acct e q (\<lambda>a s.
       (case get_template_owned (st_world s) tid (ac_id a) of None \<Rightarrow> (AnMissing, s) | Some t \<Rightarrow> (AnTemplate t, s)))"

definition json_or :: "json \<Rightarrow> json \<Rightarrow> json" where
  "json_or i j = (if truthy i then i else j)"

definition source_of :: "dict \<Rightarrow> py_exc + int option" where
  "source_of b =
     (let src = json_or (jget b ''agreement_id'') (jget b ''source_agreement_id'')
      in if truthy src then try_bind (jint src) (\<lambda>i. Inr (Some i)) else Inr None)"

text \<open>The engine reads members of a layout that is not empty.\<close>

definition layout_of_body :: "dict \<Rightarrow> py_exc + dict" where
  "layout_of_body b =
     (if \<not> truthy (jget b ''layout'') then Inr []
      else case jget b ''layout'' of JObj d \<Rightarrow> Inr d | _ \<Rightarrow> Inl AttributeError)"

definition tpl_answer :: "tpl_result \<Rightarrow> api_answer" where
  "tpl_answer r = (case r of TplRaise \<Rightarrow> AnRaise | TplOk tid \<Rightarrow> AnTplMade r 200 | _ \<Rightarrow> AnTplMade r 400)"

definition mysign_templates_create :: "api_env \<Rightarrow> api_req \<Rightarrow> site \<Rightarrow> api_answer \<times> site" where
  "mysign_templates_create e q =
     with_acct e q (\<lambda>a. with_body_or_empty q (\<lambda>b. or_raise (strip_text (jget b ''name'')) (\<lambda>name.
       or_raise (source_of b) (\<lambda>src. or_raise (layout_of_body b) (\<lambda>layout.
         on_world (create_template (ap_engine e) (rq_now q) name src layout (ac_email a) (Some (ac_id a))) tpl_answer)))))"

definition mysign_templates_archive :: "api_env \<Rightarrow> int \<Rightarrow> api_req \<Rightarrow> site \<Rightarrow> api_answer \<times> site" where
  "mysign_templates_archive e tid q =
     with_acct e q (\<lambda>a. on_world (archive_template_owned (rq_now q) tid (ac_id a)) (\<lambda>ok. if ok then AnArchived else AnMissing))"

text \<open>A list of objects, as the engine walks over it; \<open>None\<close> is a value it raises on.\<close>

fun dict_list :: "json list \<Rightarrow> dict list option" where
  "dict_list [] = Some []"
| "dict_list (JObj d # js) = map_option (Cons d) (dict_list js)"
| "dict_list (j # js) = None"

definition dicts_of :: "json \<Rightarrow> dict list option" where
  "dicts_of j =
     (case j of JList js \<Rightarrow> dict_list js | JObj d \<Rightarrow> if d = [] then Some [] else None
      | JStr t \<Rightarrow> if t = [] then Some [] else None | _ \<Rightarrow> None)"

text \<open>Recipients that are no list of objects raise when the engine reads them: the draft is stored by then.\<close>

definition use_unreadable ::
  "engine \<Rightarrow> time \<Rightarrow> string \<Rightarrow> int \<Rightarrow> string \<Rightarrow> string \<Rightarrow> int option \<Rightarrow> world \<Rightarrow> inst_result \<times> world" where
  "use_unreadable eng now env_id tid name created_by owner w =
     (case get_template w tid of
        None \<Rightarrow> (InstNotFound, w)
      | Some t \<Rightarrow>
          if \<not> no_owner owner \<and> t_owner t \<noteq> owner then (InstNotFound, w)
          else let pdf = (if t_source_path t = [] then [] else coalesce (files w (t_source_path t)) []) in
            if pdf = [] then (InstNoSource, w)
            else (InstRaise, snd (create_agreement eng now env_id
              (nonblank (py_strip (first_nonempty [name, t_name t, ''Agreement''])) ''Agreement'') pdf []
              (nonblank created_by ''Will'') (t_source_doc_id t) owner w)))"

definition inst_answer :: "inst_result \<Rightarrow> api_answer" where
  "inst_answer r =
     (case r of InstRaise \<Rightarrow> AnRaise | InstOk _ \<Rightarrow> AnUsed r 200 | InstNotFound \<Rightarrow> AnUsed r 404 | InstNoSource \<Rightarrow> AnUsed r 400)"

definition mysign_templates_use :: "api_env \<Rightarrow> int \<Rightarrow> api_req \<Rightarrow> site \<Rightarrow> api_answer \<times> site" where
  "mysign_templates_use e tid q =
     with_acct e q (\<lambda>a. with_body_or_empty q (\<lambda>b.
       let answers = (case jget b ''answers'' of JObj d \<Rightarrow> d | _ \<Rightarrow> []);
           rec = jget b ''recipients''
       in or_raise (strip_text (jget b ''name'')) (\<lambda>name.
         on_world
           (case (if truthy rec then dicts_of rec else Some []) of
              Some rs \<Rightarrow> instantiate_template (ap_engine e) (rq_now q) (rq_env_id q) tid rs name (ac_email a) (Some (ac_id a)) answers
            | None \<Rightarrow> use_unreadable (ap_engine e) (rq_now q) (rq_env_id q) tid name (ac_email a) (Some (ac_id a)))
           inst_answer)))"

section \<open>One agreement\<close>

definition mysign_detect_prefill :: "api_env \<Rightarrow> int \<Rightarrow> api_req \<Rightarrow> site \<Rightarrow> api_answer \<times> site" where
  "mysign_detect_prefill e aid q =
     with_acct e q (\<lambda>a. on_world (autodetect_prefill_owned (ap_engine e) (ap_extract e) aid (ac_id a))
       (\<lambda>r. case r of DtNotFound \<Rightarrow> AnMissing | DtRaise \<Rightarrow> AnRaise | _ \<Rightarrow> AnDetected r))"

definition mysign_get :: "api_env \<Rightarrow> int \<Rightarrow> api_req \<Rightarrow> site \<Rightarrow> api_answer \<times> site" where
  "mysign_get e aid q = with_owned e aid q (\<lambda>a v s. (AnAgreement v, s))"

definition page_info :: "engine \<Rightarrow> world \<Rightarrow> int \<Rightarrow> (real \<times> real) list option" where
  "page_info eng w aid =
     (case get_agreement w aid of
        None \<Rightarrow> Some [] | Some v \<Rightarrow> Option.bind (presented_bytes w (v_row v)) (en_page_dims eng))"

definition mysign_pages :: "api_env \<Rightarrow> int \<Rightarrow> api_req \<Rightarrow> site \<Rightarrow> api_answer \<times> site" where
  "mysign_pages e aid q =
     with_owned e aid q (\<lambda>a v s.
       (case page_info (ap_engine e) (st_world s) aid of None \<Rightarrow> (AnRaise, s) | Some ds \<Rightarrow> (AnPages ds, s)))"

definition mysign_page :: "api_env \<Rightarrow> int \<Rightarrow> int \<Rightarrow> api_req \<Rightarrow> site \<Rightarrow> api_answer \<times> site" where
  "mysign_page e aid n q =
     with_owned e aid q (\<lambda>a v s.
       (case page_render (ap_render e) (st_world s) aid n 144 of
          None \<Rightarrow> (AnMissing, s) | Some png \<Rightarrow> (if png = [] then AnMissing else AnImage png, s)))"

definition mysign_pdf :: "api_env \<Rightarrow> int \<Rightarrow> api_req \<Rightarrow> site \<Rightarrow> api_answer \<times> site" where
  "mysign_pdf e aid q =
     with_owned e aid q (\<lambda>a v s.
       (case presented_bytes_of (st_world s) aid of
          None \<Rightarrow> (AnMissing, s) | Some b \<Rightarrow> (if b = [] then AnMissing else AnPdf b, s)))"

definition set_signers_json :: "engine \<Rightarrow> int \<Rightarrow> json \<Rightarrow> world \<Rightarrow> signer list set_result \<times> world" where
  "set_signers_json eng aid j w =
     (if locked w aid then (SetLocked, w)
      else case dicts_of j of None \<Rightarrow> (SetRaise, w) | Some ds \<Rightarrow> set_signers eng aid ds w)"

definition mysign_signers :: "api_env \<Rightarrow> int \<Rightarrow> api_req \<Rightarrow> site \<Rightarrow> api_answer \<times> site" where
  "mysign_signers e aid q =
     with_owned e aid q (\<lambda>a v. with_body q (\<lambda>b.
       on_world (set_signers_json (ap_engine e) aid (jget_def b ''signers'' (JList [])))
         (\<lambda>r. case r of SetRaise \<Rightarrow> AnRaise | _ \<Rightarrow> AnSigners r)))"

definition mysign_order_mode :: "api_env \<Rightarrow> int \<Rightarrow> api_req \<Rightarrow> site \<Rightarrow> api_answer \<times> site" where
  "mysign_order_mode e aid q =
     with_owned e aid q (\<lambda>a v. with_body q (\<lambda>b.
       on_world (set_order_mode_owned aid (ac_id a) (str_or_empty (ap_engine e) (jget b ''mode''))) AnOrder))"

definition mysign_fields :: "api_env \<Rightarrow> int \<Rightarrow> api_req \<Rightarrow> site \<Rightarrow> api_answer \<times> site" where
  "mysign_fields e aid q =
     with_owned e aid q (\<lambda>a v. with_body q (\<lambda>b.
       on_world (place_fields (ap_engine e) (ap_extract e) aid (jget_def b ''fields'' (JList [])))
         (\<lambda>r. case r of PlRaise \<Rightarrow> AnRaise | _ \<Rightarrow> AnPlaced r)))"

section \<open>Pages and text of a draft\<close>

text \<open>\<open>_pages_status\<close>.\<close>

definition pages_status :: "page_result \<Rightarrow> int" where
  "pages_status r =
     (case r of PageOk _ _ _ \<Rightarrow> 200
      | PageErr Locked _ \<Rightarrow> 409
      | PageErr (EngineError m) _ \<Rightarrow> if startswith m ''locked'' then 409 else 400
      | _ \<Rightarrow> 400)"

definition page_answer :: "page_result \<Rightarrow> api_answer" where
  "page_answer r = (case r of PageRaise \<Rightarrow> AnRaise | _ \<Rightarrow> AnPageOp r (pages_status r))"

text \<open>What \<open>[int(i) for i in order]\<close> walks over; a value that cannot be walked fails like a bad item.\<close>

definition order_items :: "json \<Rightarrow> json list" where
  "order_items j =
     (case j of JList js \<Rightarrow> js | JStr t \<Rightarrow> map (\<lambda>c. JStr [c]) t | JObj d \<Rightarrow> map (JStr \<circ> fst) d | _ \<Rightarrow> [JNull])"

definition mysign_pages_reorder :: "api_env \<Rightarrow> int \<Rightarrow> api_req \<Rightarrow> site \<Rightarrow> api_answer \<times> site" where
  "mysign_pages_reorder e aid q =
     with_owned e aid q (\<lambda>a v. with_body q (\<lambda>b.
       on_world (esign_reorder_pages (ap_engine e) (rq_now q) aid (order_items (jget_def b ''order'' (JList [])))) page_answer))"

definition mysign_pages_rotate :: "api_env \<Rightarrow> int \<Rightarrow> api_req \<Rightarrow> site \<Rightarrow> api_answer \<times> site" where
  "mysign_pages_rotate e aid q =
     with_owned e aid q (\<lambda>a v. with_body q (\<lambda>b.
       or_raise (jint (jget_def b ''page'' (JInt (-1)))) (\<lambda>page. or_raise (jint (jget_def b ''deg'' (JInt 0))) (\<lambda>deg.
         on_world (rotate_page (ap_engine e) (rq_now q) aid (JInt page) (JInt deg)) page_answer))))"

definition mysign_pages_delete :: "api_env \<Rightarrow> int \<Rightarrow> api_req \<Rightarrow> site \<Rightarrow> api_answer \<times> site" where
  "mysign_pages_delete e aid q =
     with_owned e aid q (\<lambda>a v. with_body q (\<lambda>b.
       or_raise (jint (jget_def b ''page'' (JInt (-1)))) (\<lambda>page.
         on_world (delete_page (ap_engine e) (rq_now q) aid (JInt page)) page_answer)))"

definition mysign_pages_add :: "api_env \<Rightarrow> int \<Rightarrow> api_req \<Rightarrow> site \<Rightarrow> api_answer \<times> site" where
  "mysign_pages_add e aid q =
     with_owned e aid q (\<lambda>a v. with_upload e q (\<lambda>name raw.
       on_world (add_pages (ap_engine e) (rq_now q) aid raw) page_answer))"

definition mysign_redact :: "api_env \<Rightarrow> int \<Rightarrow> api_req \<Rightarrow> site \<Rightarrow> api_answer \<times> site" where
  "mysign_redact e aid q =
     with_owned e aid q (\<lambda>a v. with_body q (\<lambda>b.
       on_world (redact_regions (ap_engine e) (rq_now q) aid (jget_def b ''regions'' (JList []))) page_answer))"

definition mysign_add_text :: "api_env \<Rightarrow> int \<Rightarrow> api_req \<Rightarrow> site \<Rightarrow> api_answer \<times> site" where
  "mysign_add_text e aid q =
     with_owned e aid q (\<lambda>a v. with_body q (\<lambda>b.
       on_world (add_texts (ap_engine e) (rq_now q) aid (jget_def b ''items'' (JList []))) page_answer))"

definition mysign_edit_text :: "api_env \<Rightarrow> int \<Rightarrow> api_req \<Rightarrow> site \<Rightarrow> api_answer \<times> site" where
  "mysign_edit_text e aid q =
     with_owned e aid q (\<lambda>a v. with_body q (\<lambda>b.
       on_world (edit_texts (ap_engine e) (rq_now q) aid (jget_def b ''items'' (JList []))) page_answer))"

definition page_spans :: "(bytes \<Rightarrow> int \<Rightarrow> json list option) \<Rightarrow> world \<Rightarrow> int \<Rightarrow> int \<Rightarrow> json list option" where
  "page_spans text_spans w aid page =
     (case get_agreement w aid of
        None \<Rightarrow> Some [] | Some v \<Rightarrow> Option.bind (source_bytes w (v_row v)) (\<lambda>b. text_spans b page))"

definition mysign_spans :: "api_env \<Rightarrow> int \<Rightarrow> api_req \<Rightarrow> site \<Rightarrow> api_answer \<times> site" where
  "mysign_spans e aid q =
     with_owned e aid q (\<lambda>a v s.
       let page = (case jint (rq_page q) of Inl _ \<Rightarrow> 0 | Inr i \<Rightarrow> i) in
       (case page_spans (ap_spans e) (st_world s) aid page of None \<Rightarrow> (AnRaise, s) | Some js \<Rightarrow> (AnSpans js, s)))"

definition mysign_delete :: "api_env \<Rightarrow> int \<Rightarrow> api_req \<Rightarrow> site \<Rightarrow> api_answer \<times> site" where
  "mysign_delete e aid q =
     with_owned e aid q (\<lambda>a v. on_world (delete_draft_owned aid (ac_id a))
       (\<lambda>r. AnDeleted r (case r of OwnedOk \<Rightarrow> 200 | OwnedLocked \<Rightarrow> 409 | OwnedNotFound \<Rightarrow> 404)))"

section \<open>Dispatch, reminders, voiding\<close>

definition may_dispatch :: "account \<Rightarrow> portal \<Rightarrow> api_answer option" where
  "may_dispatch a p =
     (if \<not> can_send p (ac_id a) then Some AnInactive
      else if \<not> is_email_verified (Some a) then Some AnUnverified else None)"

text \<open>The message of the body is stored before the send is tried.\<close>

definition body_message :: "engine \<Rightarrow> int \<Rightarrow> dict \<Rightarrow> world \<Rightarrow> world option" where
  "body_message eng aid b w =
     (if jget b ''message'' = JNull then Some w
      else case db_text eng (json_or (jget b ''message'') (JStr [])) of
        Inl _ \<Rightarrow> None | Inr m \<Rightarrow> Some (update_message aid m w))"

definition mysign_send :: "api_env \<Rightarrow> int \<Rightarrow> api_req \<Rightarrow> site \<Rightarrow> api_answer \<times> site" where
  "mysign_send e aid q =
     with_owned e aid q (\<lambda>a v s.
       (case may_dispatch a (st_portal s) of
          Some refusal \<Rightarrow> (refusal, s)
        | None \<Rightarrow> with_body_or_empty q (\<lambda>b s.
            (case body_message (ap_engine e) aid b (st_world s) of
               None \<Rightarrow> (AnRaise, s)
             | Some w \<Rightarrow> on_world (send (ap_engine e) (rq_now q) (rq_tokens q) (en_public_base (ap_engine e)) aid)
                 AnDispatched (s\<lparr>st_world := w\<rparr>))) s))"

definition mysign_remind :: "api_env \<Rightarrow> int \<Rightarrow> api_req \<Rightarrow> site \<Rightarrow> api_answer \<times> site" where
  "mysign_remind e aid q =
     with_owned e aid q (\<lambda>a v s.
       (case may_dispatch a (st_portal s) of
          Some refusal \<Rightarrow> (refusal, s)
        | None \<Rightarrow> on_world (remind (ap_engine e) (rq_now q) (en_public_base (ap_engine e)) aid) AnReminded s))"

definition mysign_void :: "api_env \<Rightarrow> int \<Rightarrow> api_req \<Rightarrow> site \<Rightarrow> api_answer \<times> site" where
  "mysign_void e aid q =
     with_owned e aid q (\<lambda>a v. with_body_or_empty q (\<lambda>b.
       on_world (void (rq_now q) aid (str_or_empty (ap_engine e) (jget b ''reason''))) AnVoided))"

section \<open>Downloads\<close>

definition safe_base :: "string \<Rightarrow> int \<Rightarrow> string" where
  "safe_base name aid =
     nonblank (py_strip (filter (\<lambda>c. \<not> unsafe_char c) (strip_pdf name))) (''agreement-'' @ py_str aid)"

definition mysign_download :: "api_env \<Rightarrow> int \<Rightarrow> api_req \<Rightarrow> site \<Rightarrow> api_answer \<times> site" where
  "mysign_download e aid q =
     with_owned e aid q (\<lambda>a v s.
       (case executed_bytes (st_world s) aid of
          None \<Rightarrow> (AnMissing, s)
        | Some b \<Rightarrow>
            if b = [] then (AnMissing, s)
            else (AnFile b (take 90 (safe_base (a_name (v_row v)) aid @
                   (if a_status (v_row v) = Completed then ''-SIGNED'' else []) @ ''.pdf'')), s)))"

definition mysign_certificate :: "api_env \<Rightarrow> int \<Rightarrow> api_req \<Rightarrow> site \<Rightarrow> api_answer \<times> site" where
  "mysign_certificate e aid q =
     with_owned e aid q (\<lambda>a v s.
       (case certificate_bytes (ap_engine e) (st_world s) aid of
          None \<Rightarrow> (if a_status (v_row v) = Completed then AnRaise else AnMissing, s)
        | Some b \<Rightarrow>
            if b = [] then (AnMissing, s)
            else (AnFile b (take 90 (safe_base (a_name (v_row v)) aid @ ''-CERTIFICATE.pdf'')), s)))"

section \<open>Account, keys, billing\<close>

definition mysign_account :: "api_env \<Rightarrow> api_req \<Rightarrow> site \<Rightarrow> api_answer \<times> site" where
  "mysign_account e q =
     with_acct e q (\<lambda>a s. (AnAccount (public_view a) (count_agreements_for_owner (st_world s) (ac_id a)), s))"

definition mysign_api_keys_list :: "api_env \<Rightarrow> api_req \<Rightarrow> site \<Rightarrow> api_answer \<times> site" where
  "mysign_api_keys_list e q = with_cookie e q (\<lambda>a s. (AnKeys (list_keys (st_portal s) (ac_id a)), s))"

definition mysign_api_keys_create :: "api_env \<Rightarrow> api_req \<Rightarrow> site \<Rightarrow> api_answer \<times> site" where
  "mysign_api_keys_create e q =
     with_cookie e q (\<lambda>a. with_body_or_empty q (\<lambda>b.
       on_portal (issue_key (pe_auth (ap_portal e)) (rq_now q) (rq_salt q) (rq_rnd q) (ac_id a)
           (str_or_empty (ap_engine e) (jget b ''label''))
           (str_or_empty (ap_engine e) (json_or (jget b ''mode'') (JStr ''live''))))
         (\<lambda>(raw, k). AnKey raw k)))"

definition mysign_api_keys_revoke :: "api_env \<Rightarrow> int \<Rightarrow> api_req \<Rightarrow> site \<Rightarrow> api_answer \<times> site" where
  "mysign_api_keys_revoke e kid q = with_cookie e q (\<lambda>a. on_portal (revoke_key (rq_now q) kid (ac_id a)) AnRevoked)"

definition mysign_billing_activate :: "api_env \<Rightarrow> api_req \<Rightarrow> site \<Rightarrow> api_answer \<times> site" where
  "mysign_billing_activate e q =
     with_cookie e q (\<lambda>a. on_portal (activate_subscription (ac_id a))
       (\<lambda>r. AnBilling r (if r = ActOk then 200 else 402)))"

section \<open>The routes\<close>

datatype api_route =
    RPhoneStart | RPhoneConfirm | RDisableChallenge | RDisable | RList int int | RCreate
  | RTemplates int int | RTemplateGet int | RTemplateCreate | RTemplateArchive int | RTemplateUse int
  | RDetect int | RGet int | RPages int | RPage int int | RPdf int | RSigners int | ROrderMode int | RFields int
  | RReorder int | RRotate int | RDeletePage int | RAddPages int | RRedact int | RDeleteDraft int | RAddText int
  | RSpans int | REditText int | RSend int | RRemind int | RVoid int | RDownload int | RCertificate int
  | RAccount | RKeys | RKeyCreate | RKeyRevoke int | RBilling

fun serve :: "api_env \<Rightarrow> api_route \<Rightarrow> api_req \<Rightarrow> site \<Rightarrow> api_answer \<times> site" where
  "serve e RPhoneStart = mysign_2fa_phone_start e"
| "serve e RPhoneConfirm = mysign_2fa_phone_confirm e"
| "serve e RDisableChallenge = mysign_2fa_disable_challenge e"
| "serve e RDisable = mysign_2fa_disable e"
| "serve e (RList l o1) = mysign_list e l o1"
| "serve e RCreate = mysign_create e"
| "serve e (RTemplates l o1) = mysign_templates_list e l o1"
| "serve e (RTemplateGet t) = mysign_templates_get e t"
| "serve e RTemplateCreate = mysign_templates_create e"
| "serve e (RTemplateArchive t) = mysign_templates_archive e t"
| "serve e (RTemplateUse t) = mysign_templates_use e t"
| "serve e (RDetect i) = mysign_detect_prefill e i"
| "serve e (RGet i) = mysign_get e i"
| "serve e (RPages i) = mysign_pages e i"
| "serve e (RPage i n) = mysign_page e i n"
| "serve e (RPdf i) = mysign_pdf e i"
| "serve e (RSigners i) = mysign_signers e i"
| "serve e (ROrderMode i) = mysign_order_mode e i"
| "serve e (RFields i) = mysign_fields e i"
| "serve e (RReorder i) = mysign_pages_reorder e i"
| "serve e (RRotate i) = mysign_pages_rotate e i"
| "serve e (RDeletePage i) = mysign_pages_delete e i"
| "serve e (RAddPages i) = mysign_pages_add e i"
| "serve e (RRedact i) = mysign_redact e i"
| "serve e (RDeleteDraft i) = mysign_delete e i"
| "serve e (RAddText i) = mysign_add_text e i"
| "serve e (RSpans i) = mysign_spans e i"
| "serve e (REditText i) = mysign_edit_text e i"
| "serve e (RSend i) = mysign_send e i"
| "serve e (RRemind i) = mysign_remind e i"
| "serve e (RVoid i) = mysign_void e i"
| "serve e (RDownload i) = mysign_download e i"
| "serve e (RCertificate i) = mysign_certificate e i"
| "serve e RAccount = mysign_account e"
| "serve e RKeys = mysign_api_keys_list e"
| "serve e RKeyCreate = mysign_api_keys_create e"
| "serve e (RKeyRevoke k) = mysign_api_keys_revoke e k"
| "serve e RBilling = mysign_billing_activate e"

text \<open>The agreement a route names.\<close>

fun route_agreement :: "api_route \<Rightarrow> int option" where
  "route_agreement (RDetect i) = Some i"
| "route_agreement (RGet i) = Some i"
| "route_agreement (RPages i) = Some i"
| "route_agreement (RPage i n) = Some i"
| "route_agreement (RPdf i) = Some i"
| "route_agreement (RSigners i) = Some i"
| "route_agreement (ROrderMode i) = Some i"
| "route_agreement (RFields i) = Some i"
| "route_agreement (RReorder i) = Some i"
| "route_agreement (RRotate i) = Some i"
| "route_agreement (RDeletePage i) = Some i"
| "route_agreement (RAddPages i) = Some i"
| "route_agreement (RRedact i) = Some i"
| "route_agreement (RDeleteDraft i) = Some i"
| "route_agreement (RAddText i) = Some i"
| "route_agreement (RSpans i) = Some i"
| "route_agreement (REditText i) = Some i"
| "route_agreement (RSend i) = Some i"
| "route_agreement (RRemind i) = Some i"
| "route_agreement (RVoid i) = Some i"
| "route_agreement (RDownload i) = Some i"
| "route_agreement (RCertificate i) = Some i"
| "route_agreement _ = None"

section \<open>The typed site\<close>

definition keys_ok :: "portal \<Rightarrow> bool" where
  "keys_ok p = (distinct (map k_id (p_keys p)) \<and> (\<forall>k \<in> set (p_keys p). k_id k < p_next_key p))"

definition site_ok :: "site \<Rightarrow> bool" where
  "site_ok s = (schema_ok (st_world s) \<and> accounts_ok (st_portal s) \<and> keys_ok (st_portal s))"

definition account_view :: "int \<Rightarrow> portal \<Rightarrow> account list \<times> api_key list" where
  "account_view b p = (filter (\<lambda>a. ac_id a = b) (p_accounts p), filter (\<lambda>k. k_account k = b) (p_keys p))"

text \<open>What account \<open>b\<close> has: its row and keys, and its documents.\<close>

definition same_for :: "int \<Rightarrow> site \<Rightarrow> site \<Rightarrow> bool" where
  "same_for b s s' =
     (tenant_view b (st_world s') = tenant_view b (st_world s) \<and> account_view b (st_portal s') = account_view b (st_portal s))"

text \<open>The outcome of a request kept the types and everything of \<open>b\<close>.\<close>

definition kept :: "int \<Rightarrow> site \<Rightarrow> 'r \<times> site \<Rightarrow> bool" where
  "kept b s r = (site_ok (snd r) \<and> same_for b s (snd r))"

lemma kept_same: "site_ok s \<Longrightarrow> kept b s (x, s)"
  by (simp add: kept_def same_for_def)

lemma kept_world:
  assumes "site_ok s" and "tenant_step a (st_world s) (snd (f (st_world s)))" and "a \<noteq> b"
  shows "kept b s (on_world f k s)"
  using assms by (auto simp: kept_def same_for_def site_ok_def tenant_step_def on_world_def split: prod.split)

definition portal_step :: "int \<Rightarrow> portal \<Rightarrow> portal \<Rightarrow> bool" where
  "portal_step b p p' = ((accounts_ok p \<longrightarrow> accounts_ok p') \<and> (keys_ok p \<longrightarrow> keys_ok p') \<and> account_view b p' = account_view b p)"

lemma portal_step_trans: "portal_step b p p1 \<Longrightarrow> portal_step b p1 p2 \<Longrightarrow> portal_step b p p2"
  by (simp add: portal_step_def)

lemma kept_portal: "site_ok s \<Longrightarrow> portal_step b (st_portal s) p \<Longrightarrow> kept b s (x, s\<lparr>st_portal := p\<rparr>)"
  by (simp add: kept_def same_for_def site_ok_def portal_step_def)

lemma kept_on_portal: "site_ok s \<Longrightarrow> portal_step b (st_portal s) (snd (f (st_portal s))) \<Longrightarrow> kept b s (on_portal f k s)"
  by (cases "f (st_portal s)") (simp add: on_portal_def kept_portal)

lemma kept_trans: "site_ok s1 \<Longrightarrow> same_for b s s1 \<Longrightarrow> kept b s1 r \<Longrightarrow> kept b s r"
  by (simp add: kept_def same_for_def)

subsection \<open>Steps of the account store\<close>

lemma portal_step_auth: "portal_step b p (p\<lparr>p_auth := d\<rparr>)"
  by (simp add: portal_step_def accounts_ok_def keys_ok_def account_view_def)

lemma portal_step_on_auth: "portal_step b p (snd (on_auth f p))"
  by (simp add: on_auth_def portal_step_auth split: prod.split)

lemma portal_step_update:
  assumes "i \<noteq> b" and "\<And>a. ac_id (g a) = ac_id a" and "\<And>a. ac_email (g a) = ac_email a"
  shows "portal_step b p (update_acct i g p)"
proof -
  have "map ac_id (upd_where P g xs) = map ac_id xs" "map (\<lambda>a. sql_lower (ac_email a)) (upd_where P g xs) = map (\<lambda>a. sql_lower (ac_email a)) xs"
    for P xs by (rule map_upd_key, simp add: assms)+
  moreover have "filter (\<lambda>a. ac_id a = b) (upd_where (\<lambda>a. ac_id a = i) g xs) = filter (\<lambda>a. ac_id a = b) xs" for xs
    using assms by (induction xs) (auto simp: upd_where_def)
  ultimately show ?thesis
    by (auto simp: portal_step_def update_acct_def upd_acct_def accounts_ok_def keys_ok_def account_view_def set_upd_where assms)
qed

lemma portal_step_keys:
  assumes "\<And>k. P k \<Longrightarrow> k \<in> set (p_keys p) \<Longrightarrow> k_account k \<noteq> b" and "\<And>k. k_id (g k) = k_id k" and "\<And>k. k_account (g k) = k_account k"
  shows "portal_step b p (p\<lparr>p_keys := upd_where P g (p_keys p)\<rparr>)"
proof -
  have "map k_id (upd_where P g xs) = map k_id xs" for xs by (rule map_upd_key) (rule assms)
  moreover have "filter (\<lambda>k. k_account k = b) (upd_where P g xs) = filter (\<lambda>k. k_account k = b) xs"
    if "set xs \<subseteq> set (p_keys p)" for xs
    using that assms by (induction xs) (auto simp: upd_where_def)
  ultimately show ?thesis
    by (auto simp: portal_step_def accounts_ok_def keys_ok_def account_view_def set_upd_where assms)
qed

lemma first_verifying_mem: "first_verifying env bearer ks = Inr (Some k) \<Longrightarrow> k \<in> set ks"
  by (induction ks) (auto simp: try_bind_eq_Inr split: if_splits)

lemma portal_step_resolve:
  assumes "keys_ok p" and "resolve_key env now bearer p = (r, p')" and "\<And>a. r = Inr (Some a) \<Longrightarrow> ac_id a \<noteq> b"
  shows "portal_step b p p'"
proof (cases "\<exists>a. r = Inr (Some a)")
  case False
  then have "p' = p"
    using assms(2) by (auto simp: resolve_key_def split: if_splits sum.splits option.splits)
  then show ?thesis by (simp add: portal_step_def)
next
  case True
  then obtain k a where k: "first_verifying env bearer (live_keys p (take KEY_PREFIX_LEN bearer)) = Inr (Some k)"
      "account_by_id p (k_account k) = Some a" "r = Inr (Some a)" "p' = upd_key (k_id k) (\<lambda>k. k\<lparr>k_used := Some now\<rparr>) p"
    using assms(2) by (auto simp: resolve_key_def split: if_splits sum.splits option.splits)
  have m: "k \<in> set (p_keys p)" using first_verifying_mem [OF k(1)] by (simp add: live_keys_def)
  have "k_account k \<noteq> b" using k(2,3) assms(3) by (auto simp: account_by_id_def dest: acct_row_id split: if_splits)
  moreover have "j = k" if "k_id j = k_id k" "j \<in> set (p_keys p)" for j
    using that m assms(1) by (auto simp: keys_ok_def distinct_map dest: inj_onD)
  ultimately show ?thesis unfolding k(4) upd_key_def by (intro portal_step_keys) auto
qed

text \<open>The account the request acts for.\<close>

definition acting :: "api_env \<Rightarrow> api_req \<Rightarrow> site \<Rightarrow> int option" where
  "acting e q s =
     (case fst (require_sign_acct (ap_http e) (pe_auth (ap_portal e)) (rq_now q) (rq_http q) (st_portal s)) of
        GateOk a \<Rightarrow> Some (ac_id a) | _ \<Rightarrow> None)"

lemma portal_step_gate:
  assumes "keys_ok p" and "require_sign_acct hc env now q p = (g, p')" and "\<And>a. g = GateOk a \<Longrightarrow> ac_id a \<noteq> b"
  shows "portal_step b p p'"
proof -
  have "portal_step b p p" by (simp add: portal_step_def)
  moreover have "portal_step b p p1" if "resolve_key env now key p = (r, p1)" "\<And>a. r = Inr (Some a) \<Longrightarrow> ac_id a \<noteq> b" for key r p1
    using portal_step_resolve [OF assms(1) that] .
  ultimately show ?thesis using assms(2,3)
    by (fastforce simp: require_sign_acct_def split: sum.splits option.splits prod.splits)
qed

subsection \<open>The shapes of a route\<close>

lemma kept_acct:
  assumes s: "site_ok s" and b: "acting e q s \<noteq> Some b"
    and k: "\<And>a s1. site_ok s1 \<Longrightarrow> ac_id a \<noteq> b \<Longrightarrow> kept b s1 (k a s1)"
  shows "kept b s (with_acct e q k s)"
proof -
  obtain g p where g: "require_sign_acct (ap_http e) (pe_auth (ap_portal e)) (rq_now q) (rq_http q) (st_portal s) = (g, p)" by fastforce
  have n: "g = GateOk a \<Longrightarrow> ac_id a \<noteq> b" for a using b g by (auto simp: acting_def)
  have p: "kept b s (x, s\<lparr>st_portal := p\<rparr>)" for x :: api_answer
    using s by (intro kept_portal portal_step_gate [OF _ g n]) (simp_all add: site_ok_def)
  show ?thesis
  proof (cases g)
    case (GateOk a)
    have f: "site_ok (s\<lparr>st_portal := p\<rparr>)" "same_for b s (s\<lparr>st_portal := p\<rparr>)" using p [of AnRaise] by (simp_all add: kept_def)
    have "kept b s (k a (s\<lparr>st_portal := p\<rparr>))" by (rule kept_trans [OF f k [OF f(1) n [OF GateOk]]])
    then show ?thesis using g GateOk by (simp add: with_acct_def)
  qed (use p g in \<open>simp_all add: with_acct_def\<close>)
qed

lemma kept_cookie:
  assumes s: "site_ok s" and b: "acting e q s \<noteq> Some b" and k: "\<And>a. ac_id a \<noteq> b \<Longrightarrow> kept b s (k a s)"
  shows "kept b s (with_cookie e q k s)"
proof -
  have "ac_id a \<noteq> b" if "require_sign_cookie (ap_http e) (pe_auth (ap_portal e)) (rq_now q) (rq_http q) (st_portal s) = GateOk a" for a
    using b that by (auto simp: acting_def require_sign_cookie_def require_sign_acct_def split: sum.splits option.splits)
  then show ?thesis using k by (auto simp: with_cookie_def kept_same s split: gate.split)
qed

lemma kept_owned:
  assumes s: "site_ok s" and b: "acting e q s \<noteq> Some b"
    and k: "\<And>a v s1. site_ok s1 \<Longrightarrow> ac_id a \<noteq> b \<Longrightarrow> agr_row (st_world s1) aid = Some (v_row v) \<Longrightarrow>
      a_owner (v_row v) = Some (ac_id a) \<Longrightarrow> kept b s1 (k a v s1)"
  shows "kept b s (with_owned e aid q k s)"
  unfolding with_owned_def
proof (rule kept_acct [OF s b])
  fix a :: account and s1 assume a: "site_ok s1" "ac_id a \<noteq> b"
  have "agr_row (st_world s1) aid = Some (v_row v) \<and> a_owner (v_row v) = Some (ac_id a)"
    if "require_owned aid a (st_world s1) = Some v" for v
    using that view_row [of "st_world s1" aid v] by (auto simp: require_owned_def get_agreement_owned_def split: if_splits option.splits)
  then show "kept b s1 (case require_owned aid a (st_world s1) of None \<Rightarrow> (AnMissing, s1) | Some v \<Rightarrow> k a v s1)"
    using k [OF a] by (simp add: kept_same a(1) split: option.split)
qed

lemma kept_shapes:
  assumes "site_ok s"
  shows "(\<And>d. kept b s (kb d s)) \<Longrightarrow> kept b s (with_body q kb s)"
    "(\<And>d. kept b s (kb d s)) \<Longrightarrow> kept b s (with_body_or_empty q kb s)"
    "(\<And>x. kept b s (kx x s)) \<Longrightarrow> kept b s (or_raise r kx s)"
    "(\<And>n raw. kept b s (ku n raw s)) \<Longrightarrow> kept b s (with_upload e q ku s)"
  using assms
  by (simp_all add: with_body_def with_body_or_empty_def or_raise_def with_upload_def kept_same
      split: option.split json.split sum.split upload.split)

subsection \<open>Every route\<close>

lemma kept_mine:
  assumes "site_ok s" and "ac_id a \<noteq> b" and "agr_row (st_world s) aid = Some r" and "a_owner r = Some (ac_id a)"
    and "mine aid (Some (ac_id a)) (others aid (st_world s)) (st_world s) \<Longrightarrow>
      mine aid (Some (ac_id a)) (others aid (st_world s)) (snd (f (st_world s)))"
  shows "kept b s (on_world f k s)"
proof (rule kept_world [OF assms(1) _ assms(2)])
  have w: "schema_ok (st_world s)" using assms(1) by (simp add: site_ok_def)
  show "tenant_step (ac_id a) (st_world s) (snd (f (st_world s)))"
    by (rule tstep_mine [OF w assms(3,4) assms(5) [OF mine_start [OF w assms(3,4)]]])
qed

lemma mine_set_signers_json: "mine aid ow W w \<Longrightarrow> mine aid ow W (snd (set_signers_json eng aid j w))"
  by (simp add: set_signers_json_def mine_set_signers split: option.split)

lemma kept_reads:
  assumes "site_ok s" and "acting e q s \<noteq> Some b"
  shows "kept b s (mysign_list e l o1 q s)" "kept b s (mysign_templates_list e l o1 q s)"
    "kept b s (mysign_templates_get e t q s)" "kept b s (mysign_get e i q s)" "kept b s (mysign_pages e i q s)"
    "kept b s (mysign_page e i n q s)" "kept b s (mysign_pdf e i q s)" "kept b s (mysign_spans e i q s)"
    "kept b s (mysign_download e i q s)" "kept b s (mysign_certificate e i q s)" "kept b s (mysign_account e q s)"
    "kept b s (mysign_api_keys_list e q s)"
  unfolding mysign_list_def mysign_templates_list_def mysign_templates_get_def mysign_get_def mysign_pages_def
    mysign_page_def mysign_pdf_def mysign_spans_def mysign_download_def mysign_certificate_def mysign_account_def
    mysign_api_keys_list_def Let_def
  by (intro kept_acct kept_owned kept_cookie assms; simp add: kept_same assms(1) split: option.split)+

lemma kept_edits:
  assumes "site_ok s" and "acting e q s \<noteq> Some b"
  shows "kept b s (mysign_signers e i q s)" "kept b s (mysign_order_mode e i q s)" "kept b s (mysign_fields e i q s)"
    "kept b s (mysign_pages_reorder e i q s)" "kept b s (mysign_pages_rotate e i q s)"
    "kept b s (mysign_pages_delete e i q s)" "kept b s (mysign_pages_add e i q s)" "kept b s (mysign_redact e i q s)"
    "kept b s (mysign_add_text e i q s)" "kept b s (mysign_edit_text e i q s)" "kept b s (mysign_void e i q s)"
  unfolding mysign_signers_def mysign_order_mode_def mysign_fields_def mysign_pages_reorder_def mysign_pages_rotate_def
    mysign_pages_delete_def mysign_pages_add_def mysign_redact_def mysign_add_text_def mysign_edit_text_def mysign_void_def
  by (rule kept_owned [OF assms], (rule kept_shapes, assumption)+, erule (3) kept_mine,
      simp add: mine_set_signers_json mine_order_mode mine_place_fields mine_page_ops mine_void)+

lemma kept_dispatch:
  assumes "site_ok s" and "acting e q s \<noteq> Some b"
  shows "kept b s (mysign_send e i q s)" "kept b s (mysign_remind e i q s)"
proof -
  show "kept b s (mysign_remind e i q s)"
    unfolding mysign_remind_def
  proof (rule kept_owned [OF assms])
    fix a :: account and v :: agr_view and s1
    assume h: "site_ok s1" "ac_id a \<noteq> b" "agr_row (st_world s1) i = Some (v_row v)" "a_owner (v_row v) = Some (ac_id a)"
    show "kept b s1 (case may_dispatch a (st_portal s1) of Some refusal \<Rightarrow> (refusal, s1)
        | None \<Rightarrow> on_world (remind (ap_engine e) (rq_now q) (en_public_base (ap_engine e)) i) AnReminded s1)"
      using kept_mine [OF h, of "remind (ap_engine e) (rq_now q) (en_public_base (ap_engine e)) i"]
      by (simp add: mine_remind kept_same h(1) split: option.split)
  qed
  show "kept b s (mysign_send e i q s)"
    unfolding mysign_send_def
  proof (rule kept_owned [OF assms])
    fix a :: account and v :: agr_view and s1
    assume h: "site_ok s1" "ac_id a \<noteq> b" "agr_row (st_world s1) i = Some (v_row v)" "a_owner (v_row v) = Some (ac_id a)"
    let ?f = "\<lambda>m w. send (ap_engine e) (rq_now q) (rq_tokens q) (en_public_base (ap_engine e)) i (m w)"
    have m: "kept b s1 (on_world (?f (update_message i x)) AnDispatched s1)" "kept b s1 (on_world (?f (\<lambda>w. w)) AnDispatched s1)" for x
      by (rule kept_mine [OF h], simp add: mine_send mine_update_message)+
    have o: "on_world (send (ap_engine e) (rq_now q) (rq_tokens q) (en_public_base (ap_engine e)) i) AnDispatched (s1\<lparr>st_world := g (st_world s1)\<rparr>)
        = on_world (?f g) AnDispatched s1" for g
      by (simp add: on_world_def)
    have d: "kept b s1 (case body_message (ap_engine e) i d (st_world s1) of None \<Rightarrow> (AnRaise, s1)
        | Some w \<Rightarrow> on_world (send (ap_engine e) (rq_now q) (rq_tokens q) (en_public_base (ap_engine e)) i) AnDispatched (s1\<lparr>st_world := w\<rparr>))" for d
      using m o [of "\<lambda>w. w"] o [of "update_message i x" for x]
      by (auto simp: body_message_def kept_same h(1) split: sum.split)
    show "kept b s1 (case may_dispatch a (st_portal s1) of Some refusal \<Rightarrow> (refusal, s1)
        | None \<Rightarrow> with_body_or_empty q (\<lambda>d s. (case body_message (ap_engine e) i d (st_world s) of None \<Rightarrow> (AnRaise, s)
            | Some w \<Rightarrow> on_world (send (ap_engine e) (rq_now q) (rq_tokens q) (en_public_base (ap_engine e)) i) AnDispatched (s\<lparr>st_world := w\<rparr>))) s1)"
    proof (cases "may_dispatch a (st_portal s1)")
      case None
      show ?thesis unfolding None option.case by (rule kept_shapes(2) [OF h(1)]) (rule d)
    qed (simp add: kept_same h(1))
  qed
qed

lemma kept_tstep:
  assumes "site_ok s" and "ac_id a \<noteq> b" and "schema_ok (st_world s) \<Longrightarrow> tenant_step (ac_id a) (st_world s) (snd (f (st_world s)))"
  shows "kept b s (on_world f k s)"
  using kept_world [of s "ac_id a" f b k] assms by (simp add: site_ok_def)

lemma tstep_create': "schema_ok w \<Longrightarrow> tenant_step a w (snd (create_agreement eng now env name pdf msg cb sd (Some a) w))"
  using tstep_create [of w eng now env name pdf msg cb sd a] by (metis prod.collapse)

lemma tstep_unreadable: "schema_ok w \<Longrightarrow> tenant_step a w (snd (use_unreadable eng now env tid name cb (Some a) w))"
  by (simp add: use_unreadable_def Let_def tstep_refl tstep_create' split: option.split)

lemma tstep_autodetect: "schema_ok w \<Longrightarrow> tenant_step a w (snd (autodetect_prefill_owned eng ext aid a w))"
proof (cases "get_agreement_owned w aid a")
  case None
  then show "schema_ok w \<Longrightarrow> ?thesis" by (simp add: autodetect_prefill_owned_def tstep_refl)
next
  case (Some v)
  assume s: "schema_ok w"
  have r: "agr_row w aid = Some (v_row v)" "a_owner (v_row v) = Some a"
    using Some view_row [of w aid v] by (auto simp: get_agreement_owned_def split: if_splits option.splits)
  show ?thesis by (rule tstep_mine [OF s r mine_autodetect [OF mine_start [OF s r]]])
qed

lemma kept_documents:
  assumes "site_ok s" and "acting e q s \<noteq> Some b"
  shows "kept b s (mysign_create e q s)" "kept b s (mysign_templates_create e q s)" "kept b s (mysign_templates_archive e t q s)"
    "kept b s (mysign_templates_use e t q s)" "kept b s (mysign_detect_prefill e i q s)" "kept b s (mysign_delete e i q s)"
proof -
  show "kept b s (mysign_create e q s)"
    unfolding mysign_create_def
    by (rule kept_acct [OF assms], rule kept_shapes, assumption, erule (1) kept_tstep, rule tstep_create')
  show "kept b s (mysign_templates_create e q s)"
    unfolding mysign_templates_create_def
    by (rule kept_acct [OF assms], (rule kept_shapes, assumption)+, erule (1) kept_tstep, rule tstep_create_template)
  show "kept b s (mysign_templates_archive e t q s)"
    unfolding mysign_templates_archive_def by (rule kept_acct [OF assms], erule (1) kept_tstep, rule tstep_archive)
  show "kept b s (mysign_templates_use e t q s)"
    unfolding mysign_templates_use_def Let_def
    by (rule kept_acct [OF assms], (rule kept_shapes, assumption)+, erule (1) kept_tstep)
      (simp add: tstep_unreadable tstep_instantiate split: option.split)
  show "kept b s (mysign_detect_prefill e i q s)"
    unfolding mysign_detect_prefill_def by (rule kept_acct [OF assms], erule (1) kept_tstep, rule tstep_autodetect)
  show "kept b s (mysign_delete e i q s)"
    unfolding mysign_delete_def by (rule kept_owned [OF assms], erule (1) kept_tstep, rule tstep_delete_draft)
qed

lemma kept_security:
  assumes "site_ok s" and "acting e q s \<noteq> Some b"
  shows "kept b s (mysign_2fa_phone_start e q s)" "kept b s (mysign_2fa_phone_confirm e q s)"
    "kept b s (mysign_2fa_disable_challenge e q s)" "kept b s (mysign_2fa_disable e q s)"
    "kept b s (mysign_api_keys_create e q s)" "kept b s (mysign_api_keys_revoke e k q s)" "kept b s (mysign_billing_activate e q s)"
proof -
  note s = assms(1)
  show "kept b s (mysign_2fa_phone_start e q s)"
    unfolding mysign_2fa_phone_start_def
  proof (rule kept_cookie [OF assms], (rule kept_shapes [OF s])+)
    fix a :: account and d phone
    show "kept b s (if \<not> valid_phone phone then (AnBad ''invalid_phone'', s)
       else (case on_auth (auth_rate_allowed (rq_now q) (''signacct:phoneenroll:'' @ py_str (ac_id a)) 5 900) (st_portal s) of
           (False, p) \<Rightarrow> (AnLimited, s\<lparr>st_portal := p\<rparr>)
         | (True, p) \<Rightarrow> (AnSent (send_phone_code (ap_portal e) phone), s\<lparr>st_portal := p\<rparr>)))"
      using portal_step_on_auth [of b "st_portal s" "auth_rate_allowed (rq_now q) (''signacct:phoneenroll:'' @ py_str (ac_id a)) 5 900"]
      by (auto simp: kept_same s intro: kept_portal split: prod.split bool.split)
  qed
  have upd: "ac_id a \<noteq> b \<Longrightarrow> portal_step b p (set_phone_2fa (ac_id a) ph True p)"
    "ac_id a \<noteq> b \<Longrightarrow> portal_step b p (disable_sms_2fa (ac_id a) p)" for a :: account and p ph
    unfolding set_phone_2fa_def disable_sms_2fa_def by (intro portal_step_update; simp)+
  show "kept b s (mysign_2fa_phone_confirm e q s)"
    unfolding mysign_2fa_phone_confirm_def Let_def
    by (rule kept_cookie [OF assms], (rule kept_shapes [OF s])+) (simp add: kept_same kept_portal upd s)
  show "kept b s (mysign_2fa_disable_challenge e q s)"
    unfolding mysign_2fa_disable_challenge_def
    by (rule kept_cookie [OF assms])
      (auto simp: kept_same s send_login_sms_def portal_step_def [of b "st_portal s" "st_portal s"] dest!: on_auth_pair
        intro!: kept_on_portal portal_step_auth split: prod.split bool.split)
  show "kept b s (mysign_2fa_disable e q s)"
    unfolding mysign_2fa_disable_def
  proof (rule kept_cookie [OF assms])
    fix a :: account assume a: "ac_id a \<noteq> b"
    have v: "portal_step b (st_portal s) (snd (verify_login_sms (ap_portal e) (rq_now q) (ac_id a) code (st_portal s)))" for code
      by (simp add: verify_login_sms_def Let_def portal_step_auth) (simp add: portal_step_def)
    have k: "kept b s (case verify_login_sms (ap_portal e) (rq_now q) (ac_id a) code (st_portal s) of
        (False, p) \<Rightarrow> (AnBad ''invalid_code'', s\<lparr>st_portal := p\<rparr>)
      | (True, p) \<Rightarrow> let p1 = disable_sms_2fa (ac_id a) p in (view_after a p1, s\<lparr>st_portal := p1\<rparr>))" for code
      using v [of code] portal_step_trans [OF _ upd(2) [OF a]]
      by (auto simp: Let_def s intro!: kept_portal split: prod.split bool.split)
    show "kept b s (if \<not> ac_sms_2fa a then (view_after a (st_portal s), s)
       else with_body q (\<lambda>b. or_raise (strip_text (jget b ''code'')) (\<lambda>code s.
         (case verify_login_sms (ap_portal e) (rq_now q) (ac_id a) code (st_portal s) of
            (False, p) \<Rightarrow> (AnBad ''invalid_code'', s\<lparr>st_portal := p\<rparr>)
          | (True, p) \<Rightarrow>
              let p1 = disable_sms_2fa (ac_id a) p in (view_after a p1, s\<lparr>st_portal := p1\<rparr>)))) s)"
      by (simp add: kept_same s kept_shapes k)
  qed
  show "kept b s (mysign_api_keys_create e q s)"
    unfolding mysign_api_keys_create_def
    by (rule kept_cookie [OF assms], rule kept_shapes [OF s], rule kept_on_portal [OF s])
      (force simp: portal_step_def issue_key_def Let_def accounts_ok_def keys_ok_def account_view_def)
  show "kept b s (mysign_api_keys_revoke e k q s)"
    unfolding mysign_api_keys_revoke_def
    by (rule kept_cookie [OF assms], rule kept_on_portal [OF s]) (simp add: revoke_key_def Let_def, rule portal_step_keys, auto)
  show "kept b s (mysign_billing_activate e q s)"
    unfolding mysign_billing_activate_def
    by (rule kept_cookie [OF assms], rule kept_on_portal [OF s])
      (auto simp: activate_subscription_def portal_step_def [of b p p for p] intro!: portal_step_update split: option.split)
qed

lemma kept_serve: "site_ok s \<Longrightarrow> acting e q s \<noteq> Some b \<Longrightarrow> kept b s (serve e rt q s)"
  by (cases rt) (simp_all add: kept_reads kept_edits kept_dispatch kept_documents kept_security)

section \<open>Every route is a run of engine requests\<close>

definition engine_run :: "engine \<Rightarrow> world \<Rightarrow> world \<Rightarrow> bool" where
  "engine_run eng w w' = (\<exists>qs. w' = fold (perform eng) qs w)"

lemma run_none: "engine_run eng w w"
  unfolding engine_run_def by (rule exI [of _ "[]"]) simp

lemma run_one: "engine_run eng w (perform eng r w)"
  unfolding engine_run_def by (rule exI [of _ "[r]"]) simp

lemma run_two: "engine_run eng w (perform eng r2 (perform eng r1 w))"
  unfolding engine_run_def by (rule exI [of _ "[r1, r2]"]) simp

lemma run_requests:
  "engine_run eng w (snd (create_agreement eng now env nm pdf msg cb sd ow w))"
  "engine_run eng w (snd (delete_page eng now aid pg w))" "engine_run eng w (snd (esign_reorder_pages eng now aid ord w))"
  "engine_run eng w (snd (rotate_page eng now aid pg deg w))" "engine_run eng w (snd (add_pages eng now aid extra w))"
  "engine_run eng w (snd (redact_regions eng now aid rs w))" "engine_run eng w (snd (add_texts eng now aid is w))"
  "engine_run eng w (snd (edit_texts eng now aid is w))" "engine_run eng w (snd (set_signers eng aid ds w))"
  "engine_run eng w (snd (set_fields eng aid ds w))" "engine_run eng w (snd (set_order_mode_owned aid owner m w))"
  "engine_run eng w (snd (delete_draft_owned aid owner w))" "engine_run eng w (snd (send eng now tok base aid w))"
  "engine_run eng w (snd (send eng now tok base aid (update_message aid m w)))"
  "engine_run eng w (snd (remind eng now base aid w))" "engine_run eng w (snd (void now aid reason w))"
  "engine_run eng w (snd (create_template eng now nm src layout cb ow w))" "engine_run eng w (snd (archive_template_owned now tid owner w))"
  "engine_run eng w (snd (instantiate_template eng now env tid recs nm cb ow ans w))"
  using run_one [of eng w "ReqCreate now env nm pdf msg cb sd ow"] run_one [of eng w "ReqDeletePage now aid pg"]
    run_one [of eng w "ReqReorder now aid ord"] run_one [of eng w "ReqRotate now aid pg deg"]
    run_one [of eng w "ReqAddPages now aid extra"] run_one [of eng w "ReqRedact now aid rs"]
    run_one [of eng w "ReqAddTexts now aid is"] run_one [of eng w "ReqEditTexts now aid is"] run_one [of eng w "ReqSigners aid ds"]
    run_one [of eng w "ReqFields aid ds"] run_one [of eng w "ReqOrderMode aid owner m"] run_one [of eng w "ReqDeleteDraft aid owner"]
    run_one [of eng w "ReqSend now tok base aid"] run_two [of eng w "ReqSend now tok base aid" "ReqMessage aid m"]
    run_one [of eng w "ReqRemind now base aid"] run_one [of eng w "ReqVoid now aid reason"]
    run_one [of eng w "ReqTemplate now nm src layout cb ow"] run_one [of eng w "ReqArchiveOwned now tid owner"]
    run_one [of eng w "ReqInstantiate now env tid recs nm cb ow ans"]
  by simp_all

lemma run_stored: "set_fields eng aid ds w = (r, w1) \<Longrightarrow> engine_run eng w w1"
  using run_requests(10) [of eng w aid ds] by simp

lemma run_composed:
  "engine_run eng w (snd (place_fields eng ext aid specs w))"
  "engine_run eng w (snd (autodetect_prefill_owned eng ext aid owner w))"
  "engine_run eng w (snd (set_signers_json eng aid j w))"
  "engine_run eng w (snd (use_unreadable eng now env tid name cb ow w))"
proof -
  show "engine_run eng w (snd (place_fields eng ext aid specs w))"
    by (auto simp: place_fields_def Let_def run_none intro: run_stored
        split: option.split json.split list.split sum.split place_fail.split prod.split set_result.split)
  show "engine_run eng w (snd (autodetect_prefill_owned eng ext aid owner w))"
    by (auto simp: autodetect_prefill_owned_def Let_def run_none intro: run_stored
        split: option.split prod.split set_result.split)
  show "engine_run eng w (snd (set_signers_json eng aid j w))"
    by (simp add: set_signers_json_def run_none run_requests split: option.split)
  show "engine_run eng w (snd (use_unreadable eng now env tid name cb ow w))"
    by (simp add: use_unreadable_def Let_def run_none run_requests split: option.split)
qed

text \<open>The shapes of a route, for the world it leaves.\<close>

definition runs :: "engine \<Rightarrow> site \<Rightarrow> 'r \<times> site \<Rightarrow> bool" where
  "runs eng s r = engine_run eng (st_world s) (st_world (snd r))"

lemma runs_world: "engine_run eng (st_world s) (snd (f (st_world s))) \<Longrightarrow> runs eng s (on_world f k s)"
  by (cases "f (st_world s)") (simp add: runs_def on_world_def)

lemma runs_same: "runs eng s (x, s)" "runs eng s (x, s\<lparr>st_portal := p\<rparr>)" "runs eng s (on_portal g k s)"
  by (simp_all add: runs_def run_none on_portal_def split: prod.split)

lemma runs_shapes:
  "(\<And>a s1. runs eng s1 (ka a s1)) \<Longrightarrow> runs eng s (with_acct e q ka s)"
  "(\<And>a. runs eng s (ka a s)) \<Longrightarrow> runs eng s (with_cookie e q ka s)"
  "(\<And>d. runs eng s (kb d s)) \<Longrightarrow> runs eng s (with_body q kb s)"
  "(\<And>d. runs eng s (kb d s)) \<Longrightarrow> runs eng s (with_body_or_empty q kb s)"
  "(\<And>x. runs eng s (kx x s)) \<Longrightarrow> runs eng s (or_raise r kx s)"
  "(\<And>n raw. runs eng s (ku n raw s)) \<Longrightarrow> runs eng s (with_upload e q ku s)"
proof -
  assume k: "\<And>a s1. runs eng s1 (ka a s1)"
  have "runs eng s (ka a (s\<lparr>st_portal := p\<rparr>))" for a p using k [of "s\<lparr>st_portal := p\<rparr>" a] by (simp add: runs_def)
  then show "runs eng s (with_acct e q ka s)" by (simp add: with_acct_def runs_same split: prod.split gate.split)
qed (simp_all add: with_cookie_def with_body_def with_body_or_empty_def or_raise_def with_upload_def runs_same
    split: gate.split option.split json.split sum.split upload.split)

lemma runs_owned: "(\<And>a v s1. runs eng s1 (kv a v s1)) \<Longrightarrow> runs eng s (with_owned e aid q kv s)"
  unfolding with_owned_def by (rule runs_shapes) (simp add: runs_same split: option.split)

lemmas route_defs = mysign_list_def mysign_templates_list_def mysign_templates_get_def mysign_get_def mysign_pages_def
  mysign_page_def mysign_pdf_def mysign_spans_def mysign_download_def mysign_certificate_def mysign_account_def
  mysign_api_keys_list_def mysign_signers_def mysign_order_mode_def mysign_fields_def mysign_pages_reorder_def
  mysign_pages_rotate_def mysign_pages_delete_def mysign_pages_add_def mysign_redact_def mysign_add_text_def
  mysign_edit_text_def mysign_void_def mysign_create_def mysign_templates_create_def mysign_templates_archive_def
  mysign_templates_use_def mysign_detect_prefill_def mysign_delete_def mysign_send_def mysign_remind_def
  mysign_2fa_phone_start_def mysign_2fa_phone_confirm_def mysign_2fa_disable_challenge_def mysign_2fa_disable_def
  mysign_api_keys_create_def mysign_api_keys_revoke_def mysign_billing_activate_def

lemma runs_send:
  "runs (ap_engine e) s (case body_message (ap_engine e) i d (st_world s) of None \<Rightarrow> (AnRaise, s)
     | Some w \<Rightarrow> on_world (send (ap_engine e) now tok base i) AnDispatched (s\<lparr>st_world := w\<rparr>))"
  by (auto simp: body_message_def runs_same runs_def on_world_def run_none run_requests split: sum.split prod.split
      dest!: arg_cong [of _ _ snd])

lemma runs_serve: "runs (ap_engine e) s (serve e rt q s)"
  by (cases rt; simp only: serve.simps; unfold route_defs Let_def;
      (intro impI runs_shapes runs_owned runs_world | simp add: runs_same run_requests run_composed runs_send split: option.split prod.split bool.split if_split)+)

section \<open>What the product API guarantees\<close>

text \<open>The contract of a service for many tenants: a request keeps the types, and the view of every tenant it does not
  act for. Over a sequence of requests both last.\<close>

fun absent :: "('r \<Rightarrow> 's \<Rightarrow> 's) \<Rightarrow> ('r \<Rightarrow> 's \<Rightarrow> 'a option) \<Rightarrow> 'a \<Rightarrow> 'r list \<Rightarrow> 's \<Rightarrow> bool" where
  "absent stp who b [] s = True"
| "absent stp who b (r # rs) s = (who r s \<noteq> Some b \<and> absent stp who b rs (stp r s))"

locale multi_tenant =
  fixes stp :: "'r \<Rightarrow> 's \<Rightarrow> 's" and who :: "'r \<Rightarrow> 's \<Rightarrow> 'a option" and view :: "'a \<Rightarrow> 's \<Rightarrow> 'v" and ok :: "'s \<Rightarrow> bool"
  assumes stp_ok: "ok s \<Longrightarrow> ok (stp r s)"
    and stp_view: "ok s \<Longrightarrow> who r s \<noteq> Some b \<Longrightarrow> view b (stp r s) = view b s"
begin

lemma run_ok: "ok s \<Longrightarrow> ok (fold stp rs s)"
  by (induction rs arbitrary: s) (simp_all add: stp_ok)

lemma run_view: "ok s \<Longrightarrow> absent stp who b rs s \<Longrightarrow> view b (fold stp rs s) = view b s"
  by (induction rs arbitrary: s) (simp_all add: stp_ok stp_view)

end

text \<open>The product API provides it.\<close>

definition api_step :: "api_env \<Rightarrow> api_route \<times> api_req \<Rightarrow> site \<Rightarrow> site" where
  "api_step e r s = snd (serve e (fst r) (snd r) s)"

definition api_who :: "api_env \<Rightarrow> api_route \<times> api_req \<Rightarrow> site \<Rightarrow> int option" where
  "api_who e r s = acting e (snd r) s"

definition serve_all :: "api_env \<Rightarrow> (api_route \<times> api_req) list \<Rightarrow> site \<Rightarrow> site" where
  "serve_all e reqs s = fold (api_step e) reqs s"

lemma exists_other: "\<exists>b :: int. acting e q s \<noteq> Some b"
  by (rule exI [of _ "(case acting e q s of Some a \<Rightarrow> a | None \<Rightarrow> 0) + 1"]) (simp split: option.split)

interpretation api: multi_tenant "api_step e" "api_who e"
    "\<lambda>b s. (tenant_view b (st_world s), account_view b (st_portal s))" site_ok for e
proof
  fix s r assume "site_ok s"
  then show "site_ok (api_step e r s)"
    using kept_serve [of s e "snd r" _ "fst r"] exists_other [of e "snd r" s] by (auto simp: kept_def api_step_def)
next
  fix s r b assume "site_ok s" "api_who e r s \<noteq> Some b"
  then show "(tenant_view b (st_world (api_step e r s)), account_view b (st_portal (api_step e r s))) =
      (tenant_view b (st_world s), account_view b (st_portal s))"
    using kept_serve [of s e "snd r" b "fst r"] by (simp add: kept_def same_for_def api_step_def api_who_def)
qed

text \<open>Property C3. Tenants are isolated: whatever sequence of requests is served, an account that none of them acts for
  keeps its row, its keys, its agreements with their signers, fields, events and files, and its templates.\<close>

theorem tenant_isolation:
  assumes "site_ok s" and "absent (api_step e) (api_who e) b reqs s"
  shows "tenant_view b (st_world (serve_all e reqs s)) = tenant_view b (st_world s) \<and>
    account_view b (st_portal (serve_all e reqs s)) = account_view b (st_portal s)"
  using api.run_view [OF assms] by (simp add: serve_all_def)

text \<open>A shop: account 3 owns agreement 1, account 7 owns agreement 2; a request with account 3's session cookie.\<close>

definition shop_account :: account where
  "shop_account = demo_account\<lparr>ac_sub_status := ''active'', ac_verified := True\<rparr>"

definition shop_portal :: portal where
  "shop_portal = empty_portal\<lparr>p_accounts := [shop_account], p_next := 4\<rparr>"

definition shop_session :: payload where
  "shop_session = session_payload 10 SESSION_TTL 3 shop_portal"

definition shop_env :: api_env where
  "shop_env = \<lparr>ap_http = demo_config, ap_portal = demo_penv shop_session, ap_engine = ref_engine,
     ap_render = (\<lambda>b n d. Some b), ap_extract = (\<lambda>b. Some []), ap_spans = (\<lambda>b n. Some []), ap_validate = (\<lambda>b. None)\<rparr>"

definition shop :: site where
  "shop = \<lparr>st_world = sample_world\<lparr>agreement_rows := [blank_agreement\<lparr>a_owner := Some 3\<rparr>,
       blank_agreement\<lparr>a_id := 2, a_source_path := source_path 2, a_envelope_id := ''E2''\<rparr>], next_agr := 3\<rparr>,
     st_portal = shop_portal\<rparr>"

definition shop_req :: api_req where
  "shop_req = \<lparr>rq_http = demo_req\<lparr>q_cookies := [(''__Host-ls_sign'', make_session (demo_env shop_session) 10 SESSION_TTL 3 shop_portal)]\<rparr>,
     rq_now = 20, rq_body = None, rq_name = ''n'', rq_file = NoUpload, rq_page = JNull, rq_env_id = ''E3'',
     rq_tokens = (\<lambda>i. ''t'' @ py_str i), rq_salt = ''salt'', rq_rnd = ''abcdefgh''\<rparr>"

lemma shop_found: "account_by_id shop_portal 3 = Some shop_account"
  by (simp add: account_by_id_def acct_row_def shop_portal_def shop_account_def demo_account_def new_account_def)

lemma shop_gate:
  "require_sign_acct (ap_http shop_env) (pe_auth (ap_portal shop_env)) (rq_now shop_req) (rq_http shop_req) shop_portal =
     (GateOk shop_account, shop_portal)"
proof -
  have "read_kind (demo_env shop_session) 20 ''signacct'' [''aid''] (Some (make_session (demo_env shop_session) 10 SESSION_TTL 3 shop_portal)) =
      Some shop_session"
    unfolding make_session_def shop_session_def
    by (subst read_kind_sign [where x = "10 + SESSION_TTL"])
      (simp_all add: codec_ok_def demo_env_def session_payload_def SESSION_TTL_def jget_def)
  then have "session_account (demo_env shop_session) 20 (Some (make_session (demo_env shop_session) 10 SESSION_TTL 3 shop_portal)) shop_portal =
      Inr (Some shop_account)"
    by (simp add: session_account_def shop_found shop_session_def session_payload_def jget_def jget_or0_def try_bind_def
        shop_account_def demo_account_def new_account_def)
  moreover have "cookie demo_config (rq_http shop_req) ''ls_sign'' = Some (make_session (demo_env shop_session) 10 SESSION_TTL 3 shop_portal)"
    by (simp add: cookie_def demo_config_def shop_req_def)
  ultimately show ?thesis by (simp add: require_sign_acct_def sign_acct_def shop_env_def demo_penv_def shop_req_def)
qed

lemma shop_acting: "acting shop_env shop_req shop = Some 3"
  by (simp add: acting_def shop_gate shop_def shop_account_def demo_account_def new_account_def)

lemma shop_ok: "site_ok shop"
  by (simp add: site_ok_def shop_def keys_ok_def shop_portal_def accounts_ok_def empty_portal_def shop_account_def demo_account_def
      new_account_def schema_ok_def sample_world_def unique_defs empty_world_def path_ok_def agr_ids_def blank_agreement_def
      blank_signer_def blank_field_def)

lemma tenant_isolation_witness:
  "tenant_view 7 (st_world (serve_all shop_env [(RVoid 1, shop_req)] shop)) = tenant_view 7 (st_world shop)"
  using tenant_isolation [OF shop_ok, of shop_env 7 "[(RVoid 1, shop_req)]"] by (simp add: api_who_def shop_acting)

text \<open>Property C11. The database stays well typed: from an empty document store, after any sequence of API requests, ids are
  unique and below their counters, every signer, field and event belongs to a stored agreement, and every file
  column is empty or names the row's own file.\<close>

theorem api_typed:
  assumes "accounts_ok p" and "keys_ok p"
  shows "schema_ok (st_world (serve_all e reqs \<lparr>st_world = empty_world, st_portal = p\<rparr>))"
proof -
  have "site_ok \<lparr>st_world = empty_world, st_portal = p\<rparr>"
    using assms by (simp add: site_ok_def schema_ok_def unique_defs empty_world_def)
  from api.run_ok [OF this] show ?thesis by (simp add: serve_all_def site_ok_def)
qed

lemma api_typed_witness:
  "schema_ok (st_world (serve_all shop_env [(RCreate, shop_req\<lparr>rq_file := FileUpload ''a.pdf'' ''pdf''\<rparr>), (RVoid 1, shop_req)]
     \<lparr>st_world = empty_world, st_portal = shop_portal\<rparr>))"
  using api_typed [of shop_portal shop_env] shop_ok by (simp add: site_ok_def shop_def)

text \<open>Property C12. The API refines the engine's transition system: each route leaves a world that a run of engine requests
  leads to, so that every invariant of the reachable states holds under the API.\<close>

theorem api_refines_engine:
  assumes "reachable (ap_engine e) (st_world s, rs)" and "serve e rt q s = (r, s')"
  shows "reachable (ap_engine e) (st_world s', rs)"
proof -
  obtain qs where "st_world s' = fold (perform (ap_engine e)) qs (st_world s)"
    using runs_serve [of e s rt q] assms(2) by (auto simp: runs_def engine_run_def)
  with steps_perform [of "ap_engine e" "st_world s" rs qs] assms(1) show ?thesis by (metis rtranclp_trans)
qed

lemma api_refines_engine_witness:
  "reachable ref_engine (st_world (snd (serve shop_env RCreate (shop_req\<lparr>rq_file := FileUpload ''a.pdf'' ''pdf''\<rparr>)
     \<lparr>st_world = empty_world, st_portal = shop_portal\<rparr>)), [])"
proof -
  have "ap_engine shop_env = ref_engine" by (simp add: shop_env_def)
  then show ?thesis
    using api_refines_engine [OF _ surjective_pairing, of shop_env "\<lparr>st_world = empty_world, st_portal = shop_portal\<rparr>" "[]"]
    by (simp del: serve.simps)
qed

lemma gate_cases:
  obtains (ok) a p where "require_sign_acct (ap_http e) (pe_auth (ap_portal e)) (rq_now q) (rq_http q) (st_portal s) = (GateOk a, p)"
      "acting e q s = Some (ac_id a)"
  | (no) g p where "require_sign_acct (ap_http e) (pe_auth (ap_portal e)) (rq_now q) (rq_http q) (st_portal s) = (g, p)"
      "acting e q s = None" "g = GateDenied \<or> (\<exists>x. g = GateRaise x)"
proof (cases "require_sign_acct (ap_http e) (pe_auth (ap_portal e)) (rq_now q) (rq_http q) (st_portal s)")
  case (Pair g p)
  then show ?thesis using ok no by (cases g) (auto simp: acting_def)
qed

lemma refused_acct:
  assumes "\<And>a. acting e q s = Some (ac_id a) \<Longrightarrow> \<forall>s1. st_world s1 = st_world s \<longrightarrow> k a s1 = (AnMissing, s1)"
    and "with_acct e q k s = (r, s')"
  shows "st_world s' = st_world s \<and> r \<in> {AnMissing, AnUnauthorized, AnRaise} \<and> (acting e q s \<noteq> None \<longrightarrow> r = AnMissing)"
  using assms(2) by (cases rule: gate_cases [of e q s]) (use assms(1) in \<open>auto simp: with_acct_def\<close>)

text \<open>Property C14. A foreign agreement does not exist: a route that names an agreement the account does not own, or that is not
  there at all, answers 404 in both cases and leaves every row and file alone.\<close>

theorem foreign_agreement_missing:
  assumes "route_agreement rt = Some aid" and "serve e rt q s = (r, s')"
    and "\<And>row a. agr_row (st_world s) aid = Some row \<Longrightarrow> acting e q s = Some a \<Longrightarrow> a_owner row \<noteq> Some a"
  shows "st_world s' = st_world s \<and> r \<in> {AnMissing, AnUnauthorized, AnRaise} \<and> (acting e q s \<noteq> None \<longrightarrow> r = AnMissing)"
proof -
  have none: "get_agreement_owned (st_world s) aid (ac_id a) = None" if "acting e q s = Some (ac_id a)" for a :: account
    using assms(3) [OF _ that] by (auto simp: get_agreement_owned_def get_agreement_view split: option.splits)
  have owned: "st_world s' = st_world s \<and> r \<in> {AnMissing, AnUnauthorized, AnRaise} \<and> (acting e q s \<noteq> None \<longrightarrow> r = AnMissing)"
    if "with_owned e aid q k s = (r, s')" for k
    using that unfolding with_owned_def by (rule refused_acct [rotated]) (simp add: require_owned_def none)
  have detect: "st_world s' = st_world s \<and> r \<in> {AnMissing, AnUnauthorized, AnRaise} \<and> (acting e q s \<noteq> None \<longrightarrow> r = AnMissing)"
    if "mysign_detect_prefill e aid q s = (r, s')"
    using that unfolding mysign_detect_prefill_def
    by (rule refused_acct [rotated]) (simp add: autodetect_prefill_owned_def none on_world_def)
  show ?thesis using assms(1,2) owned detect
    by (cases rt) (simp_all add: route_defs)
qed

lemma foreign_agreement_missing_witness:
  "fst (serve shop_env (RVoid 2) shop_req shop) = AnMissing \<and> st_world (snd (serve shop_env (RVoid 2) shop_req shop)) = st_world shop"
proof -
  have "agr_row (st_world shop) 2 = Some row \<Longrightarrow> a_owner row = Some 7" for row
    by (auto simp: shop_def agr_row_def sample_world_def blank_agreement_def)
  then show ?thesis
    using foreign_agreement_missing [of "RVoid 2" 2, OF _ surjective_pairing, of shop shop_env shop_req] by (auto simp: shop_acting)
qed


lemma shop_sends: "a_status (the (agr_row (st_world (snd (serve shop_env (RSend 1) shop_req shop))) 1)) = OutForSignature"
proof -
  have "require_owned 1 shop_account (st_world shop) = get_agreement (st_world shop) 1" by code_simp
  moreover have "may_dispatch shop_account (st_portal shop) = None" by code_simp
  moreover have "get_agreement (st_world shop) 1 \<noteq> None" by code_simp
  moreover have "map_option a_status (agr_row (snd (send ref_engine 20 (rq_tokens shop_req) ''https://x.io'' 1 (st_world shop))) 1) =
      Some OutForSignature" by code_simp
  moreover have "rq_now shop_req = 20" "rq_body shop_req = None" "ap_engine shop_env = ref_engine" "en_public_base ref_engine = ''https://x.io''"
    by (simp_all add: shop_req_def shop_env_def ref_engine_def)
  ultimately show ?thesis
    using shop_gate
    by (auto simp: mysign_send_def with_owned_def with_acct_def with_body_or_empty_def body_message_def jget_def on_world_def shop_def
        split: prod.split)
qed


section \<open>What the routes do that they should not\<close>

text \<open>Sending again answers that the agreement was already sent, but has stored the message of the body by then: the
  message of an agreement that is out, completed or void can be rewritten.\<close>

lemma send_rewrites_message:
  assumes "acting e q s = Some (ac_id a)"
    and "require_sign_acct (ap_http e) (pe_auth (ap_portal e)) (rq_now q) (rq_http q) (st_portal s) = (GateOk a, p)"
    and "may_dispatch a p = None" and "require_owned aid a (st_world s) = Some v" and "v_signers v \<noteq> []"
    and "a_status (v_row v) \<notin> {Draft, NoStatus}" and "rq_body q = Some (JObj [(''message'', JStr m)])"
  shows "\<exists>s'. serve e (RSend aid) q s = (AnDispatched (SendErr (SendAlreadySent (a_status (v_row v)))), s') \<and>
    map_option a_message (agr_row (st_world s') aid) = Some m"
proof -
  let ?w = "update_message aid m (st_world s)"
  have v: "get_agreement (st_world s) aid = Some v" "agr_row (st_world s) aid = Some (v_row v)"
    using assms(4) view_row [of "st_world s" aid v]
    by (auto simp: require_owned_def get_agreement_owned_def split: if_splits option.splits)
  then have "get_agreement ?w aid = Some (v\<lparr>v_row := (v_row v)\<lparr>a_message := m\<rparr>\<rparr>)"
    by (cases v) (auto simp: get_agreement_def update_message_def agr.get_upd agr_events_def split: option.splits)
  then show ?thesis
    using assms v(2)
    by (auto simp: mysign_send_def with_owned_def with_acct_def with_body_or_empty_def body_message_def jget_def json_or_def
        on_world_def send_def update_message_def agr.get_upd db_text_def)
qed

text \<open>A session alone replaces an armed SMS factor: any phone whose code the caller can read becomes the account's
  second factor, with no code from the phone it replaces.\<close>

lemma sms_factor_replaced:
  assumes "require_sign_cookie (ap_http e) (pe_auth (ap_portal e)) (rq_now q) (rq_http q) (st_portal s) = GateOk a"
    and "account_by_id (st_portal s) (ac_id a) = Some a" and "ac_sms_2fa a"
    and "rq_body q = Some (JObj [(''phone'', JStr phone), (''code'', JStr code)])"
    and "phone \<noteq> []" and "code \<noteq> []" and "check_phone_code (ap_portal e) (py_strip phone) (py_strip code)"
  shows "\<exists>b. account_by_id (st_portal (snd (serve e RPhoneConfirm q s))) (ac_id a) = Some b \<and> ac_sms_2fa b \<and>
    ac_phone b = py_strip (e164 (py_strip phone))"
  using assms
  by (simp add: mysign_2fa_phone_confirm_def with_cookie_def with_body_def or_raise_def strip_text_def jget_def
      set_phone_2fa_def account_by_id_update Let_def)

end
