(* ===== verification/HookRoutes.thy ===== *)
theory HookRoutes
  imports Webhooks Api
begin

text \<open>
  The webhook routes of the product API (\<open>sign/routers/webhooks.py\<close>): each is gated like the other product
  routes and works on the calling account's own subscriptions; an id of somebody else answers like one that is
  not there. The background deliveries a ping schedules are \<open>Webhooks.deliver_now\<close>'s.
\<close>

record hook_site =
  hs_site :: site
  hs_hooks :: hooks

record hook_env =
  he_api :: api_env
  he_net :: net_env
  he_str :: "json \<Rightarrow> string"

record hook_view =
  hv_id :: int
  hv_url :: string
  hv_secret :: string
  hv_events :: "string list"
  hv_active :: bool
  hv_created :: time
  hv_last_status :: "int option"
  hv_last_at :: "time option"
  hv_failures :: int

definition public_hook :: "webhook \<Rightarrow> hook_view" where
  "public_hook w =
     \<lparr>hv_id = wh_id w, hv_url = wh_url w, hv_secret = wh_secret w, hv_events = events_out (nonblank (wh_events w) ALL_EVENTS),
      hv_active = wh_active w, hv_created = wh_created w, hv_last_status = wh_last_status w,
      hv_last_at = wh_last_at w, hv_failures = wh_failures w\<rparr>"

datatype hook_answer =
    HkRaise | HkUnauthorized | HkMissing | HkBad string | HkInvalid | HkList "hook_view list" "string list"
  | HkMade hook_view | HkDeleted | HkRotated hook_view | HkDeliveries "delivery list" | HkScheduled "webhook list"

section \<open>The routes\<close>

definition with_hook_acct ::
  "hook_env \<Rightarrow> api_req \<Rightarrow> (account \<Rightarrow> hooks \<Rightarrow> hook_answer \<times> hooks) \<Rightarrow> hook_site \<Rightarrow> hook_answer \<times> hook_site" where
  "with_hook_acct e q k hs =
     (case require_sign_acct (ap_http (he_api e)) (pe_auth (ap_portal (he_api e))) (rq_now q) (rq_http q) (st_portal (hs_site hs)) of
        (g, p) \<Rightarrow> (let hs1 = hs\<lparr>hs_site := (hs_site hs)\<lparr>st_portal := p\<rparr>\<rparr> in
          case g of
            GateRaise x \<Rightarrow> (HkRaise, hs1)
          | GateDenied \<Rightarrow> (HkUnauthorized, hs1)
          | GateOk a \<Rightarrow> (case k a (hs_hooks hs) of (r, h) \<Rightarrow> (r, hs1\<lparr>hs_hooks := h\<rparr>))))"

definition webhooks_list :: "hook_env \<Rightarrow> api_req \<Rightarrow> hook_site \<Rightarrow> hook_answer \<times> hook_site" where
  "webhooks_list e q = with_hook_acct e q (\<lambda>a h. (HkList (map public_hook (list_webhooks h (ac_id a))) EVENTS, h))"

definition webhooks_create :: "hook_env \<Rightarrow> api_req \<Rightarrow> hook_site \<Rightarrow> hook_answer \<times> hook_site" where
  "webhooks_create e q =
     with_hook_acct e q (\<lambda>a h.
       (case rq_body q of
          None \<Rightarrow> (HkBad ''invalid JSON body'', h)
        | Some (JObj b) \<Rightarrow>
            (case strip_text (jget b ''url'') of
               Inl x \<Rightarrow> (HkRaise, h)
             | Inr url \<Rightarrow>
                 if url = [] then (HkBad ''url required'', h)
                 else (case create_webhook (he_net e) (he_str e) (rq_now q) (rq_rnd q) (ac_id a) url (jget b ''events'') h of
                     (Inl x, h1) \<Rightarrow> (HkInvalid, h1)
                   | (Inr w, h1) \<Rightarrow> (HkMade (public_hook w), h1)))
        | Some j \<Rightarrow> (HkBad ''invalid body'', h)))"

definition webhooks_delete :: "hook_env \<Rightarrow> int \<Rightarrow> api_req \<Rightarrow> hook_site \<Rightarrow> hook_answer \<times> hook_site" where
  "webhooks_delete e i q =
     with_hook_acct e q (\<lambda>a h. (case delete_webhook (ac_id a) i h of (ok, h1) \<Rightarrow> (if ok then HkDeleted else HkMissing, h1)))"

definition webhooks_rotate :: "hook_env \<Rightarrow> int \<Rightarrow> api_req \<Rightarrow> hook_site \<Rightarrow> hook_answer \<times> hook_site" where
  "webhooks_rotate e i q =
     with_hook_acct e q (\<lambda>a h. (case rotate_secret (rq_rnd q) (ac_id a) i h of
       (None, h1) \<Rightarrow> (HkMissing, h1) | (Some w, h1) \<Rightarrow> (HkRotated (public_hook w), h1)))"

definition webhooks_deliveries :: "hook_env \<Rightarrow> int \<Rightarrow> int \<Rightarrow> api_req \<Rightarrow> hook_site \<Rightarrow> hook_answer \<times> hook_site" where
  "webhooks_deliveries e i lmt q =
     with_hook_acct e q (\<lambda>a h. (case recent_deliveries h (ac_id a) i lmt of None \<Rightarrow> HkMissing | Some ds \<Rightarrow> HkDeliveries ds, h))"

definition webhooks_test :: "hook_env \<Rightarrow> int \<Rightarrow> api_req \<Rightarrow> hook_site \<Rightarrow> hook_answer \<times> hook_site" where
  "webhooks_test e i q =
     with_hook_acct e q (\<lambda>a h.
       (case get_webhook_owned h (ac_id a) i of
          None \<Rightarrow> (HkMissing, h)
        | Some w \<Rightarrow> (HkScheduled (wh_emit h ''envelope.sent'' (Some (ac_id a))), h)))"

datatype hook_route = HList | HCreate | HDelete int | HRotate int | HDeliveries int int | HTest int

fun hook_serve :: "hook_env \<Rightarrow> hook_route \<Rightarrow> api_req \<Rightarrow> hook_site \<Rightarrow> hook_answer \<times> hook_site" where
  "hook_serve e HList = webhooks_list e"
| "hook_serve e HCreate = webhooks_create e"
| "hook_serve e (HDelete i) = webhooks_delete e i"
| "hook_serve e (HRotate i) = webhooks_rotate e i"
| "hook_serve e (HDeliveries i l) = webhooks_deliveries e i l"
| "hook_serve e (HTest i) = webhooks_test e i"

section \<open>Isolation\<close>

definition hooks_ok :: "hooks \<Rightarrow> bool" where
  "hooks_ok h = (distinct (map wh_id (hk_rows h)) \<and> (\<forall>w \<in> set (hk_rows h). wh_id w < hk_next h) \<and>
     (\<forall>d \<in> set (hk_log h). dl_webhook d < hk_next h))"

definition owned_hooks :: "int \<Rightarrow> hooks \<Rightarrow> webhook list \<times> delivery list" where
  "owned_hooks b h =
     (let ws = filter (\<lambda>w. wh_owner w = b) (hk_rows h) in (ws, filter (\<lambda>d. dl_webhook d \<in> wh_id ` set ws) (hk_log h)))"

definition hook_step :: "int \<Rightarrow> hooks \<Rightarrow> hooks \<Rightarrow> bool" where
  "hook_step b h h' = (hooks_ok h' \<and> owned_hooks b h' = owned_hooks b h)"

lemma hook_step_refl: "hooks_ok h \<Longrightarrow> hook_step b h h"
  by (simp add: hook_step_def)

lemma hook_step_rows:
  "hooks_ok h' \<Longrightarrow> filter (\<lambda>w. wh_owner w = b) (hk_rows h') = filter (\<lambda>w. wh_owner w = b) (hk_rows h) \<Longrightarrow>
   hk_log h' = hk_log h \<Longrightarrow> hook_step b h h'"
  unfolding hook_step_def owned_hooks_def by (simp only: simp_thms)

lemma hook_step_create:
  assumes "hooks_ok h" and "a \<noteq> b"
  shows "hook_step b h (snd (create_webhook n str now rnd a url ev h))"
proof (cases "create_webhook n str now rnd a url ev h")
  case (Pair r h')
  have "hooks_ok h'" "filter (\<lambda>w. wh_owner w = b) (hk_rows h') = filter (\<lambda>w. wh_owner w = b) (hk_rows h)" "hk_log h' = hk_log h"
    using Pair assms by (fastforce simp: create_webhook_def Let_def hooks_ok_def split: option.splits)+
  then show ?thesis using Pair by (simp add: hook_step_rows)
qed

lemma hook_step_delete:
  assumes "hooks_ok h" and "a \<noteq> b"
  shows "hook_step b h (snd (delete_webhook a i h))"
proof (rule hook_step_rows)
  show "hooks_ok (snd (delete_webhook a i h))"
    using assms by (simp add: hooks_ok_def delete_webhook_def Let_def del_where_def distinct_map_filter)
  show "filter (\<lambda>w. wh_owner w = b) (hk_rows (snd (delete_webhook a i h))) = filter (\<lambda>w. wh_owner w = b) (hk_rows h)"
    using assms(2) by (auto simp: delete_webhook_def Let_def del_where_def filter_filter intro!: filter_cong)
qed (simp add: delete_webhook_def Let_def)

lemma hook_step_rotate:
  assumes "hooks_ok h" and "a \<noteq> b"
  shows "hook_step b h (snd (rotate_secret rnd a i h))"
proof -
  let ?g = "\<lambda>w. w\<lparr>wh_secret := ''whsec_'' @ rnd\<rparr>" and ?P = "\<lambda>w. wh_id w = i \<and> wh_owner w = a"
  have h': "snd (rotate_secret rnd a i h) = h\<lparr>hk_rows := upd_where ?P ?g (hk_rows h)\<rparr>"
    by (simp add: rotate_secret_def Let_def)
  have "map wh_id (upd_where ?P ?g (hk_rows h)) = map wh_id (hk_rows h)" by (rule map_upd_key) simp
  moreover have "filter (\<lambda>w. wh_owner w = b) (upd_where ?P ?g ws) = filter (\<lambda>w. wh_owner w = b) ws" for ws
    using assms(2) by (induction ws) (auto simp: upd_where_def)
  ultimately show ?thesis
    unfolding h' using assms(1) by (intro hook_step_rows) (auto simp: hooks_ok_def set_upd_where)
qed

lemma hook_serve_step:
  assumes ok: "site_ok (hs_site hs)" "hooks_ok (hs_hooks hs)" and b: "acting (he_api e) q (hs_site hs) \<noteq> Some b"
  shows "site_ok (hs_site (snd (hook_serve e rt q hs))) \<and> same_for b (hs_site hs) (hs_site (snd (hook_serve e rt q hs))) \<and>
    hook_step b (hs_hooks hs) (hs_hooks (snd (hook_serve e rt q hs)))"
proof -
  obtain g p where g: "require_sign_acct (ap_http (he_api e)) (pe_auth (ap_portal (he_api e))) (rq_now q) (rq_http q) (st_portal (hs_site hs)) = (g, p)"
    by fastforce
  have n: "g = GateOk a \<Longrightarrow> ac_id a \<noteq> b" for a using b g by (auto simp: acting_def)
  have s: "kept b (hs_site hs) (AnRaise, (hs_site hs)\<lparr>st_portal := p\<rparr>)"
    using ok(1) by (intro kept_portal portal_step_gate [OF _ g n]) (simp_all add: site_ok_def)
  have "site_ok (hs_site (snd (with_hook_acct e q k hs))) \<and> same_for b (hs_site hs) (hs_site (snd (with_hook_acct e q k hs))) \<and>
      hook_step b (hs_hooks hs) (hs_hooks (snd (with_hook_acct e q k hs)))"
    if "\<And>a. ac_id a \<noteq> b \<Longrightarrow> hook_step b (hs_hooks hs) (snd (k a (hs_hooks hs)))" for k
  proof (cases g)
    case (GateOk a)
    obtain r h where "k a (hs_hooks hs) = (r, h)" by fastforce
    then show ?thesis using s that [OF n [OF GateOk]] GateOk by (simp add: with_hook_acct_def g kept_def)
  qed (use s ok(2) in \<open>simp_all add: with_hook_acct_def g kept_def hook_step_refl\<close>)
  note go = this
  show ?thesis
    using hook_step_refl [OF ok(2)] hook_step_create [OF ok(2)] hook_step_delete [OF ok(2)] hook_step_rotate [OF ok(2)]
    by (cases rt; simp only: hook_serve.simps webhooks_list_def webhooks_create_def webhooks_delete_def webhooks_rotate_def
        webhooks_deliveries_def webhooks_test_def; intro go; simp split: option.split json.split sum.split prod.split;
        metis snd_conv)
qed

text \<open>The webhook routes provide the contract of a service for many tenants, too.\<close>

definition hook_request :: "hook_env \<Rightarrow> hook_route \<times> api_req \<Rightarrow> hook_site \<Rightarrow> hook_site" where
  "hook_request e r hs = snd (hook_serve e (fst r) (snd r) hs)"

definition hook_who :: "hook_env \<Rightarrow> hook_route \<times> api_req \<Rightarrow> hook_site \<Rightarrow> int option" where
  "hook_who e r hs = acting (he_api e) (snd r) (hs_site hs)"

interpretation hook_api: multi_tenant "hook_request e" "hook_who e"
    "\<lambda>b hs. (tenant_view b (st_world (hs_site hs)), account_view b (st_portal (hs_site hs)), owned_hooks b (hs_hooks hs))"
    "\<lambda>hs. site_ok (hs_site hs) \<and> hooks_ok (hs_hooks hs)" for e
proof
  fix s :: hook_site and r :: "hook_route \<times> api_req"
  assume "site_ok (hs_site s) \<and> hooks_ok (hs_hooks s)"
  then show "site_ok (hs_site (hook_request e r s)) \<and> hooks_ok (hs_hooks (hook_request e r s))"
    using hook_serve_step [of s e "snd r" _ "fst r"] exists_other [of "he_api e" "snd r" "hs_site s"]
    by (auto simp: hook_step_def hook_request_def)
next
  fix s :: hook_site and r :: "hook_route \<times> api_req" and b :: int
  assume "site_ok (hs_site s) \<and> hooks_ok (hs_hooks s)" "hook_who e r s \<noteq> Some b"
  then show "(tenant_view b (st_world (hs_site (hook_request e r s))), account_view b (st_portal (hs_site (hook_request e r s))),
      owned_hooks b (hs_hooks (hook_request e r s))) =
     (tenant_view b (st_world (hs_site s)), account_view b (st_portal (hs_site s)), owned_hooks b (hs_hooks s))"
    using hook_serve_step [of s e "snd r" b "fst r"] by (auto simp: hook_step_def same_for_def hook_request_def hook_who_def)
qed

text \<open>Property C34. Subscriptions are isolated: whatever sequence of webhook requests is served, an account that none of them
  acts for keeps its subscriptions with their secrets, states and delivery logs, and every id stays unique.\<close>

theorem hooks_isolated:
  assumes "site_ok (hs_site hs)" and "hooks_ok (hs_hooks hs)" and "absent (hook_request e) (hook_who e) b reqs hs"
  shows "owned_hooks b (hs_hooks (fold (hook_request e) reqs hs)) = owned_hooks b (hs_hooks hs) \<and>
    hooks_ok (hs_hooks (fold (hook_request e) reqs hs))"
  using hook_api.run_view [of hs e b reqs] hook_api.run_ok [of hs e reqs] assms by simp

lemma hooks_isolated_witness:
  "owned_hooks 7 (hs_hooks (hook_request \<lparr>he_api = shop_env, he_net = demo_net, he_str = (\<lambda>j. [])\<rparr> (HDelete 1, shop_req)
     \<lparr>hs_site = shop, hs_hooks = demo_hooks\<rparr>)) = owned_hooks 7 demo_hooks"
proof -
  let ?e = "\<lparr>he_api = shop_env, he_net = demo_net, he_str = (\<lambda>j. [])\<rparr>" and ?hs = "\<lparr>hs_site = shop, hs_hooks = demo_hooks\<rparr>"
  have "absent (hook_request ?e) (hook_who ?e) 7 [(HDelete 1, shop_req)] ?hs" by (simp add: hook_who_def shop_acting)
  then show ?thesis
    using hooks_isolated [of ?hs ?e 7 "[(HDelete 1, shop_req)]"] shop_ok by (simp add: hooks_ok_def demo_hooks_def demo_hook_def)
qed

text \<open>The test ping is announced as one to the subscription named; it goes to every active subscription of the account
  that selects \<open>envelope.sent\<close>, and to the one named only if that is one of them.\<close>

lemma ping_goes_elsewhere:
  assumes "require_sign_acct (ap_http (he_api e)) (pe_auth (ap_portal (he_api e))) (rq_now q) (rq_http q) (st_portal (hs_site hs)) = (GateOk a, p)"
    and "get_webhook_owned (hs_hooks hs) (ac_id a) i = Some w" and "ac_id a \<noteq> 0"
  shows "fst (hook_serve e (HTest i) q hs) =
    HkScheduled (filter (\<lambda>w. wh_matches (wh_events w) ''envelope.sent'') (filter (\<lambda>w. wh_owner w = ac_id a \<and> wh_active w) (hk_rows (hs_hooks hs))))"
  using assms by (simp add: webhooks_test_def with_hook_acct_def wh_emit_def matching_subscriptions_def EVENTS_def)

end
