(* ===== verification/Console.thy ===== *)
theory Console
  imports Api
begin

text \<open>
  The operator console: the all-accounts reads and the two writes of \<open>sign/sign_ops.py\<close>, behind the
  operator gate of \<open>sign/routers/ops.py\<close>. Properties: suspending an account shuts it out at once and for
  good as far as its old sessions go; the purge removes the test accounts and their agreements and nothing of
  anybody else.
\<close>

section \<open>Reads\<close>

definition account_docs :: "world \<Rightarrow> account \<Rightarrow> account_view \<times> time \<times> time option \<times> nat" where
  "account_docs w a =
     (public_view a, ac_created a, ac_login a, if ac_id a = 0 then 0 else count_agreements_for_owner w (ac_id a))"

definition ops_list_accounts :: "site \<Rightarrow> (account_view \<times> time \<times> time option \<times> nat) list" where
  "ops_list_accounts s = map (account_docs (st_world s)) (list_accounts (st_portal s))"

text \<open>The digits and dots of the price, from the first one to the next other character.\<close>

definition price_text :: "string \<Rightarrow> string" where
  "price_text raw =
     (let p = (\<lambda>c. is_digit c \<or> c = CHR ''.'') in takeWhile p (dropWhile (\<lambda>c. \<not> p c) raw))"

definition plan_monthly :: "engine \<Rightarrow> string \<Rightarrow> real" where
  "plan_monthly eng price =
     (let d = price_text price in if d = [] then 0 else coalesce (en_parse_float eng d) 0)"

record ops_summary =
  os_total :: nat
  os_active :: nat
  os_suspended :: nat
  os_subscribed :: nat
  os_mrr :: real
  os_plan_price :: string

definition round2 :: "real \<Rightarrow> real" where
  "round2 x = of_int (py_round (x * 100)) / 100"

definition ops_summary_of :: "engine \<Rightarrow> portal \<Rightarrow> ops_summary" where
  "ops_summary_of eng p =
     (let as = list_accounts p; n = (\<lambda>P. length (filter P as)); subs = n (\<lambda>a. ac_sub_status a = ''active'')
      in \<lparr>os_total = length as, os_active = n (\<lambda>a. or_default (ac_status a) ''active'' = ''active''),
          os_suspended = n (\<lambda>a. ac_status a = ''suspended''), os_subscribed = subs,
          os_mrr = round2 (real subs * plan_monthly eng PLAN_PRICE), os_plan_price = PLAN_PRICE\<rparr>)"

definition set_status :: "int \<Rightarrow> bool \<Rightarrow> portal \<Rightarrow> string option \<times> portal" where
  "set_status aid suspended p =
     (case account_by_id p aid of
        None \<Rightarrow> (None, p)
      | Some a \<Rightarrow>
          (let st = (if suspended then ''suspended'' else ''active'');
               p1 = update_acct aid (\<lambda>a. a\<lparr>ac_status := st\<rparr>) p
           in (Some st, if suspended then snd (bump_session_version aid p1) else p1)))"

definition TEST_PREFIXES :: "string list" where
  "TEST_PREFIXES = [''isotest-'', ''p2test-'']"

definition is_test_account :: "account \<Rightarrow> bool" where
  "is_test_account a =
     (let local = takeWhile (\<lambda>c. c \<noteq> CHR ''@'') (norm_email (ac_email a))
      in list_ex (\<lambda>x. startswith local x) TEST_PREFIXES)"

text \<open>One account of the purge: its agreements first, then its row.\<close>

definition purge_one :: "account \<Rightarrow> (string list \<times> nat) \<times> site \<Rightarrow> (string list \<times> nat) \<times> site" where
  "purge_one a st =
     (case st of ((removed, docs), s) \<Rightarrow>
       if \<not> is_test_account a \<or> ac_id a = 0 then st
       else (case delete_agreements_for_owner (ac_id a) (st_world s) of
           (n, w) \<Rightarrow> (case delete_account (ac_id a) (st_portal s) of
               (ok, p) \<Rightarrow> ((if ok then removed @ [norm_email (ac_email a)] else removed, docs + n),
                 s\<lparr>st_world := w, st_portal := p\<rparr>))))"

definition purge_test_rows :: "site \<Rightarrow> (string list \<times> nat) \<times> site" where
  "purge_test_rows s = fold purge_one (list_accounts (st_portal s)) (([], 0), s)"

datatype ops_answer =
    OpsForbidden | OpsRaise | OpsAccounts "(account_view \<times> time \<times> time option \<times> nat) list"
  | OpsSummary ops_summary | OpsMissing | OpsStatus int string | OpsPurged "string list" nat

definition with_operator :: "api_env \<Rightarrow> api_req \<Rightarrow> (site \<Rightarrow> ops_answer \<times> site) \<Rightarrow> site \<Rightarrow> ops_answer \<times> site" where
  "with_operator e q k s =
     (case require_operator (ap_http e) (pe_auth (ap_portal e)) (rq_now q) (rq_http q) (st_portal s) of
        GateRaise x \<Rightarrow> (OpsRaise, s) | GateDenied \<Rightarrow> (OpsForbidden, s) | GateOk a \<Rightarrow> k s)"

definition sign_ops_accounts :: "api_env \<Rightarrow> api_req \<Rightarrow> site \<Rightarrow> ops_answer \<times> site" where
  "sign_ops_accounts e q = with_operator e q (\<lambda>s. (OpsAccounts (ops_list_accounts s), s))"

definition sign_ops_summary :: "api_env \<Rightarrow> api_req \<Rightarrow> site \<Rightarrow> ops_answer \<times> site" where
  "sign_ops_summary e q = with_operator e q (\<lambda>s. (OpsSummary (ops_summary_of (ap_engine e) (st_portal s)), s))"

text \<open>\<open>(b or {}).get("suspended")\<close>: an empty body of any kind counts as an empty object.\<close>

definition sign_ops_set_status :: "api_env \<Rightarrow> int \<Rightarrow> api_req \<Rightarrow> site \<Rightarrow> ops_answer \<times> site" where
  "sign_ops_set_status e aid q =
     with_operator e q (\<lambda>s.
       (case (case rq_body q of None \<Rightarrow> Some []
              | Some j \<Rightarrow> if \<not> truthy j then Some [] else case j of JObj d \<Rightarrow> Some d | _ \<Rightarrow> None) of
          None \<Rightarrow> (OpsRaise, s)
        | Some b \<Rightarrow> (case set_status aid (truthy (jget b ''suspended'')) (st_portal s) of
              (None, p) \<Rightarrow> (OpsMissing, s\<lparr>st_portal := p\<rparr>)
            | (Some st, p) \<Rightarrow> (OpsStatus aid st, s\<lparr>st_portal := p\<rparr>))))"

definition sign_ops_purge_test :: "api_env \<Rightarrow> api_req \<Rightarrow> site \<Rightarrow> ops_answer \<times> site" where
  "sign_ops_purge_test e q =
     with_operator e q (\<lambda>s. (case purge_test_rows s of ((removed, docs), s1) \<Rightarrow> (OpsPurged removed docs, s1)))"

section \<open>Suspension\<close>

lemma set_status_row:
  assumes "account_by_id p aid = Some a"
  shows "account_by_id (snd (set_status aid True p)) j =
      (if j = aid then Some (a\<lparr>ac_status := ''suspended'', ac_ver := ac_ver a + 1\<rparr>) else account_by_id p j)"
    "account_by_id (snd (set_status aid False p)) j = (if j = aid then Some (a\<lparr>ac_status := ''active''\<rparr>) else account_by_id p j)"
  by (simp_all add: set_status_def assms bump_session_version_def account_by_id_update account_by_id_upd Let_def)

lemma session_Some: "session_account env now c p = Inr (Some b) \<Longrightarrow> ac_status b = ''active'' \<and> account_by_id p (ac_id b) = Some b"
  using account_by_id_facts by (fastforce simp: session_account_def try_bind_eq_Inr split: option.splits if_splits)

lemma resolve_Some:
  "resolve_key env now key p = (Inr (Some b), p') \<Longrightarrow> or_default (ac_status b) ''active'' = ''active'' \<and> account_by_id p (ac_id b) = Some b"
  using account_by_id_facts by (fastforce simp: resolve_key_def split: option.splits sum.splits if_splits)

text \<open>Property C39. Suspending an account shuts it out at once: no cookie and no key opens it, it cannot send, and
  the cookies issued before stay dead after it is reinstated; no other account changes.\<close>

theorem suspension_shuts_out:
  assumes "account_by_id p aid = Some a"
    and "codec_ok env (session_payload t ttl aid p)"
  defines "p1 \<equiv> snd (set_status aid True p)"
  shows "\<not> can_send p1 aid \<and>
    (\<forall>now c b. session_account env now c p1 = Inr (Some b) \<longrightarrow> ac_id b \<noteq> aid) \<and>
    (\<forall>now key b. fst (resolve_key env now key p1) = Inr (Some b) \<longrightarrow> ac_id b \<noteq> aid) \<and>
    (\<forall>now. session_account env now (Some (make_session env t ttl aid p)) (snd (set_status aid False p1)) = Inr None) \<and>
    (\<forall>j. j \<noteq> aid \<longrightarrow> account_by_id p1 j = account_by_id p j)"
proof -
  note row = set_status_row [OF assms(1), folded p1_def]
  have r1: "account_by_id p1 aid = Some (a\<lparr>ac_status := ''suspended'', ac_ver := ac_ver a + 1\<rparr>)" by (simp add: row)
  have "\<not> can_send p1 aid" by (simp add: can_send_def r1)
  moreover have "ac_id b \<noteq> aid" if "session_account env now c p1 = Inr (Some b)" for now c b
    using session_Some [OF that] r1 by auto
  moreover have "ac_id b \<noteq> aid" if "fst (resolve_key env now key p1) = Inr (Some b)" for now key b
    using resolve_Some [of env now key p1 b] that r1 by (auto simp: or_default_def prod_eq_iff)
  moreover have "session_account env now (Some (make_session env t ttl aid p)) (snd (set_status aid False p1)) = Inr None" for now
    using session_account_make [OF assms(2), of "snd (set_status aid False p1)"] set_status_row(2) [OF r1, of aid]
      account_by_id_facts [OF assms(1)] by simp
  ultimately show ?thesis by (simp add: row)
qed

lemma suspension_shuts_out_witness:
  "let p1 = snd (set_status 3 True shop_portal) in \<not> can_send p1 3 \<and>
   session_account (demo_env shop_session) 20 (Some (make_session (demo_env shop_session) 10 SESSION_TTL 3 shop_portal))
     (snd (set_status 3 False p1)) = Inr None"
  using suspension_shuts_out [OF shop_found, of "demo_env shop_session" 10 SESSION_TTL]
  by (simp add: codec_ok_def demo_env_def shop_session_def Let_def)

section \<open>The purge\<close>

lemma tstep_delete_for_owner:
  assumes s: "schema_ok w"
  shows "tenant_step a w (snd (delete_agreements_for_owner a w))"
proof -
  let ?P = "\<lambda>i. i \<in> owned_ids a w" and ?w = "drop_children (\<lambda>i. i \<in> owned_ids a w) w"
  have "schema_ok ?w"
    using s by (auto simp: schema_ok_def unique_defs drop_children_def del_where_def distinct_map_filter agr_ids_def)
  moreover have "tenant_view b ?w = tenant_view b w" if "b \<noteq> a" for b
  proof -
    have d: "i \<notin> owned_ids a w" if "i \<in> owned_ids b w" for i
      using that \<open>b \<noteq> a\<close> s by (auto simp: owned_ids_def schema_ok_def unique_agr_def distinct_map dest: inj_onD)
    have o: "filter (\<lambda>r. a_owner r = Some b) (agreement_rows ?w) = filter (\<lambda>r. a_owner r = Some b) (agreement_rows w)"
      using d by (auto simp: drop_children_def del_where_def filter_filter owned_ids_def intro!: filter_cong)
    then have i: "owned_ids b ?w = owned_ids b w" by (simp add: owned_ids_def)
    have "(j \<notin> owned_ids a w \<and> j \<in> owned_ids b w) = (j \<in> owned_ids b w)" for j
      using d by auto
    then show ?thesis
      by (simp add: tenant_view_def i o owned_tpls_def tenant_files_def) (simp add: drop_children_def del_where_def filter_filter)
  qed
  moreover have "snd (delete_agreements_for_owner a w) \<in> {w, ?w}"
    by (auto simp: delete_agreements_for_owner_def Let_def owned_rows_def owned_ids_def)
  ultimately show ?thesis using tstep_refl [OF s] by (auto simp: tenant_step_def)
qed

lemma purge_one_kept:
  assumes "site_ok s" and "\<not> (is_test_account a \<and> ac_id a = b)" and "purge_one a (r, s) = (r', s')"
  shows "site_ok s' \<and> same_for b s s' \<and>
    p_accounts (st_portal s') = filter (\<lambda>x. \<not> (is_test_account a \<and> ac_id x = ac_id a \<and> ac_id a \<noteq> 0)) (p_accounts (st_portal s))"
proof (cases "\<not> is_test_account a \<or> ac_id a = 0")
  case False
  let ?w = "snd (delete_agreements_for_owner (ac_id a) (st_world s))"
  have s': "s' = s\<lparr>st_world := ?w, st_portal := snd (delete_account (ac_id a) (st_portal s))\<rparr>"
    using False assms(3) by (auto simp: purge_one_def split: prod.splits)
  have "tenant_step (ac_id a) (st_world s) ?w" using assms(1) by (simp add: tstep_delete_for_owner site_ok_def)
  then show ?thesis
    using assms(1,2) False
    by (auto simp: s' site_ok_def same_for_def tenant_step_def delete_account_def del_where_def accounts_ok_def keys_ok_def
        account_view_def distinct_map_filter filter_filter intro!: filter_cong)
qed (use assms in \<open>auto simp: purge_one_def same_for_def split: prod.splits\<close>)

lemma purge_all_kept:
  assumes "site_ok s" and "\<forall>a \<in> set as. \<not> (is_test_account a \<and> ac_id a = b)" and "fold purge_one as (r, s) = (r', s')"
  shows "site_ok s' \<and> same_for b s s' \<and>
    set (p_accounts (st_portal s')) = {x \<in> set (p_accounts (st_portal s)). \<not> (\<exists>a \<in> set as. is_test_account a \<and> ac_id x = ac_id a \<and> ac_id a \<noteq> 0)}"
  using assms
proof (induction as arbitrary: s r)
  case (Cons a as)
  obtain r1 s1 where p: "purge_one a (r, s) = (r1, s1)" by fastforce
  from purge_one_kept [OF Cons.prems(1) _ p, of b] Cons.prems(2)
  have k: "site_ok s1" "same_for b s s1"
    "p_accounts (st_portal s1) = filter (\<lambda>x. \<not> (is_test_account a \<and> ac_id x = ac_id a \<and> ac_id a \<noteq> 0)) (p_accounts (st_portal s))" by auto
  from Cons.IH [OF k(1), of r1] Cons.prems(2,3) p k(2,3) show ?case by (auto simp: same_for_def)
qed (auto simp: same_for_def)

text \<open>The purge of the test rows removes exactly the accounts whose address starts with a test prefix, and
  everything of every other account stays: its row, keys, agreements, files and templates.\<close>

theorem purge_spares:
  assumes "site_ok s" and "purge_test_rows s = (r, s')"
  shows "set (p_accounts (st_portal s')) = {a \<in> set (p_accounts (st_portal s)). \<not> is_test_account a} \<and>
    (\<forall>b \<in> set (p_accounts (st_portal s')). same_for (ac_id b) s s')"
proof -
  have l: "set (list_accounts (st_portal s)) = set (p_accounts (st_portal s))" by (simp add: list_accounts_def)
  have ids: "ac_id a \<noteq> 0" "ac_id a = ac_id b \<Longrightarrow> a = b"
    if "a \<in> set (p_accounts (st_portal s))" "b \<in> set (p_accounts (st_portal s))" for a b
    using that assms(1) by (auto simp: site_ok_def accounts_ok_def distinct_map dest: inj_onD)
  have f: "fold purge_one (list_accounts (st_portal s)) (([], 0), s) = (r, s')"
    using assms(2) by (simp add: purge_test_rows_def)
  have t: "(\<exists>a \<in> set (p_accounts (st_portal s)). is_test_account a \<and> ac_id x = ac_id a \<and> ac_id a \<noteq> 0) = is_test_account x"
    if "x \<in> set (p_accounts (st_portal s))" for x
    using ids [OF _ that] ids(2) [OF that] that by metis
  have "\<forall>a \<in> set (list_accounts (st_portal s)). \<not> (is_test_account a \<and> ac_id a = 0)"
    using ids(1) l by blast
  from purge_all_kept [OF assms(1) this f]
  have a: "set (p_accounts (st_portal s')) = {a \<in> set (p_accounts (st_portal s)). \<not> is_test_account a}"
    unfolding l using t by blast
  moreover have "same_for (ac_id b) s s'" if b: "b \<in> set (p_accounts (st_portal s'))" for b
  proof -
    have "\<forall>a \<in> set (list_accounts (st_portal s)). \<not> (is_test_account a \<and> ac_id a = ac_id b)"
      using ids(2) l a b by auto
    from purge_all_kept [OF assms(1) this f] show ?thesis by blast
  qed
  ultimately show ?thesis by blast
qed

lemma purge_spares_witness:
  "set (p_accounts (st_portal (snd (purge_test_rows shop)))) = {shop_account} \<and> same_for 3 shop (snd (purge_test_rows shop))"
proof -
  have "p_accounts (st_portal shop) = [shop_account]" by (simp add: shop_def shop_portal_def)
  moreover have "\<not> is_test_account shop_account" "ac_id shop_account = 3" by code_simp+
  ultimately show ?thesis using purge_spares [OF shop_ok surjective_pairing] by auto
qed

end
