(* ===== verification/Dialect.thy ===== *)
theory Dialect
  imports Prelude
begin

text \<open>
  The SQL dialect layer of \<open>sign/db.py\<close>: the rewriting of SQLite statements into those psycopg takes, the
  row object, and what the cursor hands to the driver. The scanner of the code is a \<open>while\<close> loop over
  an index; it is a partial function here, and that it returns on every text is a theorem. Characters are
  Latin-1; the driver itself is not modelled.
\<close>

section \<open>Characters\<close>

text \<open>\<open>str.isalpha\<close> and \<open>str.isalnum\<close>, and the word characters of a placeholder or a regular expression.\<close>

definition sql_alpha :: "char \<Rightarrow> bool" where
  "sql_alpha c = (is_ascii_alpha c \<or> char_code c \<in> {170, 181, 186} \<or>
     (192 \<le> char_code c \<and> char_code c \<noteq> 215 \<and> char_code c \<noteq> 247))"

definition sql_word :: "char \<Rightarrow> bool" where
  "sql_word c = (sql_alpha c \<or> is_digit c \<or> char_code c \<in> {178, 179, 185, 188, 189, 190} \<or> c = CHR ''_'')"

definition name_start :: "char \<Rightarrow> bool" where
  "name_start c = (sql_alpha c \<or> c = CHR ''_'')"

definition up_char :: "char \<Rightarrow> char" where
  "up_char c = (let n = char_code c in if 97 \<le> n \<and> n \<le> 122 then char_of (n - 32) else c)"

text \<open>Upper case as far as the comparison with an ASCII keyword goes.\<close>

definition sql_upper :: "string \<Rightarrow> string" where
  "sql_upper s = map up_char s"

definition trim_right :: "(char \<Rightarrow> bool) \<Rightarrow> string \<Rightarrow> string" where
  "trim_right P s = rev (dropWhile P (rev s))"

section \<open>Placeholders\<close>

abbreviation quote :: char where
  "quote \<equiv> CHR 0x27"

partial_function (option) name_end :: "string \<Rightarrow> nat \<Rightarrow> nat option" where
  "name_end sql j = (if j < length sql \<and> sql_word (sql ! j) then name_end sql (j + 1) else Some j)"

partial_function (option) translate_loop :: "string \<Rightarrow> nat \<Rightarrow> bool \<Rightarrow> string \<Rightarrow> string option" where
  "translate_loop sql i in_str out =
     (if length sql \<le> i then Some out
      else let c = sql ! i in
        if c = quote then translate_loop sql (i + 1) (\<not> in_str) (out @ [c])
        else if in_str then translate_loop sql (i + 1) in_str (out @ (if c = CHR ''%'' then ''%%'' else [c]))
        else if c = CHR ''%'' then translate_loop sql (i + 1) in_str (out @ ''%%'')
        else if c = CHR ''?'' then translate_loop sql (i + 1) in_str (out @ ''%s'')
        else if c = CHR '':'' \<and> i + 1 < length sql \<and> sql ! (i + 1) = CHR '':''
          then translate_loop sql (i + 2) in_str (out @ ''::'')
        else if c = CHR '':'' \<and> i + 1 < length sql \<and> name_start (sql ! (i + 1))
          then Option.bind (name_end sql (i + 1)) (\<lambda>j.
            translate_loop sql j in_str (out @ ''%('' @ take (j - (i + 1)) (drop (i + 1) sql) @ '')s''))
        else translate_loop sql (i + 1) in_str (out @ [c]))"

declare name_end.simps [code] translate_loop.simps [code]

definition translate_sql :: "string \<Rightarrow> string option" where
  "translate_sql sql = translate_loop sql 0 False []"

section \<open>Types of the DDL\<close>

definition match_word :: "string \<Rightarrow> string \<Rightarrow> string option" where
  "match_word w s = (if sql_upper (take (length w) s) = w then Some (drop (length w) s) else None)"

text \<open>Words with white space between them, case ignored, as \<open>A\s+B\s+C\<close>: what is left after the match.\<close>

fun match_words :: "string list \<Rightarrow> string \<Rightarrow> string option" where
  "match_words [] s = Some s"
| "match_words [w] s = match_word w s"
| "match_words (w # ws) s =
     (case match_word w s of
        None \<Rightarrow> None
      | Some r \<Rightarrow> if takeWhile is_space r = [] then None else match_words ws (dropWhile is_space r))"

lemma match_word_length: "match_word w s = Some r \<Longrightarrow> length s = length w + length r"
  by (auto simp: match_word_def sql_upper_def split: if_splits dest!: arg_cong [where f = length])

lemma match_words_length: "match_words (w # ws) s = Some r \<Longrightarrow> length w + length r \<le> length s"
proof (induction "w # ws" s arbitrary: w ws rule: match_words.induct)
  case (3 w v vs s)
  then obtain q where q: "match_word w s = Some q" "takeWhile is_space q \<noteq> []" "match_words (v # vs) (dropWhile is_space q) = Some r"
    by (auto split: option.splits if_splits)
  have "length (dropWhile is_space q) \<le> length q" by (rule length_dropWhile_le)
  then show ?case using 3(1) [OF q(1,2) q(3)] match_word_length [OF q(1)] by simp
qed (simp add: match_word_length)

text \<open>\<open>re.sub\<close> of the identity column, from left to right.\<close>

definition AUTOINC :: "string list" where
  "AUTOINC = [''INTEGER'', ''PRIMARY'', ''KEY'', ''AUTOINCREMENT'']"

function sub_autoinc :: "string \<Rightarrow> string" where
  "sub_autoinc [] = []"
| "sub_autoinc (c # s) =
     (case match_words AUTOINC (c # s) of
        Some r \<Rightarrow> ''INTEGER GENERATED BY DEFAULT AS IDENTITY PRIMARY KEY'' @ sub_autoinc r
      | None \<Rightarrow> c # sub_autoinc s)"
  by pat_completeness auto
termination
  by (relation "measure length") (auto simp: AUTOINC_def simp del: match_words.simps dest!: match_words_length)

text \<open>\<open>re.sub\<close> of a whole word, case ignored; \<open>prev\<close>: the character before is a word character.\<close>

function sub_word :: "string \<Rightarrow> string \<Rightarrow> bool \<Rightarrow> string \<Rightarrow> string" where
  "sub_word w new prev [] = []"
| "sub_word w new prev (c # s) =
     (case (if prev \<or> w = [] then None else match_word w (c # s)) of
        None \<Rightarrow> c # sub_word w new (sql_word c) s
      | Some r \<Rightarrow> if r \<noteq> [] \<and> sql_word (hd r) then c # sub_word w new (sql_word c) s else new @ sub_word w new True r)"
  by pat_completeness auto
termination by (relation "measure (length \<circ> snd \<circ> snd \<circ> snd)") (auto split: if_splits dest!: match_word_length)

definition translate_ddl :: "string \<Rightarrow> string" where
  "translate_ddl sql = sub_word ''BLOB'' ''bytea'' False (sub_word ''REAL'' ''double precision'' False (sub_autoinc sql))"

definition is_ddl :: "string \<Rightarrow> bool" where
  "is_ddl sql =
     (let h = sql_upper (take 6 (dropWhile is_space sql)) in startswith h ''CREATE'' \<or> startswith h ''ALTER'')"

section \<open>Statements\<close>

fun has_text :: "string \<Rightarrow> string \<Rightarrow> bool" where
  "has_text [] w = (w = [])"
| "has_text (c # s) w = (startswith (c # s) w \<or> has_text s w)"

text \<open>The whole rewriting; an unsupported insert raises. \<open>None\<close> would be a scanner that does not return.\<close>

definition to_pg :: "string \<Rightarrow> (py_exc + string) option" where
  "to_pg sql =
     (let body = dropWhile is_space sql; go = (\<lambda>q. map_option Inr (translate_sql (if is_ddl q then translate_ddl q else q))) in
      case match_words [''INSERT'', ''OR'', ''IGNORE''] body of
        Some r \<Rightarrow> (let q = ''INSERT'' @ r in
          go (if has_text (sql_upper q) ''ON CONFLICT'' then q
              else trim_right (\<lambda>c. c = CHR '';'') (trim_right is_space q) @ '' ON CONFLICT DO NOTHING''))
      | None \<Rightarrow>
          if match_words [''INSERT'', ''OR'', ''REPLACE''] body \<noteq> None then Some (Inl OtherError) else go sql)"

text \<open>The statement \<open>insert_returning\<close> runs on Postgres.\<close>

definition returning_sql :: "string \<Rightarrow> string" where
  "returning_sql sql = trim_right (\<lambda>c. c = CHR '';'') (trim_right is_space sql) @ '' RETURNING id''"

text \<open>What the cursor hands to the driver: nothing for a \<open>BEGIN\<close>; a sequence that is empty as no parameters.\<close>

datatype 'v sql_params = SeqParams "'v list" | NamedParams "(string \<times> 'v) list" | NoParams

datatype 'v pg_call = PgRaise py_exc | PgSkip | PgRun string "'v sql_params"

definition pg_execute :: "string \<Rightarrow> 'v sql_params \<Rightarrow> 'v pg_call option" where
  "pg_execute sql params =
     (let s = dropWhile is_space sql in
      if s = [] then Some (PgRaise IndexError)
      else if sql_upper (takeWhile (\<lambda>c. \<not> is_space c) s) = ''BEGIN'' then Some PgSkip
      else map_option (\<lambda>r. case r of Inl x \<Rightarrow> PgRaise x
             | Inr q \<Rightarrow> PgRun q (case params of SeqParams [] \<Rightarrow> NoParams | _ \<Rightarrow> params)) (to_pg sql))"

section \<open>Rows\<close>

text \<open>\<open>_Row\<close>: by position (from the end, when negative) or by column; the last of two columns of one name wins.\<close>

record 'v hybrid_row =
  r_cols :: "string list"
  r_vals :: "'v list"

definition col_index :: "string list \<Rightarrow> string \<Rightarrow> nat option" where
  "col_index cols c = map_of (rev (zip cols [0..<length cols])) c"

definition py_nth :: "'v list \<Rightarrow> int \<Rightarrow> py_exc + 'v" where
  "py_nth xs i =
     (let n = int (length xs); k = (if i < 0 then i + n else i)
      in if 0 \<le> k \<and> k < n then Inr (xs ! nat k) else Inl IndexError)"

definition row_at :: "'v hybrid_row \<Rightarrow> int \<Rightarrow> py_exc + 'v" where
  "row_at r i = py_nth (r_vals r) i"

definition row_col :: "'v hybrid_row \<Rightarrow> string \<Rightarrow> py_exc + 'v" where
  "row_col r c = (case col_index (r_cols r) c of None \<Rightarrow> Inl KeyError | Some i \<Rightarrow> py_nth (r_vals r) (int i))"

definition row_get :: "'v hybrid_row \<Rightarrow> string \<Rightarrow> 'v \<Rightarrow> py_exc + 'v" where
  "row_get r c d = (case col_index (r_cols r) c of None \<Rightarrow> Inr d | Some i \<Rightarrow> py_nth (r_vals r) (int i))"

section \<open>What the translation means\<close>

text \<open>A statement as SQLite reads it: text and parameters. Quoted text holds no parameter.\<close>

datatype sql_token = Lit char | Positional | Named string

function sql_tokens :: "bool \<Rightarrow> string \<Rightarrow> sql_token list" where
  "sql_tokens q [] = []"
| "sql_tokens q (c # s) =
     (if c = quote then Lit c # sql_tokens (\<not> q) s
      else if q then Lit c # sql_tokens q s
      else if c = CHR ''?'' then Positional # sql_tokens q s
      else if c = CHR '':'' \<and> s \<noteq> [] \<and> hd s = CHR '':'' then Lit c # Lit c # sql_tokens q (tl s)
      else if c = CHR '':'' \<and> s \<noteq> [] \<and> name_start (hd s)
        then Named (takeWhile sql_word s) # sql_tokens q (dropWhile sql_word s)
      else Lit c # sql_tokens q s)"
  by pat_completeness auto
termination
  by (relation "measure (length \<circ> snd)") (auto simp: less_Suc_eq_le length_dropWhile_le)

fun sqlite_text :: "sql_token \<Rightarrow> string" where
  "sqlite_text (Lit c) = [c]"
| "sqlite_text Positional = ''?''"
| "sqlite_text (Named n) = CHR '':'' # n"

fun pg_text :: "sql_token \<Rightarrow> string" where
  "pg_text (Lit c) = (if c = CHR ''%'' then ''%%'' else [c])"
| "pg_text Positional = ''%s''"
| "pg_text (Named n) = ''%('' @ n @ '')s''"

lemma sql_tokens_text: "concat (map sqlite_text (sql_tokens q s)) = s"
  by (induction q s rule: sql_tokens.induct) (auto simp: neq_Nil_conv)

lemma name_end_step:
  "j \<le> length sql \<Longrightarrow> name_end sql j = Some (j + length (takeWhile sql_word (drop j sql)))"
proof (induction "length sql - j" arbitrary: j)
  case 0
  then show ?case by (subst name_end.simps) simp
next
  case (Suc k)
  then have j: "j < length sql" by simp
  then have d: "drop j sql = sql ! j # drop (j + 1) sql" by (simp add: Cons_nth_drop_Suc)
  show ?case using Suc j by (subst name_end.simps) (simp add: d)
qed

lemma translate_loop_tokens:
  "i \<le> length sql \<Longrightarrow> translate_loop sql i q out = Some (out @ concat (map pg_text (sql_tokens q (drop i sql))))"
proof (induction "length sql - i" arbitrary: i q out rule: less_induct)
  case less
  show ?case
  proof (cases "i < length sql")
    case False
    then show ?thesis by (subst translate_loop.simps) simp
  next
    case True
    let ?c = "sql ! i" and ?s = "drop (i + 1) sql"
    have d: "drop i sql = ?c # ?s" using True by (simp add: Cons_nth_drop_Suc)
    have s: "?s \<noteq> [] \<longleftrightarrow> i + 1 < length sql" "i + 1 < length sql \<Longrightarrow> hd ?s = sql ! (i + 1)"
      by (auto simp: hd_drop_conv_nth)
    have t: "tl ?s = drop (i + 2) sql" by (metis Suc_eq_plus1 add_2_eq_Suc' drop_Suc tl_drop)
    have n: "take (length (takeWhile sql_word ?s)) ?s = takeWhile sql_word ?s"
      "drop (length (takeWhile sql_word ?s)) ?s = dropWhile sql_word ?s"
      by (rule takeWhile_eq_take [symmetric], rule dropWhile_eq_drop [symmetric])
    have l: "i + 1 + length (takeWhile sql_word ?s) \<le> length sql"
      using length_takeWhile_le [of sql_word ?s] True by simp
    have e: "name_end sql (i + 1) = Some (i + 1 + length (takeWhile sql_word ?s))"
      using True by (intro name_end_step) simp
    have step: "translate_loop sql k p o1 = Some (o1 @ concat (map pg_text (sql_tokens p (drop k sql))))"
      if "i < k" "k \<le> length sql" for k p o1
      using less(1) [of k] that True by simp
    have r: "take (i + 1 + length (takeWhile sql_word ?s) - (i + 1)) ?s = takeWhile sql_word ?s"
      "drop (i + 1 + length (takeWhile sql_word ?s)) sql = dropWhile sql_word ?s"
      using n by (simp_all add: add.commute)
    note go = step [of "i + 1"] step [of "i + 2"] step [of "i + 1 + length (takeWhile sql_word ?s)", OF _ l]
    note unf = translate_loop.simps [of sql i q out, unfolded Let_def]
    consider "?c = quote" | "?c \<noteq> quote" "q" | "?c \<noteq> quote" "\<not> q" "?c \<noteq> CHR '':''" |
        "\<not> q" "?c = CHR '':''" "?s \<noteq> []" "hd ?s = CHR '':''" |
        "\<not> q" "?c = CHR '':''" "\<not> (?s \<noteq> [] \<and> hd ?s = CHR '':'')" "?s \<noteq> []" "name_start (hd ?s)" |
        "\<not> q" "?c = CHR '':''" "\<not> (?s \<noteq> [] \<and> hd ?s = CHR '':'')" "\<not> (?s \<noteq> [] \<and> name_start (hd ?s))"
      by blast
    then show ?thesis
    proof cases
      case 1
      then show ?thesis using True go(1) unfolding unf d by simp
    next
      case 2
      then show ?thesis using True go(1) unfolding unf d by simp
    next
      case 3
      then show ?thesis using True go(1) unfolding unf d by simp
    next
      case 4
      have c: "sql ! (i + 1) = CHR '':''" "i + 1 < length sql" using 4(3,4) s by simp_all
      have "sql_tokens q (?c # ?s) = Lit ?c # Lit ?c # sql_tokens q (drop (i + 2) sql)"
        using 4 t by (simp only: sql_tokens.simps) simp
      then show ?thesis using True go(2) c 4(1,2) unfolding unf d by simp
    next
      case 5
      then show ?thesis using True go(3) s unfolding unf d e by (simp add: r n del: One_nat_def)
    next
      case 6
      have c: "\<not> (i + 1 < length sql \<and> sql ! (i + 1) = CHR '':'')" "\<not> (i + 1 < length sql \<and> name_start (sql ! (i + 1)))"
        using 6(3,4) s by auto
      have "sql_tokens q (?c # ?s) = Lit ?c # sql_tokens q ?s"
        unfolding sql_tokens.simps(2) using 6 by (simp only: if_False simp_thms) simp
      then show ?thesis using True go(1) 6(1,2) unfolding unf d by (simp only: c if_False simp_thms) simp
    qed
  qed
qed

section \<open>Properties\<close>


text \<open>The driver's text read back.\<close>

function pg_tokens :: "string \<Rightarrow> sql_token list" where
  "pg_tokens [] = []"
| "pg_tokens (c # s) =
     (if c \<noteq> CHR ''%'' \<or> s = [] then Lit c # pg_tokens s
      else if hd s = CHR ''s'' then Positional # pg_tokens (tl s)
      else if hd s = CHR ''('' then Named (takeWhile (\<lambda>c. c \<noteq> CHR '')'') (tl s)) # pg_tokens (drop 2 (dropWhile (\<lambda>c. c \<noteq> CHR '')'') (tl s)))
      else Lit c # pg_tokens (tl s))"
  by pat_completeness auto
termination
proof (relation "measure length", goal_cases)
  case (4 c s)
  have "length (drop 2 (dropWhile (\<lambda>c. c \<noteq> CHR '')'') (tl s))) \<le> length (tl s)"
    using length_dropWhile_le [of "\<lambda>c. c \<noteq> CHR '')''" "tl s"] by simp
  then show ?case using 4 by (cases s) auto
qed auto

fun token_ok :: "sql_token \<Rightarrow> bool" where
  "token_ok (Named n) = (CHR '')'' \<notin> set n)"
| "token_ok t = True"

lemma sql_word_paren: "CHR '')'' \<notin> set (takeWhile sql_word s)"
proof -
  have "\<not> sql_word (CHR '')'')" by code_simp
  then show ?thesis by (metis set_takeWhileD)
qed

lemma sql_tokens_ok: "t \<in> set (sql_tokens q s) \<Longrightarrow> token_ok t"
  by (induction q s arbitrary: t rule: sql_tokens.induct)
    (auto split: if_splits simp: sql_word_paren)

lemma pg_tokens_text: "(\<And>t. t \<in> set ts \<Longrightarrow> token_ok t) \<Longrightarrow> pg_tokens (concat (map pg_text ts)) = ts"
proof (induction ts)
  case (Cons t ts)
  show ?case
  proof (cases t)
    case (Named n)
    have n: "CHR '')'' \<notin> set n" using Cons.prems [of t] Named by simp
    then have "takeWhile (\<lambda>c. c \<noteq> CHR '')'') (n @ CHR '')'' # r) = n" "dropWhile (\<lambda>c. c \<noteq> CHR '')'') (n @ CHR '')'' # r) = CHR '')'' # r" for r
      by (induction n) auto
    then show ?thesis using Cons Named by simp
  qed (use Cons in auto)
qed simp

text \<open>Nothing is lost in the translation: two statements with the same translation are the same, and in
  particular have the same parameters in the same order.\<close>

theorem translate_injective: "(translate_sql a = translate_sql b) = (a = b)"
proof
  assume "translate_sql a = translate_sql b"
  then have "concat (map pg_text (sql_tokens False a)) = concat (map pg_text (sql_tokens False b))"
    by (simp add: translate_sql_def translate_loop_tokens)
  then have "sql_tokens False a = sql_tokens False b"
    using pg_tokens_text [of "sql_tokens False a"] pg_tokens_text [of "sql_tokens False b"] sql_tokens_ok by metis
  then show "a = b" by (metis sql_tokens_text)
qed simp

text \<open>Quoted text is not left alone, as the comment says: its percent signs are doubled.\<close>

lemma quoted_percent_doubled: "translate_sql [quote, CHR ''%'', quote] = Some [quote, CHR ''%'', CHR ''%'', quote]"
  by (simp add: translate_sql_def translate_loop_tokens)

lemma to_pg_returns: "to_pg sql \<noteq> None"
  by (simp add: to_pg_def translate_sql_def translate_loop_tokens Let_def split: option.split)

text \<open>A statement without parameters is handed over with its percent signs doubled, and no parameters for the driver
  to undouble them with.\<close>

lemma bare_percent_doubled:
  "pg_execute ''SELECT 5%2'' (SeqParams [] :: int sql_params) = Some (PgRun ''SELECT 5%%2'' NoParams)"
  by code_simp

end
