(* ===== verification/Client.thy ===== *)
theory Client
  imports Api
begin

text \<open>
  The Python client (\<open>sdks/lifted_sign.py\<close>): its transport, the iteration over all agreements and the wait for
  completion. The HTTP server is a function of the request and a state; what the client relies on of the
  standard library (\<open>json.loads\<close>, \<open>time.sleep\<close>) is a parameter. The loops are partial functions, and
  that they return is what the properties state: the iteration is composed with the listing route of the
  server, the wait with a clock that a sleep moves on.
\<close>

section \<open>Transport\<close>

datatype http_result = HttpOk bytes | HttpError int bytes | NoReply

record sdk_req =
  sr_method :: string
  sr_url :: string
  sr_headers :: "(string \<times> string) list"
  sr_data :: "bytes option"

record client =
  cl_key :: string
  cl_base :: string
  cl_loads :: "bytes \<Rightarrow> json option"
  cl_dumps :: "json \<Rightarrow> bytes"
  cl_str :: "json \<Rightarrow> string"

text \<open>\<open>SdkError\<close> is a \<open>LiftedSignError\<close> with its status and body, \<open>SdkRaise\<close> any other exception.\<close>

datatype 'a sdk_result = SdkOk 'a | SdkError "int option" json | SdkRaise

type_synonym 's server = "sdk_req \<Rightarrow> 's \<Rightarrow> http_result \<times> 's"

definition new_client :: "(bytes \<Rightarrow> json option) \<Rightarrow> (json \<Rightarrow> bytes) \<Rightarrow> (json \<Rightarrow> string) \<Rightarrow> string option \<Rightarrow> string option \<Rightarrow> string \<Rightarrow> client option" where
  "new_client loads dumps str key env_key base =
     (let k = (case key of Some t \<Rightarrow> nonblank t (coalesce env_key []) | None \<Rightarrow> coalesce env_key []) in
      if k = [] then None
      else Some \<lparr>cl_key = k, cl_base = rev (dropWhile (\<lambda>c. c = CHR ''/'') (rev base)), cl_loads = loads, cl_dumps = dumps, cl_str = str\<rparr>)"

definition http_request :: "client \<Rightarrow> string \<Rightarrow> string \<Rightarrow> bytes option \<Rightarrow> string \<Rightarrow> sdk_req" where
  "http_request c meth path body ctype =
     \<lparr>sr_method = meth, sr_url = cl_base c @ path,
      sr_headers = [(''Authorization'', ''Bearer '' @ cl_key c), (''Accept'', ''application/json'')] @
        (if ctype = [] then [] else [(''Content-Type'', ctype)]), sr_data = body\<rparr>"

definition error_of :: "client \<Rightarrow> int \<Rightarrow> bytes \<Rightarrow> 'a sdk_result" where
  "error_of c code detail = SdkError (Some code) (coalesce (cl_loads c detail) (JStr detail))"

definition says_not_ok :: "json \<Rightarrow> bool" where
  "says_not_ok j = (case j of JObj d \<Rightarrow> jget d ''ok'' = JBool False | _ \<Rightarrow> False)"

definition request :: "client \<Rightarrow> 's server \<Rightarrow> string \<Rightarrow> string \<Rightarrow> bytes option \<Rightarrow> string \<Rightarrow> 's \<Rightarrow> json sdk_result \<times> 's" where
  "request c srv meth path body ctype s =
     (case srv (http_request c meth path body ctype) s of
        (NoReply, s1) \<Rightarrow> (SdkRaise, s1)
      | (HttpError code detail, s1) \<Rightarrow> (error_of c code detail, s1)
      | (HttpOk payload, s1) \<Rightarrow>
          (case (if payload = [] then Some (JObj []) else cl_loads c payload) of
             None \<Rightarrow> (SdkRaise, s1)
           | Some j \<Rightarrow> if says_not_ok j then (SdkError (Some 200) j, s1) else (SdkOk j, s1)))"

text \<open>With \<open>raw=True\<close> the bytes come back unread.\<close>

definition request_raw :: "client \<Rightarrow> 's server \<Rightarrow> string \<Rightarrow> string \<Rightarrow> 's \<Rightarrow> bytes sdk_result \<times> 's" where
  "request_raw c srv meth path s =
     (case srv (http_request c meth path None []) s of
        (NoReply, s1) \<Rightarrow> (SdkRaise, s1)
      | (HttpError code detail, s1) \<Rightarrow> (error_of c code detail, s1)
      | (HttpOk payload, s1) \<Rightarrow> (SdkOk payload, s1))"

definition request_json :: "client \<Rightarrow> 's server \<Rightarrow> string \<Rightarrow> string \<Rightarrow> json \<Rightarrow> 's \<Rightarrow> json sdk_result \<times> 's" where
  "request_json c srv meth path payload = request c srv meth path (Some (cl_dumps c payload)) ''application/json''"

section \<open>Endpoints\<close>

definition AGREEMENTS :: string where "AGREEMENTS = ''/api/mysign/agreements''"

definition agr_url :: "int \<Rightarrow> string \<Rightarrow> string" where
  "agr_url aid rest = AGREEMENTS @ ''/'' @ py_str aid @ rest"

definition list_url :: "int \<Rightarrow> int \<Rightarrow> string" where
  "list_url l o1 = AGREEMENTS @ ''?limit='' @ py_str l @ ''&offset='' @ py_str o1"

definition sdk_list :: "client \<Rightarrow> 's server \<Rightarrow> int \<Rightarrow> int \<Rightarrow> 's \<Rightarrow> json sdk_result \<times> 's" where
  "sdk_list c srv l o1 = request c srv ''GET'' (list_url l o1) None []"

definition sdk_get :: "client \<Rightarrow> 's server \<Rightarrow> int \<Rightarrow> 's \<Rightarrow> json sdk_result \<times> 's" where
  "sdk_get c srv aid = request c srv ''GET'' (agr_url aid []) None []"

definition sdk_delete :: "client \<Rightarrow> 's server \<Rightarrow> int \<Rightarrow> 's \<Rightarrow> json sdk_result \<times> 's" where
  "sdk_delete c srv aid = request c srv ''DELETE'' (agr_url aid []) None []"

definition sdk_add_signers :: "client \<Rightarrow> 's server \<Rightarrow> int \<Rightarrow> json \<Rightarrow> 's \<Rightarrow> json sdk_result \<times> 's" where
  "sdk_add_signers c srv aid signers = request_json c srv ''POST'' (agr_url aid ''/signers'') (JObj [(''signers'', signers)])"

definition sdk_place_fields :: "client \<Rightarrow> 's server \<Rightarrow> int \<Rightarrow> json \<Rightarrow> 's \<Rightarrow> json sdk_result \<times> 's" where
  "sdk_place_fields c srv aid specs = request_json c srv ''POST'' (agr_url aid ''/fields'') (JObj [(''fields'', specs)])"

definition sdk_send :: "client \<Rightarrow> 's server \<Rightarrow> int \<Rightarrow> 's \<Rightarrow> json sdk_result \<times> 's" where
  "sdk_send c srv aid = request_json c srv ''POST'' (agr_url aid ''/send'') (JObj [])"

definition sdk_remind :: "client \<Rightarrow> 's server \<Rightarrow> int \<Rightarrow> 's \<Rightarrow> json sdk_result \<times> 's" where
  "sdk_remind c srv aid = request_json c srv ''POST'' (agr_url aid ''/remind'') (JObj [])"

definition sdk_void :: "client \<Rightarrow> 's server \<Rightarrow> int \<Rightarrow> string \<Rightarrow> 's \<Rightarrow> json sdk_result \<times> 's" where
  "sdk_void c srv aid reason = request_json c srv ''POST'' (agr_url aid ''/void'') (JObj [(''reason'', JStr reason)])"

definition sdk_account :: "client \<Rightarrow> 's server \<Rightarrow> 's \<Rightarrow> json sdk_result \<times> 's" where
  "sdk_account c srv = request c srv ''GET'' ''/api/mysign/account'' None []"

text \<open>The bytes \<open>download\<close> and \<open>certificate\<close> write to the path they are given.\<close>

definition sdk_download :: "client \<Rightarrow> 's server \<Rightarrow> int \<Rightarrow> 's \<Rightarrow> bytes sdk_result \<times> 's" where
  "sdk_download c srv aid = request_raw c srv ''GET'' (agr_url aid ''/download'')"

definition sdk_certificate :: "client \<Rightarrow> 's server \<Rightarrow> int \<Rightarrow> 's \<Rightarrow> bytes sdk_result \<times> 's" where
  "sdk_certificate c srv aid = request_raw c srv ''GET'' (agr_url aid ''/certificate'')"

text \<open>The upload: text fields, then the file, between boundary lines.\<close>

definition crlf :: string where "crlf = [CHR 0x0D, CHR 0x0A]"
definition dquote :: string where "dquote = [CHR 0x22]"

definition multipart :: "string \<Rightarrow> (string \<times> string) list \<Rightarrow> string \<Rightarrow> string \<Rightarrow> bytes \<Rightarrow> string \<Rightarrow> bytes \<times> string" where
  "multipart rnd fs file_field filename data ctype =
     (let b = ''----LiftedSign'' @ rnd in
      (concat (map (\<lambda>(n, v). ''--'' @ b @ crlf @ ''Content-Disposition: form-data; name='' @ dquote @ n @ dquote @ crlf @ crlf @ v @ crlf) fs) @
       ''--'' @ b @ crlf @ ''Content-Disposition: form-data; name='' @ dquote @ file_field @ dquote @ ''; filename='' @ dquote @ filename @ dquote @ crlf @
       ''Content-Type: '' @ ctype @ crlf @ crlf @ data @ crlf @ ''--'' @ b @ ''--'' @ crlf,
       ''multipart/form-data; boundary='' @ b))"

definition sdk_create :: "client \<Rightarrow> 's server \<Rightarrow> string \<Rightarrow> string \<Rightarrow> bytes \<Rightarrow> string option \<Rightarrow> string option \<Rightarrow> 's \<Rightarrow> json sdk_result \<times> 's" where
  "sdk_create c srv rnd basename pdf mime name =
     (case multipart rnd [(''name'', nonblank (coalesce name []) basename)] ''file'' basename pdf (nonblank (coalesce mime []) ''application/pdf'') of
        (body, ctype) \<Rightarrow> request c srv ''POST'' AGREEMENTS (Some body) ctype)"

section \<open>All agreements\<close>

text \<open>What a \<open>for\<close> loop walks over; \<open>None\<close> raises.\<close>

definition walked :: "json \<Rightarrow> json list option" where
  "walked j =
     (case j of JList js \<Rightarrow> Some js | JStr t \<Rightarrow> Some (map (\<lambda>c. JStr [c]) t) | JObj d \<Rightarrow> Some (map (JStr \<circ> fst) d) | _ \<Rightarrow> None)"

partial_function (option) iter_loop ::
  "client \<Rightarrow> 's server \<Rightarrow> int \<Rightarrow> int \<Rightarrow> json list \<Rightarrow> 's \<Rightarrow> (json list sdk_result \<times> 's) option" where
  "iter_loop c srv sz off acc s =
     (case sdk_list c srv sz off s of
        (SdkOk (JObj d), s1) \<Rightarrow>
          (case walked (json_or (jget d ''agreements'') (JList [])) of
             None \<Rightarrow> Some (SdkRaise, s1)
           | Some items \<Rightarrow>
               if \<not> truthy (jget d ''has_more'') \<or> items = [] then Some (SdkOk (acc @ items), s1)
               else iter_loop c srv sz (off + int (length items)) (acc @ items) s1)
      | (SdkOk j, s1) \<Rightarrow> Some (SdkRaise, s1)
      | (SdkError st b, s1) \<Rightarrow> Some (SdkError st b, s1)
      | (SdkRaise, s1) \<Rightarrow> Some (SdkRaise, s1))"

definition iter_agreements :: "client \<Rightarrow> 's server \<Rightarrow> int \<Rightarrow> 's \<Rightarrow> (json list sdk_result \<times> 's) option" where
  "iter_agreements c srv sz s = iter_loop c srv sz 0 [] s"

section \<open>Waiting\<close>

datatype wait_result =
  WaitDone dict | WaitFailed string dict | WaitTimeout | WaitError "int option" json | WaitRaise

definition FAILED_STATES :: "string list" where
  "FAILED_STATES = [''voided'', ''declined'', ''expired'', ''cancelled'']"

text \<open>\<open>str(agreement.get("status", "")).lower()\<close>.\<close>

definition status_of :: "client \<Rightarrow> dict \<Rightarrow> string" where
  "status_of c d =
     py_lower (case map_of d ''status'' of None \<Rightarrow> [] | Some (JStr t) \<Rightarrow> t | Some j \<Rightarrow> cl_str c j)"

text \<open>The monotonic clock is read off the state, a sleep moves the state on; a negative sleep raises.\<close>

partial_function (option) wait_loop ::
  "client \<Rightarrow> 's server \<Rightarrow> ('s \<Rightarrow> real) \<Rightarrow> (real \<Rightarrow> 's \<Rightarrow> 's) \<Rightarrow> int \<Rightarrow> real \<Rightarrow> real \<Rightarrow> json sdk_result \<times> 's \<Rightarrow> (wait_result \<times> 's) option" where
  "wait_loop c srv clk sleep aid interval deadline r =
     (case r of
        (SdkOk (JObj d), s) \<Rightarrow>
          (let st = status_of c d in
           if st = ''completed'' then Some (WaitDone d, s)
           else if st \<in> set FAILED_STATES then Some (WaitFailed st d, s)
           else if deadline \<le> clk s then Some (WaitTimeout, s)
           else let nap = min interval (deadline - clk s) in
             if nap < 0 then Some (WaitRaise, s)
             else wait_loop c srv clk sleep aid interval deadline (sdk_get c srv aid (sleep nap s)))
      | (SdkOk j, s) \<Rightarrow> Some (WaitRaise, s)
      | (SdkError code b, s) \<Rightarrow> Some (WaitError code b, s)
      | (SdkRaise, s) \<Rightarrow> Some (WaitRaise, s))"

definition wait_for_completion ::
  "client \<Rightarrow> 's server \<Rightarrow> ('s \<Rightarrow> real) \<Rightarrow> (real \<Rightarrow> 's \<Rightarrow> 's) \<Rightarrow> int \<Rightarrow> real \<Rightarrow> real \<Rightarrow> 's \<Rightarrow> (wait_result \<times> 's) option" where
  "wait_for_completion c srv clk sleep aid timeout interval s =
     wait_loop c srv clk sleep aid interval (clk s + timeout) (sdk_get c srv aid s)"

section \<open>The client returns\<close>

lemma wait_loop_returns:
  assumes "0 < interval" and "\<And>q s. clk s \<le> clk (snd (srv q s))" and "\<And>d s. 0 \<le> d \<Longrightarrow> clk s + d \<le> clk (sleep d s)"
    and "deadline - clk (snd r) \<le> real n * interval"
  shows "\<exists>out s'. wait_loop c srv clk sleep aid interval deadline r = Some (out, s') \<and>
    (case out of WaitDone d \<Rightarrow> status_of c d = ''completed'' | WaitFailed st d \<Rightarrow> st = status_of c d \<and> st \<in> set FAILED_STATES
     | WaitTimeout \<Rightarrow> deadline \<le> clk s' | _ \<Rightarrow> True)"
  using assms(4)
proof (induction n arbitrary: r)
  case 0
  obtain a s where r: "r = (a, s)" by fastforce
  then have "deadline \<le> clk s" using 0 by simp
  then show ?case
    by (subst wait_loop.simps) (auto simp: r Let_def split: sdk_result.split json.split)
next
  case (Suc n)
  obtain a s where r: "r = (a, s)" by fastforce
  let ?nap = "min interval (deadline - clk s)"
  let ?r = "sdk_get c srv aid (sleep ?nap s)"
  have m: "clk t \<le> clk (snd (sdk_get c srv aid t))" for t
    using assms(2) [of t "http_request c ''GET'' (agr_url aid []) None []"]
    by (auto simp: sdk_get_def request_def error_of_def split: prod.split http_result.split option.split)
  have go: "deadline - clk (snd ?r) \<le> real n * interval" if "\<not> deadline \<le> clk s"
  proof -
    have "clk s + ?nap \<le> clk (snd ?r)" using assms(3) [of ?nap s] m [of "sleep ?nap s"] that assms(1) by simp
    moreover have "deadline - (clk s + ?nap) \<le> real n * interval"
      using Suc.prems assms(1) by (simp add: r algebra_simps min_def)
    ultimately show ?thesis by simp
  qed
  show ?case
    using Suc.IH [OF go] assms(1)
    by (subst wait_loop.simps) (auto simp: r Let_def split: sdk_result.split json.split)
qed

text \<open>Property C33. Waiting ends: with a positive interval, a clock that no call turns back and a sleep that lasts as long as
  asked, the wait returns whatever the server answers, an agreement it returns is completed, a failed one has a
  failed status, and it gives up only after the timeout.\<close>

theorem wait_returns:
  assumes "0 < interval" and "\<And>q s. clk s \<le> clk (snd (srv q s))" and "\<And>d s. 0 \<le> d \<Longrightarrow> clk s + d \<le> clk (sleep d s)"
  shows "\<exists>out s'. wait_for_completion c srv clk sleep aid timeout interval s = Some (out, s') \<and>
    (case out of WaitDone d \<Rightarrow> status_of c d = ''completed'' | WaitFailed st d \<Rightarrow> st = status_of c d \<and> st \<in> set FAILED_STATES
     | WaitTimeout \<Rightarrow> clk s + timeout \<le> clk s' | _ \<Rightarrow> True)"
proof -
  obtain n :: nat where "clk s + timeout - clk (snd (sdk_get c srv aid s)) \<le> real n * interval"
    using ex_less_of_nat_mult [OF assms(1)] less_imp_le by blast
  from wait_loop_returns [where srv = srv and clk = clk and sleep = sleep, OF assms this]
  show ?thesis by (simp add: wait_for_completion_def)
qed

definition demo_client :: client where
  "demo_client = \<lparr>cl_key = ''sk_live_x'', cl_base = ''https://x.io'', cl_loads = (\<lambda>b. Some (JObj [(''status'', JStr b)])),
     cl_dumps = (\<lambda>j. ''{}''), cl_str = (\<lambda>j. [])\<rparr>"

text \<open>A server that answers \<open>sent\<close> for a minute and \<open>completed\<close> from then on.\<close>

definition minute_server :: "real server" where
  "minute_server q t = (HttpOk (if t < 60 then ''sent'' else ''completed''), t)"

lemma wait_returns_witness:
  "\<exists>out s'. wait_for_completion demo_client minute_server (\<lambda>t. t) (\<lambda>d t. t + d) 1 600 5 0 = Some (out, s') \<and>
     (case out of WaitDone d \<Rightarrow> status_of demo_client d = ''completed'' | _ \<Rightarrow> True)"
proof -
  obtain out s' where "wait_for_completion demo_client minute_server (\<lambda>t. t) (\<lambda>d t. t + d) 1 600 5 0 = Some (out, s') \<and>
      (case out of WaitDone d \<Rightarrow> status_of demo_client d = ''completed'' | WaitFailed st d \<Rightarrow> st = status_of demo_client d \<and> st \<in> set FAILED_STATES
       | WaitTimeout \<Rightarrow> 0 + 600 \<le> s' | _ \<Rightarrow> True)"
    using wait_returns [of 5 "\<lambda>t. t" minute_server "\<lambda>d t. t + d" demo_client 1 600 0] by (auto simp: minute_server_def)
  then show ?thesis by (intro exI [of _ out] exI [of _ s']) (auto split: wait_result.split)
qed

section \<open>The client over the server\<close>

text \<open>What the listing route answers, as the framework sends it: \<open>row\<close> renders one agreement.\<close>

definition list_json :: "(agr_summary \<Rightarrow> json) \<Rightarrow> agr_summary list \<Rightarrow> nat \<Rightarrow> int \<Rightarrow> int \<Rightarrow> bool \<Rightarrow> json" where
  "list_json row out tot off lmt hm =
     JObj [(''agreements'', JList (map row out)), (''total'', JInt (int tot)), (''offset'', JInt off),
       (''limit'', JInt lmt), (''has_more'', JBool hm)]"

definition list_answer :: "(json \<Rightarrow> bytes) \<Rightarrow> (agr_summary \<Rightarrow> json) \<Rightarrow> api_answer \<Rightarrow> http_result" where
  "list_answer dumps row r =
     (case r of
        AnAgreements out tot off lmt hm \<Rightarrow> HttpOk (dumps (list_json row out tot off lmt hm))
      | AnUnauthorized \<Rightarrow> HttpError 401 (dumps (JObj [(''error'', JStr ''unauthorized'')]))
      | _ \<Rightarrow> HttpError 500 [])"

definition page_json :: "(agr_summary \<Rightarrow> json) \<Rightarrow> agr_summary list \<Rightarrow> int \<Rightarrow> nat \<Rightarrow> json" where
  "page_json row rows sz k =
     (let l = page_limit sz; out = take (nat l) (drop k rows)
      in list_json row out (length rows) (int k) l (int k + int (length out) < int (length rows)))"

lemma resolve_again:
  assumes "resolve_key env now key p = (Inr (Some a), p')"
  shows "resolve_key env now key p' = (Inr (Some a), p')"
proof -
  obtain k where k: "first_verifying env key (live_keys p (take KEY_PREFIX_LEN key)) = Inr (Some k)" "startswith key ''sk_''"
      "account_by_id p (k_account k) = Some a" "or_default (ac_status a) ''active'' = ''active''"
      "p' = upd_key (k_id k) (\<lambda>k. k\<lparr>k_used := Some now\<rparr>) p"
    using assms by (auto simp: resolve_key_def split: if_splits sum.splits option.splits)
  let ?g = "\<lambda>r. if k_id r = k_id k then r\<lparr>k_used := Some now\<rparr> else r"
  have "live_keys p' pre = map ?g (live_keys p pre)" for pre
  proof -
    have "filter (\<lambda>r. k_prefix r = pre \<and> k_revoked r = None) (map ?g xs) = map ?g (filter (\<lambda>r. k_prefix r = pre \<and> k_revoked r = None) xs)" for xs
      by (induction xs) auto
    then show ?thesis by (simp add: live_keys_def k(5) upd_key_def upd_where_def)
  qed
  moreover have "first_verifying env key (map ?g xs) = try_bind (first_verifying env key xs) (\<lambda>r. Inr (map_option ?g r))" for xs
  proof (induction xs)
    case (Cons x xs)
    have "k_hash (?g x) = k_hash x" by simp
    then show ?case using Cons by (cases "verify_password env key (k_hash x)") simp_all
  qed simp
  ultimately have f: "first_verifying env key (live_keys p' (take KEY_PREFIX_LEN key)) = Inr (Some (?g k))" using k(1) by simp
  have u: "upd_key (k_id k) (\<lambda>k. k\<lparr>k_used := Some now\<rparr>) p' = p'"
    by (simp add: k(5) upd_key_def upd_where_def)
  have "account_by_id p' (k_account (?g k)) = Some a" using k(3) by (simp add: k(5) upd_key_def)
  then show ?thesis using f k(2,4) u by (simp add: resolve_key_def)
qed

lemma gate_again:
  assumes "require_sign_acct hc env now q p = (GateOk a, p')"
  shows "require_sign_acct hc env now q p' = (GateOk a, p')"
proof -
  have c: "sign_acct hc env now q (upd_key i f p) = sign_acct hc env now q p" for i f
  proof -
    have "session_version (p\<lparr>p_keys := ks\<rparr>) j = session_version p j" for ks j by (simp add: session_version_def)
    then show ?thesis by (simp add: sign_acct_def session_account_def upd_key_def cong: option.case_cong if_cong)
  qed
  show ?thesis
  proof (cases "\<exists>a. sign_acct hc env now q p = Inr (Some a)")
    case True
    then show ?thesis using assms by (auto simp: require_sign_acct_def)
  next
    case False
    then obtain key where k: "bearer_of q = Some key" "sign_acct hc env now q p = Inr None" "resolve_key env now key p = (Inr (Some a), p')"
      using assms by (auto simp: require_sign_acct_def split: sum.splits option.splits prod.splits)
    then obtain i f where "p' = upd_key i f p" by (auto simp: resolve_key_def split: if_splits sum.splits option.splits)
    then show ?thesis using k resolve_again [OF k(3)] c by (simp add: require_sign_acct_def)
  qed
qed

lemma owner_pages:
  "0 \<le> l \<Longrightarrow> list_agreements_for_owner w a (Some l) (int k) = take (nat l) (drop k (list_agreements_for_owner w a None 0))"
  "count_agreements_for_owner w a = length (list_agreements_for_owner w a None 0)"
  by (auto simp: list_agreements_for_owner_def count_agreements_for_owner_def paged_def newest_first_def take_map drop_map Let_def)

text \<open>One page, as the client reads it.\<close>

lemma sdk_list_page:
  assumes "require_sign_acct (ap_http e) (pe_auth (ap_portal e)) (rq_now q) (rq_http q) (st_portal t) = (GateOk a, p)"
    and "srv (http_request c ''GET'' (list_url sz (int k)) None []) t =
      (case serve e (RList sz (int k)) q t of (r, t') \<Rightarrow> (list_answer dumps row r, t'))"
    and "rows = list_agreements_for_owner (st_world t) (ac_id a) None 0"
    and "dumps (page_json row rows sz k) \<noteq> []" and "cl_loads c (dumps (page_json row rows sz k)) = Some (page_json row rows sz k)"
  shows "sdk_list c srv sz (int k) t = (SdkOk (page_json row rows sz k), t\<lparr>st_portal := p\<rparr>)"
proof -
  have "0 \<le> page_limit sz" by (simp add: page_limit_def)
  then have "serve e (RList sz (int k)) q t = (AnAgreements (take (nat (page_limit sz)) (drop k rows)) (length rows) (int k) (page_limit sz)
      (int k + int (length (take (nat (page_limit sz)) (drop k rows))) < int (length rows)), t\<lparr>st_portal := p\<rparr>)"
    using assms(1,3) by (simp add: mysign_list_def with_acct_def Let_def owner_pages)
  then have "srv (http_request c ''GET'' (list_url sz (int k)) None []) t = (HttpOk (dumps (page_json row rows sz k)), t\<lparr>st_portal := p\<rparr>)"
    using assms(2) by (simp add: list_answer_def page_json_def Let_def)
  then show ?thesis
    using assms(4,5) by (simp add: sdk_list_def request_def) (simp add: page_json_def list_json_def says_not_ok_def jget_def Let_def)
qed

lemma iter_step:
  assumes "sdk_list c srv sz (int k) t = (SdkOk (page_json row rows sz k), t1)" and "k < length rows \<or> k = 0"
  shows "iter_loop c srv sz (int k) acc t =
    (if k + nat (page_limit sz) < length rows
     then iter_loop c srv sz (int (k + nat (page_limit sz))) (acc @ map row (take (nat (page_limit sz)) (drop k rows))) t1
     else Some (SdkOk (acc @ map row (drop k rows)), t1))"
proof -
  let ?m = "nat (page_limit sz)" let ?items = "map row (take ?m (drop k rows))"
  have m: "0 < ?m" by (simp add: page_limit_def)
  have h: "(int k + int (length (take ?m (drop k rows))) < int (length rows)) = (k + ?m < length rows)"
  proof (cases "length rows - k \<le> ?m")
    case True
    then have "length (take ?m (drop k rows)) = length rows - k" by simp
    then show ?thesis using True assms(2) by auto
  next
    case False
    then have "length (take ?m (drop k rows)) = ?m" by simp
    then show ?thesis by linarith
  qed
  obtain d where d: "page_json row rows sz k = JObj d" "jget d ''agreements'' = JList ?items"
      "jget d ''has_more'' = JBool (k + ?m < length rows)"
    using h by (simp add: page_json_def list_json_def Let_def jget_def)
  have w: "walked (json_or (JList ?items) (JList [])) = Some ?items" by (simp add: json_or_def walked_def)
  show ?thesis
  proof (cases "k + ?m < length rows")
    case True
    then have "?items \<noteq> []" "length ?items = ?m" using m by auto
    then show ?thesis using True by (subst iter_loop.simps) (simp add: assms(1) d w del: map_is_Nil_conv)
  next
    case False
    then have tk: "take ?m (drop k rows) = drop k rows" by simp
    show ?thesis using False d w unfolding tk by (subst iter_loop.simps) (simp add: assms(1))
  qed
qed

text \<open>Property C32. Client and server together: iterating over the agreements returns, for every page size, all agreements
  of the key's account, each once and newest first, and leaves the store alone; the server's clamping of the
  page size loses none and the loop ends.\<close>

theorem client_lists_all:
  assumes gate: "require_sign_acct (ap_http e) (pe_auth (ap_portal e)) (rq_now q) (rq_http q) (st_portal s) = (GateOk a, p)"
    and srv: "\<And>k t. k < length rows \<or> k = 0 \<Longrightarrow> srv (http_request c ''GET'' (list_url sz (int k)) None []) t =
      (case serve e (RList sz (int k)) q t of (r, t') \<Rightarrow> (list_answer dumps row r, t'))"
    and rows: "rows = list_agreements_for_owner (st_world s) (ac_id a) None 0"
    and codec: "\<And>k. k < length rows \<or> k = 0 \<Longrightarrow>
      dumps (page_json row rows sz k) \<noteq> [] \<and> cl_loads c (dumps (page_json row rows sz k)) = Some (page_json row rows sz k)"
  shows "iter_agreements c srv sz s = Some (SdkOk (map row rows), s\<lparr>st_portal := p\<rparr>)"
proof -
  have page: "sdk_list c srv sz (int k) t = (SdkOk (page_json row rows sz k), t\<lparr>st_portal := p\<rparr>)"
    if "k < length rows \<or> k = 0" "t \<in> {s, s\<lparr>st_portal := p\<rparr>}" for k t
  proof (rule sdk_list_page [where e = e and q = q and a = a and dumps = dumps])
    show "require_sign_acct (ap_http e) (pe_auth (ap_portal e)) (rq_now q) (rq_http q) (st_portal t) = (GateOk a, p)"
      using that(2) gate gate_again [OF gate] by auto
  qed (use that codec [OF that(1)] rows srv [OF that(1)] in auto)
  have "iter_loop c srv sz (int k) acc t = Some (SdkOk (acc @ map row (drop k rows)), s\<lparr>st_portal := p\<rparr>)"
    if "k < length rows \<or> k = 0" "t \<in> {s, s\<lparr>st_portal := p\<rparr>}" for k t acc
    using that
  proof (induction "length rows - k" arbitrary: k t acc rule: less_induct)
    case less
    let ?m = "nat (page_limit sz)"
    have t1: "t\<lparr>st_portal := p\<rparr> = s\<lparr>st_portal := p\<rparr>" using less.prems(2) by auto
    show ?case
    proof (cases "k + ?m < length rows")
      case True
      have "0 < ?m" by (simp add: page_limit_def)
      then have "iter_loop c srv sz (int (k + ?m)) (acc @ map row (take ?m (drop k rows))) (s\<lparr>st_portal := p\<rparr>) =
          Some (SdkOk ((acc @ map row (take ?m (drop k rows))) @ map row (drop (k + ?m) rows)), s\<lparr>st_portal := p\<rparr>)"
        using True by (intro less.hyps) auto
      moreover have "drop k rows = take ?m (drop k rows) @ drop (k + ?m) rows"
        by (metis add.commute append_take_drop_id drop_drop)
      then have "map row (drop k rows) = map row (take ?m (drop k rows)) @ map row (drop (k + ?m) rows)"
        by (metis map_append)
      ultimately show ?thesis
        unfolding iter_step [OF page [OF less.prems] less.prems(1)] t1 using True by simp
    qed (simp add: iter_step [OF page [OF less.prems] less.prems(1)] t1)
  qed
  from this [of 0 s "[]"] show ?thesis by (simp add: iter_agreements_def)
qed

text \<open>The shop's account 3 has one agreement, and the client asks with a page size of zero.\<close>

definition shop_rows :: "agr_summary list" where
  "shop_rows = list_agreements_for_owner (st_world shop) 3 None 0"

definition shop_client :: client where
  "shop_client = demo_client\<lparr>cl_loads := (\<lambda>b. Some (page_json (\<lambda>r. JInt (a_id (su_row r))) shop_rows 0 0))\<rparr>"

definition shop_server :: "site server" where
  "shop_server r t =
     (if r = http_request shop_client ''GET'' (list_url 0 0) None []
      then case serve shop_env (RList 0 0) shop_req t of (x, t') \<Rightarrow> (list_answer (\<lambda>j. ''page'') (\<lambda>r. JInt (a_id (su_row r))) x, t')
      else (NoReply, t))"

lemma client_lists_all_witness:
  "iter_agreements shop_client shop_server 0 shop = Some (SdkOk [JInt 1], shop)"
proof -
  let ?row = "\<lambda>r. JInt (a_id (su_row r))"
  have rows: "map ?row shop_rows = [JInt 1]" by code_simp
  then have one: "length shop_rows = 1" by (metis length_map length_Cons list.size(3) One_nat_def)
  have id: "ac_id shop_account = 3" by code_simp
  have "iter_agreements shop_client shop_server 0 shop = Some (SdkOk (map ?row shop_rows), shop\<lparr>st_portal := shop_portal\<rparr>)"
  proof (rule client_lists_all [where e = shop_env and q = shop_req and a = shop_account and dumps = "\<lambda>j. ''page''"])
    show "require_sign_acct (ap_http shop_env) (pe_auth (ap_portal shop_env)) (rq_now shop_req) (rq_http shop_req) (st_portal shop) =
        (GateOk shop_account, shop_portal)"
      using shop_gate by (simp add: shop_def)
  qed (auto simp: one id shop_server_def shop_rows_def [symmetric] shop_client_def)
  then show ?thesis using rows by (simp add: shop_def)
qed

text \<open>\<open>download\<close> is documented to give the sealed document, once it is completed; the server answers for an agreement
  without an executed copy too, with the source as it is.\<close>

lemma download_unsealed:
  assumes "require_sign_acct (ap_http e) (pe_auth (ap_portal e)) (rq_now q) (rq_http q) (st_portal s) = (GateOk a, p)"
    and "require_owned aid a (st_world s) = Some v" and "a_executed_path (v_row v) = []" and "a_source_path (v_row v) \<noteq> []"
    and "files (st_world s) (a_source_path (v_row v)) = Some b" and "b \<noteq> []" and "a_status (v_row v) \<noteq> Completed"
  shows "\<exists>n. fst (serve e (RDownload aid) q s) = AnFile b n"
proof -
  have "agr_row (st_world s) aid = Some (v_row v)"
    using assms(2) view_row [of "st_world s" aid v] by (auto simp: require_owned_def get_agreement_owned_def split: if_splits option.splits)
  then have "executed_bytes (st_world s) aid = Some b" using assms(3-5) by (simp add: executed_bytes_def)
  then show ?thesis using assms(1,2,6) by (simp add: mysign_download_def with_owned_def with_acct_def)
qed

end
