(* ===== verification/Mailer.thy ===== *)
theory Mailer
  imports Schema
begin

text \<open>
  Outgoing mail (\<open>sign/mailer.py\<close>, \<open>sign/integrations.py\<close>): the HTML of every message from its literal pieces,
  the shell the pieces are put into, and the sending of a message with its transport steps. In the literal
  pieces the double quote is written as a backquote (\<open>html\<close> turns it back), the colours and font stacks of the
  source stand where it interpolates them, and a long dash is its UTF-8 bytes. The plain-text rendering of an
  HTML body and the transport itself are parameters.
\<close>

section \<open>Text and markup\<close>

definition html :: "string \<Rightarrow> string" where
  "html s = map (\<lambda>c. if c = CHR 0x60 then CHR 0x22 else c) s"

definition mdash :: string where "mdash = [CHR 0xE2, CHR 0x80, CHR 0x94]"
definition newline :: string where "newline = [CHR 0x0A]"

text \<open>\<open>s.replace(pat, r)\<close> for a pattern that is not empty: left to right, the replacement is not searched again.\<close>

function py_replace :: "string \<Rightarrow> string \<Rightarrow> string \<Rightarrow> string" where
  "py_replace pat r [] = []"
| "py_replace pat r (c # cs) =
     (if startswith (c # cs) pat then r @ py_replace pat r (drop (length pat - 1) cs) else c # py_replace pat r cs)"
  by pat_completeness auto
termination by (relation "measure (\<lambda>(pat, r, s). length s)") auto

text \<open>\<open>html.escape\<close>: five replacements, the ampersand first.\<close>

definition escape :: "string \<Rightarrow> string" where
  "escape s =
     py_replace [CHR 0x27] ''&#x27;'' (py_replace [CHR 0x22] ''&quot;''
       (py_replace ''>'' ''&gt;'' (py_replace ''<'' ''&lt;'' (py_replace ''&'' ''&amp;'' s))))"

fun escape_char :: "char \<Rightarrow> string" where
  "escape_char c =
     (if c = CHR ''&'' then ''&amp;'' else if c = CHR ''<'' then ''&lt;'' else if c = CHR ''>'' then ''&gt;''
      else if c = CHR 0x22 then ''&quot;'' else if c = CHR 0x27 then ''&#x27;'' else [c])"

lemma replace_char: "py_replace [x] r s = concat (map (\<lambda>c. if c = x then r else [c]) s)"
  by (induction s) (auto simp: startswith_def)

lemma escape_chars: "escape s = concat (map escape_char s)"
  by (induction s) (simp_all add: escape_def replace_char del: py_replace.simps)

declare escape_char.simps [simp del]

section \<open>The configuration and the shell\<close>

record mail_cfg =
  mc_from :: string
  mc_from_name :: string
  mc_base :: string
  mc_entity :: string
  mc_address :: string
  mc_env :: "string \<Rightarrow> string option"

definition strip_slashes_right :: "string \<Rightarrow> string" where
  "strip_slashes_right s = rev (dropWhile (\<lambda>c. c = CHR ''/'') (rev s))"

text \<open>A place in the shell, and the shell.\<close>

definition ph :: "string \<Rightarrow> string" where
  "ph n = CHR ''{'' # n @ ''}''"

definition base_0 :: string where
  "base_0 = html ''<!DOCTYPE html>
<html lang=`en` xmlns=`http://www.w3.org/1999/xhtml` xmlns:v=`urn:schemas-microsoft-com:vml`>
<head>
  <meta charset=`utf-8`>
  <meta name=`viewport` content=`width=device-width,initial-scale=1`>
  <meta name=`x-apple-disable-message-reformatting`>
  <meta name=`format-detection` content=`telephone=no,date=no,address=no,email=no`>
  <meta name=`color-scheme` content=`light dark`>
''"

definition base_1 :: string where
  "base_1 = html ''  <meta name=`supported-color-schemes` content=`light dark`>
  <title>Lifted Sign</title>
  <!--[if mso]><style>table,td,div,p,a,h1{font-family:'Segoe UI',Arial,sans-serif!important}</style><![endif]-->
  <style>
    /* Progressive enhancement only '' @ mdash @ '' the email is fully styled inline without this. */
    body{margin:0;padding:0;width:100%!important}
    table{border-collapse:collapse}
''"

definition base_2 :: string where
  "base_2 = ''    img{border:0;line-height:100%;outline:none;text-decoration:none}
    a{color:#1E4FD6}
    @media (max-width:620px){
      .ls-card{width:100%!important}
      .ls-pad{padding-left:24px!important;padding-right:24px!important}
      .ls-hpad{padding-left:24px!important;padding-right:24px!important}
    }
    @media (prefers-color-scheme:dark){
      /* Keep it readable in dark mode without breaking the light default. */
''"

definition base_3 :: string where
  "base_3 = ''      .ls-page{background-color:#070a12!important}
      .ls-card{background-color:#0f1626!important;border-color:#202c46!important}
      .ls-ink{color:#eff3f9!important}
      .ls-ink2{color:#cdd5e4!important}
      .ls-mute{color:#aeb8d0!important}
      .ls-panel{background-color:#141d31!important;border-color:#202c46!important}
    }
  </style>
</head>
''"

definition base_4 :: string where
  "base_4 = html ''<body style=`margin:0;padding:0;background-color:#eef1f6;width:100%;-webkit-text-size-adjust:100%;-ms-text-size-adjust:100%`>
  ''"

definition base_5 :: string where
  "base_5 = html ''
  <!-- full-bleed page background -->
  <table role=`presentation` cellpadding=`0` cellspacing=`0` border=`0` width=`100%`
    class=`ls-page` bgcolor=`#eef1f6` style=`background-color:#eef1f6;width:100%`>
  <tr><td align=`center` style=`padding:34px 16px;font-family:-apple-system,BlinkMacSystemFont,'Segoe UI',Roboto,Helvetica,Arial,sans-serif`>

    <!-- centered 600px card -->
''"

definition base_6 :: string where
  "base_6 = html ''    <table role=`presentation` cellpadding=`0` cellspacing=`0` border=`0` align=`center` width=`600`
      class=`ls-card` bgcolor=`#ffffff` style=`width:600px;max-width:600px;margin:0 auto;
      background-color:#ffffff;border:1px solid #e3e8f0;border-radius:18px;overflow:hidden;
      box-shadow:0 14px 40px rgba(11,16,32,.12)`>

      <!-- dark brand header band: spinning globe lockup over a DS radial blue glow -->
''"

definition base_7 :: string where
  "base_7 = html ''      <tr><td align=`center` class=`ls-hpad` background=`#05080e` bgcolor=`#05080e`
        style=`background-color:#05080e;background-image:radial-gradient(640px 300px at 50% -30%,rgba(46,107,255,0.32),rgba(5,8,14,0) 64%);padding:34px 40px 28px`>
        <img src=`''"

definition base_8 :: string where
  "base_8 = html ''` width=`208` height=`44` alt=`Lifted Sign`
          style=`display:block;width:208px;height:44px;max-width:208px;margin:0 auto;
          border:0;outline:none;text-decoration:none`/>''"

definition base_9 :: string where
  "base_9 = html ''
        <div style=`margin-top:14px;font-family:'JetBrains Mono',ui-monospace,'SFMono-Regular',Menlo,Consolas,monospace;font-size:11px;font-weight:700;
          letter-spacing:.22em;text-transform:uppercase;color:#7c93c6`>''"

definition base_10 :: string where
  "base_10 = html ''</div>
      </td></tr>
      <!-- DS blue hairline under the header -->
      <tr><td height=`3` bgcolor=`''"

definition base_11 :: string where
  "base_11 = html ''` style=`height:3px;line-height:3px;font-size:0;
        background-color:''"

definition base_12 :: string where
  "base_12 = html ''`>&nbsp;</td></tr>

      <!-- white content body -->
      <tr><td class=`ls-pad` bgcolor=`#ffffff`
        style=`background-color:#ffffff;padding:36px 44px 34px`>
        ''"

definition base_13 :: string where
  "base_13 = html ''
      </td></tr>

      <!-- dark footer band -->
      <tr><td class=`ls-pad` bgcolor=`#0a0f18`
        style=`background-color:#0a0f18;padding:24px 40px 26px`>
        <table role=`presentation` cellpadding=`0` cellspacing=`0` border=`0` width=`100%`><tr>
          <td style=`vertical-align:top;width:30px;padding-right:12px`>
            <img src=`''"

definition base_14 :: string where
  "base_14 = html ''` width=`22` height=`22` alt=``
              style=`display:block;width:22px;height:22px;border-radius:5px;border:0;outline:none;text-decoration:none`></td>
          <td style=`vertical-align:top;color:#aeb8d0;font-size:11.5px;line-height:1.7;font-family:-apple-system,BlinkMacSystemFont,'Segoe UI',Roboto,Helvetica,Arial,sans-serif`>
            ''"

definition base_15 :: string where
  "base_15 = html ''
          </td></tr></table>
      </td></tr>

    </table>

    <!-- sub-footer caption -->
    <table role=`presentation` cellpadding=`0` cellspacing=`0` border=`0` align=`center` width=`600`
      style=`width:600px;max-width:600px;margin:0 auto`><tr>
      <td align=`center` style=`padding:18px 20px 0;color:#7a8a98;font-size:11px;line-height:1.6;
''"

definition base_16 :: string where
  "base_16 = html ''        font-family:-apple-system,BlinkMacSystemFont,'Segoe UI',Roboto,Helvetica,Arial,sans-serif`>
        Lifted Sign &middot; Sign. Sealed. Delivered.</td></tr></table>

  </td></tr></table>
</body></html>''"

definition BASE :: string where
  "BASE =
     base_0 @
     base_1 @
     base_2 @
     base_3 @
     base_4 @ ph ''preheader'' @
     base_5 @
     base_6 @
     base_7 @ ph ''logo_src'' @
     base_8 @ ph ''header_disc'' @
     base_9 @ ph ''eyebrow'' @
     base_10 @ ph ''accent'' @
     base_11 @ ph ''accent'' @
     base_12 @ ph ''body'' @
     base_13 @ ph ''footer_img'' @
     base_14 @ ph ''footer_legal'' @ ph ''envelope'' @
     base_15 @
     base_16"

definition preheader_html :: "string \<Rightarrow> string" where
  "preheader_html text =
     (let pad = concat (replicate 60 ''&#847;&zwnj;&nbsp;'') in
     html ''<span class=`ls-preheader` style=`display:none!important;visibility:hidden;opacity:0;color:transparent;height:0;width:0;max-height:0;max-width:0;overflow:hidden;mso-hide:all`>'' @ escape text @ pad @ ''</span>'')"

definition asset :: "mail_cfg \<Rightarrow> string \<Rightarrow> string" where
  "asset cfg path =
     strip_slashes_right (mc_base cfg) @ ''/'' @ dropWhile (\<lambda>c. c = CHR ''/'') path"

definition footer_legal :: "mail_cfg \<Rightarrow> string" where
  "footer_legal cfg =
     (let entity = py_strip (mc_entity cfg) in
     (let address = py_strip (mc_address cfg) in
     (let entity_part = if entity \<noteq> [] then ''&nbsp;&middot;&nbsp; '' @ escape entity else [] in
     (let address_part = if address \<noteq> [] then ''<br>'' @ escape address else [] in
     html ''<span style=`color:#5E7BFF;font-weight:700;letter-spacing:.02em`>Lifted Sign</span>'' @ entity_part @ '' &mdash; a legally binding electronic signature under the U.S. ESIGN Act (15&nbsp;U.S.C. ch.&nbsp;96) &amp; UETA, recorded in a tamper-evident audit trail and Certificate of Completion.'' @ address_part))))"

definition envelope_line :: "string \<Rightarrow> string" where
  "envelope_line env_id = (if env_id = [] then [] else html ''<br><span style=`display:inline-block;margin-top:11px;font-family:'JetBrains Mono',ui-monospace,'SFMono-Regular',Menlo,Consolas,monospace;font-size:10.5px;letter-spacing:.1em;text-transform:uppercase;color:#4a5a78`>Envelope&nbsp;ID:&nbsp;<span style=`color:#7c93c6`>'' @ escape env_id @ ''</span></span>'')"

definition mail_wrap :: "mail_cfg \<Rightarrow> string \<Rightarrow> string \<Rightarrow> string \<Rightarrow> string \<Rightarrow> string \<Rightarrow> string \<Rightarrow> string" where
  "mail_wrap cfg body pre env_id eyebrow accent header_disc =
     py_replace (ph ''body'') body
    (py_replace (ph ''envelope'') (envelope_line env_id)
    (py_replace (ph ''header_disc'') header_disc
    (py_replace (ph ''accent'') accent
    (py_replace (ph ''eyebrow'') (escape eyebrow)
    (py_replace (ph ''footer_legal'') (footer_legal cfg)
    (py_replace (ph ''footer_img'') (escape (asset cfg ''static/lifted-fp.png''))
    (py_replace (ph ''logo_src'') (escape (asset cfg ''static/lifted-sign-lockup.gif''))
    (py_replace (ph ''preheader'') (if pre \<noteq> [] then preheader_html pre else []) BASE))))))))"

section \<open>The pieces of a body\<close>

definition safe_url :: "string \<Rightarrow> string" where
  "safe_url url =
     (let u = py_strip url in
     (if \<not> (startswith u ''http://'' \<or> startswith u ''https://'') then ''#''
      else escape u))"

definition headline :: "string \<Rightarrow> string \<Rightarrow> string" where
  "headline text align =
     html ''<h1 style=`font-family:'Sora',-apple-system,BlinkMacSystemFont,'Segoe UI',Roboto,Helvetica,Arial,sans-serif;font-size:25px;line-height:1.28;margin:0;font-weight:800;letter-spacing:-.02em;color:#0b1020;text-align:'' @ align @ html ''` class=`ls-ink`>'' @ text @ ''</h1>''"

definition lead :: "string \<Rightarrow> string" where
  "lead text =
     html ''<p style=`color:#3a4658;font-size:15px;line-height:1.65;margin:14px auto 0;text-align:center;max-width:50ch` class=`ls-ink2`>'' @ text @ ''</p>''"

definition doc_card :: "string \<Rightarrow> string \<Rightarrow> string \<Rightarrow> string \<Rightarrow> string" where
  "doc_card doc_name status_label status_color tile_bg =
     html ''
      <table role=`presentation` cellpadding=`0` cellspacing=`0` border=`0` width=`100%`
        class=`ls-panel` style=`margin:24px 0 0;border:1px solid #dde5ee;border-radius:12px;
        overflow:hidden`>
        <tr><td height=`3` bgcolor=`'' @ status_color @ html ''` style=`height:3px;line-height:3px;font-size:0;
          background-color:'' @ status_color @ html ''`>&nbsp;</td></tr>
        <tr><td bgcolor=`#ffffff` style=`padding:16px 18px;background-color:#ffffff`>
          <table role=`presentation` cellpadding=`0` cellspacing=`0` border=`0` width=`100%`><tr>
            <td width=`40` valign=`middle` style=`width:40px`>
              <table role=`presentation` cellpadding=`0` cellspacing=`0` border=`0`><tr>
                <td width=`36` height=`36` align=`center` valign=`middle` bgcolor=`#f5f8fd`
                  style=`width:36px;height:36px;background-color:'' @ tile_bg @ '';border-radius:9px;
                  color:'' @ status_color @ html '';font-family:'JetBrains Mono',ui-monospace,'SFMono-Regular',Menlo,Consolas,monospace;font-size:11px;font-weight:700`>PDF</td>
              </tr></table></td>
            <td style=`padding-left:14px;vertical-align:middle`>
              <div style=`font-size:15px;font-weight:700;color:#0b1020;font-family:-apple-system,BlinkMacSystemFont,'Segoe UI',Roboto,Helvetica,Arial,sans-serif`
                class=`ls-ink`>'' @ escape doc_name @ html ''</div>
              <div style=`font-family:'JetBrains Mono',ui-monospace,'SFMono-Regular',Menlo,Consolas,monospace;font-size:10.5px;font-weight:700;letter-spacing:.1em;
                text-transform:uppercase;color:'' @ status_color @ html '';margin-top:4px`>'' @ escape status_label @ ''</div>
            </td></tr></table>
        </td></tr></table>''"

definition status_disc :: "string \<Rightarrow> string \<Rightarrow> string \<Rightarrow> string" where
  "status_disc color1 color2 mark =
     (let glyph = if mark = ''check'' then ''&#10003;'' else if mark = ''x'' then ''&times;'' else [] in
     html ''<table role=`presentation` cellpadding=`0` cellspacing=`0` border=`0` align=`center` style=`margin:0 auto`><tr><td width=`52` height=`52` align=`center` valign=`middle` bgcolor=`'' @ color1 @ html ''` style=`width:52px;height:52px;background-color:'' @ color1 @ html '';border-radius:50%;color:#ffffff;font-family:'JetBrains Mono',ui-monospace,'SFMono-Regular',Menlo,Consolas,monospace;font-size:24px;font-weight:700;line-height:52px;text-align:center`>'' @ glyph @ ''</td></tr></table>'')"

definition cta :: "string \<Rightarrow> string \<Rightarrow> string" where
  "cta url label =
     (let safe = safe_url url in
     html ''
      <table role=`presentation` cellpadding=`0` cellspacing=`0` border=`0` align=`center`
        style=`margin:28px auto 6px`><tr><td align=`center` bgcolor=`#2E6BFF`
        style=`border-radius:12px;background-color:#2E6BFF`>
        <!--[if mso]>
        <v:roundrect xmlns:v=`urn:schemas-microsoft-com:vml` xmlns:w=`urn:schemas-microsoft-com:office:word`
          href=`'' @ safe @ html ''` style=`height:52px;v-text-anchor:middle;width:280px` arcsize=`23%`
          stroke=`f` fillcolor=`#2E6BFF`>
          <w:anchorlock/><center style=`color:#ffffff;font-family:'Segoe UI',Arial,sans-serif;
            font-size:16px;font-weight:bold`>'' @ escape label @ html ''</center>
        </v:roundrect>
        <![endif]-->
        <!--[if !mso]><!-- -->
        <a href=`'' @ safe @ html ''` target=`_blank` style=`display:inline-block;
          background-color:#2E6BFF;color:#ffffff;text-decoration:none;
          font-family:-apple-system,BlinkMacSystemFont,'Segoe UI',Roboto,Helvetica,Arial,sans-serif;font-weight:700;font-size:16px;line-height:1;padding:16px 40px;
          border-radius:12px;letter-spacing:.01em;border:1px solid #5E7BFF`>'' @ escape label @ ''</a>
        <!--<![endif]-->
      </td></tr></table>'')"

definition fallback_link :: "string \<Rightarrow> string \<Rightarrow> string" where
  "fallback_link url note =
     html ''<p style=`color:#9aa7b6;font-size:11.5px;line-height:1.6;margin:12px 0 0;text-align:center` class=`ls-mute`>'' @ escape note @ html ''<br><span style=`font-family:'JetBrains Mono',ui-monospace,'SFMono-Regular',Menlo,Consolas,monospace;color:#1E4FD6;word-break:break-all`>'' @ escape url @ ''</span></p>''"

definition quote_block :: "string \<Rightarrow> string" where
  "quote_block message =
     (if py_strip message = [] then []
      else html ''<table role=`presentation` width=`100%` cellpadding=`0` cellspacing=`0` border=`0` class=`ls-panel` bgcolor=`#f5f8fd` style=`margin:16px 0 0;background-color:#f5f8fd;border:1px solid #e3e9f4;border-left:3px solid #2E6BFF;border-radius:10px`><tr><td style=`padding:14px 18px;color:#3a4658;font-size:14px;line-height:1.65` class=`ls-ink2`>'' @ py_replace newline ''<br>'' (escape message) @ ''</td></tr></table>'')"

definition note_line :: "string \<Rightarrow> string" where
  "note_line text =
     html ''<p style=`color:#7a8a98;font-size:12px;line-height:1.6;margin:14px 0 0;text-align:center` class=`ls-mute`>'' @ text @ ''</p>''"

definition greeting :: "string \<Rightarrow> string" where
  "greeting name =
     (if py_strip name \<noteq> [] then ''Hi '' @ escape (takeWhile (\<lambda>c. \<not> is_space c) (py_strip name)) @ '',''
      else ''Hello,'')"

section \<open>The messages\<close>

definition invite_html :: "mail_cfg \<Rightarrow> string \<Rightarrow> string \<Rightarrow> string \<Rightarrow> string \<Rightarrow> string \<Rightarrow> string" where
  "invite_html cfg signer_name doc_name message url sender =
     (let pre = py_strip (nonblank sender ''A sender'') @ '' has requested your signature on '' @ doc_name @ ''.'' in
     (let body = html ''
      <p style=`font-size:13px;color:#7a8a98;margin:0 0 12px;text-align:center` class=`ls-mute`>'' @ greeting signer_name @ ''</p>
      '' @ headline (escape sender @ '' has requested<br>your signature'') ''center'' @ ''
      '' @ lead (''You've been invited to review and electronically sign the document below. It takes about a minute &mdash; no account required.'') @ ''
      '' @ doc_card doc_name ''Awaiting your signature'' ''#2E6BFF'' ''rgba(46,107,255,0.12)'' @ ''
      '' @ quote_block message @ ''
      '' @ cta url ''Review & Sign'' @ ''
      '' @ note_line (''This is your personal, single-use signing link &mdash; please don't forward it.'') @ ''
      '' @ fallback_link url ''Button not working? Copy and paste this link:'' in
     mail_wrap cfg body pre [] ''Signature requested'' ''#2E6BFF'' []))"

definition reminder_html :: "mail_cfg \<Rightarrow> string \<Rightarrow> string \<Rightarrow> string \<Rightarrow> string \<Rightarrow> string \<Rightarrow> string" where
  "reminder_html cfg signer_name doc_name message url sender =
     (let pre = ''Reminder: your signature is still needed on '' @ doc_name @ ''.'' in
     (let body = html ''
      <p style=`font-size:13px;color:#7a8a98;margin:0 0 14px;text-align:center` class=`ls-mute`>'' @ greeting signer_name @ html ''</p>
      <table role=`presentation` cellpadding=`0` cellspacing=`0` border=`0` align=`center`
        style=`margin:0 auto 14px`><tr><td align=`center` bgcolor=`#fdf4e3`
        style=`background-color:#fdf4e3;border:1px solid #f3dca6;border-radius:999px;
        padding:6px 16px;font-size:11px;font-weight:700;letter-spacing:.08em;text-transform:uppercase;
        color:#b9760a`>Reminder</td></tr></table>
      '' @ headline ''Your signature is still needed'' ''center'' @ ''
      '' @ lead (''Just a gentle nudge &mdash; '' @ escape sender @ '' is waiting on your signature for the document below. It only takes a minute to complete.'') @ ''
      '' @ doc_card doc_name ''Awaiting your signature'' ''#b9760a'' ''rgba(245,165,36,0.14)'' @ ''
      '' @ quote_block message @ ''
      '' @ cta url ''Review & Sign Now'' @ ''
      '' @ note_line ''Already signed? You can safely ignore this reminder.'' @ ''
      '' @ fallback_link url ''Button not working? Copy and paste this link:'' in
     mail_wrap cfg body pre [] ''A gentle reminder'' ''#F5A524'' []))"

definition completed_html :: "mail_cfg \<Rightarrow> string \<Rightarrow> string \<Rightarrow> string \<Rightarrow> string \<Rightarrow> string" where
  "completed_html cfg doc_name env_id envelope_url seal_method =
     (let seal_desc = if seal_method = ''pades'' then ''digitally signed with a PAdES certification signature'' else ''tamper-sealed (AES-256 integrity seal)'' in
     (let pre = ''Signed & completed: '' @ doc_name @ ''. Your sealed copy is attached.'' in
     (let body = ''
      '' @ headline ''Signed &amp; completed'' ''center'' @ ''
      '' @ lead (''All parties have signed <b style='color:#0b1020'>'' @ escape doc_name @ ''</b>. The fully-executed copy, sealed and bundled with the Lifted Sign <b style='color:#0b1020'>Certificate of Completion</b>, is attached to this email for your records.'') @ ''
      '' @ doc_card doc_name ''Completed &middot; sealed'' ''#2E6BFF'' ''rgba(46,107,255,0.12)'' @ html ''
      <table role=`presentation` cellpadding=`0` cellspacing=`0` border=`0` width=`100%`
        class=`ls-panel` bgcolor=`#f5f8fd` style=`margin:14px 0 0;background-color:#f5f8fd;
        border:1px solid #e3e9f4;border-radius:12px`><tr>
        <td style=`vertical-align:top;width:36px;padding:15px 0 15px 18px`>
          <div style=`width:14px;height:14px;border:2px solid #2E6BFF;border-radius:50% 50% 50% 0;
            transform:rotate(-45deg);margin-top:2px`></div></td>
        <td style=`padding:14px 18px 14px 6px;color:#3a4658;font-size:12.5px;line-height:1.7` class=`ls-ink2`>
          <b style=`color:#0b1020` class=`ls-ink`>Attached:</b> the fully-executed PDF, '' @ seal_desc @ '', plus a
          Certificate of Completion listing each signer, authentication method, IP, and per-action
          UTC timestamps. Keep this copy &mdash; it is your accurate, reproducible record under
          ESIGN &sect;7001(d) / UETA &sect;12.</td></tr></table>
      '' @ (if envelope_url \<noteq> [] then html ''<p style=`text-align:center;color:#3a4658;font-size:12.5px;line-height:1.6;margin:20px 0 0` class=`ls-ink2`>Need it again later? Open your secure envelope page and verify your email to see and download <b style=`color:#0b1020` class=`ls-ink`>every document addressed to you</b> &mdash; not just this one. Documents you receive over time all appear there.</p>'' @ cta envelope_url ''View this & all your documents'' else []) @ html ''
      <table role=`presentation` cellpadding=`0` cellspacing=`0` border=`0` width=`100%`
        bgcolor=`#05080e` style=`margin:22px 0 0;background-color:#05080e;border-radius:12px`><tr>
        <td align=`center` style=`padding:18px 22px`>
          <div style=`font-size:13px;color:#aeb8d0;line-height:1.6;margin-bottom:12px`>
            Your records are complete and securely stored.</div>
          <div style=`font-family:'JetBrains Mono',ui-monospace,'SFMono-Regular',Menlo,Consolas,monospace;font-size:10px;letter-spacing:.2em;text-transform:uppercase;color:#aeb8d0`>Powered by</div>
          <div style=`font-family:'Sora',-apple-system,BlinkMacSystemFont,'Segoe UI',Roboto,Helvetica,Arial,sans-serif;font-size:18px;font-weight:800;letter-spacing:.01em;margin-top:5px`>
            <span style=`color:#eff3f9`>Lifted</span><span style=`color:#5E7BFF`>Sign</span></div>
        </td></tr></table>'' in
     mail_wrap cfg body pre env_id ''Signed &amp; completed'' ''#2E6BFF'' (html ''<div style=`height:18px;line-height:18px;font-size:0`>&nbsp;</div>'' @ status_disc ''#2E6BFF'' ''#1E4FD6'' ''check''))))"

definition envelope_html :: "mail_cfg \<Rightarrow> string \<Rightarrow> string \<Rightarrow> string \<Rightarrow> string \<Rightarrow> string" where
  "envelope_html cfg signer_name doc_name env_id url =
     (let pre = ''View status, all parties' progress, and download your sealed copy of '' @ doc_name @ '' anytime.'' in
     (let body = html ''
      <p style=`font-size:13px;color:#7a8a98;margin:0 0 12px;text-align:center` class=`ls-mute`>'' @ greeting signer_name @ ''</p>
      '' @ headline ''Track &amp; access your envelope'' ''center'' @ ''
      '' @ lead (''View status, all parties' progress, and download your sealed copy and certificate anytime &mdash; securely.'') @ ''
      '' @ doc_card doc_name ''Your envelope'' ''#2E6BFF'' ''rgba(46,107,255,0.12)'' @ ''
      '' @ cta url ''Open my envelope'' @ ''
      '' @ note_line (''You'll verify it's you (Google sign-in or a one-time code) before anything is shown.'') @ ''
      '' @ fallback_link url ''Button not working? Copy and paste this link:'' in
     mail_wrap cfg body pre env_id ''Secure access'' ''#2E6BFF'' []))"

definition otp_html :: "mail_cfg \<Rightarrow> string \<Rightarrow> string" where
  "otp_html cfg code =
     (let c = escape (py_strip code) in
     (let pre = ''Your Lifted Sign verification code '' @ mdash @ '' expires in 10 minutes.'' in
     (let body = ''
      '' @ headline ''Your verification code'' ''center'' @ ''
      '' @ lead ''Enter this code on the Lifted Sign page to securely access your envelope. It expires in 10 minutes.'' @ html ''
      <table role=`presentation` width=`100%` cellpadding=`0` cellspacing=`0` border=`0` align=`center`
        style=`margin:26px 0 6px`><tr><td align=`center`>
        <table role=`presentation` cellpadding=`0` cellspacing=`0` border=`0`><tr>
          <td align=`center` bgcolor=`#f5f8fd` style=`background-color:#f5f8fd;
            border:1px solid #dde5ee;border-radius:14px;padding:20px 36px;font-family:'JetBrains Mono',ui-monospace,'SFMono-Regular',Menlo,Consolas,monospace;
            font-size:34px;font-weight:700;letter-spacing:.32em;color:#0b1020` class=`ls-ink`>'' @ c @ ''</td>
        </tr></table></td></tr></table>
      '' @ note_line (''If you didn't request this code, you can safely ignore this email &mdash; no one can access your documents without it.'') in
     mail_wrap cfg body pre [] ''Secure access'' ''#2E6BFF'' [])))"

definition reason_block :: "string \<Rightarrow> string" where
  "reason_block reason =
     (if py_strip reason \<noteq> [] then html ''<table role=`presentation` width=`100%` cellpadding=`0` cellspacing=`0` border=`0` class=`ls-panel` bgcolor=`#fbf3f3` style=`margin:14px 0 0;background-color:#fbf3f3;border:1px solid #f0dada;border-left:3px solid #d64545;border-radius:10px`><tr><td style=`padding:14px 18px;color:#3a4658;font-size:14px;line-height:1.65` class=`ls-ink2`><div style=`font-family:'JetBrains Mono',ui-monospace,'SFMono-Regular',Menlo,Consolas,monospace;font-size:11px;letter-spacing:.06em;text-transform:uppercase;color:#a35b5b;font-weight:700;margin-bottom:6px`>Reason given</div>'' @ py_replace newline ''<br>'' (escape reason) @ ''</td></tr></table>''
      else html ''<p style=`color:#7a8a98;font-size:13px;line-height:1.6;margin:14px 0 0;text-align:center` class=`ls-mute`>No reason was provided.</p>'')"

definition declined_html :: "mail_cfg \<Rightarrow> string \<Rightarrow> string \<Rightarrow> string \<Rightarrow> string \<Rightarrow> string" where
  "declined_html cfg doc_name decliner_name reason env_id =
     (let who = nonblank (py_strip decliner_name) ''A signer'' in
     (let pre = who @ '' declined to sign '' @ doc_name @ ''.'' in
     (let body = ''
      '' @ headline ''Signature declined'' ''center'' @ ''
      '' @ lead (''<b style='color:#0b1020'>'' @ escape who @ ''</b> declined to sign <b style='color:#0b1020'>'' @ escape doc_name @ ''</b>. The envelope has been marked <b style='color:#d64545'>declined</b> and no further signatures will be collected.'') @ ''
      '' @ doc_card doc_name ''Declined'' ''#d64545'' ''rgba(214,69,69,0.12)'' @ ''
      '' @ reason_block reason @ ''
      '' @ note_line ''You can revise the document and start a new envelope, or reach out to the signer directly to resolve their concern.'' in
     mail_wrap cfg body pre env_id ''Signature declined'' ''#d64545'' (html ''<div style=`height:18px;line-height:18px;font-size:0`>&nbsp;</div>'' @ status_disc ''#d64545'' ''#b83a3a'' ''x''))))"

definition expired_html :: "mail_cfg \<Rightarrow> string \<Rightarrow> string \<Rightarrow> string" where
  "expired_html cfg doc_name env_id =
     (let pre = ''Your signing request '' @ doc_name @ '' has expired.'' in
     (let body = ''
      '' @ headline ''Signing request expired'' ''center'' @ ''
      '' @ lead (''Your envelope <b style='color:#0b1020'>'' @ escape doc_name @ ''</b> reached its signing deadline before all signatures were collected, so it has been marked <b style='color:#b9760a'>expired</b>. Existing signers can no longer sign it.'') @ ''
      '' @ doc_card doc_name ''Expired'' ''#b9760a'' ''rgba(245,165,36,0.14)'' @ ''
      '' @ note_line ''To keep it moving, create a new envelope from the same document and send a fresh request. Anyone who already signed will need to sign the new copy.'' in
     mail_wrap cfg body pre env_id ''Signing request expired'' ''#F5A524'' []))"

datatype mail =
    Invite string string string string string
  | Reminder string string string string string
  | CompletedMail string string string string
  | EnvelopeLink string string string string
  | OtpMail string
  | DeclinedMail string string string string
  | ExpiredMail string string

fun mail_html :: "mail_cfg \<Rightarrow> mail \<Rightarrow> string" where
  "mail_html cfg (Invite name doc msg url sender) = invite_html cfg name doc msg url sender"
| "mail_html cfg (Reminder name doc msg url sender) = reminder_html cfg name doc msg url sender"
| "mail_html cfg (CompletedMail doc env url seal) = completed_html cfg doc env url seal"
| "mail_html cfg (EnvelopeLink name doc env url) = envelope_html cfg name doc env url"
| "mail_html cfg (OtpMail code) = otp_html cfg code"
| "mail_html cfg (DeclinedMail doc who reason env) = declined_html cfg doc who reason env"
| "mail_html cfg (ExpiredMail doc env) = expired_html cfg doc env"

section \<open>The shell is filled place by place\<close>

text \<open>\<open>meets p s\<close>: one of them begins with the other. A text is \<open>apart\<close> from a pattern when no occurrence of the
  pattern begins in it, whatever follows the text.\<close>

fun meets :: "string \<Rightarrow> string \<Rightarrow> bool" where
  "meets (a # p) (b # s) = (a = b \<and> meets p s)"
| "meets p s = True"

fun apart :: "string \<Rightarrow> string \<Rightarrow> bool" where
  "apart p [] = True"
| "apart p (c # s) = (\<not> meets p (c # s) \<and> apart p s)"

lemma startswith_meets: "startswith (s @ t) p \<Longrightarrow> meets p s"
  by (induction p s rule: meets.induct) (auto simp: startswith_def)

lemma replace_apart: "apart p s \<Longrightarrow> py_replace p r (s @ t) = s @ py_replace p r t"
proof (induction s)
  case (Cons c s)
  then show ?case using startswith_meets [of "c # s" t p] by auto
qed simp

lemma replace_apart_end: "apart p s \<Longrightarrow> py_replace p r s = s"
  using replace_apart [of p s r "[]"] by simp

lemma replace_here: "py_replace (ph n) r (ph n @ t) = r @ py_replace (ph n) r t"
  by (simp add: ph_def startswith_def)

lemma replace_here_end: "py_replace (ph n) r (ph n) = r"
  using replace_here [of n r "[]"] by simp

text \<open>In a \<open>quiet\<close> text every opening brace is followed by a word and then by something else than a closing brace,
  as in the style sheet of the shell; a text without braces is quiet, and no place begins in a quiet text.\<close>

definition name_char :: "char \<Rightarrow> bool" where
  "name_char c = ((97 \<le> char_code c \<and> char_code c \<le> 122) \<or> c = CHR ''_'')"

fun quiet :: "bool \<Rightarrow> string \<Rightarrow> bool" where
  "quiet b [] = (\<not> b)"
| "quiet b (c # s) = (if b \<and> name_char c then quiet True s else \<not> (b \<and> c = CHR ''}'') \<and> quiet (c = CHR ''{'') s)"

lemma quiet_meets: "quiet True s \<Longrightarrow> list_all name_char n \<Longrightarrow> \<not> meets (n @ ''}'') s"
proof (induction n arbitrary: s)
  case Nil
  have "\<not> name_char (CHR ''}'')" by code_simp
  with Nil show ?case by (cases s) auto
next
  case (Cons a n)
  then show ?case by (cases s) auto
qed

lemma quiet_later: "quiet b (c # s) \<Longrightarrow> quiet False s \<or> quiet True s"
  by (cases "c = CHR ''{''") (auto split: if_splits)

lemma quiet_apart:
  assumes "list_all name_char n"
  shows "quiet b s \<Longrightarrow> apart (ph n) s"
proof (induction s arbitrary: b)
  case (Cons c s)
  have "\<not> name_char (CHR ''{'')" by code_simp
  then have "\<not> meets (ph n) (c # s)" using quiet_meets [OF _ assms, of s] Cons.prems by (auto simp: ph_def split: if_splits)
  then show ?case using Cons.IH quiet_later [OF Cons.prems] by auto
qed simp

definition plain :: "string \<Rightarrow> bool" where
  "plain s = (CHR ''{'' \<notin> set s)"

lemma plain_quiet: "plain s \<Longrightarrow> quiet False s"
  by (induction s) (auto simp: plain_def)

lemma plain_append [simp]: "plain (s @ t) = (plain s \<and> plain t)"
  by (auto simp: plain_def)

lemma plain_Nil [simp]: "plain []"
  by (simp add: plain_def)

definition PLACES :: "string list" where
  "PLACES = [''preheader'', ''logo_src'', ''footer_img'', ''footer_legal'', ''eyebrow'', ''accent'', ''header_disc'', ''envelope'', ''body'']"

lemma places_apart:
  assumes "a \<in> set PLACES" and "b \<in> set PLACES" and "a \<noteq> b"
  shows "apart (ph a) (ph b)"
proof -
  have "list_all (\<lambda>a. list_all (\<lambda>b. a = b \<or> apart (ph a) (ph b)) PLACES) PLACES" by code_simp
  with assms show ?thesis by (auto simp: list_all_iff)
qed

lemma places:
  "''preheader'' \<in> set PLACES"
  "''logo_src'' \<in> set PLACES"
  "''footer_img'' \<in> set PLACES"
  "''footer_legal'' \<in> set PLACES"
  "''eyebrow'' \<in> set PLACES"
  "''accent'' \<in> set PLACES"
  "''header_disc'' \<in> set PLACES"
  "''envelope'' \<in> set PLACES"
  "''body'' \<in> set PLACES"
  by (simp_all add: PLACES_def)

lemma places_differ:
  "''preheader'' \<noteq> ''logo_src''" "''preheader'' \<noteq> ''footer_img''" "''preheader'' \<noteq> ''footer_legal''" "''preheader'' \<noteq> ''eyebrow''" "''preheader'' \<noteq> ''accent''" "''preheader'' \<noteq> ''header_disc''" "''preheader'' \<noteq> ''envelope''" "''preheader'' \<noteq> ''body''"
  "''logo_src'' \<noteq> ''preheader''" "''logo_src'' \<noteq> ''footer_img''" "''logo_src'' \<noteq> ''footer_legal''" "''logo_src'' \<noteq> ''eyebrow''" "''logo_src'' \<noteq> ''accent''" "''logo_src'' \<noteq> ''header_disc''" "''logo_src'' \<noteq> ''envelope''" "''logo_src'' \<noteq> ''body''"
  "''footer_img'' \<noteq> ''preheader''" "''footer_img'' \<noteq> ''logo_src''" "''footer_img'' \<noteq> ''footer_legal''" "''footer_img'' \<noteq> ''eyebrow''" "''footer_img'' \<noteq> ''accent''" "''footer_img'' \<noteq> ''header_disc''" "''footer_img'' \<noteq> ''envelope''" "''footer_img'' \<noteq> ''body''"
  "''footer_legal'' \<noteq> ''preheader''" "''footer_legal'' \<noteq> ''logo_src''" "''footer_legal'' \<noteq> ''footer_img''" "''footer_legal'' \<noteq> ''eyebrow''" "''footer_legal'' \<noteq> ''accent''" "''footer_legal'' \<noteq> ''header_disc''" "''footer_legal'' \<noteq> ''envelope''" "''footer_legal'' \<noteq> ''body''"
  "''eyebrow'' \<noteq> ''preheader''" "''eyebrow'' \<noteq> ''logo_src''" "''eyebrow'' \<noteq> ''footer_img''" "''eyebrow'' \<noteq> ''footer_legal''" "''eyebrow'' \<noteq> ''accent''" "''eyebrow'' \<noteq> ''header_disc''" "''eyebrow'' \<noteq> ''envelope''" "''eyebrow'' \<noteq> ''body''"
  "''accent'' \<noteq> ''preheader''" "''accent'' \<noteq> ''logo_src''" "''accent'' \<noteq> ''footer_img''" "''accent'' \<noteq> ''footer_legal''" "''accent'' \<noteq> ''eyebrow''" "''accent'' \<noteq> ''header_disc''" "''accent'' \<noteq> ''envelope''" "''accent'' \<noteq> ''body''"
  "''header_disc'' \<noteq> ''preheader''" "''header_disc'' \<noteq> ''logo_src''" "''header_disc'' \<noteq> ''footer_img''" "''header_disc'' \<noteq> ''footer_legal''" "''header_disc'' \<noteq> ''eyebrow''" "''header_disc'' \<noteq> ''accent''" "''header_disc'' \<noteq> ''envelope''" "''header_disc'' \<noteq> ''body''"
  "''envelope'' \<noteq> ''preheader''" "''envelope'' \<noteq> ''logo_src''" "''envelope'' \<noteq> ''footer_img''" "''envelope'' \<noteq> ''footer_legal''" "''envelope'' \<noteq> ''eyebrow''" "''envelope'' \<noteq> ''accent''" "''envelope'' \<noteq> ''header_disc''" "''envelope'' \<noteq> ''body''"
  "''body'' \<noteq> ''preheader''" "''body'' \<noteq> ''logo_src''" "''body'' \<noteq> ''footer_img''" "''body'' \<noteq> ''footer_legal''" "''body'' \<noteq> ''eyebrow''" "''body'' \<noteq> ''accent''" "''body'' \<noteq> ''header_disc''" "''body'' \<noteq> ''envelope''"
  by simp_all

lemma place_names: "n \<in> set PLACES \<Longrightarrow> list_all name_char n"
proof -
  have "list_all (list_all name_char) PLACES" by code_simp
  then show "n \<in> set PLACES \<Longrightarrow> list_all name_char n" by (simp add: list_all_iff)
qed

lemma quiet_0: "quiet False base_0" by code_simp
lemma quiet_1: "quiet False base_1" by code_simp
lemma quiet_2: "quiet False base_2" by code_simp
lemma quiet_3: "quiet False base_3" by code_simp
lemma quiet_4: "quiet False base_4" by code_simp
lemma quiet_5: "quiet False base_5" by code_simp
lemma quiet_6: "quiet False base_6" by code_simp
lemma quiet_7: "quiet False base_7" by code_simp
lemma quiet_8: "quiet False base_8" by code_simp
lemma quiet_9: "quiet False base_9" by code_simp
lemma quiet_10: "quiet False base_10" by code_simp
lemma quiet_11: "quiet False base_11" by code_simp
lemma quiet_12: "quiet False base_12" by code_simp
lemma quiet_13: "quiet False base_13" by code_simp
lemma quiet_14: "quiet False base_14" by code_simp
lemma quiet_15: "quiet False base_15" by code_simp
lemma quiet_16: "quiet False base_16" by code_simp
lemma replace_quiet: "quiet False s \<Longrightarrow> n \<in> set PLACES \<Longrightarrow> py_replace (ph n) r (s @ t) = s @ py_replace (ph n) r t"
  by (rule replace_apart [OF quiet_apart [OF place_names]])

lemma replace_quiet_end: "quiet False s \<Longrightarrow> n \<in> set PLACES \<Longrightarrow> py_replace (ph n) r s = s"
  using replace_quiet [of s n r "[]"] by simp

lemma replace_other: "a \<in> set PLACES \<Longrightarrow> b \<in> set PLACES \<Longrightarrow> a \<noteq> b \<Longrightarrow> py_replace (ph a) r (ph b @ t) = ph b @ py_replace (ph a) r t"
  by (rule replace_apart [OF places_apart])

text \<open>What a message looks like when nothing that goes in before the body holds an opening brace.\<close>

lemma plain_escape [simp]: "plain (escape s) = plain s"
proof -
  have "plain (escape_char c) = (c \<noteq> CHR ''{'')" for c by (auto simp: escape_char.simps plain_def)
  then show ?thesis by (induction s) (simp_all add: escape_chars, auto simp: plain_def)
qed

definition plain_cfg :: "mail_cfg \<Rightarrow> bool" where
  "plain_cfg cfg = (plain (mc_base cfg) \<and> plain (mc_entity cfg) \<and> plain (mc_address cfg))"

lemma plain_strip: "plain s \<Longrightarrow> plain (py_strip s)"
  using set_py_strip [of s] by (auto simp: plain_def)

lemma plain_lit: "\<lbrakk>list_all (\<lambda>c. c \<noteq> CHR ''{'') s\<rbrakk> \<Longrightarrow> plain s"
  by (auto simp: plain_def list_all_iff)

lemma plain_slashes:
  assumes "plain s"
  shows "plain (strip_slashes_right s)" and "plain (dropWhile (\<lambda>c. c = CHR ''/'') s)"
  using assms by (auto simp: plain_def strip_slashes_right_def dest: set_dropWhileD)

lemma plain_if: "(b \<Longrightarrow> plain s) \<Longrightarrow> (\<not> b \<Longrightarrow> plain t) \<Longrightarrow> plain (if b then s else t)"
  by simp

lemma plain_cat: "plain s \<Longrightarrow> plain t \<Longrightarrow> plain (s @ t)"
  by simp

lemma plain_esc: "plain s \<Longrightarrow> plain (escape s)"
  by simp

lemmas plain_rules = plain_if plain_cat plain_esc plain_Nil plain_strip

lemma plain_footer: "plain_cfg cfg \<Longrightarrow> plain (footer_legal cfg)"
  unfolding footer_legal_def Let_def plain_cfg_def
  by (elim conjE) (assumption | rule plain_rules | rule plain_lit, code_simp)+

lemma plain_asset: "plain_cfg cfg \<Longrightarrow> plain t \<Longrightarrow> plain (asset cfg t)"
  unfolding asset_def plain_append plain_cfg_def
  by (auto simp: plain_slashes intro!: plain_lit [of "''/''"])

lemma plain_preheader: "plain t \<Longrightarrow> plain (preheader_html t)"
  unfolding preheader_html_def Let_def
  by (assumption | rule plain_cat plain_esc | rule plain_lit, code_simp)+

lemma plain_envelope: "plain t \<Longrightarrow> plain (envelope_line t)"
  unfolding envelope_line_def
  by (assumption | rule plain_rules | rule plain_lit, code_simp)+

lemma wrap_layout:
  assumes "plain_cfg cfg" and "plain pre" and "plain env_id" and "plain eyebrow" and "plain accent" and "plain disc"
  shows "mail_wrap cfg body pre env_id eyebrow accent disc =
     base_0 @
     base_1 @
     base_2 @
     base_3 @
     base_4 @ (if pre \<noteq> [] then preheader_html pre else []) @
     base_5 @
     base_6 @
     base_7 @ escape (asset cfg ''static/lifted-sign-lockup.gif'') @
     base_8 @ disc @
     base_9 @ escape eyebrow @
     base_10 @ accent @
     base_11 @ accent @
     base_12 @ body @
     base_13 @ escape (asset cfg ''static/lifted-fp.png'') @
     base_14 @ footer_legal cfg @ envelope_line env_id @
     base_15 @
     base_16"
proof -
  have a: "plain (escape (asset cfg ''static/lifted-fp.png''))" "plain (escape (asset cfg ''static/lifted-sign-lockup.gif''))"
    unfolding plain_escape by (intro plain_asset assms(1) plain_lit, code_simp)+
  have p: "plain (if pre \<noteq> [] then preheader_html pre else [])" using plain_preheader [OF assms(2)] by simp
  have e: "plain (escape eyebrow)" unfolding plain_escape by (rule assms(4))
  note q = plain_quiet [OF a(1)] plain_quiet [OF a(2)] plain_quiet [OF p] plain_quiet [OF plain_footer [OF assms(1)]]
    plain_quiet [OF plain_envelope [OF assms(3)]] plain_quiet [OF e] plain_quiet [OF assms(5)] plain_quiet [OF assms(6)]
  show ?thesis
    unfolding mail_wrap_def BASE_def
    by (simp only: replace_here replace_here_end places places_differ not_False_eq_True replace_other replace_quiet replace_quiet_end q quiet_0 quiet_1 quiet_2 quiet_3 quiet_4 quiet_5 quiet_6 quiet_7 quiet_8 quiet_9 quiet_10 quiet_11 quiet_12 quiet_13 quiet_14 quiet_15 quiet_16 append_assoc simp_thms)
qed

section \<open>Texts add no markup\<close>

text \<open>The characters that make markup, in order.\<close>

definition marks :: "string \<Rightarrow> string" where
  "marks s = filter (\<lambda>c. c \<in> {CHR ''<'', CHR ''>'', CHR 0x22}) s"

text \<open>A message with its texts taken out: what stays is which optional parts there are, and the line breaks of a
  quoted text.\<close>

definition dot :: "string \<Rightarrow> string" where
  "dot s = (if s = [] then [] else ''.'')"

definition bare_quote :: "string \<Rightarrow> string" where
  "bare_quote s = (if py_strip s = [] then [] else CHR ''.'' # filter (\<lambda>c. c = CHR 0x0A) s)"

fun bare :: "mail \<Rightarrow> mail" where
  "bare (Invite name doc msg url sender) = Invite [] [] (bare_quote msg) [] []"
| "bare (Reminder name doc msg url sender) = Reminder [] [] (bare_quote msg) [] []"
| "bare (CompletedMail doc env url seal) = CompletedMail [] (dot env) (dot url) seal"
| "bare (EnvelopeLink name doc env url) = EnvelopeLink [] [] (dot env) []"
| "bare (OtpMail code) = OtpMail []"
| "bare (DeclinedMail doc who reason env) = DeclinedMail [] [] (bare_quote reason) (dot env)"
| "bare (ExpiredMail doc env) = ExpiredMail [] (dot env)"

text \<open>The texts that go into the inbox preview line or the footer, before the body.\<close>

fun plain_mail :: "mail \<Rightarrow> bool" where
  "plain_mail (Invite name doc msg url sender) = (plain sender \<and> plain doc)"
| "plain_mail (Reminder name doc msg url sender) = plain doc"
| "plain_mail (CompletedMail doc env url seal) = (plain doc \<and> plain env)"
| "plain_mail (EnvelopeLink name doc env url) = (plain doc \<and> plain env)"
| "plain_mail (OtpMail code) = True"
| "plain_mail (DeclinedMail doc who reason env) = (plain doc \<and> plain who \<and> plain env)"
| "plain_mail (ExpiredMail doc env) = (plain doc \<and> plain env)"

lemma marks_append: "marks (s @ t) = marks s @ marks t"
  by (simp add: marks_def)

lemma marks_Nil: "marks [] = []"
  by (simp add: marks_def)

lemma marks_escape: "marks (escape s) = []"
proof -
  have "marks (escape_char c) = []" for c by (auto simp: escape_char.simps marks_def)
  then show ?thesis by (induction s) (simp_all add: escape_chars marks_append marks_Nil)
qed

lemma marks_quoted: "marks (py_replace newline ''<br>'' (escape s)) = concat (map (\<lambda>c. ''<>'') (filter (\<lambda>c. c = CHR 0x0A) s))"
proof -
  have "marks (py_replace newline ''<br>'' (escape_char c)) = (if c = CHR 0x0A then ''<>'' else [])" for c
    by (auto simp: escape_char.simps marks_def newline_def replace_char)
  then show ?thesis
    by (induction s) (simp_all add: escape_chars newline_def replace_char marks_append marks_Nil)
qed

lemma bare_quote_lines:
  "filter (\<lambda>c. c = CHR 0x0A) (bare_quote s) = (if py_strip s = [] then [] else filter (\<lambda>c. c = CHR 0x0A) s)"
  by (simp add: bare_quote_def)

lemma bare_quote_blank: "(py_strip (bare_quote s) = []) = (py_strip s = [])"
proof -
  have "py_strip (CHR ''.'' # u) \<noteq> []" for u
    by (simp add: py_strip_def is_space_def char_code_def dropWhile_append)
  then show ?thesis by (simp add: bare_quote_def) (simp add: py_strip_def)
qed

lemma marks_greeting: "marks (greeting n) = []"
proof -
  have "marks ''Hi '' = []" "marks '','' = []" "marks ''Hello,'' = []" by (simp_all add: marks_def)
  then show ?thesis unfolding greeting_def by (simp only: marks_append marks_escape marks_Nil append_Nil split: if_split) simp
qed

lemma marks_url: "marks (safe_url u) = []"
proof -
  have "marks ''#'' = []" by (simp add: marks_def)
  then show ?thesis unfolding safe_url_def Let_def by (simp only: marks_escape split: if_split) simp
qed

lemma marks_quote_block: "marks (quote_block (bare_quote s)) = marks (quote_block s)"
  unfolding quote_block_def bare_quote_blank
  by (cases "py_strip s = []") (simp_all only: marks_append marks_quoted bare_quote_lines if_True if_False simp_thms)

lemma marks_reason_block: "marks (reason_block (bare_quote s)) = marks (reason_block s)"
  unfolding reason_block_def bare_quote_blank
  by (cases "py_strip s = []") (simp_all only: marks_append marks_quoted bare_quote_lines if_True if_False simp_thms)

lemma dot_blank: "(dot s = []) = (s = [])"
  by (simp add: dot_def)

lemma marks_wrap:
  assumes "plain_cfg cfg" and "plain pre" "plain pre'" and "plain env" "plain env'" and "plain eb" "plain ac" "plain disc"
    and "pre \<noteq> []" "pre' \<noteq> []" and "(env = []) = (env' = [])" and "marks body = marks body'"
  shows "marks (mail_wrap cfg body pre env eb ac disc) = marks (mail_wrap cfg body' pre' env' eb ac disc)"
proof -
  have "marks (preheader_html pre) = marks (preheader_html pre')"
    unfolding preheader_html_def Let_def by (simp only: marks_append marks_escape)
  moreover have "marks (envelope_line env) = marks (envelope_line env')"
    unfolding envelope_line_def assms(11) by (cases "env' = []") (simp_all only: marks_append marks_escape if_True if_False simp_thms)
  ultimately show ?thesis
    unfolding wrap_layout [OF assms(1,2,4,6,7,8)] wrap_layout [OF assms(1,3,5,6,7,8)]
    by (simp only: marks_append marks_escape assms(9,10,12) if_True if_False not_False_eq_True)
qed

lemma plain_nonblank: "plain s \<Longrightarrow> plain t \<Longrightarrow> plain (nonblank s t)"
  by (simp add: nonblank_def)

lemma plain_dot: "plain (dot s)"
  by (simp add: dot_def plain_def)

lemma plain_disc: "plain c1 \<Longrightarrow> plain (status_disc c1 c2 m)"
  unfolding status_disc_def Let_def
  by (assumption | rule plain_rules | rule plain_lit, code_simp)+

lemmas plain_texts = plain_rules plain_nonblank plain_dot plain_disc

lemma marks_if: "marks (if b then s else t) = (if b then marks s else marks t)"
  by simp

lemmas same_marks = marks_append marks_escape marks_greeting marks_url marks_quote_block marks_reason_block marks_if dot_blank append_Nil

lemmas mail_defs = mail_html.simps bare.simps plain_mail.simps invite_html_def reminder_html_def completed_html_def envelope_html_def
  otp_html_def declined_html_def expired_html_def headline_def lead_def doc_card_def cta_def note_line_def fallback_link_def Let_def

text \<open>Property C36. Texts that people type (names, document names, messages, reasons, links, codes) add no markup to a mail: the
  angle brackets and quotation marks of every message are those of the same message without its texts (line
  breaks of a quoted text apart), provided the texts that the preview line and the footer show, and the
  operator's own settings, have no opening brace.\<close>

theorem texts_add_no_markup:
  assumes "plain_cfg cfg" and "plain_mail m"
  shows "marks (mail_html cfg m) = marks (mail_html cfg (bare m))"
  by (insert assms, cases m; simp only: mail_defs; (elim conjE)?; rule marks_wrap;
      (assumption | rule plain_texts refl | rule plain_lit, code_simp | simp only: same_marks cong: if_cong | simp add: dot_blank nonblank_def)+)

definition demo_cfg :: mail_cfg where
  "demo_cfg = \<lparr>mc_from = ''a@x.io'', mc_from_name = ''X'', mc_base = ''https://x.io'', mc_entity = [], mc_address = [], mc_env = (\<lambda>n. None)\<rparr>"

lemma texts_add_no_markup_witness:
  "marks (mail_html demo_cfg (ExpiredMail ''<b>Lease</b>'' ''E1'')) = marks (mail_html demo_cfg (ExpiredMail [] ''.''))"
proof -
  have "plain_cfg demo_cfg" "plain_mail (ExpiredMail ''<b>Lease</b>'' ''E1'')" by (simp_all add: plain_cfg_def demo_cfg_def plain_def)
  from texts_add_no_markup [OF this] show ?thesis by (simp add: dot_def)
qed

text \<open>The links of a message lead to web addresses only.\<close>

lemma safe_url_web:
  "safe_url u = ''#'' \<or> (\<exists>v. safe_url u = escape v \<and> (startswith v ''http://'' \<or> startswith v ''https://''))"
  by (simp add: safe_url_def Let_def) blast

text \<open>The shell is filled by successive replacements, the preview line first: a place written in a document's name is
  filled too. With \<open>{body}\<close> in it the whole body stands in the hidden preview line and again in its place.\<close>

lemma preview_takes_body:
  assumes "plain_cfg cfg" and "plain a" "plain b" and "plain env_id" and "plain eyebrow" and "plain accent" and "plain disc"
  shows "\<exists>u v w. mail_wrap cfg body (a @ ph ''body'' @ b) env_id eyebrow accent disc = u @ body @ v @ body @ w"
proof -
  have c: "plain (escape (asset cfg ''static/lifted-fp.png''))" "plain (escape (asset cfg ''static/lifted-sign-lockup.gif''))"
    unfolding plain_escape by (intro plain_asset assms(1) plain_lit, code_simp)+
  have esc: "escape (a @ ph ''body'' @ b) = escape a @ ph ''body'' @ escape b"
    by (simp add: escape_chars ph_def escape_char.simps)
  obtain s t where p: "preheader_html (a @ ph ''body'' @ b) = s @ ph ''body'' @ t" "plain s" "plain t"
  proof (rule that)
    show "preheader_html (a @ ph ''body'' @ b) =
        (html ''<span class=`ls-preheader` style=`display:none!important;visibility:hidden;opacity:0;color:transparent;height:0;width:0;max-height:0;max-width:0;overflow:hidden;mso-hide:all`>'' @ escape a) @
        ph ''body'' @ (escape b @ concat (replicate 60 ''&#847;&zwnj;&nbsp;'') @ ''</span>'')"
      unfolding preheader_html_def Let_def esc by (simp only: append_assoc)
  qed (insert assms, (assumption | rule plain_rules | rule plain_lit, code_simp)+)
  have ne: "a @ ph ''body'' @ b \<noteq> []" by (simp add: ph_def)
  have e: "plain (escape eyebrow)" unfolding plain_escape by (rule assms(5))
  note q = plain_quiet [OF c(1)] plain_quiet [OF c(2)] plain_quiet [OF p(2)] plain_quiet [OF p(3)] plain_quiet [OF plain_footer [OF assms(1)]]
    plain_quiet [OF plain_envelope [OF assms(4)]] plain_quiet [OF e] plain_quiet [OF assms(6)] plain_quiet [OF assms(7)]
  have "mail_wrap cfg body (a @ ph ''body'' @ b) env_id eyebrow accent disc =
     (base_0 @
     base_1 @
     base_2 @
     base_3 @
     base_4 @ s) @ body @ (t @
     base_5 @
     base_6 @
     base_7 @ escape (asset cfg ''static/lifted-sign-lockup.gif'') @
     base_8 @ disc @
     base_9 @ escape eyebrow @
     base_10 @ accent @
     base_11 @ accent @
     base_12) @ body @ (
     base_13 @ escape (asset cfg ''static/lifted-fp.png'') @
     base_14 @ footer_legal cfg @ envelope_line env_id @
     base_15 @
     base_16)"
    unfolding mail_wrap_def BASE_def if_P [OF ne] p(1)
    by (simp only: replace_here replace_here_end places places_differ not_False_eq_True replace_other replace_quiet replace_quiet_end q
        quiet_0 quiet_1 quiet_2 quiet_3 quiet_4 quiet_5 quiet_6 quiet_7 quiet_8 quiet_9 quiet_10 quiet_11 quiet_12 quiet_13 quiet_14 quiet_15 quiet_16 append_assoc simp_thms)
  then show ?thesis by blast
qed

text \<open>Two literals that hold a character entity are escaped once more, so the entity is shown as text.\<close>

lemma escaped_twice:
  "escape ''Signed &amp; completed'' = ''Signed &amp;amp; completed''"
  "escape ''Completed &middot; sealed'' = ''Completed &amp;middot; sealed''"
  by code_simp+

section \<open>Sending\<close>

record message =
  mg_to :: string
  mg_from_name :: string
  mg_from :: string
  mg_reply :: string
  mg_subject :: string
  mg_text :: string
  mg_html :: string
  mg_files :: "(string \<times> string \<times> bytes) list"

datatype smtp_step = Ehlo | StartTls | Login string string | SendMail string "string list" message

text \<open>What the outside sees: a print to the console, or a session with a relay (implicit TLS or not). The transport answers
  with the text of the exception that ended the session, if one did.\<close>

datatype mail_effect = Console string string string string | Session bool string int "smtp_step list"

record mail_io =
  io_text :: "string \<Rightarrow> string"
  io_smtp :: "mail_effect \<Rightarrow> string option"

datatype sent = SentConsole string | Sent string | NotSent string

definition mail_env :: "mail_cfg \<Rightarrow> string \<Rightarrow> string \<Rightarrow> string" where
  "mail_env cfg name default1 = py_strip (nonblank (coalesce (mc_env cfg name) []) default1)"

definition mail_env_bool :: "mail_cfg \<Rightarrow> string \<Rightarrow> bool \<Rightarrow> bool" where
  "mail_env_bool cfg name default1 =
     (case mc_env cfg name of
        None \<Rightarrow> default1
      | Some raw \<Rightarrow> py_lower (py_strip raw) \<in> set [''1'', ''true'', ''yes'', ''on''])"

definition build_message ::
  "mail_io \<Rightarrow> string \<Rightarrow> string \<Rightarrow> string \<Rightarrow> string \<Rightarrow> string \<Rightarrow> (string \<times> bytes) list \<Rightarrow> string \<Rightarrow> string option \<Rightarrow> message" where
  "build_message io to1 subject body from_addr from_name attachments reply_to text =
     \<lparr>mg_to = to1, mg_from_name = from_name, mg_from = from_addr, mg_reply = reply_to, mg_subject = subject,
      mg_text = nonblank (coalesce text []) (io_text io body), mg_html = body,
      mg_files = map (\<lambda>(fn, data). (if startswith (rev (py_lower fn)) (rev ''.pdf'') then ''pdf'' else ''octet-stream'', fn, data)) attachments\<rparr>"

definition smtp_steps :: "mail_cfg \<Rightarrow> bool \<Rightarrow> string \<Rightarrow> string \<Rightarrow> message \<Rightarrow> smtp_step list" where
  "smtp_steps cfg implicit_tls from_addr to1 msg =
     (let user = coalesce (mc_env cfg ''SMTP_USER'') []; password = coalesce (mc_env cfg ''SMTP_PASSWORD'') [];
          auth = (if user = [] then [] else [Login user password])
      in (if implicit_tls then [] else Ehlo # (if mail_env_bool cfg ''SMTP_STARTTLS'' True then [StartTls, Ehlo] else [])) @
         auth @ [SendMail from_addr [to1] msg])"

text \<open>The result, with what was done outside. A port that is no number raises before anything is sent.\<close>

definition send_html ::
  "mail_cfg \<Rightarrow> mail_io \<Rightarrow> string \<Rightarrow> string \<Rightarrow> string \<Rightarrow> (string \<times> bytes) list \<Rightarrow> string option \<Rightarrow> string option \<Rightarrow> string option \<Rightarrow>
   py_exc + sent \<times> mail_effect" where
  "send_html cfg io to1 subject body attachments from_name0 text reply_to0 =
     (let from_addr = py_strip (mc_from cfg); from_name = coalesce from_name0 (mc_from_name cfg);
          reply_to = coalesce reply_to0 (mail_env cfg ''MAIL_REPLY_TO'' []); host = mail_env cfg ''SMTP_HOST'' [];
          body_text = nonblank (coalesce text []) (io_text io body)
      in if host = [] \<or> from_addr = [] then
           Inr (SentConsole from_addr, Console (if host = [] then ''SMTP_HOST unset'' else ''MAIL_FROM blank'') to1 subject body_text)
         else (case py_int (nonblank (mail_env cfg ''SMTP_PORT'' ''587'') ''587'') of
             None \<Rightarrow> Inl ValueError
           | Some port \<Rightarrow>
               let s = Session (port = 465) host port
                         (smtp_steps cfg (port = 465) from_addr to1 (build_message io to1 subject body from_addr from_name attachments reply_to text))
               in Inr (case io_smtp io s of None \<Rightarrow> Sent from_addr | Some e \<Rightarrow> NotSent (take 180 e), s)))"

text \<open>The older entry point, which never raises.\<close>

definition text_to_html :: "string \<Rightarrow> string" where
  "text_to_html t = html ''<pre style=`font-family:inherit;white-space:pre-wrap;margin:0`>'' @ escape t @ ''</pre>''"

definition send_gmail_new ::
  "mail_cfg \<Rightarrow> mail_io \<Rightarrow> string \<Rightarrow> string \<Rightarrow> string \<Rightarrow> string \<Rightarrow> string \<Rightarrow> (string \<times> bytes) list \<Rightarrow> sent \<times> mail_effect option" where
  "send_gmail_new cfg io to_addr subject body_text body reply_to attachments =
     (if to_addr = [] \<or> CHR ''@'' \<notin> set to_addr then (NotSent ''invalid recipient'', None)
      else (case send_html cfg io to_addr (nonblank subject ''(no subject)'') (nonblank body (text_to_html body_text)) attachments None
                 (if body_text = [] then None else Some body_text) (if reply_to = [] then None else Some reply_to) of
              Inl x \<Rightarrow> (NotSent [], None)
            | Inr (r, e) \<Rightarrow> (r, Some e)))"

definition reported_ok :: "sent \<Rightarrow> bool" where
  "reported_ok r = (case r of NotSent e \<Rightarrow> False | _ \<Rightarrow> True)"

text \<open>A message is reported as sent only if the relay took it or there is none configured; credentials and the message
  go over an encrypted connection unless the operator turned that off.\<close>

lemma send_html_honest:
  assumes "send_html cfg io to1 subject body att fn text rt = Inr (r, e)"
  shows "reported_ok r = (case e of Console c t s b \<Rightarrow> mail_env cfg ''SMTP_HOST'' [] = [] \<or> py_strip (mc_from cfg) = []
    | Session tls host port steps \<Rightarrow> io_smtp io e = None)"
  using assms by (auto simp: send_html_def Let_def reported_ok_def split: if_splits option.splits)

lemma credentials_encrypted:
  assumes "send_html cfg io to1 subject body att fn text rt = Inr (r, Session tls host port steps)"
    and "mail_env_bool cfg ''SMTP_STARTTLS'' True" and "\<not> tls"
  shows "\<exists>rest. steps = [Ehlo, StartTls, Ehlo] @ rest \<and> (\<forall>s \<in> set rest. s \<noteq> StartTls)"
  using assms by (auto simp: send_html_def Let_def smtp_steps_def split: if_splits option.splits)
end
