(* ===== verification/Google.thy ===== *)
theory Google
  imports Signin Envelope
begin

text \<open>
  The Google sign-in client (\<open>sign/hub_auth.py\<close>): the address of the consent page, the checks on an identity
  token and the exchange of a code for an e-mail address; then the two callbacks that use it. The process
  environment, the POST to the token endpoint (\<open>None\<close> when it raises, fails or answers no JSON object) and
  google-auth's check of a token against an audience (\<open>None\<close> when it raises or is not installed) are parameters.
\<close>

record google_env =
  ge_env :: "string \<Rightarrow> string option"
  ge_post :: "(string \<times> string) list \<Rightarrow> Tokens.payload option"
  ge_verify :: "json \<Rightarrow> string \<Rightarrow> Tokens.payload option"
  ge_str :: "json \<Rightarrow> string"

record google_cfg =
  gc_id :: string
  gc_secret :: string
  gc_redirect :: string

definition env_text :: "google_env \<Rightarrow> string \<Rightarrow> string" where
  "env_text g name = py_strip (coalesce (ge_env g name) [])"

definition google_cfg_of :: "google_env \<Rightarrow> google_cfg" where
  "google_cfg_of g =
     \<lparr>gc_id = env_text g ''GOOGLE_OAUTH_CLIENT_ID'', gc_secret = env_text g ''GOOGLE_OAUTH_CLIENT_SECRET'',
      gc_redirect = env_text g ''GOOGLE_OAUTH_REDIRECT''\<rparr>"

definition configured :: "google_env \<Rightarrow> bool" where
  "configured g = (gc_id (google_cfg_of g) \<noteq> [] \<and> gc_secret (google_cfg_of g) \<noteq> [])"

section \<open>The address of the consent page\<close>

text \<open>\<open>urllib.parse.urlencode\<close>: letters, digits and \<open>_.-~\<close> stay, a space becomes a plus sign, every other byte of the UTF-8
  text a percent sign and two hexadecimal digits.\<close>

definition unreserved :: "char \<Rightarrow> bool" where
  "unreserved c = (is_digit c \<or> is_ascii_alpha c \<or> c \<in> set ''_.-~'')"

definition utf8 :: "char \<Rightarrow> nat list" where
  "utf8 c = (let n = char_code c in if n < 128 then [n] else [192 + n div 64, 128 + n mod 64])"

definition hex_digit :: "nat \<Rightarrow> char" where
  "hex_digit n = char_of (if n < 10 then n + 48 else n + 55)"

definition quote_char :: "char \<Rightarrow> string" where
  "quote_char c =
     (if unreserved c then [c] else if c = CHR '' '' then ''+''
      else concat (map (\<lambda>b. [CHR ''%'', hex_digit (b div 16), hex_digit (b mod 16)]) (utf8 c)))"

definition quote_plus :: "string \<Rightarrow> string" where
  "quote_plus s = concat (map quote_char s)"

definition urlencode :: "(string \<times> string) list \<Rightarrow> string" where
  "urlencode q = py_join ''&'' (map (\<lambda>(k, v). quote_plus k @ ''='' @ quote_plus v) q)"

definition CONSENT_PAGE :: string where
  "CONSENT_PAGE = ''https://accounts.google.com/o/oauth2/v2/auth?''"

definition login_query :: "google_cfg \<Rightarrow> string \<Rightarrow> string \<Rightarrow> string \<Rightarrow> (string \<times> string) list" where
  "login_query c ru state nonce =
     [(''client_id'', gc_id c), (''redirect_uri'', ru), (''response_type'', ''code''), (''scope'', ''openid email''),
      (''state'', state), (''access_type'', ''online''), (''prompt'', ''select_account'')] @
     (if nonce = [] then [] else [(''nonce'', nonce)])"

definition google_login_url :: "google_env \<Rightarrow> string \<Rightarrow> string \<Rightarrow> string \<Rightarrow> string" where
  "google_login_url g state redirect_uri nonce =
     (let c = google_cfg_of g; ru = py_strip (nonblank redirect_uri (gc_redirect c)) in
      if gc_id c = [] then [] else if ru = [] then []
      else CONSENT_PAGE @ urlencode (login_query c ru state nonce))"

text \<open>How the reader of a query string takes it apart: at ampersands, then at the first equals sign, then the escapes.\<close>

definition unhex :: "char \<Rightarrow> nat" where
  "unhex c = (let n = char_code c in if n < 58 then n - 48 else n - 55)"

fun unescape :: "string \<Rightarrow> nat list" where
  "unescape (c # a # b # s) =
     (if c = CHR ''%'' then (unhex a * 16 + unhex b) # unescape s
      else (if c = CHR ''+'' then 32 else char_code c) # unescape (a # b # s))"
| "unescape s = map (\<lambda>c. if c = CHR ''+'' then 32 else char_code c) s"

fun utf8_text :: "nat list \<Rightarrow> string" where
  "utf8_text [] = []"
| "utf8_text [m] = [char_of m]"
| "utf8_text (m # n # s) =
     (if m < 128 then char_of m # utf8_text (n # s) else char_of ((m - 192) * 64 + (n - 128)) # utf8_text s)"

definition parse_qs :: "string \<Rightarrow> (string \<times> string) list" where
  "parse_qs s =
     map (\<lambda>w. (utf8_text (unescape (takeWhile (\<lambda>c. c \<noteq> CHR ''='') w)), utf8_text (unescape (tl (dropWhile (\<lambda>c. c \<noteq> CHR ''='') w)))))
       (py_split (CHR ''&'') s)"

lemma unhex_digit: "n < 16 \<Longrightarrow> unhex (hex_digit n) = n"
  by (simp add: unhex_def hex_digit_def char_code_def)

lemma hex_digit_plain: "n < 16 \<Longrightarrow> hex_digit n \<notin> {CHR ''&'', CHR ''=''}"
proof -
  have "list_all (\<lambda>n. hex_digit n \<notin> {CHR ''&'', CHR ''=''}) [0..<16]" by code_simp
  then show "n < 16 \<Longrightarrow> ?thesis" by (simp add: list_all_iff)
qed

lemma code_bound: "char_code c < 256"
  by (simp add: char_code_def)

lemma char_back: "char_of (char_code c) = c"
  by (simp add: char_code_def)

lemma unescape_plain: "c \<noteq> CHR ''%'' \<Longrightarrow> unescape (c # s) = (if c = CHR ''+'' then 32 else char_code c) # unescape s"
  by (cases s; cases "tl s") auto

lemma unescape_escaped: "m < 256 \<Longrightarrow> unescape (CHR ''%'' # hex_digit (m div 16) # hex_digit (m mod 16) # s) = m # unescape s"
  by (simp add: unhex_digit)

lemma unescape_char: "unescape (quote_char c @ s) = utf8 c @ unescape s"
proof -
  have u: "\<not> unreserved (CHR ''%'')" "\<not> unreserved (CHR ''+'')" "char_code (CHR '' '') = 32" by code_simp+
  have b: "192 + char_code c div 64 < 256" "128 + char_code c mod 64 < 256" using code_bound [of c] by auto
  have a: "unreserved c \<Longrightarrow> char_code c < 128" for c
    by (auto simp: unreserved_def is_digit_def is_ascii_alpha_def char_code_def)
  show ?thesis
  proof (cases "unreserved c")
    case True
    then have "c \<noteq> CHR ''%''" "c \<noteq> CHR ''+''" using u by auto
    then show ?thesis using True a [OF True] by (simp add: quote_char_def utf8_def unescape_plain)
  next
    case False
    then show ?thesis
      using u(3) code_bound [of c] unescape_plain [of "CHR ''+''" s]
      by (auto simp: quote_char_def utf8_def Let_def unescape_escaped b simp del: unescape.simps)
  qed
qed

lemma utf8_char: "utf8_text (utf8 c @ s) = c # utf8_text s"
proof (cases "char_code c < 128")
  case True
  then show ?thesis by (cases s) (simp_all add: utf8_def char_back)
next
  case False
  have "(192 + char_code c div 64 - 192) * 64 + (128 + char_code c mod 64 - 128) = char_code c" by simp
  with False show ?thesis by (simp add: utf8_def char_back Let_def)
qed

lemma unescape_quote: "utf8_text (unescape (quote_plus t)) = t"
proof -
  have "unescape (quote_plus t) = concat (map utf8 t)" by (induction t) (simp_all add: quote_plus_def unescape_char)
  moreover have "utf8_text (concat (map utf8 t)) = t" by (induction t) (simp_all add: utf8_char)
  ultimately show ?thesis by simp
qed

lemma quote_plain: "set (quote_plus t) \<inter> {CHR ''&'', CHR ''=''} = {}"
proof -
  have u: "\<not> unreserved (CHR ''&'')" "\<not> unreserved (CHR ''='')" by code_simp+
  have h: "CHR ''&'' \<noteq> hex_digit (b div 16) \<and> CHR ''='' \<noteq> hex_digit (b div 16) \<and>
      CHR ''&'' \<noteq> hex_digit (b mod 16) \<and> CHR ''='' \<noteq> hex_digit (b mod 16)" if "b < 256" for b
  proof -
    have "b div 16 < 16" "b mod 16 < 16" using that by auto
    from this [THEN hex_digit_plain] show ?thesis by auto
  qed
  have "CHR ''&'' \<notin> set (quote_char c) \<and> CHR ''='' \<notin> set (quote_char c)" for c
    using u h [of "char_code c"] h [of "192 + char_code c div 64"] h [of "128 + char_code c mod 64"] code_bound [of c]
    by (auto simp: quote_char_def utf8_def Let_def)
  then show ?thesis by (induction t) (auto simp: quote_plus_def)
qed

lemma parse_urlencode:
  assumes "q \<noteq> []"
  shows "parse_qs (urlencode q) = q"
proof -
  let ?w = "\<lambda>(k, v). quote_plus k @ ''='' @ quote_plus v"
  have "py_split (CHR ''&'') (urlencode q) = map ?w q"
    unfolding urlencode_def using assms quote_plain by (intro py_split_join) auto
  moreover have "(utf8_text (unescape (takeWhile (\<lambda>c. c \<noteq> CHR ''='') (?w kv))),
      utf8_text (unescape (tl (dropWhile (\<lambda>c. c \<noteq> CHR ''='') (?w kv))))) = kv" for kv
  proof -
    obtain k v where kv: "kv = (k, v)" by fastforce
    have "\<forall>c \<in> set (quote_plus k). c \<noteq> CHR ''=''" using quote_plain [of k] by auto
    then show ?thesis by (simp add: kv takeWhile_append2 dropWhile_append2 unescape_quote)
  qed
  ultimately show ?thesis by (simp add: parse_qs_def comp_def)
qed

text \<open>The address of the consent page carries exactly the parameters it is made from: whatever text the signed
  state, the nonce and the redirect address hold, Google reads them back unchanged and nothing else.\<close>

theorem login_url_roundtrip:
  "google_login_url g state redirect_uri nonce = [] \<or>
   (\<exists>s. google_login_url g state redirect_uri nonce = CONSENT_PAGE @ s \<and>
      parse_qs s = login_query (google_cfg_of g) (py_strip (nonblank redirect_uri (gc_redirect (google_cfg_of g)))) state nonce)"
  by (simp add: google_login_url_def Let_def parse_urlencode login_query_def)

section \<open>The exchange\<close>

definition ISSUERS :: "json list" where
  "ISSUERS = [JStr ''accounts.google.com'', JStr ''https://accounts.google.com'']"

definition verify_google_id_token :: "google_env \<Rightarrow> json \<Rightarrow> string \<Rightarrow> Tokens.payload option" where
  "verify_google_id_token g idt client_id =
     (if \<not> truthy idt \<or> client_id = [] then None
      else (case ge_verify g idt client_id of
          None \<Rightarrow> None
        | Some claims \<Rightarrow> if jget claims ''iss'' \<notin> set ISSUERS then None else Some claims))"

text \<open>\<open>hmac.compare_digest\<close> of two strings raises outside ASCII, which the caller turns into a refusal.\<close>

definition is_ascii :: "string \<Rightarrow> bool" where
  "is_ascii s = list_all (\<lambda>c. char_code c < 128) s"

definition same_digest :: "string \<Rightarrow> string \<Rightarrow> bool" where
  "same_digest s t = (is_ascii s \<and> is_ascii t \<and> s = t)"

definition nonce_claim :: "google_env \<Rightarrow> Tokens.payload \<Rightarrow> string" where
  "nonce_claim g claims =
     (case jget claims ''nonce'' of JStr t \<Rightarrow> t | j \<Rightarrow> if truthy j then ge_str g j else [])"

text \<open>\<open>claims.get("email_verified") in (True, "true")\<close>; \<open>True\<close> equals 1.\<close>

definition email_vouched :: "Tokens.payload \<Rightarrow> bool" where
  "email_vouched claims = (jget claims ''email_verified'' \<in> {JBool True, JInt 1, JFloat 1, JStr ''true''})"

definition exchange_data :: "google_cfg \<Rightarrow> string \<Rightarrow> string \<Rightarrow> (string \<times> string) list" where
  "exchange_data c code ru =
     [(''code'', code), (''client_id'', gc_id c), (''client_secret'', gc_secret c), (''redirect_uri'', ru),
      (''grant_type'', ''authorization_code'')]"

definition exchange_code :: "google_env \<Rightarrow> string \<Rightarrow> string \<Rightarrow> string option \<Rightarrow> json" where
  "exchange_code g code redirect_uri expected_nonce =
     (let c = google_cfg_of g; ru = py_strip (nonblank redirect_uri (gc_redirect c)) in
      if \<not> configured g then JNull
      else (case ge_post g (exchange_data c code ru) of
          None \<Rightarrow> JNull
        | Some r \<Rightarrow>
            let idt = (case map_of r ''id_token'' of None \<Rightarrow> JStr [] | Some j \<Rightarrow> j);
                claims = coalesce (verify_google_id_token g idt (gc_id c)) []
            in if coalesce expected_nonce [] \<noteq> [] \<and> \<not> same_digest (nonce_claim g claims) (coalesce expected_nonce []) then JNull
               else if email_vouched claims then jget claims ''email'' else JNull))"

text \<open>What the callbacks are handed: the e-mail claim, which Google documents as a string.\<close>

definition exchanged_email :: "json \<Rightarrow> string option" where
  "exchanged_email j = (case j of JStr t \<Rightarrow> Some t | _ \<Rightarrow> None)"

text \<open>The claims behind an address: the token endpoint gave a token for this code and redirect address, made out to
  this client by Google, with the address verified.\<close>

definition google_proof :: "google_env \<Rightarrow> string \<Rightarrow> string \<Rightarrow> Tokens.payload \<Rightarrow> bool" where
  "google_proof g code redirect_uri claims =
     (\<exists>r idt. ge_post g (exchange_data (google_cfg_of g) code (py_strip (nonblank redirect_uri (gc_redirect (google_cfg_of g))))) = Some r \<and>
        map_of r ''id_token'' = Some idt \<and> ge_verify g idt (gc_id (google_cfg_of g)) = Some claims \<and>
        jget claims ''iss'' \<in> set ISSUERS \<and> email_vouched claims)"

lemma exchange_proven:
  assumes "exchanged_email (exchange_code g code ru nonce) = Some em"
  obtains claims where "google_proof g code ru claims" "jget claims ''email'' = JStr em"
    "coalesce nonce [] \<noteq> [] \<Longrightarrow> nonce_claim g claims = coalesce nonce []"
proof -
  let ?c = "google_cfg_of g" let ?ru = "py_strip (nonblank ru (gc_redirect ?c))"
  have j: "exchange_code g code ru nonce = JStr em" using assms by (simp add: exchanged_email_def split: json.splits)
  then obtain r where r: "ge_post g (exchange_data ?c code ?ru) = Some r"
    by (auto simp: exchange_code_def Let_def split: if_splits option.splits)
  define idt where "idt = (case map_of r ''id_token'' of None \<Rightarrow> JStr [] | Some j \<Rightarrow> j)"
  define claims where "claims = coalesce (verify_google_id_token g idt (gc_id ?c)) []"
  have e: "email_vouched claims" "jget claims ''email'' = JStr em"
      "coalesce nonce [] \<noteq> [] \<Longrightarrow> nonce_claim g claims = coalesce nonce []"
    using j r by (auto simp: exchange_code_def Let_def idt_def [symmetric] claims_def [symmetric] same_digest_def split: if_splits)
  have "claims \<noteq> []" using e(2) by (auto simp: jget_def)
  then have v: "verify_google_id_token g idt (gc_id ?c) = Some claims"
    by (cases "verify_google_id_token g idt (gc_id ?c)") (auto simp: claims_def coalesce_def)
  then have "truthy idt" "ge_verify g idt (gc_id ?c) = Some claims" "jget claims ''iss'' \<in> set ISSUERS"
    by (auto simp: verify_google_id_token_def split: if_splits option.splits)
  moreover have "map_of r ''id_token'' = Some idt"
    using \<open>truthy idt\<close> by (cases "map_of r ''id_token''") (auto simp: idt_def)
  ultimately have "google_proof g code ru claims" using r e(1) by (auto simp: google_proof_def)
  then show ?thesis using that e(2,3) by blast
qed

section \<open>The callbacks with the exchange\<close>

definition sign_redirect_uri :: "string \<Rightarrow> string" where
  "sign_redirect_uri base = rev (dropWhile (\<lambda>c. c = CHR ''/'') (rev base)) @ ''/api/sign-portal/auth/google/callback''"

definition google_exchange :: "google_env \<Rightarrow> string \<Rightarrow> string \<Rightarrow> string option \<Rightarrow> json" where
  "google_exchange g base code expected_nonce = exchange_code g code (sign_redirect_uri base) expected_nonce"

definition signp_google_cb ::
  "google_env \<Rightarrow> string \<Rightarrow> portal_env \<Rightarrow> time \<Rightarrow> string \<Rightarrow> string option \<Rightarrow> string option \<Rightarrow> string \<Rightarrow> string \<Rightarrow> portal \<Rightarrow> signin \<times> portal" where
  "signp_google_cb g base e now jti ck nonce code state p =
     google_callback e now jti ck nonce state (exchanged_email (google_exchange g base code nonce)) p"

definition env_redirect_uri :: "string \<Rightarrow> string" where
  "env_redirect_uri base = rev (dropWhile (\<lambda>c. c = CHR ''/'') (rev base)) @ ''/api/envelope/auth/callback''"

definition env_google_cb ::
  "google_env \<Rightarrow> string \<Rightarrow> access_env \<Rightarrow> time \<Rightarrow> string option \<Rightarrow> string option \<Rightarrow> string \<Rightarrow> string \<Rightarrow> string \<Rightarrow> string \<Rightarrow> site \<Rightarrow> env_login \<times> site" where
  "env_google_cb g base ax now state_cookie nonce_cookie code state ip ua st =
     envelope_auth_callback ax now state_cookie state
       (exchanged_email (exchange_code g code (env_redirect_uri base) nonce_cookie)) ip ua st"

lemma open_session_row:
  assumes "open_session e now jti a p = (r, p')" and "account_by_id p (ac_id a) = Some b"
  shows "\<exists>c. account_by_id p' (ac_id a) = Some c \<and> ac_email c = ac_email b \<and>
    ((\<exists>tok. r = SiSession (ac_id a) tok) \<or> r = SiNeed2fa (make_2fa_pending (pe_auth e) now jti (ac_id a)))"
  using assms by (auto simp: open_session_def Let_def account_writes split: if_splits)

lemma create_email: "create_account env now salt em name pw sub p = (Inr a, p1) \<Longrightarrow> ac_email a = norm_email em"
  by (auto simp: create_account_def Let_def new_account_def split: if_splits)

lemma google_callback_row:
  assumes "accounts_ok p" and "google_callback e now jti c nonce st (Some raw) p = (r, p')" and "\<And>m. r \<noteq> SiError m"
  shows "\<exists>aid b. account_by_id p' aid = Some b \<and> sql_lower (ac_email b) = norm_email raw \<and>
    ((\<exists>tok. r = SiSession aid tok) \<or> r = SiNeed2fa (make_2fa_pending (pe_auth e) now jti aid))"
proof (cases "account_by_email p (norm_email raw)")
  case (Some a)
  let ?q = "if ac_verified a then p
    else set_email_verified (ac_id a) (if ac_phone a \<noteq> [] then attach_phone (ac_id a) [] p else p)"
  have o: "open_session e now jti a ?q = (r, p')"
    using Some assms(2,3) by (auto simp: google_callback_def Let_def split: if_splits)
  have "sql_lower (ac_email a) = norm_email raw"
    using Some by (auto simp: account_by_email_def Let_def dest: find_SomeD split: if_splits)
  moreover have "account_by_id p (ac_id a) = Some a" by (rule account_lookups(2) [OF assms(1) Some])
  then have "\<exists>b. account_by_id ?q (ac_id a) = Some b \<and> ac_email b = ac_email a" by (simp add: account_writes)
  then obtain b where "account_by_id ?q (ac_id a) = Some b" "ac_email b = ac_email a" by blast
  ultimately show ?thesis using open_session_row [OF o] by metis
next
  case None
  then obtain a p1 where a: "create_account (pe_auth e) now [] (norm_email raw) (hd (py_split (CHR ''@'') (norm_email raw))) None [] p = (Inr a, p1)"
      and o: "open_session e now jti a p1 = (r, p')"
    using assms(2,3) by (auto simp: google_callback_def Let_def split: if_splits sum.splits prod.splits)
  show ?thesis using open_session_row [OF o create_account_row(1) [OF a assms(1)]] create_email [OF a]
    by (metis norm_email_idem sql_lower_norm)
qed

text \<open>Property C35. Signing in with Google: whatever code, state and cookies a callback comes with, it is answered with an error, or
  the account it signs in (or asks for a second factor) has the address Google vouched for in a token made out
  to this installation for this code, whose nonce is the one in the browser's cookie, and the state is the
  browser's, too.\<close>

theorem google_signin_proven:
  assumes "accounts_ok p" and "signp_google_cb g base e now jti ck nonce code state p = (r, p')"
  shows "(\<exists>m. r = SiError m) \<or>
    (\<exists>claims em aid b. google_proof g code (sign_redirect_uri base) claims \<and> jget claims ''email'' = JStr em \<and>
       nonce = Some (nonce_claim g claims) \<and> nonce_claim g claims \<noteq> [] \<and> ck = Some state \<and> state \<noteq> [] \<and>
       account_by_id p' aid = Some b \<and> sql_lower (ac_email b) = norm_email em \<and>
       ((\<exists>tok. r = SiSession aid tok) \<or> r = SiNeed2fa (make_2fa_pending (pe_auth e) now jti aid)))"
proof (cases "\<exists>m. r = SiError m")
  case False
  let ?x = "exchanged_email (google_exchange g base code nonce)"
  have cb: "google_callback e now jti ck nonce state ?x p = (r, p')" using assms(2) by (simp add: signp_google_cb_def)
  then obtain em where h: "?x = Some em" "oauth_state_ok ck state" "nonce \<noteq> None" "nonce \<noteq> Some []"
    using False by (auto simp: google_callback_def split: if_splits option.splits)
  obtain claims where c: "google_proof g code (sign_redirect_uri base) claims" "jget claims ''email'' = JStr em"
      "coalesce nonce [] \<noteq> [] \<Longrightarrow> nonce_claim g claims = coalesce nonce []"
    using exchange_proven [OF h(1) [unfolded google_exchange_def]] by blast
  then have n: "nonce = Some (nonce_claim g claims)" "nonce_claim g claims \<noteq> []"
    using h(3,4) by (auto simp: coalesce_def)
  have s: "ck = Some state" "state \<noteq> []" using h(2) by (auto simp: oauth_state_ok_def split: option.splits)
  obtain aid b where "account_by_id p' aid = Some b" "sql_lower (ac_email b) = norm_email em"
      "(\<exists>tok. r = SiSession aid tok) \<or> r = SiNeed2fa (make_2fa_pending (pe_auth e) now jti aid)"
    using google_callback_row [OF assms(1) cb [unfolded h(1)]] False by blast
  then show ?thesis using c(1,2) n s by blast
qed simp

definition demo_google :: google_env where
  "demo_google = \<lparr>ge_env = (\<lambda>n. if n = ''GOOGLE_OAUTH_REDIRECT'' then None else Some ''x''),
     ge_post = (\<lambda>q. if (''code'', ''good'') \<in> set q then Some [(''id_token'', JStr ''t'')] else None),
     ge_verify = (\<lambda>t a. if t = JStr ''t'' \<and> a = ''x'' then Some [(''iss'', JStr ''accounts.google.com''), (''nonce'', JStr ''n''),
        (''email_verified'', JBool True), (''email'', JStr ''ann@x.io'')] else None),
     ge_str = (\<lambda>j. [])\<rparr>"

lemma google_signin_proven_witness:
  "\<exists>r p' claims aid b. signp_google_cb demo_google ''https://x.io/'' (demo_penv []) 20 ''j'' (Some ''s'') (Some ''n'') ''good'' ''s'' demo_portal = (r, p') \<and>
     google_proof demo_google ''good'' (sign_redirect_uri ''https://x.io/'') claims \<and> account_by_id p' aid = Some b"
proof -
  let ?r = "signp_google_cb demo_google ''https://x.io/'' (demo_penv []) 20 ''j'' (Some ''s'') (Some ''n'') ''good'' ''s'' demo_portal"
  have t: "py_strip ''x'' = ''x''" by code_simp
  have "is_ascii ''n''" by code_simp
  then have "exchanged_email (google_exchange demo_google ''https://x.io/'' ''good'' (Some ''n'')) = Some ''ann@x.io''"
    by (simp add: google_exchange_def exchange_code_def demo_google_def configured_def google_cfg_of_def env_text_def t Let_def
        exchange_data_def verify_google_id_token_def ISSUERS_def jget_def nonce_claim_def same_digest_def email_vouched_def exchanged_email_def)
  then obtain tok p' where "?r = (SiSession 3 tok, p')"
    by (simp add: signp_google_cb_def google_callback_def oauth_state_ok_def demo_email account_by_email_def demo_portal_def
        demo_account_def new_account_def open_session_def Let_def py_strip_def)
  with google_signin_proven [OF demo_portal_ok this] show ?thesis by auto
qed

text \<open>The envelope callback has no such guard: a browser without the nonce cookie gets past the nonce check, so a token
  that Google made for another sign-in is taken. The state cookie is still compared.\<close>

lemma envelope_nonce_optional:
  assumes "configured g" and "ge_post g (exchange_data (google_cfg_of g) code (py_strip (nonblank ru (gc_redirect (google_cfg_of g))))) = Some r"
    and "map_of r ''id_token'' = Some idt" and "truthy idt" and "verify_google_id_token g idt (gc_id (google_cfg_of g)) = Some claims"
    and "email_vouched claims"
  shows "exchange_code g code ru None = jget claims ''email''"
  using assms by (simp add: exchange_code_def Let_def)

text \<open>The consent page is offered without a client secret, although no exchange can then succeed.\<close>

lemma login_offered_without_secret:
  assumes "gc_id (google_cfg_of g) \<noteq> []" and "gc_secret (google_cfg_of g) = []" and "py_strip ru \<noteq> []"
  shows "google_login_url g state ru nonce \<noteq> [] \<and> exchange_code g code ru2 n = JNull"
proof -
  have "ru \<noteq> []" using assms(3) by (auto simp: py_strip_def)
  then show ?thesis using assms by (simp add: google_login_url_def exchange_code_def configured_def Let_def nonblank_def CONSENT_PAGE_def)
qed

end
