(* ===== verification/Stamping.thy ===== *)
theory Stamping
  imports Submission Placement
begin

text \<open>
  The drawing of field values and added text (\<open>sign/pdf_stamp.py\<close>, with the dispatcher \<open>apply_edits\<close> of
  \<open>sign/pdf_edit.py\<close>). A page gets an overlay, the list of drawing calls in the order they are made; widths of
  text, the check of an image, and the merging of overlays into the file are parameters. Drawing calls
  themselves do not fail here.
\<close>

section \<open>Pages and the pen\<close>

type_synonym rgb = "real \<times> real \<times> real"

datatype pen_op =
    PText string real rgb real real string
  | PLine rgb real real real real real
  | PImage bytes real real real real
  | PRect rgb real real real real

record page_geom =
  gm_w :: real
  gm_h :: real
  gm_rot :: int

record overlay =
  ov_page :: int
  ov_size :: "real \<times> real"
  ov_ctm :: "real list"
  ov_ops :: "pen_op list"

record draw_env =
  dw_pages :: "bytes \<Rightarrow> page_geom list option"
  dw_width :: "string \<Rightarrow> string \<Rightarrow> real \<Rightarrow> real"
  dw_fallback :: bool
  dw_valid_image :: "bytes \<Rightarrow> bool"
  dw_merge :: "bytes \<Rightarrow> overlay list \<Rightarrow> bytes option"
  dw_run_font :: "string \<Rightarrow> real \<Rightarrow> string \<Rightarrow> json \<Rightarrow> json \<Rightarrow> int \<Rightarrow> string"
  dw_str :: "json \<Rightarrow> string"
  dw_float :: "string \<Rightarrow> real option"
  dw_redact :: "bytes \<Rightarrow> json list \<Rightarrow> py_exc + bytes"

text \<open>The size a viewer shows, with the page's rotation applied.\<close>

definition visual_dims :: "page_geom \<Rightarrow> real \<times> real" where
  "visual_dims g = (let rot = gm_rot g mod 360 in if rot = 90 \<or> rot = 270 then (gm_h g, gm_w g) else (gm_w g, gm_h g))"

definition ctm :: "int \<Rightarrow> real \<Rightarrow> real \<Rightarrow> real list" where
  "ctm rot w0 h0 =
     (if rot = 90 then [0, 1, -1, 0, w0, 0] else if rot = 180 then [-1, 0, 0, -1, w0, h0]
      else if rot = 270 then [0, -1, 1, 0, 0, h0] else [1, 0, 0, 1, 0, 0])"

text \<open>The pen takes top-left coordinates and draws in the canvas's bottom-left ones.\<close>

definition pen_text :: "real \<Rightarrow> real \<Rightarrow> real \<Rightarrow> string \<Rightarrow> string \<Rightarrow> real \<Rightarrow> rgb \<Rightarrow> pen_op" where
  "pen_text vh x baseline s font size1 color = PText font size1 color x (vh - baseline) s"

definition pen_line :: "real \<Rightarrow> real \<Rightarrow> real \<Rightarrow> real \<Rightarrow> real \<Rightarrow> rgb \<Rightarrow> real \<Rightarrow> pen_op" where
  "pen_line vh x1 y1 x2 y2 color width = PLine color width x1 (vh - y1) x2 (vh - y2)"

definition pen_image :: "real \<Rightarrow> bytes \<Rightarrow> real \<Rightarrow> real \<Rightarrow> real \<Rightarrow> real \<Rightarrow> pen_op" where
  "pen_image vh png x0 y0 x1 y1 = PImage png x0 (vh - y1) (x1 - x0) (y1 - y0)"

definition BLACK :: rgb where "BLACK = (0, 0, 0)"
definition ACCENT :: rgb where "ACCENT = (0.106, 0.329, 0.78)"

definition rect_px :: "real \<times> real \<times> real \<times> real \<Rightarrow> real \<Rightarrow> real \<Rightarrow> real \<times> real \<times> real \<times> real" where
  "rect_px b vw vh = (case b of (x, y, w, h) \<Rightarrow> (x * vw, y * vh, (x + w) * vw, (y + h) * vh))"

section \<open>Fonts\<close>

definition latin1 :: "string \<Rightarrow> bool" where
  "latin1 t = list_all (\<lambda>c. char_code c < 256) t"

definition b14 :: "string \<Rightarrow> bool \<Rightarrow> bool \<Rightarrow> string" where
  "b14 family bold italic =
     (if family = ''serif'' then
        (if bold \<and> italic then ''Times-BoldItalic'' else if bold then ''Times-Bold'' else if italic then ''Times-Italic'' else ''Times-Roman'')
      else (if family = ''mono'' then ''Courier'' else ''Helvetica'') @
        (if bold \<and> italic then ''-BoldOblique'' else if bold then ''-Bold'' else if italic then ''-Oblique'' else []))"

definition font_for :: "draw_env \<Rightarrow> string \<Rightarrow> string \<Rightarrow> bool \<Rightarrow> bool \<Rightarrow> string" where
  "font_for dw t family bold italic =
     (if latin1 t then b14 (if family \<in> {''sans'', ''serif'', ''mono''} then family else ''sans'') bold italic
      else if dw_fallback dw then ''LSFallback'' else b14 ''sans'' bold italic)"

section \<open>Fitting text\<close>

text \<open>\<open>while s > floor and too_wide(s): s -= step\<close>; the steps of the source are positive.\<close>

function shrink :: "(real \<Rightarrow> bool) \<Rightarrow> real \<Rightarrow> real \<Rightarrow> real \<Rightarrow> real" where
  "shrink too_wide floor1 step s =
     (if 0 < step \<and> floor1 < s \<and> too_wide s then shrink too_wide floor1 step (s - step) else s)"
  by pat_completeness auto
termination
proof (relation "measure (\<lambda>(p, l, d, s). nat \<lceil>(s - l) / d\<rceil>)", simp)
  fix p :: "real \<Rightarrow> bool" and l d s :: real
  assume a: "0 < d \<and> l < s \<and> p s"
  have "(s - d - l) / d = (s - l) / d - 1" using a by (simp add: diff_divide_distrib)
  moreover have "0 < (s - l) / d" using a by simp
  ultimately show "((p, l, d, s - d), p, l, d, s) \<in> measure (\<lambda>(p, l, d, s). nat \<lceil>(s - l) / d\<rceil>)" by simp
qed

declare shrink.simps [simp del]

definition one_line :: "string \<Rightarrow> string" where
  "one_line t = py_strip (map (\<lambda>c. if c = CHR 0x0A then CHR '' '' else c) t)"

definition fit_text ::
  "draw_env \<Rightarrow> real \<Rightarrow> real \<times> real \<times> real \<times> real \<Rightarrow> string \<Rightarrow> bool \<Rightarrow> pen_op list" where
  "fit_text dw vh b t0 italic =
     (case b of (x0, y0, x1, y1) \<Rightarrow>
        (let t = one_line t0 in
         if t = [] then []
         else (let bw = x1 - x0; bh = y1 - y0; font = font_for dw t ''sans'' False italic;
                   s = shrink (\<lambda>s. bw - 2 < dw_width dw t font s) 6 (1 / 2) (max 8 (min (bh * 0.7) 22))
               in [pen_text vh (x0 + 1) (y0 + (bh + s * 0.7) / 2) t font s BLACK])))"

text \<open>A word wider than the box, broken at its characters: the full lines, and what is left.\<close>

fun break_word :: "(string \<Rightarrow> bool) \<Rightarrow> string \<Rightarrow> string \<Rightarrow> string list \<times> string" where
  "break_word fits cur [] = ([], cur)"
| "break_word fits cur (c # cs) =
     (if \<not> fits (cur @ [c]) \<and> cur \<noteq> [] then (case break_word fits [c] cs of (ls, r) \<Rightarrow> (cur # ls, r))
      else break_word fits (cur @ [c]) cs)"

fun wrap_words :: "(string \<Rightarrow> bool) \<Rightarrow> string list \<Rightarrow> string \<Rightarrow> string list" where
  "wrap_words fits [] line = [line]"
| "wrap_words fits (w # ws) line =
     (let trial = (if line = [] then w else line @ '' '' @ w) in
      if fits trial \<or> line = [] then
        (if line = [] \<and> \<not> fits w then (case break_word fits [] w of (ls, r) \<Rightarrow> ls @ wrap_words fits ws r)
         else wrap_words fits ws trial)
      else line # wrap_words fits ws w)"

definition wrap_text :: "draw_env \<Rightarrow> string \<Rightarrow> string \<Rightarrow> real \<Rightarrow> real \<Rightarrow> string list" where
  "wrap_text dw t font size1 max_w =
     concat (map (\<lambda>para. wrap_words (\<lambda>u. dw_width dw u font size1 \<le> max_w) (py_split (CHR '' '') para) [])
       (py_split (CHR 0x0A) t))"

definition draw_lines :: "real \<Rightarrow> real \<Rightarrow> real \<Rightarrow> real \<Rightarrow> string \<Rightarrow> real \<Rightarrow> rgb \<Rightarrow> string list \<Rightarrow> pen_op list" where
  "draw_lines vh x baseline leading font size1 color lines =
     map (\<lambda>(i, ln). pen_text vh x (baseline + leading * real i) ln font size1 color) (zip [0..<length lines] lines)"

text \<open>The size at which the wrapped lines fit the height, going down to 6.\<close>

definition fit_textbox :: "draw_env \<Rightarrow> real \<Rightarrow> real \<times> real \<times> real \<times> real \<Rightarrow> string \<Rightarrow> pen_op list" where
  "fit_textbox dw vh b t0 =
     (case b of (x0, y0, x1, y1) \<Rightarrow>
        (let bw = x1 - x0 - 3; bh = y1 - y0 - 3; t = py_strip t0 in
         if t = [] then []
         else (let font = font_for dw t ''sans'' False False;
                   s = shrink (\<lambda>s. bh < real (length (wrap_text dw t font s bw)) * (s * 1.2)) 6 (1 / 2) (max 8 (min ((y1 - y0) * 0.55) 13))
               in if 6 < s then draw_lines vh (x0 + 1.5) (y0 + 1.5 + s) (s * 1.2) font s BLACK (wrap_text dw t font s bw)
                  else fit_text dw vh b t False)))"

section \<open>Ticks and captions\<close>

definition vcheck :: "real \<Rightarrow> real \<Rightarrow> real \<Rightarrow> real \<Rightarrow> rgb \<Rightarrow> pen_op list" where
  "vcheck vh x y_baseline s col =
     (let h = s * 0.66; w = max 0.9 (s * 0.10) in
      [pen_line vh x (y_baseline - h * 0.42) (x + h * 0.42) y_baseline col w,
       pen_line vh (x + h * 0.42) y_baseline (x + h * 0.95) (y_baseline - h) col w])"

definition draw_check :: "real \<Rightarrow> real \<times> real \<times> real \<times> real \<Rightarrow> pen_op list" where
  "draw_check vh b =
     (case b of (x0, y0, x1, y1) \<Rightarrow>
        (let bw = x1 - x0; bh = y1 - y0; s = max 8 (min (bh * 0.78) 18); x = x0 + (bw - s * 0.95) / 2
         in vcheck vh (max (x0 + 1) x) (y0 + (bh + s * 0.5) / 2) s ACCENT))"

definition sig_caption :: "draw_env \<Rightarrow> real \<Rightarrow> real \<times> real \<times> real \<times> real \<Rightarrow> stamp_meta \<Rightarrow> pen_op list" where
  "sig_caption dw vh b m =
     (case b of (x0, y0, x1, y1) \<Rightarrow>
        (let y = (if vh < (y1 + 2.5) + 16 then y0 - 15 else y1 + 2.5);
             name = py_strip (sm_name m); when1 = py_strip (sm_when m);
             line1 = take 64 ((if name = [] then ''Signed'' else ''Signed by '' @ name) @ (if when1 = [] then [] else ''  '' @ when1));
             bits = (if sm_ip m = [] then [] else [''IP '' @ sm_ip m]) @
                    (if sm_sig_id m \<noteq> [] then [sm_sig_id m] else if sm_env m \<noteq> [] then [''Env '' @ sm_env m] else []);
             line2 = take 64 (py_join (''  '' @ [CHR 0xB7] @ ''  '') bits)
         in [pen_line vh x0 y (max x1 (x0 + 130)) y (0.055, 0.647, 0.416) 0.7,
             pen_text vh (x0 + 1) (y + 7.5) line1 (font_for dw line1 ''sans'' True False) 5.4 (0.34, 0.37, 0.44)] @
            (if line2 = [] then [] else [pen_text vh (x0 + 1) (y + 14) line2 (font_for dw line2 ''mono'' False False) 5.0 (0.5, 0.53, 0.6)])))"

section \<open>Stamping the fields\<close>

definition valid_image :: "draw_env \<Rightarrow> bytes \<Rightarrow> bool" where
  "valid_image dw d = (d \<noteq> [] \<and> dw_valid_image dw d)"

text \<open>One field's drawing, in its box on a page of the given height.\<close>

definition draw_field :: "draw_env \<Rightarrow> real \<Rightarrow> real \<times> real \<times> real \<times> real \<Rightarrow> stamp \<Rightarrow> pen_op list" where
  "draw_field dw vh b f =
     (let ftype = py_lower (if st_type f = [] then ''text'' else st_type f); v = st_value f in
      if ftype = ''signature'' \<or> ftype = ''initials'' then
        (case png_from_data_url v of
           Some img \<Rightarrow> if valid_image dw img then (case b of (x0, y0, x1, y1) \<Rightarrow> [pen_image vh img x0 y0 x1 y1])
             else if v \<noteq> [] \<and> \<not> startswith (dropWhile is_space v) ''data:'' then fit_text dw vh b (py_strip v) True else []
         | None \<Rightarrow> if v \<noteq> [] \<and> \<not> startswith (dropWhile is_space v) ''data:'' then fit_text dw vh b (py_strip v) True else []) @
        (case st_meta f of None \<Rightarrow> [] | Some m \<Rightarrow> sig_caption dw vh b m)
      else if ftype = ''checkbox'' then (if is_checked (JStr v) then draw_check vh b else [])
      else if py_strip v = [] then []
      else (case b of (x0, y0, x1, y1) \<Rightarrow>
        if ftype = ''text'' \<and> 26 \<le> y1 - y0 \<and> (CHR 0x0A \<in> set v \<or> x1 - x0 < dw_width dw v ''Helvetica'' 10)
        then fit_textbox dw vh b v else fit_text dw vh b v False))"

text \<open>A field is drawn if its page is there and its box has an area; the rest are skipped.\<close>

definition stampable :: "page_geom list \<Rightarrow> stamp \<Rightarrow> bool" where
  "stampable gs f =
     (0 \<le> st_page f \<and> st_page f < int (length gs) \<and>
      (case visual_dims (gs ! nat (st_page f)) of (vw, vh) \<Rightarrow> case rect_px (st_box f) vw vh of (x0, y0, x1, y1) \<Rightarrow> 0 < x1 - x0 \<and> 0 < y1 - y0))"

definition field_ops :: "draw_env \<Rightarrow> page_geom list \<Rightarrow> stamp \<Rightarrow> pen_op list" where
  "field_ops dw gs f =
     (case visual_dims (gs ! nat (st_page f)) of (vw, vh) \<Rightarrow> draw_field dw vh (rect_px (st_box f) vw vh) f)"

text \<open>\<open>page_draw.setdefault(i, []).append(\<dots>)\<close> for every field in order, then one overlay for each page that has draws.\<close>

definition page_overlay :: "page_geom list \<Rightarrow> (int \<times> pen_op list) list \<Rightarrow> int \<Rightarrow> overlay" where
  "page_overlay gs draws i =
     (let g = gs ! nat i in
      \<lparr>ov_page = i, ov_size = visual_dims g, ov_ctm = ctm (gm_rot g mod 360) (gm_w g) (gm_h g),
       ov_ops = concat (map snd (filter (\<lambda>d. fst d = i) draws))\<rparr>)"

definition merge_overlays :: "draw_env \<Rightarrow> bytes \<Rightarrow> page_geom list \<Rightarrow> (int \<times> pen_op list) list \<Rightarrow> bytes option" where
  "merge_overlays dw data gs draws =
     dw_merge dw data (map (page_overlay gs draws) (filter (\<lambda>i. i \<in> fst ` set draws) (map int [0..<length gs])))"

definition stamp_draws :: "draw_env \<Rightarrow> page_geom list \<Rightarrow> stamp list \<Rightarrow> (int \<times> pen_op list) list" where
  "stamp_draws dw gs fs = map (\<lambda>f. (st_page f, field_ops dw gs f)) (filter (stampable gs) fs)"

definition stamp_fields :: "draw_env \<Rightarrow> bytes \<Rightarrow> stamp list \<Rightarrow> bytes option" where
  "stamp_fields dw data fs =
     (case dw_pages dw data of
        None \<Rightarrow> None
      | Some gs \<Rightarrow> (let draws = stamp_draws dw gs fs in if draws = [] then Some data else merge_overlays dw data gs draws))"

section \<open>Added text\<close>

text \<open>\<open>int(s, 16)\<close> of two characters: a sign or white space may stand for one of them.\<close>

definition hex_value :: "char \<Rightarrow> int" where
  "hex_value c = (let n = int (char_code c) in if n < 58 then n - 48 else if n < 71 then n - 55 else n - 87)"

definition hex_pair :: "char \<Rightarrow> char \<Rightarrow> int option" where
  "hex_pair a b =
     (if is_hex a \<and> is_hex b then Some (hex_value a * 16 + hex_value b)
      else if (a = CHR ''+'' \<or> is_space a) \<and> is_hex b then Some (hex_value b)
      else if a = CHR ''-'' \<and> is_hex b then Some (- hex_value b)
      else if is_hex a \<and> is_space b then Some (hex_value a) else None)"

definition color_of :: "json \<Rightarrow> rgb" where
  "color_of j =
     (case j of
        JStr (h # a # b # c # d # e # f # rest) \<Rightarrow>
          if h \<noteq> CHR ''#'' then BLACK
          else (case (hex_pair a b, hex_pair c d, hex_pair e f) of
              (Some r, Some g, Some bl) \<Rightarrow> (of_int r / 255, of_int g / 255, of_int bl / 255)
            | _ \<Rightarrow> BLACK)
      | JInt n \<Rightarrow> (of_int (n div 65536 mod 256) / 255, of_int (n div 256 mod 256) / 255, of_int (n mod 256) / 255)
      | JList [JFloat r, JFloat g, JFloat bl] \<Rightarrow> (r, g, bl)
      | _ \<Rightarrow> BLACK)"

definition get_or :: "dict \<Rightarrow> string \<Rightarrow> json \<Rightarrow> json" where
  "get_or e k d = (case map_of e k of None \<Rightarrow> d | Some j \<Rightarrow> j)"

definition text_of :: "draw_env \<Rightarrow> json \<Rightarrow> string" where
  "text_of dw j = (case j of JStr t \<Rightarrow> t | _ \<Rightarrow> dw_str dw j)"

definition kind_is_text :: "dict \<Rightarrow> bool" where
  "kind_is_text e = (get_or e ''kind'' (JStr ''text'') = JStr ''text'')"

text \<open>The lines of an item from its first baseline on, refused if one is below the page.\<close>

definition place_lines :: "real \<Rightarrow> real \<Rightarrow> real \<Rightarrow> real \<Rightarrow> string \<Rightarrow> rgb \<Rightarrow> string list \<Rightarrow> py_exc + pen_op list" where
  "place_lines vh x y1st size1 font color lines =
     (let leading = size1 * 1.2; last_baseline = y1st + leading * (real (length lines) - 1)
      in if vh < y1st \<or> vh < last_baseline then Inl ValueError else Inr (draw_lines vh x y1st leading font size1 color lines))"

text \<open>One item: skipped, refused, or drawn.\<close>

definition item_lines :: "draw_env \<Rightarrow> real \<Rightarrow> real \<Rightarrow> dict \<Rightarrow> py_exc + pen_op list" where
  "item_lines dw vw vh e =
     try_bind (jfloat (dw_float dw) (get_or e ''size'' (JInt 11))) (\<lambda>sz.
     let size1 = (if sz = 0 then 11 else sz); t = text_of dw (get_or e ''text'' (JStr []));
         family = text_of dw (get_or e ''font'' (JStr ''sans''));
         font = font_for dw t (if family \<in> {''sans'', ''serif'', ''mono''} then family else ''sans'') False False
     in try_bind (jfloat (dw_float dw) (get_or e ''x'' (JInt 0))) (\<lambda>x.
        try_bind (jfloat (dw_float dw) (get_or e ''y'' (JInt 0))) (\<lambda>y.
        place_lines vh (x * vw) (y * vh + size1) size1 font (color_of (get_or e ''color'' JNull)) (py_split (CHR 0x0A) t))))"

definition item_draw :: "draw_env \<Rightarrow> page_geom list \<Rightarrow> dict \<Rightarrow> py_exc + (int \<times> pen_op list) option" where
  "item_draw dw gs e =
     (if \<not> kind_is_text e then Inr None
      else (case jint (get_or e ''page'' (JInt 0)) of
          Inl x \<Rightarrow> Inr None
        | Inr i \<Rightarrow>
            if i < 0 \<or> int (length gs) \<le> i then Inr None
            else (case visual_dims (gs ! nat i) of (vw, vh) \<Rightarrow>
              try_bind (item_lines dw vw vh e) (\<lambda>ops. Inr (Some (i, ops))))))"

fun text_draws :: "draw_env \<Rightarrow> page_geom list \<Rightarrow> dict list \<Rightarrow> py_exc + (int \<times> pen_op list) list" where
  "text_draws dw gs [] = Inr []"
| "text_draws dw gs (e # es) =
     try_bind (item_draw dw gs e) (\<lambda>d. try_bind (text_draws dw gs es) (\<lambda>ds. Inr (case d of None \<Rightarrow> ds | Some x \<Rightarrow> x # ds)))"

definition add_text :: "draw_env \<Rightarrow> bytes \<Rightarrow> dict list \<Rightarrow> py_exc + bytes" where
  "add_text dw data items =
     (case dw_pages dw data of
        None \<Rightarrow> Inl OtherError
      | Some gs \<Rightarrow>
          try_bind (text_draws dw gs items) (\<lambda>draws.
            if draws = [] then Inr data
            else (case merge_overlays dw data gs draws of None \<Rightarrow> Inl OtherError | Some out \<Rightarrow> Inr out)))"

text \<open>The dispatcher: content is removed first, text goes on top.\<close>

definition pdf_apply_edits :: "draw_env \<Rightarrow> bytes \<Rightarrow> dict list \<Rightarrow> py_exc + bytes" where
  "pdf_apply_edits dw data edits =
     (let regions = filter (\<lambda>e. jget e ''kind'' \<in> {JStr ''redact'', JStr ''whiteout''}) edits; texts = filter kind_is_text edits in
      try_bind (if regions = [] then Inr data else dw_redact dw data (map JObj regions)) (\<lambda>out.
        if texts = [] then Inr out else add_text dw out texts))"

section \<open>Replaced runs\<close>

text \<open>A run is covered with its background and redrawn at most as wide as it was; a run that cannot be read is skipped.\<close>

definition run_num :: "draw_env \<Rightarrow> dict \<Rightarrow> string \<Rightarrow> py_exc + real" where
  "run_num dw e k = (case map_of e k of None \<Rightarrow> Inl KeyError | Some j \<Rightarrow> jfloat (dw_float dw) j)"

definition run_geometry :: "draw_env \<Rightarrow> dict \<Rightarrow> py_exc + real \<times> real \<times> real \<times> real \<times> real" where
  "run_geometry dw e =
     try_bind (run_num dw e ''x0'') (\<lambda>x0. try_bind (run_num dw e ''x1'') (\<lambda>x1. try_bind (run_num dw e ''y0'') (\<lambda>y0.
     try_bind (run_num dw e ''y1'') (\<lambda>y1. try_bind (run_num dw e ''baseline'') (\<lambda>b. Inr (x0, x1, y0, y1, b))))))"

definition run_draw :: "draw_env \<Rightarrow> page_geom list \<Rightarrow> dict \<Rightarrow> py_exc + (int \<times> pen_op list) option" where
  "run_draw dw gs e =
     (case (case map_of e ''page'' of None \<Rightarrow> Inl KeyError | Some j \<Rightarrow> jint j) of
        Inl x \<Rightarrow> Inr None
      | Inr i \<Rightarrow>
          if i < 0 \<or> int (length gs) \<le> i then Inr None
          else (case visual_dims (gs ! nat i) of (vw, vh) \<Rightarrow>
            (case run_geometry dw e of
               Inl x \<Rightarrow> Inr None
             | Inr (rx0, rx1, ry0, ry1, rb) \<Rightarrow>
                 let x0 = rx0 * vw; x1 = rx1 * vw; y0 = ry0 * vh; y1 = ry1 * vh; base = rb * vh in
                 try_bind (jfloat (dw_float dw) (get_or e ''size'' (JInt 11))) (\<lambda>sz.
                 let size1 = (if sz = 0 then 11 else sz); t = text_of dw (get_or e ''text'' (JStr []));
                     bg = (if jget e ''bg'' = JNull then (1, 1, 1) else color_of (jget e ''bg'')) in
                 try_bind (jint (let j = get_or e ''flags'' (JInt 0) in if truthy j then j else JInt 0)) (\<lambda>flags.
                 let font = dw_run_font dw (text_of dw (get_or e ''orig_font'' (JStr []))) size1 t (jget e ''bold'') (jget e ''italic'') flags in
                 try_bind (jfloat (dw_float dw) (get_or e ''pad'' (JFloat (size1 * 0.18)))) (\<lambda>pad.
                 let s = shrink (\<lambda>s. (x1 - x0) + pad < dw_width dw t font s) 6 (1 / 4) size1
                 in Inr (Some (i, [PRect bg (x0 - 1) (vh - (y1 + pad)) ((x1 - x0) + 2) ((y1 - y0) + 2 * pad),
                                   pen_text vh x0 base t font s (color_of (jget e ''color''))]))))))))"

fun run_draws :: "draw_env \<Rightarrow> page_geom list \<Rightarrow> dict list \<Rightarrow> py_exc + (int \<times> pen_op list) list" where
  "run_draws dw gs [] = Inr []"
| "run_draws dw gs (e # es) =
     try_bind (run_draw dw gs e) (\<lambda>d. try_bind (run_draws dw gs es) (\<lambda>ds. Inr (case d of None \<Rightarrow> ds | Some x \<Rightarrow> x # ds)))"

definition replace_runs :: "draw_env \<Rightarrow> bytes \<Rightarrow> dict list \<Rightarrow> py_exc + bytes" where
  "replace_runs dw data runs =
     (case dw_pages dw data of
        None \<Rightarrow> Inl OtherError
      | Some gs \<Rightarrow>
          try_bind (run_draws dw gs runs) (\<lambda>draws.
            if draws = [] then Inr data
            else (case merge_overlays dw data gs draws of None \<Rightarrow> Inl OtherError | Some out \<Rightarrow> Inr out)))"

section \<open>Nothing of a value is dropped\<close>

definition nonspace :: "string \<Rightarrow> string" where
  "nonspace t = filter (\<lambda>c. \<not> is_space c) t"

fun op_text :: "pen_op \<Rightarrow> string" where
  "op_text (PText font size1 color x y t) = t"
| "op_text (PLine c w x1 y1 x2 y2) = []"
| "op_text (PImage d x y w h) = []"
| "op_text (PRect c x y w h) = []"

definition ops_text :: "pen_op list \<Rightarrow> string" where
  "ops_text ops = concat (map op_text ops)"

lemma nonspace_append: "nonspace (s @ t) = nonspace s @ nonspace t"
  by (simp add: nonspace_def)

lemma nonspace_Nil [simp]: "nonspace [] = []"
  by (simp add: nonspace_def)

lemma nonspace_strip: "nonspace (py_strip t) = nonspace t"
proof -
  have d: "filter (\<lambda>c. \<not> is_space c) (dropWhile is_space s) = filter (\<lambda>c. \<not> is_space c) s" for s
    by (induction s) auto
  show ?thesis using d by (simp add: nonspace_def py_strip_def rev_filter [symmetric])
qed

lemma nonspace_one_line: "nonspace (one_line t) = nonspace t"
proof -
  have "is_space (CHR 0x0A)" "is_space (CHR '' '')" by code_simp+
  then show ?thesis unfolding one_line_def nonspace_strip by (induction t) (auto simp: nonspace_def)
qed

lemma break_word_all: "break_word fits cur cs = (ls, r) \<Longrightarrow> concat ls @ r = cur @ cs"
  by (induction fits cur cs arbitrary: ls r rule: break_word.induct) (auto split: if_splits prod.splits)

lemma wrap_words_all: "nonspace (concat (wrap_words fits ws line)) = nonspace line @ nonspace (concat ws)"
proof (induction fits ws line rule: wrap_words.induct)
  case (2 fits w ws line)
  have sp: "is_space (CHR '' '')" by code_simp
  show ?case
  proof (cases "line = [] \<and> \<not> fits w")
    case True
    obtain ls r where b: "break_word fits [] w = (ls, r)" by fastforce
    have "nonspace (concat (wrap_words fits ws r)) = nonspace r @ nonspace (concat ws)"
      using 2(1) [OF refl _ True b [symmetric]] True by simp
    moreover have "nonspace (concat ls) @ nonspace r = nonspace w"
      using break_word_all [OF b] by (metis nonspace_append append_Nil)
    ultimately show ?thesis using True b by (simp add: nonspace_append)
  next
    case False
    then show ?thesis using 2(2,3) sp by (auto simp: Let_def nonspace_append) (simp_all add: nonspace_def)
  qed
qed simp

lemma split_all: "is_space c \<Longrightarrow> nonspace (concat (py_split c t)) = nonspace t"
  by (induction t) (auto simp: nonspace_def split: list.splits)

lemma wrap_text_all: "nonspace (concat (wrap_text dw t font s bw)) = nonspace t"
proof -
  have sp: "is_space (CHR '' '')" "is_space (CHR 0x0A)" by code_simp+
  have "nonspace (concat (concat (map (\<lambda>p. wrap_words f (py_split (CHR '' '') p) []) ps))) = nonspace (concat ps)" for f ps
    by (induction ps) (simp_all add: nonspace_append wrap_words_all split_all [OF sp(1)])
  then show ?thesis unfolding wrap_text_def using split_all [OF sp(2)] by simp
qed

lemma draw_lines_text: "ops_text (draw_lines vh x b l font s c lines) = concat lines"
proof -
  have "map (\<lambda>p. snd p) (zip [0..<length lines] lines) = lines" using map_snd_zip [of "[0..<length lines]" lines] by simp
  then show ?thesis by (simp add: draw_lines_def ops_text_def pen_text_def comp_def case_prod_unfold)
qed

lemma fit_text_all: "nonspace (ops_text (fit_text dw vh b t i)) = nonspace t"
  using nonspace_one_line [of t] by (auto simp: fit_text_def ops_text_def pen_text_def Let_def nonspace_def split: prod.splits)

lemma fit_textbox_all: "nonspace (ops_text (fit_textbox dw vh b t)) = nonspace t"
  using nonspace_strip [of t]
  by (auto simp: fit_textbox_def Let_def draw_lines_text wrap_text_all fit_text_all split: prod.splits) (auto simp: ops_text_def nonspace_def)

definition text_like :: "stamp \<Rightarrow> bool" where
  "text_like f = (py_lower (st_type f) \<notin> {''signature'', ''initials'', ''checkbox''})"

lemma field_text_all:
  assumes "text_like f"
  shows "nonspace (ops_text (field_ops dw gs f)) = nonspace (st_value f)"
proof -
  have t: "py_lower ''text'' = ''text''" by code_simp
  have e: "py_strip v = [] \<Longrightarrow> nonspace v = []" for v using nonspace_strip [of v] by (simp add: nonspace_def)
  have n: "nonspace (ops_text []) = []" by (simp add: ops_text_def nonspace_def)
  show ?thesis
    using assms
    by (auto simp: field_ops_def draw_field_def text_like_def Let_def t e n fit_text_all fit_textbox_all
        split: prod.splits if_splits)
qed

lemma stamped_values:
  assumes "dw_pages dw data = Some gs" and "f \<in> set fs" and "stampable gs f"
  shows "\<exists>ovs ov pre post. stamp_fields dw data fs = dw_merge dw data ovs \<and> ov \<in> set ovs \<and> ov_page ov = st_page f \<and>
    ov_ops ov = pre @ field_ops dw gs f @ post \<and>
    (text_like f \<longrightarrow> nonspace (ops_text (field_ops dw gs f)) = nonspace (st_value f))"
proof -
  let ?draws = "stamp_draws dw gs fs" let ?i = "st_page f"
  let ?ovs = "map (page_overlay gs ?draws) (filter (\<lambda>i. i \<in> fst ` set ?draws) (map int [0..<length gs]))"
  have i: "0 \<le> ?i" "?i < int (length gs)" using assms(3) by (auto simp: stampable_def)
  obtain as bs where fs: "filter (stampable gs) fs = as @ f # bs"
    using assms(2,3) split_list [of f "filter (stampable gs) fs"] by auto
  let ?ops = "\<lambda>xs. concat (map snd (filter (\<lambda>d. fst d = ?i) (map (\<lambda>f. (st_page f, field_ops dw gs f)) xs)))"
  have "stamp_fields dw data fs = dw_merge dw data ?ovs"
    using assms(1) fs by (simp add: stamp_fields_def merge_overlays_def stamp_draws_def Let_def)
  moreover have "page_overlay gs ?draws ?i \<in> set ?ovs"
  proof -
    have "?i = int (nat ?i)" "nat ?i \<in> {0..<length gs}" using i by auto
    then have "?i \<in> set (map int [0..<length gs])" by (metis set_map set_upt image_eqI)
    moreover have "?i \<in> fst ` set ?draws" by (simp add: stamp_draws_def fs)
    ultimately show ?thesis by auto
  qed
  moreover have "ov_page (page_overlay gs ?draws ?i) = ?i" by (simp add: page_overlay_def Let_def)
  moreover have "ov_ops (page_overlay gs ?draws ?i) = ?ops as @ field_ops dw gs f @ ?ops bs"
    by (simp add: page_overlay_def Let_def stamp_draws_def fs)
  ultimately show ?thesis using field_text_all [of f dw gs] by blast
qed

text \<open>Added text stays on its page, or the whole edit is refused.\<close>

lemma placed_on_page:
  assumes "place_lines vh xo y1st size1 fo co lines = Inr ops" and "PText font s c x y t \<in> set ops"
  shows "0 \<le> y"
proof -
  let ?l = "size1 * 1.2"
  have h: "y1st \<le> vh" "y1st + ?l * (real (length lines) - 1) \<le> vh" "ops = draw_lines vh xo y1st ?l fo size1 co lines"
    using assms(1) by (auto simp: place_lines_def Let_def split: if_splits)
  then obtain k where k: "k < length lines" "y = vh - (y1st + ?l * real k)"
    using assms(2) by (auto simp: draw_lines_def pen_text_def set_zip)
  have "y1st + ?l * real k \<le> vh"
  proof (cases "0 \<le> ?l")
    case True
    have "real k \<le> real (length lines) - 1" using k(1) by linarith
    then have "?l * real k \<le> ?l * (real (length lines) - 1)" using True by (rule mult_left_mono)
    then show ?thesis using h(2) by linarith
  next
    case False
    then have "?l * real k \<le> 0" by (intro mult_nonpos_nonneg) auto
    then show ?thesis using h(1) by linarith
  qed
  then show ?thesis using k(2) by simp
qed

lemma item_placed:
  assumes "item_lines dw vw vh e = Inr ops"
  shows "\<exists>xo y1st size1 fo co lines. place_lines vh xo y1st size1 fo co lines = Inr ops"
  using assms unfolding item_lines_def try_bind_eq_Inr Let_def by (elim exE conjE, intro exI)

lemma item_on_page:
  assumes "item_draw dw gs e = Inr (Some (i, ops))" and "PText font s c x y t \<in> set ops"
  shows "0 \<le> i \<and> i < int (length gs) \<and> 0 \<le> y"
proof -
  obtain vw vh where "item_lines dw vw vh e = Inr ops" "0 \<le> i" "i < int (length gs)"
    using assms(1) by (auto simp: item_draw_def try_bind_eq_Inr split: if_splits sum.splits prod.splits)
  then show ?thesis using item_placed placed_on_page [OF _ assms(2)] by blast
qed

text \<open>A word that does not fit is broken only at the beginning of a line; after another word it is carried over whole and
  runs out of the box.\<close>

lemma long_word_overflows:
  "wrap_words (\<lambda>u. length u \<le> 3) [''a'', ''bbbbbb''] [] = [''a'', ''bbbbbb'']"
  "wrap_words (\<lambda>u. length u \<le> 3) [''bbbbbb''] [] = [''bbb'', ''bbb'']"
  by code_simp+

section \<open>The sealed document carries the values\<close>


definition demo_draw :: draw_env where
  "demo_draw = \<lparr>dw_pages = (\<lambda>d. Some [\<lparr>gm_w = 600, gm_h = 800, gm_rot = 90\<rparr>]), dw_width = (\<lambda>t f s. real (length t) * s / 2),
     dw_fallback = True, dw_valid_image = (\<lambda>d. True), dw_merge = (\<lambda>d ovs. Some d), dw_run_font = (\<lambda>n s t b i fl. ''Helvetica''),
     dw_str = (\<lambda>j. []), dw_float = (\<lambda>t. None), dw_redact = (\<lambda>d es. Inr d)\<rparr>"

definition draw_engine :: engine where
  "draw_engine = ref_engine\<lparr>en_stamp := stamp_fields demo_draw\<rparr>"

definition filled_world :: world where
  "filled_world = sample_out\<lparr>field_rows := [blank_field\<lparr>f_value := ''Ann Lee''\<rparr>]\<rparr>"

lemma filled_facts:
  "unique_agr filled_world" "agr_row filled_world 1 = agr_row sample_out 1" "may_claim now filled_world (the (agr_row sample_out 1))"
  "presented_bytes filled_world a = presented_bytes sample_out a"
  "v_fields (view_of filled_world (the (agr_row sample_out 1))) = [blank_field\<lparr>f_value := ''Ann Lee''\<rparr>]"
proof -
  have r: "agr_row filled_world i = agr_row sample_out i" "agr_signers filled_world i = agr_signers sample_out i" for i
    by (simp_all add: filled_world_def agr_row_def agr_signers_def)
  show "unique_agr filled_world" using sample_out_rows(2) by (simp add: filled_world_def unique_agr_def)
  show "agr_row filled_world 1 = agr_row sample_out 1" by (rule r)
  show "may_claim now filled_world (the (agr_row sample_out 1))" using sample_out_may_claim by (simp add: may_claim_def r)
  show "presented_bytes filled_world a = presented_bytes sample_out a" by (simp add: filled_world_def presented_bytes_def source_bytes_def)
  show "v_fields (view_of filled_world (the (agr_row sample_out 1))) = [blank_field\<lparr>f_value := ''Ann Lee''\<rparr>]"
    by (simp add: view_of_def sample_out_rows) (simp add: filled_world_def agr_fields_def blank_field_def blank_agreement_def)
qed


end
