(* ===== verification/Certificate.thy ===== *)
theory Certificate
  imports Stamping "HOL-Library.Sublist"
begin

text \<open>
  The Certificate of Completion (\<open>sign/pdf_cert.py\<close>): the labels and evidence that are put on it, and the
  whole layout as the drawing commands the buffered canvas records, page by page. Text widths, the text of a
  time, the configured identity and the disclosure texts are parameters; replaying the commands on reportlab
  and the post-operations on the file are not modelled. In literals \<open>~\<close> stands for a middle dot, \<open>^\<close> for a long
  dash, \<open>`\<close> for an ellipsis and \<open>|\<close> for the section sign (\<open>glyphs\<close> puts them in, as Windows-1252 codes).
\<close>

section \<open>Helpers\<close>

definition glyphs :: "string \<Rightarrow> string" where
  "glyphs s = map (\<lambda>c. if c = CHR ''~'' then CHR 0xB7 else if c = CHR ''^'' then CHR 0x97
     else if c = CHR 0x60 then CHR 0x85 else if c = CHR ''|'' then CHR 0xA7 else c) s"

definition dash :: string where "dash = [CHR 0x97]"

definition ascii_upper :: "string \<Rightarrow> string" where
  "ascii_upper s = map (\<lambda>c. if 97 \<le> char_code c \<and> char_code c \<le> 122 then char_of (char_code c - 32) else c) s"

record cert_env =
  cw_width :: "string \<Rightarrow> string \<Rightarrow> real \<Rightarrow> real"
  cw_fmt :: "time \<Rightarrow> string"
  cw_tz :: string
  cw_now :: time
  cw_entity :: string
  cw_support :: string
  cw_mail_from :: string
  cw_version :: string
  cw_disclosure :: "bool \<Rightarrow> string"
  cw_sha256 :: "bytes \<Rightarrow> string"

text \<open>\<open>_fmt\<close>: nothing for a missing or zero time.\<close>

definition fmt :: "cert_env \<Rightarrow> time option \<Rightarrow> string" where
  "fmt w t = (if is_set t then cw_fmt w (the t) else [])"

definition mask_email :: "string \<Rightarrow> string" where
  "mask_email email =
     (let e = py_strip email; local = takeWhile (\<lambda>c. c \<noteq> CHR ''@'') e; domain = tl (dropWhile (\<lambda>c. c \<noteq> CHR ''@'') e) in
      if CHR ''@'' \<notin> set e \<or> local = [] \<or> domain = [] then dash
      else hd local # replicate (max 3 (min (length local - 1) 5)) (CHR 0x95) @ ''@'' @ domain)"

definition access_label :: "string \<Rightarrow> string" where
  "access_label meth =
     (let m = py_strip meth in
      if m = [] then ''Demonstrated'' else if m = ''viewed_pdf_in_browser'' then ''Viewed PDF in-browser''
      else map (\<lambda>c. if c = CHR ''_'' then CHR '' '' else c) m)"

definition friendly_ua :: "string \<Rightarrow> string" where
  "friendly_ua ua =
     (let u = py_lower ua; is = (\<lambda>p. contains p u);
          browser =
            (if is ''edg/'' then ''Microsoft Edge'' else if is ''opr/'' \<or> is ''opera'' then ''Opera''
             else if is ''samsungbrowser'' then ''Samsung Internet'' else if is ''brave'' then ''Brave''
             else if (is ''chrome'' \<or> is ''crios'') \<and> \<not> is ''chromium'' then ''Chrome''
             else if is ''firefox'' \<or> is ''fxios'' then ''Firefox'' else if is ''safari'' then ''Safari'' else ''Web browser'');
          osys =
            (if is ''windows'' then ''Windows'' else if is ''android'' then ''Android''
             else if is ''iphone'' \<or> is ''ipad'' \<or> is ''ipod'' then ''iOS''
             else if is ''macintosh'' \<or> is ''mac os'' then ''macOS'' else if is ''linux'' then ''Linux'' else [])
      in if u = [] then dash else if osys = [] then browser else browser @ '' on '' @ osys)"

definition auth_label :: "string \<Rightarrow> string" where
  "auth_label m =
     (let k = py_lower (nonblank m ''email'') in
      if k = ''email_otp'' then ''Email + one-time passcode (OTP)''
      else if k = ''access_code'' then ''Email + private access code'' else glyphs ''Email ~ single-use token link'')"

definition EVENT_LABELS :: "(string \<times> string) list" where
  "EVENT_LABELS =
     [(''created'', ''Envelope created''), (''edited'', ''Document edited''), (''sent'', ''Envelope sent''),
      (''emailed'', ''Invitation emailed''), (''viewed'', ''Document viewed''), (''self_sign'', ''Self-sign link issued''),
      (''reminded'', ''Reminder sent''), (''signed'', ''Signer completed''), (''declined'', ''Signing declined''),
      (''completed'', ''Envelope completed''), (''voided'', ''Envelope voided''), (''signature_adopted'', ''Signature adopted''),
      (''field_signed'', ''Field signed''), (''econsent_accepted'', ''E-consent accepted''),
      (''records_access_demonstrated'', ''Records access demonstrated''), (''econsent_withdrawn'', ''E-consent withdrawn''),
      (''signer_authenticated'', ''Signer authenticated''), (''email_verified'', ''Email verified''),
      (''otp_verified'', ''OTP verified''), (''doc_frozen'', ''Document frozen (presented version)''),
      (''doc_sealed'', ''Document sealed''), (''redacted'', ''Content redacted''), (''text_added'', ''Text added''),
      (''completed_copy_delivered'', ''Completed copy delivered''), (''access_challenge_passed'', ''Identity check passed''),
      (''access_challenge_failed'', ''Identity check failed''), (''access_challenge_locked'', ''Identity check locked''),
      (''access_challenge_configured'', ''Identity check configured''),
      (''envelope_access_verified'', ''Envelope access verified''), (''envelope_viewed'', ''Envelope viewed'')]"

text \<open>\<open>str.title()\<close> on the ASCII letters of an event type: a letter is upper case unless a letter goes before it.\<close>

fun title_from :: "bool \<Rightarrow> string \<Rightarrow> string" where
  "title_from after [] = []"
| "title_from after (c # cs) = (if after then lower_char c else hd (ascii_upper [c])) # title_from (is_ascii_alpha c) cs"

definition event_label :: "string \<Rightarrow> string" where
  "event_label t =
     (case map_of EVENT_LABELS (py_lower (py_strip t)) of
        Some l \<Rightarrow> l
      | None \<Rightarrow> nonblank (title_from False (py_strip (map (\<lambda>c. if c = CHR ''_'' then CHR '' '' else c) t))) ''Event'')"

section \<open>Evidence of identity\<close>

definition CHALLENGE_LABELS :: "(string \<times> string) list" where
  "CHALLENGE_LABELS = [(''code'', ''Access code verified''), (''text'', ''Security question verified''),
     (''dob'', ''Date of birth verified''), (''ssn'', ''SSN verified''), (''ssn_last4'', ''Last-4 SSN verified'')]"

definition CHALLENGE_FACTOR :: "(string \<times> string) list" where
  "CHALLENGE_FACTOR = [(''code'', ''Private access code''), (''text'', glyphs ''Security question ~ knowledge-based''),
     (''dob'', glyphs ''Date of birth ~ knowledge-based''), (''ssn'', glyphs ''Social Security number ~ knowledge-based''),
     (''ssn_last4'', glyphs ''Last 4 of SSN ~ knowledge-based'')]"

definition challenge_passed :: "signer \<Rightarrow> event list \<Rightarrow> bool" where
  "challenge_passed s es =
     (is_set (s_challenge_passed_at s) \<or>
      (\<exists>e \<in> set es. py_lower (e_type e) = ''access_challenge_passed'' \<and> e_signer e = Some (s_id s)))"

definition check_shown :: "signer \<Rightarrow> event list \<Rightarrow> bool" where
  "check_shown s es = (s_challenge_type s \<noteq> [] \<and> s_challenge_type s \<noteq> ''none'' \<and> challenge_passed s es)"

definition identity_evidence :: "cert_env \<Rightarrow> signer \<Rightarrow> event list \<Rightarrow> (string \<times> string) list" where
  "identity_evidence w s es =
     (let when1 = fmt w (if is_set (s_env_at s) then s_env_at s else s_otp_at s); m = s_env_method s in
      (if check_shown s es
       then [(''Identity check'', case map_of CHALLENGE_LABELS (s_challenge_type s) of Some l \<Rightarrow> l | None \<Rightarrow> ''Identity check verified'')] else []) @
      (if startswith m ''otp:'' then
         [((if startswith (rev m) (rev ''sms'') then ''SMS'' else ''Email'') @ '' OTP verified'', nonblank when1 ''Verified'')]
       else if m = ''google'' then [(''Google verified'', mask_email (nonblank (s_env_email s) (s_email s)))]
       else if is_set (s_otp_at s) then [(''OTP verified'', nonblank when1 ''Verified'')] else []))"

definition challenge_factor :: "signer \<Rightarrow> event list \<Rightarrow> string" where
  "challenge_factor s es =
     (if check_shown s es
      then (case map_of CHALLENGE_FACTOR (s_challenge_type s) of Some l \<Rightarrow> l | None \<Rightarrow> ''Sender access lock'') else [])"

section \<open>The affirmation of a signer\<close>

definition signer_affirmation :: "cert_env \<Rightarrow> signer \<Rightarrow> string \<Rightarrow> string \<Rightarrow> string" where
  "signer_affirmation w s version auth =
     (let name = py_strip (nonblank (nonblank (s_name s) (s_email s)) ''This signer'');
          when1 = nonblank (fmt w (s_consent_at s)) (fmt w (s_signed_at s));
          dv = py_strip (nonblank version (s_disclosure_version s));
          a = py_strip (nonblank auth ''a unique single-use access link'');
          access = (if s_access_demonstrated s then access_label (s_access_method s) else [])
      in py_join '' ''
        ([name @ '' took an affirmative action to adopt an electronic signature and, by applying it, affirmed the intent to sign this record and agreed that the electronic signature is the legal equivalent of a handwritten signature.'',
          if s_consent s \<or> is_set (s_consent_at s) then
            ''The signer affirmatively consented to transact business electronically and to use electronic records and signatures'' @
            (if dv \<noteq> [] then '', accepting the Electronic Record and Signature Disclosure (version '' @ dv @ '')''
             else '' under the ESIGN Act and UETA'') @
            (if when1 \<noteq> [] then '' on '' @ when1 @ '' ('' @ cw_tz w @ '')'' else []) @ ''.''
          else ''Consent to transact electronically was not separately recorded for this signer (non-consumer / inferred from conduct).'',
          ''Identity was authenticated via '' @ a @ ''; the IP address, device and timestamp of each action are recorded in the audit trail.''] @
         (if s_is_consumer s then
            [glyphs ''As a consumer, the signer was shown the |7001(c) disclosure (paper-copy right, withdrawal right and consequences, scope, how to update contact information, and the hardware/software requirements) before consenting, and demonstrated the ability to access the electronic records'' @
             (if access \<noteq> [] then '' ('' @ access @ '')'' else []) @ ''.''] else []) @
         (if is_set (s_withdrawn_at s) then
            [''This signer subsequently withdrew electronic-records consent on '' @ fmt w (s_withdrawn_at s) @ ''.''] else [])))"

definition wrap_lines :: "cert_env \<Rightarrow> string \<Rightarrow> real \<Rightarrow> real \<Rightarrow> string \<Rightarrow> string list" where
  "wrap_lines w t width size1 font =
     (case fold (\<lambda>word (out, line).
          let test = py_strip (line @ '' '' @ word) in
          if line \<noteq> [] \<and> width < cw_width w font test size1 then (out @ [line], word) else (out, test)) (split_ws t) ([], []) of
        (out, line) \<Rightarrow> let ls = out @ (if line = [] then [] else [line]) in if ls = [] then [[]] else ls)"

section \<open>The canvas\<close>

datatype cert_op =
    CText real real string real rgb string
  | CTurned real real string real rgb string real "real \<times> real" real
  | CBox real real real real string real rgb string
  | CRect real real real real "rgb option" "rgb option" real
  | CLine real real real real rgb real nat
  | CCircle real real real "rgb option" "rgb option" real real
  | COval real real real real rgb real
  | CImage real real real real bytes
  | CPrint real real real string

record canvas =
  cv_done :: "cert_op list list"
  cv_page :: "cert_op list"
  cv_y :: real

definition cert_pages :: "canvas \<Rightarrow> cert_op list list" where
  "cert_pages c = cv_done c @ [cv_page c]"

definition put :: "cert_op list \<Rightarrow> canvas \<Rightarrow> canvas" where
  "put ops c = c\<lparr>cv_page := cv_page c @ ops\<rparr>"

definition down :: "real \<Rightarrow> canvas \<Rightarrow> canvas" where
  "down dy c = c\<lparr>cv_y := cv_y c + dy\<rparr>"

definition PW :: real where "PW = 612"
definition PH :: real where "PH = 792"
definition PM :: real where "PM = 54"

definition HERO :: rgb where "HERO = (0.016, 0.027, 0.043)"
definition HERO2 :: rgb where "HERO2 = (0.035, 0.063, 0.094)"
definition ONHERO :: rgb where "ONHERO = (0.96, 0.975, 0.985)"
definition ONHERO2 :: rgb where "ONHERO2 = (0.60, 0.69, 0.78)"
definition ACCENT_HERO :: rgb where "ACCENT_HERO = (0.353, 0.651, 1.0)"
definition ACCENT_DK :: rgb where "ACCENT_DK = (0.078, 0.243, 0.62)"
definition LOGO_INK :: rgb where "LOGO_INK = (0.09, 0.12, 0.16)"
definition INK :: rgb where "INK = (0.08, 0.11, 0.15)"
definition GREY :: rgb where "GREY = (0.42, 0.47, 0.54)"
definition GREY2 :: rgb where "GREY2 = (0.55, 0.60, 0.66)"
definition RED :: rgb where "RED = (0.80, 0.16, 0.16)"
definition HAIR :: rgb where "HAIR = (0.85, 0.88, 0.92)"
definition TINT :: rgb where "TINT = (0.965, 0.978, 0.986)"
definition TINT2 :: rgb where "TINT2 = (0.92, 0.95, 1.0)"
definition ZEBRA :: rgb where "ZEBRA = (0.972, 0.982, 0.99)"
definition WHITE :: rgb where "WHITE = (1, 1, 1)"

definition cert_logo :: "cert_env \<Rightarrow> real \<Rightarrow> real \<Rightarrow> real \<Rightarrow> rgb \<Rightarrow> rgb \<Rightarrow> cert_op list" where
  "cert_logo w x baseline s ink accent =
     (let w1 = cw_width w ''sora'' ''Lifted'' s; w2 = cw_width w ''sora'' ''Sign'' s; uy = baseline + s * 0.16 in
      [CText x baseline ''Lifted'' s ink ''sora'', CText (x + w1) baseline ''Sign'' s accent ''sora'',
       CLine x uy (x + (w1 + w2) * 0.74) uy accent (max 0.7 (s * 0.045)) 0])"

definition globe :: "real \<Rightarrow> real \<Rightarrow> real \<Rightarrow> rgb \<Rightarrow> real \<Rightarrow> cert_op list" where
  "globe cx cy r color width =
     [COval (cx - r) (cy - r) (cx + r) (cy + r) color width,
      CLine (cx - r) cy (cx + r) cy color width 0,
      COval (cx - r) (cy - r * 0.42) (cx + r) (cy + r * 0.42) color (width * 0.85),
      COval (cx - r * 0.5) (cy - r) (cx + r * 0.5) (cy + r) color (width * 0.85),
      COval (cx - r * 0.85) (cy - r) (cx + r * 0.85) (cy + r) color (width * 0.7)]"

definition glow :: "cert_op list" where
  "glow = map (\<lambda>(cx, cy, r, opac). CCircle cx cy r None (Some ACCENT) opac 1) [(PW - 24, 30, 170, 0.05), (36, PH - 16, 190, 0.04)]"

text \<open>The watermark is turned by 27 degrees about a point of the page and almost transparent.\<close>

definition watermark :: "cert_env \<Rightarrow> cert_op list" where
  "watermark w =
     (let wd = cw_width w ''sora'' ''LiftedSign'' 76 in
      [CTurned (PW / 2 - wd / 2) (PH / 2 + 50) ''LiftedSign'' 76 ACCENT ''sora'' 27 (PW / 2, PH / 2 + 30) 0.05])"

definition cert_check :: "real \<Rightarrow> real \<Rightarrow> real \<Rightarrow> rgb \<Rightarrow> cert_op list \<times> real" where
  "cert_check x y_baseline s col =
     (let h = s * 0.66; wd = max 0.9 (s * 0.10) in
      ([CLine x (y_baseline - h * 0.42) (x + h * 0.42) y_baseline col wd 1,
        CLine (x + h * 0.42) y_baseline (x + h * 0.95) (y_baseline - h) col wd 1], h * 0.95 + s * 0.18))"

section \<open>Pages, headings and boxes\<close>

definition page_ground :: "cert_env \<Rightarrow> cert_op list" where
  "page_ground w = CRect 0 0 PW PH None (Some WHITE) 0 # glow @ watermark w"

definition first_page :: "cert_env \<Rightarrow> string \<Rightarrow> bool \<Rightarrow> canvas" where
  "first_page w env pades =
     (let hb = 150; fx = PW - PM - 30; rx = PW - PM - 232;
          es = shrink (\<lambda>s. 168 < cw_width w ''mono'' env s) 8 (1 / 2) 12.5;
          (tick, adv) = cert_check rx 124 7.5 ACCENT_HERO
      in \<lparr>cv_done = [], cv_page = page_ground w @
        [CRect 0 0 PW hb None (Some HERO) 0, CRect 0 (hb - 34) PW hb None (Some HERO2) 0,
         CCircle (PW - 70) 20 150 None (Some ACCENT_HERO) 0.07 1] @
        globe (PM + 11) 34 11 ACCENT_HERO 1 @ cert_logo w (PM + 32) 40 15 ONHERO ACCENT_HERO @
        [CText PM 90 ''Certificate of Completion'' 22 ONHERO ''sorax'',
         CText PM 108 ''Electronic record & signature audit'' 8.5 ONHERO2 ''inter'',
         CCircle fx 56 31 None (Some (0.06, 0.11, 0.15)) 1 1, CCircle fx 56 31 (Some ACCENT_HERO) None 1 1.1,
         CPrint fx 56 19 ''#5AA6FF'',
         CText (fx - cw_width w ''interb'' ''SEALED'' 6.5 / 2) (56 + 47) ''SEALED'' 6.5 ACCENT_HERO ''interb'',
         CText rx 96 ''ENVELOPE ID'' 7 ONHERO2 ''interb'', CText rx 110 env es ONHERO ''mono''] @ tick @
        [CText (rx + adv) 124 (glyphs (if pades then ''Certified ~ PAdES PKCS#7 ~ SHA-256'' else ''Tamper-evident ~ SHA-256 + AES-256''))
           7.5 ACCENT_HERO ''interb'',
         CRect 0 hb PW (hb + 2.4) None (Some ACCENT) 0], cv_y = hb + 30\<rparr>)"

definition new_cert_page :: "cert_env \<Rightarrow> string \<Rightarrow> canvas \<Rightarrow> canvas" where
  "new_cert_page w env c =
     \<lparr>cv_done = cv_done c @ [cv_page c], cv_page = page_ground w @
        [CRect 0 0 PW 3 None (Some ACCENT) 0] @ cert_logo w PM 48 12.5 LOGO_INK ACCENT @
        [CText (PM + 78) 48 (glyphs ''~ Certificate of Completion'') 10 GREY ''sora'',
         CText (PW - PM - 150) 48 (''Envelope '' @ env) 8 GREY ''mono'',
         CLine PM 60 (PW - PM) 60 HAIR 0.6 0], cv_y = 84\<rparr>"

definition ensure :: "cert_env \<Rightarrow> string \<Rightarrow> real \<Rightarrow> canvas \<Rightarrow> canvas" where
  "ensure w env space c = (if PH - 56 < cv_y c + space then new_cert_page w env c else c)"

definition heading :: "cert_env \<Rightarrow> string \<Rightarrow> string \<Rightarrow> string \<Rightarrow> canvas \<Rightarrow> canvas" where
  "heading w env t sub c0 =
     (let c = ensure w env 38 c0; y = cv_y c in
      down 24 (put ([CText PM y t 11 ACCENT ''sora''] @
        (if sub = [] then [] else [CText (PM + cw_width w ''sora'' t 11 + 8) y (glyphs ''~ '' @ sub) 8.5 GREY ''inter'']) @
        [CLine PM (y + 6) (PW - PM) (y + 6) ACCENT 1.1 0]) c))"

definition kv_ops :: "real \<Rightarrow> string \<Rightarrow> string \<Rightarrow> real \<Rightarrow> real \<Rightarrow> cert_op list" where
  "kv_ops y label1 v x wd =
     [CText x y (ascii_upper label1) 7 GREY ''sora'', CBox x (y + 4) (x + wd) (y + 40) v 9.5 INK ''inter'']"

definition summary :: "cert_env \<Rightarrow> string \<Rightarrow> cert_input \<Rightarrow> canvas \<Rightarrow> canvas" where
  "summary w env ci c0 =
     (let c = heading w env ''DOCUMENT SUMMARY'' [] c0; y = cv_y c; col2 = PW / 2 + 10;
          contact = nonblank (cw_support w) (cw_mail_from w);
          sender = py_join (glyphs '' ~ '') (filter (\<lambda>x. x \<noteq> []) [cw_entity w, contact])
      in down (34 + 34 + 34 + 32) (put
        (kv_ops y ''Document'' (a_name (ci_agr ci)) PM 240 @
         kv_ops y ''Status'' (nonblank (ascii_upper (status_text (a_status (ci_agr ci)))) dash) col2 200 @
         kv_ops (y + 34) ''Pages'' (if ci_pages ci = 0 then dash else py_str (ci_pages ci)) PM 100 @
         kv_ops (y + 34) ''Signers / Fields'' (show_nat (length (ci_signers ci)) @ '' / '' @ show_nat (ci_fields_n ci)) (PM + 130) 140 @
         kv_ops (y + 34) ''Time zone'' (cw_tz w) col2 200 @
         kv_ops (y + 68) ''Sender (Holder of record)'' (nonblank sender dash) PM 300 @
         kv_ops (y + 68) ''Issued by'' ''LiftedSign'' col2 200 @
         kv_ops (y + 102) ''Document SHA-256 (executed)'' (nonblank (ci_preseal ci) dash) PM (PW - 2 * PM)) c))"

section \<open>The card of a signer\<close>

text \<open>The status column in upper case.\<close>

fun signer_status :: "sig_status \<Rightarrow> string" where
  "signer_status Pending = ''PENDING''"
| "signer_status Sent = ''SENT''"
| "signer_status Viewed = ''VIEWED''"
| "signer_status Signed = ''SIGNED''"
| "signer_status SigDeclined = ''DECLINED''"
| "signer_status SigDraft = ''DRAFT''"
| "signer_status NoSigStatus = []"

definition card_details :: "cert_env \<Rightarrow> string \<Rightarrow> signer \<Rightarrow> event list \<Rightarrow> (string \<times> string) list" where
  "card_details w version s es =
     (let dv = nonblank (s_disclosure_version s) version; accepted = py_strip (''Accepted ERSD '' @ dv) in
      [(''Signature ID'', nonblank (s_signature_id s) dash), (''Authentication'', auth_label (s_auth_method s)),
       (''IP address'', nonblank (s_ip s) dash), (''Device'', friendly_ua (s_ua s))] @
      identity_evidence w s es @
      (if is_set (s_consent_at s) then
         [(''Consent'', if dv \<noteq> [] then accepted else ''Accepted ERSD''), (''Consent at'', fmt w (s_consent_at s))]
       else if s_consent s then [(''Consent'', if dv \<noteq> [] then accepted else ''Accepted ESIGN/UETA'')]
       else [(''Consent'', ''Not recorded'')]) @
      (if s_consent_ip s \<noteq> [] then [(''Consent IP'', s_consent_ip s)] else []) @
      (if s_disclosure_hash s \<noteq> [] then [(''Disclosure hash'', take 16 (s_disclosure_hash s) @ [CHR 0x85])] else []) @
      (if s_is_consumer s \<and> s_access_demonstrated s then [(''Access shown'', access_label (s_access_method s))] else []) @
      (if is_set (s_withdrawn_at s) then [(''Consent withdrawn'', fmt w (s_withdrawn_at s))] else []))"

definition card_status :: "signer \<Rightarrow> real \<Rightarrow> cert_op list" where
  "card_status s top_y =
     (let st = signer_status (s_status s); ok = st \<in> {''SIGNED'', ''COMPLETED''};
          col = (if ok then ACCENT else if st = ''DECLINED'' then RED else GREY);
          (tick, adv) = (if ok then cert_check (PM + 6) (top_y + 43) 9 col else ([], 0))
      in tick @ [CText (PM + 6 + adv) (top_y + 43) (nonblank st dash) 9 col ''sora''])"

definition card_image :: "string option \<Rightarrow> real \<Rightarrow> cert_op list" where
  "card_image v top_y =
     (case png_from_data_url (case v of Some u \<Rightarrow> u | None \<Rightarrow> []) of
        Some (b # bs) \<Rightarrow>
          [CRect (PM + 6) (top_y + 51) (PM + 204) (top_y + 83) (Some HAIR) (Some WHITE) 0.06,
           CImage (PM + 10) (top_y + 53) (PM + 200) (top_y + 81) (b # bs)]
      | _ \<Rightarrow> [CText (PM + 6) (top_y + 65) ''Signature captured electronically'' 8 GREY2 ''helv''])"

definition card_consumer :: "cert_env \<Rightarrow> string \<Rightarrow> real \<Rightarrow> cert_op list" where
  "card_consumer w nm top_y =
     (let nw = cw_width w ''sora'' nm 11.5 in
      [CRect (PM + 9 + nw) (top_y + 4) (PM + 9 + nw + 54) (top_y + 15) None (Some (0.90, 0.94, 1)) 0.45,
       CText (PM + 14 + nw) (top_y + 12.5) ''CONSUMER'' 6.2 ACCENT_DK ''sora''])"

fun detail_ops :: "real \<Rightarrow> (string \<times> string) list \<Rightarrow> cert_op list" where
  "detail_ops dy [] = []"
| "detail_ops dy ((lab, val) # ds) =
     [CText (PW / 2 + 10) dy (ascii_upper lab @ '':'') 6.8 GREY ''sora'', CText (PW / 2 + 10 + 88) dy val 8 INK ''helv''] @
     detail_ops (dy + 12.5) ds"

definition factor_ops :: "cert_env \<Rightarrow> string \<Rightarrow> real \<Rightarrow> cert_op list" where
  "factor_ops w factor fy =
     [CRect (PM - 6) fy (PW - PM + 6) (fy + 26) None (Some TINT2) 0,
      CRect (PM - 6) fy (PM - 2) (fy + 26) None (Some ACCENT) 0, CPrint (PM + 13) (fy + 26 / 2) 8.5 ''#1B54C7'',
      CText (PM + 28) (fy + 11) ''ADDITIONAL VERIFICATION FACTOR'' 6.6 ACCENT_DK ''sora'',
      CText (PM + 28) (fy + 21) factor 8.2 INK ''interb'',
      CText (PW - PM - cw_width w ''interb'' ''SENDER-LOCKED'' 6.4 - 2) (fy + 16) ''SENDER-LOCKED'' 6.4 ACCENT_DK ''interb'']"

fun line_ops :: "real \<Rightarrow> string list \<Rightarrow> cert_op list" where
  "line_ops ay [] = []"
| "line_ops ay (l # ls) = CText (PM + 6) ay l 7.2 GREY ''inter'' # line_ops (ay + 9.6) ls"

definition card_times :: "cert_env \<Rightarrow> signer \<Rightarrow> string list" where
  "card_times w s =
     (if is_set (s_viewed_at s) then [''opened '' @ fmt w (s_viewed_at s)] else []) @
     (if is_set (s_consent_at s) then [''consented '' @ fmt w (s_consent_at s)]
      else if s_consent s \<and> is_set (s_signed_at s) then [''consented '' @ fmt w (s_signed_at s)] else []) @
     (if is_set (s_signed_at s) then [''signed '' @ fmt w (s_signed_at s)] else [])"

definition affirmation_lines :: "cert_env \<Rightarrow> string \<Rightarrow> signer \<Rightarrow> string list" where
  "affirmation_lines w version s =
     wrap_lines w (signer_affirmation w s (nonblank (s_disclosure_version s) version) (auth_label (s_auth_method s)))
       (PW - 2 * PM - 14) 7.2 ''helv''"

definition card_ops ::
  "cert_env \<Rightarrow> string \<Rightarrow> event list \<Rightarrow> (int option \<times> string) list \<Rightarrow> signer \<Rightarrow> real \<Rightarrow> real \<Rightarrow> real \<Rightarrow> cert_op list" where
  "card_ops w version es sigs s body_h card_h top_y =
     (let factor = challenge_factor s es; fb_h = (if factor = [] then 0 else 26); nm = nonblank (s_name s) dash;
          by = top_y + body_h + fb_h
      in [CRect (PM - 6) (top_y - 6) (PW - PM + 6) (top_y + card_h) (Some HAIR) (Some TINT) 0.04,
          CRect (PM - 6) (top_y - 6) (PM - 2) (top_y + card_h) None (Some ACCENT) 0,
          CText (PM + 6) (top_y + 13) nm 11.5 INK ''sora''] @
         (if s_is_consumer s then card_consumer w nm top_y else []) @
         [CText (PM + 6) (top_y + 27) (s_email s) 9 GREY ''helv''] @ card_status s top_y @
         card_image (map_of sigs (Some (s_id s))) top_y @ detail_ops (top_y + 9) (card_details w version s es) @
         (if factor = [] then [] else factor_ops w factor (top_y + body_h)) @
         [CLine (PM - 2) by (PW - PM + 6) by HAIR 0.5 0,
          CText (PM + 6) (by + 11) ''CONSENT & INTENT'' 6.4 ACCENT_DK ''sora''] @
         line_ops (by + 21) (affirmation_lines w version s))"

definition signer_card ::
  "cert_env \<Rightarrow> string \<Rightarrow> string \<Rightarrow> event list \<Rightarrow> (int option \<times> string) list \<Rightarrow> signer \<Rightarrow> canvas \<Rightarrow> canvas" where
  "signer_card w env version es sigs s c0 =
     (let band_h = 14 + real (length (affirmation_lines w version s)) * 9.6;
          fb_h = (if challenge_factor s es = [] then 0 else 26);
          body_h = max 86 (18 + real (length (card_details w version s es)) * 12.5);
          card_h = body_h + fb_h + band_h; c = ensure w env (card_h + 24) c0; ts = card_times w s;
          c1 = down (card_h + 6) (put (card_ops w version es sigs s body_h card_h (cv_y c)) c)
      in if ts = [] then down 6 c1
         else down 18 (put [CText PM (cv_y c1) (''    '' @ py_join (glyphs ''   ~   '') ts) 8 GREY ''helv''] c1))"

section \<open>The audit trail\<close>

definition audit_header :: "cert_env \<Rightarrow> canvas \<Rightarrow> canvas" where
  "audit_header w c =
     (let y = cv_y c in
      down 16 (put
        [CRect (PM - 4) (y - 9) (PW - PM + 4) (y + 4) None (Some TINT) 0,
         CText PM y (''TIMESTAMP ('' @ cw_tz w @ '')'') 6.6 GREY ''sora'', CText (PM + 142) y ''EVENT'' 6.6 GREY ''sora'',
         CText (PM + 304) y ''ACTOR / IP / DEVICE'' 6.6 GREY ''sora'',
         CLine (PM - 4) (y + 4) (PW - PM + 4) (y + 4) HAIR 0.6 0] c))"

definition audit_details :: "event \<Rightarrow> string list" where
  "audit_details e =
     (if e_ip e \<noteq> [] then [''IP '' @ e_ip e] else []) @ (if e_ua e \<noteq> [] then [friendly_ua (e_ua e)] else []) @
     (if e_detail e \<noteq> [] then [take 74 (e_detail e)] else [])"

text \<open>\<open>e.get("signer_email") or "system"\<close>: a row of \<open>agreement_events\<close> has a \<open>signer_id\<close> and no such column.\<close>

definition event_columns :: "event \<Rightarrow> (string \<times> string) list" where
  "event_columns e = [(''type'', e_type e), (''ip'', e_ip e), (''user_agent'', e_ua e), (''detail'', e_detail e)]"

definition audit_actor :: "event \<Rightarrow> string" where
  "audit_actor e = nonblank (case map_of (event_columns e) ''signer_email'' of Some v \<Rightarrow> v | None \<Rightarrow> []) ''system''"

definition audit_texts :: "cert_env \<Rightarrow> event \<Rightarrow> string list" where
  "audit_texts w e =
     [fmt w (Some (e_at e)), take 32 (event_label (e_type e)), take 36 (audit_actor e)] @
     (if audit_details e = [] then [] else [take 96 (py_join (glyphs ''  ~  '') (audit_details e))])"

definition row_height :: "event \<Rightarrow> real" where
  "row_height e = 11 + (if audit_details e = [] then 0 else 11)"

definition row_ops :: "cert_env \<Rightarrow> real \<Rightarrow> event \<Rightarrow> cert_op list" where
  "row_ops w y e =
     [CText PM y (fmt w (Some (e_at e))) 7.6 INK ''mono'',
      CText (PM + 142) y (take 32 (event_label (e_type e))) 7.8 INK ''sora'',
      CText (PM + 304) y (take 36 (audit_actor e)) 7.8 INK ''helv''] @
     (if audit_details e = [] then []
      else [CText (PM + 142) (y + 11) (take 96 (py_join (glyphs ''  ~  '') (audit_details e))) 6.8 GREY ''helv''])"

definition audit_row :: "cert_env \<Rightarrow> string \<Rightarrow> event \<Rightarrow> canvas \<times> bool \<Rightarrow> canvas \<times> bool" where
  "audit_row w env e cz =
     (case cz of (c0, z0) \<Rightarrow>
      let h = row_height e; over = PH - 56 < cv_y c0 + h;
          c = (if over then audit_header w (new_cert_page w env c0) else c0); z = \<not> (if over then False else z0);
          y = cv_y c
      in (down h (put ((if z then [CRect (PM - 4) (y - 8.5) (PW - PM + 4) (y + h - 7) None (Some ZEBRA) 0] else []) @
            row_ops w y e) c), z))"

definition audit_trail :: "cert_env \<Rightarrow> string \<Rightarrow> event list \<Rightarrow> canvas \<Rightarrow> canvas" where
  "audit_trail w env es c = fst (fold (audit_row w env) es (audit_header w c, False))"

section \<open>Security and integrity\<close>

definition contact_of :: "cert_env \<Rightarrow> string" where
  "contact_of w = nonblank (nonblank (cw_support w) (cw_mail_from w)) ''the sender''"

definition issuer_of :: "cert_env \<Rightarrow> string" where
  "issuer_of w = nonblank (cw_entity w) ''the operator''"

definition is_pades :: "string \<Rightarrow> bool" where
  "is_pades m = (py_lower (nonblank m ''aes'') = ''pades'')"

text \<open>The two optional hashes of the renderer are left at their empty defaults by both callers.\<close>

definition security_rows :: "cert_env \<Rightarrow> string \<Rightarrow> bool \<Rightarrow> string \<Rightarrow> string \<Rightarrow> string \<Rightarrow> (string \<times> string) list" where
  "security_rows w env pades doc_hash preseal sealed_h =
     [(''Hash algorithm'', ''SHA-256 (FIPS 180-4) over the executed PDF''),
      (''Document fingerprint'', nonblank doc_hash dash)] @
     (if preseal \<noteq> [] then [(''Pre-seal SHA-256'', preseal)] else []) @
     (if sealed_h \<noteq> [] \<and> \<not> pades then [(''Sealed SHA-256'', sealed_h)] else []) @
     (if pades then
        [(''Seal method'', glyphs ''PAdES / PKCS#7 certification signature (DocMDP level 1 ^ no changes permitted after certification) + SHA-256 tamper-evident hash chain + flattened''),
         (''Certification'', ''Self-signed X.509 ('' @ issuer_of w @ ''); any change after certification invalidates the signature in every compliant PDF reader. The certificate is '' @
            glyphs ''not chained to a public CA ^ verifiers who add the '' @ issuer_of w @ '' certificate to their trust store see a fully-trusted status.'')]
      else [(''Seal method'', ''AES-256 encryption + SHA-256 tamper-evident hash chain + flattened'')]) @
     [(''Envelope binding'', ''All signer actions recorded against envelope '' @ env @ '' in the audit trail''),
      (''Access control'', ''Each signer reached the document only via a unique, single-use token link''),
      (''Tamper evidence'', ''Any post-completion change to the document invalidates the hash above''),
      (''Completed (sealed)'', fmt w (Some (cw_now w)) @ ''  '' @ cw_tz w)]"

definition security_row :: "cert_env \<Rightarrow> string \<Rightarrow> string \<times> string \<Rightarrow> canvas \<Rightarrow> canvas" where
  "security_row w env lv c0 =
     (case lv of (lab, val) \<Rightarrow>
      let lx = PM + 138;
          is_hash = (val \<noteq> [] \<and> val \<noteq> dash \<and> (contains ''SHA-256'' (ascii_upper lab) \<or> contains ''FINGERPRINT'' (ascii_upper lab)));
          vh = (if is_hash \<and> PW - PM - lx < cw_width w ''mono'' val 7.8 then 16 else 13);
          c = ensure w env (vh + 4) c0; y = cv_y c
      in down vh (put
           [CText PM y (ascii_upper lab) 7 ACCENT ''sora'',
            CBox lx (y - 7.5) (PW - PM) (y + vh + 2) val (if is_hash then 7.8 else 8.3) INK (if is_hash then ''mono'' else ''helv'')] c))"

text \<open>What a text box draws: the lines of its text, as far as they reach into the box.\<close>

definition textbox_lines :: "cert_env \<Rightarrow> real \<Rightarrow> string \<Rightarrow> real \<Rightarrow> string \<Rightarrow> string list" where
  "textbox_lines w maxw t size1 font =
     concat (map (\<lambda>para.
       case fold (\<lambda>word (ls, cur).
              let test = py_strip (cur @ '' '' @ word) in
              if cur \<noteq> [] \<and> maxw < cw_width w font test size1 then (ls @ [cur], word) else (ls, test))
            (py_split (CHR '' '') para) ([], []) of (ls, cur) \<Rightarrow> ls @ [cur]) (py_split (CHR 0x0A) t))"

fun box_draw :: "real \<Rightarrow> real \<Rightarrow> real \<Rightarrow> real \<Rightarrow> string list \<Rightarrow> (real \<times> real \<times> string) list" where
  "box_draw x ty lh y1 [] = []"
| "box_draw x ty lh y1 (l # ls) = (if y1 + 1 < ty then [] else (x, PH - ty, l) # box_draw x (ty + lh) lh y1 ls)"

definition do_textbox ::
  "cert_env \<Rightarrow> real \<Rightarrow> real \<Rightarrow> real \<Rightarrow> real \<Rightarrow> string \<Rightarrow> real \<Rightarrow> string \<Rightarrow> (real \<times> real \<times> string) list" where
  "do_textbox w x0 y0 x1 y1 t size1 font =
     box_draw x0 (y0 + size1) (size1 * 1.2) y1 (textbox_lines w (x1 - x0 - 1) t size1 font)"

section \<open>The disclosure\<close>

definition flow_emit :: "cert_env \<Rightarrow> string \<Rightarrow> real \<Rightarrow> rgb \<Rightarrow> real \<Rightarrow> string \<Rightarrow> canvas \<Rightarrow> canvas" where
  "flow_emit w env size1 color line_h line c0 =
     (let c = ensure w env line_h c0 in down line_h (put [CText PM (cv_y c) line size1 color ''helv''] c))"

function flow_words ::
  "cert_env \<Rightarrow> string \<Rightarrow> real \<Rightarrow> rgb \<Rightarrow> real \<Rightarrow> string list \<Rightarrow> string \<Rightarrow> canvas \<Rightarrow> canvas" where
  "flow_words w env size1 color line_h [] line c =
     (if line = [] then c else flow_emit w env size1 color line_h line c)"
| "flow_words w env size1 color line_h (x # xs) line c =
     (let test = py_strip (line @ '' '' @ x) in
      if cw_width w ''helv'' test size1 \<le> PW - 2 * PM then flow_words w env size1 color line_h xs test c
      else if line = [] then flow_words w env size1 color line_h xs [] (flow_emit w env size1 color line_h x c)
      else flow_words w env size1 color line_h (x # xs) [] (flow_emit w env size1 color line_h line c))"
  by pat_completeness auto
termination by (relation "measure (\<lambda>(_, _, _, _, _, xs, line, _). 2 * length xs + (if line = [] then 0 else 1))") auto

definition flow_text :: "cert_env \<Rightarrow> string \<Rightarrow> string \<Rightarrow> real \<Rightarrow> rgb \<Rightarrow> real \<Rightarrow> canvas \<Rightarrow> canvas" where
  "flow_text w env t size1 color lh c = flow_words w env size1 color (size1 * lh) (split_ws t) [] c"

definition framing_text :: "cert_env \<Rightarrow> bool \<Rightarrow> string" where
  "framing_text w pades =
     ''Each party named above consented to conduct business electronically and to use electronic records and electronic signatures in connection with this transaction, in accordance with the U.S. ESIGN Act (15 U.S.C. ch. 96) and the Uniform Electronic Transactions Act (UETA). By selecting the consent option and applying their signature, each signer affirmed their intent to sign and agreed that their electronic signature is the legal equivalent of a handwritten signature. Identity was verified by email and a unique, single-use access link; the IP address, user agent, and timestamp of each action are recorded in the audit trail above. The SHA-256 document hash shown above allows any party to detect alteration of the executed document after completion. Under the EU eIDAS Regulation (910/2014) this constitutes a Simple Electronic Signature (SES); admissibility is supported by the audit trail and certificate. It is not a Qualified Electronic Signature (QES). This certificate, together with the executed document, constitutes the complete record of the transaction and is admissible as evidence. Issued and secured by LiftedSign on behalf of '' @ issuer_of w @ ''.'' @
     (if pades then '' This executed document is sealed with a PAdES certification (PKCS#7/CMS) signature at DocMDP level 1; any modification after certification invalidates the signature and is flagged by any compliant PDF reader (Adobe Acrobat, etc.). The signing certificate is self-signed by '' @ issuer_of w @
        '' (an SES-tier certification, as used by DocuSign and Dropbox Sign) and is not chained to a public Certificate Authority.'' else [])"

definition default_disclosure :: "cert_env \<Rightarrow> string" where
  "default_disclosure w =
     ''Paper copies. You have the right to receive this record on paper. To request a paper copy, email '' @ contact_of w @
     ''; no fee is charged for the first copy.  Withdrawing consent. You may withdraw your consent to receive records electronically at any time by emailing '' @ contact_of w @
     '' or using the withdraw link in your signing invitation; the consequence is that the transaction may instead be completed on paper.  Scope. Your consent applies to this transaction and its related records.  Updating contact information. To update the email address used for records, email '' @ contact_of w @
     ''.  Hardware and software. A current web browser (Chrome, Edge, Safari, or Firefox), a PDF reader, internet access, an email account, and a device able to view and download files are required to access and retain these records.''"

definition disclosure_section :: "cert_env \<Rightarrow> string \<Rightarrow> bool \<Rightarrow> bool \<Rightarrow> string \<Rightarrow> canvas \<Rightarrow> canvas" where
  "disclosure_section w env pades consumer disc c0 =
     (let version = cw_version w;
          c1 = heading w env ''ELECTRONIC RECORD AND SIGNATURE DISCLOSURE'' (if version \<noteq> [] then ''version '' @ version else [])
                 (ensure w env 200 (down 12 c0));
          c2 = flow_text w env (framing_text w pades) 8.3 GREY 1.36 c1;
          c3 = (if consumer then
                  (let c = ensure w env 20 (down 8 c2) in
                   down 14 (put [CText PM (cv_y c) (glyphs ''CONSUMER DISCLOSURE ^ ESIGN |7001(c) (five required elements)'') 8.5 ACCENT_DK ''sora''] c))
                else c2);
          body = py_strip disc;
          c4 = flow_text w env (if body = [] then default_disclosure w else body) 8.3 INK 1.36 c3
      in if version = [] then c4
         else (let c = ensure w env 14 (down 6 c4);
                   h = (if disc = [] then [] else cw_sha256 w disc);
                   line = ''Disclosure version '' @ version @ (if h = [] then [] else glyphs '' ~ hash '' @ take 16 h @ [CHR 0x85])
               in down 12 (put [CText PM (cv_y c) line 7.5 GREY2 ''mono''] c)))"

section \<open>The certificate\<close>

definition cert_envelope :: "cert_input \<Rightarrow> string" where
  "cert_envelope ci = nonblank (a_envelope_id (ci_agr ci)) (''LS-'' @ py_str (a_id (ci_agr ci)))"

definition signers_section :: "cert_env \<Rightarrow> string \<Rightarrow> cert_input \<Rightarrow> canvas \<Rightarrow> canvas" where
  "signers_section w env ci c =
     fold (signer_card w env (cw_version w) (ci_events ci) (ci_signatures ci)) (ci_signers ci)
       (heading w env ''SIGNERS'' (glyphs ''identity verification ~ authentication ~ consent'') c)"

definition audit_section :: "cert_env \<Rightarrow> string \<Rightarrow> cert_input \<Rightarrow> canvas \<Rightarrow> canvas" where
  "audit_section w env ci c =
     audit_trail w env (ci_events ci) (heading w env ''RECORD TRACKING'' (glyphs ''audit trail ~ server time'') (down 6 c))"

definition security_section :: "cert_env \<Rightarrow> string \<Rightarrow> cert_input \<Rightarrow> canvas \<Rightarrow> canvas" where
  "security_section w env ci c =
     fold (security_row w env) (security_rows w env (is_pades (ci_method ci)) (ci_preseal ci) [] [])
       (heading w env ''SECURITY & INTEGRITY'' [] (ensure w env 130 (down 12 c)))"

definition cert_layout :: "cert_env \<Rightarrow> cert_input \<Rightarrow> canvas" where
  "cert_layout w ci =
     (let env = cert_envelope ci in
      disclosure_section w env (is_pades (ci_method ci)) (\<exists>s \<in> set (ci_signers ci). s_is_consumer s) (cw_disclosure w (ci_consumer ci))
        (security_section w env ci (audit_section w env ci (signers_section w env ci
          (summary w env ci (first_page w env (is_pades (ci_method ci))))))))"

text \<open>The footer of a page, drawn when the number of pages is known.\<close>

definition cert_footer :: "cert_env \<Rightarrow> string \<Rightarrow> nat \<Rightarrow> nat \<Rightarrow> cert_op list" where
  "cert_footer w env total_pages i =
     [CLine PM (PH - 40) (PW - PM) (PH - 40) HAIR 0.6 0, CText PM (PH - 26) (''Envelope '' @ env) 7.5 GREY ''helv'',
      CText PM (PH - 16) (''Lifted Sign'' @ (if cw_entity w \<noteq> [] then glyphs '' ~ '' @ cw_entity w else [])) 6.8 GREY2 ''helv'',
      CText (PW - PM - 170) (PH - 26)
        (glyphs ''Secured by Lifted Sign ~ page '' @ show_nat (i + 1) @ '' of '' @ show_nat total_pages) 7.5 GREY ''helv'']"

definition render_pages :: "cert_env \<Rightarrow> string \<Rightarrow> cert_op list list \<Rightarrow> cert_op list list" where
  "render_pages w env ps = map (\<lambda>(i, p). p @ cert_footer w env (length ps) i) (enumerate 0 ps)"

definition make_certificate :: "cert_env \<Rightarrow> cert_input \<Rightarrow> cert_op list list" where
  "make_certificate w ci = render_pages w (cert_envelope ci) (cert_pages (cert_layout w ci))"

section \<open>What a layout keeps\<close>

text \<open>The canvas only grows: the pages so far stay, the current one is only added to, others may follow.\<close>

definition grows :: "canvas \<Rightarrow> canvas \<Rightarrow> bool" where
  "grows c c' = (\<exists>xs qs. cert_pages c' = cv_done c @ (cv_page c @ xs) # qs)"

lemma grows_refl [intro, simp]: "grows c c"
  unfolding grows_def cert_pages_def by (rule exI [of _ "[]"]) simp

lemma grows_trans [trans]:
  assumes "grows a b" and "grows b c"
  shows "grows a c"
proof -
  obtain xs qs where 1: "cv_done b @ [cv_page b] = cv_done a @ (cv_page a @ xs) # qs"
    using assms(1) by (auto simp: grows_def cert_pages_def)
  obtain ys rs where 2: "cert_pages c = cv_done b @ (cv_page b @ ys) # rs" using assms(2) by (auto simp: grows_def)
  show ?thesis
  proof (cases qs rule: rev_cases)
    case Nil
    then show ?thesis using 1 2 unfolding grows_def by (intro exI [of _ "xs @ ys"] exI [of _ rs]) simp
  next
    case (snoc qs' q)
    then have "cv_done b = cv_done a @ (cv_page a @ xs) # qs'" using 1 by simp
    then show ?thesis using 2 unfolding grows_def by (intro exI [of _ xs] exI [of _ "qs' @ (cv_page b @ ys) # rs"]) simp
  qed
qed

lemma grows_put [simp]: "grows c (put ops c)"
  unfolding grows_def put_def cert_pages_def by (intro exI [of _ ops] exI [of _ "[]"]) simp

lemma grows_down [simp]: "grows c (down d c') = grows c c'" "grows (down d c) c' = grows c c'"
  by (simp_all add: grows_def down_def cert_pages_def)

lemma grows_new_page [simp]: "grows c (new_cert_page w env c)"
  by (simp add: grows_def new_cert_page_def cert_pages_def)

lemma grows_ensure [simp]: "grows c (ensure w env d c)"
  by (simp add: ensure_def)

lemma grows_ensure_down [simp]: "grows c (ensure w env d (down e c))"
  by (rule iffD1 [OF grows_down(2) grows_ensure])

lemma grows_put_ensure [simp]: "grows c (put ops (ensure w env d c))"
  by (rule grows_trans [OF grows_ensure grows_put])

lemma grows_heading [simp]: "grows c (heading w env t sub c)"
  by (simp add: heading_def Let_def)

lemma grows_fold:
  assumes "\<And>x c. grows c (f x c)"
  shows "grows c (fold f xs c)"
  by (induction xs arbitrary: c) (auto intro: grows_trans assms)

lemma grows_summary [simp]: "grows c (summary w env ci c)"
  by (simp add: summary_def Let_def grows_trans [OF grows_heading grows_put])

lemma grows_signer_card [simp]: "grows c (signer_card w env v es sigs s c)"
  by (auto simp: signer_card_def Let_def intro: grows_trans [OF grows_put_ensure] grows_trans [OF _ grows_put])

lemma grows_signers [simp]: "grows c (signers_section w env ci c)"
  unfolding signers_section_def by (rule grows_trans [OF grows_heading grows_fold [OF grows_signer_card]])

lemma grows_audit_header [simp]: "grows c (audit_header w c)"
  by (simp add: audit_header_def Let_def)

lemma grows_security_row [simp]: "grows c (security_row w env lv c)"
  by (simp add: security_row_def Let_def split: prod.splits)

lemma grows_security [simp]: "grows c (security_section w env ci c)"
  unfolding security_section_def
  by (rule grows_trans [OF grows_trans [OF grows_ensure_down grows_heading] grows_fold [OF grows_security_row]])

lemma grows_flow_emit [simp]: "grows c (flow_emit w env n col h l c)"
  by (simp add: flow_emit_def Let_def)

lemma grows_flow_words: "grows c (flow_words w env n col h xs l c)"
  by (induction w env n col h xs l c rule: flow_words.induct) (auto simp: Let_def intro: grows_trans [OF grows_flow_emit])

lemma grows_flow [simp]: "grows c (flow_text w env t n col h c)"
  by (simp add: flow_text_def grows_flow_words)

lemma grows_after:
  assumes "grows a b"
  shows "grows a (put ops b)" and "grows a (down d b)" and "grows a (ensure w env d b)" and "grows a (heading w env t sub b)"
    and "grows a (flow_text w env t n col h b)"
  using grows_trans [OF assms] by simp_all

lemma grows_disclosure [simp]: "grows c (disclosure_section w env pades consumer disc c)"
  unfolding disclosure_section_def Let_def
  by (cases "cw_version w = []"; cases consumer; simp only: if_True if_False simp_thms; intro grows_after grows_refl)

text \<open>Some page of the canvas holds these operations.\<close>

definition on_page :: "cert_op list \<Rightarrow> cert_op list list \<Rightarrow> bool" where
  "on_page ops ps = (\<exists>p \<in> set ps. set ops \<subseteq> set p)"

lemma on_page_grows: "grows c c' \<Longrightarrow> on_page ops (cert_pages c) \<Longrightarrow> on_page ops (cert_pages c')"
  unfolding grows_def on_page_def by (auto simp: cert_pages_def [of c])

lemma on_page_put: "set ops \<subseteq> set xs \<Longrightarrow> on_page ops (cert_pages (put xs c))"
  by (auto simp: on_page_def put_def cert_pages_def)

lemma on_page_down [simp]: "on_page ops (cert_pages (down d c)) = on_page ops (cert_pages c)"
  by (simp add: down_def cert_pages_def)

lemma on_page_fold:
  assumes "\<And>x c. grows c (f x c)" and "x \<in> set xs" and "\<And>c. on_page (ops x) (cert_pages (f x c))"
  shows "on_page (ops x) (cert_pages (fold f xs c))"
  using assms(2)
proof (induction xs arbitrary: c)
  case (Cons y ys)
  then show ?case
    using on_page_grows [OF grows_fold [of f _ ys, OF assms(1)] assms(3)] by auto
qed simp

lemma on_page_render: "on_page ops ps \<Longrightarrow> on_page ops (render_pages w env ps)"
proof -
  assume "on_page ops ps"
  then obtain i where i: "i < length ps" "set ops \<subseteq> set (ps ! i)" by (auto simp: on_page_def in_set_conv_nth)
  then have "ps ! i @ cert_footer w env (length ps) i \<in> set (render_pages w env ps)"
    by (auto simp: render_pages_def in_set_enumerate_eq image_iff intro!: bexI [of _ "(i, ps ! i)"])
  then show ?thesis using i(2) unfolding on_page_def by (intro bexI) auto
qed

section \<open>The audit trail is complete\<close>

fun op_text :: "cert_op \<Rightarrow> string list" where
  "op_text (CText x y t n col f) = [t]"
| "op_text op = []"

definition page_texts :: "cert_op list \<Rightarrow> string list" where
  "page_texts ops = concat (map op_text ops)"

lemma page_texts_append [simp]: "page_texts (xs @ ys) = page_texts xs @ page_texts ys"
  by (simp add: page_texts_def)

lemma row_texts: "page_texts (row_ops w y e) = audit_texts w e"
  by (simp add: row_ops_def audit_texts_def page_texts_def)

definition inked :: "canvas \<Rightarrow> cert_op list" where
  "inked c = concat (cert_pages c)"

lemma grows_inked: "grows c c' \<Longrightarrow> \<exists>xs. inked c' = inked c @ xs"
  unfolding grows_def inked_def by (auto simp: cert_pages_def [of c])

lemma inked_put [simp]: "inked (put ops c) = inked c @ ops" "inked (down d c) = inked c"
  by (simp_all add: inked_def put_def down_def cert_pages_def)

lemma audit_row_shape:
  obtains c1 pre where "grows c c1" and "cv_y c1 + row_height e \<le> PH - 56"
    and "fst (audit_row w env e (c, z)) = down (row_height e) (put (pre @ row_ops w (cv_y c1) e) c1)"
proof -
  define c1 where "c1 = (if PH - 56 < cv_y c + row_height e then audit_header w (new_cert_page w env c) else c)"
  have "grows c c1" by (simp add: c1_def grows_trans [OF grows_new_page grows_audit_header])
  moreover have "cv_y c1 + row_height e \<le> PH - 56"
    by (auto simp: c1_def audit_header_def new_cert_page_def down_def put_def Let_def row_height_def PH_def)
  moreover have "\<exists>pre. fst (audit_row w env e (c, z)) = down (row_height e) (put (pre @ row_ops w (cv_y c1) e) c1)"
    by (rule exI [of _ "if \<not> (if PH - 56 < cv_y c + row_height e then False else z)
          then [CRect (PM - 4) (cv_y c1 - 8.5) (PW - PM + 4) (cv_y c1 + row_height e - 7) None (Some ZEBRA) 0] else []"])
      (simp add: audit_row_def Let_def c1_def)
  ultimately show ?thesis using that by blast
qed

lemma grows_audit_row [simp]: "grows c (fst (audit_row w env e (c, z)))"
  by (rule audit_row_shape [of c e w env z]) (auto intro: grows_trans [OF _ grows_put])

lemma grows_audit_rows: "grows c (fst (fold (audit_row w env) es (c, z)))"
proof (induction es arbitrary: c z)
  case (Cons e es)
  show ?case using grows_trans [OF grows_audit_row Cons.IH, of c w env e z "snd (audit_row w env e (c, z))"] by simp
qed simp

lemma audit_rows_texts:
  "\<exists>xs. inked (fst (fold (audit_row w env) es (c, z))) = inked c @ xs \<and> subseq (concat (map (audit_texts w) es)) (page_texts xs)"
proof (induction es arbitrary: c z)
  case (Cons e es)
  obtain c1 pre where c1: "grows c c1"
      "fst (audit_row w env e (c, z)) = down (row_height e) (put (pre @ row_ops w (cv_y c1) e) c1)"
    by (rule audit_row_shape)
  obtain ys where ys: "inked c1 = inked c @ ys" using grows_inked [OF c1(1)] by blast
  obtain xs where xs: "inked (fst (fold (audit_row w env) es (audit_row w env e (c, z)))) =
      inked (fst (audit_row w env e (c, z))) @ xs" "subseq (concat (map (audit_texts w) es)) (page_texts xs)"
    using Cons.IH [of "fst (audit_row w env e (c, z))" "snd (audit_row w env e (c, z))"] by auto
  have "subseq (audit_texts w e @ concat (map (audit_texts w) es)) ((page_texts ys @ page_texts pre) @ audit_texts w e @ page_texts xs)"
    unfolding append_assoc [symmetric] using xs(2) by (metis append_assoc subseq_append' subseq_drop_many)
  then show ?case using xs(1) ys c1(2)
    by (intro exI [of _ "ys @ pre @ row_ops w (cv_y c1) e @ xs"]) (simp add: row_texts)
qed simp

text \<open>An event's row: its three or four texts, all above the footer.\<close>

definition row_shown :: "cert_env \<Rightarrow> event \<Rightarrow> cert_op list list \<Rightarrow> bool" where
  "row_shown w e ps = (\<exists>y. y + row_height e \<le> PH - 56 \<and> on_page (row_ops w y e) ps)"

lemma audit_rows_shown:
  "e \<in> set es \<Longrightarrow> row_shown w e (cert_pages (fst (fold (audit_row w env) es (c, z))))"
proof (induction es arbitrary: c z)
  case (Cons a es)
  let ?r = "audit_row w env a (c, z)"
  obtain c1 pre where c1: "cv_y c1 + row_height a \<le> PH - 56"
      "fst ?r = down (row_height a) (put (pre @ row_ops w (cv_y c1) a) c1)"
    by (rule audit_row_shape)
  have "row_shown w a (cert_pages (fst ?r))" unfolding row_shown_def c1(2)
    by (rule exI [of _ "cv_y c1"]) (use c1(1) in \<open>simp add: on_page_put\<close>)
  then have "row_shown w a (cert_pages (fst (fold (audit_row w env) es ?r)))"
    using on_page_grows [OF grows_audit_rows [of "fst ?r" w env es "snd ?r"]] by (auto simp: row_shown_def)
  moreover have "e \<in> set es \<Longrightarrow> row_shown w e (cert_pages (fst (fold (audit_row w env) es ?r)))"
    using Cons.IH [of "fst ?r" "snd ?r"] by simp
  ultimately show ?case using Cons.prems by auto
qed simp

lemma subseq_render: "subseq (page_texts (concat ps)) (page_texts (concat (render_pages w env ps)))"
proof -
  have "subseq (page_texts (concat ps)) (page_texts (concat (map (\<lambda>(i, p). p @ cert_footer w env m i) (enumerate n ps))))" for m n
    by (induction ps arbitrary: n) (auto intro!: list_emb_append_mono list_emb_append2 simp: subseq_append')
  then show ?thesis by (simp add: render_pages_def)
qed

lemma layout_stages:
  fixes w ci
  defines "env \<equiv> cert_envelope ci"
  obtains c0 c2 where "c0 = summary w env ci (first_page w env (is_pades (ci_method ci)))"
    and "grows (signers_section w env ci c0) (cert_layout w ci)"
    and "grows (audit_trail w env (ci_events ci) c2) (cert_layout w ci)"
proof
  let ?c0 = "summary w env ci (first_page w env (is_pades (ci_method ci)))"
  let ?c1 = "signers_section w env ci ?c0"
  let ?c2 = "heading w env ''RECORD TRACKING'' (glyphs ''audit trail ~ server time'') (down 6 ?c1)"
  let ?c3 = "audit_trail w env (ci_events ci) ?c2"
  show "?c0 = ?c0" ..
  have l: "cert_layout w ci = disclosure_section w env (is_pades (ci_method ci)) (\<exists>s \<in> set (ci_signers ci). s_is_consumer s)
      (cw_disclosure w (ci_consumer ci)) (security_section w env ci ?c3)"
    by (simp add: cert_layout_def Let_def env_def audit_section_def)
  show "grows ?c3 (cert_layout w ci)" unfolding l by (rule grows_trans [OF grows_security grows_disclosure])
  have "grows ?c1 ?c2" using grows_heading [of "down 6 ?c1"] by (simp only: grows_down)
  also have "grows ?c2 ?c3" unfolding audit_trail_def by (rule grows_trans [OF grows_audit_header grows_audit_rows])
  also have "grows ?c3 (cert_layout w ci)" by fact
  finally show "grows ?c1 (cert_layout w ci)" .
qed

lemma signer_card_shown:
  "\<exists>b h y. on_page (card_ops w v es sigs s b h y) (cert_pages (signer_card w env v es sigs s c))"
proof -
  define bh where "bh = max 86 (18 + real (length (card_details w v s es)) * 12.5)"
  define ch where "ch = bh + (if challenge_factor s es = [] then 0 else 26) + (14 + real (length (affirmation_lines w v s)) * 9.6)"
  define c1 where "c1 = ensure w env (ch + 24) c"
  let ?c2 = "down (ch + 6) (put (card_ops w v es sigs s bh ch (cv_y c1)) c1)"
  have "signer_card w env v es sigs s c = (if card_times w s = [] then down 6 ?c2
      else down 18 (put [CText PM (cv_y ?c2) (''    '' @ py_join (glyphs ''   ~   '') (card_times w s)) 8 GREY ''helv''] ?c2))"
    unfolding signer_card_def Let_def by (simp only: bh_def ch_def c1_def)
  moreover have "on_page (card_ops w v es sigs s bh ch (cv_y c1)) (cert_pages ?c2)" by (simp add: on_page_put)
  ultimately have "on_page (card_ops w v es sigs s bh ch (cv_y c1)) (cert_pages (signer_card w env v es sigs s c))"
    using on_page_grows [OF grows_put] by simp
  then show ?thesis by blast
qed


definition demo_cert :: cert_env where
  "demo_cert = \<lparr>cw_width = (\<lambda>f t s. real (length t) * s / 2), cw_fmt = (\<lambda>t. ''2026-01-02 03:04:05''), cw_tz = ''UTC'', cw_now = 50,
     cw_entity = ''Acme'', cw_support = ''help@x.io'', cw_mail_from = [], cw_version = ''ERSD-2026-06-01'',
     cw_disclosure = (\<lambda>c. ''Disclosure''), cw_sha256 = (\<lambda>b. b)\<rparr>"

definition demo_cert_input :: cert_input where
  "demo_cert_input = cert_input_for \<lparr>v_row = blank_agreement, v_signers = [blank_signer], v_fields = [blank_field],
       v_events = [\<lparr>e_agr = 1, e_signer = Some 1, e_type = ''signed'', e_ip = ''9.9.9.9'', e_ua = [], e_detail = [], e_at = 40\<rparr>]\<rparr>
     ''doc'' 1 ''pades''"


section \<open>What the certificate does not show\<close>

text \<open>A signer's row without the link and without anything of the sender's lock but its kind.\<close>

definition forget_secrets :: "signer \<Rightarrow> signer" where
  "forget_secrets s = s\<lparr>s_token := None, s_challenge_prompt := [], s_challenge_salt := [], s_challenge_hash := [], s_challenge_iters := 0\<rparr>"

lemma forget_kept [simp]:
  "s_id (forget_secrets s) = s_id s" "s_name (forget_secrets s) = s_name s" "s_email (forget_secrets s) = s_email s"
  "s_status (forget_secrets s) = s_status s" "s_viewed_at (forget_secrets s) = s_viewed_at s"
  "s_signed_at (forget_secrets s) = s_signed_at s" "s_ip (forget_secrets s) = s_ip s" "s_ua (forget_secrets s) = s_ua s"
  "s_consent (forget_secrets s) = s_consent s" "s_signature_id (forget_secrets s) = s_signature_id s"
  "s_is_consumer (forget_secrets s) = s_is_consumer s" "s_auth_method (forget_secrets s) = s_auth_method s"
  "s_consent_at (forget_secrets s) = s_consent_at s" "s_consent_ip (forget_secrets s) = s_consent_ip s"
  "s_disclosure_version (forget_secrets s) = s_disclosure_version s" "s_disclosure_hash (forget_secrets s) = s_disclosure_hash s"
  "s_access_demonstrated (forget_secrets s) = s_access_demonstrated s" "s_access_method (forget_secrets s) = s_access_method s"
  "s_withdrawn_at (forget_secrets s) = s_withdrawn_at s" "s_challenge_type (forget_secrets s) = s_challenge_type s"
  "s_challenge_passed_at (forget_secrets s) = s_challenge_passed_at s" "s_env_method (forget_secrets s) = s_env_method s"
  "s_env_at (forget_secrets s) = s_env_at s" "s_env_email (forget_secrets s) = s_env_email s" "s_otp_at (forget_secrets s) = s_otp_at s"
  by (simp_all add: forget_secrets_def)

lemma forget_card [simp]: "signer_card w env v es sigs (forget_secrets s) = signer_card w env v es sigs s"
proof -
  note ev = identity_evidence_def check_shown_def challenge_passed_def challenge_factor_def
  have e: "identity_evidence w (forget_secrets s) es = identity_evidence w s es" "challenge_factor (forget_secrets s) es = challenge_factor s es"
    by (simp_all only: ev forget_kept)
  have d: "card_details w v (forget_secrets s) es = card_details w v s es"
    by (simp only: card_details_def e forget_kept)
  have a: "affirmation_lines w v (forget_secrets s) = affirmation_lines w v s" "card_times w (forget_secrets s) = card_times w s"
    by (simp_all only: affirmation_lines_def signer_affirmation_def card_times_def forget_kept)
  have o: "card_ops w v es sigs (forget_secrets s) b h y = card_ops w v es sigs s b h y" for b h y
    by (simp only: card_ops_def card_status_def e d a forget_kept)
  show ?thesis by (rule ext) (simp only: signer_card_def e d a o)
qed


section \<open>What the certificate gets wrong\<close>

text \<open>The actor of every audit row is the system, whoever acted.\<close>

lemma actor_always_system: "audit_actor e = ''system''"
  by (simp add: audit_actor_def event_columns_def nonblank_def)

text \<open>
  A value of the security section that is no hash is drawn in at most two lines: the rest of a longer one, such
  as the certification clause of a PAdES seal, is left out.
\<close>

lemma box_draw_bound: "0 < lh \<Longrightarrow> length (box_draw x ty lh y1 ls) \<le> nat (\<lfloor>(y1 + 1 - ty) / lh\<rfloor> + 1)"
proof (induction x ty lh y1 ls rule: box_draw.induct)
  case (2 x ty lh y1 l ls)
  have "(y1 + 1 - (ty + lh)) / lh = (y1 + 1 - ty) / lh - 1" using "2.prems" by (simp add: field_simps)
  moreover have "\<not> y1 + 1 < ty \<Longrightarrow> 0 \<le> (y1 + 1 - ty) / lh" using "2.prems" by simp
  ultimately show ?case using 2 by (auto simp: nat_add_distrib floor_diff_one)
qed simp

lemma security_value_cut:
  "length (do_textbox w lx (y - 7.5) (PW - PM) (y + 13 + 2) val 8.3 ''helv'') \<le> 2"
proof -
  have "\<lfloor>((y + 13 + 2) + 1 - (y - 7.5 + 8.3)) / (8.3 * 1.2 :: real)\<rfloor> = 1" by (simp add: floor_eq_iff field_simps)
  then show ?thesis using box_draw_bound [of "8.3 * 1.2 :: real" lx "y - 7.5 + 8.3" "y + 13 + 2" "textbox_lines w (PW - PM - lx - 1) val 8.3 ''helv''"]
    by (simp add: do_textbox_def)
qed

text \<open>The hash named "executed" is the one of the stamped bytes, taken before the certificate is appended and sealed.\<close>

lemma fingerprint_is_preseal:
  "\<exists>y. on_page [CText PM y ''DOCUMENT SHA-256 (EXECUTED)'' 7 GREY ''sora'',
     CBox PM (y + 4) (PM + (PW - 2 * PM)) (y + 40) (nonblank (ci_preseal ci) dash) 9.5 INK ''inter''] (make_certificate w ci)"
proof -
  obtain c0 where g: "c0 = summary w (cert_envelope ci) ci (first_page w (cert_envelope ci) (is_pades (ci_method ci)))"
      "grows (signers_section w (cert_envelope ci) ci c0) (cert_layout w ci)"
    by (rule layout_stages)
  have "ascii_upper ''Document SHA-256 (executed)'' = ''DOCUMENT SHA-256 (EXECUTED)''" by code_simp
  then have u: "kv_ops y ''Document SHA-256 (executed)'' v PM d = [CText PM y ''DOCUMENT SHA-256 (EXECUTED)'' 7 GREY ''sora'',
      CBox PM (y + 4) (PM + d) (y + 40) v 9.5 INK ''inter'']" for y v d
    by (simp add: kv_ops_def)
  have "\<exists>y. on_page [CText PM y ''DOCUMENT SHA-256 (EXECUTED)'' 7 GREY ''sora'',
     CBox PM (y + 4) (PM + (PW - 2 * PM)) (y + 40) (nonblank (ci_preseal ci) dash) 9.5 INK ''inter''] (cert_pages c0)"
    unfolding g(1) summary_def Let_def on_page_down u [symmetric]
    by (rule exI, rule on_page_put) (unfold set_append, intro le_supI2, rule subset_refl)
  moreover have "grows c0 (cert_layout w ci)" by (rule grows_trans [OF grows_signers g(2)])
  ultimately show ?thesis unfolding make_certificate_def using on_page_grows on_page_render by blast
qed

section \<open>Cleaning the executed copy\<close>

text \<open>
  The parts of a PDF the cleaning reads and writes: the entries of its catalog, its information dictionary and its
  pages. Dropping unreferenced resources is pikepdf's; a failure of it is ignored.
\<close>

datatype pobj = PName string | PText string | PDict "(string \<times> pobj) list"

record pdf_doc =
  pd_root :: "(string \<times> pobj) list"
  pd_info :: "(string \<times> pobj) list"
  pd_pages :: "pobj list"

definition del_key :: "string \<Rightarrow> (string \<times> pobj) list \<Rightarrow> (string \<times> pobj) list" where
  "del_key k d = filter (\<lambda>kv. fst kv \<noteq> k) d"

definition del_javascript :: "(string \<times> pobj) list \<Rightarrow> (string \<times> pobj) list" where
  "del_javascript d = map (\<lambda>(k, v). (k, if k = ''/Names'' then (case v of PDict n \<Rightarrow> PDict (del_key ''/JavaScript'' n) | _ \<Rightarrow> v) else v)) d"

definition scrub :: "(pdf_doc \<Rightarrow> pdf_doc option) \<Rightarrow> pdf_doc \<Rightarrow> pdf_doc" where
  "scrub prune pdf =
     (let p = (case prune pdf of Some q \<Rightarrow> q | None \<Rightarrow> pdf);
          root = fold del_key [''/OpenAction'', ''/AA'', ''/AcroForm''] (pd_root p)
      in p\<lparr>pd_root := del_key ''/Metadata'' (del_javascript root), pd_info := []\<rparr>)"

text \<open>Nothing of the catalog runs or describes any more, but the actions of pages and annotations stay.\<close>

lemma scrub_catalog:
  "set (map fst (pd_root (scrub prune pdf))) \<inter> {''/OpenAction'', ''/AA'', ''/AcroForm'', ''/Metadata''} = {} \<and>
   pd_info (scrub prune pdf) = [] \<and> (map_of (pd_root (scrub prune pdf)) ''/Names'' = Some (PDict n) \<longrightarrow> ''/JavaScript'' \<notin> fst ` set n)"
  by (auto simp: scrub_def Let_def del_javascript_def del_key_def dest!: map_of_SomeD split: pobj.splits if_splits option.splits)

lemma scrub_keeps_page_actions:
  "prune pdf \<in> {None, Some pdf} \<Longrightarrow> pd_pages (scrub prune pdf) = pd_pages pdf"
  by (auto simp: scrub_def Let_def)

end
