(* ===== verification/Redaction.thy ===== *)
theory Redaction
  imports Stamping
begin

text \<open>
  What is taken out of a document and what is read from its pages: redaction (\<open>sign/pdf_redact.py\<close>), rendering
  and inspection (\<open>sign/pdf_render.py\<close>) and the replacement of text in place (\<open>sign/pdf_editext.py\<close>). Parameters
  are what pypdf, pdfium, Pillow and pdfplumber answer: the pages of a file, a rendered page as an array of
  pixels, which pixels a rectangle covers, the characters of a page. What is painted, kept, measured and refused
  is the code's.
\<close>

section \<open>Pages as pixels\<close>

type_synonym pixel = "int \<times> int \<times> int"
type_synonym box = "real \<times> real \<times> real \<times> real"

record image =
  im_w :: int
  im_h :: int
  im_px :: "int \<Rightarrow> int \<Rightarrow> pixel"

text \<open>A page that is written: the reader's page as it is, or one picture of a given size in points.\<close>

datatype out_page = Passed bytes | Picture image real real

record pdf_char =
  pc_text :: string
  pc_font :: string
  pc_size :: real
  pc_color :: "real list option"
  pc_x0 :: real
  pc_x1 :: real
  pc_top :: real
  pc_bottom :: real
  pc_matrix :: "real list"

record raster_env =
  rx_reader :: "bytes \<Rightarrow> bytes list option"
  rx_pdfium :: "bytes \<Rightarrow> int option"
  rx_size :: "bytes \<Rightarrow> nat \<Rightarrow> real \<times> real"
  rx_render :: "bytes \<Rightarrow> nat \<Rightarrow> real \<Rightarrow> image option"
  rx_covers :: "box \<Rightarrow> int \<Rightarrow> int \<Rightarrow> bool"
  rx_write :: "out_page list \<Rightarrow> bytes option"
  rx_chars :: "bytes \<Rightarrow> (real \<times> real \<times> pdf_char list) list option"
  rx_clone :: "string \<Rightarrow> string \<Rightarrow> bytes option"
  rx_clone_width :: "bytes \<Rightarrow> string \<Rightarrow> real \<Rightarrow> real"
  rx_str :: "json \<Rightarrow> string"
  rx_float :: "string \<Rightarrow> real option"

section \<open>Redaction\<close>

definition REDACT_DPI :: real where "REDACT_DPI = 200"

text \<open>The opaque colours; any other kind is redacted in black.\<close>

definition FILL :: "string \<Rightarrow> pixel" where
  "FILL kind = (if kind = ''whiteout'' then (255, 255, 255) else (0, 0, 0))"

definition clamp01 :: "real \<Rightarrow> real" where
  "clamp01 v = (if v < 0 then 0 else if 1 < v then 1 else v)"

text \<open>One region: its page, its box with the corners in the page, and its kind; malformed and empty ones are skipped.\<close>

definition region_numbers :: "raster_env \<Rightarrow> dict \<Rightarrow> py_exc + real \<times> real \<times> real \<times> real" where
  "region_numbers E r =
     try_bind (jfloat (rx_float E) (get_or r ''x'' (JInt 0))) (\<lambda>x. try_bind (jfloat (rx_float E) (get_or r ''y'' (JInt 0))) (\<lambda>y.
     try_bind (jfloat (rx_float E) (get_or r ''w'' (JInt 0))) (\<lambda>bw. try_bind (jfloat (rx_float E) (get_or r ''h'' (JInt 0))) (\<lambda>bh.
       Inr (clamp01 x, clamp01 y, bw, bh)))))"

definition region_kind :: "raster_env \<Rightarrow> dict \<Rightarrow> string" where
  "region_kind E r =
     (let k = py_lower (case get_or r ''kind'' (JStr ''redact'') of JStr s \<Rightarrow> s | j \<Rightarrow> rx_str E j)
      in if k \<in> {''redact'', ''whiteout''} then k else ''redact'')"

definition region_of :: "raster_env \<Rightarrow> dict \<Rightarrow> (int \<times> box \<times> string) option" where
  "region_of E r =
     (case jint (get_or r ''page'' (JInt 0)) of
        Inl _ \<Rightarrow> None
      | Inr p \<Rightarrow> (case region_numbers E r of
            Inl _ \<Rightarrow> None
          | Inr (x, y, bw, bh) \<Rightarrow>
              let x1 = clamp01 (x + bw); y1 = clamp01 (y + bh)
              in if x1 \<le> x \<or> y1 \<le> y then None else Some (p, (x, y, x1, y1), region_kind E r)))"

definition group_by_page :: "raster_env \<Rightarrow> dict list \<Rightarrow> (int \<times> box \<times> string) list" where
  "group_by_page E rs = List.map_filter (region_of E) rs"

definition rects_of :: "(int \<times> box \<times> string) list \<Rightarrow> int \<Rightarrow> (box \<times> string) list" where
  "rects_of by_page i = map snd (filter (\<lambda>r. fst r = i) by_page)"

text \<open>A rectangle painted on the pixels.\<close>

definition paint :: "raster_env \<Rightarrow> box \<times> string \<Rightarrow> image \<Rightarrow> image" where
  "paint E r img =
     (case r of ((x0, y0, x1, y1), kind) \<Rightarrow>
      let b = (x0 * of_int (im_w img), y0 * of_int (im_h img), x1 * of_int (im_w img), y1 * of_int (im_h img))
      in img\<lparr>im_px := (\<lambda>i j. if rx_covers E b i j then FILL kind else im_px img i j)\<rparr>)"

definition raster_page :: "raster_env \<Rightarrow> bytes \<Rightarrow> nat \<Rightarrow> (box \<times> string) list \<Rightarrow> real \<Rightarrow> py_exc + out_page" where
  "raster_page E data i rects dpi =
     (case rx_render E data i (dpi / 72) of
        None \<Rightarrow> Inl OtherError
      | Some img \<Rightarrow> (case rx_size E data i of (wp, hp) \<Rightarrow> Inr (Picture (fold (paint E) rects img) wp hp)))"

text \<open>The pages in order: passed on, or replaced by their picture. A page that has a region and cannot be rendered ends it.\<close>

fun redact_pages :: "raster_env \<Rightarrow> bytes \<Rightarrow> int \<Rightarrow> (int \<times> box \<times> string) list \<Rightarrow> nat \<Rightarrow> bytes list \<Rightarrow> py_exc + out_page list" where
  "redact_pages E data n by_page i [] = Inr []"
| "redact_pages E data n by_page i (p # ps) =
     try_bind
       (if rects_of by_page (int i) = [] then Inr (Passed p)
        else if \<not> int i < n then Inl ValueError
        else raster_page E data i (rects_of by_page (int i)) REDACT_DPI)
       (\<lambda>out. try_bind (redact_pages E data n by_page (Suc i) ps) (\<lambda>outs. Inr (out # outs)))"

definition write_pages :: "raster_env \<Rightarrow> out_page list \<Rightarrow> py_exc + bytes" where
  "write_pages E outs = (case rx_write E outs of None \<Rightarrow> Inl OtherError | Some b \<Rightarrow> Inr b)"

definition pdf_redact_regions :: "raster_env \<Rightarrow> bytes \<Rightarrow> dict list \<Rightarrow> py_exc + bytes" where
  "pdf_redact_regions E data regions =
     (if data = [] then Inl ValueError
      else (let by_page = group_by_page E regions in
        if by_page = [] then Inr data
        else (case rx_reader E data of
            None \<Rightarrow> Inl ValueError
          | Some ps \<Rightarrow> (case rx_pdfium E data of
                None \<Rightarrow> Inl OtherError
              | Some n \<Rightarrow> try_bind (redact_pages E data n by_page 0 ps) (write_pages E)))))"

section \<open>Flattening\<close>

fun flatten_loop :: "raster_env \<Rightarrow> bytes \<Rightarrow> int \<Rightarrow> int set \<Rightarrow> nat \<Rightarrow> bytes list \<Rightarrow> py_exc + out_page list" where
  "flatten_loop E data n want i [] = Inr []"
| "flatten_loop E data n want i (p # ps) =
     try_bind (if int i \<in> want \<and> int i < n then raster_page E data i [] REDACT_DPI else Inr (Passed p))
       (\<lambda>out. try_bind (flatten_loop E data n want (Suc i) ps) (\<lambda>outs. Inr (out # outs)))"

definition flatten_pages :: "raster_env \<Rightarrow> bytes \<Rightarrow> int list \<Rightarrow> py_exc + bytes" where
  "flatten_pages E data pages =
     (if pages = [] then Inr data
      else (case rx_reader E data of
          None \<Rightarrow> Inl OtherError
        | Some ps \<Rightarrow> (case rx_pdfium E data of
              None \<Rightarrow> Inl OtherError
            | Some n \<Rightarrow> try_bind (flatten_loop E data n (set pages) 0 ps) (write_pages E))))"

section \<open>Rendering and inspection\<close>

definition MAX_RENDER_PX :: real where "MAX_RENDER_PX = 4000"

definition capped_scale :: "real \<times> real \<Rightarrow> real \<Rightarrow> real" where
  "capped_scale wh dpi =
     (case wh of (w, h) \<Rightarrow>
      let scale = dpi / 72; longest = max w h * scale
      in if MAX_RENDER_PX < longest then scale * (MAX_RENDER_PX / longest) else scale)"

definition clamp_index :: "int \<Rightarrow> int \<Rightarrow> nat" where
  "clamp_index n i = nat (if i < 0 then 0 else if n \<le> i then n - 1 else i)"

definition render_page :: "raster_env \<Rightarrow> bytes \<Rightarrow> int \<Rightarrow> real \<Rightarrow> py_exc + image" where
  "render_page E data page_index dpi =
     (case rx_pdfium E data of
        None \<Rightarrow> Inl OtherError
      | Some n \<Rightarrow>
          if n \<le> 0 then Inl ValueError
          else (let i = clamp_index n page_index in
            case rx_render E data i (capped_scale (rx_size E data i) dpi) of None \<Rightarrow> Inl OtherError | Some img \<Rightarrow> Inr img))"

text \<open>The sizes of the pages as a viewer shows them, from their crop boxes, and the check of an upload.\<close>

definition rect_wh :: "box \<Rightarrow> real \<times> real" where
  "rect_wh b = (case b of (x0, y0, x1, y1) \<Rightarrow> (\<bar>x1 - x0\<bar>, \<bar>y1 - y0\<bar>))"

definition page_dims :: "(bytes \<Rightarrow> (box \<times> int) list option) \<Rightarrow> bytes \<Rightarrow> (real \<times> real) list option" where
  "page_dims boxes data =
     map_option (map (\<lambda>(b, rot). case rect_wh b of (w, h) \<Rightarrow> if rot mod 360 = 90 \<or> rot mod 360 = 270 then (h, w) else (w, h))) (boxes data)"

datatype open_result = OpenPassword | OpenFailed | Opened nat

definition validate_source :: "(bytes \<Rightarrow> open_result) \<Rightarrow> bytes \<Rightarrow> string + unit" where
  "validate_source op data =
     (if data = [] \<or> take 4 data \<noteq> ''%PDF'' then Inl ''not a PDF''
      else (case op data of
          OpenPassword \<Rightarrow> Inl ''password-protected PDFs are not supported''
        | OpenFailed \<Rightarrow> Inl ''corrupt or unreadable PDF''
        | Opened n \<Rightarrow> if n = 0 then Inl ''PDF has no pages'' else Inr ()))"

section \<open>The colour around a run\<close>

definition median :: "int list \<Rightarrow> real" where
  "median xs =
     (let s = sort xs; n = length xs in
      if odd n then of_int (s ! (n div 2)) else (of_int (s ! (n div 2 - 1)) + of_int (s ! (n div 2))) / 2)"

definition trunc :: "real \<Rightarrow> int" where
  "trunc x = (if x < 0 then - \<lfloor>- x\<rfloor> else \<lfloor>x\<rfloor>)"

text \<open>Two lines of pixels, just above and just below the box.\<close>

definition band :: "image \<Rightarrow> box \<Rightarrow> pixel list" where
  "band img b =
     (case b of (x0, y0, x1, y1) \<Rightarrow>
      let w = im_w img; h = im_h img; m = max 2 (trunc (0.006 * of_int (max w h)));
          bx0 = trunc (x0 * of_int w); by0 = trunc (y0 * of_int h); bx1 = trunc (x1 * of_int w); by1 = trunc (y1 * of_int h)
      in concat (map (\<lambda>i. map (im_px img i) (filter (\<lambda>j. 0 \<le> j \<and> j < h) [by0 - m, by1 + m - 1]))
           [max 0 (bx0 - m)..min w (bx1 + m) - 1]))"

definition near :: "real \<times> real \<times> real \<Rightarrow> pixel \<Rightarrow> bool" where
  "near med c = (case (med, c) of ((mr, mg, mb), (r, g, b)) \<Rightarrow>
     \<bar>of_int r - mr\<bar> \<le> 18 \<and> \<bar>of_int g - mg\<bar> \<le> 18 \<and> \<bar>of_int b - mb\<bar> \<le> 18)"

definition band_color :: "pixel list \<Rightarrow> rgb \<times> real" where
  "band_color cs =
     (if cs = [] then ((1, 1, 1), 1)
      else (let mr = median (map fst cs); mg = median (map (fst \<circ> snd) cs); mb = median (map (snd \<circ> snd) cs)
        in ((mr / 255, mg / 255, mb / 255), of_nat (length (filter (near (mr, mg, mb)) cs)) / of_nat (length cs))))"

text \<open>Any failure answers white and uniform.\<close>

definition sample_bg_color :: "raster_env \<Rightarrow> bytes \<Rightarrow> int \<Rightarrow> box \<Rightarrow> rgb \<times> real" where
  "sample_bg_color E data page b =
     (case rx_pdfium E data of
        None \<Rightarrow> ((1, 1, 1), 1)
      | Some n \<Rightarrow>
          if n \<le> 0 then ((1, 1, 1), 1)
          else (let i = clamp_index n page in
            case rx_render E data i (capped_scale (rx_size E data i) 150) of
              None \<Rightarrow> ((1, 1, 1), 1)
            | Some img \<Rightarrow> if im_w img \<le> 0 \<or> im_h img \<le> 0 then ((1, 1, 1), 1) else band_color (band img b)))"

section \<open>The text of a page\<close>

definition to255 :: "real \<Rightarrow> int" where
  "to255 v = max 0 (min 255 (py_round (if v \<le> 1 then v * 255 else v)))"

definition hex_digit :: "int \<Rightarrow> char" where
  "hex_digit d = char_of (nat (if d < 10 then d + 48 else d + 87))"

definition hex2 :: "int \<Rightarrow> string" where
  "hex2 v = [hex_digit (v div 16), hex_digit (v mod 16)]"

text \<open>Grey, RGB or CMYK; black without a colour.\<close>

definition color_hex :: "real list option \<Rightarrow> string" where
  "color_hex c =
     (let rgb = (\<lambda>r g b. ''#'' @ hex2 r @ hex2 g @ hex2 b) in
      case c of
        Some [r, g, b] \<Rightarrow> rgb (to255 r) (to255 g) (to255 b)
      | Some [cc, m, y, k] \<Rightarrow> rgb (to255 ((1 - cc) * (1 - k))) (to255 ((1 - m) * (1 - k))) (to255 ((1 - y) * (1 - k)))
      | Some (g # _) \<Rightarrow> rgb (to255 g) (to255 g) (to255 g)
      | _ \<Rightarrow> ''#000000'')"

definition char_baseline_top :: "pdf_char \<Rightarrow> real \<Rightarrow> real" where
  "char_baseline_top ch page_h = (if 6 \<le> length (pc_matrix ch) then page_h - pc_matrix ch ! 5 else pc_bottom ch)"

text \<open>\<open>round(float(ch.get("size", 11) or 11), 1)\<close>.\<close>

definition round1 :: "real \<Rightarrow> real" where
  "round1 x = of_int (py_round (x * 10)) / 10"

definition size_of :: "pdf_char \<Rightarrow> real" where
  "size_of ch = round1 (if pc_size ch = 0 then 11 else pc_size ch)"

record span =
  sp_text :: string
  sp_x0 :: real
  sp_x1 :: real
  sp_top :: real
  sp_bottom :: real
  sp_size :: real
  sp_font :: string
  sp_color :: string
  sp_oy :: real

definition new_span :: "real \<Rightarrow> pdf_char \<Rightarrow> span" where
  "new_span h ch =
     \<lparr>sp_text = pc_text ch, sp_x0 = pc_x0 ch, sp_x1 = pc_x1 ch, sp_top = pc_top ch, sp_bottom = pc_bottom ch,
      sp_size = size_of ch, sp_font = pc_font ch, sp_color = color_hex (pc_color ch), sp_oy = char_baseline_top ch h\<rparr>"

definition breaks_span :: "span \<Rightarrow> pdf_char \<Rightarrow> bool" where
  "breaks_span cur ch =
     (max 1 (sp_size cur * 0.3) < \<bar>pc_top ch - sp_top cur\<bar> \<or>
      pc_font ch \<noteq> sp_font cur \<or> size_of ch \<noteq> sp_size cur \<or> color_hex (pc_color ch) \<noteq> sp_color cur \<or>
      pc_x0 ch < sp_x1 cur - max 1 (sp_size cur))"

definition extend_span :: "span \<Rightarrow> pdf_char \<Rightarrow> span" where
  "extend_span cur ch =
     cur\<lparr>sp_text := sp_text cur @ pc_text ch, sp_x1 := max (sp_x1 cur) (pc_x1 ch), sp_x0 := min (sp_x0 cur) (pc_x0 ch),
         sp_top := min (sp_top cur) (pc_top ch), sp_bottom := max (sp_bottom cur) (pc_bottom ch)\<rparr>"

text \<open>A span is put out when its text is not blank.\<close>

definition flush_span :: "span \<Rightarrow> span list" where
  "flush_span cur = (if py_strip (sp_text cur) = [] then [] else [cur])"

fun spans_from :: "real \<Rightarrow> span \<Rightarrow> pdf_char list \<Rightarrow> span list" where
  "spans_from h cur [] = flush_span cur"
| "spans_from h cur (ch # chs) =
     (if breaks_span cur ch then flush_span cur @ spans_from h (new_span h ch) chs
      else spans_from h (extend_span cur ch) chs)"

fun spans_of :: "real \<Rightarrow> pdf_char list \<Rightarrow> span list" where
  "spans_of h [] = []"
| "spans_of h (ch # chs) = spans_from h (new_span h ch) chs"

definition nonzero :: "real \<Rightarrow> real" where
  "nonzero x = (if x = 0 then 1 else x)"

definition page_text_spans :: "raster_env \<Rightarrow> bytes \<Rightarrow> int \<Rightarrow> json list option" where
  "page_text_spans E data page =
     map_option (\<lambda>pages.
       if page < 0 \<or> int (length pages) \<le> page then []
       else (case pages ! nat page of (w0, h0, chs) \<Rightarrow>
         let w = nonzero w0; h = nonzero h0 in
         map (\<lambda>s. JObj [(''text'', JStr (sp_text s)), (''x'', JFloat (sp_x0 s / w)), (''y'', JFloat (sp_top s / h)),
           (''w'', JFloat ((sp_x1 s - sp_x0 s) / w)), (''h'', JFloat ((sp_bottom s - sp_top s) / h)),
           (''oy'', JFloat (sp_oy s / h)), (''size'', JFloat (round1 (sp_size s))), (''font'', JStr (sp_font s)),
           (''flags'', JInt 0), (''color'', JStr (sp_color s))]) (spans_of h chs))) (rx_chars E data)"

section \<open>Replacing text in place\<close>

definition UNIFORM_MIN :: real where "UNIFORM_MIN = 0.85"
definition SHRINK_FLOOR :: real where "SHRINK_FLOOR = 0.75"
definition WIDTH_TOL_PT :: real where "WIDTH_TOL_PT = 1"

record run =
  rn_box :: box
  rn_baseline :: real
  rn_font :: string
  rn_size :: real
  rn_color :: string
  rn_text :: string
  rn_pw :: real

text \<open>A refusal with its code, or an exception.\<close>

datatype edit_stop = Refuse string | Stop py_exc

definition in_box :: "real \<Rightarrow> real \<Rightarrow> box \<Rightarrow> pdf_char \<Rightarrow> bool" where
  "in_box w h b c =
     (case b of (x0, y0, x1, y1) \<Rightarrow>
        x0 * w - 1 \<le> (pc_x0 c + pc_x1 c) / 2 \<and> (pc_x0 c + pc_x1 c) / 2 \<le> x1 * w + 1 \<and>
        y0 * h - 1 \<le> (pc_top c + pc_bottom c) / 2 \<and> (pc_top c + pc_bottom c) / 2 \<le> y1 * h + 1)"

definition turned :: "pdf_char \<Rightarrow> bool" where
  "turned c =
     (case pc_matrix c of
        a # b # cc # d # _ \<Rightarrow>
          (let scale = nonzero (Max {\<bar>a\<bar>, \<bar>b\<bar>, \<bar>cc\<bar>, \<bar>d\<bar>})
           in 1 / 1000 < \<bar>b\<bar> / scale \<or> 1 / 1000 < \<bar>cc\<bar> / scale \<or> a \<le> 0 \<or> d \<le> 0)
      | _ \<Rightarrow> False)"

definition extract_run :: "raster_env \<Rightarrow> bytes \<Rightarrow> int \<Rightarrow> box \<Rightarrow> edit_stop + run" where
  "extract_run E data page b =
     (case rx_chars E data of
        None \<Rightarrow> Inl (Stop OtherError)
      | Some pages \<Rightarrow>
          if page < 0 \<or> int (length pages) \<le> page then Inl (Refuse ''no_run'')
          else (case pages ! nat page of (w0, h0, chs) \<Rightarrow>
            let w = nonzero w0; h = nonzero h0; hits = filter (in_box w h b) chs in
            if hits = [] then Inl (Refuse ''no_run'')
            else if list_ex turned hits then Inl (Refuse ''rotated'')
            else (let cs = sort_key pc_x0 hits; bot = Max (pc_bottom ` set hits);
                      base = (if 6 \<le> length (pc_matrix (hd cs)) then h - pc_matrix (hd cs) ! 5 else bot)
              in Inr \<lparr>rn_box = (Min (pc_x0 ` set hits) / w, Min (pc_top ` set hits) / h, Max (pc_x1 ` set hits) / w, bot / h),
                      rn_baseline = base / h, rn_font = pc_font (hd cs), rn_size = size_of (hd cs),
                      rn_color = color_hex (pc_color (hd cs)), rn_text = concat (map pc_text cs), rn_pw = w\<rparr>)))"

text \<open>The four numbers of a box; the engine passes a list of four.\<close>

definition box_of :: "raster_env \<Rightarrow> json \<Rightarrow> py_exc + box" where
  "box_of E j =
     (case j of
        JList [a, b, c, d] \<Rightarrow>
          try_bind (jfloat (rx_float E) a) (\<lambda>x0. try_bind (jfloat (rx_float E) b) (\<lambda>y0.
          try_bind (jfloat (rx_float E) c) (\<lambda>x1. try_bind (jfloat (rx_float E) d) (\<lambda>y1. Inr (x0, y0, x1, y1)))))
      | JList _ \<Rightarrow> Inl ValueError
      | _ \<Rightarrow> Inl TypeError)"

definition stop_bind :: "py_exc + 'a \<Rightarrow> ('a \<Rightarrow> edit_stop + 'b) \<Rightarrow> edit_stop + 'b" where
  "stop_bind m f = (case m of Inl x \<Rightarrow> Inl (Stop x) | Inr a \<Rightarrow> f a)"

definition member_of :: "dict \<Rightarrow> string \<Rightarrow> py_exc + json" where
  "member_of e k = (case map_of e k of None \<Rightarrow> Inl KeyError | Some j \<Rightarrow> Inr j)"

text \<open>The width of the new text at the smallest size it may be shrunk to.\<close>

definition floor_width :: "raster_env \<Rightarrow> draw_env \<Rightarrow> string \<Rightarrow> string \<Rightarrow> real \<Rightarrow> real" where
  "floor_width E dw font t size1 =
     (case rx_clone E font t of
        Some buf \<Rightarrow> if buf = [] then dw_width dw t ''Helvetica'' (size1 * SHRINK_FLOOR) else rx_clone_width E buf t (size1 * SHRINK_FLOOR)
      | None \<Rightarrow> dw_width dw t ''Helvetica'' (size1 * SHRINK_FLOOR))"

definition run_item :: "int \<Rightarrow> run \<Rightarrow> string \<Rightarrow> real \<Rightarrow> json \<Rightarrow> rgb \<Rightarrow> dict" where
  "run_item page r t size1 color bg =
     (case (rn_box r, bg) of ((x0, y0, x1, y1), (br, bgr, bb)) \<Rightarrow>
        [(''page'', JInt page), (''x0'', JFloat x0), (''y0'', JFloat y0), (''x1'', JFloat x1), (''y1'', JFloat y1),
         (''baseline'', JFloat (rn_baseline r)), (''text'', JStr t), (''orig_font'', JStr (rn_font r)), (''flags'', JInt 0),
         (''size'', JFloat size1), (''color'', if truthy color then color else JStr (rn_color r)),
         (''bg'', JList [JFloat br, JFloat bgr, JFloat bb])])"

text \<open>One edit: refused, or the run to cover and draw again, with its page if the page must be flattened.\<close>

definition resolve_edit :: "raster_env \<Rightarrow> draw_env \<Rightarrow> bytes \<Rightarrow> dict \<Rightarrow> edit_stop + dict \<times> int list" where
  "resolve_edit E dw data e =
     stop_bind (try_bind (member_of e ''page'') jint) (\<lambda>page.
     stop_bind (member_of e ''bbox'') (\<lambda>bj.
     let t = text_of dw (get_or e ''text'' (JStr [])) in
     if py_strip t = [] then Inl (Refuse ''empty'')
     else stop_bind (box_of E bj) (\<lambda>b.
       case extract_run E data page b of
         Inl x \<Rightarrow> Inl x
       | Inr r \<Rightarrow> (case (sample_bg_color E data page (rn_box r), rn_box r) of ((bg, uni), (x0, y0, x1, y1)) \<Rightarrow>
           stop_bind (if truthy (jget e ''size'') then jfloat (rx_float E) (jget e ''size'') else Inr (rn_size r)) (\<lambda>size1.
             if (x1 - x0) * rn_pw r + WIDTH_TOL_PT < floor_width E dw (rn_font r) t size1 then Inl (Refuse ''too_long'')
             else Inr (run_item page r t size1 (jget e ''color'') bg, if uni < UNIFORM_MIN then [page] else [])))))) "

text \<open>The batch: the first refused edit refuses all of it, with the edit's number (the engine always gives one).\<close>

fun resolve_edits :: "raster_env \<Rightarrow> draw_env \<Rightarrow> bytes \<Rightarrow> dict list \<Rightarrow> edit_exc + (dict \<times> int list) list" where
  "resolve_edits E dw data [] = Inr []"
| "resolve_edits E dw data (e # es) =
     (case resolve_edit E dw data e of
        Inl (Refuse code) \<Rightarrow> Inl (EditError code (case jget e ''idx'' of JInt i \<Rightarrow> i | _ \<Rightarrow> 0))
      | Inl (Stop x) \<Rightarrow> Inl (PyExc x [])
      | Inr r \<Rightarrow> (case resolve_edits E dw data es of Inl x \<Rightarrow> Inl x | Inr rs \<Rightarrow> Inr (r # rs)))"

definition with_exc :: "py_exc + 'a \<Rightarrow> edit_exc + 'a" where
  "with_exc m = (case m of Inl x \<Rightarrow> Inl (PyExc x []) | Inr a \<Rightarrow> Inr a)"

definition edit_replace_runs :: "raster_env \<Rightarrow> draw_env \<Rightarrow> bytes \<Rightarrow> dict list \<Rightarrow> edit_exc + bytes" where
  "edit_replace_runs E dw data edits =
     (case resolve_edits E dw data edits of
        Inl x \<Rightarrow> Inl x
      | Inr rs \<Rightarrow> with_exc (try_bind (replace_runs dw data (map fst rs)) (\<lambda>out. flatten_pages E out (concat (map snd rs)))))"

section \<open>As the engine calls it\<close>

definition dict_of :: "json \<Rightarrow> dict" where
  "dict_of j = (case j of JObj kvs \<Rightarrow> kvs | _ \<Rightarrow> [])"

lemma dict_of_JObj [simp]: "dict_of (JObj kvs) = kvs"
  by (simp add: dict_of_def)

text \<open>The three functions behind the facade, over lists of JSON objects.\<close>

definition redact_json :: "raster_env \<Rightarrow> bytes \<Rightarrow> json list \<Rightarrow> py_exc + bytes" where
  "redact_json E data rs = pdf_redact_regions E data (map dict_of rs)"

definition edits_engine :: "raster_env \<Rightarrow> draw_env \<Rightarrow> engine \<Rightarrow> engine" where
  "edits_engine E dw eng =
     eng\<lparr>en_apply_edits := (\<lambda>b js. with_exc (pdf_apply_edits (dw\<lparr>dw_redact := redact_json E\<rparr>) b (map dict_of js))),
         en_replace_runs := (\<lambda>b js. edit_replace_runs E dw b (map dict_of js)),
         en_flatten := (\<lambda>b ps. case flatten_pages E b ps of Inl _ \<Rightarrow> None | Inr out \<Rightarrow> Some out)\<rparr>"

section \<open>What is under a box is gone\<close>

definition opaque :: "pixel \<Rightarrow> bool" where
  "opaque c = (c = (0, 0, 0) \<or> c = (255, 255, 255))"

lemma FILL_opaque [simp]: "opaque (FILL k)"
  by (simp add: opaque_def FILL_def)

lemma paint_dims [simp]: "im_w (paint E r img) = im_w img" "im_h (paint E r img) = im_h img"
  by (simp_all add: paint_def Let_def split: prod.splits)

lemma paint_all_dims [simp]: "im_w (fold (paint E) rs img) = im_w img" "im_h (fold (paint E) rs img) = im_h img"
  by (induction rs arbitrary: img) auto

definition hits :: "raster_env \<Rightarrow> image \<Rightarrow> box \<Rightarrow> int \<Rightarrow> int \<Rightarrow> bool" where
  "hits E img b i j =
     (case b of (x0, y0, x1, y1) \<Rightarrow>
        rx_covers E (x0 * of_int (im_w img), y0 * of_int (im_h img), x1 * of_int (im_w img), y1 * of_int (im_h img)) i j)"

lemma paint_px: "im_px (paint E (b, k) img) i j = (if hits E img b i j then FILL k else im_px img i j)"
  by (cases b) (simp add: paint_def hits_def Let_def)

lemma hits_paint [simp]: "hits E (paint E r img) b i j = hits E img b i j"
  by (simp add: hits_def split: prod.splits)

lemma painted_opaque:
  "(\<exists>r \<in> set rs. hits E img (fst r) i j) \<or> opaque (im_px img i j) \<Longrightarrow> opaque (im_px (fold (paint E) rs img) i j)"
proof (induction rs arbitrary: img)
  case (Cons r rs)
  obtain b k where r: "r = (b, k)" by (cases r)
  have "(\<exists>q \<in> set rs. hits E (paint E r img) (fst q) i j) \<or> opaque (im_px (paint E r img) i j)"
    using Cons.prems by (auto simp: r paint_px)
  then show ?case by (simp add: Cons.IH)
qed simp

text \<open>Two renderings that differ only under the boxes give the same picture: nothing of what was there is left.\<close>

lemma painted_hides:
  assumes "im_w img = im_w img'" and "im_h img = im_h img'"
    and "\<And>i j. im_px img i j = im_px img' i j \<or> (\<exists>r \<in> set rs. hits E img (fst r) i j)"
  shows "fold (paint E) rs img = fold (paint E) rs img'"
  using assms
proof (induction rs arbitrary: img img')
  case Nil
  then show ?case by (auto intro!: image.equality ext)
next
  case (Cons r rs)
  obtain b k where r: "r = (b, k)" by (cases r)
  have same: "hits E img b = hits E img' b" for b
    using Cons.prems(1,2) by (auto simp: hits_def fun_eq_iff split: prod.splits)
  have "im_px (paint E r img) i j = im_px (paint E r img') i j \<or> (\<exists>q \<in> set rs. hits E (paint E r img) (fst q) i j)" for i j
    using Cons.prems(3) [of i j] by (auto simp: r paint_px same)
  then show ?case using Cons.IH [of "paint E r img" "paint E r img'"] Cons.prems(1,2) by simp
qed

lemma redact_pages_Inr:
  assumes "redact_pages E data n bp i ps = Inr outs"
  shows "length outs = length ps \<and> (\<forall>k < length ps.
    if rects_of bp (int (i + k)) = [] then outs ! k = Passed (ps ! k)
    else raster_page E data (i + k) (rects_of bp (int (i + k))) REDACT_DPI = Inr (outs ! k))"
  using assms
proof (induction ps arbitrary: i outs)
  case (Cons p ps)
  let ?one = "if rects_of bp (int i) = [] then Inr (Passed p) else if \<not> int i < n then Inl ValueError
      else raster_page E data i (rects_of bp (int i)) REDACT_DPI"
  obtain out rest where o: "?one = Inr out" "redact_pages E data n bp (Suc i) ps = Inr rest" "outs = out # rest"
    using Cons.prems by (auto simp: try_bind_def split: sum.splits)
  have "if rects_of bp (int i) = [] then out = Passed p else raster_page E data i (rects_of bp (int i)) REDACT_DPI = Inr out"
    using o(1) by (auto split: if_splits)
  then show ?case using Cons.IH [OF o(2)] by (auto simp: o(3) nth_Cons add.left_commute split: nat.splits)
qed simp

lemma raster_page_Inr:
  assumes "raster_page E data i rects dpi = Inr out"
  obtains img wp hp where "out = Picture (fold (paint E) rects img) wp hp"
  using assms by (auto simp: raster_page_def split: option.splits prod.splits)

text \<open>The pixels of a box on a picture.\<close>

definition under :: "image \<Rightarrow> box \<Rightarrow> int \<Rightarrow> int \<Rightarrow> bool" where
  "under img b i j =
     (case b of (x0, y0, x1, y1) \<Rightarrow>
        x0 * of_int (im_w img) \<le> of_int i \<and> of_int i \<le> x1 * of_int (im_w img) \<and>
        y0 * of_int (im_h img) \<le> of_int j \<and> of_int j \<le> y1 * of_int (im_h img))"

definition blacked_out :: "out_page \<Rightarrow> box \<Rightarrow> bool" where
  "blacked_out out b =
     (case out of Passed _ \<Rightarrow> False | Picture img wp hp \<Rightarrow> \<forall>i j. under img b i j \<longrightarrow> opaque (im_px img i j))"

definition covers_boxes :: "raster_env \<Rightarrow> bool" where
  "covers_boxes E = (\<forall>x0 y0 x1 y1 i j. x0 \<le> of_int i \<and> of_int i \<le> x1 \<and> y0 \<le> of_int j \<and> of_int j \<le> y1 \<longrightarrow> rx_covers E (x0, y0, x1, y1) i j)"

text \<open>What a successful redaction writes, page by page.\<close>

lemma pdf_redact_Inr:
  assumes "pdf_redact_regions E data regions = Inr new" and "group_by_page E regions \<noteq> []" and "covers_boxes E"
  shows "\<exists>ps outs. rx_reader E data = Some ps \<and> rx_write E outs = Some new \<and> length outs = length ps \<and>
    (\<forall>k < length ps. (\<forall>q \<in> set (group_by_page E regions). fst q \<noteq> int k) \<longrightarrow> outs ! k = Passed (ps ! k)) \<and>
    (\<forall>(p, b, kind) \<in> set (group_by_page E regions). 0 \<le> p \<and> p < int (length ps) \<longrightarrow> blacked_out (outs ! nat p) b)"
proof -
  let ?bp = "group_by_page E regions"
  obtain ps n outs where o: "rx_reader E data = Some ps" "redact_pages E data n ?bp 0 ps = Inr outs" "rx_write E outs = Some new"
    using assms(1,2) by (auto simp: pdf_redact_regions_def Let_def try_bind_def write_pages_def split: if_splits option.splits sum.splits)
  note out = redact_pages_Inr [OF o(2)]
  have 1: "outs ! k = Passed (ps ! k)" if "k < length ps" "\<forall>q \<in> set ?bp. fst q \<noteq> int k" for k
  proof -
    have "rects_of ?bp (int k) = []" using that(2) by (auto simp: rects_of_def filter_empty_conv)
    then show ?thesis using out that(1) by (metis add_0)
  qed
  have 2: "blacked_out (outs ! nat p) b"
    if q: "(p, b, kind) \<in> set ?bp" "0 \<le> p" "p < int (length ps)" for p b kind
  proof -
    have r: "(b, kind) \<in> set (rects_of ?bp p)" using q(1) by (force simp: rects_of_def)
    then have "rects_of ?bp (int (0 + nat p)) \<noteq> []" using q(2) by auto
    then have "raster_page E data (0 + nat p) (rects_of ?bp (int (0 + nat p))) REDACT_DPI = Inr (outs ! nat p)"
      using out q(2,3) by (metis nat_less_iff)
    then obtain img wp hp where pic: "outs ! nat p = Picture (fold (paint E) (rects_of ?bp p) img) wp hp"
      using q(2) by (auto elim: raster_page_Inr)
    have "opaque (im_px (fold (paint E) (rects_of ?bp p) img) i j)" if "under (fold (paint E) (rects_of ?bp p) img) b i j" for i j
    proof -
      have "hits E img b i j" using that assms(3) by (cases b) (simp add: under_def hits_def covers_boxes_def)
      then show ?thesis using r by (intro painted_opaque) force
    qed
    then show ?thesis by (simp add: pic blacked_out_def)
  qed
  show ?thesis using o(1,3) out 1 2 by (intro exI [of _ ps] exI [of _ outs]) blast
qed

lemma flatten_loop_Inr:
  assumes "flatten_loop E data n want i ps = Inr outs"
  shows "length outs = length ps \<and> (\<forall>k < length ps.
    if int (i + k) \<in> want \<and> int (i + k) < n then \<exists>img wp hp. outs ! k = Picture img wp hp else outs ! k = Passed (ps ! k))"
  using assms
proof (induction ps arbitrary: i outs)
  case (Cons p ps)
  let ?w = "int i \<in> want \<and> int i < n"
  obtain out rest where o: "(if ?w then raster_page E data i [] REDACT_DPI else Inr (Passed p)) = Inr out"
      "flatten_loop E data n want (Suc i) ps = Inr rest" "outs = out # rest"
    using Cons.prems by (auto simp: try_bind_def split: sum.splits)
  have "if ?w then \<exists>img wp hp. out = Picture img wp hp else out = Passed p"
    using o(1) by (auto elim: raster_page_Inr split: if_splits)
  then show ?case using Cons.IH [OF o(2)] by (auto simp: o(3) nth_Cons add.left_commute split: nat.splits)
qed simp

text \<open>Flattening replaces exactly the pages asked for that the renderer has, each by its picture.\<close>

lemma flatten_pages_Inr:
  assumes "flatten_pages E data pages = Inr new" and "pages \<noteq> []"
  shows "\<exists>ps n outs. rx_reader E data = Some ps \<and> rx_pdfium E data = Some n \<and> rx_write E outs = Some new \<and> length outs = length ps \<and>
    (\<forall>k < length ps. if int k \<in> set pages \<and> int k < n then \<exists>img wp hp. outs ! k = Picture img wp hp else outs ! k = Passed (ps ! k))"
proof -
  obtain ps n outs where o: "rx_reader E data = Some ps" "rx_pdfium E data = Some n" "flatten_loop E data n (set pages) 0 ps = Inr outs"
      "rx_write E outs = Some new"
    using assms by (auto simp: flatten_pages_def try_bind_def write_pages_def split: option.splits sum.splits)
  then show ?thesis using flatten_loop_Inr [OF o(3)] by (intro exI [of _ ps] exI [of _ n] exI [of _ outs]) simp
qed

section \<open>Redaction, end to end\<close>

lemma checked_region_of:
  assumes "check_region eng m (JObj kvs) = Inr ed"
  shows "\<exists>page x y bw bh kind. jint (jget kvs ''page'') = Inr page \<and> float4 eng kvs = Inr (x, y, bw, bh) \<and> 0 \<le> page \<and> page < m \<and>
    jget (dict_of ed) ''kind'' \<in> {JStr ''redact'', JStr ''whiteout''} \<and> \<not> kind_is_text (dict_of ed) \<and> ed = JObj (dict_of ed) \<and>
    region_of E (dict_of ed) = Some (page, (x, y, clamp01 (x + bw), clamp01 (y + bh)), kind)"
proof -
  obtain page x y bw bh where f: "jint (jget kvs ''page'') = Inr page" "float4 eng kvs = Inr (x, y, bw, bh)" "0 \<le> page" "page < m"
      "Drafting.box_in_page x y bw bh"
    and k: "jget_def kvs ''kind'' (JStr ''redact'') \<in> {JStr ''redact'', JStr ''whiteout''}"
    and ed: "ed = JObj [(''kind'', jget_def kvs ''kind'' (JStr ''redact'')), (''page'', JInt page), (''x'', JFloat x), (''y'', JFloat y),
                  (''w'', JFloat bw), (''h'', JFloat bh)]"
    using assms by (auto simp: check_region_def Let_def try_bind_def split: if_splits sum.splits)
  have c: "clamp01 x = x" "clamp01 y = y" "\<not> clamp01 (x + bw) \<le> x" "\<not> clamp01 (y + bh) \<le> y"
    using f(5) by (auto simp: Drafting.box_in_page_def clamp01_def)
  show ?thesis using f(1-4) k c
    by (auto simp: ed dict_of_def jget_def kind_is_text_def get_or_def region_of_def region_numbers_def try_bind_def Let_def)
qed

lemma in_group_by_page: "q \<in> set (group_by_page E rs) \<longleftrightarrow> (\<exists>r \<in> set rs. region_of E r = Some q)"
  by (induction rs) (auto simp: group_by_page_def List.map_filter_simps split: option.splits)

lemma all2_partner:
  "list_all2 P xs ys \<Longrightarrow> x \<in> set xs \<Longrightarrow> \<exists>y \<in> set ys. P x y" "list_all2 P xs ys \<Longrightarrow> y \<in> set ys \<Longrightarrow> \<exists>x \<in> set xs. P x y"
  by (induction rule: list_all2_induct) auto

lemma apply_only_regions:
  assumes "\<forall>e \<in> set es. jget e ''kind'' \<in> {JStr ''redact'', JStr ''whiteout''} \<and> \<not> kind_is_text e" and "es \<noteq> []"
  shows "pdf_apply_edits dw data es = dw_redact dw data (map JObj es)"
proof -
  have "filter (\<lambda>e. jget e ''kind'' \<in> {JStr ''redact'', JStr ''whiteout''}) es = es" "filter kind_is_text es = []"
    using assms(1) by (auto simp: filter_id_conv filter_empty_conv)
  then show ?thesis using assms(2) by (simp add: pdf_apply_edits_def Let_def try_bind_def split: sum.splits)
qed

definition counts_agree :: "raster_env \<Rightarrow> engine \<Rightarrow> bool" where
  "counts_agree E eng =
     (\<forall>d ps m. rx_reader E d = Some ps \<and> page_count (en_pk eng) d = Inr m \<longrightarrow> m = int (length ps))"

text \<open>Property C24. Redaction destroys: when the request to redact a draft succeeds, the stored document has, for every
  region that was asked for, a picture in place of the region's page whose every pixel in the region's box is
  black or white, and every page without a region is the page as it was. The drawing library paints at least
  the pixels with their corner in a rectangle, and the two readers agree on the number of pages.\<close>

theorem redaction_destroys:
  assumes "covers_boxes E" and "counts_agree E eng"
    and "Drafting.redact_regions (edits_engine E dw eng) now aid regions w = (PageOk n h fs, w')" and "agr_row w aid = Some a"
  shows "\<exists>data ps outs new. source_bytes w a = Some data \<and> rx_reader E data = Some ps \<and> rx_write E outs = Some new \<and>
    files w' (a_source_path a) = Some new \<and> length outs = length ps \<and> json_list regions \<noteq> [] \<and>
    (\<forall>r \<in> set (json_list regions). \<exists>kvs page x y bw bh. r = JObj kvs \<and> jint (jget kvs ''page'') = Inr page \<and>
       float4 (edits_engine E dw eng) kvs = Inr (x, y, bw, bh) \<and> 0 \<le> page \<and> page < int (length ps) \<and>
       blacked_out (outs ! nat page) (x, y, clamp01 (x + bw), clamp01 (y + bh))) \<and>
    (\<forall>k < length ps. (\<forall>r \<in> set (json_list regions). jint (jget (dict_of r) ''page'') \<noteq> Inr (int k)) \<longrightarrow> outs ! k = Passed (ps ! k))"
proof -
  let ?eng = "edits_engine E dw eng" and ?rs = "json_list regions"
  have ne: "?rs \<noteq> []"
    and ws: "with_source ?eng aid (\<lambda>a data n w. case check_each (check_region ?eng n) ?rs of Inl e \<Rightarrow> (PageErr e None, w)
            | Inr edits \<Rightarrow> (case en_apply_edits ?eng data edits of Inl _ \<Rightarrow> (PageRaise, w)
                | Inr new \<Rightarrow> rewrite_source ?eng now a new (\<lambda>w. w) ''redacted''
                    (''redacted '' @ py_str (int (length edits)) @ '' region(s)'') w)) w = (PageOk n h fs, w')"
    using assms(3) by (auto simp: Drafting.redact_regions_def split: sum.splits if_splits)
  from ws obtain data m edits new where d: "source_bytes w a = Some data" "page_count (en_pk ?eng) data = Inr m"
    and ch: "check_each (check_region ?eng m) ?rs = Inr edits" and new: "en_apply_edits ?eng data edits = Inr new"
    and rw: "rewrite_source ?eng now a new (\<lambda>w. w) ''redacted'' (''redacted '' @ py_str (int (length edits)) @ '' region(s)'') w = (PageOk n h fs, w')"
    using assms(4) by (elim with_source_ok) (auto split: sum.splits)
  have l2: "list_all2 (\<lambda>r ed. check_region ?eng m r = Inr ed) ?rs edits" using ch by (simp add: check_each_Inr)
  have obj: "\<exists>kvs. r = JObj kvs" if "check_region ?eng m r = Inr ed" for r ed
    using that by (auto simp: check_region_def split: json.splits)
  let ?es = "map dict_of edits" let ?bp = "group_by_page E ?es"
  have each: "\<exists>r \<in> set ?rs. check_region ?eng m r = Inr ed" if "ed \<in> set edits" for ed
    by (rule all2_partner(2) [OF l2 that])
  have each': "\<exists>ed \<in> set edits. check_region ?eng m r = Inr ed" if "r \<in> set ?rs" for r
    by (rule all2_partner(1) [OF l2 that])
  have "\<forall>e \<in> set ?es. jget e ''kind'' \<in> {JStr ''redact'', JStr ''whiteout''} \<and> \<not> kind_is_text e"
  proof
    fix e assume "e \<in> set ?es"
    then obtain ed where ed: "ed \<in> set edits" "e = dict_of ed" by auto
    obtain r kvs where r: "check_region ?eng m (JObj kvs) = Inr ed" using each [OF ed(1)] obj by blast
    show "jget e ''kind'' \<in> {JStr ''redact'', JStr ''whiteout''} \<and> \<not> kind_is_text e"
      using checked_region_of [OF r, of E] ed(2) by blast
  qed
  moreover have nn: "?es \<noteq> []" using l2 ne by auto
  ultimately have "pdf_apply_edits (dw\<lparr>dw_redact := redact_json E\<rparr>) data ?es = pdf_redact_regions E data ?es"
    by (simp add: apply_only_regions redact_json_def comp_def)
  then have red: "pdf_redact_regions E data ?es = Inr new"
    using new by (auto simp: edits_engine_def with_exc_def split: sum.splits)
  have in_bp: "\<exists>kvs page x y bw bh kind. r = JObj kvs \<and> jint (jget kvs ''page'') = Inr page \<and> float4 ?eng kvs = Inr (x, y, bw, bh) \<and>
      0 \<le> page \<and> page < m \<and> (page, (x, y, clamp01 (x + bw), clamp01 (y + bh)), kind) \<in> set ?bp" if rr: "r \<in> set ?rs" for r
  proof -
    obtain ed kvs where e: "ed \<in> set edits" "check_region ?eng m (JObj kvs) = Inr ed" "r = JObj kvs" using each' [OF rr] obj by blast
    then have "\<And>q. region_of E (dict_of ed) = Some q \<Longrightarrow> q \<in> set ?bp" by (auto simp: in_group_by_page)
    then show ?thesis using checked_region_of [OF e(2), of E] e(3) by blast
  qed
  have bp_page: "\<exists>r \<in> set ?rs. jint (jget (dict_of r) ''page'') = Inr (fst q)" if qq: "q \<in> set ?bp" for q
  proof -
    obtain ed where ed: "ed \<in> set edits" "region_of E (dict_of ed) = Some q" using qq by (auto simp: in_group_by_page)
    obtain r kvs where r: "r \<in> set ?rs" "check_region ?eng m (JObj kvs) = Inr ed" "r = JObj kvs" using each [OF ed(1)] obj by blast
    show ?thesis using checked_region_of [OF r(2), of E] ed(2) r(1,3) by (intro bexI [of _ r]) (auto simp: dict_of_def)
  qed
  have "?bp \<noteq> []" using in_bp ne by (metis list.set_intros(1) list.set_sel(1) empty_iff empty_set)
  from pdf_redact_Inr [OF red this assms(1)] obtain ps outs where o: "rx_reader E data = Some ps" "rx_write E outs = Some new" "length outs = length ps"
      "\<forall>k < length ps. (\<forall>q \<in> set ?bp. fst q \<noteq> int k) \<longrightarrow> outs ! k = Passed (ps ! k)"
      "\<forall>(p, b, kind) \<in> set ?bp. 0 \<le> p \<and> p < int (length ps) \<longrightarrow> blacked_out (outs ! nat p) b"
    by blast
  have m: "m = int (length ps)" using assms(2) o(1) d(2) by (auto simp: edits_engine_def counts_agree_def)
  have f: "files w' (a_source_path a) = Some new" using rewrite_source_ok [OF rw] by simp
  have r: "\<exists>kvs page x y bw bh. r = JObj kvs \<and> jint (jget kvs ''page'') = Inr page \<and> float4 ?eng kvs = Inr (x, y, bw, bh) \<and>
       0 \<le> page \<and> page < int (length ps) \<and> blacked_out (outs ! nat page) (x, y, clamp01 (x + bw), clamp01 (y + bh))"
    if rr: "r \<in> set ?rs" for r
  proof -
    obtain kvs page x y bw bh kind where q: "r = JObj kvs" "jint (jget kvs ''page'') = Inr page" "float4 ?eng kvs = Inr (x, y, bw, bh)"
        "0 \<le> page" "page < m" "(page, (x, y, clamp01 (x + bw), clamp01 (y + bh)), kind) \<in> set ?bp"
      using in_bp [OF rr] by blast
    show ?thesis using bspec [OF o(5) q(6)] q(1-5) m by auto
  qed
  have k: "outs ! k = Passed (ps ! k)" if "k < length ps" "\<forall>r \<in> set ?rs. jint (jget (dict_of r) ''page'') \<noteq> Inr (int k)" for k
    using o(4) that bp_page by metis
  show ?thesis using d(1) o(1-3) f ne r k by blast
qed

definition demo_raster :: raster_env where
  "demo_raster = \<lparr>rx_reader = (\<lambda>d. case page_count (en_pk ref_engine) d of Inr m \<Rightarrow> Some (replicate (nat m) ''page'') | Inl _ \<Rightarrow> None),
     rx_pdfium = (\<lambda>d. Some 2), rx_size = (\<lambda>d i. (612, 792)),
     rx_render = (\<lambda>d i s. Some \<lparr>im_w = 100, im_h = 100, im_px = (\<lambda>i j. (9, 9, 9))\<rparr>),
     rx_covers = (\<lambda>(x0, y0, x1, y1) i j. x0 \<le> of_int i \<and> of_int i \<le> x1 \<and> y0 \<le> of_int j \<and> of_int j \<le> y1),
     rx_write = (\<lambda>outs. Some (pk_save ref_pikepdf (map (\<lambda>_. \<lparr>pg_body = ''f'', pg_rotate = 0\<rparr>) outs))), rx_chars = (\<lambda>d. None), rx_clone = (\<lambda>f t. None), rx_clone_width = (\<lambda>b t s. 0),
     rx_str = (\<lambda>j. []), rx_float = (\<lambda>t. None)\<rparr>"

lemma demo_raster_facts:
  "covers_boxes demo_raster"
  "counts_agree demo_raster ref_engine"
  by (auto simp: demo_raster_def covers_boxes_def counts_agree_def page_count_def try_bind_def split: sum.splits)

lemma redaction_destroys_witness:
  "\<exists>n h fs w' outs img wp hp. Drafting.redact_regions (edits_engine demo_raster demo_draw ref_engine) 40 1
       (JList [JObj [(''page'', JInt 0), (''x'', JInt 0), (''y'', JInt 0), (''w'', JInt 1), (''h'', JInt 1)]]) draft_world = (PageOk n h fs, w') \<and>
     files w' (source_path 1) = rx_write demo_raster outs \<and> outs ! 0 = Picture img wp hp \<and>
     blacked_out (Picture img wp hp) (0, 0, 1, 1)"
proof -
  let ?eng = "edits_engine demo_raster demo_draw ref_engine"
  let ?r = "JList [JObj [(''page'', JInt 0), (''x'', JInt 0), (''y'', JInt 0), (''w'', JInt 1), (''h'', JInt 1)]]"
  have "(case fst (Drafting.redact_regions ?eng 40 1 ?r draft_world) of PageOk _ _ _ \<Rightarrow> True | _ \<Rightarrow> False)"
    by code_simp
  then obtain n h fs w' where f: "Drafting.redact_regions ?eng 40 1 ?r draft_world = (PageOk n h fs, w')"
    by (cases "Drafting.redact_regions ?eng 40 1 ?r draft_world") (auto split: page_result.splits)
  let ?kvs = "[(''page'', JInt 0), (''x'', JInt 0), (''y'', JInt 0), (''w'', JInt 1), (''h'', JInt 1)]"
  obtain outs new where o: "rx_write demo_raster outs = Some new" "files w' (a_source_path blank_agreement) = Some new"
      "\<forall>r \<in> set (json_list ?r). \<exists>kvs page x y bw bh. r = JObj kvs \<and> jint (jget kvs ''page'') = Inr page \<and>
         float4 ?eng kvs = Inr (x, y, bw, bh) \<and> blacked_out (outs ! nat page) (x, y, clamp01 (x + bw), clamp01 (y + bh))"
    using redaction_destroys [OF demo_raster_facts f draft_world_facts(1)] by (elim exE conjE) (rule that, assumption+, fast)
  have "jint (jget ?kvs ''page'') = Inr 0" "float4 ?eng ?kvs = Inr (0, 0, 1, 1)"
    by (simp_all add: float4_def jfloat_at_def jget_def)
  then have b: "blacked_out (outs ! 0) (0, 0, 1, 1)" using o(3) by (auto simp: json_list_def clamp01_def)
  then obtain img wp hp where p: "outs ! 0 = Picture img wp hp" by (auto simp: blacked_out_def split: out_page.splits)
  have "files w' (source_path 1) = rx_write demo_raster outs" using o(1,2) by (simp add: blank_agreement_def)
  then show ?thesis using f p b by (metis (no_types, lifting))
qed

section \<open>Rendering is bounded, redaction's is not\<close>

lemma render_capped: "max w h * capped_scale (w, h) dpi \<le> MAX_RENDER_PX"
  by (simp add: capped_scale_def Let_def MAX_RENDER_PX_def mult.assoc [symmetric] split: if_splits)

text \<open>The largest page a PDF may have has 14400 points a side; its picture would have 40000 pixels a side.\<close>

lemma redaction_uncapped:
  "raster_page E data i [] REDACT_DPI =
     (case rx_render E data i (200 / 72) of None \<Rightarrow> Inl OtherError
      | Some img \<Rightarrow> (case rx_size E data i of (wp, hp) \<Rightarrow> Inr (Picture img wp hp)))"
  "10 * MAX_RENDER_PX \<le> 14400 * (200 / 72)"
  by (simp_all add: raster_page_def REDACT_DPI_def MAX_RENDER_PX_def split: option.splits)

section \<open>Inspection loses no text\<close>

lemma nonspace_blank: "py_strip s = [] \<Longrightarrow> nonspace s = []"
  using nonspace_strip [of s] by simp

lemma flush_text: "nonspace (concat (map sp_text (flush_span cur))) = nonspace (sp_text cur)"
  by (simp add: flush_span_def nonspace_blank)

lemma spans_from_text:
  "nonspace (concat (map sp_text (spans_from h cur chs))) = nonspace (sp_text cur) @ nonspace (concat (map pc_text chs))"
proof (induction h cur chs rule: spans_from.induct)
  case (1 h cur)
  then show ?case by (simp add: flush_text)
next
  case (2 h cur ch chs)
  then show ?case by (simp add: flush_text new_span_def extend_span_def nonspace_append)
qed

text \<open>Every character that is no white space is in a span, in reading order.\<close>

lemma spans_of_text: "nonspace (concat (map sp_text (spans_of h chs))) = nonspace (concat (map pc_text chs))"
  by (cases chs) (simp_all add: spans_from_text new_span_def nonspace_append)

lemma uniformity_bounds: "0 \<le> snd (sample_bg_color E data page b)" "snd (sample_bg_color E data page b) \<le> 1"
  by (auto simp: sample_bg_color_def band_color_def Let_def divide_le_eq split: option.splits)

section \<open>What a replacement covers\<close>

definition char_within :: "real \<Rightarrow> real \<Rightarrow> box \<Rightarrow> pdf_char \<Rightarrow> bool" where
  "char_within w h b c =
     (case b of (x0, y0, x1, y1) \<Rightarrow> x0 \<le> pc_x0 c / w \<and> pc_x1 c / w \<le> x1 \<and> y0 \<le> pc_top c / h \<and> pc_bottom c / h \<le> y1)"

lemma extract_run_covers:
  assumes "extract_run E data page b = Inr r" and "rx_chars E data = Some pages" and "pages ! nat page = (w0, h0, chs)"
    and "c \<in> set chs" and "in_box (nonzero w0) (nonzero h0) b c" and "0 < w0" and "0 < h0"
  shows "\<not> turned c \<and> char_within w0 h0 (rn_box r) c"
proof -
  let ?hits = "filter (in_box (nonzero w0) (nonzero h0) b) chs"
  have nz: "nonzero w0 = w0" "nonzero h0 = h0" using assms(6,7) by (auto simp: nonzero_def)
  have e: "\<not> list_ex turned ?hits" "rn_box r = (Min (pc_x0 ` set ?hits) / w0, Min (pc_top ` set ?hits) / h0, Max (pc_x1 ` set ?hits) / w0, Max (pc_bottom ` set ?hits) / h0)"
    using assms(1) by (auto simp: extract_run_def assms(2,3) nz Let_def split: if_splits)
  have c: "c \<in> set ?hits" using assms(4,5) by simp
  have "Min (pc_x0 ` set ?hits) \<le> pc_x0 c" "Min (pc_top ` set ?hits) \<le> pc_top c" "pc_x1 c \<le> Max (pc_x1 ` set ?hits)" "pc_bottom c \<le> Max (pc_bottom ` set ?hits)"
    using c by (auto intro!: Min_le Max_ge)
  then have "char_within w0 h0 (rn_box r) c" using assms(6,7) by (simp add: char_within_def e(2) divide_right_mono)
  then show ?thesis using e(1) c by (auto simp: list_ex_iff)
qed

lemma resolve_edits_each:
  "resolve_edits E dw data es = Inr rs \<Longrightarrow> list_all2 (\<lambda>e r. resolve_edit E dw data e = Inr r) es rs"
  by (induction es arbitrary: rs) (auto split: sum.splits edit_stop.splits)

text \<open>When text is replaced, every edit had text, fits the room of the old one at three quarters of its size, and all
  characters of the page that lie in its box are upright and inside the run that is covered.\<close>

lemma replaced_text_covered:
  assumes "edit_replace_runs E dw data edits = Inr out" and "rx_chars E data = Some pages"
    and "\<forall>(w, h, chs) \<in> set pages. 0 < w \<and> 0 < h" and "e \<in> set edits"
  shows "\<exists>page b r w h chs size1. try_bind (member_of e ''page'') jint = Inr page \<and> try_bind (member_of e ''bbox'') (box_of E) = Inr b \<and>
    extract_run E data page b = Inr r \<and> pages ! nat page = (w, h, chs) \<and> py_strip (text_of dw (get_or e ''text'' (JStr []))) \<noteq> [] \<and>
    floor_width E dw (rn_font r) (text_of dw (get_or e ''text'' (JStr []))) size1 \<le> (fst (snd (snd (rn_box r))) - fst (rn_box r)) * w + 1 \<and>
    (\<forall>c \<in> set chs. in_box w h b c \<longrightarrow> \<not> turned c \<and> char_within w h (rn_box r) c)"
proof -
  obtain rs where rs: "resolve_edits E dw data edits = Inr rs" using assms(1) by (auto simp: edit_replace_runs_def split: sum.splits)
  obtain q where q: "resolve_edit E dw data e = Inr q" using all2_partner(1) [OF resolve_edits_each [OF rs] assms(4)] by blast
  obtain page bj b r where p: "try_bind (member_of e ''page'') jint = Inr page" "member_of e ''bbox'' = Inr bj"
      "py_strip (text_of dw (get_or e ''text'' (JStr []))) \<noteq> []" "box_of E bj = Inr b" "extract_run E data page b = Inr r"
    using q by (auto simp: resolve_edit_def stop_bind_def Let_def split: sum.splits if_splits)
  obtain size1 where s: "floor_width E dw (rn_font r) (text_of dw (get_or e ''text'' (JStr []))) size1 \<le>
      (fst (snd (snd (rn_box r))) - fst (rn_box r)) * rn_pw r + 1"
    using q p by (auto simp: resolve_edit_def stop_bind_def Let_def WIDTH_TOL_PT_def not_less split: sum.splits if_splits prod.splits)
  obtain w h chs where pg: "pages ! nat page = (w, h, chs)" by (cases "pages ! nat page") auto
  have "nat page < length pages" using p(5) assms(2) by (auto simp: extract_run_def split: if_splits)
  then have pos: "0 < w" "0 < h" using assms(3) pg by (metis (no_types, lifting) case_prodD nth_mem)+
  have nz: "nonzero w = w" "nonzero h = h" using pos by (auto simp: nonzero_def)
  have pw: "rn_pw r = w" using p(5) by (auto simp: extract_run_def assms(2) pg nz Let_def split: if_splits)
  show ?thesis
    using p pg s extract_run_covers [OF p(5) assms(2) pg] pos by (auto simp: pw nz)
qed

end
