(* ===== verification/Fontmap.thy ===== *)
theory Fontmap
  imports Redaction Dialect
begin

text \<open>
  The choice of a face for text that is edited in place: the substitute for a font by its name and flags
  (\<open>sign/fontmap.py\<close>) and the face a run is redrawn in (\<open>font_for_run\<close> of \<open>sign/pdf_stamp.py\<close>). The bundled font
  files and what their tables say are parameters, as is the registration of a face with reportlab.
\<close>

section \<open>Tables\<close>

text \<open>The file of a face by weight and slant.\<close>

type_synonym faces = "bool \<times> bool \<Rightarrow> string"

definition f4 :: "string \<Rightarrow> faces" where
  "f4 base bi = base @ (case bi of (False, False) \<Rightarrow> ''-400.ttf'' | (True, False) \<Rightarrow> ''-700.ttf''
     | (False, True) \<Rightarrow> ''-400i.ttf'' | (True, True) \<Rightarrow> ''-700i.ttf'')"

definition FAMILIES :: "(string \<times> faces) list" where
  "FAMILIES =
     map (\<lambda>b. (py_lower b, f4 b))
       [
        ''Arimo'', ''Tinos'', ''Cousine'', ''Carlito'', ''Caladea'', ''Gelasio'', ''Roboto'', ''Lato'', ''OpenSans'',
        ''Montserrat'', ''SourceSans3'', ''Poppins'', ''Merriweather'', ''NunitoSans'', ''Raleway'', ''PTSans'',
        ''PTSerif''] @
     [(''sora'', \<lambda>(b, i). if b then ''Sora-700.ttf'' else ''Sora-400.ttf''),
      (''inter'', \<lambda>(b, i). if b then ''Inter-600.ttf'' else ''Inter-400.ttf''), (''jbmono'', \<lambda>bi. ''JBMono-400.ttf'')]"

definition METRIC :: "string list" where
  "METRIC = [''arimo'', ''tinos'', ''cousine'', ''carlito'', ''caladea'', ''gelasio'']"

definition SUBSTITUTE :: "(string \<times> string) list" where
  "SUBSTITUTE =
     [
      (''arial'', ''arimo''), (''helvetica'', ''arimo''), (''helveticaneue'', ''arimo''), (''arimo'', ''arimo''),
      (''liberationsans'', ''arimo''), (''segoeui'', ''arimo''), (''segoe'', ''arimo''), (''verdana'', ''arimo''),
      (''tahoma'', ''arimo''), (''trebuchet'', ''arimo''), (''trebuchetms'', ''arimo''), (''dejavusans'', ''arimo''),
      (''franklingothic'', ''arimo''), (''calibrilight'', ''carlito''), (''timesnewroman'', ''tinos''),
      (''times'', ''tinos''), (''liberationserif'', ''tinos''), (''tinos'', ''tinos''),
      (''couriernew'', ''cousine''), (''courier'', ''cousine''), (''consolas'', ''cousine''),
      (''monaco'', ''cousine''), (''liberationmono'', ''cousine''), (''cousine'', ''cousine''),
      (''menlo'', ''jbmono''), (''jetbrainsmono'', ''jbmono''), (''calibri'', ''carlito''),
      (''carlito'', ''carlito''), (''cambria'', ''caladea''), (''caladea'', ''caladea''),
      (''cambriamath'', ''caladea''), (''georgia'', ''gelasio''), (''gelasio'', ''gelasio''),
      (''garamond'', ''ptserif''), (''minion'', ''ptserif''), (''book'', ''ptserif''),
      (''bookantiqua'', ''ptserif''), (''roboto'', ''roboto''), (''lato'', ''lato''), (''opensans'', ''opensans''),
      (''montserrat'', ''montserrat''), (''sourcesanspro'', ''sourcesans3''), (''sourcesans'', ''sourcesans3''),
      (''sourcesans3'', ''sourcesans3''), (''poppins'', ''poppins''), (''merriweather'', ''merriweather''),
      (''nunitosans'', ''nunitosans''), (''nunito'', ''nunitosans''), (''raleway'', ''raleway''),
      (''ptsans'', ''ptsans''), (''ptserif'', ''ptserif''), (''sora'', ''sora''), (''inter'', ''inter''),
      (''lato2'', ''lato'')]"

definition GENERIC :: "string \<Rightarrow> string" where
  "GENERIC cls = (if cls = ''serif'' then ''tinos'' else if cls = ''mono'' then ''cousine'' else ''arimo'')"

definition STYLE_WORDS :: "string list" where
  "STYLE_WORDS =
     [
      ''thin'', ''extralight'', ''ultralight'', ''light'', ''regular'', ''normal'', ''book'', ''medium'',
      ''semibold'', ''demibold'', ''demi'', ''bold'', ''extrabold'', ''ultrabold'', ''black'', ''heavy'', ''italic'',
      ''oblique'', ''condensed'', ''cond'', ''narrow'', ''expanded'', ''roman'', ''mt'', ''ps'']"

section \<open>Names\<close>

text \<open>\<open>re.sub\<close> of the style words between word boundaries: a whole run of word characters that is one of them goes.\<close>

definition drop_style :: "string \<Rightarrow> string" where
  "drop_style word = (if py_lower word \<in> set STYLE_WORDS then [] else word)"

fun sub_style :: "string \<Rightarrow> string \<Rightarrow> string" where
  "sub_style word [] = drop_style word"
| "sub_style word (c # cs) =
     (if sql_word c then sub_style (word @ [c]) cs else drop_style word @ c # sub_style [] cs)"

definition norm_name :: "string \<Rightarrow> string" where
  "norm_name name =
     filter (\<lambda>c. is_digit c \<or> is_ascii_alpha c) (py_lower (sub_style [] (last (py_split (CHR ''+'') name))))"

definition classify :: "string \<Rightarrow> string" where
  "classify n =
     (if list_ex (\<lambda>k. contains k n) [''times'', ''serif'', ''georgia'', ''roman'', ''garamond'', ''minion'', ''merri'', ''cambria'',
          ''caladea'', ''gelasio'', ''ptserif'', ''book'', ''antiqua''] then ''serif''
      else if list_ex (\<lambda>k. contains k n) [''courier'', ''mono'', ''consol'', ''cousine'', ''jetbrains'', ''menlo'', ''monaco''] then ''mono''
      else ''sans'')"

text \<open>A bit of the flags.\<close>

definition has_bit :: "int \<Rightarrow> int \<Rightarrow> bool" where
  "has_bit flags b = (flags div b mod 2 = 1)"

definition family_key :: "string \<Rightarrow> int \<Rightarrow> string" where
  "family_key name flags =
     (let n = norm_name name in
      case map_of SUBSTITUTE n of
        Some f \<Rightarrow> f
      | None \<Rightarrow> (case find (\<lambda>kf. 4 \<le> length (fst kf) \<and> contains (fst kf) n) SUBSTITUTE of
            Some kf \<Rightarrow> snd kf
          | None \<Rightarrow>
              let cls = classify n in
              GENERIC (if cls = ''sans'' then (if has_bit flags 8 then ''mono'' else if has_bit flags 4 then ''serif'' else cls) else cls)))"

section \<open>Faces\<close>

record font_env =
  fe_file :: "string \<Rightarrow> bytes option"
  fe_cmap :: "bytes \<Rightarrow> (int \<Rightarrow> string option) option"
  fe_advance :: "bytes \<Rightarrow> string \<Rightarrow> int option"
  fe_notdef :: "bytes \<Rightarrow> int"
  fe_upm :: "bytes \<Rightarrow> int"

definition load_font :: "font_env \<Rightarrow> string \<Rightarrow> bytes option" where
  "load_font F fn = (case fe_file F fn of Some b \<Rightarrow> if b = [] then None else Some b | None \<Rightarrow> None)"

text \<open>Every character that is no white space has a glyph; a face that cannot be read counts as covering.\<close>

definition covers_text :: "font_env \<Rightarrow> bytes \<Rightarrow> string \<Rightarrow> bool" where
  "covers_text F buf t =
     (t = [] \<or> (case fe_cmap F buf of None \<Rightarrow> True
       | Some cmap \<Rightarrow> list_all (\<lambda>c. is_space c \<or> cmap (int (char_code c)) \<noteq> None) t))"

definition wants_bold :: "string \<Rightarrow> int \<Rightarrow> bool" where
  "wants_bold name flags =
     (has_bit flags 16 \<or> list_ex (\<lambda>k. contains k (py_lower name)) [''bold'', ''black'', ''heavy'', ''semibold'', ''demibold''])"

definition wants_italic :: "string \<Rightarrow> int \<Rightarrow> bool" where
  "wants_italic name flags = (has_bit flags 2 \<or> list_ex (\<lambda>k. contains k (py_lower name)) [''italic'', ''oblique''])"

definition faces_of :: "string \<Rightarrow> faces" where
  "faces_of key = (case map_of FAMILIES key of Some f \<Rightarrow> f | None \<Rightarrow> (\<lambda>bi. []))"

definition usable :: "font_env \<Rightarrow> string \<Rightarrow> string \<Rightarrow> bytes option" where
  "usable F t fn = (case load_font F fn of Some b \<Rightarrow> if covers_text F b t then Some b else None | None \<Rightarrow> None)"

fun first_some :: "('a \<Rightarrow> 'b option) \<Rightarrow> 'a list \<Rightarrow> 'b option" where
  "first_some f [] = None"
| "first_some f (x # xs) = (case f x of Some y \<Rightarrow> Some y | None \<Rightarrow> first_some f xs)"

definition resolve :: "font_env \<Rightarrow> string \<Rightarrow> int \<Rightarrow> string \<Rightarrow> bytes option \<times> string \<times> bool" where
  "resolve F name flags t =
     (let b = wants_bold name flags; i = wants_italic name flags; key = family_key name flags;
          fam = (if map_of FAMILIES key \<noteq> None then faces_of key else faces_of (GENERIC (classify (norm_name name))))
      in case first_some (\<lambda>bi. usable F t (fam bi)) [(b, i), (b, False), (False, i), (False, False)] of
           Some buf \<Rightarrow> (Some buf, key, key \<in> set METRIC)
         | None \<Rightarrow> (case load_font F (faces_of key (False, False)) of
               Some buf \<Rightarrow> (Some buf, key, key \<in> set METRIC)
             | None \<Rightarrow> (None, key, False)))"

definition glyph_width :: "font_env \<Rightarrow> bytes \<Rightarrow> char \<Rightarrow> int" where
  "glyph_width F buf c =
     (case Option.bind (Option.bind (fe_cmap F buf) (\<lambda>cmap. cmap (int (char_code c)))) (\<lambda>g. if g = [] then None else fe_advance F buf g) of
        Some n \<Rightarrow> n | None \<Rightarrow> fe_notdef F buf)"

text \<open>The sum of the advance widths, of a face that can be read.\<close>

definition text_width :: "font_env \<Rightarrow> bytes \<Rightarrow> string \<Rightarrow> real \<Rightarrow> real" where
  "text_width F buf t size1 = of_int (sum_list (map (glyph_width F buf) t)) * size1 / of_int (if fe_upm F buf = 0 then 1000 else fe_upm F buf)"

section \<open>The face of a redrawn run\<close>

definition CLASS_OF :: "string \<Rightarrow> string" where
  "CLASS_OF key =
     (if key \<in> {''tinos'', ''caladea'', ''gelasio'', ''merriweather'', ''ptserif''} then ''serif''
      else if key \<in> {''cousine'', ''jbmono''} then ''mono'' else ''sans'')"

text \<open>A registered face has an alias made from a digest of its key; registration may fail.\<close>

record face_env = font_env +
  fe_register :: "bytes \<Rightarrow> string \<Rightarrow> string option"

definition font_for_run :: "face_env \<Rightarrow> draw_env \<Rightarrow> string \<Rightarrow> string \<Rightarrow> bool \<Rightarrow> bool \<Rightarrow> int \<Rightarrow> string" where
  "font_for_run F dw name t b i flags =
     (if \<not> latin1 t then (if dw_fallback dw then ''LSFallback'' else font_for dw t ''sans'' b i)
      else (let f0 = (if b \<and> \<not> has_bit flags 16 then flags + 16 else flags);
                eff = (if i \<and> \<not> has_bit f0 2 then f0 + 2 else f0)
        in case resolve (font_env.truncate F) name eff t of
             (buf, key, _) \<Rightarrow>
               (let raw = py_lower name;
                    rb = (has_bit eff 16 \<or> list_ex (\<lambda>k. contains k raw) [''bold'', ''black'', ''heavy'', ''semibold'', ''demibold'', ''demi'']);
                    ri = (has_bit eff 2 \<or> list_ex (\<lambda>k. contains k raw) [''italic'', ''oblique'']);
                    reg_key = key @ ''-'' @ (if rb then ''1'' else ''0'') @ (if ri then ''1'' else ''0'')
                in case Option.bind buf (\<lambda>bs. fe_register F bs reg_key) of
                     Some alias \<Rightarrow> alias
                   | None \<Rightarrow> font_for dw t (CLASS_OF key) b i)))"

section \<open>What the choice guarantees\<close>

text \<open>Whatever a font is called, there is a family for it: the tables are never read at a missing key.\<close>

lemma families_closed:
  "\<forall>kf \<in> set SUBSTITUTE. map_of FAMILIES (snd kf) \<noteq> None" "map_of FAMILIES (GENERIC cls) \<noteq> None"
proof -
  have "list_all (\<lambda>kf. map_of FAMILIES (snd kf) \<noteq> None) SUBSTITUTE" by code_simp
  then show "\<forall>kf \<in> set SUBSTITUTE. map_of FAMILIES (snd kf) \<noteq> None" by (simp add: list_all_iff)
  have "list_all (\<lambda>g. map_of FAMILIES g \<noteq> None) [''tinos'', ''cousine'', ''arimo'']" by code_simp
  then show "map_of FAMILIES (GENERIC cls) \<noteq> None" by (simp add: GENERIC_def)
qed

lemma family_known: "map_of FAMILIES (family_key name flags) \<noteq> None"
proof (cases "map_of SUBSTITUTE (norm_name name)")
  case (Some f)
  then have "(norm_name name, f) \<in> set SUBSTITUTE" by (rule map_of_SomeD)
  then show ?thesis using families_closed(1) Some by (auto simp: family_key_def Let_def)
next
  case None
  show ?thesis
  proof (cases "find (\<lambda>kf. 4 \<le> length (fst kf) \<and> contains (fst kf) (norm_name name)) SUBSTITUTE")
    case (Some kf)
    then have "kf \<in> set SUBSTITUTE" by (auto simp: find_Some_iff in_set_conv_nth)
    then show ?thesis using families_closed(1) None Some by (simp add: family_key_def Let_def)
  next
    case none: None
    then show ?thesis using None families_closed(2) by (simp add: family_key_def Let_def)
  qed
qed

lemma first_some_Some: "first_some f xs = Some y \<Longrightarrow> \<exists>x \<in> set xs. f x = Some y"
  by (induction xs) (auto split: option.splits)

lemma first_some_None: "first_some f xs = None \<Longrightarrow> \<forall>x \<in> set xs. f x = None"
  by (induction xs) (auto split: option.splits)

lemma resolve_known:
  "resolve F name flags t =
     (case first_some (\<lambda>bi. usable F t (faces_of (family_key name flags) bi))
        [(wants_bold name flags, wants_italic name flags), (wants_bold name flags, False), (False, wants_italic name flags), (False, False)] of
        Some buf \<Rightarrow> (Some buf, family_key name flags, family_key name flags \<in> set METRIC)
      | None \<Rightarrow> (case load_font F (faces_of (family_key name flags) (False, False)) of
            Some buf \<Rightarrow> (Some buf, family_key name flags, family_key name flags \<in> set METRIC)
          | None \<Rightarrow> (None, family_key name flags, False)))"
  by (simp only: resolve_def Let_def family_known simp_thms if_True)

text \<open>A face that is chosen is a bundled one of the family that is named, and has a glyph for every character of the
  text unless no face of the family does; then it is the regular one.\<close>

lemma resolve_face:
  assumes "resolve F name flags t = (Some buf, key, metric)"
  shows "key = family_key name flags \<and> (\<exists>bi. load_font F (faces_of key bi) = Some buf \<and>
    (covers_text F buf t \<or> bi = (False, False) \<and> usable F t (faces_of key (False, False)) = None))"
proof -
  let ?tries = "[(wants_bold name flags, wants_italic name flags), (wants_bold name flags, False), (False, wants_italic name flags), (False, False)]"
  show ?thesis
  proof (cases "first_some (\<lambda>bi. usable F t (faces_of (family_key name flags) bi)) ?tries")
    case (Some b)
    then obtain bi where "usable F t (faces_of (family_key name flags) bi) = Some b" by (blast dest: first_some_Some)
    then have "load_font F (faces_of (family_key name flags) bi) = Some b \<and> covers_text F b t"
      by (auto simp: usable_def split: option.splits if_splits)
    moreover have "b = buf" "key = family_key name flags" using assms by (simp_all add: resolve_known Some del: first_some.simps)
    ultimately show ?thesis by blast
  next
    case None
    then have "usable F t (faces_of (family_key name flags) (False, False)) = None" using first_some_None [OF None] by simp
    then show ?thesis using assms by (auto simp: resolve_known None simp del: first_some.simps split: option.splits)
  qed
qed

text \<open>A monospaced font by name is given proportional letters: an entry for another font is found in its name first.\<close>

lemma dejavu_mono_proportional:
  "classify (norm_name ''DejaVuSansMono'') = ''mono''" "family_key ''DejaVuSansMono'' 8 = ''arimo''"
  by code_simp+

text \<open>The last resort is the same family again, not a generic one: without its files nothing is found.\<close>

lemma last_resort_same_family:
  "resolve \<lparr>fe_file = (\<lambda>fn. if fn = ''Arimo-400.ttf'' then Some ''a'' else None), fe_cmap = (\<lambda>b. None), fe_advance = (\<lambda>b g. None),
      fe_notdef = (\<lambda>b. 500), fe_upm = (\<lambda>b. 1000)\<rparr> ''Lato'' 0 ''x'' = (None, ''lato'', False)"
  by code_simp

text \<open>The parameters of text replacement filled in with these choices.\<close>

definition with_fonts :: "font_env \<Rightarrow> raster_env \<Rightarrow> raster_env" where
  "with_fonts F E = E\<lparr>rx_clone := (\<lambda>font t. fst (resolve F font 0 t)), rx_clone_width := text_width F\<rparr>"

lemma floor_width_fonts:
  assumes "floor_width (with_fonts F E) dw font t size1 = v" and "resolve F font 0 t = (Some buf, key, metric)"
  shows "v = text_width F buf t (size1 * SHRINK_FLOOR)"
proof -
  have "buf \<noteq> []" using resolve_face [OF assms(2)] by (auto simp: load_font_def split: option.splits if_splits)
  then show ?thesis using assms by (simp add: floor_width_def with_fonts_def)
qed

end
