(* ===== verification/Config.thy ===== *)
theory Config
  imports Submission "HOL-Library.Sublist"
begin

text \<open>
  Configuration and signing material: the readers of the environment and the values the other parts are given
  (\<open>sign/config.py\<close>), the provisioning of a certificate and key and their loading (\<open>ensure_signing_material\<close>,
  \<open>_load_signing_material\<close> of \<open>sign/esign.py\<close>), and the check of a pair (\<open>sign/pdf_sign.py\<close>). The environment and
  the files are maps; parsing and making X.509 material are parameters.
\<close>

type_synonym environ = "string \<Rightarrow> string option"

section \<open>Reading the environment\<close>

definition env_get :: "environ \<Rightarrow> string \<Rightarrow> string \<Rightarrow> string" where
  "env_get e name d = py_strip (nonblank (case e name of Some v \<Rightarrow> v | None \<Rightarrow> []) d)"

definition env_flag :: "environ \<Rightarrow> string \<Rightarrow> bool \<Rightarrow> bool" where
  "env_flag e name d =
     (case e name of None \<Rightarrow> d | Some raw \<Rightarrow> py_lower (py_strip raw) \<in> {''1'', ''true'', ''yes'', ''on''})"

definition env_int :: "environ \<Rightarrow> string \<Rightarrow> int \<Rightarrow> int" where
  "env_int e name d =
     (let t = env_get e name []; v = (if t = [] then Some d else py_int t) in
      case v of None \<Rightarrow> d | Some n \<Rightarrow> if 0 < n then n else d)"

definition PLACEHOLDER_SECRETS :: "string list" where
  "PLACEHOLDER_SECRETS = [[], ''change-me'', ''changeme'', ''replace-me'', ''dev'', ''development'', ''secret'',
     ''your-secret-here'', ''please-change-this-in-production'']"

text \<open>\<open>None\<close> is the exit with code 78: there is no booting without a secret.\<close>

definition require_secret :: "environ \<Rightarrow> string option" where
  "require_secret e =
     (let s = py_strip (case e ''SIGN_SECRET'' of Some v \<Rightarrow> v | None \<Rightarrow> []) in
      if s \<in> set PLACEHOLDER_SECRETS \<or> length s < 16 then None else Some s)"

section \<open>Values\<close>

definition insecure_cookies :: "environ \<Rightarrow> bool" where
  "insecure_cookies e = env_flag e ''SIGN_INSECURE_COOKIES'' False"

definition cookie_name :: "environ \<Rightarrow> string \<Rightarrow> string" where
  "cookie_name e base = (if insecure_cookies e then base else ''__Host-'' @ base)"

definition cookie_secure :: "environ \<Rightarrow> bool" where
  "cookie_secure e = (\<not> insecure_cookies e)"

definition rstrip_slash :: "string \<Rightarrow> string" where
  "rstrip_slash s = rev (dropWhile (\<lambda>c. c = CHR ''/'') (rev s))"

definition public_base :: "environ \<Rightarrow> string" where
  "public_base e = rstrip_slash (env_get e ''PUBLIC_BASE_URL'' ''http://localhost:8080'')"

definition operator_name :: "environ \<Rightarrow> string" where
  "operator_name e =
     nonblank (nonblank (env_get e ''OPERATOR_NAME'' []) (env_get e ''LEGAL_ENTITY'' [])) (env_get e ''MAIL_FROM_NAME'' ''Lifted Sign'')"

text \<open>The host of the base address is \<open>urlsplit\<close>'s, an argument.\<close>

definition page_tokens :: "(string \<Rightarrow> string) \<Rightarrow> environ \<Rightarrow> (string \<times> string) list" where
  "page_tokens netloc e =
     [(''{{PUBLIC_BASE_URL}}'', public_base e), (''{{PUBLIC_HOST}}'', nonblank (netloc (public_base e)) ''localhost:8080''),
      (''{{OPERATOR_NAME}}'', operator_name e), (''{{OPERATOR_URL}}'', nonblank (env_get e ''OPERATOR_URL'' []) (public_base e)),
      (''{{LEGAL_ENTITY}}'', nonblank (env_get e ''LEGAL_ENTITY'' []) ''[Operator Name]'')]"

definition admin_emails :: "environ \<Rightarrow> string list" where
  "admin_emails e =
     map (\<lambda>x. py_lower (py_strip x)) (filter (\<lambda>x. py_strip x \<noteq> []) (py_split (CHR '','') (env_get e ''ADMIN_EMAILS'' [])))"

section \<open>Signing material\<close>

type_synonym disk = "string \<Rightarrow> bytes option"

record esign_block =
  eb_cert_pem :: string
  eb_cert_path :: string
  eb_key_pem :: string
  eb_key_path :: string
  eb_passphrase :: string

record autocert =
  au_on :: bool
  au_cert :: string
  au_key :: string

text \<open>Explicit material wins; without any, the provisioned pair if both files are there.\<close>

definition esign_block_of :: "environ \<Rightarrow> autocert \<Rightarrow> disk \<Rightarrow> esign_block" where
  "esign_block_of e au d =
     (let g = (\<lambda>n. env_get e n []); cp = g ''SIGN_PADES_CERT_PATH''; kp = g ''SIGN_PADES_KEY_PATH'';
          c = g ''SIGN_PADES_CERT_PEM''; k = g ''SIGN_PADES_KEY_PEM'';
          auto = (c = [] \<and> cp = [] \<and> k = [] \<and> kp = [] \<and> au_on au \<and> d (au_cert au) \<noteq> None \<and> d (au_key au) \<noteq> None)
      in \<lparr>eb_cert_pem = c, eb_cert_path = (if auto then au_cert au else cp), eb_key_pem = k,
          eb_key_path = (if auto then au_key au else kp), eb_passphrase = g ''SIGN_PADES_KEY_PASSPHRASE''\<rparr>)"

text \<open>Inline text, or the file of a path (a relative one from the install root).\<close>

definition resolve_pem :: "(string \<Rightarrow> string) \<Rightarrow> disk \<Rightarrow> string \<Rightarrow> string \<Rightarrow> bytes option" where
  "resolve_pem home d pem path =
     (if py_strip pem \<noteq> [] then Some pem
      else if py_strip path \<noteq> [] then d (if startswith path ''/'' then path else home path) else None)"

definition load_signing_material :: "(string \<Rightarrow> string) \<Rightarrow> disk \<Rightarrow> esign_block \<Rightarrow> (bytes \<times> bytes) option" where
  "load_signing_material home d b =
     (case (resolve_pem home d (eb_cert_pem b) (eb_cert_path b), resolve_pem home d (eb_key_pem b) (eb_key_path b)) of
        (Some c, Some k) \<Rightarrow> if c = [] \<or> k = [] then None else Some (c, k)
      | _ \<Rightarrow> None)"

text \<open>The first boot: the certificate is written, then the key if there is none; any failure is passed over.\<close>

definition ensure_signing_material :: "environ \<Rightarrow> autocert \<Rightarrow> (bytes \<times> bytes) option \<Rightarrow> disk \<Rightarrow> disk" where
  "ensure_signing_material e au generated d =
     (let b = esign_block_of e au d in
      if \<not> au_on au then d
      else if eb_cert_pem b \<noteq> [] \<or> eb_key_pem b \<noteq> [] then d
      else if eb_cert_path b \<noteq> [] \<and> eb_cert_path b \<noteq> au_cert au then d
      else if d (au_cert au) \<noteq> None \<and> d (au_key au) \<noteq> None then d
      else (case generated of
          None \<Rightarrow> d
        | Some (c, k) \<Rightarrow>
            let d1 = d(au_cert au \<mapsto> c) in if d1 (au_key au) \<noteq> None then d1 else d1(au_key au \<mapsto> k)))"

section \<open>Checking a pair\<close>

record cert_data =
  cd_public :: string
  cd_not_before :: time
  cd_not_after :: time

text \<open>What the cryptography library reads: the certificate and the public half of the key.\<close>

type_synonym pair_reader = "bytes \<Rightarrow> bytes \<Rightarrow> bytes option \<Rightarrow> (cert_data \<times> string) option"

definition material_ok :: "pair_reader \<Rightarrow> time \<Rightarrow> (bytes \<times> bytes) option \<Rightarrow> string \<Rightarrow> bool" where
  "material_ok rd now m passphrase =
     (case m of
        None \<Rightarrow> False
      | Some (c, k) \<Rightarrow>
          (if c = [] \<or> k = [] then False
           else case rd c k (if passphrase = [] then None else Some passphrase) of
             None \<Rightarrow> False
           | Some (cd, pub) \<Rightarrow> pub = cd_public cd \<and> \<not> (now < cd_not_before cd \<or> cd_not_after cd < now)))"

text \<open>The command line that provisions a pair refuses a directory under the repository; paths are resolved.\<close>

definition provision :: "string list \<Rightarrow> string list \<Rightarrow> bytes \<times> bytes \<Rightarrow> (string list \<Rightarrow> bytes option) \<Rightarrow> (string list \<Rightarrow> bytes option) option" where
  "provision repo target ck d =
     (if prefix repo target then None
      else Some (d(target @ [''lifted_signing_cert.pem''] \<mapsto> fst ck, target @ [''lifted_signing_key.pem''] \<mapsto> snd ck)))"

section \<open>What the configuration guarantees\<close>

text \<open>A process that runs has a secret of sixteen characters at least that is no placeholder.\<close>

lemma secret_is_strong:
  "require_secret e = Some s \<Longrightarrow> 16 \<le> length s \<and> s \<notin> set PLACEHOLDER_SECRETS"
  by (auto simp: require_secret_def Let_def split: if_splits)

text \<open>The name of a cookie and its secure attribute go together.\<close>

lemma cookie_lockstep: "cookie_secure e \<Longrightarrow> startswith (cookie_name e base) ''__Host-''" "\<not> cookie_secure e \<Longrightarrow> cookie_name e base = base"
  by (simp_all add: cookie_secure_def cookie_name_def startswith_def)

text \<open>A provisioned key stays out of the repository, and nothing in it is written.\<close>

lemma provision_outside:
  assumes "provision repo target ck d = Some d'" and "strict_prefix repo p"
  shows "d' p = d p"
proof -
  have "\<not> prefix repo target" using assms(1) by (auto simp: provision_def split: if_splits)
  then have "p \<noteq> target @ [x]" for x using assms(2) by (auto simp: strict_prefix_def)
  then show ?thesis using assms(1) by (auto simp: provision_def split: if_splits)
qed

definition no_explicit :: "environ \<Rightarrow> bool" where
  "no_explicit e = list_all (\<lambda>n. env_get e n [] = [])
     [''SIGN_PADES_CERT_PATH'', ''SIGN_PADES_KEY_PATH'', ''SIGN_PADES_CERT_PEM'', ''SIGN_PADES_KEY_PEM'']"

definition plain_paths :: "autocert \<Rightarrow> bool" where
  "plain_paths au = (startswith (au_cert au) ''/'' \<and> startswith (au_key au) ''/'' \<and> au_cert au \<noteq> au_key au \<and>
     py_strip (au_cert au) \<noteq> [] \<and> py_strip (au_key au) \<noteq> [] \<and> au_on au)"

lemma provisioned_files:
  assumes "no_explicit e" and "plain_paths au" and "d (au_cert au) = Some c" and "d (au_key au) = Some k" and "c \<noteq> []" and "k \<noteq> []"
  shows "load_signing_material home d (esign_block_of e au d) = Some (c, k)"
  using assms by (simp add: no_explicit_def plain_paths_def esign_block_of_def Let_def load_signing_material_def resolve_pem_def py_strip_def)

text \<open>An installation without explicit material and without a key signs, from its first boot on, with the pair that was
  made there, and later boots keep it.\<close>

lemma first_boot_provisions:
  assumes "no_explicit e" and "plain_paths au" and "d (au_key au) = None" and "c \<noteq> []" and "k \<noteq> []"
    and "d' = ensure_signing_material e au (Some (c, k)) d"
  shows "load_signing_material home d' (esign_block_of e au d') = Some (c, k)" and "ensure_signing_material e au g d' = d'"
proof -
  have "d' = d(au_cert au \<mapsto> c, au_key au \<mapsto> k)"
    using assms by (auto simp: ensure_signing_material_def no_explicit_def plain_paths_def esign_block_of_def Let_def)
  then have f: "d' (au_cert au) = Some c" "d' (au_key au) = Some k" using assms(2) by (auto simp: plain_paths_def)
  show "load_signing_material home d' (esign_block_of e au d') = Some (c, k)" by (rule provisioned_files [OF assms(1,2) f assms(4,5)])
  show "ensure_signing_material e au g d' = d'" by (simp add: ensure_signing_material_def Let_def f)
qed

text \<open>A key whose certificate is gone is paired with a new certificate that is not its own: the check fails at every
  later boot, and documents are sealed the other way without a word.\<close>

lemma stale_key_mismatch:
  assumes "no_explicit e" and "plain_paths au" and "d (au_cert au) = None" and "d (au_key au) = Some old" and "c \<noteq> []" and "old \<noteq> []"
    and "d' = ensure_signing_material e au (Some (c, k)) d" and "\<And>cd pub. rd c old None = Some (cd, pub) \<Longrightarrow> pub \<noteq> cd_public cd"
  shows "load_signing_material home d' (esign_block_of e au d') = Some (c, old)"
    and "\<not> material_ok rd now (Some (c, old)) []" and "ensure_signing_material e au g d' = d'"
proof -
  have "d' = d(au_cert au \<mapsto> c)"
    using assms(1-7) by (auto simp: ensure_signing_material_def no_explicit_def plain_paths_def esign_block_of_def Let_def)
  then have f: "d' (au_cert au) = Some c" "d' (au_key au) = Some old" using assms(2,4) by (auto simp: plain_paths_def)
  show "load_signing_material home d' (esign_block_of e au d') = Some (c, old)" by (rule provisioned_files [OF assms(1,2) f assms(5,6)])
  show "\<not> material_ok rd now (Some (c, old)) []" using assms(8) by (auto simp: material_ok_def split: option.splits)
  show "ensure_signing_material e au g d' = d'" by (simp add: ensure_signing_material_def Let_def f)
qed

section \<open>As the engine reads it\<close>

definition with_material :: "environ \<Rightarrow> autocert \<Rightarrow> (string \<Rightarrow> string) \<Rightarrow> disk \<Rightarrow> pair_reader \<Rightarrow> time \<Rightarrow> engine \<Rightarrow> engine" where
  "with_material e au home d rd now eng =
     (let m = load_signing_material home d (esign_block_of e au d) in
      eng\<lparr>en_material_configured := (m \<noteq> None), en_material_ok := material_ok rd now m (eb_passphrase (esign_block_of e au d)),
          en_mail_from := env_get e ''MAIL_FROM'' [], en_public_base := public_base e\<rparr>)"

end
