(* ===== verification/Spec2Isabelle.thy ===== *)
theory Spec2Isabelle
  imports Recovery Signin HookRoutes Console Dialect Client Mailer Google Certificate Fontmap Config
begin

text \<open>
  Verification development of Lifted Sign (\<open>src/sign/\<close>), a multi-tenant electronic-signature service: a sender
  uploads a PDF, names signers, places fields and sends; each signer opens a mailed link, passes the sender's
  access lock, consents and signs; the last signature seals the document; owners, signers and the auditor
  download the sealed copy and its certificate. The models are written from the Python source, one definition
  per function or route, in the order of the code, and are executable.

  \<^bold>\<open>Shape of the models.\<close> A table of the database is a list of records in row order, in a world
  (\<open>Schema.world\<close>) with the id counters, the files by path, the mail that was accepted and the webhook events
  that were emitted. The account store, its keys and the throttling tables are a second record
  (\<open>Accounts.portal\<close>), and both together a site (\<open>Access.site\<close>). A function of the code that writes returns its
  answer and the new state; each exit of the code (an early return, a refused gate, an exception) is a value
  of an answer datatype, and an exception that leaves a function is its \<open>Raise\<close> case. The clock reading, fresh
  tokens and salts are arguments. Time and fractions are reals, ids and page numbers unbounded integers as in
  Python, strings are lists of characters up to code 255 (no claim is made beyond Latin-1), JSON is the
  datatype \<open>Prelude.json\<close>.

  \<^bold>\<open>What is a parameter.\<close> Code outside \<open>src/\<close> is an argument: \<open>Sealing\<close>'s and the drafting operations'
  \<open>engine\<close> record (pikepdf pages, stamping, certificate rendering, PAdES and AES sealing, SHA-256, mail
  acceptance, text of floats), \<open>Tokens.auth_env\<close> (HMAC, PBKDF2, the JSON codec), \<open>Accounts.fernet\<close>,
  \<open>Portal.portal_env\<close> (Twilio), \<open>Placement.extractor\<close> (what pdfplumber reads), \<open>Webhooks.net_env\<close> and
  \<open>delivery_env\<close> (name resolution, the HTTP client), \<open>Access.access_env\<close>. Where a property needs a fact about one
  of them (a codec that reads back what it wrote) the fact is a named hypothesis, and a witness instantiates it.

  \<^bold>\<open>Theories, by layer.\<close>
  \<^item> \<open>Prelude\<close>, \<open>Base64\<close>, \<open>Dates\<close>: the Python run time that is used (string methods, \<open>int()\<close>, truth of JSON
    values, SQL row helpers), base64, and birth-date parsing of the access lock.
  \<^item> \<open>Schema\<close>, \<open>Reads\<close>: the tables of \<open>sign/esign.py\<close>, their row-store contract (\<open>locale row_store\<close>, interpreted on
    agreements, signers and accounts), owner-scoped reads and the gates on links.
  \<^item> \<open>PdfOps\<close>, \<open>Drafting\<close>, \<open>Placement\<close>, \<open>Templates\<close>: page operations (\<open>sign/pdf_ops.py\<close>), everything a draft
    allows with the remaps of fields and edited pages, field placement by anchor, points and fractions with
    detection of merge tokens and labels, and templates.
  \<^item> \<open>Signing\<close>, \<open>Submission\<close>, \<open>Sealing\<close>: \<open>send\<close> with the frozen copy, reminders and the signing page; submission with
    its gates, decline and expiry; the seal with its claim, commit and release.
  \<^item> \<open>Lifecycle\<close>: one transition relation (\<open>step\<close>) over all engine requests, with the three transactions of a
    seal interleaved with everything else and with crashes of workers. \<open>Recovery\<close>: an interrupted seal is
    finished by a later request.
  \<^item> \<open>Throttle\<close>, \<open>Tokens\<close>, \<open>Accounts\<close>, \<open>Portal\<close>, \<open>Signin\<close>: settings, one-time claims, lock-outs and rate limits
    (\<open>sign/db.py\<close>); signed tokens (\<open>locale signed_tokens\<close>) and TOTP (\<open>sign/webauth.py\<close>); accounts, keys and
    encryption at rest; sessions and factors; the sign-in routes.
  \<^item> \<open>Gates\<close>, \<open>Access\<close>, \<open>Envelope\<close>: what each request passes first (\<open>sign/http_helpers.py\<close>, \<open>ratelimit.py\<close>, the
    middleware of \<open>app.py\<close>); the access lock, mailed codes and envelope sessions (\<open>sign/esign_access.py\<close>); the
    signer-facing routes (\<open>routers/signer.py\<close>, \<open>routers/envelope.py\<close>).
  \<^item> \<open>Tenancy\<close>, \<open>Api\<close>, \<open>Console\<close>: what an operation on one agreement may write; all routes of \<open>routers/mysign.py\<close>
    as \<open>serve\<close>, with the contract of a service for many tenants (\<open>locale multi_tenant\<close>) interpreted on it; the
    operator console.
  \<^item> \<open>Webhooks\<close>: subscriptions, selectors, the guard against internal addresses, signed delivery with retries.
    \<open>Dialect\<close>: the rewriting of SQL for Postgres.
  \<^item> \<open>HookRoutes\<close>, \<open>Client\<close>: the webhook routes (\<open>routers/webhooks.py\<close>), and the Python client (\<open>sdks/lifted_sign.py\<close>)
    over an arbitrary server, composed with the listing route. \<open>Mailer\<close>, \<open>Google\<close>: the HTML of every mail and its
    sending (\<open>sign/mailer.py\<close>, \<open>sign/integrations.py\<close>), the Google client (\<open>sign/hub_auth.py\<close>) with its callbacks.
  \<^item> \<open>Stamping\<close>, \<open>Certificate\<close>: what is drawn into a document, as drawing commands: the stamps, added text and replaced
    runs (\<open>sign/pdf_stamp.py\<close>, \<open>sign/pdf_edit.py\<close>), of which \<open>stamp_fields\<close> is an instance of the engine's stamping, and
    the layout of the certificate with its evidence and audit trail (\<open>sign/pdf_cert.py\<close>).
  \<^item> \<open>Redaction\<close>: redaction, rendering and inspection of pages and replacement of text in place (\<open>sign/pdf_redact.py\<close>,
    \<open>sign/pdf_render.py\<close>, \<open>sign/pdf_editext.py\<close>), as instances of the engine's functions (\<open>edits_engine\<close>).
    \<open>Fontmap\<close>: the face that edited text is redrawn in (\<open>sign/fontmap.py\<close>).
  \<^item> \<open>Config\<close>: the readers of the environment (\<open>sign/config.py\<close>) and the provisioning, loading and checking of the
    signing certificate and key.
  \<^bold>\<open>What the lemmas show.\<close> \<open>Lifecycle\<close> carries an invariant (\<open>sound\<close>, with pins of frozen copies) through every
  request and every interleaving: the bytes shown and handed out hash to what the rows record, and do not
  change after sending. \<open>Submission\<close> and \<open>Sealing\<close> give the functional behaviour on every branch: who may sign, what
  is written, what the executed copy is made of, that a claim is exclusive and that completion happens once.
  \<open>Tenancy\<close> proves, for each engine operation, that it writes the rows and files of its own agreement only
  (\<open>mine\<close>); \<open>Api\<close> lifts this to every route: the database stays typed, tenants are isolated, a foreign agreement
  is answered like a missing one, and each route is a run of \<open>Lifecycle\<close>'s relation, so the invariants of the
  reachable states hold under the API. \<open>Stamping\<close> and \<open>Certificate\<close> show that no
  value, event or signer is lost between the rows and what is drawn, and that no secret is; \<open>Redaction\<close>
  shows that nothing is left under a redacted region. The authentication theories show that a session, key, code or
  link opens exactly its own account or envelope, for its time, and that guesses are bounded. Lemmas named in
  the findings of the manifest state on the model where the code departs from what it means to do.

  \<^bold>\<open>Loops.\<close> Python loops over lists are structural recursion or folds. \<open>while\<close> loops are partial functions
  (\<open>partial_function (option)\<close>), and that they return is a theorem (\<open>Dialect\<close>, \<open>Client\<close>), or functions with a measure
  (\<open>shrink\<close>, \<open>flow_words\<close>). The delivery loop
  recurses on the attempts left, at most three. No definition uses fuel.

  \<^bold>\<open>Not modelled\<close>, and why. The bytes reportlab and pypdf make of drawing commands, pdfium's
  pixels and pdfplumber's characters, the tables of font files, and the PAdES and AES back ends work on PDF files through
  third-party libraries: what the code passes them and what it does with their answer or failure is modelled,
  their output is a parameter. Transport is not modelled: SMTP, the Google and Twilio clients,
  connections, pools and migrations, response headers and static pages. Concurrency is interleaving of whole
  transactions; a partial write inside one transaction is not. The clock of one request is read once.
\<close>

end
